(* ===== verification/Prelude.thy ===== *)
theory Prelude
  imports Complex_Main "HOL-Library.Word" "HOL-Library.AList"
begin

text \<open>
  Shared vocabulary of the development: the exceptions of the program as one datatype, results
  as sums (\<open>Inl\<close> is a raised exception, \<open>Inr\<close> a returned value), sequencing of fallible calls,
  sequences of guards, the integer-width tests every codec uses, and generic facts about
  association lists (Python dictionaries keep insertion order and are updated in place, as
  \<open>AList.update\<close> does).
\<close>

section \<open>Results and exceptions\<close>

text \<open>
  One constructor for each exception class the modelled code raises, with the message it raises.
  Where the source interpolates values into a message, the model keeps its fixed part.
  \<open>StructError\<close> is \<open>struct.error\<close>, raised by Python's \<open>struct\<close> module itself. \<open>GeneratorExit\<close> is what
  the interpreter raises inside a generator whose consumer drops it; like \<open>KeyboardInterrupt\<close> it is a
  \<open>BaseException\<close>, which an \<open>except Exception\<close> clause does not catch.
\<close>

datatype exn =
    ProtocolError string
  | ValueError string
  | StructError
  | KeyError
  | IndexError
  | RuntimeError string
  | HopProtocolError string
  | HopClientError string
  | FlashSafetyError string string
  | FirmwareImageError string
  | FirmwareAuthorizationError string
  | ScanProtocolError string
  | ScanTransportError string
  | RecoveryError string string
  | OSError
  | TypeError string
  | RadioConfigurationError string
  | GeneratorExit
  | KeyboardInterrupt

type_synonym 'a result = "exn + 'a"

definition bindE :: "'a result \<Rightarrow> ('a \<Rightarrow> 'b result) \<Rightarrow> 'b result" where
  "bindE m f = (case m of Inl e \<Rightarrow> Inl e | Inr x \<Rightarrow> f x)"

lemma bindE_simps [simp]: "bindE (Inl e) f = Inl e" "bindE (Inr x) f = f x"
  by (simp_all add: bindE_def)

lemma bindE_Inr_iff: "bindE m f = Inr y \<longleftrightarrow> (\<exists>x. m = Inr x \<and> f x = Inr y)"
  by (cases m) simp_all

lemma bindE_InrE [elim]:
  assumes "bindE m f = Inr y"
  obtains x where "m = Inr x" and "f x = Inr y"
  using assms by (auto simp: bindE_Inr_iff)

text \<open>
  A run of \<open>if condition: raise error\<close> statements: the first condition that holds raises.
\<close>

fun checks :: "(bool \<times> exn) list \<Rightarrow> unit result" where
  "checks [] = Inr ()"
| "checks ((c, e) # cs) = (if c then Inl e else checks cs)"

lemma checks_ok_iff: "checks cs = Inr () \<longleftrightarrow> (\<forall>(c, e) \<in> set cs. \<not> c)"
  by (induction cs rule: checks.induct) auto

lemma checks_append [simp]: "checks (cs @ ds) = bindE (checks cs) (\<lambda>_. checks ds)"
  by (induction cs rule: checks.induct) auto

text \<open>Passing a guard list is the conjunction of the negated conditions, one guard at a time.\<close>

lemma checks_pass [simp]: "checks (x # cs) = Inr () \<longleftrightarrow> \<not> fst x \<and> checks cs = Inr ()"
  by (cases x) simp

lemma checks_cases: "checks cs = Inr () \<or> (\<exists>e. checks cs = Inl e \<and> e \<in> snd ` set cs)"
  by (induction cs rule: checks.induct) auto

text \<open>Every raised exception of a list of guards satisfies what all its errors satisfy.\<close>

lemma checks_errors: "checks cs = Inl e \<Longrightarrow> \<forall>x \<in> set cs. P (snd x) \<Longrightarrow> P e"
  by (induction cs rule: checks.induct) (auto split: if_splits)

text \<open>A comprehension whose element expression may raise.\<close>

fun mapE :: "('a \<Rightarrow> 'b result) \<Rightarrow> 'a list \<Rightarrow> 'b list result" where
  "mapE f [] = Inr []"
| "mapE f (x # xs) = bindE (f x) (\<lambda>y. bindE (mapE f xs) (\<lambda>ys. Inr (y # ys)))"

lemma mapE_Inr_iff: "mapE f xs = Inr ys \<longleftrightarrow> list_all2 (\<lambda>x y. f x = Inr y) xs ys"
  by (induction xs arbitrary: ys)
     (auto simp: bindE_Inr_iff list_all2_Cons1)

lemma mapE_length: "mapE f xs = Inr ys \<Longrightarrow> length ys = length xs"
  by (auto simp: mapE_Inr_iff dest: list_all2_lengthD)

lemma mapE_map: "mapE f (map g xs) = mapE (\<lambda>x. f (g x)) xs"
  by (induction xs) auto

lemma mapE_all: "(\<And>x. x \<in> set xs \<Longrightarrow> f x = Inr (g x)) \<Longrightarrow> mapE f xs = Inr (map g xs)"
  by (induction xs) auto

lemmas checks_eval = checks.simps

declare checks.simps(2) [simp del]

section \<open>Integer widths and flag words\<close>

text \<open>
  The source's \<open>_uint(name, value, bits)\<close> test. Python integers are \<open>int\<close>; a value is accepted
  when it lies in \<open>[0, 2 ^ bits)\<close>. \<open>IntFlag\<close> values are integers too; \<open>has\<close> is
  \<open>bool(flags & mask)\<close> and \<open>extra\<close> is \<open>flags & ~mask\<close>.
\<close>

unbundle bit_operations_syntax

definition in_uint :: "nat \<Rightarrow> int \<Rightarrow> bool" where
  "in_uint bits v \<longleftrightarrow> 0 \<le> v \<and> v < 2 ^ bits"

definition in_sint :: "nat \<Rightarrow> int \<Rightarrow> bool" where
  "in_sint bits v \<longleftrightarrow> - (2 ^ (bits - 1)) \<le> v \<and> v < 2 ^ (bits - 1)"

definition has :: "int \<Rightarrow> int \<Rightarrow> bool" where
  "has flags m \<longleftrightarrow> flags AND m \<noteq> 0"

definition extra :: "int \<Rightarrow> int \<Rightarrow> bool" where
  "extra flags m \<longleftrightarrow> flags AND NOT m \<noteq> 0"

definition lacks :: "int \<Rightarrow> int \<Rightarrow> bool" where
  "lacks flags required \<longleftrightarrow> flags AND required \<noteq> required"

text \<open>
  \<open>~F(v)\<close> for an \<open>IntFlag\<close> class \<open>F\<close> whose members cover the contiguous bits \<open>all\<close>, and \<open>v\<close>
  within them: since Python 3.11 the complement is taken inside the members of the class
  (\<open>enum.Flag.__invert__\<close> and \<open>_missing_\<close> with the \<open>KEEP\<close> boundary map the negative value
  \<open>~v\<close> to \<open>all + 1 + ~v\<close>), unlike \<open>~int(v)\<close>. In particular \<open>~F(all)\<close> is the empty flag.
\<close>

definition flag_invert :: "int \<Rightarrow> int \<Rightarrow> int" where
  "flag_invert all v = all + 1 + NOT v"

lemma flag_invert_all [simp]: "flag_invert all all = 0"
  by (simp add: flag_invert_def not_int_def)

text \<open>A flag word with no bit outside a mask of \<open>n\<close> low bits is below \<open>2 ^ n\<close>.\<close>

lemma no_extra_eq: "\<not> extra f (mask n) \<Longrightarrow> f = take_bit n f"
proof -
  assume "\<not> extra f (mask n)"
  then have "f AND NOT (mask n) = 0" by (simp add: extra_def)
  moreover have "f = (f AND mask n) OR (f AND NOT (mask n))"
    by (rule bit_eqI) (auto simp: bit_simps)
  ultimately show ?thesis by (simp add: take_bit_eq_mask)
qed

lemma no_extra_bound: "\<not> extra f (mask n) \<Longrightarrow> 0 \<le> f \<and> f < 2 ^ n"
  by (metis no_extra_eq take_bit_nonnegative take_bit_int_less_exp)

section \<open>Association lists\<close>

lemma map_of_delete_self [simp]: "map_of (AList.delete k xs) k = None"
  by (simp add: AList.delete_conv')

lemma map_of_delete_other [simp]: "k' \<noteq> k \<Longrightarrow> map_of (AList.delete k xs) k' = map_of xs k'"
  by (simp add: AList.delete_conv')

lemma map_of_update_simp [simp]:
  "map_of (AList.update k v xs) k' = (if k' = k then Some v else map_of xs k')"
  by (simp add: AList.update_conv')

lemma fst_set_update: "fst ` set (AList.update k v xs) = insert k (fst ` set xs)"
  by (simp add: dom_map_of_conv_image_fst [symmetric] AList.update_conv' dom_fun_upd)

lemma length_update_new: "map_of xs k = None \<Longrightarrow> length (AList.update k v xs) = Suc (length xs)"
  by (induction xs) (auto split: if_splits)

lemma length_update_old: "map_of xs k = Some w \<Longrightarrow> length (AList.update k v xs) = length xs"
  by (induction xs) (auto split: if_splits)

lemma update_new_append: "map_of xs k = None \<Longrightarrow> AList.update k v xs = xs @ [(k, v)]"
  by (induction xs) (auto split: if_splits)

lemma set_delete_subset: "set (AList.delete k xs) \<subseteq> set xs"
  by (auto simp: AList.delete_eq)

lemma length_delete_le [simp]: "length (AList.delete k xs) \<le> length xs"
  by (simp add: AList.delete_eq)

lemma sum_delete:
  fixes h :: "'v \<Rightarrow> int"
  assumes "distinct (map fst xs)" and "map_of xs k = Some v"
  shows "(\<Sum>x \<leftarrow> AList.delete k xs. h (snd x)) = (\<Sum>x \<leftarrow> xs. h (snd x)) - h v"
  using assms
proof (induction xs)
  case (Cons x xs)
  show ?case
  proof (cases "fst x = k")
    case True
    with Cons.prems(1) have "k \<notin> fst ` set xs" by auto
    then have "AList.delete k xs = xs" by (force simp: AList.delete_eq filter_id_conv)
    with True Cons.prems(2) show ?thesis by (cases x) (simp add: AList.delete_eq)
  next
    case False
    with Cons show ?thesis by (cases x) (simp add: AList.delete_eq)
  qed
qed simp

lemma sum_update_old:
  fixes h :: "'v \<Rightarrow> int"
  assumes "map_of xs k = Some v"
  shows "(\<Sum>x \<leftarrow> AList.update k w xs. h (snd x)) = (\<Sum>x \<leftarrow> xs. h (snd x)) - h v + h w"
  using assms by (induction xs) (auto split: if_splits)

lemma update_values:
  "x \<in> set (AList.update k v xs) \<Longrightarrow> distinct (map fst xs) \<Longrightarrow> x = (k, v) \<or> (x \<in> set xs \<and> fst x \<noteq> k)"
  by (induction xs) (auto split: if_splits simp: image_iff)

section \<open>Which exceptions a computation raises\<close>

definition raises :: "(exn \<Rightarrow> bool) \<Rightarrow> 'a result \<Rightarrow> bool" where
  "raises P m \<longleftrightarrow> (\<forall>e. m = Inl e \<longrightarrow> P e)"

named_theorems raise_intro

lemma raises_Inr [simp, raise_intro]: "raises P (Inr x)"
  by (simp add: raises_def)

lemma raises_Inl [simp]: "raises P (Inl e) = P e"
  by (simp add: raises_def)

lemma raises_checks [raise_intro]: "list_all (\<lambda>c. P (snd c)) cs \<Longrightarrow> raises P (checks cs)"
  using checks_errors [of cs _ P] by (auto simp: raises_def list_all_iff)

lemma raises_bindE [raise_intro]:
  "raises P m \<Longrightarrow> (\<And>x. m = Inr x \<Longrightarrow> raises P (f x)) \<Longrightarrow> raises P (bindE m f)"
  by (cases m) simp_all

lemma raises_mapE [raise_intro]: "(\<And>x. x \<in> set xs \<Longrightarrow> raises P (f x)) \<Longrightarrow> raises P (mapE f xs)"
  by (induction xs) (auto intro!: raises_bindE)

lemma raises_if [raise_intro]:
  "(b \<Longrightarrow> raises P m) \<Longrightarrow> (\<not> b \<Longrightarrow> raises P n) \<Longrightarrow> raises P (if b then m else n)"
  by simp

lemma raises_mono: "raises P m \<Longrightarrow> (\<And>e. P e \<Longrightarrow> Q e) \<Longrightarrow> raises Q m"
  by (simp add: raises_def)

section \<open>Runs of a state machine\<close>

text \<open>
  A component with state is a step that returns the new state and an outcome; a run feeds it a
  list of inputs. An invariant every step keeps holds after every run.
\<close>

fun run :: "('s \<Rightarrow> 'i \<Rightarrow> 's \<times> 'o) \<Rightarrow> 's \<Rightarrow> 'i list \<Rightarrow> 's \<times> 'o list" where
  "run step s [] = (s, [])"
| "run step s (i # is) =
     (case step s i of (s1, out) \<Rightarrow> (case run step s1 is of (s2, outs) \<Rightarrow> (s2, out # outs)))"

lemma run_append:
  "run step s (xs @ ys) =
     (case run step s xs of (s1, os1) \<Rightarrow> (case run step s1 ys of (s2, os2) \<Rightarrow> (s2, os1 @ os2)))"
  by (induction xs arbitrary: s) (auto split: prod.splits)

locale state_machine =
  fixes step :: "'s \<Rightarrow> 'i \<Rightarrow> 's \<times> 'o"
    and inv :: "'s \<Rightarrow> bool"
  assumes inv_step: "inv s \<Longrightarrow> inv (fst (step s i))"
begin

lemma inv_run: "inv s \<Longrightarrow> inv (fst (run step s is))"
proof (induction "is" arbitrary: s)
  case (Cons i "is")
  then have "inv (fst (run step (fst (step s i)) is))" by (simp add: inv_step)
  then show ?case by (simp add: case_prod_beta)
qed simp

end

end
