(* ===== verification/Wire.thy ===== *)
theory Wire
  imports Prelude
begin

text \<open>
  What the program uses of Python's \<open>struct\<close>, \<open>int.from_bytes\<close> and \<open>zlib.crc32\<close>:
  little-endian formats as lists of field kinds, packing (which raises \<open>struct.error\<close> on a
  value outside its field), unpacking, and the bit-serial CRC-32. The generic round trips of this
  theory carry every codec of the development; the locales \<open>wire_codec\<close> and
  \<open>fixed_codec\<close> are the contract a record codec offers to the codecs that embed it.
\<close>

section \<open>Little-endian integers\<close>

type_synonym byte = "8 word"
type_synonym bytes = "byte list"

fun le_bytes :: "nat \<Rightarrow> int \<Rightarrow> bytes" where
  "le_bytes 0 n = []"
| "le_bytes (Suc k) n = word_of_int n # le_bytes k (n div 256)"

fun le_value :: "bytes \<Rightarrow> int" where
  "le_value [] = 0"
| "le_value (b # bs) = uint b + 256 * le_value bs"

definition sle_value :: "bytes \<Rightarrow> int" where
  "sle_value bs =
     (let v = le_value bs; h = 2 ^ (8 * length bs - 1) in if h \<le> v then v - 2 * h else v)"

lemma length_le_bytes [simp]: "length (le_bytes k n) = k"
  by (induction k arbitrary: n) auto

lemma uint_byte_bounds: "0 \<le> uint (b :: byte)" "uint (b :: byte) < 256"
  using uint_lt2p [of b] by simp_all

lemma le_value_bounds: "0 \<le> le_value bs" "le_value bs < 256 ^ length bs"
proof -
  show "0 \<le> le_value bs"
    by (induction bs) (auto simp: uint_byte_bounds)
  show "le_value bs < 256 ^ length bs"
  proof (induction bs)
    case (Cons b bs)
    from Cons have "le_value bs + 1 \<le> 256 ^ length bs" by simp
    moreover have "uint b < 256" by (rule uint_byte_bounds)
    ultimately show ?case by simp
  qed simp
qed

lemma le_value_le_bytes_mod: "le_value (le_bytes k n) = n mod 256 ^ k"
proof (induction k arbitrary: n)
  case (Suc k)
  have u: "uint (word_of_int n :: byte) = n mod 256"
    by (simp add: uint_word_of_int)
  have "n mod 256 + 256 * (n div 256 mod 256 ^ k) = n mod (256 * 256 ^ k)"
    by (subst zmod_zmult2_eq) simp_all
  with Suc show ?case by (simp add: u)
qed simp

lemma le_value_le_bytes: "0 \<le> n \<Longrightarrow> n < 256 ^ k \<Longrightarrow> le_value (le_bytes k n) = n"
  by (simp add: le_value_le_bytes_mod)

lemma le_bytes_le_value: "k = length bs \<Longrightarrow> le_bytes k (le_value bs) = bs"
proof (induction bs arbitrary: k)
  case (Cons b bs)
  have "(uint b + 256 * le_value bs) div 256 = le_value bs"
    using uint_byte_bounds [of b] by simp
  moreover have "word_of_int (uint b + 256 * le_value bs) = b"
  proof -
    have "uint (word_of_int (uint b + 256 * le_value bs) :: byte) = uint b"
      using uint_byte_bounds [of b] by (simp only: uint_word_of_int) simp
    then show ?thesis by (simp add: word_uint_eq_iff)
  qed
  ultimately show ?case using Cons by simp
qed simp

lemma le_bytes_cong: "n mod 256 ^ k = m mod 256 ^ k \<Longrightarrow> le_bytes k n = le_bytes k m"
  by (metis le_bytes_le_value le_value_le_bytes_mod length_le_bytes)

lemma pow256: "(256 :: int) ^ k = 2 ^ (8 * k)"
  by (simp add: power_mult)

lemma sle_value_bounds:
  assumes "bs \<noteq> []"
  shows "- (2 ^ (8 * length bs - 1)) \<le> sle_value bs" "sle_value bs < 2 ^ (8 * length bs - 1)"
proof -
  from assms have "8 * length bs = Suc (8 * length bs - 1)" by (cases bs) simp_all
  then have "(256 :: int) ^ length bs = 2 * 2 ^ (8 * length bs - 1)"
    by (metis pow256 power_Suc)
  with le_value_bounds [of bs]
  show "- (2 ^ (8 * length bs - 1)) \<le> sle_value bs" "sle_value bs < 2 ^ (8 * length bs - 1)"
    by (auto simp: sle_value_def Let_def)
qed

lemma le_bytes_sle_value:
  assumes "k = length bs"
  shows "le_bytes k (sle_value bs) = bs"
proof (cases "bs = []")
  case False
  then have "8 * length bs = Suc (8 * length bs - 1)" by (cases bs) simp_all
  then have p: "(2 :: int) * 2 ^ (8 * length bs - 1) = 256 ^ length bs"
    by (metis pow256 power_Suc)
  have "sle_value bs mod 256 ^ length bs = le_value bs mod 256 ^ length bs"
    by (simp only: sle_value_def Let_def p) simp
  then have "le_bytes k (sle_value bs) = le_bytes k (le_value bs)"
    using assms by (intro le_bytes_cong) simp
  then show ?thesis using assms by (simp add: le_bytes_le_value)
qed (simp add: assms)

lemma sle_value_le_bytes:
  assumes "0 < k" and "- (2 ^ (8 * k - 1)) \<le> n" and "n < 2 ^ (8 * k - 1)"
  shows "sle_value (le_bytes k n) = n"
proof -
  let ?h = "2 ^ (8 * k - 1) :: int"
  from assms(1) have "8 * k = Suc (8 * k - 1)" by simp
  then have p: "(256 :: int) ^ k = 2 * ?h" by (metis pow256 power_Suc)
  show ?thesis
  proof (cases "0 \<le> n")
    case True
    with assms p have "le_value (le_bytes k n) = n" by (simp add: le_value_le_bytes)
    with assms(3) show ?thesis by (simp add: sle_value_def Let_def)
  next
    case False
    have "n mod 256 ^ k = n + 2 * ?h"
    proof -
      have "n mod (2 * ?h) = (n + 2 * ?h) mod (2 * ?h)" by simp
      also have "\<dots> = n + 2 * ?h" using False assms by (intro mod_pos_pos_trivial) auto
      finally show ?thesis by (simp only: p)
    qed
    then show ?thesis using assms False
      by (simp add: sle_value_def Let_def le_value_le_bytes_mod)
  qed
qed

section \<open>Formats and records: the struct module\<close>

text \<open>
  A format character becomes a field kind: \<open>B H I Q\<close> are unsigned fields of 1, 2, 4 and 8
  bytes, \<open>b i q\<close> signed ones, \<open>Ns\<close> raw bytes. The formats of the program all start with
  \<open><\<close>: little-endian, standard sizes, no padding.
\<close>

datatype field = FU nat | FS nat | FRaw nat

datatype val = VInt int | VBytes bytes

fun field_size :: "field \<Rightarrow> nat" where
  "field_size (FU k) = k"
| "field_size (FS k) = k"
| "field_size (FRaw k) = k"

definition struct_size :: "field list \<Rightarrow> nat" where
  "struct_size fs = sum_list (map field_size fs)"

fun packable :: "field \<Rightarrow> val \<Rightarrow> bool" where
  "packable (FU k) (VInt n) = (0 \<le> n \<and> n < 256 ^ k)"
| "packable (FS k) (VInt n) = (- (2 ^ (8 * k - 1)) \<le> n \<and> n < 2 ^ (8 * k - 1))"
| "packable (FRaw k) (VBytes b) = True"
| "packable _ _ = False"

text \<open>\<open>Ns\<close> truncates a longer byte string and pads a shorter one with zero bytes.\<close>

fun field_bytes :: "field \<Rightarrow> val \<Rightarrow> bytes" where
  "field_bytes (FU k) (VInt n) = le_bytes k n"
| "field_bytes (FS k) (VInt n) = le_bytes k n"
| "field_bytes f (VBytes b) = take (field_size f) (b @ replicate (field_size f) 0)"
| "field_bytes f (VInt n) = replicate (field_size f) 0"

fun field_value :: "field \<Rightarrow> bytes \<Rightarrow> val" where
  "field_value (FU k) bs = VInt (le_value bs)"
| "field_value (FS k) bs = VInt (sle_value bs)"
| "field_value (FRaw k) bs = VBytes bs"

fun struct_bytes :: "field list \<Rightarrow> val list \<Rightarrow> bytes" where
  "struct_bytes (f # fs) (v # vs) = field_bytes f v @ struct_bytes fs vs"
| "struct_bytes _ _ = []"

fun struct_values :: "field list \<Rightarrow> bytes \<Rightarrow> val list" where
  "struct_values [] bs = []"
| "struct_values (f # fs) bs =
     field_value f (take (field_size f) bs) # struct_values fs (drop (field_size f) bs)"

definition struct_pack :: "field list \<Rightarrow> val list \<Rightarrow> bytes result" where
  "struct_pack fs vs = (if list_all2 packable fs vs then Inr (struct_bytes fs vs) else Inl StructError)"

definition struct_unpack :: "field list \<Rightarrow> bytes \<Rightarrow> val list result" where
  "struct_unpack fs bs =
     (if length bs = struct_size fs then Inr (struct_values fs bs) else Inl StructError)"

text \<open>\<open>struct.unpack_from\<close> reads at an offset and ignores what follows the record.\<close>

definition struct_unpack_from :: "field list \<Rightarrow> bytes \<Rightarrow> nat \<Rightarrow> val list result" where
  "struct_unpack_from fs bs off =
     (if struct_size fs + off \<le> length bs then Inr (struct_values fs (drop off bs)) else Inl StructError)"

text \<open>\<open>struct.pack_into\<close> overwrites the record's bytes in a mutable buffer.\<close>

definition overwrite :: "nat \<Rightarrow> bytes \<Rightarrow> bytes \<Rightarrow> bytes" where
  "overwrite off new bs = take off bs @ new @ drop (off + length new) bs"

fun as_int :: "val \<Rightarrow> int" where
  "as_int (VInt n) = n"
| "as_int (VBytes b) = le_value b"

fun as_bytes :: "val \<Rightarrow> bytes" where
  "as_bytes (VBytes b) = b"
| "as_bytes (VInt n) = []"

text \<open>A value that survives a round trip through its field: raw bytes of exactly the width.\<close>

fun fits :: "field \<Rightarrow> val \<Rightarrow> bool" where
  "fits (FU k) (VInt n) = (0 \<le> n \<and> n < 256 ^ k)"
| "fits (FS k) (VInt n) = (0 < k \<and> - (2 ^ (8 * k - 1)) \<le> n \<and> n < 2 ^ (8 * k - 1))"
| "fits (FRaw k) (VBytes b) = (length b = k)"
| "fits _ _ = False"

lemma fits_packable: "fits f v \<Longrightarrow> packable f v"
  by (induction f v rule: fits.induct) auto

lemma length_field_bytes [simp]: "length (field_bytes f v) = field_size f"
  by (induction f v rule: field_bytes.induct) auto

lemma length_struct_bytes: "length fs = length vs \<Longrightarrow> length (struct_bytes fs vs) = struct_size fs"
  by (induction fs vs rule: struct_bytes.induct) (auto simp: struct_size_def)

lemma length_struct_values [simp]: "length (struct_values fs bs) = length fs"
  by (induction fs arbitrary: bs) auto

lemma field_round_trip: "fits f v \<Longrightarrow> field_value f (field_bytes f v) = v"
  by (induction f v rule: fits.induct) (auto simp: le_value_le_bytes sle_value_le_bytes)

lemma struct_round_trip:
  "list_all2 fits fs vs \<Longrightarrow> struct_values fs (struct_bytes fs vs @ rest) = vs"
proof (induction fs vs rule: list_all2_induct)
  case (Cons f fs v vs)
  then show ?case by (simp add: field_round_trip)
qed simp

lemma struct_round_trip0: "list_all2 fits fs vs \<Longrightarrow> struct_values fs (struct_bytes fs vs) = vs"
  using struct_round_trip [of fs vs "[]"] by simp

lemma field_reverse:
  "length bs = field_size f \<Longrightarrow> field_bytes f (field_value f bs) = bs"
  by (cases f) (auto simp: le_bytes_le_value le_bytes_sle_value)

lemma field_value_fits:
  "length bs = field_size f \<Longrightarrow> 0 < field_size f \<Longrightarrow> fits f (field_value f bs)"
  using le_value_bounds [of bs] sle_value_bounds [of bs]
  by (cases f) (auto simp del: length_greater_0_conv)

lemma struct_reverse:
  "length bs = struct_size fs \<Longrightarrow> struct_bytes fs (struct_values fs bs) = bs"
proof (induction fs arbitrary: bs)
  case (Cons f fs)
  then have "length (take (field_size f) bs) = field_size f"
    by (simp add: struct_size_def)
  moreover have "struct_bytes fs (struct_values fs (drop (field_size f) bs)) = drop (field_size f) bs"
    using Cons by (simp add: struct_size_def)
  ultimately show ?case by (simp add: field_reverse)
qed (simp add: struct_size_def)

lemma struct_values_fit:
  "struct_size fs \<le> length bs \<Longrightarrow> \<forall>f \<in> set fs. 0 < field_size f \<Longrightarrow>
     list_all2 fits fs (struct_values fs bs)"
  by (induction fs arbitrary: bs) (auto simp: struct_size_def field_value_fits)

lemma struct_pack_Inr:
  "struct_pack fs vs = Inr bs \<longleftrightarrow> list_all2 packable fs vs \<and> bs = struct_bytes fs vs"
  by (auto simp: struct_pack_def)

lemma struct_unpack_Inr:
  "struct_unpack fs bs = Inr vs \<longleftrightarrow> length bs = struct_size fs \<and> vs = struct_values fs bs"
  by (auto simp: struct_unpack_def)

lemma length_struct_pack: "struct_pack fs vs = Inr bs \<Longrightarrow> length bs = struct_size fs"
  by (auto simp: struct_pack_Inr length_struct_bytes dest: list_all2_lengthD)

text \<open>The two directions, as the codecs use them.\<close>

lemma struct_unpack_pack:
  "struct_pack fs vs = Inr bs \<Longrightarrow> list_all2 fits fs vs \<Longrightarrow> struct_unpack fs bs = Inr vs"
  by (auto simp: struct_pack_Inr struct_unpack_Inr length_struct_bytes struct_round_trip0
      dest: list_all2_lengthD)

lemma struct_pack_unpack:
  assumes "struct_unpack fs bs = Inr vs" and "\<forall>f \<in> set fs. 0 < field_size f"
  shows "struct_pack fs vs = Inr bs" and "list_all2 fits fs vs"
proof -
  from assms have len: "length bs = struct_size fs" and vs: "vs = struct_values fs bs"
    by (auto simp: struct_unpack_Inr)
  show fit: "list_all2 fits fs vs"
    using assms(2) len by (simp add: vs struct_values_fit)
  then have "list_all2 packable fs vs"
    by (rule list_all2_mono) (rule fits_packable)
  then show "struct_pack fs vs = Inr bs"
    by (simp add: struct_pack_Inr vs struct_reverse len)
qed

definition int_at :: "val list \<Rightarrow> nat \<Rightarrow> int" where
  "int_at vs i = as_int (vs ! i)"

definition bytes_at :: "val list \<Rightarrow> nat \<Rightarrow> bytes" where
  "bytes_at vs i = as_bytes (vs ! i)"

lemmas val_access = int_at_def bytes_at_def

text \<open>The shape of a decoded record: one value of the field's kind and range per field.\<close>

lemma fits_int: "fits (FU k) v \<longleftrightarrow> (\<exists>n. v = VInt n \<and> 0 \<le> n \<and> n < 256 ^ k)"
  by (cases v) auto

lemma fits_sint:
  "fits (FS k) v \<longleftrightarrow> (\<exists>n. v = VInt n \<and> 0 < k \<and> - (2 ^ (8 * k - 1)) \<le> n \<and> n < 2 ^ (8 * k - 1))"
  by (cases v) auto

lemma fits_raw: "fits (FRaw k) v \<longleftrightarrow> (\<exists>b. v = VBytes b \<and> length b = k)"
  by (cases v) auto

lemmas fits_shape = list_all2_Cons1 fits_int fits_sint fits_raw

text \<open>A decoded record, rebuilt from its accessors.\<close>

fun shape_at :: "field list \<Rightarrow> val list \<Rightarrow> nat \<Rightarrow> val list" where
  "shape_at [] vs i = []"
| "shape_at (FRaw k # fs) vs i = VBytes (bytes_at vs i) # shape_at fs vs (i + 1)"
| "shape_at (FU k # fs) vs i = VInt (int_at vs i) # shape_at fs vs (i + 1)"
| "shape_at (FS k # fs) vs i = VInt (int_at vs i) # shape_at fs vs (i + 1)"

lemma shape_at_append:
  "list_all2 fits fs vs \<Longrightarrow> length pre = i \<Longrightarrow> shape_at fs (pre @ vs) i = vs"
proof (induction fs vs arbitrary: pre i rule: list_all2_induct)
  case (Cons f fs v vs)
  then have nth: "(pre @ v # vs) ! i = v" by (auto simp: nth_append)
  from Cons.IH [of "pre @ [v]" "i + 1"] Cons.prems
  have tl: "shape_at fs (pre @ v # vs) (i + 1) = vs" by simp
  from Cons.hyps(1) nth tl show ?case
    by (cases f; cases v) (simp_all add: val_access)
qed simp

lemma shape_at_0: "list_all2 fits fs vs \<Longrightarrow> shape_at fs vs 0 = vs"
  using shape_at_append [of fs vs "[]" 0] by simp

lemma struct_unpackD:
  assumes "struct_unpack fs bs = Inr vs" and "list_all (\<lambda>f. 0 < field_size f) fs"
  shows "shape_at fs vs 0 = vs" and "list_all2 fits fs vs" and "list_all2 packable fs vs"
    and "struct_bytes fs vs = bs" and "length bs = struct_size fs"
proof -
  from assms(2) have "\<forall>f \<in> set fs. 0 < field_size f" by (simp add: list_all_iff)
  note pk = struct_pack_unpack [OF assms(1) this]
  from pk show "shape_at fs vs 0 = vs" and "list_all2 fits fs vs" and "list_all2 packable fs vs"
    and "struct_bytes fs vs = bs" and "length bs = struct_size fs"
    using assms(1) by (simp_all add: struct_pack_Inr struct_unpack_Inr shape_at_0)
qed

section \<open>CRC-32\<close>

text \<open>
  \<open>zlib.crc32\<close>: the reflected polynomial \<open>0xEDB88320\<close>, bit by bit, with initial value and
  final complement \<open>0xFFFFFFFF\<close>. The result is already below \<open>2 ^ 32\<close>, so the source's
  \<open>& 0xFFFFFFFF\<close> is the identity.
\<close>

definition crc_bit :: "32 word \<Rightarrow> 32 word" where
  "crc_bit c = (if bit c 0 then drop_bit 1 c XOR 0xEDB88320 else drop_bit 1 c)"

definition crc_byte :: "32 word \<Rightarrow> byte \<Rightarrow> 32 word" where
  "crc_byte c b =
     crc_bit (crc_bit (crc_bit (crc_bit (crc_bit (crc_bit (crc_bit (crc_bit (c XOR ucast b))))))))"

definition crc32 :: "bytes \<Rightarrow> int" where
  "crc32 bs = uint (NOT (foldl crc_byte (NOT 0) bs))"

lemma crc32_bounds: "0 \<le> crc32 bs" "crc32 bs < 4294967296"
  using uint_lt2p [of "NOT (foldl crc_byte (NOT 0) bs)"] by (simp_all add: crc32_def)

lemma crc32_check_value: "crc32 [0x31, 0x32, 0x33, 0x34, 0x35, 0x36, 0x37, 0x38, 0x39] = 0xCBF43926"
  by (simp add: crc32_def crc_byte_def crc_bit_def)

section \<open>Records sealed by a trailing CRC\<close>

text \<open>
  A record is packed with a zero CRC field, and the CRC of those bytes replaces its last four
  bytes: \<open>record[:-4] + struct.pack("<I", crc)\<close>. The reader zeroes the last four bytes of a
  copy and compares.
\<close>

definition seal :: "bytes \<Rightarrow> bytes" where
  "seal r = take (length r - 4) r @ le_bytes 4 (crc32 r)"

definition zero_tail :: "bytes \<Rightarrow> bytes" where
  "zero_tail bs = take (length bs - 4) bs @ replicate 4 0"

definition tail_word :: "bytes \<Rightarrow> int" where
  "tail_word bs = le_value (drop (length bs - 4) bs)"

definition crc_ok :: "bytes \<Rightarrow> bool" where
  "crc_ok bs \<longleftrightarrow> tail_word bs = crc32 (zero_tail bs)"

lemma length_seal [simp]: "4 \<le> length r \<Longrightarrow> length (seal r) = length r"
  by (simp add: seal_def)

lemma seal_append: "length z = 4 \<Longrightarrow> seal (b @ z) = b @ le_bytes 4 (crc32 (b @ z))"
  by (simp add: seal_def)

lemma le_bytes_zero: "le_bytes k 0 = replicate k 0"
  by (induction k) auto

lemma seal_crc_ok: "crc_ok (seal (b @ replicate 4 0))"
  using crc32_bounds [of "b @ replicate 4 0"]
  by (simp add: crc_ok_def tail_word_def zero_tail_def seal_append le_value_le_bytes)

lemma crc_ok_seal:
  assumes "crc_ok bs" and "4 \<le> length bs"
  shows "seal (zero_tail bs) = bs"
proof -
  from assms(2) have len: "4 = length (drop (length bs - 4) bs)" by simp
  have "seal (zero_tail bs) = take (length bs - 4) bs @ le_bytes 4 (crc32 (zero_tail bs))"
    by (simp add: zero_tail_def seal_append)
  also have "crc32 (zero_tail bs) = le_value (drop (length bs - 4) bs)"
    using assms(1) by (simp add: crc_ok_def tail_word_def)
  also have "le_bytes 4 \<dots> = drop (length bs - 4) bs"
    by (rule le_bytes_le_value [OF len])
  finally show ?thesis by simp
qed

end
