(* ===== verification/Codec.thy ===== *)
theory Codec
  imports Wire
begin

text \<open>
  The contract between record codecs. A record type offers \<open>enc\<close> (its \<open>pack\<close>, which validates
  first and may raise) and \<open>dec\<close> (its \<open>unpack\<close>). \<open>wire_codec\<close> promises that a packed record
  decodes to itself and that an accepted byte string is the encoding of what it decodes to;
  \<open>fixed_codec\<close> adds that every record occupies exactly \<open>width\<close> bytes, which is what a codec
  that embeds a run of records (profiles, events, gain observations) relies on.
\<close>

section \<open>Slices\<close>

text \<open>Python's \<open>xs[a:b]\<close> for \<open>0 <= a <= b\<close>: out-of-range parts are dropped, never raised.\<close>

definition slice :: "nat \<Rightarrow> nat \<Rightarrow> 'a list \<Rightarrow> 'a list" where
  "slice a b xs = take (b - a) (drop a xs)"

lemma length_slice [simp]: "length (slice a b xs) = min (b - a) (length xs - a)"
  by (simp add: slice_def min.commute)

lemma slice_append_right: "length pre \<le> a \<Longrightarrow> slice a b (pre @ xs) = slice (a - length pre) (b - length pre) xs"
  by (simp add: slice_def)

lemma slice_append_left: "b \<le> length xs \<Longrightarrow> slice a b (xs @ post) = slice a b xs"
  by (simp add: slice_def)

lemma slice_slice: "slice a b (slice c d xs) = slice (c + a) (min (c + b) d) xs"
  by (auto simp: slice_def min_def drop_take add.commute intro: arg_cong2 [where f = take])

lemma slice_all [simp]: "slice 0 (length xs) xs = xs"
  by (simp add: slice_def)

lemma slice_append_slice: "a \<le> b \<Longrightarrow> b \<le> c \<Longrightarrow> slice a b xs @ slice b c xs = slice a c xs"
proof -
  assume "a \<le> b" and "b \<le> c"
  then have "c - a = (b - a) + (c - b)" and "drop b xs = drop (b - a) (drop a xs)"
    by simp_all
  then show ?thesis by (simp only: slice_def take_add)
qed

lemma concat_uniform_length:
  "\<forall>x \<in> set xss. length x = w \<Longrightarrow> length (concat xss) = length xss * w"
  by (induction xss) auto

lemma slice_concat_uniform:
  assumes "\<forall>x \<in> set xss. length x = w" and "i < length xss"
  shows "slice (i * w) (Suc i * w) (concat xss) = xss ! i"
  using assms
proof (induction xss arbitrary: i)
  case (Cons x xss)
  show ?case
  proof (cases i)
    case 0
    with Cons.prems show ?thesis by (simp add: slice_def)
  next
    case (Suc j)
    with Cons.prems have "slice (i * w) (Suc i * w) (concat (x # xss)) = slice (j * w) (Suc j * w) (concat xss)"
      by (simp add: slice_append_right)
    with Cons Suc show ?thesis by simp
  qed
qed simp

lemma concat_slices:
  "off + n * w \<le> length bs \<Longrightarrow>
     concat (map (\<lambda>i. slice (off + i * w) (off + Suc i * w) bs) [0..<n]) = slice off (off + n * w) bs"
proof (induction n)
  case (Suc n)
  then show ?case
    by (simp add: slice_append_slice add.commute add.left_commute)
qed (simp add: slice_def)

text \<open>Reading a record out of the middle of a buffer.\<close>

lemma struct_values_take: "struct_values fs (take (struct_size fs) bs) = struct_values fs bs"
proof (induction fs arbitrary: bs)
  case (Cons f fs)
  have "take (struct_size fs) (drop (field_size f) bs)
      = drop (field_size f) (take (struct_size (f # fs)) bs)"
    by (simp add: struct_size_def drop_take)
  with Cons [of "drop (field_size f) bs"] show ?case
    by (simp add: struct_size_def min_def)
qed simp

lemma struct_unpack_from_slice:
  "struct_size fs + off \<le> length bs \<Longrightarrow>
     struct_unpack_from fs bs off = struct_unpack fs (slice off (off + struct_size fs) bs)"
  by (simp add: struct_unpack_from_def struct_unpack_def slice_def struct_values_take)

lemma struct_unpack_from_Inr:
  "struct_unpack_from fs bs off = Inr vs \<longleftrightarrow>
     struct_size fs + off \<le> length bs \<and> struct_unpack fs (slice off (off + struct_size fs) bs) = Inr vs"
  using struct_unpack_from_slice [of fs off bs] by (auto simp: struct_unpack_from_def)

lemma struct_unpack_from_append:
  assumes "list_all2 fits fs vs" and "off = length pre"
  shows "struct_unpack_from fs (pre @ struct_bytes fs vs @ post) off = Inr vs"
  using assms list_all2_lengthD [OF assms(1)]
  by (simp add: struct_unpack_from_def length_struct_bytes struct_round_trip)

section \<open>Runs of fixed-size records\<close>

text \<open>
  \<open>tuple(Record.unpack(payload[off + i * w : off + (i + 1) * w]) for i in range(n))\<close> and
  \<open>b"".join(record.pack() for record in records)\<close>.
\<close>

definition dec_records :: "(bytes \<Rightarrow> 'a result) \<Rightarrow> nat \<Rightarrow> nat \<Rightarrow> nat \<Rightarrow> bytes \<Rightarrow> 'a list result" where
  "dec_records dec w off n bs = mapE (\<lambda>i. dec (slice (off + i * w) (off + Suc i * w) bs)) [0..<n]"

definition enc_records :: "('a \<Rightarrow> bytes result) \<Rightarrow> 'a list \<Rightarrow> bytes result" where
  "enc_records enc xs = bindE (mapE enc xs) (\<lambda>bss. Inr (concat bss))"

lemma enc_records_Cons:
  "enc_records enc (x # xs) = Inr bs \<longleftrightarrow>
     (\<exists>b r. enc x = Inr b \<and> enc_records enc xs = Inr r \<and> bs = b @ r)"
  by (auto simp: enc_records_def bindE_Inr_iff)

locale wire_codec =
  fixes enc :: "'a \<Rightarrow> bytes result"
    and dec :: "bytes \<Rightarrow> 'a result"
    and canon :: "'a \<Rightarrow> bool"
  assumes dec_enc: "enc x = Inr bs \<Longrightarrow> dec bs = Inr x"
    and enc_dec: "dec bs = Inr x \<Longrightarrow> canon x \<Longrightarrow> enc x = Inr bs"
begin

lemma enc_inj: "enc x = Inr bs \<Longrightarrow> enc y = Inr bs \<Longrightarrow> x = y"
  by (metis dec_enc sum.inject(2))

lemma dec_inj: "dec bs = Inr x \<Longrightarrow> dec cs = Inr x \<Longrightarrow> canon x \<Longrightarrow> bs = cs"
  by (metis enc_dec sum.inject(2))

lemma accepts_iff: "canon x \<Longrightarrow> dec bs = Inr x \<longleftrightarrow> enc x = Inr bs"
  by (blast intro: dec_enc enc_dec)

end

locale fixed_codec = wire_codec +
  fixes width :: nat
  assumes enc_width: "enc x = Inr bs \<Longrightarrow> length bs = width"
begin

lemma enc_each_width:
  "list_all2 (\<lambda>x b. enc x = Inr b) xs bss \<Longrightarrow> \<forall>b \<in> set bss. length b = width"
  by (induction rule: list_all2_induct) (auto dest: enc_width)

lemma enc_records_length: "enc_records enc xs = Inr bs \<Longrightarrow> length bs = length xs * width"
proof -
  assume "enc_records enc xs = Inr bs"
  then obtain bss where bss: "mapE enc xs = Inr bss" and bs: "bs = concat bss"
    by (auto simp: enc_records_def)
  from bss have "\<forall>b \<in> set bss. length b = width"
    by (simp add: mapE_Inr_iff enc_each_width)
  then have "length (concat bss) = length bss * width" by (rule concat_uniform_length)
  with bs bss show ?thesis by (simp only: mapE_length)
qed

lemma dec_enc_records:
  assumes "enc_records enc xs = Inr bs" and "off = length pre" and "n = length xs"
  shows "dec_records dec width off n (pre @ bs @ post) = Inr xs"
proof -
  from assms(1) obtain bss where bss: "mapE enc xs = Inr bss" and bs: "bs = concat bss"
    by (auto simp: enc_records_def)
  from bss have each: "list_all2 (\<lambda>x b. enc x = Inr b) xs bss" by (simp add: mapE_Inr_iff)
  then have len: "length bss = length xs" by (simp add: list_all2_lengthD)
  from each have uni: "\<forall>b \<in> set bss. length b = width"
    by (rule enc_each_width)
  have "dec (slice (off + i * width) (off + Suc i * width) (pre @ bs @ post)) = Inr (xs ! i)"
    if "i < n" for i
  proof -
    from that assms(3) len have "Suc i * width \<le> length bss * width"
      by (intro mult_le_mono1) simp
    with uni have "Suc i * width \<le> length (concat bss)"
      by (simp only: concat_uniform_length)
    then have "slice (off + i * width) (off + Suc i * width) (pre @ bs @ post)
        = slice (i * width) (Suc i * width) (concat bss)"
      using assms(2) bs by (simp add: slice_append_right slice_append_left)
    also have "\<dots> = bss ! i"
      using that assms(3) len uni by (intro slice_concat_uniform) simp_all
    finally have "slice (off + i * width) (off + Suc i * width) (pre @ bs @ post) = bss ! i" .
    moreover from each that assms(3) have "enc (xs ! i) = Inr (bss ! i)"
      by (simp add: list_all2_conv_all_nth)
    ultimately show ?thesis by (simp add: dec_enc)
  qed
  then have "dec_records dec width off n (pre @ bs @ post) = Inr (map ((!) xs) [0..<n])"
    unfolding dec_records_def by (intro mapE_all) auto
  with assms(3) show ?thesis by (simp add: map_nth)
qed

lemma enc_dec_records:
  assumes "dec_records dec width off n bs = Inr xs" and "\<forall>x \<in> set xs. canon x"
    and "off + n * width \<le> length bs"
  shows "enc_records enc xs = Inr (slice off (off + n * width) bs)" and "length xs = n"
proof -
  let ?bss = "map (\<lambda>i. slice (off + i * width) (off + Suc i * width) bs) [0..<n]"
  from assms(1) have all2: "list_all2 (\<lambda>i x. dec (slice (off + i * width) (off + Suc i * width) bs) = Inr x) [0..<n] xs"
    by (simp add: dec_records_def mapE_Inr_iff)
  then show len: "length xs = n" by (simp add: list_all2_lengthD [symmetric])
  from all2 assms(2) len have "list_all2 (\<lambda>x b. enc x = Inr b) xs ?bss"
    by (auto simp: list_all2_conv_all_nth intro: enc_dec)
  then have "mapE enc xs = Inr ?bss" by (simp add: mapE_Inr_iff)
  then show "enc_records enc xs = Inr (slice off (off + n * width) bs)"
    using assms(3) concat_slices [of off n width bs] by (simp add: enc_records_def)
qed

end

section \<open>Fixed-layout records\<close>

text \<open>
  The shape of every fixed-size \<open>pack\<close> and \<open>unpack\<close> of the program. \<open>pack\<close> validates and hands the
  field fields to \<open>struct\<close>; \<open>unpack\<close> checks the size, unpacks, runs its guards over the raw
  values, builds the record (an unknown enumeration value raises here) and validates it.
\<close>

definition pack_record :: "('a \<Rightarrow> unit result) \<Rightarrow> field list \<Rightarrow> ('a \<Rightarrow> val list) \<Rightarrow> 'a \<Rightarrow> bytes result" where
  "pack_record validate fmt fields x = bindE (validate x) (\<lambda>_. struct_pack fmt (fields x))"

definition unpack_record ::
    "exn \<Rightarrow> field list \<Rightarrow> (val list \<Rightarrow> (bool \<times> exn) list) \<Rightarrow> (val list \<Rightarrow> 'a result)
     \<Rightarrow> ('a \<Rightarrow> unit result) \<Rightarrow> bytes \<Rightarrow> 'a result" where
  "unpack_record size_error fmt guards build validate bs =
     (if length bs \<noteq> struct_size fmt then Inl size_error
      else bindE (struct_unpack fmt bs) (\<lambda>vs. bindE (checks (guards vs)) (\<lambda>_.
           bindE (build vs) (\<lambda>x. bindE (validate x) (\<lambda>_. Inr x)))))"

lemma pack_record_Inr:
  "pack_record validate fmt fields x = Inr bs \<longleftrightarrow>
     validate x = Inr () \<and> list_all2 packable fmt (fields x) \<and> bs = struct_bytes fmt (fields x)"
  by (auto simp: pack_record_def bindE_Inr_iff struct_pack_Inr)

lemma pack_record_width: "pack_record validate fmt fields x = Inr bs \<Longrightarrow> length bs = struct_size fmt"
  by (auto simp: pack_record_Inr length_struct_bytes dest: list_all2_lengthD)

lemma unpack_record_Inr:
  "unpack_record e fmt guards build validate bs = Inr x \<longleftrightarrow>
     (\<exists>vs. struct_unpack fmt bs = Inr vs \<and> checks (guards vs) = Inr () \<and> build vs = Inr x \<and>
          validate x = Inr ())"
  by (auto simp: unpack_record_def bindE_Inr_iff struct_unpack_Inr)

text \<open>
  What a fixed-layout record type has to provide: its guards accept its own field values, building
  undoes listing the values, and an accepted list of values is the one its record lists.
  \<open>accept\<close> is the validation \<open>unpack\<close> runs, \<open>validate\<close> the one \<open>pack\<close> runs; they agree on
  canonical records.
\<close>

locale record_layout =
  fixes size_error :: exn
    and fmt :: "field list"
    and fields :: "'a \<Rightarrow> val list"
    and guards :: "val list \<Rightarrow> (bool \<times> exn) list"
    and build :: "val list \<Rightarrow> 'a result"
    and validate :: "'a \<Rightarrow> unit result"
    and accept :: "'a \<Rightarrow> unit result"
    and canon :: "'a \<Rightarrow> bool"
  assumes positive: "list_all (\<lambda>f. 0 < field_size f) fmt"
    and values_fit: "validate x = Inr () \<Longrightarrow> list_all2 packable fmt (fields x) \<Longrightarrow> list_all2 fits fmt (fields x)"
    and guards_values: "validate x = Inr () \<Longrightarrow> checks (guards (fields x)) = Inr ()"
    and build_values: "validate x = Inr () \<Longrightarrow> build (fields x) = Inr x"
    and values_build: "checks (guards vs) = Inr () \<Longrightarrow> build vs = Inr x \<Longrightarrow> fields x = shape_at fmt vs 0"
    and validate_accept: "validate x = Inr () \<Longrightarrow> accept x = Inr ()"
    and accept_validate: "accept x = Inr () \<Longrightarrow> canon x \<Longrightarrow> validate x = Inr ()"
begin

lemma layout_dec_enc:
  assumes "pack_record validate fmt fields x = Inr bs"
  shows "unpack_record size_error fmt guards build accept bs = Inr x"
proof -
  from assms have v: "validate x = Inr ()" and bs: "struct_pack fmt (fields x) = Inr bs"
    and "list_all2 packable fmt (fields x)"
    by (auto simp: pack_record_def bindE_Inr_iff struct_pack_Inr)
  then have "struct_unpack fmt bs = Inr (fields x)"
    by (intro struct_unpack_pack values_fit)
  with v show ?thesis
    by (auto simp: unpack_record_Inr guards_values build_values validate_accept)
qed

lemma layout_enc_dec:
  assumes "unpack_record size_error fmt guards build accept bs = Inr x" and "canon x"
  shows "pack_record validate fmt fields x = Inr bs"
proof -
  from assms(1) obtain vs where U: "struct_unpack fmt bs = Inr vs"
    and g: "checks (guards vs) = Inr ()" and b: "build vs = Inr x" and a: "accept x = Inr ()"
    by (auto simp: unpack_record_Inr)
  note D = struct_unpackD [OF U positive]
  have "fields x = vs" using values_build [OF g b] D(1) by simp
  with D a assms(2) show ?thesis by (simp add: pack_record_Inr accept_validate)
qed

lemma unpack_fits: "unpack_record size_error fmt guards build accept bs = Inr x \<Longrightarrow> list_all2 fits fmt (fields x)"
proof -
  assume "unpack_record size_error fmt guards build accept bs = Inr x"
  then obtain vs where U: "struct_unpack fmt bs = Inr vs"
    and g: "checks (guards vs) = Inr ()" and b: "build vs = Inr x"
    by (auto simp: unpack_record_Inr)
  show ?thesis using values_build [OF g b] struct_unpackD [OF U positive] by simp
qed

end

sublocale record_layout \<subseteq> fixed_codec
  "pack_record validate fmt fields"
  "unpack_record size_error fmt guards build accept"
  canon
  "struct_size fmt"
  by unfold_locales (auto intro: layout_dec_enc layout_enc_dec pack_record_width)

end
