(* ===== verification/Text.thy ===== *)
theory Text
  imports Codec
begin

text \<open>
  The string and byte-string operations the program uses on identifiers and text records: the
  hexadecimal alphabet, numbers in base 16, ASCII encoding, \<open>in\<close> and \<open>split\<close> on byte strings,
  and the part after the last separator.
\<close>

section \<open>Hexadecimal text\<close>

definition lower_hex :: "char \<Rightarrow> bool" where
  "lower_hex c \<longleftrightarrow> c \<in> set ''0123456789abcdef''"

text \<open>The regular expression \<open>[0-9a-f]{64}\<close> matched against the whole string.\<close>

definition lower_digest :: "string \<Rightarrow> bool" where
  "lower_digest s \<longleftrightarrow> length s = 64 \<and> list_all lower_hex s"

text \<open>\<open>int(text, 16)\<close> on text of lowercase hexadecimal digits.\<close>

definition hex_digit :: "char \<Rightarrow> int" where
  "hex_digit c =
     (let n = of_char c in
      if n \<ge> 97 then n - 87 else n - 48)"

definition hex_value :: "string \<Rightarrow> int" where
  "hex_value s = foldl (\<lambda>v c. 16 * v + hex_digit c) 0 s"

text \<open>\<open>f"{n:X}"\<close> for a natural number.\<close>

definition hex_char_upper :: "nat \<Rightarrow> char" where
  "hex_char_upper n = ''0123456789ABCDEF'' ! n"

fun hex_upper :: "nat \<Rightarrow> string" where
  "hex_upper n = (if n < 16 then [hex_char_upper n] else hex_upper (n div 16) @ [hex_char_upper (n mod 16)])"

declare hex_upper.simps [simp del]

section \<open>Byte strings\<close>

definition ascii_bytes :: "string \<Rightarrow> bytes" where
  "ascii_bytes s = map (\<lambda>c. of_char c) s"

definition be_value :: "bytes \<Rightarrow> int" where
  "be_value bs = le_value (rev bs)"

text \<open>\<open>pattern in data\<close>.\<close>

fun has_infix :: "bytes \<Rightarrow> bytes \<Rightarrow> bool" where
  "has_infix pat [] \<longleftrightarrow> pat = []"
| "has_infix pat (b # bs) \<longleftrightarrow> take (length pat) (b # bs) = pat \<or> has_infix pat bs"

text \<open>\<open>data.split(separator)\<close> for a one-byte separator: never empty.\<close>

fun split_bytes :: "byte \<Rightarrow> bytes \<Rightarrow> bytes list" where
  "split_bytes s [] = [[]]"
| "split_bytes s (b # bs) =
     (if b = s then [] # split_bytes s bs
      else case split_bytes s bs of [] \<Rightarrow> [[b]] | x # xs \<Rightarrow> (b # x) # xs)"

text \<open>\<open>text.rsplit(separator, 1)[-1]\<close>: the part after the last separator, or the whole text.\<close>

definition after_last :: "char \<Rightarrow> string \<Rightarrow> string" where
  "after_last c s = rev (takeWhile (\<lambda>x. x \<noteq> c) (rev s))"

lemma split_bytes_nonempty [simp]: "split_bytes s bs \<noteq> []"
  by (cases bs) (auto split: list.splits)

lemma split_bytes_none: "s \<notin> set bs \<Longrightarrow> split_bytes s bs = [bs]"
  by (induction bs) auto

lemma split_bytes_append: "s \<notin> set a \<Longrightarrow> split_bytes s (a @ s # bs) = a # split_bytes s bs"
  by (induction a) auto

lemma has_infix_suffix: "has_infix pat (a @ pat)"
proof (induction a)
  case Nil
  show ?case by (cases pat) auto
qed simp

text \<open>Hexadecimal text has no NUL byte.\<close>

lemma hex_upper_text: "0 \<notin> set (ascii_bytes (hex_upper n))"
proof (induction n rule: hex_upper.induct)
  case (1 n)
  have digit: "of_char (hex_char_upper m) \<noteq> (0 :: byte)" if "m < 16" for m
  proof -
    have "list_all (\<lambda>c. of_char c \<noteq> (0 :: byte)) ''0123456789ABCDEF''" by simp
    then show ?thesis using that by (simp only: hex_char_upper_def list_all_length) simp
  qed
  then show ?case using 1 by (subst hex_upper.simps) (auto simp: ascii_bytes_def)
qed

end
