(* ===== verification/Usb_Records.thy ===== *)
theory Usb_Records
  imports Text
begin

text \<open>
  \<open>direct_radio/usb.py\<close>, the records of the direct-USB control plane: gadget capabilities,
  hardware identity, runtime status, the time-anchor query and response, and the version 3
  start request. Every parser is the source's sequence of guards over the unpacked fields.
\<close>

section \<open>Constants, enumerations and formats\<close>

abbreviation (input) "MAGIC \<equiv> 0x314D4753 :: int"
abbreviation (input) "VERSION_V3 \<equiv> 3 :: int"
abbreviation (input) "CAPABILITIES_MAGIC \<equiv> 0x50434753 :: int"
abbreviation (input) "HARDWARE_IDENTITY_MAGIC \<equiv> 0x31464853 :: int"
abbreviation (input) "RUNTIME_STATUS_MAGIC \<equiv> 0x31545353 :: int"
abbreviation (input) "TIME_ANCHOR_QUERY_MAGIC \<equiv> 0x31515453 :: int"
abbreviation (input) "TIME_ANCHOR_MAGIC \<equiv> 0x31415453 :: int"
abbreviation (input) "START_REQUEST_MAGIC_V3 \<equiv> 0x33534753 :: int"
abbreviation (input) "MAX_FINITE_FRAMES \<equiv> 16 :: int"
abbreviation (input) "MAX_SAMPLES_PER_CHANNEL \<equiv> 0xFFFFFFFF div 8 :: int"
abbreviation (input) "MAX_GAIN_OBSERVATIONS \<equiv> 256 :: int"
abbreviation (input) "MAX_GAIN_EVENTS \<equiv> 256 :: int"
abbreviation (input) "KNOWN_FEATURES \<equiv> 0xFF :: int"

text \<open>\<open>MetadataFeatures\<close> (lines 43-54), by member.\<close>

abbreviation (input) "F_GAIN_ENDPOINT_SNAPSHOTS \<equiv> 0x01 :: int"
abbreviation (input) "F_HEADER_CRC32 \<equiv> 0x02 :: int"
abbreviation (input) "F_SAMPLE_SEQUENCE \<equiv> 0x04 :: int"
abbreviation (input) "F_FPGA_GAIN_EVENTS \<equiv> 0x08 :: int"
abbreviation (input) "F_GAIN_DB_ENDPOINTS \<equiv> 0x10 :: int"
abbreviation (input) "F_RSSI_ENDPOINT_SNAPSHOTS \<equiv> 0x20 :: int"
abbreviation (input) "F_GAIN_OBSERVATION_SERIES \<equiv> 0x40 :: int"
abbreviation (input) "F_HARDWARE_SAMPLE_COUNTER \<equiv> 0x80 :: int"

datatype runtime_state = IDLE | STARTING | STREAMING | COMPLETE | STOPPING | FAILED

fun runtime_state_of :: "int \<Rightarrow> runtime_state option" where
  "runtime_state_of n =
     (if n = 0 then Some IDLE else if n = 1 then Some STARTING else if n = 2 then Some STREAMING
      else if n = 3 then Some COMPLETE else if n = 4 then Some STOPPING
      else if n = 5 then Some FAILED else None)"

datatype error_subsystem =
    NONE | CONTROL | RX_INIT | IIO_REFILL | USB_SUBMIT | USB_COMPLETION | BUFFER_STARVATION
  | GAIN_READ | RSSI_READ | STOP_TIMEOUT

definition error_subsystems :: "error_subsystem list" where
  "error_subsystems = [NONE, CONTROL, RX_INIT, IIO_REFILL, USB_SUBMIT, USB_COMPLETION,
     BUFFER_STARVATION, GAIN_READ, RSSI_READ, STOP_TIMEOUT]"

definition error_subsystem_of :: "int \<Rightarrow> error_subsystem option" where
  "error_subsystem_of n = (if 0 \<le> n \<and> n < 10 then Some (error_subsystems ! nat n) else None)"

definition capabilities_fmt :: "field list" where
  "capabilities_fmt = [FU 4, FU 2, FU 2, FU 2, FU 2, FU 4, FU 4, FU 4, FU 4, FU 4]"

definition identity_fmt :: "field list" where
  "identity_fmt = [FU 4, FU 2, FU 2, FU 4, FU 4, FU 8, FRaw 40]"

definition status_fmt :: "field list" where
  "status_fmt = [FU 4, FU 2, FU 2, FU 2, FU 2, FS 4, FU 4, FU 4, FRaw 16, FRaw 16, FU 8, FU 8]
     @ replicate 14 (FU 4)"

definition time_query_fmt :: "field list" where
  "time_query_fmt = [FU 4, FU 2, FU 2, FU 8, FU 4, FU 4]"

definition time_anchor_fmt :: "field list" where
  "time_anchor_fmt = [FU 4, FU 2, FU 2, FU 4, FU 4, FU 8, FU 8, FU 8, FU 8, FU 8, FU 4, FU 4]"

definition start_fmt :: "field list" where
  "start_fmt = [FU 4, FU 2, FU 2, FU 4, FU 4, FU 4, FU 4, FU 4, FU 4]"

lemma usb_sizes [simp]:
  "struct_size capabilities_fmt = 32" "struct_size identity_fmt = 64"
  "struct_size status_fmt = 128" "struct_size time_query_fmt = 24"
  "struct_size time_anchor_fmt = 64" "struct_size start_fmt = 32"
  by (simp_all add: struct_size_def capabilities_fmt_def identity_fmt_def status_fmt_def
      time_query_fmt_def time_anchor_fmt_def start_fmt_def eval_nat_numeral)

definition pe :: "string \<Rightarrow> exn" where
  "pe = ProtocolError"

section \<open>Gadget capabilities\<close>

record gadget_capabilities =
  gc_protocol_min :: int
  gc_protocol_max :: int
  gc_supported_features :: int
  gc_max_samples_per_channel :: int
  gc_max_finite_frames :: int
  gc_capability_flags :: int

definition capabilities_guards :: "val list \<Rightarrow> (bool \<times> exn) list" where
  "capabilities_guards vs =
     (let magic = int_at vs 0; size = int_at vs 1; minimum = int_at vs 2; maximum = int_at vs 3;
          r0 = int_at vs 4; features = int_at vs 5; samples = int_at vs 6; frames = int_at vs 7;
          flags = int_at vs 8; r1 = int_at vs 9 in
      [(magic \<noteq> CAPABILITIES_MAGIC \<or> size \<noteq> 32, pe ''bad capability identity or size''),
       (r0 \<noteq> 0 \<or> r1 \<noteq> 0, pe ''capability reserved fields must be zero''),
       (\<not> (0 < minimum \<and> minimum \<le> maximum), pe ''invalid gadget protocol range''),
       (extra features KNOWN_FEATURES \<or> extra flags 0x1F, pe ''unknown capability bits''),
       (\<not> has flags 0x01 \<or> samples = 0 \<or> frames = 0, pe ''gadget reports unusable finite RX'')])"

definition capabilities_build :: "val list \<Rightarrow> gadget_capabilities" where
  "capabilities_build vs =
     \<lparr>gc_protocol_min = int_at vs 2, gc_protocol_max = int_at vs 3,
      gc_supported_features = int_at vs 5, gc_max_samples_per_channel = int_at vs 6,
      gc_max_finite_frames = int_at vs 7, gc_capability_flags = int_at vs 8\<rparr>"

definition capabilities_unpack :: "bytes \<Rightarrow> gadget_capabilities result" where
  "capabilities_unpack = unpack_record (pe ''capability response size mismatch'') capabilities_fmt
     capabilities_guards (\<lambda>vs. Inr (capabilities_build vs)) (\<lambda>_. Inr ())"

section \<open>Hardware identity\<close>

record hardware_identity =
  hi_flags :: int
  hi_fpga_device_dna :: int
  hi_gadget_build_id :: string

text \<open>\<open>raw.rstrip(b"\0")\<close> and the ASCII decoding, which fails on a byte above 127.\<close>

definition rstrip0 :: "bytes \<Rightarrow> bytes" where
  "rstrip0 bs = rev (dropWhile (\<lambda>b. b = 0) (rev bs))"

definition ascii_decode :: "bytes \<Rightarrow> string option" where
  "ascii_decode bs =
     (if list_all (\<lambda>b. uint b < 128) bs then Some (map (\<lambda>b. char_of (uint b)) bs) else None)"

definition identity_unpack :: "bytes \<Rightarrow> hardware_identity result" where
  "identity_unpack payload =
     (if length payload \<noteq> struct_size identity_fmt
      then Inl (pe ''hardware identity response size mismatch'')
      else bindE (struct_unpack identity_fmt payload) (\<lambda>vs.
        let magic = int_at vs 0; size = int_at vs 1; version = int_at vs 2; flags = int_at vs 3;
            reserved = int_at vs 4; dna = int_at vs 5; raw_sha = bytes_at vs 6 in
        bindE (checks [
          (magic \<noteq> HARDWARE_IDENTITY_MAGIC \<or> size \<noteq> 64 \<or> version \<noteq> 1,
           pe ''bad hardware identity identity, size, or version''),
          (reserved \<noteq> 0 \<or> extra flags 0x03, pe ''hardware identity reserved/flag fields are invalid''),
          (has flags 0x01 \<noteq> (dna \<noteq> 0), pe ''FPGA Device DNA validity disagrees with value''),
          (drop_bit 57 dna \<noteq> 0, pe ''FPGA Device DNA is outside the 57-bit range'')])
        (\<lambda>_. case ascii_decode (rstrip0 raw_sha) of
               None \<Rightarrow> Inl (pe ''gadget build ID is not ASCII'')
             | Some sha \<Rightarrow>
                 bindE (checks [
                   (has flags 0x02 \<noteq> (sha \<noteq> []), pe ''gadget build ID validity disagrees with value''),
                   (sha \<noteq> [] \<and> (length sha \<noteq> 40 \<or> \<not> list_all lower_hex sha),
                    pe ''gadget build ID must be a lowercase 40-character SHA'')])
                 (\<lambda>_. Inr \<lparr>hi_flags = flags, hi_fpga_device_dna = dna, hi_gadget_build_id = sha\<rparr>))))"

section \<open>Runtime status\<close>

record runtime_status =
  rs_lifecycle_state :: runtime_state
  rs_last_error_subsystem :: error_subsystem
  rs_last_errno :: int
  rs_flags :: int
  rs_boot_id :: bytes
  rs_process_nonce :: bytes
  rs_current_stream_id :: int
  rs_last_completed_sequence :: int
  rs_counters :: "int list" \<comment> \<open>\<open>start_count\<close> to \<open>worker_heartbeat_age_ms\<close>, in order\<close>

definition runtime_status_unpack :: "bytes \<Rightarrow> runtime_status result" where
  "runtime_status_unpack payload =
     (if length payload \<noteq> struct_size status_fmt then Inl (pe ''runtime status response size mismatch'')
      else bindE (struct_unpack status_fmt payload) (\<lambda>vs.
        let magic = int_at vs 0; size = int_at vs 1; version = int_at vs 2; state = int_at vs 3;
            subsystem = int_at vs 4; errno = int_at vs 5; flags = int_at vs 6; r0 = int_at vs 7;
            boot_id = bytes_at vs 8; nonce = bytes_at vs 9; stream_id = int_at vs 10;
            sequence = int_at vs 11; counters = map as_int (drop 12 vs) in
        bindE (checks [
          (magic \<noteq> RUNTIME_STATUS_MAGIC \<or> size \<noteq> 128 \<or> version \<noteq> 1,
           pe ''bad runtime status identity, size, or version''),
          (r0 \<noteq> 0 \<or> last counters \<noteq> 0 \<or> extra flags 0x07,
           pe ''runtime status reserved/flag fields are invalid'')])
        (\<lambda>_. case (runtime_state_of state, error_subsystem_of subsystem) of
               (Some parsed_state, Some parsed_subsystem) \<Rightarrow>
                 bindE (checks [
                   (\<not> has flags 0x01 \<and> list_ex (\<lambda>b. b \<noteq> 0) boot_id, pe ''invalid runtime boot ID must be zero''),
                   (\<not> has flags 0x02 \<and> list_ex (\<lambda>b. b \<noteq> 0) nonce, pe ''invalid runtime process nonce must be zero''),
                   (\<not> has flags 0x04 \<and> last (butlast counters) \<noteq> 0,
                    pe ''inactive worker heartbeat age must be zero'')])
                 (\<lambda>_. Inr \<lparr>rs_lifecycle_state = parsed_state, rs_last_error_subsystem = parsed_subsystem,
                           rs_last_errno = errno, rs_flags = flags, rs_boot_id = boot_id,
                           rs_process_nonce = nonce, rs_current_stream_id = stream_id,
                           rs_last_completed_sequence = sequence, rs_counters = butlast counters\<rparr>)
             | _ \<Rightarrow> Inl (pe ''unknown runtime status state or subsystem''))))"

section \<open>Time anchors\<close>

definition pack_time_anchor_query :: "int \<Rightarrow> bytes result" where
  "pack_time_anchor_query request_id =
     bindE (checks [(\<not> in_uint 64 request_id, pe ''request_id is outside uint64''),
                    (request_id = 0, pe ''time-anchor request ID must be non-zero'')])
     (\<lambda>_. bindE (struct_pack time_query_fmt
                  [VInt TIME_ANCHOR_QUERY_MAGIC, VInt 24, VInt 1,
                   VInt request_id, VInt 0, VInt 0])
          (\<lambda>record. Inr (seal record)))"

record time_anchor =
  ta_flags :: int
  ta_request_id :: int
  ta_radio_monotonic_before_ns :: int
  ta_sample_counter_before :: int
  ta_sample_counter_after :: int
  ta_radio_monotonic_after_ns :: int

definition counter_delta :: "time_anchor \<Rightarrow> int" where
  "counter_delta a = (ta_sample_counter_after a - ta_sample_counter_before a) AND 0xFFFFFFFF"

definition time_anchor_validate :: "time_anchor \<Rightarrow> unit result" where
  "time_anchor_validate a = checks [
     (ta_flags a AND flag_invert 0x0F 0x0F \<noteq> 0 \<or> lacks (ta_flags a) 0x07,
      pe ''time anchor lacks required validity flags''),
     (\<not> in_uint 64 (ta_request_id a), pe ''request_id is outside uint64''),
     (\<not> in_uint 64 (ta_radio_monotonic_before_ns a), pe ''radio_monotonic_before_ns is outside uint64''),
     (\<not> in_uint 64 (ta_sample_counter_before a), pe ''sample_counter_before is outside uint64''),
     (\<not> in_uint 64 (ta_sample_counter_after a), pe ''sample_counter_after is outside uint64''),
     (\<not> in_uint 64 (ta_radio_monotonic_after_ns a), pe ''radio_monotonic_after_ns is outside uint64''),
     (ta_request_id a = 0 \<or> drop_bit 32 (ta_sample_counter_before a) \<noteq> 0
        \<or> drop_bit 32 (ta_sample_counter_after a) \<noteq> 0,
      pe ''time anchor request/counter fields are invalid''),
     (ta_radio_monotonic_after_ns a < ta_radio_monotonic_before_ns a,
      pe ''time-anchor radio monotonic interval regressed''),
     (counter_delta a \<ge> 0x80000000, pe ''time-anchor counter interval is ambiguous''),
     (has (ta_flags a) 0x08 \<noteq> (counter_delta a \<noteq> 0),
      pe ''time-anchor advanced flag disagrees with counter'')]"

definition time_anchor_values :: "time_anchor \<Rightarrow> int \<Rightarrow> val list" where
  "time_anchor_values a crc = map VInt
     [TIME_ANCHOR_MAGIC, 64, 1, ta_flags a, 0, ta_request_id a,
      ta_radio_monotonic_before_ns a, ta_sample_counter_before a, ta_sample_counter_after a,
      ta_radio_monotonic_after_ns a, 0, crc]"

definition time_anchor_pack :: "time_anchor \<Rightarrow> bytes result" where
  "time_anchor_pack a =
     bindE (time_anchor_validate a) (\<lambda>_.
     bindE (struct_pack time_anchor_fmt (time_anchor_values a 0)) (\<lambda>record. Inr (seal record)))"

definition time_anchor_guards :: "bytes \<Rightarrow> val list \<Rightarrow> (bool \<times> exn) list" where
  "time_anchor_guards payload vs = [
     (int_at vs 0 \<noteq> TIME_ANCHOR_MAGIC \<or> int_at vs 1 \<noteq> 64 \<or> int_at vs 2 \<noteq> 1 \<or> int_at vs 4 \<noteq> 0
        \<or> int_at vs 10 \<noteq> 0,
      pe ''bad time-anchor identity, size, version, or reserved field''),
     (int_at vs 11 \<noteq> crc32 (zero_tail payload), pe ''time-anchor CRC mismatch'')]"

definition time_anchor_build :: "val list \<Rightarrow> time_anchor" where
  "time_anchor_build vs =
     \<lparr>ta_flags = int_at vs 3, ta_request_id = int_at vs 5, ta_radio_monotonic_before_ns = int_at vs 6,
      ta_sample_counter_before = int_at vs 7, ta_sample_counter_after = int_at vs 8,
      ta_radio_monotonic_after_ns = int_at vs 9\<rparr>"

definition time_anchor_unpack :: "bytes \<Rightarrow> time_anchor result" where
  "time_anchor_unpack payload = unpack_record (pe ''time-anchor response size mismatch'') time_anchor_fmt
     (time_anchor_guards payload) (\<lambda>vs. Inr (time_anchor_build vs)) time_anchor_validate payload"

section \<open>Start request\<close>

record start_v3 =
  st_requested_features :: int
  st_enabled_scan_mask :: int
  st_samples_per_channel :: int
  st_frame_count :: int
  st_gain_observation_interval_samples :: int
  st_gain_observation_capacity :: int
  st_gain_event_capacity :: int

definition start_required_features :: int where
  "start_required_features = F_GAIN_ENDPOINT_SNAPSHOTS OR F_HEADER_CRC32 OR F_SAMPLE_SEQUENCE
     OR F_GAIN_DB_ENDPOINTS OR F_RSSI_ENDPOINT_SNAPSHOTS OR F_GAIN_OBSERVATION_SERIES
     OR F_HARDWARE_SAMPLE_COUNTER"

definition pack_start_request_v3 :: "start_v3 \<Rightarrow> bytes result" where
  "pack_start_request_v3 s =
     bindE (checks [
       (st_requested_features s \<noteq> start_required_features \<or> st_enabled_scan_mask s \<noteq> 0x0F,
        pe ''protocol v3 feature mask or scan mask is invalid''),
       (\<not> (1 \<le> st_samples_per_channel s \<and> st_samples_per_channel s \<le> MAX_SAMPLES_PER_CHANNEL),
        pe ''samples_per_channel is outside the v3 limit''),
       (\<not> (1 \<le> st_frame_count s \<and> st_frame_count s \<le> MAX_FINITE_FRAMES),
        pe ''frame_count is outside the v3 finite limit''),
       (\<not> (1 \<le> st_gain_observation_interval_samples s
            \<and> st_gain_observation_interval_samples s \<le> st_samples_per_channel s),
        pe ''gain observation interval is outside the frame''),
       (\<not> (1 \<le> st_gain_observation_capacity s \<and> st_gain_observation_capacity s \<le> MAX_GAIN_OBSERVATIONS),
        pe ''gain observation capacity is outside the v3 limit''),
       (\<not> (0 \<le> st_gain_event_capacity s \<and> st_gain_event_capacity s \<le> MAX_GAIN_EVENTS),
        pe ''gain event capacity is outside the v3 limit'')])
     (\<lambda>_. struct_pack start_fmt (map VInt
        [START_REQUEST_MAGIC_V3, 3, 32, st_requested_features s,
         st_enabled_scan_mask s, st_samples_per_channel s, st_frame_count s,
         st_gain_observation_interval_samples s,
         st_gain_observation_capacity s OR push_bit 16 (st_gain_event_capacity s)]))"

section \<open>Lemmas\<close>

lemma and_low32: "(x :: int) AND 0xFFFFFFFF = x mod 2 ^ 32"
proof -
  have "(0xFFFFFFFF :: int) = mask 32" by (simp add: mask_eq_exp_minus_1)
  then show ?thesis by (metis take_bit_eq_mask take_bit_eq_mod)
qed

lemma counter_delta_mod:
  "counter_delta a = (ta_sample_counter_after a - ta_sample_counter_before a) mod 2 ^ 32"
  by (simp add: counter_delta_def and_low32)

lemma time_anchor_sealed:
  "seal (struct_bytes time_anchor_fmt (time_anchor_values a 0))
     = struct_bytes time_anchor_fmt (time_anchor_values a (crc32 (struct_bytes time_anchor_fmt (time_anchor_values a 0))))"
  by (simp add: time_anchor_fmt_def time_anchor_values_def seal_def)

lemma time_anchor_zero_tail:
  "zero_tail (struct_bytes time_anchor_fmt (time_anchor_values a c)) = struct_bytes time_anchor_fmt (time_anchor_values a 0)"
  by (simp add: time_anchor_fmt_def time_anchor_values_def zero_tail_def le_bytes_zero)

lemma time_anchor_fits:
  "list_all2 packable time_anchor_fmt (time_anchor_values a 0) \<Longrightarrow> 0 \<le> c \<Longrightarrow> c < 2 ^ 32
   \<Longrightarrow> list_all2 fits time_anchor_fmt (time_anchor_values a c)"
  by (simp add: time_anchor_fmt_def time_anchor_values_def)

lemma time_anchor_pack_Inr:
  "time_anchor_pack a = Inr bs \<longleftrightarrow>
     time_anchor_validate a = Inr () \<and> list_all2 packable time_anchor_fmt (time_anchor_values a 0) \<and>
     bs = seal (struct_bytes time_anchor_fmt (time_anchor_values a 0))"
  by (auto simp: time_anchor_pack_def bindE_Inr_iff struct_pack_Inr)

lemma time_anchor_dec_enc:
  assumes "time_anchor_pack a = Inr bs"
  shows "time_anchor_unpack bs = Inr a"
proof -
  let ?r = "struct_bytes time_anchor_fmt (time_anchor_values a 0)"
  from assms have v: "time_anchor_validate a = Inr ()"
    and p: "list_all2 packable time_anchor_fmt (time_anchor_values a 0)"
    and bs: "bs = struct_bytes time_anchor_fmt (time_anchor_values a (crc32 ?r))"
    by (auto simp: time_anchor_pack_Inr time_anchor_sealed)
  have fit: "list_all2 fits time_anchor_fmt (time_anchor_values a (crc32 ?r))"
    using crc32_bounds [of ?r] by (intro time_anchor_fits [OF p]) simp_all
  have U: "struct_unpack time_anchor_fmt bs = Inr (time_anchor_values a (crc32 ?r))"
    using struct_round_trip0 [OF fit] list_all2_lengthD [OF fit]
    by (simp add: bs struct_unpack_def length_struct_bytes)
  have z: "zero_tail bs = ?r" by (simp add: bs time_anchor_zero_tail)
  have "time_anchor_build (time_anchor_values a c) = a" for c
    by (cases a) (simp add: time_anchor_build_def time_anchor_values_def val_access)
  moreover have "checks (time_anchor_guards bs (time_anchor_values a (crc32 ?r))) = Inr ()"
    by (simp add: time_anchor_guards_def z) (simp add: time_anchor_values_def val_access)
  ultimately show ?thesis using U v by (auto simp: time_anchor_unpack_def unpack_record_Inr)
qed

lemma time_anchor_enc_dec:
  assumes "time_anchor_unpack bs = Inr a"
  shows "time_anchor_pack a = Inr bs"
proof -
  have pos: "list_all (\<lambda>f. 0 < field_size f) time_anchor_fmt" by (simp add: time_anchor_fmt_def)
  from assms obtain vs where U: "struct_unpack time_anchor_fmt bs = Inr vs"
    and g: "checks (time_anchor_guards bs vs) = Inr ()" and a: "a = time_anchor_build vs"
    and v: "time_anchor_validate a = Inr ()"
    by (auto simp: time_anchor_unpack_def unpack_record_Inr)
  note D = struct_unpackD [OF U pos]
  have "time_anchor_values a (crc32 (zero_tail bs)) = shape_at time_anchor_fmt vs 0"
    using g by (simp add: a time_anchor_build_def time_anchor_values_def time_anchor_fmt_def
        time_anchor_guards_def checks_ok_iff del: One_nat_def)
  with D(1) have shape: "vs = time_anchor_values a (crc32 (zero_tail bs))" by simp
  have z: "zero_tail bs = struct_bytes time_anchor_fmt (time_anchor_values a 0)"
    using time_anchor_zero_tail [of a "crc32 (zero_tail bs)"] D(4) by (simp only: shape [symmetric])
  have "list_all2 packable time_anchor_fmt (time_anchor_values a 0)"
    using D(3) unfolding shape by (simp add: time_anchor_fmt_def time_anchor_values_def)
  moreover have "seal (struct_bytes time_anchor_fmt (time_anchor_values a 0)) = bs"
    using D(4) shape z by (simp add: time_anchor_sealed)
  ultimately show ?thesis using v by (simp add: time_anchor_pack_Inr)
qed

lemma time_anchor_width: "time_anchor_pack a = Inr bs \<Longrightarrow> length bs = 64"
  by (auto simp: time_anchor_pack_Inr length_struct_bytes dest!: list_all2_lengthD)

interpretation anchor: fixed_codec time_anchor_pack time_anchor_unpack "\<lambda>_. True" 64
  by unfold_locales (blast intro: time_anchor_dec_enc time_anchor_enc_dec time_anchor_width)+

definition capabilities_fields :: "gadget_capabilities \<Rightarrow> val list" where
  "capabilities_fields c = map VInt [CAPABILITIES_MAGIC, 32, gc_protocol_min c, gc_protocol_max c, 0,
     gc_supported_features c, gc_max_samples_per_channel c, gc_max_finite_frames c,
     gc_capability_flags c, 0]"

definition capabilities_valid :: "gadget_capabilities \<Rightarrow> unit result" where
  "capabilities_valid c = checks (capabilities_guards (capabilities_fields c))"

interpretation capabilities: record_layout "pe ''capability response size mismatch''"
  capabilities_fmt capabilities_fields capabilities_guards "\<lambda>vs. Inr (capabilities_build vs)"
  capabilities_valid "\<lambda>_. Inr ()" "\<lambda>c. capabilities_valid c = Inr ()"
proof unfold_locales
  show "list_all (\<lambda>f. 0 < field_size f) capabilities_fmt" by (simp add: capabilities_fmt_def)
  show "list_all2 packable capabilities_fmt (capabilities_fields c) \<Longrightarrow>
     list_all2 fits capabilities_fmt (capabilities_fields c)" for c
    by (simp add: capabilities_fmt_def capabilities_fields_def)
  show "Inr (capabilities_build (capabilities_fields c)) = Inr c" for c
    by (cases c) (simp add: capabilities_build_def capabilities_fields_def val_access)
  show "checks (capabilities_guards vs) = Inr () \<Longrightarrow> Inr (capabilities_build vs) = Inr c \<Longrightarrow>
     capabilities_fields c = shape_at capabilities_fmt vs 0" for vs c
    by (auto simp: capabilities_guards_def capabilities_build_def capabilities_fields_def
        capabilities_fmt_def checks_ok_iff Let_def simp del: One_nat_def)
qed (simp_all add: capabilities_valid_def)

end
