(* ===== verification/Usb_Metadata.thy ===== *)
theory Usb_Metadata
  imports Usb_Records
begin

text \<open>
  \<open>direct_radio/usb.py\<close>, the version 3 metadata header: gain observations, gain events and
  \<open>RadioMetadataV3\<close>, whose encoding embeds a run of each between a fixed prefix and a CRC.
\<close>

section \<open>Gain observations\<close>

abbreviation (input) "GAIN_INDEX_INVALID \<equiv> 0xFF :: int"
abbreviation (input) "GAIN_DB_INVALID \<equiv> - 128 :: int"

record gain_observation =
  ob_sample_sequence_before :: int
  ob_sample_sequence_after :: int
  ob_read_duration_ns :: int
  ob_flags :: int
  ob_rx1_gain_index :: int
  ob_rx2_gain_index :: int
  ob_rx1_gain_db :: int
  ob_rx2_gain_db :: int

definition observation_fmt :: "field list" where
  "observation_fmt = [FU 8, FU 8, FU 4, FU 2, FU 1, FU 1, FS 1, FS 1, FU 2, FU 4]"

definition observation_validate :: "gain_observation \<Rightarrow> unit result" where
  "observation_validate g =
     (let interval = has (ob_flags g) 0x02;
          gains_valid = has (ob_flags g) 0x01;
          sentinels_absent =
            ob_rx1_gain_index g \<noteq> GAIN_INDEX_INVALID \<and> ob_rx2_gain_index g \<noteq> GAIN_INDEX_INVALID
            \<and> ob_rx1_gain_db g \<noteq> GAIN_DB_INVALID \<and> ob_rx2_gain_db g \<noteq> GAIN_DB_INVALID in
      checks [
       (\<not> in_uint 64 (ob_sample_sequence_before g), pe ''sample_sequence_before is outside uint64''),
       (\<not> in_uint 64 (ob_sample_sequence_after g), pe ''sample_sequence_after is outside uint64''),
       (\<not> in_uint 32 (ob_read_duration_ns g), pe ''read_duration_ns is outside uint32''),
       (\<not> in_uint 8 (ob_rx1_gain_index g), pe ''rx1_gain_index is outside uint8''),
       (\<not> in_uint 8 (ob_rx2_gain_index g), pe ''rx2_gain_index is outside uint8''),
       (ob_flags g AND flag_invert 0x03 0x03 \<noteq> 0, pe ''unknown gain-observation flags''),
       (interval \<and> ob_sample_sequence_after g < ob_sample_sequence_before g,
        pe ''gain observation sample interval runs backwards''),
       (\<not> interval \<and> (ob_sample_sequence_before g \<noteq> 0 \<or> ob_sample_sequence_after g \<noteq> 0),
        pe ''invalid gain observation interval must be zero''),
       (gains_valid \<noteq> sentinels_absent \<or> gains_valid \<and> \<not> interval,
        pe ''gain observation validity disagrees with values''),
       (\<not> (-128 \<le> ob_rx1_gain_db g \<and> ob_rx1_gain_db g \<le> 127)
          \<or> \<not> (-128 \<le> ob_rx2_gain_db g \<and> ob_rx2_gain_db g \<le> 127),
        pe ''gain observation dB is outside int8'')])"

definition observation_fields :: "gain_observation \<Rightarrow> val list" where
  "observation_fields g = map VInt
     [ob_sample_sequence_before g, ob_sample_sequence_after g, ob_read_duration_ns g, ob_flags g,
      ob_rx1_gain_index g, ob_rx2_gain_index g, ob_rx1_gain_db g, ob_rx2_gain_db g, 0, 0]"

definition observation_pack :: "gain_observation \<Rightarrow> bytes result" where
  "observation_pack = pack_record observation_validate observation_fmt observation_fields"

definition observation_guards :: "val list \<Rightarrow> (bool \<times> exn) list" where
  "observation_guards vs =
     [(int_at vs 8 \<noteq> 0 \<or> int_at vs 9 \<noteq> 0, pe ''gain observation reserved fields must be zero'')]"

definition observation_build :: "val list \<Rightarrow> gain_observation" where
  "observation_build vs =
     \<lparr>ob_sample_sequence_before = int_at vs 0, ob_sample_sequence_after = int_at vs 1,
      ob_read_duration_ns = int_at vs 2, ob_flags = int_at vs 3, ob_rx1_gain_index = int_at vs 4,
      ob_rx2_gain_index = int_at vs 5, ob_rx1_gain_db = int_at vs 6, ob_rx2_gain_db = int_at vs 7\<rparr>"

definition observation_unpack :: "bytes \<Rightarrow> gain_observation result" where
  "observation_unpack = unpack_record (pe ''gain observation record has the wrong size'')
     observation_fmt observation_guards (\<lambda>vs. Inr (observation_build vs)) observation_validate"

interpretation obs: record_layout "pe ''gain observation record has the wrong size''"
  observation_fmt observation_fields observation_guards "\<lambda>vs. Inr (observation_build vs)"
  observation_validate observation_validate "\<lambda>_. True"
proof unfold_locales
  show "list_all (\<lambda>f. 0 < field_size f) observation_fmt" by (simp add: observation_fmt_def)
  show "list_all2 packable observation_fmt (observation_fields g) \<Longrightarrow>
     list_all2 fits observation_fmt (observation_fields g)" for g
    by (simp add: observation_fmt_def observation_fields_def)
  show "checks (observation_guards (observation_fields g)) = Inr ()" for g
    by (simp add: observation_guards_def observation_fields_def val_access)
  show "Inr (observation_build (observation_fields g)) = Inr g" for g
    by (cases g) (simp add: observation_build_def observation_fields_def val_access)
  show "checks (observation_guards vs) = Inr () \<Longrightarrow> Inr (observation_build vs) = Inr g \<Longrightarrow>
     observation_fields g = shape_at observation_fmt vs 0" for vs g
    by (auto simp: observation_guards_def observation_build_def observation_fields_def
        observation_fmt_def simp del: One_nat_def)
qed simp_all

lemma observation_size [simp]: "struct_size observation_fmt = 32"
  by (simp add: struct_size_def observation_fmt_def)

section \<open>Gain events\<close>

record gain_event =
  ge_sample_sequence :: int
  ge_flags :: int

definition event_fmt :: "field list" where
  "event_fmt = [FU 8, FU 2, FU 2, FU 4]"

definition event_validate :: "gain_event \<Rightarrow> unit result" where
  "event_validate e = checks [
     (\<not> in_uint 64 (ge_sample_sequence e), pe ''event sample_sequence is outside uint64''),
     (ge_flags e AND flag_invert 0x0F 0x0F \<noteq> 0 \<or> \<not> has (ge_flags e) 0x03,
      pe ''gain event flags are invalid'')]"

definition event_fields :: "gain_event \<Rightarrow> val list" where
  "event_fields e = map VInt [ge_sample_sequence e, ge_flags e, 0, 0]"

definition event_pack :: "gain_event \<Rightarrow> bytes result" where
  "event_pack = pack_record event_validate event_fmt event_fields"

definition event_guards :: "val list \<Rightarrow> (bool \<times> exn) list" where
  "event_guards vs =
     [(int_at vs 2 \<noteq> 0 \<or> int_at vs 3 \<noteq> 0, pe ''gain event reserved fields must be zero'')]"

definition event_build :: "val list \<Rightarrow> gain_event" where
  "event_build vs = \<lparr>ge_sample_sequence = int_at vs 0, ge_flags = int_at vs 1\<rparr>"

text \<open>\<open>unpack\<close> validates by calling \<open>pack\<close> and dropping its result.\<close>

definition event_check :: "gain_event \<Rightarrow> unit result" where
  "event_check e = bindE (event_pack e) (\<lambda>_. Inr ())"

definition event_unpack :: "bytes \<Rightarrow> gain_event result" where
  "event_unpack = unpack_record (pe ''gain event record has the wrong size'') event_fmt event_guards
     (\<lambda>vs. Inr (event_build vs)) event_check"

lemma event_check_iff:
  "event_check e = Inr () \<longleftrightarrow> event_validate e = Inr () \<and> list_all2 packable event_fmt (event_fields e)"
  by (auto simp: event_check_def event_pack_def bindE_Inr_iff pack_record_Inr)

lemma event_pack_alt: "event_pack = pack_record event_check event_fmt event_fields"
proof
  fix e
  show "event_pack e = pack_record event_check event_fmt event_fields e"
    by (cases "event_pack e")
       (auto simp: event_check_def pack_record_def event_pack_def bindE_def split: sum.splits)
qed

interpretation events: record_layout "pe ''gain event record has the wrong size''"
  event_fmt event_fields event_guards "\<lambda>vs. Inr (event_build vs)"
  event_check event_check "\<lambda>_. True"
proof unfold_locales
  show "list_all (\<lambda>f. 0 < field_size f) event_fmt" by (simp add: event_fmt_def)
  show "list_all2 packable event_fmt (event_fields e) \<Longrightarrow> list_all2 fits event_fmt (event_fields e)" for e
    by (simp add: event_fmt_def event_fields_def)
  show "checks (event_guards (event_fields e)) = Inr ()" for e
    by (simp add: event_guards_def event_fields_def val_access)
  show "Inr (event_build (event_fields e)) = Inr e" for e
    by (cases e) (simp add: event_build_def event_fields_def val_access)
  show "checks (event_guards vs) = Inr () \<Longrightarrow> Inr (event_build vs) = Inr e \<Longrightarrow>
     event_fields e = shape_at event_fmt vs 0" for vs e
    by (auto simp: event_guards_def event_build_def event_fields_def event_fmt_def simp del: One_nat_def)
qed simp_all

lemma event_size [simp]: "struct_size event_fmt = 16"
  by (simp add: struct_size_def event_fmt_def)

section \<open>Metadata headers\<close>

datatype sample_format = CS16_LE_TIME_INTERLEAVED

record metadata =
  md_features :: int
  md_flags :: int
  md_stream_id :: int
  md_buffer_sequence :: int
  md_first_sample_sequence :: int
  md_samples_per_channel :: int
  md_iq_payload_bytes :: int
  md_enabled_scan_mask :: int
  md_sample_format :: sample_format
  md_channel_count :: int
  md_rx1_gain_db_start :: int
  md_rx2_gain_db_start :: int
  md_rx1_gain_db_end :: int
  md_rx2_gain_db_end :: int
  md_gain_start_read_duration_ns :: int
  md_gain_end_read_duration_ns :: int
  md_rx1_first_change_sample :: int
  md_rx2_first_change_sample :: int
  md_rx1_rssi_start_qdb :: int
  md_rx2_rssi_start_qdb :: int
  md_rx1_rssi_end_qdb :: int
  md_rx2_rssi_end_qdb :: int
  md_rssi_start_read_duration_ns :: int
  md_rssi_end_read_duration_ns :: int
  md_gain_observation_interval_samples :: int
  md_gain_observation_capacity :: int
  md_gain_event_capacity :: int
  md_gain_observation_overflow_count :: int
  md_gain_event_overflow_count :: int
  md_gain_observations :: "gain_observation list"
  md_gain_events :: "gain_event list"

definition v3_prefix_fmt :: "field list" where
  "v3_prefix_fmt = [FU 4, FU 2, FU 2, FU 4, FU 4, FU 8, FU 8, FU 8, FU 4, FU 4, FU 4, FU 2, FU 1,
     FS 1, FS 1, FS 1, FS 1, FU 1, FU 4, FU 4, FU 4, FU 4, FU 2, FU 2, FU 2, FU 2, FU 4, FU 4]"

definition v3_extension_fmt :: "field list" where
  "v3_extension_fmt = [FU 4, FU 2, FU 2, FU 2, FU 2, FU 2, FU 2, FU 4, FU 4, FU 4, FU 4]"

abbreviation (input) "HEADER_PREFIX_BYTES_V3 \<equiv> 124 :: nat"

lemma v3_sizes [simp]: "struct_size v3_prefix_fmt = 92" "struct_size v3_extension_fmt = 32"
  by (simp_all add: struct_size_def v3_prefix_fmt_def v3_extension_fmt_def)

definition header_bytes :: "metadata \<Rightarrow> int" where
  "header_bytes m = int HEADER_PREFIX_BYTES_V3 + md_gain_observation_capacity m * 32
     + md_gain_event_capacity m * 16 + 4"

fun observations_validate :: "int \<Rightarrow> int \<Rightarrow> int \<Rightarrow> gain_observation list \<Rightarrow> unit result" where
  "observations_validate first_sample frame_end prior [] = Inr ()"
| "observations_validate first_sample frame_end prior (g # gs) =
     bindE (observation_validate g) (\<lambda>_.
     bindE (checks [
       (ob_sample_sequence_before g < prior, pe ''gain observations are not ordered''),
       (has (ob_flags g) 0x02 \<and>
          \<not> (ob_sample_sequence_after g \<ge> first_sample \<and> ob_sample_sequence_before g < frame_end),
        pe ''gain observation does not overlap its IQ frame'')])
     (\<lambda>_. observations_validate first_sample frame_end (ob_sample_sequence_before g) gs))"

fun events_validate :: "int \<Rightarrow> int \<Rightarrow> int \<Rightarrow> gain_event list \<Rightarrow> unit result" where
  "events_validate first_sample frame_end prior [] = Inr ()"
| "events_validate first_sample frame_end prior (e # es) =
     bindE (event_check e) (\<lambda>_.
     bindE (checks [
       (\<not> (first_sample \<le> ge_sample_sequence e \<and> ge_sample_sequence e < frame_end)
          \<or> ge_sample_sequence e < prior,
        pe ''gain events are unordered or outside their IQ frame'')])
     (\<lambda>_. events_validate first_sample frame_end (ge_sample_sequence e) es))"

definition metadata_validate :: "metadata \<Rightarrow> unit result" where
  "metadata_validate m =
     bindE (checks [
       (extra (md_features m) 0xFF \<or> extra (md_flags m) (2 ^ 22 - 1),
        pe ''unknown metadata feature or flag bits''),
       (lacks (md_features m) 0xF7, pe ''protocol v3 is missing required features''),
       (lacks (md_flags m) (2 ^ 4 OR 2 ^ 19 OR 2 ^ 21),
        pe ''protocol v3 sample/gain/counter metadata is not valid''),
       (md_stream_id m = 0 \<or> md_samples_per_channel m = 0, pe ''stream and sample counts must be non-zero''),
       (md_enabled_scan_mask m \<noteq> 0x0F \<or> md_channel_count m \<noteq> 2
          \<or> md_sample_format m \<noteq> CS16_LE_TIME_INTERLEAVED,
        pe ''protocol v3 requires dual-RX CI16 scan layout''),
       (md_iq_payload_bytes m \<noteq> md_samples_per_channel m * 8,
        pe ''payload size does not match dual-RX CI16 layout''),
       (\<not> (1 \<le> md_gain_observation_interval_samples m
            \<and> md_gain_observation_interval_samples m \<le> md_samples_per_channel m),
        pe ''protocol v3 observation interval is outside the frame''),
       (\<not> (1 \<le> md_gain_observation_capacity m \<and> md_gain_observation_capacity m \<le> MAX_GAIN_OBSERVATIONS),
        pe ''protocol v3 observation capacity is invalid''),
       (\<not> (0 \<le> md_gain_event_capacity m \<and> md_gain_event_capacity m \<le> MAX_GAIN_EVENTS),
        pe ''protocol v3 event capacity is invalid''),
       (md_gain_observations m = []
          \<or> int (length (md_gain_observations m)) > md_gain_observation_capacity m,
        pe ''protocol v3 observation count is invalid''),
       (int (length (md_gain_events m)) > md_gain_event_capacity m,
        pe ''protocol v3 event count is invalid''),
       (has (md_flags m) (2 ^ 20) \<noteq> (md_gain_observation_overflow_count m \<noteq> 0),
        pe ''gain observation overflow flag/count disagree''),
       (has (md_flags m) (2 ^ 13) \<noteq> (md_gain_event_overflow_count m \<noteq> 0),
        pe ''gain event overflow flag/count disagree''),
       (has (md_features m) F_FPGA_GAIN_EVENTS
          \<noteq> (md_gain_event_capacity m \<noteq> 0 \<or> md_gain_events m \<noteq> []),
        pe ''gain event capacity disagrees with FPGA feature'')])
     (\<lambda>_. let frame_end = md_first_sample_sequence m + md_samples_per_channel m in
          bindE (observations_validate (md_first_sample_sequence m) frame_end (-1) (md_gain_observations m))
          (\<lambda>_. events_validate (md_first_sample_sequence m) frame_end (-1) (md_gain_events m)))"

definition metadata_prefix :: "metadata \<Rightarrow> val list" where
  "metadata_prefix m = map VInt
     [MAGIC, VERSION_V3, header_bytes m, md_features m, md_flags m, md_stream_id m,
      md_buffer_sequence m, md_first_sample_sequence m, md_samples_per_channel m,
      md_iq_payload_bytes m, md_enabled_scan_mask m, 1, md_channel_count m,
      md_rx1_gain_db_start m, md_rx2_gain_db_start m, md_rx1_gain_db_end m, md_rx2_gain_db_end m, 0,
      md_gain_start_read_duration_ns m, md_gain_end_read_duration_ns m,
      md_rx1_first_change_sample m, md_rx2_first_change_sample m, md_rx1_rssi_start_qdb m,
      md_rx2_rssi_start_qdb m, md_rx1_rssi_end_qdb m, md_rx2_rssi_end_qdb m,
      md_rssi_start_read_duration_ns m, md_rssi_end_read_duration_ns m]"

definition metadata_extension :: "metadata \<Rightarrow> val list" where
  "metadata_extension m = map VInt
     [md_gain_observation_interval_samples m, int (length (md_gain_observations m)),
      md_gain_observation_capacity m, 32, int (length (md_gain_events m)), md_gain_event_capacity m, 16,
      md_gain_observation_overflow_count m, md_gain_event_overflow_count m, 0, 0]"

definition zeros :: "int \<Rightarrow> bytes" where
  "zeros n = replicate (nat n) 0"

definition metadata_pack :: "metadata \<Rightarrow> bytes result" where
  "metadata_pack m =
     bindE (metadata_validate m) (\<lambda>_.
     bindE (struct_pack v3_prefix_fmt (metadata_prefix m)) (\<lambda>prefix.
     bindE (struct_pack v3_extension_fmt (metadata_extension m)) (\<lambda>extension.
     bindE (enc_records observation_pack (md_gain_observations m)) (\<lambda>observations.
     bindE (enc_records event_pack (md_gain_events m)) (\<lambda>events.
       let header = prefix @ extension
             @ observations
             @ zeros ((md_gain_observation_capacity m - int (length (md_gain_observations m))) * 32)
             @ events
             @ zeros ((md_gain_event_capacity m - int (length (md_gain_events m))) * 16)
             @ replicate 4 0
       in Inr (seal header))))))"

definition metadata_build ::
    "val list \<Rightarrow> val list \<Rightarrow> gain_observation list \<Rightarrow> gain_event list \<Rightarrow> metadata result" where
  "metadata_build p x obs evs =
     (if int_at p 11 \<noteq> 1 then Inl (ValueError ''is not a valid SampleFormat'')
      else Inr \<lparr>md_features = int_at p 3, md_flags = int_at p 4, md_stream_id = int_at p 5,
        md_buffer_sequence = int_at p 6, md_first_sample_sequence = int_at p 7,
        md_samples_per_channel = int_at p 8, md_iq_payload_bytes = int_at p 9,
        md_enabled_scan_mask = int_at p 10, md_sample_format = CS16_LE_TIME_INTERLEAVED,
        md_channel_count = int_at p 12, md_rx1_gain_db_start = int_at p 13,
        md_rx2_gain_db_start = int_at p 14, md_rx1_gain_db_end = int_at p 15,
        md_rx2_gain_db_end = int_at p 16, md_gain_start_read_duration_ns = int_at p 18,
        md_gain_end_read_duration_ns = int_at p 19, md_rx1_first_change_sample = int_at p 20,
        md_rx2_first_change_sample = int_at p 21, md_rx1_rssi_start_qdb = int_at p 22,
        md_rx2_rssi_start_qdb = int_at p 23, md_rx1_rssi_end_qdb = int_at p 24,
        md_rx2_rssi_end_qdb = int_at p 25, md_rssi_start_read_duration_ns = int_at p 26,
        md_rssi_end_read_duration_ns = int_at p 27,
        md_gain_observation_interval_samples = int_at x 0,
        md_gain_observation_capacity = int_at x 2, md_gain_event_capacity = int_at x 5,
        md_gain_observation_overflow_count = int_at x 7, md_gain_event_overflow_count = int_at x 8,
        md_gain_observations = obs, md_gain_events = evs\<rparr>)"

definition any_nonzero :: "bytes \<Rightarrow> bool" where
  "any_nonzero bs \<longleftrightarrow> list_ex (\<lambda>b. b \<noteq> 0) bs"

definition metadata_unpack :: "bytes \<Rightarrow> metadata result" where
  "metadata_unpack header =
     (if length header < HEADER_PREFIX_BYTES_V3 + 4 then Inl (pe ''short protocol v3 metadata header'')
      else bindE (struct_unpack_from v3_prefix_fmt header 0) (\<lambda>p.
      bindE (checks [
        (int_at p 0 \<noteq> MAGIC \<or> int_at p 1 \<noteq> VERSION_V3 \<or> int_at p 17 \<noteq> 0,
         pe ''bad protocol v3 identity or reserved field''),
        (int (length header) \<noteq> int_at p 2, pe ''protocol v3 metadata length mismatch'')]) (\<lambda>_.
      bindE (struct_unpack_from v3_extension_fmt header 92) (\<lambda>x.
      let obs_count = int_at x 1; obs_capacity = int_at x 2; event_count = int_at x 4;
          event_capacity = int_at x 5; offset = HEADER_PREFIX_BYTES_V3 + nat obs_capacity * 32 in
      bindE (checks [
        (int_at x 9 \<noteq> 0 \<or> int_at x 10 \<noteq> 0 \<or> int_at x 3 \<noteq> 32 \<or> int_at x 6 \<noteq> 16,
         pe ''protocol v3 extension record/reserved fields are invalid''),
        (int_at p 2 \<noteq> int HEADER_PREFIX_BYTES_V3 + obs_capacity * 32 + event_capacity * 16 + 4
           \<or> obs_count > obs_capacity \<or> event_count > event_capacity,
         pe ''protocol v3 header size or record count mismatch''),
        (\<not> crc_ok header, pe ''protocol v3 metadata CRC mismatch'')]) (\<lambda>_.
      bindE (dec_records observation_unpack 32 HEADER_PREFIX_BYTES_V3 (nat obs_count) header) (\<lambda>obs.
      bindE (checks [
        (any_nonzero (slice (HEADER_PREFIX_BYTES_V3 + nat obs_count * 32) offset header),
         pe ''unused gain observation records must be zero'')]) (\<lambda>_.
      bindE (dec_records event_unpack 16 offset (nat event_count) header) (\<lambda>evs.
      bindE (checks [
        (any_nonzero (slice (offset + nat event_count * 16) (offset + nat event_capacity * 16) header),
         pe ''unused gain event records must be zero'')]) (\<lambda>_.
      bindE (metadata_build p x obs evs) (\<lambda>m.
      bindE (metadata_validate m) (\<lambda>_. Inr m)))))))))))"

section \<open>The metadata codec\<close>

lemmas observation_codec_defs = observation_pack_def [symmetric] observation_unpack_def [symmetric]

lemmas event_codec_defs = event_pack_alt [symmetric] event_unpack_def [symmetric]

lemmas observations_dec_enc =
  obs.dec_enc_records [unfolded observation_codec_defs observation_size]
lemmas observations_enc_dec =
  obs.enc_dec_records [unfolded observation_codec_defs observation_size, simplified]
lemmas observations_length =
  obs.enc_records_length [unfolded observation_codec_defs observation_size]
lemmas events_dec_enc = events.dec_enc_records [unfolded event_codec_defs event_size]
lemmas events_enc_dec = events.enc_dec_records [unfolded event_codec_defs event_size, simplified]
lemmas events_length = events.enc_records_length [unfolded event_codec_defs event_size]

lemma any_nonzero_replicate: "\<not> any_nonzero bs \<longleftrightarrow> bs = replicate (length bs) 0"
  unfolding any_nonzero_def by (induction bs) auto

lemma metadata_capacities:
  assumes "metadata_validate m = Inr ()"
  shows "1 \<le> md_gain_observation_capacity m" "md_gain_observation_capacity m \<le> 256"
    "0 \<le> md_gain_event_capacity m" "md_gain_event_capacity m \<le> 256"
    "int (length (md_gain_observations m)) \<le> md_gain_observation_capacity m"
    "int (length (md_gain_events m)) \<le> md_gain_event_capacity m"
  using assms by (auto simp: metadata_validate_def bindE_Inr_iff)

lemma metadata_fits:
  "list_all2 packable v3_prefix_fmt (metadata_prefix m) \<Longrightarrow> list_all2 fits v3_prefix_fmt (metadata_prefix m)"
  "list_all2 packable v3_extension_fmt (metadata_extension m) \<Longrightarrow>
     list_all2 fits v3_extension_fmt (metadata_extension m)"
  by (simp_all add: v3_prefix_fmt_def metadata_prefix_def v3_extension_fmt_def metadata_extension_def)

lemma metadata_build_fields:
  "metadata_build (metadata_prefix m) (metadata_extension m) (md_gain_observations m) (md_gain_events m) = Inr m"
  by (cases m; cases "md_sample_format m")
     (simp add: metadata_build_def metadata_prefix_def metadata_extension_def val_access)

lemma metadata_pack_Inr:
  "metadata_pack m = Inr bs \<longleftrightarrow> metadata_validate m = Inr () \<and>
     list_all2 packable v3_prefix_fmt (metadata_prefix m) \<and>
     list_all2 packable v3_extension_fmt (metadata_extension m) \<and>
     (\<exists>os es. enc_records observation_pack (md_gain_observations m) = Inr os \<and>
        enc_records event_pack (md_gain_events m) = Inr es \<and>
        bs = seal (struct_bytes v3_prefix_fmt (metadata_prefix m)
          @ struct_bytes v3_extension_fmt (metadata_extension m) @ os
          @ zeros ((md_gain_observation_capacity m - int (length (md_gain_observations m))) * 32) @ es
          @ zeros ((md_gain_event_capacity m - int (length (md_gain_events m))) * 16) @ replicate 4 0))"
  by (auto simp: metadata_pack_def bindE_Inr_iff struct_pack_Inr Let_def)

lemma metadata_dec_enc:
  assumes "metadata_pack m = Inr bs"
  shows "metadata_unpack bs = Inr m" and "int (length bs) = header_bytes m"
proof -
  define P where "P = struct_bytes v3_prefix_fmt (metadata_prefix m)"
  define X where "X = struct_bytes v3_extension_fmt (metadata_extension m)"
  define no where "no = length (md_gain_observations m)"
  define ne where "ne = length (md_gain_events m)"
  define co where "co = nat (md_gain_observation_capacity m)"
  define ce where "ce = nat (md_gain_event_capacity m)"
  from assms obtain os es where v: "metadata_validate m = Inr ()"
    and pp: "list_all2 packable v3_prefix_fmt (metadata_prefix m)"
    and px: "list_all2 packable v3_extension_fmt (metadata_extension m)"
    and os: "enc_records observation_pack (md_gain_observations m) = Inr os"
    and es: "enc_records event_pack (md_gain_events m) = Inr es"
    and bs0: "bs = seal (P @ X @ os
          @ zeros ((md_gain_observation_capacity m - int no) * 32) @ es
          @ zeros ((md_gain_event_capacity m - int ne) * 16) @ replicate 4 0)"
    by (auto simp: metadata_pack_Inr P_def X_def no_def ne_def)
  note cap = metadata_capacities [OF v]
  have co: "md_gain_observation_capacity m = int co" and ce: "md_gain_event_capacity m = int ce"
    using cap by (simp_all add: co_def ce_def)
  have le: "no \<le> co" "ne \<le> ce" using cap by (simp_all add: co ce no_def ne_def)
  have z: "zeros ((int co - int no) * 32) = replicate ((co - no) * 32) 0"
    "zeros ((int ce - int ne) * 16) = replicate ((ce - ne) * 16) 0"
    using le by (simp_all add: zeros_def nat_mult_distrib flip: of_nat_diff)
  define body where "body = P @ X @ os @ replicate ((co - no) * 32) 0 @ es @ replicate ((ce - ne) * 16) 0"
  define C where "C = le_bytes 4 (crc32 (body @ replicate 4 0))"
  have "bs = seal (body @ replicate 4 0)"
    by (simp only: bs0 co ce z body_def append_assoc)
  then have bs: "bs = body @ C"
    by (simp add: seal_append C_def)
  have crc: "crc_ok bs"
    using seal_crc_ok [of body] seal_append [of "replicate 4 0" body] by (simp add: bs C_def)
  have lP: "length P = 92" and lX: "length X = 32"
    using list_all2_lengthD [OF pp] list_all2_lengthD [OF px]
    by (simp_all add: P_def X_def length_struct_bytes)
  have lo: "length os = no * 32" and lE: "length es = ne * 16"
    using observations_length [OF os] events_length [OF es] by (simp_all add: no_def ne_def)
  have lC: "length C = 4" by (simp add: C_def)
  have len: "length bs = 124 + co * 32 + ce * 16 + 4"
    using le by (simp add: bs body_def lP lX lo lE lC algebra_simps)
  then show hb: "int (length bs) = header_bytes m" by (simp add: header_bytes_def co ce)
  have U1: "struct_unpack_from v3_prefix_fmt bs 0 = Inr (metadata_prefix m)"
    using struct_unpack_from_append [OF metadata_fits(1) [OF pp], of 0 "[]"]
    by (simp add: bs body_def P_def)
  have U2: "struct_unpack_from v3_extension_fmt bs 92 = Inr (metadata_extension m)"
    using struct_unpack_from_append [OF metadata_fits(2) [OF px], of 92 P]
    by (simp add: bs body_def X_def lP)
  have O: "dec_records observation_unpack 32 124 no bs = Inr (md_gain_observations m)"
    using observations_dec_enc [OF os, of 124 "P @ X" no]
    by (simp add: bs body_def lP lX no_def)
  have E: "dec_records event_unpack 16 (124 + co * 32) ne bs = Inr (md_gain_events m)"
    using events_dec_enc [OF es, of "124 + co * 32" "P @ X @ os @ replicate ((co - no) * 32) 0" ne] le
    by (simp add: bs body_def lP lX lo ne_def algebra_simps)
  have Z1: "slice (124 + no * 32) (124 + co * 32) bs = replicate ((co - no) * 32) 0"
    using le by (simp add: bs body_def slice_append_right lP lX lo slice_append_left)
      (simp add: slice_def lo algebra_simps)
  have Z2: "slice (124 + co * 32 + ne * 16) (124 + co * 32 + ce * 16) bs = replicate ((ce - ne) * 16) 0"
    using le by (simp add: bs body_def slice_append_right lP lX lo lE slice_append_left algebra_simps)
      (simp add: slice_def algebra_simps)
  have A: "int_at (metadata_prefix m) 0 = MAGIC" "int_at (metadata_prefix m) 1 = VERSION_V3"
    "int_at (metadata_prefix m) 17 = 0" "int_at (metadata_prefix m) 2 = header_bytes m"
    "int_at (metadata_extension m) 1 = int no" "int_at (metadata_extension m) 2 = int co"
    "int_at (metadata_extension m) 4 = int ne" "int_at (metadata_extension m) 5 = int ce"
    "int_at (metadata_extension m) 3 = 32" "int_at (metadata_extension m) 6 = 16"
    "int_at (metadata_extension m) 9 = 0" "int_at (metadata_extension m) 10 = 0"
    by (simp_all add: metadata_prefix_def metadata_extension_def val_access no_def ne_def co ce)
  have any0: "\<not> any_nonzero (replicate n 0)" for n by (simp add: any_nonzero_replicate)
  show "metadata_unpack bs = Inr m"
    unfolding metadata_unpack_def U1 U2 bindE_simps Let_def A nat_int O Z1 E Z2
    using v le crc
    by (simp add: hb len header_bytes_def co ce any0 metadata_build_fields checks_eval)
qed

lemma metadata_enc_dec:
  assumes "metadata_unpack bs = Inr m"
  shows "metadata_pack m = Inr bs"
proof -
  from assms obtain p x obs evs where
      U1: "struct_unpack_from v3_prefix_fmt bs 0 = Inr p"
    and U2: "struct_unpack_from v3_extension_fmt bs 92 = Inr x"
    and g: "int_at p 0 = MAGIC" "int_at p 1 = VERSION_V3" "int_at p 17 = 0" "int (length bs) = int_at p 2"
      "int_at x 9 = 0" "int_at x 10 = 0" "int_at x 3 = 32" "int_at x 6 = 16"
      "int_at p 2 = 124 + int_at x 2 * 32 + int_at x 5 * 16 + 4"
      "int_at x 1 \<le> int_at x 2" "int_at x 4 \<le> int_at x 5"
    and crc: "crc_ok bs" and long: "128 \<le> length bs"
    and O: "dec_records observation_unpack 32 124 (nat (int_at x 1)) bs = Inr obs"
    and Z1: "\<not> any_nonzero (slice (124 + nat (int_at x 1) * 32) (124 + nat (int_at x 2) * 32) bs)"
    and E: "dec_records event_unpack 16 (124 + nat (int_at x 2) * 32) (nat (int_at x 4)) bs = Inr evs"
    and Z2: "\<not> any_nonzero (slice (124 + nat (int_at x 2) * 32 + nat (int_at x 4) * 16)
               (124 + nat (int_at x 2) * 32 + nat (int_at x 5) * 16) bs)"
    and b: "metadata_build p x obs evs = Inr m" and v: "metadata_validate m = Inr ()"
    unfolding metadata_unpack_def bindE_Inr_iff Let_def
    by (fastforce split: if_splits simp: bindE_Inr_iff simp del: One_nat_def)
  have pos: "list_all (\<lambda>f. 0 < field_size f) v3_prefix_fmt" "list_all (\<lambda>f. 0 < field_size f) v3_extension_fmt"
    by (simp_all add: v3_prefix_fmt_def v3_extension_fmt_def)
  note D1 = struct_unpackD [OF conjunct2 [OF U1 [unfolded struct_unpack_from_Inr]] pos(1)]
  note D2 = struct_unpackD [OF conjunct2 [OF U2 [unfolded struct_unpack_from_Inr]] pos(2)]
  have "list_all2 packable v3_extension_fmt (shape_at v3_extension_fmt x 0)" using D2(1,3) by simp
  then have nn: "0 \<le> int_at x 1" "0 \<le> int_at x 2" "0 \<le> int_at x 4" "0 \<le> int_at x 5"
    by (simp_all add: v3_extension_fmt_def del: One_nat_def)
  define no where "no = nat (int_at x 1)"
  define ne where "ne = nat (int_at x 4)"
  define co where "co = nat (int_at x 2)"
  define ce where "ce = nat (int_at x 5)"
  have ints: "int_at x 1 = int no" "int_at x 4 = int ne" "int_at x 2 = int co" "int_at x 5 = int ce"
    using nn by (simp_all add: no_def ne_def co_def ce_def)
  have le: "no \<le> co" "ne \<le> ce" using g ints by simp_all
  have len: "length bs = 124 + co * 32 + ce * 16 + 4"
    using g(4,9) by (simp add: ints)
  note O' = O [folded no_def] and E' = E [folded ne_def co_def]
  have os: "enc_records observation_pack obs = Inr (slice 124 (124 + no * 32) bs)" and no: "length obs = no"
    using observations_enc_dec [OF O'] le by (simp_all add: len)
  have es: "enc_records event_pack evs = Inr (slice (124 + co * 32) (124 + co * 32 + ne * 16) bs)"
    and ne: "length evs = ne"
    using events_enc_dec [OF E'] le by (simp_all add: len)
  have m: "md_gain_observations m = obs" "md_gain_events m = evs"
    "md_gain_observation_capacity m = int co" "md_gain_event_capacity m = int ce"
    using b ints by (auto simp: metadata_build_def split: if_splits)
  have hb: "header_bytes m = int_at p 2" using g(9) by (simp add: header_bytes_def m ints)
  have "metadata_prefix m = shape_at v3_prefix_fmt p 0"
    using b g(1-3) unfolding metadata_prefix_def hb
    by (auto simp: metadata_build_def v3_prefix_fmt_def simp del: One_nat_def split: if_splits)
  then have pre: "metadata_prefix m = p" using D1(1) by simp
  have "metadata_extension m = shape_at v3_extension_fmt x 0"
    using b g(5-8) no ne ints
    by (auto simp: metadata_extension_def metadata_build_def v3_extension_fmt_def
        simp del: One_nat_def split: if_splits)
  then have ext: "metadata_extension m = x" using D2(1) by simp
  have z: "zeros ((int co - int no) * 32) = slice (124 + no * 32) (124 + co * 32) bs"
    "zeros ((int ce - int ne) * 16) = slice (124 + co * 32 + ne * 16) (124 + co * 32 + ce * 16) bs"
    using Z1 Z2 le unfolding any_nonzero_replicate no_def [symmetric] ne_def [symmetric]
      co_def [symmetric] ce_def [symmetric]
    by (simp_all add: zeros_def nat_mult_distrib len algebra_simps flip: of_nat_diff)
  have "slice 0 92 bs @ slice 92 124 bs @ slice 124 (124 + no * 32) bs
      @ slice (124 + no * 32) (124 + co * 32) bs
      @ slice (124 + co * 32) (124 + co * 32 + ne * 16) bs
      @ slice (124 + co * 32 + ne * 16) (124 + co * 32 + ce * 16) bs = slice 0 (length bs - 4) bs"
    using le by (simp add: slice_append_slice len add.assoc)
  then have "seal (slice 0 92 bs @ slice 92 124 bs @ slice 124 (124 + no * 32) bs
      @ slice (124 + no * 32) (124 + co * 32) bs
      @ slice (124 + co * 32) (124 + co * 32 + ne * 16) bs
      @ slice (124 + co * 32 + ne * 16) (124 + co * 32 + ce * 16) bs @ replicate 4 0) = bs"
    using crc_ok_seal [OF crc] long by (simp add: zero_tail_def slice_def flip: append_assoc)
  then show ?thesis
    unfolding metadata_pack_Inr pre ext m z no ne
    using v D1(3,4) D2(3,4) os es by (simp add: m)
qed

lemma metadata_width: "metadata_pack m = Inr bs \<Longrightarrow> length bs = nat (header_bytes m)"
  using metadata_dec_enc(2) [of m bs] by simp

interpretation metadata_codec: wire_codec metadata_pack metadata_unpack "\<lambda>_. True"
  by unfold_locales (blast intro: metadata_dec_enc metadata_enc_dec)+

end
