(* ===== verification/Usb_Parser.thy ===== *)
theory Usb_Parser
  imports Usb_Metadata
begin

text \<open>
  \<open>direct_radio/usb.py\<close>, \<open>RxFrameParser\<close>: the incremental, fail-closed parser of one ordered
  version 3 stream. The parser's fields are a record; a method returns the new parser together
  with the returned value or the raised exception, since a failing call also changes the parser.
\<close>

section \<open>Parser state\<close>

record direct_frame =
  df_metadata :: metadata
  df_iq_payload :: bytes

record rx_parser =
  rp_allow_sequence_gaps :: bool
  rp_dropped_frame_count :: int
  rp_buffer :: bytes
  rp_stream_id :: "int option"
  rp_buffer_sequence :: "int option"
  rp_sample_sequence :: "int option"

definition rx_init :: "bool \<Rightarrow> rx_parser" where
  "rx_init allow = \<lparr>rp_allow_sequence_gaps = allow, rp_dropped_frame_count = 0, rp_buffer = [],
     rp_stream_id = None, rp_buffer_sequence = None, rp_sample_sequence = None\<rparr>"

definition rx_reset :: "rx_parser \<Rightarrow> rx_parser" where
  "rx_reset p = p\<lparr>rp_buffer := [], rp_stream_id := None, rp_buffer_sequence := None,
     rp_sample_sequence := None\<rparr>"

section \<open>Sequence validation\<close>

definition u64 :: "int \<Rightarrow> int" where
  "u64 n = n AND 0xFFFFFFFFFFFFFFFF"

definition rx_check_stream :: "metadata \<Rightarrow> rx_parser \<Rightarrow> rx_parser \<times> unit result" where
  "rx_check_stream m p =
     (case rp_stream_id p of
        None \<Rightarrow> if md_buffer_sequence m \<noteq> 0
                then (p, Inl (pe ''new stream must begin at buffer sequence 0''))
                else (p\<lparr>rp_stream_id := Some (md_stream_id m)\<rparr>, Inr ())
      | Some s \<Rightarrow> if md_stream_id m \<noteq> s then (p, Inl (pe ''stream ID changed without reset''))
                  else (p, Inr ()))"

definition rx_check_buffer :: "metadata \<Rightarrow> rx_parser \<Rightarrow> rx_parser \<times> unit result" where
  "rx_check_buffer m p =
     (case rp_buffer_sequence p of
        None \<Rightarrow> (p, Inr ())
      | Some b \<Rightarrow>
          if md_buffer_sequence m = b then (p, Inr ())
          else let skipped = u64 (md_buffer_sequence m - b) in
               if \<not> rp_allow_sequence_gaps p \<or> skipped > MAX_FINITE_FRAMES
               then (p, Inl (pe ''buffer sequence discontinuity''))
               else (p\<lparr>rp_dropped_frame_count := rp_dropped_frame_count p + skipped\<rparr>, Inr ()))"

definition rx_check_sample :: "metadata \<Rightarrow> rx_parser \<Rightarrow> unit result" where
  "rx_check_sample m p =
     (case rp_sample_sequence p of
        None \<Rightarrow> Inr ()
      | Some s \<Rightarrow>
          if md_first_sample_sequence m = s then Inr ()
          else let advance = u64 (md_first_sample_sequence m - s) in
               if \<not> rp_allow_sequence_gaps p \<or> advance mod md_samples_per_channel m \<noteq> 0
               then Inl (pe ''sample sequence discontinuity'') else Inr ())"

definition rx_validate_sequence :: "metadata \<Rightarrow> rx_parser \<Rightarrow> rx_parser \<times> unit result" where
  "rx_validate_sequence m p =
     (case rx_check_stream m p of
        (p1, Inl e) \<Rightarrow> (p1, Inl e)
      | (p1, Inr _) \<Rightarrow>
          (case rx_check_buffer m p1 of
             (p2, Inl e) \<Rightarrow> (p2, Inl e)
           | (p2, Inr _) \<Rightarrow>
               (case rx_check_sample m p2 of
                  Inl e \<Rightarrow> (p2, Inl e)
                | Inr _ \<Rightarrow>
                    (p2\<lparr>rp_buffer_sequence := Some (u64 (md_buffer_sequence m + 1)),
                       rp_sample_sequence :=
                         Some (u64 (md_first_sample_sequence m + md_samples_per_channel m))\<rparr>, Inr ()))))"

lemma rx_validate_sequence_buffer: "rp_buffer (fst (rx_validate_sequence m p)) = rp_buffer p"
  by (auto simp: rx_validate_sequence_def rx_check_stream_def rx_check_buffer_def Let_def
      split: option.splits sum.splits prod.splits if_splits)

section \<open>Feeding bytes\<close>

text \<open>
  The \<open>while\<close> loop of \<open>feed\<close>: one step looks at the buffered bytes and either needs more, fails,
  or removes one frame. A removed frame is at least 128 bytes, which is what makes it stop.
\<close>

datatype rx_step = NeedMore | Fail exn | Frame metadata nat nat

definition rx_peek :: "bytes \<Rightarrow> rx_step" where
  "rx_peek buf =
     (if length buf < HEADER_PREFIX_BYTES_V3 + 4 then NeedMore
      else let magic = le_value (slice 0 4 buf); version = le_value (slice 4 6 buf);
               hbytes = nat (le_value (slice 6 8 buf)) in
        if magic \<noteq> MAGIC \<or> version \<noteq> VERSION_V3
           \<or> \<not> (HEADER_PREFIX_BYTES_V3 + 4 \<le> hbytes \<and> hbytes \<le> 0xFFFF)
        then Fail (pe ''bad protocol v3 frame identity or header size'')
        else if length buf < hbytes then NeedMore
        else case metadata_unpack (take hbytes buf) of
               Inl e \<Rightarrow> Fail e
             | Inr m \<Rightarrow>
                 let tot = hbytes + nat (md_iq_payload_bytes m) in
                 if length buf < tot then NeedMore else Frame m hbytes tot)"

lemma rx_peek_Frame:
  "rx_peek buf = Frame m h t \<Longrightarrow> 128 \<le> h \<and> h \<le> t \<and> t \<le> length buf"
  by (auto simp: rx_peek_def Let_def split: if_splits sum.splits)

function rx_loop :: "rx_parser \<Rightarrow> direct_frame list \<Rightarrow> rx_parser \<times> direct_frame list result" where
  "rx_loop p frames =
     (case rx_peek (rp_buffer p) of
        NeedMore \<Rightarrow> (p, Inr frames)
      | Fail e \<Rightarrow> (p, Inl e)
      | Frame m hbytes tot \<Rightarrow>
          (case rx_validate_sequence m p of
             (p1, Inl e) \<Rightarrow> (p1, Inl e)
           | (p1, Inr _) \<Rightarrow>
               rx_loop (p1\<lparr>rp_buffer := drop tot (rp_buffer p)\<rparr>)
                 (frames @ [\<lparr>df_metadata = m, df_iq_payload = slice hbytes tot (rp_buffer p)\<rparr>])))"
  by pat_completeness auto
termination
  by (relation "measure (\<lambda>(p, frames). length (rp_buffer p))") (auto dest!: rx_peek_Frame)

declare rx_loop.simps [simp del]

text \<open>
  \<open>except (ProtocolError, ValueError)\<close>: the parser resets and the exception leaves as a
  \<open>ProtocolError\<close>. Any other exception passes through without a reset.
\<close>

fun rx_failed :: "rx_parser \<Rightarrow> exn \<Rightarrow> rx_parser \<times> exn" where
  "rx_failed p (ProtocolError msg) = (rx_reset p, ProtocolError msg)"
| "rx_failed p (ValueError msg) = (rx_reset p, ProtocolError msg)"
| "rx_failed p e = (p, e)"

definition rx_feed :: "rx_parser \<Rightarrow> bytes \<Rightarrow> rx_parser \<times> direct_frame list result" where
  "rx_feed p chunk =
     (case rx_loop (p\<lparr>rp_buffer := rp_buffer p @ chunk\<rparr>) [] of
        (p1, Inr frames) \<Rightarrow> (p1, Inr frames)
      | (p1, Inl e) \<Rightarrow> (case rx_failed p1 e of (p2, e2) \<Rightarrow> (p2, Inl e2)))"

definition rx_complete_body :: "rx_parser \<Rightarrow> bytes \<Rightarrow> rx_parser \<times> direct_frame result" where
  "rx_complete_body p frame =
     (if length frame < HEADER_PREFIX_BYTES_V3 + 4
      then (p, Inl (pe ''complete frame is shorter than its header''))
      else let hbytes = nat (le_value (slice 6 8 frame)) in
        if length frame < hbytes then (p, Inl (pe ''complete frame is shorter than its header''))
        else case metadata_unpack (take hbytes frame) of
               Inl e \<Rightarrow> (p, Inl e)
             | Inr m \<Rightarrow>
                 if int (length frame) \<noteq> int hbytes + md_iq_payload_bytes m
                 then (p, Inl (pe ''complete frame length mismatch''))
                 else (case rx_validate_sequence m p of
                         (p1, Inl e) \<Rightarrow> (p1, Inl e)
                       | (p1, Inr _) \<Rightarrow>
                           (p1, Inr \<lparr>df_metadata = m, df_iq_payload = drop hbytes frame\<rparr>)))"

definition rx_parse_complete_frame :: "rx_parser \<Rightarrow> bytes \<Rightarrow> rx_parser \<times> direct_frame result" where
  "rx_parse_complete_frame p frame =
     (if rp_buffer p \<noteq> [] then (p, Inl (pe ''cannot parse a complete frame with staged bytes''))
      else case rx_complete_body p frame of
             (p1, Inr f) \<Rightarrow> (p1, Inr f)
           | (p1, Inl e) \<Rightarrow> (case rx_failed p1 e of (p2, e2) \<Rightarrow> (p2, Inl e2)))"

definition rx_finish :: "rx_parser \<Rightarrow> rx_parser \<times> unit result" where
  "rx_finish p =
     (if rp_buffer p \<noteq> [] then (rx_reset p, Inl (pe ''stream ended with unframed bytes''))
      else (p, Inr ()))"

section \<open>Chunking does not matter\<close>

text \<open>A step that needs no more bytes takes the same decision with more bytes behind them.\<close>

lemma rx_peek_append:
  assumes "rx_peek buf \<noteq> NeedMore"
  shows "rx_peek (buf @ ext) = rx_peek buf"
proof -
  have long: "128 \<le> length buf" using assms by (auto simp: rx_peek_def split: if_splits)
  then have heads: "slice 0 4 (buf @ ext) = slice 0 4 buf" "slice 4 6 (buf @ ext) = slice 4 6 buf"
    "slice 6 8 (buf @ ext) = slice 6 8 buf"
    by (simp_all add: slice_append_left)
  show ?thesis using assms long
    unfolding rx_peek_def heads Let_def
    by (auto split: if_splits sum.splits)
qed

lemma rx_loop_frames:
  "rx_loop p (fs @ frames) = (case rx_loop p frames of
     (p1, Inl e) \<Rightarrow> (p1, Inl e) | (p1, Inr gs) \<Rightarrow> (p1, Inr (fs @ gs)))"
proof (induction p frames rule: rx_loop.induct)
  case (1 p frames)
  show ?case
  proof (cases "rx_peek (rp_buffer p)")
    case (Frame m h t)
    then show ?thesis
      using "1.IH" [OF Frame]
      by (cases "rx_validate_sequence m p"; cases "snd (rx_validate_sequence m p)")
         (simp_all add: rx_loop.simps [of p] )
  qed (simp_all add: rx_loop.simps [of p])
qed

lemma rx_validate_sequence_more:
  "rx_validate_sequence m (p\<lparr>rp_buffer := b\<rparr>) =
     (fst (rx_validate_sequence m p)\<lparr>rp_buffer := b\<rparr>, snd (rx_validate_sequence m p))"
  by (auto simp: rx_validate_sequence_def rx_check_stream_def rx_check_buffer_def rx_check_sample_def
      Let_def split: option.splits sum.splits prod.splits if_splits)

definition staged :: "rx_parser \<Rightarrow> bytes \<Rightarrow> rx_parser" where
  "staged p ext = p\<lparr>rp_buffer := rp_buffer p @ ext\<rparr>"

lemma rx_loop_extend:
  "rx_loop p frames = (p1, Inr gs) \<Longrightarrow> rx_loop (staged p ext) frames = rx_loop (staged p1 ext) gs"
proof (induction p frames rule: rx_loop.induct)
  case (1 p frames)
  show ?case
  proof (cases "rx_peek (rp_buffer p)")
    case NeedMore
    with "1.prems" show ?thesis by (simp add: rx_loop.simps [of p])
  next
    case (Fail e)
    with "1.prems" show ?thesis by (simp add: rx_loop.simps [of p])
  next
    case (Frame m h t)
    then have peek: "rx_peek (rp_buffer p @ ext) = Frame m h t"
      using rx_peek_append [of "rp_buffer p" ext] by simp
    have t: "h \<le> t" "t \<le> length (rp_buffer p)" using rx_peek_Frame [OF Frame] by simp_all
    obtain p2 r where vs: "rx_validate_sequence m p = (p2, r)" by fastforce
    with "1.prems" Frame obtain u where r: "r = Inr u"
      by (cases r) (simp_all add: rx_loop.simps [of p])
    let ?f = "\<lparr>df_metadata = m, df_iq_payload = slice h t (rp_buffer p)\<rparr>"
    let ?p3 = "p2\<lparr>rp_buffer := drop t (rp_buffer p)\<rparr>"
    from "1.prems" Frame vs r have "rx_loop ?p3 (frames @ [?f]) = (p1, Inr gs)"
      by (simp add: rx_loop.simps [of p])
    then have "rx_loop (staged ?p3 ext) (frames @ [?f]) = rx_loop (staged p1 ext) gs"
      using "1.IH" [OF Frame vs [symmetric, simplified r]] by blast
    moreover have "rx_validate_sequence m (staged p ext) = (p2\<lparr>rp_buffer := rp_buffer p @ ext\<rparr>, Inr u)"
      using vs r by (simp add: staged_def rx_validate_sequence_more)
    ultimately show ?thesis using t peek
      by (subst rx_loop.simps) (simp add: staged_def slice_append_left)
  qed
qed

lemma rx_feed_append:
  assumes "rx_feed p a = (p1, Inr fs)"
  shows "rx_feed p (a @ b) = (case rx_feed p1 b of
     (p2, Inl e) \<Rightarrow> (p2, Inl e) | (p2, Inr gs) \<Rightarrow> (p2, Inr (fs @ gs)))"
proof -
  from assms have "rx_loop (staged p a) [] = (p1, Inr fs)"
    by (auto simp: rx_feed_def staged_def split: prod.splits sum.splits)
  then have "rx_loop (staged (staged p a) b) [] = rx_loop (staged p1 b) (fs @ [])"
    by (simp add: rx_loop_extend)
  also have "\<dots> = (case rx_loop (staged p1 b) [] of
     (p1, Inl e) \<Rightarrow> (p1, Inl e) | (p1, Inr gs) \<Rightarrow> (p1, Inr (fs @ gs)))"
    by (rule rx_loop_frames)
  finally show ?thesis
    by (auto simp: rx_feed_def staged_def split: prod.splits sum.splits)
qed

section \<open>Frames of one stream\<close>

text \<open>
  The abstract contract of the strict parser: one stream identifier, buffer sequence numbers
  counting up by one and sample positions following each other without a gap, both modulo \<open>2 ^ 64\<close>.
\<close>

fun contiguous :: "int \<Rightarrow> int \<Rightarrow> int \<Rightarrow> direct_frame list \<Rightarrow> bool" where
  "contiguous s b n [] \<longleftrightarrow> True"
| "contiguous s b n (f # fs) \<longleftrightarrow>
     md_stream_id (df_metadata f) = s \<and> md_buffer_sequence (df_metadata f) = b \<and>
     md_first_sample_sequence (df_metadata f) = n \<and>
     contiguous s ((b + 1) mod 2 ^ 64) ((n + md_samples_per_channel (df_metadata f)) mod 2 ^ 64) fs"

definition encode_frame :: "direct_frame \<Rightarrow> bytes result" where
  "encode_frame f = bindE (metadata_pack (df_metadata f)) (\<lambda>h.
     if int (length (df_iq_payload f)) = md_iq_payload_bytes (df_metadata f)
     then Inr (h @ df_iq_payload f) else Inl (pe ''complete frame length mismatch''))"

lemma u64_mod: "u64 n = n mod 2 ^ 64"
proof -
  have "(0xFFFFFFFFFFFFFFFF :: int) = mask 64" by (simp add: mask_eq_exp_minus_1)
  then show ?thesis by (metis u64_def take_bit_eq_mask take_bit_eq_mod)
qed

definition tracking :: "rx_parser \<Rightarrow> int \<Rightarrow> int \<Rightarrow> int \<Rightarrow> bool" where
  "tracking p s b n \<longleftrightarrow> \<not> rp_allow_sequence_gaps p \<and> rp_stream_id p = Some s \<and>
     rp_buffer_sequence p = Some b \<and> rp_sample_sequence p = Some n"

lemma rx_validate_strict:
  assumes "tracking p s b n"
  shows "rx_validate_sequence m p = (p1, Inr u) \<longleftrightarrow>
     md_stream_id m = s \<and> md_buffer_sequence m = b \<and> md_first_sample_sequence m = n \<and>
     p1 = p\<lparr>rp_buffer_sequence := Some ((b + 1) mod 2 ^ 64),
            rp_sample_sequence := Some ((n + md_samples_per_channel m) mod 2 ^ 64)\<rparr>"
  using assms
  by (auto simp: tracking_def rx_validate_sequence_def rx_check_stream_def rx_check_buffer_def
      rx_check_sample_def Let_def u64_mod split: sum.splits prod.splits if_splits)

lemma rx_validate_fresh:
  "rx_validate_sequence m (rx_init False\<lparr>rp_buffer := buf\<rparr>) = (p1, Inr u) \<longleftrightarrow>
     md_buffer_sequence m = 0 \<and>
     p1 = rx_init False\<lparr>rp_buffer := buf, rp_stream_id := Some (md_stream_id m),
            rp_buffer_sequence := Some 1,
            rp_sample_sequence := Some ((md_first_sample_sequence m + md_samples_per_channel m) mod 2 ^ 64)\<rparr>"
  by (auto simp: rx_init_def rx_validate_sequence_def rx_check_stream_def rx_check_buffer_def
      rx_check_sample_def Let_def u64_mod split: sum.splits prod.splits if_splits)

lemma rx_loop_Frame:
  assumes "rx_peek (rp_buffer p) = Frame m h t" and "rx_validate_sequence m p = (p1, Inr u)"
  shows "rx_loop p frames = rx_loop (p1\<lparr>rp_buffer := drop t (rp_buffer p)\<rparr>)
     (frames @ [\<lparr>df_metadata = m, df_iq_payload = slice h t (rp_buffer p)\<rparr>])"
  using assms by (simp add: rx_loop.simps [of p])

lemma direct_frame_eta [simp]:
  "\<lparr>df_metadata = df_metadata f, df_iq_payload = df_iq_payload f\<rparr> = f"
  by (cases f) simp

lemma rx_loop_contiguous:
  "rx_loop p frames = (p1, Inr gs) \<Longrightarrow> tracking p s b n \<Longrightarrow>
     \<exists>fs. gs = frames @ fs \<and> contiguous s b n fs"
proof (induction p frames arbitrary: b n rule: rx_loop.induct)
  case (1 p frames)
  show ?case
  proof (cases "rx_peek (rp_buffer p)")
    case NeedMore
    with "1.prems" show ?thesis by (auto simp: rx_loop.simps [of p])
  next
    case (Fail e)
    with "1.prems" show ?thesis by (simp add: rx_loop.simps [of p])
  next
    case (Frame m h t)
    obtain p2 r where vs: "rx_validate_sequence m p = (p2, r)" by fastforce
    with "1.prems" Frame obtain u where r: "r = Inr u"
      by (cases r) (simp_all add: rx_loop.simps [of p])
    let ?f = "\<lparr>df_metadata = m, df_iq_payload = slice h t (rp_buffer p)\<rparr>"
    have v: "md_stream_id m = s \<and> md_buffer_sequence m = b \<and> md_first_sample_sequence m = n"
      and p2: "p2 = p\<lparr>rp_buffer_sequence := Some ((b + 1) mod 2 ^ 64),
            rp_sample_sequence := Some ((n + md_samples_per_channel m) mod 2 ^ 64)\<rparr>"
      using vs r rx_validate_strict [OF "1.prems"(2)] by blast+
    have "tracking (p2\<lparr>rp_buffer := drop t (rp_buffer p)\<rparr>) s ((b + 1) mod 2 ^ 64)
        ((n + md_samples_per_channel m) mod 2 ^ 64)"
      using "1.prems"(2) by (simp add: tracking_def p2)
    moreover have "rx_loop (p2\<lparr>rp_buffer := drop t (rp_buffer p)\<rparr>) (frames @ [?f]) = (p1, Inr gs)"
      using "1.prems"(1) rx_loop_Frame [OF Frame vs [unfolded r]] by simp
    ultimately obtain fs where "gs = (frames @ [?f]) @ fs"
      and "contiguous s ((b + 1) mod 2 ^ 64) ((n + md_samples_per_channel m) mod 2 ^ 64) fs"
      using "1.IH" [OF Frame vs [symmetric, simplified r]] by blast
    with v show ?thesis by (intro exI [of _ "?f # fs"]) simp
  qed
qed

lemma rx_loop_fresh:
  assumes "rx_loop (rx_init False\<lparr>rp_buffer := buf\<rparr>) [] = (p1, Inr (f # fs))"
  shows "contiguous (md_stream_id (df_metadata f)) 0 (md_first_sample_sequence (df_metadata f)) (f # fs)"
proof -
  let ?p = "rx_init False\<lparr>rp_buffer := buf\<rparr>"
  from assms obtain m h t p2 u where peek: "rx_peek (rp_buffer ?p) = Frame m h t"
    and vs: "rx_validate_sequence m ?p = (p2, Inr u)"
    by (auto simp: rx_loop.simps [of ?p] split: rx_step.splits prod.splits sum.splits)
  let ?f = "\<lparr>df_metadata = m, df_iq_payload = slice h t buf\<rparr>"
  from vs have b: "md_buffer_sequence m = 0"
    and p2: "p2 = rx_init False\<lparr>rp_buffer := buf, rp_stream_id := Some (md_stream_id m),
       rp_buffer_sequence := Some 1,
       rp_sample_sequence := Some ((md_first_sample_sequence m + md_samples_per_channel m) mod 2 ^ 64)\<rparr>"
    by (simp_all add: rx_validate_fresh)
  have run: "rx_loop (p2\<lparr>rp_buffer := drop t buf\<rparr>) [?f] = (p1, Inr (f # fs))"
    using assms rx_loop_Frame [OF peek vs, of "[]"] by simp
  have "tracking (p2\<lparr>rp_buffer := drop t buf\<rparr>) (md_stream_id m) 1
      ((md_first_sample_sequence m + md_samples_per_channel m) mod 2 ^ 64)"
    by (simp add: tracking_def p2 rx_init_def)
  from rx_loop_contiguous [OF run this] b show ?thesis by auto
qed

lemma rx_feed_Inr: "rx_feed p c = (p1, Inr fs) \<longleftrightarrow> rx_loop (staged p c) [] = (p1, Inr fs)"
  by (auto simp: rx_feed_def staged_def split: prod.splits sum.splits)

text \<open>The head of an encoded frame.\<close>

lemma metadata_pack_head:
  assumes "metadata_pack m = Inr h"
  shows "slice 0 4 (h @ rest) = le_bytes 4 MAGIC" "slice 4 6 (h @ rest) = le_bytes 2 VERSION_V3"
    "slice 6 8 (h @ rest) = le_bytes 2 (header_bytes m)"
proof -
  from assms obtain tl where
    h: "h = seal (struct_bytes v3_prefix_fmt (metadata_prefix m) @ tl @ replicate 4 0)"
    unfolding metadata_pack_Inr by (metis append_assoc)
  obtain tl2 where pre: "h = le_bytes 4 MAGIC @ le_bytes 2 VERSION_V3 @ le_bytes 2 (header_bytes m) @ tl2"
    using h seal_append [of "replicate 4 0" "struct_bytes v3_prefix_fmt (metadata_prefix m) @ tl"]
    by (simp add: v3_prefix_fmt_def metadata_prefix_def)
  show "slice 0 4 (h @ rest) = le_bytes 4 MAGIC" "slice 4 6 (h @ rest) = le_bytes 2 VERSION_V3"
    "slice 6 8 (h @ rest) = le_bytes 2 (header_bytes m)"
    by (simp_all add: pre slice_def)
qed

lemma metadata_pack_size:
  assumes "metadata_pack m = Inr h"
  shows "128 \<le> length h" "length h \<le> 0xFFFF" "header_bytes m = int (length h)"
proof -
  show len: "header_bytes m = int (length h)" by (rule metadata_dec_enc(2) [OF assms, symmetric])
  from assms have "metadata_validate m = Inr ()" by (simp add: metadata_pack_Inr)
  from metadata_capacities [OF this] have "128 \<le> header_bytes m" "header_bytes m \<le> 0xFFFF"
    by (simp_all add: header_bytes_def)
  with len show "128 \<le> length h" "length h \<le> 0xFFFF" by simp_all
qed

lemma rx_peek_encode:
  assumes "metadata_pack m = Inr h" and "int (length iq) = md_iq_payload_bytes m"
  shows "rx_peek (h @ iq @ rest) = Frame m (length h) (length h + length iq)"
proof -
  note H = metadata_pack_head [OF assms(1), of "iq @ rest"]
  note S = metadata_pack_size [OF assms(1)]
  have "le_value (le_bytes 2 (int (length h))) = int (length h)"
    using S(1,2) by (intro le_value_le_bytes) simp_all
  moreover have "metadata_unpack h = Inr m" using assms(1) by (rule metadata_dec_enc)
  moreover have "nat (md_iq_payload_bytes m) = length iq" using assms(2) by simp
  ultimately show ?thesis
    unfolding rx_peek_def H Let_def S(3)
    using S(1,2) by (simp add: le_value_le_bytes)
qed

lemma rx_loop_encoded:
  "enc_records encode_frame fs = Inr bs \<Longrightarrow> tracking p s b n \<Longrightarrow> contiguous s b n fs \<Longrightarrow>
   rp_buffer p = bs \<Longrightarrow> \<exists>p1. rx_loop p frames = (p1, Inr (frames @ fs)) \<and> rp_buffer p1 = []"
proof (induction fs arbitrary: p b n frames bs)
  case Nil
  then have "rp_buffer p = []" by (simp add: enc_records_def)
  then have "rx_loop p frames = (p, Inr frames)" by (simp add: rx_loop.simps [of p] rx_peek_def)
  then show ?case using \<open>rp_buffer p = []\<close> by simp
next
  case (Cons f fs)
  from Cons.prems(1) obtain fb rest where fb: "encode_frame f = Inr fb"
    and rest: "enc_records encode_frame fs = Inr rest" and bs: "bs = fb @ rest"
    by (auto simp: enc_records_Cons)
  from fb obtain h where h: "metadata_pack (df_metadata f) = Inr h"
    and iq: "int (length (df_iq_payload f)) = md_iq_payload_bytes (df_metadata f)"
    and fbh: "fb = h @ df_iq_payload f"
    by (auto simp: encode_frame_def split: if_splits)
  let ?m = "df_metadata f"
  have peek: "rx_peek (rp_buffer p) = Frame ?m (length h) (length h + length (df_iq_payload f))"
    using rx_peek_encode [OF h iq, of rest] Cons.prems(4) by (simp add: bs fbh)
  define p2 where "p2 = p\<lparr>rp_buffer_sequence := Some ((b + 1) mod 2 ^ 64),
     rp_sample_sequence := Some ((n + md_samples_per_channel ?m) mod 2 ^ 64)\<rparr>"
  have vs: "rx_validate_sequence ?m p = (p2, Inr ())"
    using Cons.prems(3) by (simp add: rx_validate_strict [OF Cons.prems(2)] p2_def)
  let ?p3 = "p2\<lparr>rp_buffer := rest\<rparr>"
  have "rx_loop p frames = rx_loop ?p3 (frames @ [f])"
    using rx_loop_Frame [OF peek vs, of frames] Cons.prems(4) by (simp add: bs fbh slice_def)
  moreover have "tracking ?p3 s ((b + 1) mod 2 ^ 64) ((n + md_samples_per_channel ?m) mod 2 ^ 64)"
    using Cons.prems(2) by (simp add: tracking_def p2_def)
  ultimately show ?case
    using Cons.IH [OF rest, of ?p3 "(b + 1) mod 2 ^ 64" "(n + md_samples_per_channel ?m) mod 2 ^ 64" "frames @ [f]"]
      Cons.prems(3) by simp
qed

lemma rx_feed_encoded:
  assumes "enc_records encode_frame fs = Inr bs" and "contiguous s 0 n fs"
  shows "\<exists>p. rx_feed (rx_init False) bs = (p, Inr fs) \<and> rp_buffer p = []"
proof (cases fs)
  case Nil
  with assms show ?thesis
    by (simp add: enc_records_def rx_feed_def rx_loop.simps rx_peek_def rx_init_def)
next
  case (Cons f gs)
  with assms(1) obtain fb rest where fb: "encode_frame f = Inr fb"
    and rest: "enc_records encode_frame gs = Inr rest" and bs: "bs = fb @ rest"
    by (auto simp: enc_records_Cons)
  from fb obtain h where h: "metadata_pack (df_metadata f) = Inr h"
    and iq: "int (length (df_iq_payload f)) = md_iq_payload_bytes (df_metadata f)"
    and fbh: "fb = h @ df_iq_payload f"
    by (auto simp: encode_frame_def split: if_splits)
  let ?m = "df_metadata f" and ?p = "rx_init False\<lparr>rp_buffer := bs\<rparr>"
  define p2 where "p2 = rx_init False\<lparr>rp_buffer := bs, rp_stream_id := Some (md_stream_id ?m),
     rp_buffer_sequence := Some 1,
     rp_sample_sequence := Some ((md_first_sample_sequence ?m + md_samples_per_channel ?m) mod 2 ^ 64)\<rparr>"
  have peek: "rx_peek (rp_buffer ?p) = Frame ?m (length h) (length h + length (df_iq_payload f))"
    using rx_peek_encode [OF h iq, of rest] by (simp add: bs fbh)
  have vs: "rx_validate_sequence ?m ?p = (p2, Inr ())"
    using assms(2) Cons by (simp add: rx_validate_fresh p2_def)
  have step: "rx_loop ?p [] = rx_loop (p2\<lparr>rp_buffer := rest\<rparr>) [f]"
    using rx_loop_Frame [OF peek vs, of "[]"] by (simp add: bs fbh slice_def)
  have "tracking (p2\<lparr>rp_buffer := rest\<rparr>) s 1 ((n + md_samples_per_channel ?m) mod 2 ^ 64)"
    using assms(2) Cons by (simp add: tracking_def p2_def rx_init_def)
  moreover have "contiguous s 1 ((n + md_samples_per_channel ?m) mod 2 ^ 64) gs"
    using assms(2) Cons by simp
  ultimately obtain p1 where "rx_loop (p2\<lparr>rp_buffer := rest\<rparr>) [f] = (p1, Inr ([f] @ gs))"
    and "rp_buffer p1 = []"
    using rx_loop_encoded [OF rest, of "p2\<lparr>rp_buffer := rest\<rparr>" s 1 _ "[f]"] by auto
  with step Cons show ?thesis
    by (intro exI [of _ p1]) (simp add: rx_feed_Inr staged_def rx_init_def)
qed

end
