(* ===== verification/Ip_Control.thy ===== *)
theory Ip_Control
  imports Usb_Records
begin

text \<open>
  \<open>direct_radio/ip.py\<close>, the reliable control plane of the direct-IP transport: the control
  message, its validation on every message type, its codec and the request constructors.
\<close>

section \<open>Messages\<close>

datatype ip_kind =
    QUERY_CAPABILITIES | CAPABILITIES | START_RX | STARTED | STOP_RX | STOPPED | ERROR

fun ip_kind_value :: "ip_kind \<Rightarrow> int" where
  "ip_kind_value QUERY_CAPABILITIES = 1"
| "ip_kind_value CAPABILITIES = 2"
| "ip_kind_value START_RX = 3"
| "ip_kind_value STARTED = 4"
| "ip_kind_value STOP_RX = 5"
| "ip_kind_value STOPPED = 6"
| "ip_kind_value ERROR = 7"

definition ip_kind_of :: "int \<Rightarrow> ip_kind option" where
  "ip_kind_of n =
     (if n = 1 then Some QUERY_CAPABILITIES else if n = 2 then Some CAPABILITIES
      else if n = 3 then Some START_RX else if n = 4 then Some STARTED
      else if n = 5 then Some STOP_RX else if n = 6 then Some STOPPED
      else if n = 7 then Some ERROR else None)"

lemma ip_kind_of_value [simp]: "ip_kind_of (ip_kind_value k) = Some k"
  by (cases k) (simp_all add: ip_kind_of_def)

lemma ip_kind_of_Some: "ip_kind_of n = Some k \<Longrightarrow> ip_kind_value k = n"
  by (auto simp: ip_kind_of_def split: if_splits)

abbreviation (input) "IP_CONTROL_MAGIC \<equiv> 0x31434953 :: int"
abbreviation (input) "CF_FINITE_RX \<equiv> 0x01 :: int"
abbreviation (input) "CF_QUERY_TRANSPORT_CAPABILITIES \<equiv> 0x08 :: int"
abbreviation (input) "CF_BUFFERED_FINITE_RX \<equiv> 0x10 :: int"
abbreviation (input) "CF_USB_CLASS_PACING \<equiv> 0x20 :: int"
abbreviation (input) "CF_TCP_DATA_TRANSPORT \<equiv> 0x40 :: int"
abbreviation (input) "CF_DROP_STALE_FRAMES \<equiv> 0x80 :: int"
abbreviation (input) "KNOWN_IP_CONTROL_FLAGS \<equiv> 0xFF :: int"
abbreviation (input) "MAX_UDP_DATAGRAM_BYTES \<equiv> 65507 :: int"
abbreviation (input) "IP_FRAGMENT_HEADER_BYTES \<equiv> 52 :: int"

definition QUERY_PROBE_FLAGS :: int where
  "QUERY_PROBE_FLAGS = CF_QUERY_TRANSPORT_CAPABILITIES OR CF_TCP_DATA_TRANSPORT"

definition START_TRANSPORT_FLAGS :: int where
  "START_TRANSPORT_FLAGS = CF_BUFFERED_FINITE_RX OR CF_USB_CLASS_PACING OR CF_TCP_DATA_TRANSPORT
     OR CF_DROP_STALE_FRAMES"

record ip_control =
  cm_message_type :: ip_kind
  cm_request_id :: int
  cm_status :: int
  cm_flags :: int
  cm_protocol_min :: int
  cm_protocol_max :: int
  cm_features :: int
  cm_max_samples_per_channel :: int
  cm_max_finite_frames :: int
  cm_enabled_scan_mask :: int
  cm_samples_per_channel :: int
  cm_frame_count :: int
  cm_gain_observation_interval_samples :: int
  cm_gain_observation_capacity :: int
  cm_gain_event_capacity :: int
  cm_data_port :: int
  cm_max_datagram_bytes :: int
  cm_stream_id :: int

section \<open>Validation\<close>

text \<open>\<open>numeric\<close>: name, value and width of every plain integer field, in the source's order.\<close>

definition control_numeric :: "ip_control \<Rightarrow> (string \<times> int \<times> nat) list" where
  "control_numeric m =
     [(''protocol_min'', cm_protocol_min m, 16), (''protocol_max'', cm_protocol_max m, 16),
      (''features'', cm_features m, 64), (''max_samples_per_channel'', cm_max_samples_per_channel m, 32),
      (''max_finite_frames'', cm_max_finite_frames m, 32),
      (''enabled_scan_mask'', cm_enabled_scan_mask m, 32),
      (''samples_per_channel'', cm_samples_per_channel m, 32), (''frame_count'', cm_frame_count m, 32),
      (''gain_observation_interval_samples'', cm_gain_observation_interval_samples m, 32),
      (''gain_observation_capacity'', cm_gain_observation_capacity m, 16),
      (''gain_event_capacity'', cm_gain_event_capacity m, 16), (''data_port'', cm_data_port m, 16),
      (''max_datagram_bytes'', cm_max_datagram_bytes m, 16), (''stream_id'', cm_stream_id m, 64)]"

definition control_common :: "bool \<Rightarrow> ip_control \<Rightarrow> (bool \<times> exn) list" where
  "control_common strict m =
     [(\<not> in_uint 64 (cm_request_id m), pe ''request_id is outside uint64''),
      (\<not> in_sint 32 (cm_status m), pe ''direct-IP control status is outside int32''),
      (extra (cm_flags m) KNOWN_IP_CONTROL_FLAGS \<and> (strict \<or> cm_message_type m \<noteq> CAPABILITIES),
       pe ''unknown direct-IP control flags''),
      (extra (cm_features m) KNOWN_FEATURES, pe ''unknown direct-IP metadata features'')]
     @ map (\<lambda>(name, v, bits). (\<not> in_uint bits v, pe (name @ '' is outside uint''))) (control_numeric m)
     @ [(cm_message_type m \<noteq> ERROR \<and> cm_status m \<noteq> 0,
         pe ''successful direct-IP control message has non-zero status'')]"

definition control_error_guards :: "ip_control \<Rightarrow> (bool \<times> exn) list" where
  "control_error_guards m =
     [(cm_status m = 0, pe ''direct-IP ERROR message requires non-zero status'')]"

definition control_query_guards :: "ip_control \<Rightarrow> (bool \<times> exn) list" where
  "control_query_guards m =
     [(extra (cm_flags m) QUERY_PROBE_FLAGS
         \<or> list_ex (\<lambda>(_, v, _). v \<noteq> 0) (control_numeric m),
       pe ''direct-IP capability query has non-zero fields'')]"

definition control_capabilities_guards :: "ip_control \<Rightarrow> (bool \<times> exn) list" where
  "control_capabilities_guards m =
     [(\<not> has (cm_flags m) CF_FINITE_RX, pe ''direct-IP gadget does not advertise finite RX''),
      (has (cm_flags m) CF_QUERY_TRANSPORT_CAPABILITIES, pe ''capability response retained query flags''),
      (\<not> (1 \<le> cm_protocol_min m \<and> cm_protocol_min m \<le> cm_protocol_max m \<and> cm_protocol_max m \<le> 3),
       pe ''direct-IP capability protocol range is invalid''),
      (\<not> (1 \<le> cm_max_samples_per_channel m \<and> cm_max_samples_per_channel m \<le> MAX_SAMPLES_PER_CHANNEL)
         \<or> \<not> (1 \<le> cm_max_finite_frames m \<and> cm_max_finite_frames m \<le> MAX_FINITE_FRAMES),
       pe ''direct-IP capability limits are invalid''),
      (list_ex (\<lambda>v. v \<noteq> 0)
         [cm_enabled_scan_mask m, cm_samples_per_channel m, cm_frame_count m,
          cm_gain_observation_interval_samples m, cm_gain_observation_capacity m,
          cm_gain_event_capacity m, cm_data_port m, cm_max_datagram_bytes m, cm_stream_id m],
       pe ''direct-IP capability response has request fields'')]"

definition control_start_guards :: "ip_control \<Rightarrow> (bool \<times> exn) list" where
  "control_start_guards m =
     [(extra (cm_flags m) START_TRANSPORT_FLAGS, pe ''direct-IP START has capability-only flags''),
      (has (cm_flags m) CF_USB_CLASS_PACING \<and> \<not> has (cm_flags m) CF_BUFFERED_FINITE_RX,
       pe ''direct-IP pacing requires buffered finite RX''),
      (has (cm_flags m) CF_DROP_STALE_FRAMES \<and> \<not> has (cm_flags m) CF_TCP_DATA_TRANSPORT,
       pe ''direct-IP frame drop requires TCP transport''),
      (cm_protocol_min m \<noteq> cm_protocol_max m \<or> cm_protocol_min m \<notin> {1, 2, 3},
       pe ''direct-IP START protocol selection is invalid''),
      (cm_max_samples_per_channel m \<noteq> 0 \<or> cm_max_finite_frames m \<noteq> 0,
       pe ''direct-IP START has capability-only limits''),
      (cm_enabled_scan_mask m \<noteq> 0x0F
         \<or> \<not> (1 \<le> cm_samples_per_channel m \<and> cm_samples_per_channel m \<le> MAX_SAMPLES_PER_CHANNEL)
         \<or> \<not> (1 \<le> cm_frame_count m \<and> cm_frame_count m \<le> MAX_FINITE_FRAMES),
       pe ''direct-IP START scan/sample/frame fields are invalid''),
      (cm_data_port m = 0
         \<or> \<not> (IP_FRAGMENT_HEADER_BYTES < cm_max_datagram_bytes m
              \<and> cm_max_datagram_bytes m \<le> MAX_UDP_DATAGRAM_BYTES),
       pe ''direct-IP START data port or datagram size is invalid'')]
     @ (if cm_protocol_min m = 3 then
          [(lacks (cm_features m) (F_GAIN_OBSERVATION_SERIES OR F_HARDWARE_SAMPLE_COUNTER),
            pe ''direct-IP v3 START lacks gain-series features''),
           (\<not> (1 \<le> cm_gain_observation_interval_samples m
                \<and> cm_gain_observation_interval_samples m \<le> cm_samples_per_channel m)
              \<or> \<not> (1 \<le> cm_gain_observation_capacity m
                   \<and> cm_gain_observation_capacity m \<le> MAX_GAIN_OBSERVATIONS)
              \<or> \<not> (0 \<le> cm_gain_event_capacity m \<and> cm_gain_event_capacity m \<le> MAX_GAIN_EVENTS),
            pe ''direct-IP v3 observation/event fields are invalid'')]
        else
          [(cm_gain_observation_interval_samples m \<noteq> 0 \<or> cm_gain_observation_capacity m \<noteq> 0
              \<or> cm_gain_event_capacity m \<noteq> 0,
            pe ''direct-IP v1/v2 START has v3-only fields'')])
     @ [(cm_message_type m = START_RX \<and> cm_stream_id m \<noteq> 0
           \<or> cm_message_type m = STARTED \<and> cm_stream_id m = 0,
         pe ''direct-IP START stream ID is invalid'')]"

definition control_stop_guards :: "ip_control \<Rightarrow> (bool \<times> exn) list" where
  "control_stop_guards m =
     [(cm_stream_id m = 0 \<or> cm_flags m \<noteq> 0
         \<or> list_ex (\<lambda>(_, v, _). v \<noteq> 0) (butlast (control_numeric m)),
       pe ''direct-IP STOP has missing stream ID or unrelated fields'')]"

definition control_kind_guards :: "ip_control \<Rightarrow> (bool \<times> exn) list" where
  "control_kind_guards m =
     (case cm_message_type m of
        ERROR \<Rightarrow> control_error_guards m
      | QUERY_CAPABILITIES \<Rightarrow> control_query_guards m
      | CAPABILITIES \<Rightarrow> control_capabilities_guards m
      | START_RX \<Rightarrow> control_start_guards m
      | STARTED \<Rightarrow> control_start_guards m
      | STOP_RX \<Rightarrow> control_stop_guards m
      | STOPPED \<Rightarrow> control_stop_guards m)"

definition validate_control :: "bool \<Rightarrow> ip_control \<Rightarrow> unit result" where
  "validate_control strict m = checks (control_common strict m @ control_kind_guards m)"

section \<open>Codec\<close>

definition control_fmt :: "field list" where
  "control_fmt = [FU 4, FU 2, FU 2, FU 4, FU 8, FS 4, FU 4, FU 2, FU 2, FU 8, FU 4, FU 4, FU 4, FU 4,
     FU 4, FU 4, FU 2, FU 2, FU 2, FU 2, FU 8]"

lemma control_size [simp]: "struct_size control_fmt = 80"
  by (simp add: struct_size_def control_fmt_def)

definition control_fields :: "ip_control \<Rightarrow> val list" where
  "control_fields m = map VInt
     [IP_CONTROL_MAGIC, 1, ip_kind_value (cm_message_type m), 80, cm_request_id m, cm_status m,
      cm_flags m, cm_protocol_min m, cm_protocol_max m, cm_features m, cm_max_samples_per_channel m,
      cm_max_finite_frames m, cm_enabled_scan_mask m, cm_samples_per_channel m, cm_frame_count m,
      cm_gain_observation_interval_samples m, cm_gain_observation_capacity m,
      cm_gain_event_capacity m, cm_data_port m, cm_max_datagram_bytes m, cm_stream_id m]"

definition control_pack :: "ip_control \<Rightarrow> bytes result" where
  "control_pack = pack_record (validate_control True) control_fmt control_fields"

definition control_guards :: "val list \<Rightarrow> (bool \<times> exn) list" where
  "control_guards vs =
     [(int_at vs 0 \<noteq> IP_CONTROL_MAGIC \<or> int_at vs 1 \<noteq> 1 \<or> int_at vs 3 \<noteq> 80,
       pe ''bad direct-IP control magic, version, or size'')]"

definition control_build :: "val list \<Rightarrow> ip_control result" where
  "control_build vs =
     (case ip_kind_of (int_at vs 2) of
        None \<Rightarrow> Inl (pe ''unknown direct-IP control message type'')
      | Some message_type \<Rightarrow> Inr
          \<lparr>cm_message_type = message_type, cm_request_id = int_at vs 4, cm_status = int_at vs 5,
           cm_flags = int_at vs 6, cm_protocol_min = int_at vs 7, cm_protocol_max = int_at vs 8,
           cm_features = int_at vs 9, cm_max_samples_per_channel = int_at vs 10,
           cm_max_finite_frames = int_at vs 11, cm_enabled_scan_mask = int_at vs 12,
           cm_samples_per_channel = int_at vs 13, cm_frame_count = int_at vs 14,
           cm_gain_observation_interval_samples = int_at vs 15,
           cm_gain_observation_capacity = int_at vs 16, cm_gain_event_capacity = int_at vs 17,
           cm_data_port = int_at vs 18, cm_max_datagram_bytes = int_at vs 19,
           cm_stream_id = int_at vs 20\<rparr>)"

definition control_unpack :: "bytes \<Rightarrow> ip_control result" where
  "control_unpack = unpack_record (pe ''direct-IP control size mismatch'') control_fmt control_guards
     control_build (validate_control False)"

section \<open>Request constructors\<close>

definition control_default :: "ip_kind \<Rightarrow> int \<Rightarrow> ip_control" where
  "control_default k request_id =
     \<lparr>cm_message_type = k, cm_request_id = request_id, cm_status = 0, cm_flags = 0,
      cm_protocol_min = 0, cm_protocol_max = 0, cm_features = 0, cm_max_samples_per_channel = 0,
      cm_max_finite_frames = 0, cm_enabled_scan_mask = 0, cm_samples_per_channel = 0,
      cm_frame_count = 0, cm_gain_observation_interval_samples = 0,
      cm_gain_observation_capacity = 0, cm_gain_event_capacity = 0, cm_data_port = 0,
      cm_max_datagram_bytes = 0, cm_stream_id = 0\<rparr>"

definition make_ip_capability_query :: "int \<Rightarrow> bool \<Rightarrow> bool \<Rightarrow> ip_control" where
  "make_ip_capability_query request_id transport_capabilities tcp_transport =
     (control_default QUERY_CAPABILITIES request_id)
     \<lparr>cm_flags := (if transport_capabilities then CF_QUERY_TRANSPORT_CAPABILITIES else 0)
                   OR (if tcp_transport then CF_TCP_DATA_TRANSPORT else 0)\<rparr>"

definition make_ip_start_request ::
    "int \<Rightarrow> int \<Rightarrow> int \<Rightarrow> int \<Rightarrow> int \<Rightarrow> int \<Rightarrow> int \<Rightarrow> int \<Rightarrow> int \<Rightarrow> int \<Rightarrow> int \<Rightarrow> int \<Rightarrow> ip_control" where
  "make_ip_start_request request_id protocol_version features enabled_scan_mask samples_per_channel
     frame_count data_port max_datagram_bytes gain_observation_interval_samples
     gain_observation_capacity gain_event_capacity transport_flags =
     (control_default START_RX request_id)
     \<lparr>cm_flags := transport_flags, cm_protocol_min := protocol_version,
      cm_protocol_max := protocol_version, cm_features := features,
      cm_enabled_scan_mask := enabled_scan_mask, cm_samples_per_channel := samples_per_channel,
      cm_frame_count := frame_count,
      cm_gain_observation_interval_samples := gain_observation_interval_samples,
      cm_gain_observation_capacity := gain_observation_capacity,
      cm_gain_event_capacity := gain_event_capacity, cm_data_port := data_port,
      cm_max_datagram_bytes := max_datagram_bytes\<rparr>"

definition make_ip_stop_request :: "int \<Rightarrow> int \<Rightarrow> ip_control" where
  "make_ip_stop_request request_id stream_id =
     (control_default STOP_RX request_id)\<lparr>cm_stream_id := stream_id\<rparr>"

section \<open>Lemmas\<close>

text \<open>
  \<open>unpack\<close> lets a capability response carry flags this host does not know; \<open>pack\<close> refuses them.
  The two agree on messages without unknown flags.
\<close>

lemma validate_control_relax: "validate_control True m = Inr () \<Longrightarrow> validate_control False m = Inr ()"
  by (auto simp: validate_control_def control_common_def bindE_Inr_iff)

lemma validate_control_strict:
  "validate_control False m = Inr () \<Longrightarrow> \<not> extra (cm_flags m) KNOWN_IP_CONTROL_FLAGS \<Longrightarrow>
     validate_control True m = Inr ()"
  by (auto simp: validate_control_def control_common_def bindE_Inr_iff)

interpretation control: record_layout "pe ''direct-IP control size mismatch''"
  control_fmt control_fields control_guards control_build "validate_control True"
  "validate_control False" "\<lambda>m. \<not> extra (cm_flags m) KNOWN_IP_CONTROL_FLAGS"
proof unfold_locales
  show "list_all (\<lambda>f. 0 < field_size f) control_fmt" by (simp add: control_fmt_def)
  show "list_all2 packable control_fmt (control_fields m) \<Longrightarrow> list_all2 fits control_fmt (control_fields m)" for m
    by (simp add: control_fmt_def control_fields_def)
  show "checks (control_guards (control_fields m)) = Inr ()" for m
    by (simp add: control_guards_def control_fields_def val_access)
  show "control_build (control_fields m) = Inr m" for m
    by (cases m) (simp add: control_build_def control_fields_def val_access)
  show "checks (control_guards vs) = Inr () \<Longrightarrow> control_build vs = Inr m \<Longrightarrow>
     control_fields m = shape_at control_fmt vs 0" for vs m
    by (auto simp: control_guards_def control_build_def control_fields_def control_fmt_def
        simp del: One_nat_def split: option.splits dest: ip_kind_of_Some)
qed (blast intro: validate_control_relax validate_control_strict)+

lemmas control_dec_enc = control.layout_dec_enc [folded control_pack_def control_unpack_def]
lemmas control_enc_dec = control.layout_enc_dec [folded control_pack_def control_unpack_def]

text \<open>Validation covers every field \<open>struct\<close> could refuse: packing a valid message never fails.\<close>

lemma control_valid_packs:
  assumes "validate_control True m = Inr ()"
  shows "control_pack m = Inr (struct_bytes control_fmt (control_fields m))"
proof -
  have mask: "mask 8 = (0xFF :: int)" by (simp add: mask_eq_exp_minus_1)
  from assms have "\<not> extra (cm_flags m) (mask 8)"
    by (simp add: validate_control_def control_common_def bindE_Inr_iff mask)
  then have "0 \<le> cm_flags m" "cm_flags m < 256"
    using no_extra_bound by fastforce+
  moreover have "0 \<le> ip_kind_value (cm_message_type m)" "ip_kind_value (cm_message_type m) < 256"
    by (cases "cm_message_type m"; simp)+
  ultimately have "list_all2 packable control_fmt (control_fields m)"
    using assms
    by (simp add: validate_control_def control_common_def control_numeric_def bindE_Inr_iff
        control_fmt_def control_fields_def in_uint_def in_sint_def)
  with assms show ?thesis by (simp add: control_pack_def pack_record_Inr)
qed

end
