(* ===== verification/Ip_Fragments.thy ===== *)
theory Ip_Fragments
  imports Ip_Control
begin

text \<open>
  \<open>direct_radio/ip.py\<close>, UDP fragments: the fragment header, its validation and codec, and the
  fragmentation of one frame into datagrams.
\<close>

section \<open>Fragments\<close>

abbreviation (input) "IP_FRAGMENT_MAGIC \<equiv> 0x31504953 :: int"
abbreviation (input) "MAX_IP_FRAME_BYTES \<equiv> 16777216 :: int"
abbreviation (input) "MAX_IP_FRAGMENT_COUNT \<equiv> 65536 :: int"
abbreviation (input) "FIRST \<equiv> 1 :: int"
abbreviation (input) "LAST \<equiv> 2 :: int"

record fragment =
  fg_flags :: int
  fg_stream_id :: int
  fg_frame_sequence :: int
  fg_frame_bytes :: int
  fg_frame_crc32 :: int
  fg_fragment_index :: int
  fg_fragment_count :: int
  fg_fragment_offset :: int
  fg_payload :: bytes

definition validate_fragment :: "fragment \<Rightarrow> unit result" where
  "validate_fragment f = checks
     [(extra (fg_flags f) 3, pe ''unknown direct-IP fragment flags''),
      (\<not> (1 \<le> fg_frame_bytes f \<and> fg_frame_bytes f \<le> MAX_IP_FRAME_BYTES)
         \<or> \<not> (1 \<le> fg_fragment_count f \<and> fg_fragment_count f \<le> MAX_IP_FRAGMENT_COUNT),
       pe ''direct-IP frame/fragment count is outside the supported range''),
      (fg_fragment_index f \<ge> fg_fragment_count f \<or> fg_payload f = []
         \<or> fg_fragment_offset f + int (length (fg_payload f)) > fg_frame_bytes f,
       pe ''direct-IP fragment range is outside the frame''),
      (has (fg_flags f) FIRST \<noteq> (fg_fragment_index f = 0)
         \<or> has (fg_flags f) LAST \<noteq> (fg_fragment_index f = fg_fragment_count f - 1),
       pe ''direct-IP FIRST/LAST flags disagree with fragment index'')]"

definition fragment_fmt :: "field list" where
  "fragment_fmt = [FU 4, FU 2, FU 2, FU 4, FU 8, FU 8, FU 4, FU 4, FU 4, FU 4, FU 4, FU 4]"

lemma fragment_size [simp]: "struct_size fragment_fmt = 52"
  by (simp add: struct_size_def fragment_fmt_def)

definition fragment_fields :: "fragment \<Rightarrow> val list" where
  "fragment_fields f = map VInt
     [IP_FRAGMENT_MAGIC, 1, IP_FRAGMENT_HEADER_BYTES, fg_flags f, fg_stream_id f, fg_frame_sequence f,
      fg_frame_bytes f, fg_frame_crc32 f, fg_fragment_index f, fg_fragment_count f,
      fg_fragment_offset f, int (length (fg_payload f))]"

definition fragment_pack :: "fragment \<Rightarrow> bytes result" where
  "fragment_pack f =
     bindE (validate_fragment f) (\<lambda>_.
     bindE (struct_pack fragment_fmt (fragment_fields f)) (\<lambda>header. Inr (header @ fg_payload f)))"

definition unpack_fragment :: "bytes \<Rightarrow> fragment result" where
  "unpack_fragment datagram =
     (if \<not> (IP_FRAGMENT_HEADER_BYTES < int (length datagram) \<and> int (length datagram) \<le> MAX_UDP_DATAGRAM_BYTES)
      then Inl (pe ''direct-IP datagram size is outside the supported range'')
      else bindE (struct_unpack_from fragment_fmt datagram 0) (\<lambda>raw.
        bindE (checks
          [(int_at raw 0 \<noteq> IP_FRAGMENT_MAGIC \<or> int_at raw 1 \<noteq> 1 \<or> int_at raw 2 \<noteq> IP_FRAGMENT_HEADER_BYTES,
            pe ''bad direct-IP fragment magic, version, or header size''),
           (int (length datagram) \<noteq> IP_FRAGMENT_HEADER_BYTES + int_at raw 11,
            pe ''direct-IP fragment length mismatch'')])
        (\<lambda>_. let f = \<lparr>fg_flags = int_at raw 3, fg_stream_id = int_at raw 4,
                       fg_frame_sequence = int_at raw 5, fg_frame_bytes = int_at raw 6,
                       fg_frame_crc32 = int_at raw 7, fg_fragment_index = int_at raw 8,
                       fg_fragment_count = int_at raw 9, fg_fragment_offset = int_at raw 10,
                       fg_payload = drop 52 datagram\<rparr> in
              bindE (validate_fragment f) (\<lambda>_. Inr f))))"

section \<open>Fragmenting a frame\<close>

definition frame_fragment :: "bytes \<Rightarrow> int \<Rightarrow> int \<Rightarrow> nat \<Rightarrow> nat \<Rightarrow> nat \<Rightarrow> fragment" where
  "frame_fragment frame stream_id frame_sequence capacity count index =
     \<lparr>fg_flags = (if index = 0 then FIRST else 0) OR (if index = count - 1 then LAST else 0),
      fg_stream_id = stream_id, fg_frame_sequence = frame_sequence,
      fg_frame_bytes = int (length frame), fg_frame_crc32 = crc32 frame,
      fg_fragment_index = int index, fg_fragment_count = int count,
      fg_fragment_offset = int (index * capacity),
      fg_payload = slice (index * capacity) (Suc index * capacity) frame\<rparr>"

text \<open>
  \<open>math.ceil(len(view) / capacity)\<close> divides two integers below \<open>2 ^ 25\<close>; the float quotient's
  ceiling is then the exact integer one. The comprehension packs fragment after fragment.
\<close>

definition ceil_div :: "nat \<Rightarrow> nat \<Rightarrow> nat" where
  "ceil_div n d = (n + d - 1) div d"

definition fragment_ip_frame :: "bytes \<Rightarrow> int \<Rightarrow> int \<Rightarrow> int \<Rightarrow> bytes list result" where
  "fragment_ip_frame frame stream_id frame_sequence max_datagram_bytes =
     bindE (checks
       [(\<not> (1 \<le> int (length frame) \<and> int (length frame) \<le> MAX_IP_FRAME_BYTES),
         pe ''direct-IP frame size is outside the supported range''),
        (\<not> (IP_FRAGMENT_HEADER_BYTES < max_datagram_bytes \<and> max_datagram_bytes \<le> MAX_UDP_DATAGRAM_BYTES),
         pe ''direct-IP datagram limit is outside the UDP range'')])
     (\<lambda>_. let capacity = nat (max_datagram_bytes - IP_FRAGMENT_HEADER_BYTES);
              count = ceil_div (length frame) capacity in
          if int count > MAX_IP_FRAGMENT_COUNT then Inl (pe ''direct-IP frame requires too many fragments'')
          else mapE (\<lambda>index. fragment_pack (frame_fragment frame stream_id frame_sequence capacity count index))
                 [0..<count])"

section \<open>Codec lemmas\<close>

lemma fragment_pack_Inr:
  "fragment_pack f = Inr bs \<longleftrightarrow> validate_fragment f = Inr () \<and>
     list_all2 packable fragment_fmt (fragment_fields f) \<and>
     bs = struct_bytes fragment_fmt (fragment_fields f) @ fg_payload f"
  by (auto simp: fragment_pack_def bindE_Inr_iff struct_pack_Inr)

lemma fragment_pack_length: "fragment_pack f = Inr bs \<Longrightarrow> length bs = 52 + length (fg_payload f)"
  by (auto simp: fragment_pack_Inr length_struct_bytes dest: list_all2_lengthD)

lemma fragment_dec_enc:
  assumes "fragment_pack f = Inr bs" and "length (fg_payload f) \<le> 65455"
  shows "unpack_fragment bs = Inr f"
proof -
  from assms(1) have v: "validate_fragment f = Inr ()"
    and p: "list_all2 packable fragment_fmt (fragment_fields f)"
    and bs: "bs = struct_bytes fragment_fmt (fragment_fields f) @ fg_payload f"
    by (simp_all add: fragment_pack_Inr)
  have len: "length bs = 52 + length (fg_payload f)" by (rule fragment_pack_length [OF assms(1)])
  have "list_all2 fits fragment_fmt (fragment_fields f)"
    using p by (simp add: fragment_fmt_def fragment_fields_def)
  then have U: "struct_unpack_from fragment_fmt bs 0 = Inr (fragment_fields f)"
    using struct_unpack_from_append [of fragment_fmt "fragment_fields f" 0 "[]"] by (simp add: bs)
  have hl: "length (struct_bytes fragment_fmt (fragment_fields f)) = 52"
    using list_all2_lengthD [OF p] by (simp add: length_struct_bytes)
  have pay: "drop 52 bs = fg_payload f" by (simp add: bs hl)
  have ne: "fg_payload f \<noteq> []" using v by (simp add: validate_fragment_def)
  show ?thesis
    unfolding unpack_fragment_def U bindE_simps pay using v assms(2) ne
    by (cases f) (simp add: len fragment_fields_def val_access checks_eval)
qed

lemma fragment_enc_dec:
  assumes "unpack_fragment bs = Inr f"
  shows "fragment_pack f = Inr bs" and "length (fg_payload f) \<le> 65455"
proof -
  from assms obtain raw where U: "struct_unpack_from fragment_fmt bs 0 = Inr raw"
    and g: "int_at raw 0 = IP_FRAGMENT_MAGIC" "int_at raw 1 = 1" "int_at raw 2 = 52"
      "int (length bs) = 52 + int_at raw 11"
    and sz: "52 < length bs" "length bs \<le> 65507"
    and v: "validate_fragment f = Inr ()"
    and f: "f = \<lparr>fg_flags = int_at raw 3, fg_stream_id = int_at raw 4, fg_frame_sequence = int_at raw 5,
       fg_frame_bytes = int_at raw 6, fg_frame_crc32 = int_at raw 7, fg_fragment_index = int_at raw 8,
       fg_fragment_count = int_at raw 9, fg_fragment_offset = int_at raw 10, fg_payload = drop 52 bs\<rparr>"
    by (auto simp: unpack_fragment_def bindE_Inr_iff Let_def simp del: One_nat_def split: if_splits)
  have pos: "list_all (\<lambda>f. 0 < field_size f) fragment_fmt" by (simp add: fragment_fmt_def)
  note D = struct_unpackD [OF conjunct2 [OF U [unfolded struct_unpack_from_Inr]] pos]
  show "length (fg_payload f) \<le> 65455" using sz by (simp add: f)
  have "fragment_fields f = shape_at fragment_fmt raw 0"
    using g sz by (simp add: fragment_fields_def f fragment_fmt_def del: One_nat_def)
  then have raw: "fragment_fields f = raw" using D(1) by simp
  have "bs = take 52 bs @ drop 52 bs" by simp
  then show "fragment_pack f = Inr bs"
    using v D(3,4) by (simp add: fragment_pack_Inr raw slice_def) (simp add: f)
qed

text \<open>The bounds every accepted datagram satisfies.\<close>

lemma unpack_fragment_bounds:
  assumes "unpack_fragment bs = Inr f"
  shows "0 \<le> fg_fragment_index f" "fg_fragment_index f < fg_fragment_count f"
    "1 \<le> fg_frame_bytes f" "fg_frame_bytes f \<le> 16777216" "fg_payload f \<noteq> []"
    "0 \<le> fg_fragment_offset f"
    "fg_fragment_offset f + int (length (fg_payload f)) \<le> fg_frame_bytes f"
    "1 \<le> fg_fragment_count f" "fg_fragment_count f \<le> 65536"
proof -
  from fragment_enc_dec [OF assms] have v: "validate_fragment f = Inr ()"
    and p: "list_all2 packable fragment_fmt (fragment_fields f)"
    by (simp_all add: fragment_pack_Inr)
  from p show "0 \<le> fg_fragment_index f" "0 \<le> fg_fragment_offset f"
    by (simp_all add: fragment_fmt_def fragment_fields_def)
  from v show "fg_fragment_index f < fg_fragment_count f"
    "1 \<le> fg_frame_bytes f" "fg_frame_bytes f \<le> 16777216" "fg_payload f \<noteq> []"
    "fg_fragment_offset f + int (length (fg_payload f)) \<le> fg_frame_bytes f"
    "1 \<le> fg_fragment_count f" "fg_fragment_count f \<le> 65536"
    by (simp_all add: validate_fragment_def)
qed

section \<open>Fragmentation lemmas\<close>

lemma ceil_div_bounds:
  assumes "0 < d" and "0 < n"
  shows "0 < ceil_div n d" "(ceil_div n d - 1) * d < n" "n \<le> ceil_div n d * d"
proof -
  let ?q = "(n - 1) div d"
  have "n + d - 1 = (n - 1) + d" using assms(2) by simp
  then have "ceil_div n d = ((n - 1) + d) div d" by (simp only: ceil_div_def)
  also have "\<dots> = ?q + 1" using assms(1) by (intro div_add_self2) simp
  finally have q: "ceil_div n d = ?q + 1" .
  show "0 < ceil_div n d" by (simp add: q)
  have "?q * d \<le> n - 1" by simp
  with assms(2) have "?q * d < n" by linarith
  then show "(ceil_div n d - 1) * d < n" by (simp only: q add_diff_cancel_right')
  have "n - 1 < ?q * d + d"
    using dividend_less_div_times [OF assms(1), of "n - 1"] by (simp add: add.commute)
  then have "n \<le> ?q * d + d" by linarith
  then show "n \<le> ceil_div n d * d" by (simp only: q add_mult_distrib mult_1)
qed

lemma frame_slice_nonempty:
  assumes "index < ceil_div (length frame) d" and "0 < d" and "0 < length frame"
  shows "slice (index * d) (Suc index * d) frame \<noteq> []" and "index * d < length frame"
proof -
  from assms(1) have "index * d \<le> (ceil_div (length frame) d - 1) * d" by (intro mult_le_mono1) simp
  also have "\<dots> < length frame" using ceil_div_bounds [OF assms(2,3)] by simp
  finally show lt: "index * d < length frame" .
  then have "0 < length (slice (index * d) (Suc index * d) frame)" using assms(2) by simp
  then show "slice (index * d) (Suc index * d) frame \<noteq> []" by fastforce
qed

lemma fragment_flags:
  "has ((if a then 1 else 0) OR (if b then 2 else 0)) 1 = a"
  "has ((if a then 1 else 0) OR (if b then 2 else 0)) 2 = b"
  "\<not> extra ((if a then 1 else 0) OR (if b then 2 else 0)) 3"
  by (cases a; cases b; simp add: has_def extra_def)+

lemma frame_fragment_valid:
  assumes "index < count" and "count = ceil_div (length frame) d" and "0 < d"
    and "0 < length frame" and "length frame \<le> 16777216" and "count \<le> 65536"
  shows "validate_fragment (frame_fragment frame s q d count index) = Inr ()"
proof -
  let ?p = "slice (index * d) (Suc index * d) frame"
  have ne: "?p \<noteq> []" and lt: "index * d < length frame"
    using frame_slice_nonempty [of index frame d] assms by simp_all
  have "index * d + length ?p \<le> length frame" using lt by simp
  then have range: "int (index * d) + int (length ?p) \<le> int (length frame)" by linarith
  have last: "(int index = int count - 1) = (index = count - 1)" using assms(1) by auto
  show ?thesis using ne range assms(1,3-6)
    by (simp add: validate_fragment_def frame_fragment_def fragment_flags last Suc_le_eq
        del: length_slice of_nat_mult)
qed

lemma concat_frame_slices:
  assumes "0 < d" and "0 < length frame"
  shows "concat (map (\<lambda>i. slice (i * d) (Suc i * d) frame) [0..<ceil_div (length frame) d]) = frame"
proof -
  have "concat (map (\<lambda>i. slice (i * d) (Suc i * d) frame) [0..<n]) = take (n * d) frame" for n
  proof (induction n)
    case (Suc n)
    then show ?case by (simp add: slice_def take_add [symmetric] add.commute)
  qed simp
  with ceil_div_bounds [OF assms] show ?thesis by simp
qed

end
