(* ===== verification/Ip_Reassembly.thy ===== *)
theory Ip_Reassembly
  imports Ip_Fragments
begin

text \<open>
  \<open>direct_radio/ip.py\<close>, \<open>IpFrameReassembler\<close>: the bounded, expiring reassembler of UDP fragments.
  Its dictionaries are association lists in insertion order; times are real numbers, the exact
  counterpart of the source's float clock. Every method returns the new state, since a failing
  call changes counters and drops the offending frame.
\<close>

section \<open>State\<close>

type_synonym 'p frame_key = "'p \<times> int \<times> int"

record partial_frame =
  pt_frame_bytes :: int
  pt_crc :: int
  pt_count :: int
  pt_first_seen :: real
  pt_pieces :: "(int \<times> int \<times> bytes) list"

record reassembled =
  rf_stream_id :: int
  rf_frame_sequence :: int
  rf_frame :: bytes

record 'p reassembler =
  ra_timeout :: real
  ra_max_pending_frames :: int
  ra_max_pending_bytes :: int
  ra_pending :: "('p frame_key \<times> partial_frame) list"
  ra_completed :: "('p frame_key \<times> int \<times> int \<times> real) list"
  ra_declared_bytes :: int
  ra_completed_count :: int
  ra_expired_count :: int
  ra_rejected_count :: int
  ra_duplicate_count :: int

definition ra_init :: "real \<Rightarrow> int \<Rightarrow> int \<Rightarrow> 'p reassembler result" where
  "ra_init timeout max_frames max_bytes =
     (if timeout \<le> 0 \<or> max_frames \<le> 0 \<or> max_bytes \<le> 0
      then Inl (ValueError ''reassembly bounds must be positive'')
      else Inr \<lparr>ra_timeout = timeout, ra_max_pending_frames = max_frames,
                ra_max_pending_bytes = max_bytes, ra_pending = [], ra_completed = [],
                ra_declared_bytes = 0, ra_completed_count = 0, ra_expired_count = 0,
                ra_rejected_count = 0, ra_duplicate_count = 0\<rparr>)"

definition ra_reset :: "'p reassembler \<Rightarrow> 'p reassembler" where
  "ra_reset r = r\<lparr>ra_pending := [], ra_completed := [], ra_declared_bytes := 0\<rparr>"

text \<open>
  \<open>_remove\<close> pops a key; every caller has just looked the key up, so the \<open>KeyError\<close> of a missing
  key cannot occur and the model leaves the state alone there.
\<close>

definition ra_remove :: "'p frame_key \<Rightarrow> 'p reassembler \<Rightarrow> 'p reassembler" where
  "ra_remove key r =
     (case map_of (ra_pending r) key of
        None \<Rightarrow> r
      | Some p \<Rightarrow> r\<lparr>ra_pending := AList.delete key (ra_pending r),
                     ra_declared_bytes := ra_declared_bytes r - pt_frame_bytes p\<rparr>)"

definition ra_expired :: "real \<Rightarrow> 'p reassembler \<Rightarrow> 'p frame_key list" where
  "ra_expired now r =
     map fst (filter (\<lambda>(k, p). now - pt_first_seen p \<ge> ra_timeout r) (ra_pending r))"

definition ra_expire :: "real \<Rightarrow> 'p reassembler \<Rightarrow> 'p reassembler" where
  "ra_expire now r =
     (let expired = ra_expired now r; r1 = fold ra_remove expired r in
      r1\<lparr>ra_completed := filter (\<lambda>(k, _, _, t). now - t < ra_timeout r) (ra_completed r),
         ra_expired_count := ra_expired_count r + int (length expired)\<rparr>)"

section \<open>Feeding a datagram\<close>

fun assemble :: "(int \<times> int \<times> bytes) list \<Rightarrow> int list \<Rightarrow> int \<Rightarrow> bytes \<Rightarrow> bytes result" where
  "assemble pieces [] expected chunks = Inr chunks"
| "assemble pieces (i # is) expected chunks =
     (case map_of pieces i of
        None \<Rightarrow> Inl KeyError
      | Some (item_offset, item_payload) \<Rightarrow>
          if item_offset \<noteq> expected then Inl (pe ''direct-IP frame has a fragment overlap or gap'')
          else assemble pieces is (expected + int (length item_payload)) (chunks @ item_payload))"

definition reject :: "'p reassembler \<Rightarrow> 'p reassembler" where
  "reject r = r\<lparr>ra_rejected_count := ra_rejected_count r + 1\<rparr>"

definition duplicate :: "'p reassembler \<Rightarrow> 'p reassembler" where
  "duplicate r = r\<lparr>ra_duplicate_count := ra_duplicate_count r + 1\<rparr>"

definition join_frame :: "fragment \<Rightarrow> partial_frame \<Rightarrow> bytes result" where
  "join_frame f p =
     bindE (assemble (pt_pieces p) (map int [0..<nat (fg_fragment_count f)]) 0 []) (\<lambda>frame.
       if int (length frame) \<noteq> fg_frame_bytes f \<or> crc32 frame \<noteq> fg_frame_crc32 f
       then Inl (pe ''direct-IP frame length or CRC mismatch'') else Inr frame)"

text \<open>
  The completed pieces are joined inside \<open>try/except ProtocolError/finally\<close>: the frame leaves the
  pending table on every path, and only a \<open>ProtocolError\<close> counts as a rejection.
\<close>

definition ra_complete ::
    "'p frame_key \<Rightarrow> fragment \<Rightarrow> partial_frame \<Rightarrow> real \<Rightarrow> 'p reassembler \<Rightarrow> 'p reassembler \<times> reassembled list result" where
  "ra_complete key f p now r =
     (let removed = ra_remove key r in
      case join_frame f p of
        Inl (ProtocolError msg) \<Rightarrow> (reject removed, Inl (ProtocolError msg))
      | Inl e \<Rightarrow> (removed, Inl e)
      | Inr frame \<Rightarrow>
          (removed\<lparr>ra_completed_count := ra_completed_count removed + 1,
                   ra_completed := AList.update key (fg_frame_crc32 f, fg_fragment_count f, now)
                                     (ra_completed removed)\<rparr>,
           Inr [\<lparr>rf_stream_id = fg_stream_id f, rf_frame_sequence = fg_frame_sequence f,
                 rf_frame = frame\<rparr>]))"

definition ra_piece ::
    "'p frame_key \<Rightarrow> fragment \<Rightarrow> partial_frame \<Rightarrow> real \<Rightarrow> 'p reassembler \<Rightarrow> 'p reassembler \<times> reassembled list result" where
  "ra_piece key f p now r =
     (case map_of (pt_pieces p) (fg_fragment_index f) of
        Some existing \<Rightarrow>
          if existing \<noteq> (fg_fragment_offset f, fg_payload f)
          then (reject (ra_remove key r), Inl (pe ''conflicting duplicate direct-IP fragment''))
          else (duplicate r, Inr [])
      | None \<Rightarrow>
          let p1 = p\<lparr>pt_pieces := AList.update (fg_fragment_index f)
                      (fg_fragment_offset f, fg_payload f) (pt_pieces p)\<rparr>;
              r1 = r\<lparr>ra_pending := AList.update key p1 (ra_pending r)\<rparr> in
          if int (length (pt_pieces p1)) \<noteq> fg_fragment_count f then (r1, Inr [])
          else ra_complete key f p1 now r1)"

definition ra_accept ::
    "'p frame_key \<Rightarrow> fragment \<Rightarrow> real \<Rightarrow> 'p reassembler \<Rightarrow> 'p reassembler \<times> reassembled list result" where
  "ra_accept key f now r =
     (case map_of (ra_completed r) key of
        Some (crc, count, _) \<Rightarrow>
          if (crc, count) \<noteq> (fg_frame_crc32 f, fg_fragment_count f)
          then (reject r, Inl (pe ''conflicting late direct-IP fragment''))
          else (duplicate r, Inr [])
      | None \<Rightarrow>
          (case map_of (ra_pending r) key of
             None \<Rightarrow>
               if int (length (ra_pending r)) \<ge> ra_max_pending_frames r
                  \<or> ra_declared_bytes r + fg_frame_bytes f > ra_max_pending_bytes r
               then (reject r, Inl (pe ''direct-IP pending reassembly limit exceeded''))
               else let p = \<lparr>pt_frame_bytes = fg_frame_bytes f, pt_crc = fg_frame_crc32 f,
                             pt_count = fg_fragment_count f, pt_first_seen = now, pt_pieces = []\<rparr> in
                 ra_piece key f p now
                   (r\<lparr>ra_pending := AList.update key p (ra_pending r),
                      ra_declared_bytes := ra_declared_bytes r + fg_frame_bytes f\<rparr>)
           | Some p \<Rightarrow>
               if (pt_frame_bytes p, pt_crc p, pt_count p)
                    \<noteq> (fg_frame_bytes f, fg_frame_crc32 f, fg_fragment_count f)
               then (reject (ra_remove key r), Inl (pe ''conflicting direct-IP frame description''))
               else ra_piece key f p now r))"

definition ra_feed :: "'p reassembler \<Rightarrow> bytes \<times> 'p \<times> real \<Rightarrow> 'p reassembler \<times> reassembled list result" where
  "ra_feed r input =
     (case input of (datagram, peer, now) \<Rightarrow>
        let r1 = ra_expire now r in
        case unpack_fragment datagram of
          Inl e \<Rightarrow> (r1, Inl e)
        | Inr f \<Rightarrow> ra_accept (peer, fg_stream_id f, fg_frame_sequence f) f now r1)"

text \<open>
  \<open>reassemble_ip_datagrams\<close> feeds a default reassembler (2 s, 8 frames, 32 MiB) until a feed
  raises; the clock readings of the successive calls are an argument of the model.
\<close>

fun ra_collect ::
    "'p reassembler \<Rightarrow> (bytes \<times> 'p \<times> real) list \<Rightarrow> reassembled list \<Rightarrow> ('p reassembler \<times> reassembled list) result" where
  "ra_collect r [] frames = Inr (r, frames)"
| "ra_collect r (i # is) frames =
     (case ra_feed r i of
        (r1, Inl e) \<Rightarrow> Inl e
      | (r1, Inr fs) \<Rightarrow> ra_collect r1 is (frames @ fs))"

definition reassemble_ip_datagrams :: "(bytes \<times> real) list \<Rightarrow> 'p \<Rightarrow> bytes result" where
  "reassemble_ip_datagrams datagrams peer =
     bindE (ra_init 2 8 (32 * 1024 * 1024)) (\<lambda>r.
     bindE (ra_collect r (map (\<lambda>(d, t). (d, peer, t)) datagrams) []) (\<lambda>(r1, frames).
       if ra_pending r1 \<noteq> [] \<or> length frames \<noteq> 1
       then Inl (pe ''direct-IP datagram collection is incomplete or not singular'')
       else Inr (rf_frame (hd frames))))"

section \<open>The invariant\<close>

text \<open>
  Between calls: each key once and never both pending and completed, the declared-bytes counter is
  the sum over the pending frames and respects the two bounds, and every pending frame misses a
  piece.
\<close>

definition partial_ok :: "partial_frame \<Rightarrow> bool" where
  "partial_ok p \<longleftrightarrow> distinct (map fst (pt_pieces p)) \<and> 0 \<le> pt_frame_bytes p \<and>
     (\<forall>i \<in> fst ` set (pt_pieces p). 0 \<le> i \<and> i < pt_count p) \<and>
     int (length (pt_pieces p)) < pt_count p"

definition declared :: "('p frame_key \<times> partial_frame) list \<Rightarrow> int" where
  "declared ps = (\<Sum>x \<leftarrow> ps. pt_frame_bytes (snd x))"

definition ra_inv :: "'p reassembler \<Rightarrow> bool" where
  "ra_inv r \<longleftrightarrow> distinct (map fst (ra_pending r)) \<and> distinct (map fst (ra_completed r)) \<and>
     fst ` set (ra_pending r) \<inter> fst ` set (ra_completed r) = {} \<and>
     ra_declared_bytes r = declared (ra_pending r) \<and>
     ra_declared_bytes r \<le> ra_max_pending_bytes r \<and>
     int (length (ra_pending r)) \<le> ra_max_pending_frames r \<and>
     (\<forall>p \<in> snd ` set (ra_pending r). partial_ok p)"

lemma declared_nonneg: "\<forall>p \<in> snd ` set ps. partial_ok p \<Longrightarrow> 0 \<le> declared ps"
  by (induction ps) (auto simp: declared_def partial_ok_def)

lemma declared_delete:
  "distinct (map fst ps) \<Longrightarrow> map_of ps k = Some p \<Longrightarrow>
   declared (AList.delete k ps) = declared ps - pt_frame_bytes p"
  unfolding declared_def by (rule sum_delete)

lemma declared_update_new:
  "map_of ps k = None \<Longrightarrow> declared (AList.update k p ps) = declared ps + pt_frame_bytes p"
  by (simp add: declared_def update_new_append)

lemma declared_update_old:
  "map_of ps k = Some q \<Longrightarrow>
   declared (AList.update k p ps) = declared ps - pt_frame_bytes q + pt_frame_bytes p"
  unfolding declared_def by (rule sum_update_old)

lemma ra_init_inv: "ra_init t m b = Inr r \<Longrightarrow> ra_inv r"
  by (cases "t \<le> 0 \<or> m \<le> 0 \<or> b \<le> 0") (auto simp: ra_init_def ra_inv_def declared_def)

lemma ra_reset_inv: "ra_inv r \<Longrightarrow> ra_inv (ra_reset r)"
  using declared_nonneg [of "ra_pending r"] by (simp add: ra_reset_def ra_inv_def declared_def)

lemma ra_inv_pending:
  assumes "ra_inv r" and "distinct (map fst ps)"
    and "fst ` set ps \<inter> fst ` set (ra_completed r) = {}"
    and "declared ps \<le> ra_max_pending_bytes r" and "int (length ps) \<le> ra_max_pending_frames r"
    and "\<And>k p. (k, p) \<in> set ps \<Longrightarrow> partial_ok p" and "d = declared ps"
  shows "ra_inv (r\<lparr>ra_pending := ps, ra_declared_bytes := d\<rparr>)"
  using assms by (auto simp: ra_inv_def)

lemma ra_inv_partial_ok: "ra_inv r \<Longrightarrow> (k, p) \<in> set (ra_pending r) \<Longrightarrow> partial_ok p"
  unfolding ra_inv_def by (metis image_eqI snd_conv)

lemma ra_remove_inv:
  assumes "ra_inv r"
  shows "ra_inv (ra_remove key r)"
proof (cases "map_of (ra_pending r) key")
  case (Some p)
  let ?ps = "AList.delete key (ra_pending r)"
  have D: "distinct (map fst (ra_pending r))" using assms by (simp add: ra_inv_def)
  have S: "set ?ps \<subseteq> set (ra_pending r)" by (rule set_delete_subset)
  from Some have "(key, p) \<in> set (ra_pending r)" by (rule map_of_SomeD)
  then have "0 \<le> pt_frame_bytes p" using ra_inv_partial_ok [OF assms] by (auto simp: partial_ok_def)
  moreover have d: "declared ?ps = declared (ra_pending r) - pt_frame_bytes p"
    by (rule declared_delete [OF D Some])
  ultimately have b: "declared ?ps \<le> ra_max_pending_bytes r" using assms by (simp add: ra_inv_def)
  have "int (length ?ps) \<le> int (length (ra_pending r))" by simp
  also have "\<dots> \<le> ra_max_pending_frames r" using assms by (simp add: ra_inv_def)
  finally have n: "int (length ?ps) \<le> ra_max_pending_frames r" .
  have "fst ` set ?ps \<subseteq> fst ` set (ra_pending r)" using S by (rule image_mono)
  moreover have "fst ` set (ra_pending r) \<inter> fst ` set (ra_completed r) = {}"
    using assms by (simp add: ra_inv_def)
  ultimately have j: "fst ` set ?ps \<inter> fst ` set (ra_completed r) = {}" by blast
  have "ra_inv (r\<lparr>ra_pending := ?ps, ra_declared_bytes := ra_declared_bytes r - pt_frame_bytes p\<rparr>)"
    by (rule ra_inv_pending [OF assms distinct_delete [OF D] j b n])
      (use ra_inv_partial_ok [OF assms] S d assms in \<open>blast | simp add: ra_inv_def\<close>)+
  then show ?thesis by (simp add: ra_remove_def Some)
qed (simp add: ra_remove_def assms)

lemma ra_remove_fields [simp]:
  "ra_completed (ra_remove key r) = ra_completed r"
  "ra_timeout (ra_remove key r) = ra_timeout r"
  "ra_expired_count (ra_remove key r) = ra_expired_count r"
  "ra_max_pending_frames (ra_remove key r) = ra_max_pending_frames r"
  "ra_max_pending_bytes (ra_remove key r) = ra_max_pending_bytes r"
  by (simp_all add: ra_remove_def split: option.splits)

lemma ra_removes_fields [simp]:
  "ra_completed (fold ra_remove ks r) = ra_completed r"
  "ra_timeout (fold ra_remove ks r) = ra_timeout r"
  "ra_expired_count (fold ra_remove ks r) = ra_expired_count r"
  "ra_max_pending_frames (fold ra_remove ks r) = ra_max_pending_frames r"
  "ra_max_pending_bytes (fold ra_remove ks r) = ra_max_pending_bytes r"
  by (induction ks arbitrary: r) simp_all

lemma ra_removes_inv: "ra_inv r \<Longrightarrow> ra_inv (fold ra_remove ks r)"
  by (induction ks arbitrary: r) (simp_all add: ra_remove_inv)

lemma ra_inv_counters [simp]: "ra_inv (reject r) = ra_inv r" "ra_inv (duplicate r) = ra_inv r"
  by (simp_all add: reject_def duplicate_def ra_inv_def)

lemma ra_inv_completed:
  assumes "ra_inv r" and "distinct (map fst cs)"
    and "fst ` set (ra_pending r) \<inter> fst ` set cs = {}"
  shows "ra_inv (r\<lparr>ra_completed := cs, ra_expired_count := e\<rparr>)"
    and "ra_inv (r\<lparr>ra_completed_count := e, ra_completed := cs\<rparr>)"
  using assms by (simp_all add: ra_inv_def)

lemma ra_expire_inv:
  assumes "ra_inv r"
  shows "ra_inv (ra_expire now r)"
proof -
  let ?r = "fold ra_remove (ra_expired now r) r"
  let ?cs = "filter (\<lambda>(k, _, _, t). now - t < ra_timeout r) (ra_completed r)"
  have inv: "ra_inv ?r" by (rule ra_removes_inv [OF assms])
  then have "fst ` set (ra_pending ?r) \<inter> fst ` set (ra_completed r) = {}" by (simp add: ra_inv_def)
  moreover have "fst ` set ?cs \<subseteq> fst ` set (ra_completed r)" by (intro image_mono) simp
  ultimately have j: "fst ` set (ra_pending ?r) \<inter> fst ` set ?cs = {}" by blast
  have d: "distinct (map fst ?cs)" using assms by (simp add: ra_inv_def distinct_map_filter)
  show ?thesis unfolding ra_expire_def Let_def by (rule ra_inv_completed(1) [OF inv d j])
qed

section \<open>A step keeps the invariant\<close>

lemma ra_remove_updated:
  assumes "map_of (ra_pending r) key = Some p" and "pt_frame_bytes p1 = pt_frame_bytes p"
  shows "ra_remove key (r\<lparr>ra_pending := AList.update key p1 (ra_pending r)\<rparr>) = ra_remove key r"
  using assms by (simp add: ra_remove_def delete_update_same)

lemma ra_remove_gone: "map_of (ra_pending (ra_remove key r)) key = None"
  by (auto simp: ra_remove_def split: option.splits)

lemma ra_complete_inv:
  assumes "ra_inv (ra_remove key r)" and "map_of (ra_completed r) key = None"
  shows "ra_inv (fst (ra_complete key f p now r))"
proof (cases "join_frame f p")
  case (Inl e)
  then show ?thesis using assms(1) by (cases e) (simp_all add: ra_complete_def Let_def)
next
  case (Inr frame)
  let ?r = "ra_remove key r"
  let ?cs = "AList.update key (fg_frame_crc32 f, fg_fragment_count f, now) (ra_completed ?r)"
  have "key \<notin> fst ` set (ra_pending ?r)" using ra_remove_gone by (metis map_of_eq_None_iff)
  moreover have "fst ` set ?cs = insert key (fst ` set (ra_completed ?r))"
    by (rule fst_set_update)
  moreover have "fst ` set (ra_pending ?r) \<inter> fst ` set (ra_completed ?r) = {}"
    using assms(1) by (simp add: ra_inv_def)
  ultimately have j: "fst ` set (ra_pending ?r) \<inter> fst ` set ?cs = {}" by (simp only: Int_insert_right if_False)
  have d: "distinct (map fst ?cs)" using assms(1) by (simp add: ra_inv_def distinct_update)
  show ?thesis using ra_inv_completed(2) [OF assms(1) d j] Inr by (simp add: ra_complete_def Let_def)
qed

lemma ra_inv_update:
  assumes "ra_inv r" and "map_of (ra_pending r) key = Some p" and "partial_ok p1"
    and "pt_frame_bytes p1 = pt_frame_bytes p"
  shows "ra_inv (r\<lparr>ra_pending := AList.update key p1 (ra_pending r)\<rparr>)"
proof -
  let ?ps = "AList.update key p1 (ra_pending r)"
  have D: "distinct (map fst (ra_pending r))" using assms(1) by (simp add: ra_inv_def)
  have d: "declared ?ps = ra_declared_bytes r"
    using assms by (simp add: declared_update_old ra_inv_def)
  have "key \<in> fst ` set (ra_pending r)" using assms(2) by (metis map_of_eq_None_iff option.distinct(1))
  then have "fst ` set ?ps = fst ` set (ra_pending r)"
    by (simp add: fst_set_update insert_absorb)
  then have j: "fst ` set ?ps \<inter> fst ` set (ra_completed r) = {}"
    using assms(1) by (simp add: ra_inv_def)
  have ok: "partial_ok q" if "(k, q) \<in> set ?ps" for k q
    using update_values [OF that D] ra_inv_partial_ok [OF assms(1), of k q] assms(3) by blast
  have "ra_inv (r\<lparr>ra_pending := ?ps, ra_declared_bytes := ra_declared_bytes r\<rparr>)"
    by (rule ra_inv_pending [OF assms(1) distinct_update [OF D] j _ _ ok])
      (use assms(1,2) d in \<open>simp_all add: ra_inv_def length_update_old\<close>)
  then show ?thesis by simp
qed

lemma ra_inv_insert:
  assumes "ra_inv r" and "map_of (ra_pending r) key = None" and "map_of (ra_completed r) key = None"
    and "partial_ok p" and "int (length (ra_pending r)) < ra_max_pending_frames r"
    and "ra_declared_bytes r + pt_frame_bytes p \<le> ra_max_pending_bytes r"
  shows "ra_inv (r\<lparr>ra_pending := AList.update key p (ra_pending r),
                  ra_declared_bytes := ra_declared_bytes r + pt_frame_bytes p\<rparr>)"
proof -
  let ?ps = "AList.update key p (ra_pending r)"
  have D: "distinct (map fst (ra_pending r))" using assms(1) by (simp add: ra_inv_def)
  have "key \<notin> fst ` set (ra_completed r)" using assms(3) by (metis map_of_eq_None_iff)
  moreover have "fst ` set ?ps = insert key (fst ` set (ra_pending r))"
    by (rule fst_set_update)
  moreover have "fst ` set (ra_pending r) \<inter> fst ` set (ra_completed r) = {}"
    using assms(1) by (simp add: ra_inv_def)
  ultimately have j: "fst ` set ?ps \<inter> fst ` set (ra_completed r) = {}" by (simp only: Int_insert_left if_False)
  have ok: "partial_ok q" if "(k, q) \<in> set ?ps" for k q
    using update_values [OF that D] ra_inv_partial_ok [OF assms(1), of k q] assms(4) by blast
  show ?thesis
    by (rule ra_inv_pending [OF assms(1) distinct_update [OF D] j _ _ ok])
      (use assms in \<open>simp_all add: ra_inv_def declared_update_new length_update_new\<close>)
qed

lemma ra_piece_inv:
  assumes "ra_inv r" and "map_of (ra_pending r) key = Some p" and "map_of (ra_completed r) key = None"
    and "0 \<le> fg_fragment_index f" and "fg_fragment_index f < fg_fragment_count f"
    and "pt_count p = fg_fragment_count f"
  shows "ra_inv (fst (ra_piece key f p now r))"
proof (cases "map_of (pt_pieces p) (fg_fragment_index f)")
  case None
  let ?p = "p\<lparr>pt_pieces := AList.update (fg_fragment_index f) (fg_fragment_offset f, fg_payload f) (pt_pieces p)\<rparr>"
  let ?r = "r\<lparr>ra_pending := AList.update key ?p (ra_pending r)\<rparr>"
  have ok: "partial_ok p" using ra_inv_partial_ok [OF assms(1) map_of_SomeD [OF assms(2)]] .
  show ?thesis
  proof (cases "int (length (pt_pieces ?p)) = fg_fragment_count f")
    case True
    have "ra_remove key ?r = ra_remove key r" using ra_remove_updated [OF assms(2), of ?p] by simp
    then have "ra_inv (fst (ra_complete key f ?p now ?r))"
      using ra_complete_inv [of key ?r f ?p now] ra_remove_inv [OF assms(1), of key] assms(3) by simp
    then show ?thesis using None True by (simp add: ra_piece_def Let_def)
  next
    case False
    have "partial_ok ?p" using ok None False assms(4-6)
      by (auto simp: partial_ok_def update_new_append map_of_eq_None_iff)
    then have "ra_inv ?r" by (intro ra_inv_update [OF assms(1,2)]) simp_all
    then show ?thesis using None False by (simp add: ra_piece_def)
  qed
qed (use assms(1) in \<open>simp add: ra_piece_def ra_remove_inv\<close>)

lemma ra_accept_inv:
  assumes "ra_inv r" and "unpack_fragment d = Inr f"
  shows "ra_inv (fst (ra_accept key f now r))"
proof (cases "map_of (ra_completed r) key")
  case free: None
  note B = unpack_fragment_bounds [OF assms(2)]
  show ?thesis
  proof (cases "map_of (ra_pending r) key")
    case None
    let ?p = "\<lparr>pt_frame_bytes = fg_frame_bytes f, pt_crc = fg_frame_crc32 f,
      pt_count = fg_fragment_count f, pt_first_seen = now, pt_pieces = []\<rparr>"
    let ?r = "r\<lparr>ra_pending := AList.update key ?p (ra_pending r),
      ra_declared_bytes := ra_declared_bytes r + fg_frame_bytes f\<rparr>"
    show ?thesis
    proof (cases "int (length (ra_pending r)) \<ge> ra_max_pending_frames r
                  \<or> ra_declared_bytes r + fg_frame_bytes f > ra_max_pending_bytes r")
      case False
      have "partial_ok ?p" using B by (simp add: partial_ok_def)
      then have "ra_inv ?r" using ra_inv_insert [OF assms(1) None free, of ?p] False by simp
      then have "ra_inv (fst (ra_piece key f ?p now ?r))"
        by (rule ra_piece_inv) (use free B in simp_all)
      then show ?thesis using free None False by (simp add: ra_accept_def Let_def)
    qed (use free None assms(1) in \<open>auto simp: ra_accept_def\<close>)
  next
    case (Some p)
    show ?thesis
    proof (cases "(pt_frame_bytes p, pt_crc p, pt_count p) = (fg_frame_bytes f, fg_frame_crc32 f, fg_fragment_count f)")
      case True
      then have "ra_inv (fst (ra_piece key f p now r))"
        by (intro ra_piece_inv [OF assms(1) Some free]) (use B in simp_all)
      then show ?thesis using free Some True by (simp add: ra_accept_def)
    qed (use free Some ra_remove_inv [OF assms(1), of key] in \<open>auto simp: ra_accept_def\<close>)
  qed
next
  case (Some c)
  then show ?thesis using assms(1) by (cases c) (simp add: ra_accept_def)
qed

lemma ra_feed_inv:
  assumes "ra_inv r"
  shows "ra_inv (fst (ra_feed r input))"
proof -
  obtain d p now where i: "input = (d, p, now)" by (cases input) auto
  show ?thesis
  proof (cases "unpack_fragment d")
    case (Inr f)
    then show ?thesis using ra_accept_inv [OF ra_expire_inv [OF assms, of now] Inr]
      by (simp add: ra_feed_def i Let_def)
  qed (simp add: ra_feed_def i Let_def ra_expire_inv [OF assms])
qed

interpretation reassembly: state_machine ra_feed ra_inv
  by unfold_locales (rule ra_feed_inv)

end
