(* ===== verification/Ip_Delivery.thy ===== *)
theory Ip_Delivery
  imports Ip_Reassembly
begin

text \<open>
  What the reassembler delivers: the error channel of \<open>feed\<close>, the integrity of a returned frame,
  and the delivery of a fragmented frame whatever the order and the repetitions of its datagrams.
\<close>

section \<open>The error channel of \<open>feed\<close>\<close>

definition protocol_error :: "exn \<Rightarrow> bool" where
  "protocol_error e \<longleftrightarrow> (\<exists>msg. e = ProtocolError msg)"

lemma protocol_error_simps [simp]:
  "protocol_error (ProtocolError msg)" "protocol_error (pe msg)" "\<not> protocol_error KeyError" "\<not> protocol_error StructError"
  "\<not> protocol_error (ValueError msg)"
  by (simp_all add: protocol_error_def pe_def)

lemma unpack_fragment_error:
  assumes "unpack_fragment d = Inl e"
  shows "protocol_error e"
proof (cases "IP_FRAGMENT_HEADER_BYTES < int (length d) \<and> int (length d) \<le> MAX_UDP_DATAGRAM_BYTES")
  case True
  then have "52 \<le> length d" by simp
  then obtain raw where U: "struct_unpack_from fragment_fmt d 0 = Inr raw"
    by (auto simp: struct_unpack_from_def struct_unpack_def)
  have V: "protocol_error x" if "validate_fragment f = Inl x" for f x
    using checks_errors [OF that [unfolded validate_fragment_def], of protocol_error] by simp
  have C: "protocol_error x" if "checks [(a, pe m), (b, pe k)] = Inl x" for a m b k x
    using checks_errors [OF that, of protocol_error] by simp
  show ?thesis
    using assms True U by (auto simp: unpack_fragment_def bindE_def Let_def split: sum.splits dest: V C)
qed (use assms in \<open>auto simp: unpack_fragment_def\<close>)

lemma assemble_error:
  "assemble ps is x c = Inl e \<Longrightarrow> \<forall>i \<in> set is. map_of ps i \<noteq> None \<Longrightarrow> protocol_error e"
  by (induction ps "is" x c rule: assemble.induct) (auto split: option.splits if_splits)

lemma pieces_complete:
  assumes "distinct (map fst ps)" and "\<forall>i \<in> fst ` set ps. 0 \<le> i \<and> i < n" and "int (length ps) = n"
  shows "\<forall>i \<in> set (map int [0..<nat n]). map_of ps i \<noteq> None"
proof -
  have "fst ` set ps \<subseteq> {0..<n}" using assms(2) by auto
  moreover have "card (fst ` set ps) = card {0..<n}"
    using assms(1,3) distinct_card [OF assms(1)] by auto
  ultimately have "fst ` set ps = {0..<n}" by (intro card_subset_eq) auto
  then show ?thesis by (auto simp: map_of_eq_None_iff)
qed

lemma join_frame_error:
  assumes "join_frame f p = Inl e" and "distinct (map fst (pt_pieces p))"
    and "\<forall>i \<in> fst ` set (pt_pieces p). 0 \<le> i \<and> i < fg_fragment_count f"
    and "int (length (pt_pieces p)) = fg_fragment_count f"
  shows "protocol_error e"
  using assms(1) assemble_error [OF _ pieces_complete [OF assms(2-4)]]
  by (auto simp: join_frame_def bindE_def split: sum.splits if_splits)

lemma ra_complete_error:
  "snd (ra_complete key f p now r) = Inl e \<Longrightarrow> join_frame f p = Inl e"
  by (cases "join_frame f p") (auto simp: ra_complete_def Let_def split: exn.splits)

lemma ra_piece_error:
  assumes "snd (ra_piece key f p now r) = Inl e" and "partial_ok p"
    and "0 \<le> fg_fragment_index f" and "fg_fragment_index f < fg_fragment_count f"
    and "pt_count p = fg_fragment_count f"
  shows "protocol_error e"
proof (cases "map_of (pt_pieces p) (fg_fragment_index f)")
  case None
  let ?p = "p\<lparr>pt_pieces := AList.update (fg_fragment_index f) (fg_fragment_offset f, fg_payload f) (pt_pieces p)\<rparr>"
  have len: "int (length (pt_pieces ?p)) = fg_fragment_count f" and J: "join_frame f ?p = Inl e"
    using assms(1) None by (auto simp: ra_piece_def Let_def split: if_splits dest: ra_complete_error)
  have "distinct (map fst (pt_pieces ?p))"
    and "\<forall>i \<in> fst ` set (pt_pieces ?p). 0 \<le> i \<and> i < fg_fragment_count f"
    using assms(2-5) None by (auto simp: partial_ok_def update_new_append map_of_eq_None_iff)
  then show ?thesis using join_frame_error [OF J] len by blast
qed (use assms(1) in \<open>auto simp: ra_piece_def split: if_splits\<close>)

lemma ra_accept_error:
  assumes "ra_inv r" and "unpack_fragment d = Inr f" and "snd (ra_accept key f now r) = Inl e"
  shows "protocol_error e"
proof -
  note B = unpack_fragment_bounds [OF assms(2)]
  have new: "partial_ok \<lparr>pt_frame_bytes = fg_frame_bytes f, pt_crc = fg_frame_crc32 f,
      pt_count = fg_fragment_count f, pt_first_seen = now, pt_pieces = []\<rparr>"
    using B by (simp add: partial_ok_def)
  have old: "partial_ok p" if "map_of (ra_pending r) key = Some p" for p
    using ra_inv_partial_ok [OF assms(1) map_of_SomeD [OF that]] .
  show ?thesis using assms(3)
    by (auto simp: ra_accept_def Let_def split: option.splits if_splits prod.splits
        intro: B old dest!: ra_piece_error [OF _ new] ra_piece_error [OF _ old])
qed

lemma ra_feed_error:
  assumes "ra_inv r" and "snd (ra_feed r input) = Inl e"
  shows "protocol_error e"
proof -
  obtain d p now where i: "input = (d, p, now)" by (cases input) auto
  show ?thesis
    using assms(2) ra_accept_error [OF ra_expire_inv [OF assms(1)]] unpack_fragment_error
    by (fastforce simp: ra_feed_def i Let_def split: sum.splits)
qed

section \<open>Integrity of a returned frame\<close>

lemma join_frame_checked:
  "join_frame f p = Inr frame \<Longrightarrow> int (length frame) = fg_frame_bytes f \<and> crc32 frame = fg_frame_crc32 f"
  by (auto simp: join_frame_def bindE_Inr_iff split: if_splits)

lemma ra_complete_frames:
  assumes "snd (ra_complete key f p now r) = Inr fs"
  obtains frame where "join_frame f p = Inr frame"
    and "fs = [\<lparr>rf_stream_id = fg_stream_id f, rf_frame_sequence = fg_frame_sequence f, rf_frame = frame\<rparr>]"
    and "map_of (ra_completed (fst (ra_complete key f p now r))) key
           = Some (fg_frame_crc32 f, fg_fragment_count f, now)"
    and "map_of (ra_pending (fst (ra_complete key f p now r))) key = None"
  using assms ra_remove_gone [of key r]
  by (cases "join_frame f p") (auto simp: ra_complete_def Let_def split: exn.splits)

definition frame_of :: "fragment \<Rightarrow> reassembled \<Rightarrow> bool" where
  "frame_of f rf \<longleftrightarrow> rf_stream_id rf = fg_stream_id f \<and> rf_frame_sequence rf = fg_frame_sequence f \<and>
     int (length (rf_frame rf)) = fg_frame_bytes f \<and> crc32 (rf_frame rf) = fg_frame_crc32 f"

lemma ra_piece_frames:
  assumes "snd (ra_piece key f p now r) = Inr fs" and "fs \<noteq> []"
  obtains rf where "fs = [rf]" and "frame_of f rf"
    and "map_of (ra_completed (fst (ra_piece key f p now r))) key
           = Some (fg_frame_crc32 f, fg_fragment_count f, now)"
    and "map_of (ra_pending (fst (ra_piece key f p now r))) key = None"
proof (cases "map_of (pt_pieces p) (fg_fragment_index f)")
  case None
  let ?p = "p\<lparr>pt_pieces := AList.update (fg_fragment_index f) (fg_fragment_offset f, fg_payload f) (pt_pieces p)\<rparr>"
  let ?r = "r\<lparr>ra_pending := AList.update key ?p (ra_pending r)\<rparr>"
  have eq: "ra_piece key f p now r = ra_complete key f ?p now ?r"
    using assms None by (auto simp: ra_piece_def Let_def split: if_splits)
  then have "snd (ra_complete key f ?p now ?r) = Inr fs" using assms(1) by simp
  then show thesis
    by (rule ra_complete_frames) (use that eq join_frame_checked in \<open>auto simp: frame_of_def\<close>)
qed (use assms in \<open>auto simp: ra_piece_def split: if_splits\<close>)

lemma ra_feed_frames:
  assumes "ra_feed r (d, peer, now) = (r1, Inr fs)" and "fs \<noteq> []"
  shows "\<exists>f rf. unpack_fragment d = Inr f \<and> fs = [rf] \<and> frame_of f rf \<and>
    map_of (ra_completed r1) (peer, fg_stream_id f, fg_frame_sequence f)
      = Some (fg_frame_crc32 f, fg_fragment_count f, now) \<and>
    map_of (ra_pending r1) (peer, fg_stream_id f, fg_frame_sequence f) = None"
proof (cases "unpack_fragment d")
  case (Inr f)
  let ?key = "(peer, fg_stream_id f, fg_frame_sequence f)"
  have A: "ra_accept ?key f now (ra_expire now r) = (r1, Inr fs)"
    using assms(1) Inr by (simp add: ra_feed_def Let_def)
  obtain p r0 where "ra_piece ?key f p now r0 = (r1, Inr fs)"
    using A assms(2) by (auto simp: ra_accept_def Let_def split: option.splits if_splits)
  then show ?thesis using Inr assms(2) ra_piece_frames [of ?key f p now r0 fs] by (metis fst_conv snd_conv)
qed (use assms(1) in \<open>simp add: ra_feed_def Let_def\<close>)

section \<open>Delivery in any order\<close>

text \<open>The state of one key while the fragments \<open>S\<close> of an \<open>n\<close>-fragment frame have arrived.\<close>

definition frame_piece :: "bytes \<Rightarrow> nat \<Rightarrow> nat \<Rightarrow> int \<times> bytes" where
  "frame_piece frame d i = (int (i * d), slice (i * d) (Suc i * d) frame)"

definition arrived :: "bytes \<Rightarrow> nat \<Rightarrow> nat \<Rightarrow> nat set \<Rightarrow> real \<Rightarrow> partial_frame \<Rightarrow> bool" where
  "arrived frame d n S t0 p \<longleftrightarrow>
     pt_frame_bytes p = int (length frame) \<and> pt_crc p = crc32 frame \<and> pt_count p = int n \<and>
     t0 \<le> pt_first_seen p \<and> distinct (map fst (pt_pieces p)) \<and> fst ` set (pt_pieces p) = int ` S \<and>
     (\<forall>i \<in> S. map_of (pt_pieces p) (int i) = Some (frame_piece frame d i))"

lemma assemble_pieces:
  assumes "0 < d" and "n = ceil_div (length frame) d" and "0 < length frame"
    and "\<forall>i < n. map_of ps (int i) = Some (frame_piece frame d i)"
  shows "j \<le> n \<Longrightarrow> (j < n \<Longrightarrow> x = int (j * d)) \<Longrightarrow>
    assemble ps (map int [j..<n]) x c = Inr (c @ concat (map (\<lambda>i. slice (i * d) (Suc i * d) frame) [j..<n]))"
proof (induction "n - j" arbitrary: j x c)
  case (Suc m)
  then have lt: "j < n" by simp
  have x: "x = int (j * d)" using Suc.prems(2) lt by simp
  have next_off: "x + int (length (slice (j * d) (Suc j * d) frame)) = int (Suc j * d)" if "Suc j < n"
    using frame_slice_nonempty(2) [of "Suc j" frame d] that assms by (simp add: x)
  have "assemble ps (map int [Suc j..<n]) (x + int (length (slice (j * d) (Suc j * d) frame)))
          (c @ slice (j * d) (Suc j * d) frame)
        = Inr ((c @ slice (j * d) (Suc j * d) frame)
              @ concat (map (\<lambda>i. slice (i * d) (Suc i * d) frame) [Suc j..<n]))"
    using Suc.hyps(2) lt by (intro Suc.hyps(1) next_off) simp_all
  then show ?case using lt assms(4) by (simp add: upt_conv_Cons frame_piece_def x del: mult_Suc)
qed simp

lemma join_arrived:
  assumes "0 < d" and "n = ceil_div (length frame) d" and "0 < length frame"
    and "arrived frame d n {..<n} t0 p"
  shows "join_frame (frame_fragment frame s q d n i) p = Inr frame"
proof -
  have "\<forall>i < n. map_of (pt_pieces p) (int i) = Some (frame_piece frame d i)"
    using assms(4) by (simp add: arrived_def)
  then have "assemble (pt_pieces p) (map int [0..<n]) 0 [] = Inr frame"
    using assemble_pieces [OF assms(1-3), of "pt_pieces p" 0 0 "[]"] assms(2)
      concat_frame_slices [OF assms(1,3)] by simp
  then show ?thesis by (simp add: join_frame_def frame_fragment_def)
qed

lemma ra_remove_pending:
  "map_of (ra_pending (ra_remove k r)) key = (if key = k then None else map_of (ra_pending r) key)"
  by (auto simp: ra_remove_def split: option.splits)

lemma ra_removes_pending:
  "map_of (ra_pending (fold ra_remove ks r)) key = (if key \<in> set ks then None else map_of (ra_pending r) key)"
  by (induction ks arbitrary: r) (auto simp: ra_remove_pending)

lemma ra_expire_pending:
  assumes "ra_inv r"
  shows "map_of (ra_pending (ra_expire now r)) key =
    (case map_of (ra_pending r) key of
       None \<Rightarrow> None
     | Some p \<Rightarrow> if now - pt_first_seen p \<ge> ra_timeout r then None else Some p)"
proof -
  have D: "distinct (map fst (ra_pending r))" using assms by (simp add: ra_inv_def)
  have "key \<in> set (ra_expired now r) \<longleftrightarrow>
      (\<exists>p. map_of (ra_pending r) key = Some p \<and> now - pt_first_seen p \<ge> ra_timeout r)"
    by (cases key) (auto simp: ra_expired_def image_iff map_of_eq_Some_iff [OF D] split: prod.splits)
  then show ?thesis
    by (auto simp: ra_expire_def Let_def ra_removes_pending split: option.splits)
qed

lemma ra_expire_completed:
  assumes "ra_inv r"
  shows "map_of (ra_completed (ra_expire now r)) key =
    (case map_of (ra_completed r) key of
       None \<Rightarrow> None
     | Some (crc, count, t) \<Rightarrow> if now - t < ra_timeout r then Some (crc, count, t) else None)"
proof -
  have D: "distinct (map fst (ra_completed r))" using assms by (simp add: ra_inv_def)
  have "map_of (filter (\<lambda>(k, _, _, t). now - t < T) cs) key =
      (case map_of cs key of None \<Rightarrow> None
       | Some (crc, count, t) \<Rightarrow> if now - t < T then Some (crc, count, t) else None)"
    if "distinct (map fst cs)" for cs :: "('a frame_key \<times> int \<times> int \<times> real) list" and T
    using that
    by (induction cs) (auto split: option.splits prod.splits simp: map_of_eq_None_iff rev_image_eqI)
  from this [OF D] show ?thesis by (simp add: ra_expire_def Let_def)
qed

lemma ra_remove_shrinks:
  assumes "ra_inv r"
  shows "length (ra_pending (ra_remove k r)) \<le> length (ra_pending r)"
    and "ra_declared_bytes (ra_remove k r) \<le> ra_declared_bytes r"
proof -
  have "0 \<le> pt_frame_bytes p" if "map_of (ra_pending r) k = Some p" for p
    using ra_inv_partial_ok [OF assms map_of_SomeD [OF that]] by (simp add: partial_ok_def)
  then show "length (ra_pending (ra_remove k r)) \<le> length (ra_pending r)"
    and "ra_declared_bytes (ra_remove k r) \<le> ra_declared_bytes r"
    by (auto simp: ra_remove_def split: option.splits)
qed

lemma ra_removes_shrink:
  "ra_inv r \<Longrightarrow> length (ra_pending (fold ra_remove ks r)) \<le> length (ra_pending r) \<and>
     ra_declared_bytes (fold ra_remove ks r) \<le> ra_declared_bytes r"
proof (induction ks arbitrary: r)
  case (Cons k ks)
  from Cons.IH [OF ra_remove_inv [OF Cons.prems, of k]] ra_remove_shrinks [OF Cons.prems, of k]
  show ?case by simp
qed simp

lemma ra_expire_shrinks:
  assumes "ra_inv r"
  shows "length (ra_pending (ra_expire now r)) \<le> length (ra_pending r)"
    and "ra_declared_bytes (ra_expire now r) \<le> ra_declared_bytes r"
  using ra_removes_shrink [OF assms] by (simp_all add: ra_expire_def Let_def)

lemma ra_expire_fields [simp]:
  "ra_timeout (ra_expire now r) = ra_timeout r"
  "ra_max_pending_frames (ra_expire now r) = ra_max_pending_frames r"
  "ra_max_pending_bytes (ra_expire now r) = ra_max_pending_bytes r"
  by (simp_all add: ra_expire_def Let_def)

definition delivering ::
    "bytes \<Rightarrow> nat \<Rightarrow> nat \<Rightarrow> real \<Rightarrow> 'p frame_key \<Rightarrow> nat set \<Rightarrow> 'p reassembler \<Rightarrow> bool" where
  "delivering frame d n t0 key S r \<longleftrightarrow> ra_inv r \<and>
     (if S = {..<n}
      then map_of (ra_pending r) key = None \<and>
           (\<exists>t \<ge> t0. map_of (ra_completed r) key = Some (crc32 frame, int n, t))
      else map_of (ra_completed r) key = None \<and>
           (if S = {}
            then map_of (ra_pending r) key = None \<and>
                 int (length (ra_pending r)) < ra_max_pending_frames r \<and>
                 ra_declared_bytes r + int (length frame) \<le> ra_max_pending_bytes r
            else \<exists>p. map_of (ra_pending r) key = Some p \<and> arrived frame d n S t0 p))"

lemma delivering_expire:
  assumes "delivering frame d n t0 key S r" and "now < t0 + ra_timeout r"
  shows "delivering frame d n t0 key S (ra_expire now r)"
proof -
  have inv: "ra_inv r" using assms(1) by (simp add: delivering_def)
  note E = ra_expire_pending [OF inv] ra_expire_completed [OF inv] ra_expire_shrinks [OF inv, of now]
  consider (all) "S = {..<n}" | (none) "S \<noteq> {..<n}" "S = {}" | (some) "S \<noteq> {..<n}" "S \<noteq> {}" by blast
  then show ?thesis
  proof cases
    case all
    with assms show ?thesis by (auto simp: delivering_def E(1,2) ra_expire_inv inv)
  next
    case none
    with assms E(3,4) show ?thesis by (auto simp: delivering_def E(1,2) ra_expire_inv inv)
  next
    case some
    with assms show ?thesis
      by (auto simp: delivering_def E(1,2) ra_expire_inv inv arrived_def)
  qed
qed

lemma arrived_add:
  assumes "arrived frame d n S t0 p" and "i < n" and "i \<notin> S"
  shows "arrived frame d n (insert i S) t0
    (p\<lparr>pt_pieces := AList.update (int i) (int (i * d), slice (i * d) (Suc i * d) frame) (pt_pieces p)\<rparr>)"
proof -
  have "map_of (AList.update (int i) (frame_piece frame d i) (pt_pieces p)) (int j) = Some (frame_piece frame d j)"
    if "j \<in> insert i S" for j
    using that assms(1) by (auto simp: arrived_def)
  then show ?thesis using assms(1)
    by (simp add: arrived_def fst_set_update distinct_update del: map_of_update_simp)
      (simp add: frame_piece_def)
qed

lemma arrived_full:
  assumes "arrived frame d n S t0 p" and "S \<subseteq> {..<n}"
  shows "length (pt_pieces p) = n \<longleftrightarrow> S = {..<n}"
proof -
  have "length (pt_pieces p) = card (fst ` set (pt_pieces p))"
    using assms(1) distinct_card [of "map fst (pt_pieces p)"] by (simp add: arrived_def)
  also have "\<dots> = card S" using assms(1) by (simp add: arrived_def card_image)
  finally show ?thesis using card_subset_eq [of "{..<n}" S] assms(2) by auto
qed

definition delivered :: "bytes \<Rightarrow> int \<Rightarrow> int \<Rightarrow> nat \<Rightarrow> nat set \<Rightarrow> nat \<Rightarrow> reassembled list" where
  "delivered frame s q n S i =
     (if S \<noteq> {..<n} \<and> insert i S = {..<n}
      then [\<lparr>rf_stream_id = s, rf_frame_sequence = q, rf_frame = frame\<rparr>] else [])"

lemma ra_complete_ok:
  assumes "join_frame f p = Inr frame"
  shows "snd (ra_complete key f p now r) =
      Inr [\<lparr>rf_stream_id = fg_stream_id f, rf_frame_sequence = fg_frame_sequence f, rf_frame = frame\<rparr>]"
    and "map_of (ra_completed (fst (ra_complete key f p now r))) key
      = Some (fg_frame_crc32 f, fg_fragment_count f, now)"
    and "map_of (ra_pending (fst (ra_complete key f p now r))) key = None"
  using assms ra_remove_gone [of key r] by (simp_all add: ra_complete_def Let_def)

lemma deliver_piece:
  assumes "0 < d" and "n = ceil_div (length frame) d" and "0 < length frame"
    and "ra_inv (fst (ra_piece key (frame_fragment frame s q d n i) p now r))"
    and "map_of (ra_pending r) key = Some p" and "map_of (ra_completed r) key = None"
    and "arrived frame d n S t0 p" and "S \<subseteq> {..<n}" and "S \<noteq> {..<n}" and "i < n" and "t0 \<le> now"
  shows "delivering frame d n t0 key (insert i S) (fst (ra_piece key (frame_fragment frame s q d n i) p now r))"
    and "snd (ra_piece key (frame_fragment frame s q d n i) p now r) = Inr (delivered frame s q n S i)"
proof -
  let ?f = "frame_fragment frame s q d n i"
  let ?p = "p\<lparr>pt_pieces := AList.update (int i) (int (i * d), slice (i * d) (Suc i * d) frame) (pt_pieces p)\<rparr>"
  let ?r = "r\<lparr>ra_pending := AList.update key ?p (ra_pending r)\<rparr>"
  have "delivering frame d n t0 key (insert i S) (fst (ra_piece key ?f p now r)) \<and>
    snd (ra_piece key ?f p now r) = Inr (delivered frame s q n S i)"
  proof (cases "i \<in> S")
    case True
    then have "map_of (pt_pieces p) (int i) = Some (frame_piece frame d i)"
      using assms(7) by (simp add: arrived_def)
    then have "ra_piece key ?f p now r = (duplicate r, Inr [])"
      by (simp add: ra_piece_def frame_fragment_def frame_piece_def)
    then show ?thesis using True assms(4-9)
      by (auto simp: delivering_def delivered_def insert_absorb duplicate_def)
  next
    case False
    have "map_of (pt_pieces p) (int i) = None"
      using False assms(7) by (auto simp: arrived_def map_of_eq_None_iff)
    then have eq: "ra_piece key ?f p now r =
        (if int (length (pt_pieces ?p)) \<noteq> int n then (?r, Inr []) else ra_complete key ?f ?p now ?r)"
      by (simp add: ra_piece_def frame_fragment_def Let_def)
    have A: "arrived frame d n (insert i S) t0 ?p" by (rule arrived_add [OF assms(7,10) False])
    note F = arrived_full [OF A]
    show ?thesis
    proof (cases "insert i S = {..<n}")
      case True
      have J: "join_frame ?f ?p = Inr frame" using join_arrived [OF assms(1-3)] A True by simp
      have eq2: "ra_piece key ?f p now r = ra_complete key ?f ?p now ?r"
        using F assms(8,10) True unfolding eq by (simp del: fun_upd_apply)
      note C = ra_complete_ok [OF J, of key now ?r]
      have "fg_frame_crc32 ?f = crc32 frame" "fg_fragment_count ?f = int n"
        "fg_stream_id ?f = s" "fg_frame_sequence ?f = q" by (simp_all add: frame_fragment_def)
      with C show ?thesis using assms(4,9,11) True
        unfolding eq2 delivering_def delivered_def by simp
    next
      case new: False
      then have "length (pt_pieces ?p) \<noteq> n" using F assms(8,10) by auto
      then show ?thesis using assms(4,6) new A
        by (auto simp: eq delivering_def delivered_def)
    qed
  qed
  then show "delivering frame d n t0 key (insert i S) (fst (ra_piece key ?f p now r))"
    and "snd (ra_piece key ?f p now r) = Inr (delivered frame s q n S i)" by simp_all
qed

lemma deliver_accept:
  assumes "0 < d" and "n = ceil_div (length frame) d" and "0 < length frame"
    and "unpack_fragment dg = Inr (frame_fragment frame s q d n i)"
    and "delivering frame d n t0 key S r" and "S \<subseteq> {..<n}" and "i < n" and "t0 \<le> now"
  shows "delivering frame d n t0 key (insert i S) (fst (ra_accept key (frame_fragment frame s q d n i) now r))"
    and "snd (ra_accept key (frame_fragment frame s q d n i) now r) = Inr (delivered frame s q n S i)"
proof -
  let ?f = "frame_fragment frame s q d n i"
  have inv: "ra_inv r" using assms(5) by (simp add: delivering_def)
  have inv2: "ra_inv (fst (ra_accept key ?f now r))" by (rule ra_accept_inv [OF inv assms(4)])
  have fields: "fg_frame_crc32 ?f = crc32 frame" "fg_fragment_count ?f = int n"
    "fg_frame_bytes ?f = int (length frame)" by (simp_all add: frame_fragment_def)
  consider (all) "S = {..<n}" | (none) "S \<noteq> {..<n}" "S = {}" | (some) "S \<noteq> {..<n}" "S \<noteq> {}" by blast
  then have "delivering frame d n t0 key (insert i S) (fst (ra_accept key ?f now r)) \<and>
    snd (ra_accept key ?f now r) = Inr (delivered frame s q n S i)"
  proof cases
    case all
    then obtain t where "map_of (ra_completed r) key = Some (crc32 frame, int n, t)"
      using assms(5) by (auto simp: delivering_def)
    then have "ra_accept key ?f now r = (duplicate r, Inr [])" by (simp add: ra_accept_def fields)
    then show ?thesis using all assms(5,7)
      by (auto simp: delivering_def delivered_def insert_absorb duplicate_def ra_inv_def)
  next
    case none
    let ?p = "\<lparr>pt_frame_bytes = int (length frame), pt_crc = crc32 frame, pt_count = int n,
      pt_first_seen = now, pt_pieces = []\<rparr>"
    let ?r = "r\<lparr>ra_pending := AList.update key ?p (ra_pending r),
      ra_declared_bytes := ra_declared_bytes r + int (length frame)\<rparr>"
    have D: "map_of (ra_completed r) key = None" "map_of (ra_pending r) key = None"
      "int (length (ra_pending r)) < ra_max_pending_frames r"
      "ra_declared_bytes r + int (length frame) \<le> ra_max_pending_bytes r"
      using assms(5) none by (simp_all add: delivering_def split: if_splits)
    then have eq: "ra_accept key ?f now r = ra_piece key ?f ?p now ?r"
      by (simp add: ra_accept_def fields Let_def)
    have "arrived frame d n S t0 ?p" using none assms(8) by (simp add: arrived_def)
    then show ?thesis unfolding eq
      using deliver_piece [OF assms(1-3), of key s q i ?p now ?r S t0] inv2 D assms(6-8) none
      by (simp add: eq)
  next
    case some
    then obtain p where P: "map_of (ra_pending r) key = Some p" "arrived frame d n S t0 p"
      "map_of (ra_completed r) key = None"
      using assms(5) by (auto simp: delivering_def split: if_splits)
    then have eq: "ra_accept key ?f now r = ra_piece key ?f p now r"
      by (simp add: ra_accept_def fields arrived_def)
    show ?thesis unfolding eq
      using deliver_piece [OF assms(1-3), of key s q i p now r S t0] inv2 P assms(6-8) some
      by (simp add: eq)
  qed
  then show "delivering frame d n t0 key (insert i S) (fst (ra_accept key ?f now r))"
    and "snd (ra_accept key ?f now r) = Inr (delivered frame s q n S i)" by simp_all
qed

lemma ra_complete_timeout [simp]: "ra_timeout (fst (ra_complete key f p now r)) = ra_timeout r"
  by (simp add: ra_complete_def Let_def reject_def split: sum.splits exn.splits)

lemma ra_piece_timeout [simp]: "ra_timeout (fst (ra_piece key f p now r)) = ra_timeout r"
  by (simp add: ra_piece_def Let_def reject_def duplicate_def split: option.splits)

lemma ra_accept_timeout [simp]: "ra_timeout (fst (ra_accept key f now r)) = ra_timeout r"
  by (simp add: ra_accept_def Let_def reject_def duplicate_def split: option.splits)

lemma ra_feed_timeout [simp]: "ra_timeout (fst (ra_feed r i)) = ra_timeout r"
  by (cases i) (simp add: ra_feed_def Let_def split: sum.splits)

lemma deliver_feed:
  assumes "0 < d" and "n = ceil_div (length frame) d" and "0 < length frame"
    and "unpack_fragment dg = Inr (frame_fragment frame s q d n i)"
    and "delivering frame d n t0 (peer, s, q) S r" and "S \<subseteq> {..<n}" and "i < n"
    and "t0 \<le> now" and "now < t0 + ra_timeout r"
  shows "delivering frame d n t0 (peer, s, q) (insert i S) (fst (ra_feed r (dg, peer, now)))"
    and "snd (ra_feed r (dg, peer, now)) = Inr (delivered frame s q n S i)"
proof -
  have "delivering frame d n t0 (peer, s, q) S (ra_expire now r)"
    by (rule delivering_expire [OF assms(5,9)])
  note A = deliver_accept [OF assms(1-4) this assms(6-8)]
  have "fg_stream_id (frame_fragment frame s q d n i) = s"
    "fg_frame_sequence (frame_fragment frame s q d n i) = q" by (simp_all add: frame_fragment_def)
  then show "delivering frame d n t0 (peer, s, q) (insert i S) (fst (ra_feed r (dg, peer, now)))"
    and "snd (ra_feed r (dg, peer, now)) = Inr (delivered frame s q n S i)"
    using A assms(4) by (simp_all add: ra_feed_def Let_def)
qed

lemma deliver_run:
  assumes "0 < d" and "n = ceil_div (length frame) d" and "0 < length frame"
    and "\<forall>i < n. unpack_fragment (dg i) = Inr (frame_fragment frame s q d n i)"
  shows "delivering frame d n t0 (peer, s, q) S r \<Longrightarrow> S \<subseteq> {..<n} \<Longrightarrow>
    \<forall>(i, t) \<in> set arrivals. i < n \<and> t0 \<le> t \<and> t < t0 + ra_timeout r \<Longrightarrow>
    \<exists>r1 outs. run ra_feed r (map (\<lambda>(i, t). (dg i, peer, t)) arrivals) = (r1, map Inr outs) \<and>
      delivering frame d n t0 (peer, s, q) (S \<union> fst ` set arrivals) r1 \<and>
      concat outs = (if S \<noteq> {..<n} \<and> S \<union> fst ` set arrivals = {..<n}
        then [\<lparr>rf_stream_id = s, rf_frame_sequence = q, rf_frame = frame\<rparr>] else [])"
proof (induction arrivals arbitrary: r S)
  case Nil
  then show ?case by (auto intro: exI [of _ "[]"])
next
  case (Cons a arrivals)
  obtain i t where a: "a = (i, t)" by (cases a)
  from Cons.prems(3) a have i: "i < n" and t: "t0 \<le> t" "t < t0 + ra_timeout r" by auto
  let ?r = "fst (ra_feed r (dg i, peer, t))"
  note F = deliver_feed [OF assms(1-3) assms(4)[rule_format, OF i] Cons.prems(1,2) i t]
  have sub: "insert i S \<subseteq> {..<n}" using Cons.prems(2) i by simp
  have "\<forall>(i, t) \<in> set arrivals. i < n \<and> t0 \<le> t \<and> t < t0 + ra_timeout ?r" using Cons.prems(3) by auto
  from Cons.IH [OF F(1) sub this] obtain r1 outs where
    R: "run ra_feed ?r (map (\<lambda>(i, t). (dg i, peer, t)) arrivals) = (r1, map Inr outs)"
    and D: "delivering frame d n t0 (peer, s, q) (insert i S \<union> fst ` set arrivals) r1"
    and C: "concat outs = (if insert i S \<noteq> {..<n} \<and> insert i S \<union> fst ` set arrivals = {..<n}
        then [\<lparr>rf_stream_id = s, rf_frame_sequence = q, rf_frame = frame\<rparr>] else [])" by blast
  have arr: "fst ` set arrivals \<subseteq> {..<n}" using Cons.prems(3) by auto
  have "concat (delivered frame s q n S i # outs) =
      (if S \<noteq> {..<n} \<and> insert i S \<union> fst ` set arrivals = {..<n}
        then [\<lparr>rf_stream_id = s, rf_frame_sequence = q, rf_frame = frame\<rparr>] else [])"
  proof (cases "insert i S = {..<n}")
    case True
    have "insert i S \<union> fst ` set arrivals = {..<n}" using True arr by (simp only: Un_absorb2)
    then show ?thesis using C True by (simp add: delivered_def)
  next
    case False
    then have "S \<noteq> {..<n}" using i by (metis insert_absorb lessThan_iff)
    then show ?thesis using C False by (simp add: delivered_def)
  qed
  moreover have "run ra_feed r (map (\<lambda>(i, t). (dg i, peer, t)) (a # arrivals))
      = (r1, map Inr (delivered frame s q n S i # outs))"
    using R by (cases "ra_feed r (dg i, peer, t)") (use F(2) in \<open>simp add: a\<close>)
  moreover have "insert i S \<union> fst ` set arrivals = S \<union> fst ` set (a # arrivals)" by (simp add: a)
  ultimately show ?case using D by (intro exI [of _ r1] exI [of _ "delivered frame s q n S i # outs"]) simp
qed

lemma fragment_ip_frame_Inr:
  assumes "fragment_ip_frame frame s q mtu = Inr dgs"
  obtains d where "0 < d" and "d \<le> 65455" and "0 < length frame" and "length frame \<le> 16777216"
    and "length dgs = ceil_div (length frame) d" and "length dgs \<le> 65536"
    and "\<forall>i < length dgs. fragment_pack (frame_fragment frame s q d (length dgs) i) = Inr (dgs ! i)"
proof -
  let ?d = "nat (mtu - 52)"
  let ?n = "ceil_div (length frame) ?d"
  from assms have c: "checks
       [(\<not> (1 \<le> int (length frame) \<and> int (length frame) \<le> MAX_IP_FRAME_BYTES),
         pe ''direct-IP frame size is outside the supported range''),
        (\<not> (IP_FRAGMENT_HEADER_BYTES < mtu \<and> mtu \<le> MAX_UDP_DATAGRAM_BYTES),
         pe ''direct-IP datagram limit is outside the UDP range'')] = Inr ()"
    unfolding fragment_ip_frame_def Let_def by (rule bindE_InrE) simp
  then have g: "1 \<le> int (length frame)" "int (length frame) \<le> 16777216" "52 < mtu" "mtu \<le> 65507"
    by (simp_all add: checks_ok_iff)
  have n: "int ?n \<le> 65536"
    and m: "mapE (\<lambda>i. fragment_pack (frame_fragment frame s q ?d ?n i)) [0..<?n] = Inr dgs"
    using assms unfolding fragment_ip_frame_def c Let_def by (simp_all split: if_splits)
  have len: "length dgs = ?n" using mapE_length [OF m] by simp
  have p: "\<forall>i < length dgs. fragment_pack (frame_fragment frame s q ?d (length dgs) i) = Inr (dgs ! i)"
    using m len by (simp add: mapE_Inr_iff list_all2_conv_all_nth)
  have "0 < ?d" "?d \<le> 65455" "0 < length frame" "length frame \<le> 16777216" "length dgs \<le> 65536"
    using g n len by linarith+
  then show thesis using that [of ?d] len p by blast
qed

lemma fragment_ip_frame_unpack:
  assumes "fragment_ip_frame frame s q mtu = Inr dgs"
  obtains d where "0 < d" and "0 < length frame" and "length dgs = ceil_div (length frame) d"
    and "\<forall>i < length dgs. unpack_fragment (dgs ! i) = Inr (frame_fragment frame s q d (length dgs) i)"
proof -
  obtain d where d: "0 < d" "d \<le> 65455" "0 < length frame" "length frame \<le> 16777216"
    "length dgs = ceil_div (length frame) d" "length dgs \<le> 65536"
    and p: "\<forall>i < length dgs. fragment_pack (frame_fragment frame s q d (length dgs) i) = Inr (dgs ! i)"
    by (rule fragment_ip_frame_Inr [OF assms])
  have "length (fg_payload (frame_fragment frame s q d m i)) \<le> 65455" for m i
    using d(2) by (simp add: frame_fragment_def)
  then have "\<forall>i < length dgs. unpack_fragment (dgs ! i) = Inr (frame_fragment frame s q d (length dgs) i)"
    using p fragment_dec_enc by blast
  then show thesis using that d by blast
qed

lemma fragment_ip_frame_count_pos:
  "fragment_ip_frame frame s q mtu = Inr dgs \<Longrightarrow> 0 < length dgs"
  by (rule fragment_ip_frame_Inr, assumption) (metis ceil_div_bounds(1))

end
