(* ===== verification/Direct_Radio.thy ===== *)
theory Direct_Radio
  imports Usb_Parser Ip_Delivery
begin

text \<open>
  The properties of the direct-radio transport: the codecs of \<open>direct_radio/usb.py\<close> and
  \<open>direct_radio/ip.py\<close>, the incremental frame parser, and the fragment reassembler.
\<close>

section \<open>Any chunking of a stream\<close>

lemma rx_loop_extend_error:
  "rx_loop p frames = (p1, Inl e) \<Longrightarrow> \<exists>p2. rx_loop (staged p ext) frames = (p2, Inl e)"
proof (induction p frames rule: rx_loop.induct)
  case (1 p frames)
  show ?case
  proof (cases "rx_peek (rp_buffer p)")
    case NeedMore
    with "1.prems" show ?thesis by (simp add: rx_loop.simps [of p])
  next
    case (Fail x)
    then have "rx_peek (rp_buffer p @ ext) = Fail x"
      using rx_peek_append [of "rp_buffer p" ext] by simp
    moreover have "x = e" using "1.prems" Fail by (simp add: rx_loop.simps [of p])
    ultimately show ?thesis by (subst rx_loop.simps) (simp add: staged_def)
  next
    case (Frame m h t)
    then have peek: "rx_peek (rp_buffer p @ ext) = Frame m h t"
      using rx_peek_append [of "rp_buffer p" ext] by simp
    have t: "h \<le> t" "t \<le> length (rp_buffer p)" using rx_peek_Frame [OF Frame] by simp_all
    obtain p2 r where vs: "rx_validate_sequence m p = (p2, r)" by fastforce
    then have vs2: "rx_validate_sequence m (staged p ext) = (p2\<lparr>rp_buffer := rp_buffer p @ ext\<rparr>, r)"
      by (simp add: staged_def rx_validate_sequence_more)
    show ?thesis
    proof (cases r)
      case (Inl x)
      then show ?thesis using "1.prems" Frame vs vs2 peek
        by (simp add: rx_loop.simps [of p] rx_loop.simps [of "staged p ext"]) (simp add: staged_def)
    next
      case (Inr u)
      let ?f = "\<lparr>df_metadata = m, df_iq_payload = slice h t (rp_buffer p)\<rparr>"
      let ?p3 = "p2\<lparr>rp_buffer := drop t (rp_buffer p)\<rparr>"
      from "1.prems" Frame vs Inr have "rx_loop ?p3 (frames @ [?f]) = (p1, Inl e)"
        by (simp add: rx_loop.simps [of p])
      then obtain p4 where "rx_loop (staged ?p3 ext) (frames @ [?f]) = (p4, Inl e)"
        using "1.IH" [OF Frame vs [symmetric, simplified Inr]] by blast
      then show ?thesis using t peek vs2 Inr
        by (subst rx_loop.simps) (simp add: staged_def slice_append_left)
    qed
  qed
qed

lemma rx_feed_prefix:
  assumes "rx_feed p (a @ b) = (p2, Inr fs)"
  shows "\<exists>p1 gs. rx_feed p a = (p1, Inr gs)"
proof (cases "rx_loop (staged p a) []")
  case (Pair p1 r)
  show ?thesis
  proof (cases r)
    case (Inl e)
    then obtain p3 where "rx_loop (staged (staged p a) b) [] = (p3, Inl e)"
      using rx_loop_extend_error Pair by blast
    then have "rx_loop (staged p (a @ b)) [] = (p3, Inl e)" by (simp add: staged_def)
    moreover have "rx_loop (staged p (a @ b)) [] = (p2, Inr fs)"
      using assms by (simp add: rx_feed_Inr)
    ultimately show ?thesis by simp
  next
    case (Inr gs)
    then show ?thesis using Pair by (auto simp: rx_feed_Inr)
  qed
qed

lemma rx_feed_chunks:
  "rx_feed p (concat chunks) = (p2, Inr fs) \<Longrightarrow> rx_feed p [] = (p, Inr []) \<Longrightarrow>
     \<exists>outs. run rx_feed p chunks = (p2, map Inr outs) \<and> concat outs = fs"
proof (induction chunks arbitrary: p fs)
  case (Cons c cs)
  obtain p1 gs where c: "rx_feed p c = (p1, Inr gs)"
    using rx_feed_prefix [of p c "concat cs"] Cons.prems(1) by auto
  have idle: "rx_feed p1 [] = (p1, Inr [])"
  proof -
    have "rx_feed p (c @ []) = (p1, Inr gs)" using c by simp
    then show ?thesis using rx_feed_append [OF c, of "[]"] by (auto split: prod.splits sum.splits)
  qed
  obtain hs where h: "rx_feed p1 (concat cs) = (p2, Inr hs)" and fs: "fs = gs @ hs"
    using Cons.prems(1) rx_feed_append [OF c, of "concat cs"] by (auto split: prod.splits sum.splits)
  obtain outs where "run rx_feed p1 cs = (p2, map Inr outs)" "concat outs = hs"
    using Cons.IH [OF h idle] by blast
  then show ?case using c fs by (intro exI [of _ "gs # outs"]) simp
qed simp

lemma rx_feed_idle: "rx_feed (rx_init a) [] = (rx_init a, Inr [])"
  by (simp add: rx_feed_def rx_init_def rx_loop.simps rx_peek_def)

section \<open>Concrete records\<close>

text \<open>A smallest valid frame and control message, for the instances of the properties.\<close>

definition sample_observation :: gain_observation where
  "sample_observation = \<lparr>ob_sample_sequence_before = 0, ob_sample_sequence_after = 0,
     ob_read_duration_ns = 0, ob_flags = 0, ob_rx1_gain_index = 255, ob_rx2_gain_index = 255,
     ob_rx1_gain_db = -128, ob_rx2_gain_db = -128\<rparr>"

definition sample_metadata :: metadata where
  "sample_metadata = \<lparr>md_features = 0xF7, md_flags = 2 ^ 4 + 2 ^ 19 + 2 ^ 21, md_stream_id = 1,
     md_buffer_sequence = 0, md_first_sample_sequence = 0, md_samples_per_channel = 1,
     md_iq_payload_bytes = 8, md_enabled_scan_mask = 0x0F,
     md_sample_format = CS16_LE_TIME_INTERLEAVED, md_channel_count = 2, md_rx1_gain_db_start = 0,
     md_rx2_gain_db_start = 0, md_rx1_gain_db_end = 0, md_rx2_gain_db_end = 0,
     md_gain_start_read_duration_ns = 0, md_gain_end_read_duration_ns = 0,
     md_rx1_first_change_sample = 0, md_rx2_first_change_sample = 0, md_rx1_rssi_start_qdb = 0,
     md_rx2_rssi_start_qdb = 0, md_rx1_rssi_end_qdb = 0, md_rx2_rssi_end_qdb = 0,
     md_rssi_start_read_duration_ns = 0, md_rssi_end_read_duration_ns = 0,
     md_gain_observation_interval_samples = 1, md_gain_observation_capacity = 1,
     md_gain_event_capacity = 0, md_gain_observation_overflow_count = 0,
     md_gain_event_overflow_count = 0, md_gain_observations = [sample_observation],
     md_gain_events = []\<rparr>"

definition sample_frame :: direct_frame where
  "sample_frame = \<lparr>df_metadata = sample_metadata, df_iq_payload = replicate 8 0\<rparr>"

lemma sample_observation_packs: "\<exists>b. observation_pack sample_observation = Inr b"
proof -
  have "observation_validate sample_observation = Inr ()"
    by (simp add: observation_validate_def sample_observation_def has_def in_uint_def Let_def)
  moreover have "list_all2 packable observation_fmt (observation_fields sample_observation)"
    by (simp add: observation_fmt_def observation_fields_def sample_observation_def)
  ultimately show ?thesis by (simp add: observation_pack_def pack_record_Inr)
qed

lemma sample_metadata_valid: "metadata_validate sample_metadata = Inr ()"
proof -
  have "observation_validate sample_observation = Inr ()"
    by (simp add: observation_validate_def sample_observation_def has_def in_uint_def Let_def)
  then have "observations_validate 0 1 (-1) [sample_observation] = Inr ()"
    by (simp add: sample_observation_def has_def checks_eval)
  then show ?thesis
    by (simp add: metadata_validate_def sample_metadata_def extra_def lacks_def has_def checks_eval)
qed

lemma sample_metadata_packs: "\<exists>h. metadata_pack sample_metadata = Inr h"
proof -
  obtain b where b: "observation_pack sample_observation = Inr b" using sample_observation_packs by blast
  have "list_all2 packable v3_prefix_fmt (metadata_prefix sample_metadata)"
    by (simp add: v3_prefix_fmt_def metadata_prefix_def sample_metadata_def header_bytes_def)
  moreover have "list_all2 packable v3_extension_fmt (metadata_extension sample_metadata)"
    by (simp add: v3_extension_fmt_def metadata_extension_def sample_metadata_def)
  moreover have "enc_records observation_pack (md_gain_observations sample_metadata) = Inr b"
    using b by (simp add: enc_records_def sample_metadata_def)
  moreover have "enc_records event_pack (md_gain_events sample_metadata) = Inr []"
    by (simp add: enc_records_def sample_metadata_def)
  ultimately show ?thesis using sample_metadata_valid by (simp add: metadata_pack_Inr)
qed

definition sample_control :: ip_control where
  "sample_control = make_ip_capability_query 1 True False"

text \<open>A one-byte frame always fragments into one datagram.\<close>

lemma tiny_frame_fragments: "\<exists>dg. fragment_ip_frame [7] 1 1 60 = Inr [dg]"
proof -
  have count: "ceil_div (length [7 :: byte]) (nat (60 - 52)) = 1" by (simp add: ceil_div_def)
  have "validate_fragment (frame_fragment [7] 1 1 8 1 0) = Inr ()"
    by (rule frame_fragment_valid) (simp_all add: ceil_div_def)
  moreover have "list_all2 packable fragment_fmt (fragment_fields (frame_fragment [7] 1 1 8 1 0))"
    using crc32_bounds [of "[7]"]
    by (simp add: fragment_fmt_def fragment_fields_def frame_fragment_def slice_def)
  ultimately have "\<exists>dg. fragment_pack (frame_fragment [7] 1 1 8 1 0) = Inr dg"
    by (simp add: fragment_pack_Inr)
  then show ?thesis using count by (auto simp: fragment_ip_frame_def checks_eval)
qed

section \<open>What a strict parser accepts\<close>

text \<open>The calls a client can make on one parser, and what each returns: the frames, or the exception.\<close>

datatype rx_call = RxFeed bytes | RxComplete bytes | RxFinish | RxReset

fun rx_answer :: "rx_parser \<Rightarrow> rx_call \<Rightarrow> rx_parser \<times> direct_frame list result" where
  "rx_answer p (RxFeed chunk) = rx_feed p chunk"
| "rx_answer p (RxComplete frame) =
     (case rx_parse_complete_frame p frame of (p1, r) \<Rightarrow> (p1, bindE r (\<lambda>f. Inr [f])))"
| "rx_answer p RxFinish = (case rx_finish p of (p1, r) \<Rightarrow> (p1, bindE r (\<lambda>_. Inr [])))"
| "rx_answer p RxReset = (rx_reset p, Inr [])"

text \<open>
  A call starts a new stream when it is \<open>reset\<close> or raises; only the refusal of a complete frame while
  bytes are staged leaves the stream as it was.
\<close>

abbreviation STAGED :: exn where
  "STAGED \<equiv> pe ''cannot parse a complete frame with staged bytes''"

fun restarts :: "rx_call \<Rightarrow> direct_frame list result \<Rightarrow> bool" where
  "restarts RxReset out \<longleftrightarrow> True"
| "restarts (RxComplete frame) (Inl e) \<longleftrightarrow> e \<noteq> STAGED"
| "restarts call (Inl e) \<longleftrightarrow> True"
| "restarts call (Inr fs) \<longleftrightarrow> False"

text \<open>The frames the calls returned, cut where a new stream starts.\<close>

fun streams :: "direct_frame list \<Rightarrow> (rx_call \<times> direct_frame list result) list \<Rightarrow> direct_frame list list" where
  "streams fs [] = [fs]"
| "streams fs ((call, out) # rest) =
     (if restarts call out then fs # streams [] rest
      else streams (fs @ (case out of Inl e \<Rightarrow> [] | Inr gs \<Rightarrow> gs)) rest)"

definition one_stream :: "direct_frame list \<Rightarrow> bool" where
  "one_stream fs \<longleftrightarrow> fs = [] \<or>
     contiguous (md_stream_id (df_metadata (hd fs))) 0 (md_first_sample_sequence (df_metadata (hd fs))) fs"

text \<open>The exceptions a frame can fail with, all of which reset the parser.\<close>

definition frame_error :: "exn \<Rightarrow> bool" where
  "frame_error e \<longleftrightarrow> (\<exists>msg. msg \<noteq> ''cannot parse a complete frame with staged bytes''
     \<and> (e = ProtocolError msg \<or> e = ValueError msg))"

lemma frame_error_pe: "msg \<noteq> ''cannot parse a complete frame with staged bytes'' \<Longrightarrow> frame_error (pe msg)"
  by (simp add: frame_error_def pe_def)

lemma raises_unpack_record:
  assumes "P size_error" and "\<And>vs. struct_unpack fmt bs = Inr vs \<Longrightarrow> raises P (checks (guards vs))"
    and "\<And>vs. struct_unpack fmt bs = Inr vs \<Longrightarrow> checks (guards vs) = Inr () \<Longrightarrow> raises P (bindE (build vs) validate)"
  shows "raises P (unpack_record size_error fmt guards build validate bs)"
proof (cases "length bs = struct_size fmt")
  case True
  then obtain vs where vs: "struct_unpack fmt bs = Inr vs" by (simp add: struct_unpack_def)
  show ?thesis
  proof (cases "checks (guards vs)")
    case (Inl e)
    then show ?thesis using assms(2) [OF vs] True vs by (simp add: unpack_record_def)
  next
    case (Inr u)
    then have "raises P (bindE (build vs) validate)" using assms(3) [OF vs] by simp
    then show ?thesis using True vs Inr
      by (cases "build vs"; cases "validate (projr (build vs))") (simp_all add: unpack_record_def)
  qed
qed (simp add: unpack_record_def assms(1))

lemma observation_unpack_raises: "raises frame_error (observation_unpack bs)"
  unfolding observation_unpack_def observation_validate_def Let_def
  by (intro raises_unpack_record raises_bindE raises_checks)
    (simp_all add: observation_guards_def frame_error_pe raises_def)

lemma event_unpack_raises: "raises frame_error (event_unpack bs)"
proof -
  have "raises frame_error (event_check (event_build vs))"
    if vs: "struct_unpack event_fmt bs = Inr vs" "checks (event_guards vs) = Inr ()" for vs
  proof -
    note D = struct_unpackD [OF vs(1) events.positive]
    have "event_fields (event_build vs) = vs" using events.values_build [OF vs(2) refl] D(1) by simp
    then have "list_all2 packable event_fmt (event_fields (event_build vs))" using D(3) by simp
    then have "event_check e = bindE (event_validate e) (\<lambda>_. Inr ())" if "e = event_build vs" for e
      using that by (simp add: event_check_def event_pack_def pack_record_def struct_pack_def bindE_def split: sum.splits)
    then show ?thesis
      unfolding event_validate_def by (auto intro!: raises_bindE raises_checks simp: frame_error_pe)
  qed
  then show ?thesis
    unfolding event_unpack_def
    by (intro raises_unpack_record raises_checks) (simp_all add: event_guards_def frame_error_pe)
qed

lemma events_validate_raises:
  "\<forall>e \<in> set es. event_check e = Inr () \<Longrightarrow> raises frame_error (events_validate first stop prior es)"
  by (induction es arbitrary: prior) (auto intro!: raises_bindE raises_checks simp: frame_error_pe)

lemma observations_validate_raises: "raises frame_error (observations_validate first stop prior gs)"
  by (induction gs arbitrary: prior)
    (auto intro!: raises_bindE raises_checks simp: frame_error_pe observation_validate_def Let_def)

lemma metadata_unpack_raises: "raises frame_error (metadata_unpack header)"
proof -
  have checked: "\<forall>e \<in> set es. event_check e = Inr ()" if "dec_records event_unpack 16 off n header = Inr es" for off n es
    using that by (auto simp: dec_records_def mapE_Inr_iff event_unpack_def unpack_record_Inr in_set_conv_nth list_all2_conv_all_nth)
  have "raises frame_error (metadata_validate m)" if "\<forall>e \<in> set (md_gain_events m). event_check e = Inr ()" for m
    unfolding metadata_validate_def Let_def using that
    by (auto intro!: raises_bindE raises_checks events_validate_raises observations_validate_raises simp: frame_error_pe)
  then have valid: "raises frame_error (bindE (metadata_validate m) (\<lambda>_. Inr m))"
    if "metadata_build p x obs evs = Inr m" "\<forall>e \<in> set evs. event_check e = Inr ()" for p x obs evs m
    using that by (intro raises_bindE) (auto simp: metadata_build_def split: if_splits)
  have built: "raises frame_error (metadata_build p x obs evs)" for p x obs evs
    by (auto simp: metadata_build_def frame_error_def pe_def)
  have dec: "raises frame_error (dec_records observation_unpack 32 off n header)"
    "raises frame_error (dec_records event_unpack 16 off n header)" for off n
    unfolding dec_records_def by (intro raises_mapE observation_unpack_raises event_unpack_raises)+
  show ?thesis
  proof (cases "length header < HEADER_PREFIX_BYTES_V3 + 4")
    case False
    then have "raises frame_error (struct_unpack_from v3_prefix_fmt header 0)"
      "raises frame_error (struct_unpack_from v3_extension_fmt header 92)"
      by (simp_all add: struct_unpack_from_def)
    then show ?thesis using False
      unfolding metadata_unpack_def Let_def
      by (simp only: if_False) (intro raises_bindE dec built valid checked raises_checks; simp add: frame_error_pe)
  qed (simp add: metadata_unpack_def frame_error_pe)
qed

text \<open>The parser after the frames \<open>fs\<close> of the stream it is in, none at its start.\<close>

definition on_track :: "rx_parser \<Rightarrow> direct_frame list \<Rightarrow> bool" where
  "on_track p fs \<longleftrightarrow> \<not> rp_allow_sequence_gaps p \<and> rp_dropped_frame_count p = 0 \<and> one_stream fs
     \<and> (if fs = [] then rp_stream_id p = None \<and> rp_buffer_sequence p = None \<and> rp_sample_sequence p = None
        else rp_stream_id p = Some (md_stream_id (df_metadata (hd fs)))
          \<and> rp_buffer_sequence p = Some (int (length fs) mod 2 ^ 64)
          \<and> rp_sample_sequence p = Some ((md_first_sample_sequence (df_metadata (last fs))
              + md_samples_per_channel (df_metadata (last fs))) mod 2 ^ 64))"

lemma contiguous_snoc:
  "contiguous s b n (fs @ [f]) \<longleftrightarrow> contiguous s b n fs \<and> md_stream_id (df_metadata f) = s
     \<and> (if fs = [] then md_buffer_sequence (df_metadata f) = b \<and> md_first_sample_sequence (df_metadata f) = n
        else md_buffer_sequence (df_metadata f) = (b + int (length fs)) mod 2 ^ 64
          \<and> md_first_sample_sequence (df_metadata f)
            = (md_first_sample_sequence (df_metadata (last fs)) + md_samples_per_channel (df_metadata (last fs))) mod 2 ^ 64)"
  by (induction fs arbitrary: b n) (auto simp: mod_simps ac_simps)

lemma on_track_next:
  assumes "rx_validate_sequence m p = (p1, Inr u)" and "on_track p fs" and m: "df_metadata f = m"
  shows "on_track p1 (fs @ [f])"
proof (cases "fs = []")
  case True
  then show ?thesis using assms
    by (auto simp: on_track_def one_stream_def rx_validate_sequence_def rx_check_stream_def rx_check_buffer_def
        rx_check_sample_def Let_def u64_mod split: if_splits)
next
  case False
  define b where "b = int (length fs) mod 2 ^ 64"
  define n where "n = (md_first_sample_sequence (df_metadata (last fs)) + md_samples_per_channel (df_metadata (last fs))) mod 2 ^ 64"
  have t: "tracking p (md_stream_id (df_metadata (hd fs))) b n"
    using assms(2) False by (simp add: on_track_def tracking_def b_def n_def)
  note V = assms(1) [unfolded rx_validate_strict [OF t]]
  have "(b + 1) mod 2 ^ 64 = int (length (fs @ [f])) mod 2 ^ 64" by (simp add: b_def mod_simps ac_simps)
  then show ?thesis using V assms(2) False m
    by (auto simp: on_track_def one_stream_def contiguous_snoc b_def n_def)
qed

lemma on_track_buffer [simp]: "on_track (p\<lparr>rp_buffer := b\<rparr>) fs = on_track p fs"
  by (simp add: on_track_def)

lemma rx_validate_fails:
  "rx_validate_sequence m p = (p1, Inl e) \<Longrightarrow> on_track p fs \<Longrightarrow>
     frame_error e \<and> \<not> rp_allow_sequence_gaps p1 \<and> rp_dropped_frame_count p1 = 0"
  by (auto simp: on_track_def rx_validate_sequence_def rx_check_stream_def rx_check_buffer_def rx_check_sample_def
      Let_def frame_error_pe split: option.splits if_splits)

lemma on_track_reset: "\<not> rp_allow_sequence_gaps p \<Longrightarrow> rp_dropped_frame_count p = 0 \<Longrightarrow> on_track (rx_reset p) []"
  by (simp add: on_track_def rx_reset_def one_stream_def)

lemma rx_failed_resets:
  "frame_error e \<Longrightarrow> rx_failed p e = (rx_reset p, snd (rx_failed p e)) \<and> snd (rx_failed p e) \<noteq> STAGED"
  by (auto simp: frame_error_def pe_def)

lemma rx_loop_on_track:
  "rx_loop p frames = (p1, r) \<Longrightarrow> on_track p (fs @ frames) \<Longrightarrow>
     (case r of Inr gs \<Rightarrow> on_track p1 (fs @ gs)
      | Inl e \<Rightarrow> frame_error e \<and> \<not> rp_allow_sequence_gaps p1 \<and> rp_dropped_frame_count p1 = 0)"
proof (induction p frames rule: rx_loop.induct)
  case (1 p frames)
  show ?case
  proof (cases "rx_peek (rp_buffer p)")
    case NeedMore
    with "1.prems" show ?thesis by (auto simp: rx_loop.simps [of p])
  next
    case (Fail e)
    have "frame_error e"
      using Fail metadata_unpack_raises
      by (auto simp: rx_peek_def Let_def frame_error_pe raises_def split: if_splits sum.splits)
    with Fail "1.prems" show ?thesis by (auto simp: rx_loop.simps [of p] on_track_def)
  next
    case (Frame m h t)
    obtain p2 v where vs: "rx_validate_sequence m p = (p2, v)" by fastforce
    show ?thesis
    proof (cases v)
      case (Inl e)
      then show ?thesis using Frame vs "1.prems" rx_validate_fails [OF vs [unfolded Inl]]
        by (auto simp: rx_loop.simps [of p])
    next
      case (Inr u)
      let ?f = "\<lparr>df_metadata = m, df_iq_payload = slice h t (rp_buffer p)\<rparr>"
      have "rx_loop (p2\<lparr>rp_buffer := drop t (rp_buffer p)\<rparr>) (frames @ [?f]) = (p1, r)"
        using "1.prems"(1) rx_loop_Frame [OF Frame vs [unfolded Inr]] by simp
      moreover have "on_track p2 ((fs @ frames) @ [?f])"
        by (rule on_track_next [OF vs [unfolded Inr] "1.prems"(2)]) simp
      ultimately show ?thesis
        using "1.IH" [OF Frame vs [symmetric, simplified Inr]] by simp
    qed
  qed
qed

text \<open>After a call the parser is on track again, in the stream it was in or in a new one.\<close>

definition after_call :: "direct_frame list \<Rightarrow> rx_call \<Rightarrow> direct_frame list result \<Rightarrow> direct_frame list" where
  "after_call fs call out =
     (if restarts call out then [] else fs @ (case out of Inl e \<Rightarrow> [] | Inr gs \<Rightarrow> gs))"

lemma rx_feed_on_track:
  assumes "on_track p fs" and "rx_feed p chunk = (p1, out)"
  shows "on_track p1 (after_call fs (RxFeed chunk) out)"
proof -
  obtain p2 r where L: "rx_loop (p\<lparr>rp_buffer := rp_buffer p @ chunk\<rparr>) [] = (p2, r)" by fastforce
  note T = rx_loop_on_track [OF L, of fs]
  show ?thesis
  proof (cases r)
    case (Inl e)
    then have "frame_error e" "on_track (rx_reset p2) []" using T assms(1) by (simp_all add: on_track_reset)
    then show ?thesis using assms(2) L Inl rx_failed_resets [of e p2]
      by (auto simp: rx_feed_def after_call_def split: prod.splits)
  next
    case (Inr gs)
    then show ?thesis using assms L T by (auto simp: rx_feed_def after_call_def)
  qed
qed

lemma rx_complete_on_track:
  assumes "on_track p fs" and "rx_answer p (RxComplete frame) = (p1, out)"
  shows "on_track p1 (after_call fs (RxComplete frame) out)"
proof (cases "rp_buffer p = []")
  case True
  obtain p2 r where B: "rx_complete_body p frame = (p2, r)" by fastforce
  show ?thesis
  proof (cases r)
    case (Inl e)
    have "frame_error e \<and> \<not> rp_allow_sequence_gaps p2 \<and> rp_dropped_frame_count p2 = 0"
      using B Inl assms(1) metadata_unpack_raises rx_validate_fails [OF _ assms(1)]
      by (auto simp: rx_complete_body_def Let_def frame_error_pe raises_def on_track_def
          split: if_splits sum.splits prod.splits)
    then show ?thesis using assms(2) True B Inl rx_failed_resets [of e p2] on_track_reset [of p2]
      by (auto simp: rx_parse_complete_frame_def after_call_def split: prod.splits)
  next
    case (Inr f)
    then obtain u where "rx_validate_sequence (df_metadata f) p = (p2, Inr u)"
      using B by (auto simp: rx_complete_body_def Let_def split: if_splits sum.splits prod.splits)
    then have "on_track p2 (fs @ [f])" using assms(1) by (rule on_track_next) simp
    then show ?thesis using assms(2) True B Inr by (auto simp: rx_parse_complete_frame_def after_call_def)
  qed
qed (use assms in \<open>auto simp: rx_parse_complete_frame_def after_call_def\<close>)

lemma rx_answer_on_track:
  assumes "on_track p fs" and "rx_answer p call = (p1, out)"
  shows "on_track p1 (after_call fs call out)"
proof (cases call)
  case (RxFeed chunk)
  then show ?thesis using assms rx_feed_on_track by simp
next
  case (RxComplete frame)
  then show ?thesis using assms rx_complete_on_track by blast
next
  case RxFinish
  then show ?thesis using assms on_track_reset [of p]
    by (auto simp: rx_finish_def after_call_def on_track_def split: if_splits)
next
  case RxReset
  then show ?thesis using assms on_track_reset [of p] by (auto simp: after_call_def on_track_def)
qed

lemma on_track_stream: "on_track p fs \<Longrightarrow> one_stream fs"
  by (simp add: on_track_def)

lemma streams_on_track:
  "run rx_answer p calls = (p1, outs) \<Longrightarrow> on_track p fs \<Longrightarrow> \<forall>gs \<in> set (streams fs (zip calls outs)). one_stream gs"
proof (induction calls arbitrary: p fs outs)
  case (Cons call calls)
  obtain p2 out where c: "rx_answer p call = (p2, out)" by fastforce
  then obtain rest where r: "run rx_answer p2 calls = (p1, rest)" and outs: "outs = out # rest"
    using Cons.prems(1) by (auto split: prod.splits)
  show ?case
    using Cons.IH [OF r rx_answer_on_track [OF Cons.prems(2) c]] on_track_stream [OF Cons.prems(2)]
    by (simp add: outs after_call_def)
qed (simp add: on_track_stream)

lemma strict_run:
  "run rx_answer p calls = (p1, outs) \<Longrightarrow> on_track p fs \<Longrightarrow>
     rp_dropped_frame_count p1 = 0 \<and> \<not> rp_allow_sequence_gaps p1"
proof (induction calls arbitrary: p fs outs)
  case (Cons call calls)
  obtain p2 out where c: "rx_answer p call = (p2, out)" by fastforce
  then obtain rest where "run rx_answer p2 calls = (p1, rest)" using Cons.prems(1) by (auto split: prod.splits)
  then show ?case using Cons.IH rx_answer_on_track [OF Cons.prems(2) c] by blast
qed (simp add: on_track_def)

lemma on_track_init: "on_track (rx_init False) []"
  by (simp add: on_track_def rx_init_def one_stream_def)

section \<open>Properties\<close>

text \<open>
  C1: the incremental parser is lossless and independent of the transport's chunking: the encoding of
  any contiguous sequence of frames, cut into arbitrary chunks, is parsed back into exactly those
  frames in order, no chunk raises, and no byte stays buffered.
\<close>

theorem rx_parser_delivers_every_chunking:
  assumes "enc_records encode_frame frames = Inr (concat chunks)" and "contiguous s 0 n frames"
  shows "\<exists>p outs. run rx_feed (rx_init False) chunks = (p, map Inr outs) \<and> concat outs = frames \<and>
    rp_buffer p = []"
proof -
  obtain p where "rx_feed (rx_init False) (concat chunks) = (p, Inr frames)" and "rp_buffer p = []"
    using rx_feed_encoded [OF assms] by blast
  then show ?thesis using rx_feed_chunks [OF _ rx_feed_idle] by blast
qed

theorem rx_parser_delivers_every_chunking_witness:
  "\<exists>bs p outs. enc_records encode_frame [sample_frame] = Inr bs \<and>
     run rx_feed (rx_init False) [take 5 bs, [], drop 5 bs] = (p, map Inr outs) \<and>
     concat outs = [sample_frame]"
proof -
  obtain h where "metadata_pack sample_metadata = Inr h" using sample_metadata_packs by blast
  then obtain bs where bs: "enc_records encode_frame [sample_frame] = Inr bs"
    by (simp add: enc_records_def encode_frame_def sample_frame_def) (simp add: sample_metadata_def)
  then have "enc_records encode_frame [sample_frame] = Inr (concat [take 5 bs, [], drop 5 bs])" by simp
  moreover have "contiguous 1 0 0 [sample_frame]" by (simp add: sample_frame_def sample_metadata_def)
  ultimately show ?thesis using bs rx_parser_delivers_every_chunking by blast
qed

text \<open>
  C24: what a strict parser accepts is contiguous streams, whatever bytes arrive: make any calls of
  \<open>feed\<close>, \<open>parse_complete_frame\<close>, \<open>finish\<close> and \<open>reset\<close> on a new parser, let any of them raise, and cut the
  returned frames wherever the parser was reset. Each piece starts at buffer sequence 0, keeps one
  stream identifier, and has consecutive buffer and sample sequence numbers modulo \<open>2 ^ 64\<close>, across
  all the calls that contributed to it. The parser counts no dropped frame and never allows a gap.
\<close>

theorem rx_parser_accepts_only_contiguous:
  assumes "run rx_answer (rx_init False) calls = (p, outs)"
  shows "(\<forall>fs \<in> set (streams [] (zip calls outs)). one_stream fs)
    \<and> rp_dropped_frame_count p = 0 \<and> \<not> rp_allow_sequence_gaps p"
  using streams_on_track [OF assms on_track_init] strict_run [OF assms on_track_init] by blast

text \<open>
  The instance: two frames of one stream in one chunk, then garbage, then the first frame again in a
  new stream.
\<close>

definition second_metadata :: metadata where
  "second_metadata = sample_metadata\<lparr>md_buffer_sequence := 1, md_first_sample_sequence := 1\<rparr>"

definition second_frame :: direct_frame where
  "second_frame = \<lparr>df_metadata = second_metadata, df_iq_payload = replicate 8 0\<rparr>"

lemma second_metadata_packs: "\<exists>h. metadata_pack second_metadata = Inr h"
proof -
  obtain b where b: "observation_pack sample_observation = Inr b" using sample_observation_packs by blast
  have "observation_validate sample_observation = Inr ()"
    by (simp add: observation_validate_def sample_observation_def has_def in_uint_def Let_def)
  then have "observations_validate 1 2 (-1) [sample_observation] = Inr ()"
    by (simp add: sample_observation_def has_def checks_eval)
  then have "metadata_validate second_metadata = Inr ()"
    by (simp add: metadata_validate_def second_metadata_def sample_metadata_def extra_def lacks_def has_def checks_eval)
  moreover have "list_all2 packable v3_prefix_fmt (metadata_prefix second_metadata)"
    by (simp add: v3_prefix_fmt_def metadata_prefix_def second_metadata_def sample_metadata_def header_bytes_def)
  moreover have "list_all2 packable v3_extension_fmt (metadata_extension second_metadata)"
    by (simp add: v3_extension_fmt_def metadata_extension_def second_metadata_def sample_metadata_def)
  moreover have "enc_records observation_pack (md_gain_observations second_metadata) = Inr b"
    using b by (simp add: enc_records_def second_metadata_def sample_metadata_def)
  moreover have "enc_records event_pack (md_gain_events second_metadata) = Inr []"
    by (simp add: enc_records_def second_metadata_def sample_metadata_def)
  ultimately show ?thesis by (simp add: metadata_pack_Inr)
qed

lemma rx_feed_garbage:
  assumes "\<not> rp_allow_sequence_gaps p" "rp_dropped_frame_count p = 0" "rp_buffer p = []"
  shows "\<exists>e. rx_feed p (replicate 128 0) = (rx_init False, Inl e)"
proof -
  have "rx_peek (replicate 128 0) = Fail (pe ''bad protocol v3 frame identity or header size'')"
    by (simp add: rx_peek_def slice_def Let_def) (simp add: eval_nat_numeral)
  then show ?thesis using assms
    by (simp add: rx_feed_def rx_loop.simps [of "p\<lparr>rp_buffer := _\<rparr>"] pe_def rx_reset_def rx_init_def)
qed

theorem rx_parser_accepts_only_contiguous_witness:
  "\<exists>bs1 bs2 p outs.
     run rx_answer (rx_init False) [RxFeed (bs1 @ bs2), RxFeed (replicate 128 0), RxFeed bs1] = (p, outs) \<and>
     streams [] (zip [RxFeed (bs1 @ bs2), RxFeed (replicate 128 0), RxFeed bs1] outs)
       = [[sample_frame, second_frame], [sample_frame]] \<and>
     one_stream [sample_frame, second_frame] \<and> one_stream [sample_frame]"
proof -
  obtain h h2 where "metadata_pack sample_metadata = Inr h" "metadata_pack second_metadata = Inr h2"
    using sample_metadata_packs second_metadata_packs by blast
  then have enc: "enc_records encode_frame [sample_frame] = Inr (h @ replicate 8 0)"
    "enc_records encode_frame [sample_frame, second_frame] = Inr ((h @ replicate 8 0) @ (h2 @ replicate 8 0))"
    by (simp_all add: enc_records_def encode_frame_def sample_frame_def second_frame_def)
      (simp_all add: sample_metadata_def second_metadata_def)
  define bs1 bs2 where "bs1 = h @ replicate 8 0" and "bs2 = h2 @ replicate 8 0"
  have "contiguous 1 0 0 [sample_frame, second_frame]" "contiguous 1 0 0 [sample_frame]"
    by (simp_all add: sample_frame_def sample_metadata_def second_frame_def second_metadata_def)
  then obtain p1 p3 where c1: "rx_feed (rx_init False) (bs1 @ bs2) = (p1, Inr [sample_frame, second_frame])" "rp_buffer p1 = []"
    and c3: "rx_feed (rx_init False) bs1 = (p3, Inr [sample_frame])"
    using rx_feed_encoded enc unfolding bs1_def bs2_def by metis
  have "on_track p1 [sample_frame, second_frame]"
    using rx_feed_on_track [OF on_track_init c1(1)] by (simp add: after_call_def)
  then obtain e where c2: "rx_feed p1 (replicate 128 0) = (rx_init False, Inl e)"
    using rx_feed_garbage c1(2) by (auto simp: on_track_def)
  let ?calls = "[RxFeed (bs1 @ bs2), RxFeed (replicate 128 0), RxFeed bs1]"
  let ?outs = "[Inr [sample_frame, second_frame], Inl e, Inr [sample_frame]]"
  have r: "run rx_answer (rx_init False) ?calls = (p3, ?outs)" using c1 c2 c3 by simp
  have "streams [] (zip ?calls ?outs) = [[sample_frame, second_frame], [sample_frame]]" by simp
  then show ?thesis using r rx_parser_accepts_only_contiguous [OF r] by (metis list.set_intros)
qed

text \<open>
  C3: the version 3 metadata header round-trips in both directions: \<open>unpack\<close> undoes \<open>pack\<close>, every
  header \<open>unpack\<close> accepts is the one \<open>pack\<close> emits (so the encoding is canonical, CRC and zero
  padding included), and its length is \<open>header_bytes\<close>.
\<close>

theorem metadata_codec_bijective:
  "metadata_pack m = Inr bs \<longleftrightarrow> metadata_unpack bs = Inr m \<and> int (length bs) = header_bytes m"
  using metadata_dec_enc metadata_enc_dec by blast

text \<open>
  a direct-IP control message that passes validation always packs into exactly 80 bytes, and
  unpacking them gives the message back.
\<close>

theorem control_message_round_trip:
  assumes "validate_control True m = Inr ()"
  shows "\<exists>bs. control_pack m = Inr bs \<and> length bs = 80 \<and> control_unpack bs = Inr m"
proof -
  have P: "control_pack m = Inr (struct_bytes control_fmt (control_fields m))"
    by (rule control_valid_packs [OF assms])
  then show ?thesis using control_dec_enc [OF P] pack_record_width [OF P [unfolded control_pack_def]]
    by simp
qed

text \<open>
  \<open>counter_delta\<close> of a time anchor is the distance of its two 32-bit counter readings modulo
  \<open>2 ^ 32\<close>, so it is right across a wrap of the counter, and the sealed anchor record round-trips.
\<close>

theorem time_anchor_wraps_and_round_trips:
  "counter_delta a = (ta_sample_counter_after a - ta_sample_counter_before a) mod 2 ^ 32 \<and>
   (time_anchor_pack a = Inr bs \<longleftrightarrow> time_anchor_unpack bs = Inr a)"
  using counter_delta_mod time_anchor_dec_enc time_anchor_enc_dec by blast

definition odd_observation :: gain_observation where
  "odd_observation = sample_observation\<lparr>ob_flags := 0x8000\<rparr>"

text \<open>
  The guard against unknown gain-observation flag bits never fires: on Python 3.11 and later
  \<open>~GainObservationFlags(0x03)\<close> is the empty flag, so an observation with any extra bit (here
  \<open>0x8000\<close>) is validated, packed and unpacked.
\<close>

lemma unknown_observation_flags_accepted:
  "extra (ob_flags odd_observation) 0x03 \<and>
   (\<exists>bs. observation_pack odd_observation = Inr bs \<and> observation_unpack bs = Inr odd_observation)"
proof -
  have "observation_validate odd_observation = Inr ()"
    by (simp add: observation_validate_def odd_observation_def sample_observation_def has_def
        in_uint_def Let_def)
  moreover have "list_all2 packable observation_fmt (observation_fields odd_observation)"
    by (simp add: observation_fmt_def observation_fields_def odd_observation_def sample_observation_def)
  ultimately have P: "observation_pack odd_observation
      = Inr (struct_bytes observation_fmt (observation_fields odd_observation))"
    by (simp add: observation_pack_def pack_record_Inr)
  then have "observation_unpack (struct_bytes observation_fmt (observation_fields odd_observation))
      = Inr odd_observation"
    unfolding observation_pack_def observation_unpack_def by (rule obs.dec_enc)
  with P show ?thesis by (simp add: odd_observation_def sample_observation_def extra_def)
qed

theorem control_message_round_trip_witness:
  "\<exists>bs. control_pack sample_control = Inr bs \<and> length bs = 80 \<and> control_unpack bs = Inr sample_control"
  by (rule control_message_round_trip)
    (simp add: sample_control_def make_ip_capability_query_def control_default_def validate_control_def control_common_def
      control_numeric_def control_kind_guards_def control_query_guards_def QUERY_PROBE_FLAGS_def checks_ok_iff bindE_Inr_iff in_uint_def in_sint_def
      extra_def has_def Let_def)

text \<open>
  C22: the reassembler keeps its invariant over every sequence of datagrams, peers and clock readings:
  each key occurs once and is not both pending and completed, the declared-bytes counter is the
  sum of the pending frames, neither bound is ever exceeded, and every pending frame has
  distinct in-range pieces and still misses one.
\<close>

theorem reassembler_bounded:
  assumes "ra_init timeout max_frames max_bytes = Inr r"
  shows "let r1 = fst (run ra_feed r inputs) in
    distinct (map fst (ra_pending r1)) \<and>
    fst ` set (ra_pending r1) \<inter> fst ` set (ra_completed r1) = {} \<and>
    ra_declared_bytes r1 = declared (ra_pending r1) \<and>
    ra_declared_bytes r1 \<le> ra_max_pending_bytes r1 \<and>
    int (length (ra_pending r1)) \<le> ra_max_pending_frames r1 \<and>
    (\<forall>p \<in> snd ` set (ra_pending r1). partial_ok p)"
  using reassembly.inv_run [OF ra_init_inv [OF assms], of inputs] by (simp add: ra_inv_def Let_def)

theorem reassembler_bounded_witness:
  "let r1 = fst (run ra_feed \<lparr>ra_timeout = 2, ra_max_pending_frames = 8, ra_max_pending_bytes = 100,
      ra_pending = [], ra_completed = [], ra_declared_bytes = 0, ra_completed_count = 0,
      ra_expired_count = 0, ra_rejected_count = 0, ra_duplicate_count = 0\<rparr> [([1, 2], (), 0)]) in
    ra_declared_bytes r1 \<le> ra_max_pending_bytes r1"
  using reassembler_bounded [of 2 8 100 "\<lparr>ra_timeout = 2, ra_max_pending_frames = 8, ra_max_pending_bytes = 100,
      ra_pending = [], ra_completed = [], ra_declared_bytes = 0, ra_completed_count = 0,
      ra_expired_count = 0, ra_rejected_count = 0, ra_duplicate_count = 0\<rparr>" "[([1, 2], (), 0)]"]
  by (simp add: ra_init_def Let_def)

text \<open>
  C25: after any history, \<open>feed\<close> raises nothing but \<open>ProtocolError\<close>: the lookups of the join never
  raise \<open>KeyError\<close> and no malformed datagram reaches \<open>struct\<close> unchecked.
\<close>

theorem reassembler_raises_only_protocol_errors:
  assumes "ra_init timeout max_frames max_bytes = Inr r"
    and "snd (ra_feed (fst (run ra_feed r inputs)) input) = Inl e"
  shows "\<exists>msg. e = ProtocolError msg"
  using ra_feed_error [OF reassembly.inv_run [OF ra_init_inv [OF assms(1)]] assms(2)]
  by (simp add: protocol_error_def)

theorem reassembler_raises_only_protocol_errors_witness:
  "\<exists>r e. ra_init 2 8 100 = Inr r \<and> snd (ra_feed r ([1, 2], (), 0)) = Inl e \<and>
     (\<exists>msg. e = ProtocolError msg)"
proof -
  obtain r :: "unit reassembler" where r: "ra_init 2 8 100 = Inr r" by (simp add: ra_init_def)
  have e: "snd (ra_feed (fst (run ra_feed r [])) ([1, 2], (), 0))
      = Inl (pe ''direct-IP datagram size is outside the supported range'')"
    by (simp add: ra_feed_def unpack_fragment_def Let_def)
  from reassembler_raises_only_protocol_errors [OF r e] r e show ?thesis by auto
qed

text \<open>
  C23: integrity: when \<open>feed\<close> returns frames it returns exactly one, it belongs to the stream and
  sequence number of the datagram just received, and its length and CRC-32 are the declared ones.
\<close>

theorem reassembler_returns_checked_frames:
  assumes "ra_feed r (d, peer, now) = (r1, Inr fs)" and "fs \<noteq> []"
  shows "\<exists>f rf. unpack_fragment d = Inr f \<and> fs = [rf] \<and> rf_stream_id rf = fg_stream_id f \<and>
    rf_frame_sequence rf = fg_frame_sequence f \<and> int (length (rf_frame rf)) = fg_frame_bytes f \<and>
    crc32 (rf_frame rf) = fg_frame_crc32 f"
  using ra_feed_frames [OF assms] by (auto simp: frame_of_def)

theorem reassembler_returns_checked_frames_witness:
  "\<exists>dg r r1 rf. ra_init 2 8 100 = Inr r \<and> ra_feed r (dg, (), 0) = (r1, Inr [rf]) \<and>
     crc32 (rf_frame rf) = crc32 [7]"
proof -
  obtain dg where dg: "fragment_ip_frame [7] 1 1 60 = Inr [dg]" using tiny_frame_fragments by blast
  obtain r :: "unit reassembler" where r: "ra_init 2 8 100 = Inr r" by (simp add: ra_init_def)
  obtain d where d: "0 < d" "length [dg] = ceil_div (length [7 :: byte]) d"
    and u: "\<forall>i < length [dg]. unpack_fragment ([dg] ! i) = Inr (frame_fragment [7] 1 1 d (length [dg]) i)"
    by (rule fragment_ip_frame_unpack [OF dg])
  have "delivering [7] d 1 0 ((), 1, 1) {} r"
    using ra_init_inv [OF r] r by (auto simp: delivering_def ra_init_def)
  then have F: "snd (ra_feed r (dg, (), 0)) = Inr (delivered [7] 1 1 1 {} 0)"
    using deliver_feed(2) [of d 1 "[7]" dg 1 1 0 0 "()" "{}" r 0] d u r
    by (auto simp: ra_init_def)
  then obtain r1 rf where E: "ra_feed r (dg, (), 0) = (r1, Inr [rf])"
    by (cases "ra_feed r (dg, (), 0)") (auto simp: delivered_def lessThan_Suc)
  from reassembler_returns_checked_frames [OF E] u have "crc32 (rf_frame rf) = crc32 [7]"
    by (auto simp: frame_fragment_def)
  then show ?thesis using r E by blast
qed

text \<open>
  C2: order independence: the datagrams of one fragmented frame, arriving in any order and with any
  repetitions within the timeout of the first one, deliver that frame exactly once and raise
  nothing, whatever other frames the reassembler already holds, as long as it has room.
\<close>

theorem fragments_deliver_in_any_order:
  assumes "fragment_ip_frame frame s q mtu = Inr dgs"
    and "ra_inv r" and "map_of (ra_pending r) (peer, s, q) = None"
    and "map_of (ra_completed r) (peer, s, q) = None"
    and "int (length (ra_pending r)) < ra_max_pending_frames r"
    and "ra_declared_bytes r + int (length frame) \<le> ra_max_pending_bytes r"
    and "fst ` set arrivals = {..<length dgs}"
    and "\<forall>(i, t) \<in> set arrivals. t0 \<le> t \<and> t < t0 + ra_timeout r"
  shows "\<exists>r1 outs. run ra_feed r (map (\<lambda>(i, t). (dgs ! i, peer, t)) arrivals) = (r1, map Inr outs) \<and>
    concat outs = [\<lparr>rf_stream_id = s, rf_frame_sequence = q, rf_frame = frame\<rparr>] \<and>
    map_of (ra_pending r1) (peer, s, q) = None"
proof -
  obtain d where d: "0 < d" "0 < length frame" "length dgs = ceil_div (length frame) d"
    and u: "\<forall>i < length dgs. unpack_fragment (dgs ! i) = Inr (frame_fragment frame s q d (length dgs) i)"
    by (rule fragment_ip_frame_unpack [OF assms(1)])
  have n: "0 < length dgs" by (rule fragment_ip_frame_count_pos [OF assms(1)])
  then have ne: "{} \<noteq> {..<length dgs}" by (metis lessThan_iff empty_iff)
  then have D: "delivering frame d (length dgs) t0 (peer, s, q) {} r"
    using assms(2-6) by (simp add: delivering_def)
  have A: "\<forall>(i, t) \<in> set arrivals. i < length dgs \<and> t0 \<le> t \<and> t < t0 + ra_timeout r"
  proof (clarsimp)
    fix i t assume "(i, t) \<in> set arrivals"
    then have "i \<in> fst ` set arrivals" by force
    then show "i < length dgs \<and> t0 \<le> t \<and> t < t0 + ra_timeout r"
      using assms(7,8) \<open>(i, t) \<in> set arrivals\<close> by auto
  qed
  obtain r1 outs where "run ra_feed r (map (\<lambda>(i, t). (dgs ! i, peer, t)) arrivals) = (r1, map Inr outs)"
    and "delivering frame d (length dgs) t0 (peer, s, q) ({} \<union> fst ` set arrivals) r1"
    and "concat outs = (if {} \<noteq> {..<length dgs} \<and> {} \<union> fst ` set arrivals = {..<length dgs}
        then [\<lparr>rf_stream_id = s, rf_frame_sequence = q, rf_frame = frame\<rparr>] else [])"
    using deliver_run [OF d(1,3,2) u D empty_subsetI A] by blast
  then show ?thesis using ne assms(7) by (auto simp: delivering_def)
qed

theorem fragments_deliver_in_any_order_witness:
  "\<exists>dg r r1 outs. ra_init 2 8 100 = Inr r \<and>
     run ra_feed r (map (\<lambda>(i, t). ([dg] ! i, (), t)) [(0, 1), (0, 2)]) = (r1, map Inr outs) \<and>
     concat outs = [\<lparr>rf_stream_id = 1, rf_frame_sequence = 1, rf_frame = [7]\<rparr>]"
proof -
  obtain dg where dg: "fragment_ip_frame [7] 1 1 60 = Inr [dg]" using tiny_frame_fragments by blast
  obtain r :: "unit reassembler" where r: "ra_init 2 8 100 = Inr r" by (simp add: ra_init_def)
  have "fst ` set [(0 :: nat, 1 :: real), (0, 2)] = {..<length [dg]}" by auto
  moreover have "\<forall>(i, t) \<in> set [(0 :: nat, 1 :: real), (0, 2)]. 1 \<le> t \<and> t < 1 + ra_timeout r"
    using r by (auto simp: ra_init_def)
  ultimately show ?thesis
    using fragments_deliver_in_any_order [OF dg ra_init_inv [OF r], of "()" "[(0, 1), (0, 2)]" 1] r
    by (fastforce simp: ra_init_def)
qed

end
