(* ===== verification/Restamp.thy ===== *)
theory Restamp
  imports Codec
begin

text \<open>
  Later protocol versions reuse an earlier record by patching its header in a \<open>bytearray\<close> with
  \<open>struct.pack_into\<close>. This theory gives the byte-level facts about such patches and the contract
  \<open>restamped\<close>: a codec whose header fields are replaced on the way out, and checked and put back
  on the way in, is again a codec.
\<close>

section \<open>Patches\<close>

type_synonym patch = "nat \<times> bytes"

text \<open>\<open>struct.pack_into\<close> at several offsets, and the test that a buffer holds the patched values.\<close>

fun stamp :: "patch list \<Rightarrow> bytes \<Rightarrow> bytes" where
  "stamp [] bs = bs"
| "stamp ((off, new) # ps) bs = stamp ps (overwrite off new bs)"

definition holds :: "patch list \<Rightarrow> bytes \<Rightarrow> bool" where
  "holds ps bs \<longleftrightarrow> (\<forall>(off, new) \<in> set ps. slice off (off + length new) bs = new)"

fun inside_patch :: "patch \<Rightarrow> nat \<Rightarrow> bool" where
  "inside_patch (off, new) i \<longleftrightarrow> off \<le> i \<and> i < off + length new"

definition fit_in :: "patch list \<Rightarrow> nat \<Rightarrow> bool" where
  "fit_in ps n \<longleftrightarrow> (\<forall>(off, new) \<in> set ps. off + length new \<le> n)"

fun apart :: "patch list \<Rightarrow> bool" where
  "apart [] \<longleftrightarrow> True"
| "apart ((off, new) # ps) \<longleftrightarrow>
     (\<forall>(o2, n2) \<in> set ps. off + length new \<le> o2 \<or> o2 + length n2 \<le> off) \<and> apart ps"

definition same_shape :: "patch list \<Rightarrow> patch list \<Rightarrow> bool" where
  "same_shape ps qs \<longleftrightarrow> map (\<lambda>p. (fst p, length (snd p))) ps = map (\<lambda>p. (fst p, length (snd p))) qs"

lemma length_overwrite [simp]: "off + length new \<le> length bs \<Longrightarrow> length (overwrite off new bs) = length bs"
  by (simp add: overwrite_def)

lemma nth_overwrite:
  assumes "off + length new \<le> length bs" and "i < length bs"
  shows "overwrite off new bs ! i = (if off \<le> i \<and> i < off + length new then new ! (i - off) else bs ! i)"
proof (cases "off \<le> i")
  case True
  then have "i = off + (i - off)" by simp
  then show ?thesis using True assms
    by (auto simp: overwrite_def nth_append min_def not_less)
qed (use assms in \<open>simp add: overwrite_def nth_append\<close>)

lemma fit_in_Cons [simp]: "fit_in ((off, new) # ps) n \<longleftrightarrow> off + length new \<le> n \<and> fit_in ps n"
  by (simp add: fit_in_def)

lemma fit_in_mono: "fit_in ps n \<Longrightarrow> n \<le> m \<Longrightarrow> fit_in ps m"
  by (force simp: fit_in_def)

lemma length_stamp [simp]: "fit_in ps (length bs) \<Longrightarrow> length (stamp ps bs) = length bs"
  by (induction ps bs rule: stamp.induct) auto

lemma stamp_outside:
  "fit_in ps (length bs) \<Longrightarrow> i < length bs \<Longrightarrow> \<forall>p \<in> set ps. \<not> inside_patch p i \<Longrightarrow> stamp ps bs ! i = bs ! i"
  by (induction ps bs rule: stamp.induct) (auto simp: nth_overwrite)

lemma stamp_inside:
  "fit_in ps (length bs) \<Longrightarrow> apart ps \<Longrightarrow> (off, new) \<in> set ps \<Longrightarrow> i < length new \<Longrightarrow>
     stamp ps bs ! (off + i) = new ! i"
proof (induction ps bs rule: stamp.induct)
  case (2 o2 n2 ps bs)
  have len: "length (overwrite o2 n2 bs) = length bs" using "2.prems"(1) by simp
  show ?case
  proof (cases "(off, new) \<in> set ps")
    case True
    then show ?thesis using "2.IH" "2.prems" len by simp
  next
    case False
    then have eq: "o2 = off" "n2 = new" using "2.prems"(3) by auto
    have "\<forall>p \<in> set ps. \<not> inside_patch p (off + i)"
      using "2.prems"(2,4) by (fastforce simp: eq)
    then have "stamp ps (overwrite off new bs) ! (off + i) = overwrite off new bs ! (off + i)"
      using "2.prems"(1,4) by (intro stamp_outside) (auto simp: eq)
    then show ?thesis using "2.prems"(1,4) by (simp add: eq nth_overwrite)
  qed
qed simp

lemma stamp_holds: "fit_in ps (length bs) \<Longrightarrow> apart ps \<Longrightarrow> holds ps (stamp ps bs)"
  unfolding holds_def
proof (intro ballI, clarify)
  fix off new assume w: "fit_in ps (length bs)" "apart ps" "(off, new) \<in> set ps"
  then have "off + length new \<le> length bs" by (force simp: fit_in_def)
  then show "slice off (off + length new) (stamp ps bs) = new"
    using w by (intro nth_equalityI) (simp_all add: slice_def stamp_inside)
qed

lemma holds_nth:
  "holds ps bs \<Longrightarrow> (off, new) \<in> set ps \<Longrightarrow> i < length new \<Longrightarrow> off + length new \<le> length bs \<Longrightarrow> bs ! (off + i) = new ! i"
proof -
  assume "holds ps bs" and m: "(off, new) \<in> set ps" and i: "i < length new" and w: "off + length new \<le> length bs"
  then have "slice off (off + length new) bs = new" by (auto simp: holds_def)
  then have "slice off (off + length new) bs ! i = new ! i" by simp
  then show ?thesis using i w by (simp add: slice_def)
qed

lemma stamp_id:
  "holds ps bs \<Longrightarrow> fit_in ps (length bs) \<Longrightarrow> stamp ps bs = bs"
proof (induction ps bs rule: stamp.induct)
  case (2 off new ps bs)
  have "overwrite off new bs = bs"
  proof (rule nth_equalityI)
    fix i assume i: "i < length (overwrite off new bs)"
    show "overwrite off new bs ! i = bs ! i"
    proof (cases "off \<le> i \<and> i < off + length new")
      case True
      then have "bs ! (off + (i - off)) = new ! (i - off)"
        using "2.prems" by (intro holds_nth [OF "2.prems"(1)]) auto
      then show ?thesis using True i "2.prems"(2) by (simp add: nth_overwrite)
    qed (use i "2.prems"(2) in \<open>auto simp: nth_overwrite\<close>)
  qed (use "2.prems"(2) in simp)
  then show ?case using 2 by (simp add: holds_def)
qed simp

text \<open>Putting the old values back after patching, and the other way round.\<close>

lemma same_shape_inside:
  "same_shape ps qs \<Longrightarrow> (\<exists>p \<in> set ps. inside_patch p i) \<longleftrightarrow> (\<exists>q \<in> set qs. inside_patch q i)"
  unfolding same_shape_def
proof (induction ps arbitrary: qs)
  case (Cons p ps)
  then obtain q qs1 where "qs = q # qs1" "fst q = fst p" "length (snd q) = length (snd p)"
    "map (\<lambda>p. (fst p, length (snd p))) ps = map (\<lambda>p. (fst p, length (snd p))) qs1" by (cases qs) auto
  then show ?case using Cons.IH [of qs1] by (cases p; cases q) auto
qed simp

lemma same_shape_fit_in: "same_shape ps qs \<Longrightarrow> fit_in ps n \<longleftrightarrow> fit_in qs n"
  unfolding same_shape_def
proof (induction ps arbitrary: qs)
  case (Cons p ps)
  then obtain q qs1 where "qs = q # qs1" "fst q = fst p" "length (snd q) = length (snd p)"
    "map (\<lambda>p. (fst p, length (snd p))) ps = map (\<lambda>p. (fst p, length (snd p))) qs1" by (cases qs) auto
  then show ?case using Cons.IH [of qs1] by (cases p; cases q) auto
qed (simp add: fit_in_def)

lemma stamp_back:
  assumes "holds olds bs" and "same_shape olds news" and "fit_in olds (length bs)" and "apart olds"
  shows "stamp olds (stamp news bs) = bs"
proof (rule nth_equalityI)
  have w: "fit_in news (length bs)" using same_shape_fit_in [OF assms(2)] assms(3) by simp
  then show "length (stamp olds (stamp news bs)) = length bs" using assms(3) by simp
  fix i assume "i < length (stamp olds (stamp news bs))"
  then have i: "i < length bs" using w assms(3) by simp
  show "stamp olds (stamp news bs) ! i = bs ! i"
  proof (cases "\<exists>p \<in> set olds. inside_patch p i")
    case True
    then obtain off new where p: "(off, new) \<in> set olds" "off \<le> i" "i < off + length new" by force
    have "stamp olds (stamp news bs) ! (off + (i - off)) = new ! (i - off)"
      using p assms(3,4) w by (intro stamp_inside) auto
    moreover have "bs ! (off + (i - off)) = new ! (i - off)"
      using p assms(1,3) by (intro holds_nth [OF assms(1) p(1)]) (auto simp: fit_in_def)
    ultimately show ?thesis using p by simp
  next
    case False
    then have "\<forall>q \<in> set news. \<not> inside_patch q i" using same_shape_inside [OF assms(2)] by blast
    then show ?thesis using False i w assms(3) by (simp add: stamp_outside)
  qed
qed

section \<open>Restamped codecs\<close>

text \<open>
  \<open>olds\<close> are the header values the base codec writes and \<open>news\<close> those of the new version.
  The new encoder patches a packed base record; the new decoder accepts exactly buffers that hold
  the new values, restores the old ones and decodes.
\<close>

locale restamped = wire_codec +
  fixes olds news :: "patch list"
    and size :: nat
    and enc2 :: "'a \<Rightarrow> bytes result"
    and dec2 :: "bytes \<Rightarrow> 'a result"
  assumes shape: "same_shape olds news"
    and olds_apart: "apart olds"
    and news_apart: "apart news"
    and fits_size: "fit_in olds size"
    and base_holds: "enc x = Inr bs \<Longrightarrow> size \<le> length bs \<and> holds olds bs"
    and enc2_eq: "enc2 x = bindE (enc x) (\<lambda>bs. Inr (stamp news bs))"
    and dec2_eq: "dec2 bs = Inr x \<longleftrightarrow> size \<le> length bs \<and> holds news bs \<and> dec (stamp olds bs) = Inr x"
begin

lemma news_fit_in: "size \<le> length bs \<Longrightarrow> fit_in news (length bs) \<and> fit_in olds (length bs)"
  using shape fits_size same_shape_fit_in fit_in_mono by blast

lemma shape_sym: "same_shape news olds"
  using shape by (simp add: same_shape_def)

lemma restamped_dec_enc: "enc2 x = Inr cs \<Longrightarrow> dec2 cs = Inr x"
proof -
  assume "enc2 x = Inr cs"
  then obtain bs where bs: "enc x = Inr bs" and cs: "cs = stamp news bs" by (auto simp: enc2_eq)
  note H = base_holds [OF bs] and W = news_fit_in [of bs]
  have "stamp olds cs = bs" using H W shape olds_apart by (auto simp: cs intro: stamp_back)
  moreover have "holds news cs" "length cs = length bs" using H W news_apart by (auto simp: cs stamp_holds)
  ultimately show ?thesis using H dec_enc [OF bs] by (simp add: dec2_eq)
qed

lemma restamped_enc_dec: "dec2 cs = Inr x \<Longrightarrow> canon x \<Longrightarrow> enc2 x = Inr cs"
proof -
  assume "dec2 cs = Inr x" and c: "canon x"
  then have s: "size \<le> length cs" and h: "holds news cs" and d: "dec (stamp olds cs) = Inr x"
    by (auto simp: dec2_eq)
  have "stamp news (stamp olds cs) = cs"
    using s h news_fit_in [of cs] shape_sym news_apart by (auto intro: stamp_back)
  then show ?thesis using enc_dec [OF d c] by (simp add: enc2_eq)
qed

end

sublocale restamped \<subseteq> stamped: wire_codec enc2 dec2 canon
  by unfold_locales (auto intro: restamped_dec_enc restamped_enc_dec)

text \<open>What a length-checked comparison of a header field says about its bytes.\<close>

lemma le_field_eq:
  "length bs = k \<Longrightarrow> 0 \<le> n \<Longrightarrow> n < 256 ^ k \<Longrightarrow> le_value bs = n \<longleftrightarrow> bs = le_bytes k n"
  by (metis le_bytes_le_value le_value_le_bytes)

lemma le_bytes_small:
  "le_bytes 1 n = [word_of_int n]"
  "le_bytes 2 n = [word_of_int n, word_of_int (n div 256)]"
  "le_bytes 4 n = [word_of_int n, word_of_int (n div 256), word_of_int (n div 65536), word_of_int (n div 16777216)]"
  by (simp_all add: eval_nat_numeral zdiv_zmult2_eq [symmetric])

lemma slice_take: "b \<le> n \<Longrightarrow> slice a b (take n bs) = slice a b bs"
  by (simp add: slice_def drop_take)

lemma slice_rejoin: "a \<le> b \<Longrightarrow> take a xs @ slice a b xs @ drop b xs = xs"
proof -
  assume "a \<le> b"
  then have "slice a b xs @ drop b xs = drop a xs"
    unfolding slice_def by (metis append_take_drop_id drop_drop le_add_diff_inverse2)
  then show ?thesis by simp
qed

text \<open>Patches that start at or after \<open>n\<close> leave the first \<open>n\<close> bytes alone.\<close>

lemma take_stamp_low:
  assumes "fit_in ps (length bs)" and "\<forall>(off, new) \<in> set ps. n \<le> off" and "n \<le> length bs"
  shows "take n (stamp ps bs) = take n bs"
proof (rule nth_equalityI)
  fix i assume "i < length (take n (stamp ps bs))"
  then have i: "i < n" "i < length bs" using assms(1,3) by simp_all
  then have "\<forall>p \<in> set ps. \<not> inside_patch p i" using assms(2) by fastforce
  then show "take n (stamp ps bs) ! i = take n bs ! i" using i assms(1) by (simp add: stamp_outside)
qed (use assms in simp)

text \<open>A slice that no patch touches is unchanged.\<close>

lemma slice_stamp_apart:
  assumes "fit_in ps (length bs)" and "\<forall>(off, new) \<in> set ps. b \<le> off \<or> off + length new \<le> a"
  shows "slice a b (stamp ps bs) = slice a b bs"
proof (rule nth_equalityI)
  fix i assume "i < length (slice a b (stamp ps bs))"
  then have i: "i < b - a" "a + i < length bs" using assms(1) by (simp, simp add: less_diff_conv add.commute)
  then have "\<forall>p \<in> set ps. \<not> inside_patch p (a + i)" using assms(2) by fastforce
  then show "slice a b (stamp ps bs) ! i = slice a b bs ! i"
    using i assms(1) by (simp add: slice_def stamp_outside)
qed (use assms in simp)

section \<open>Decoders that compare with a fresh encoding\<close>

text \<open>
  Some decoders read the fields they need, build the record, and accept the buffer only when
  packing that record gives the same bytes back, which covers every constant and reserved field.
\<close>

definition unpack_reencoded ::
    "exn \<Rightarrow> exn \<Rightarrow> field list \<Rightarrow> (val list \<Rightarrow> (bool \<times> exn) list) \<Rightarrow> (val list \<Rightarrow> 'a result)
     \<Rightarrow> ('a \<Rightarrow> bytes result) \<Rightarrow> bytes \<Rightarrow> 'a result" where
  "unpack_reencoded size_error differs fmt guards build pack bs =
     (if length bs \<noteq> struct_size fmt then Inl size_error
      else bindE (struct_unpack fmt bs) (\<lambda>vs. bindE (checks (guards vs)) (\<lambda>_.
           bindE (build vs) (\<lambda>x. bindE (pack x) (\<lambda>again.
             if again \<noteq> bs then Inl differs else Inr x)))))"

locale reencoded =
  fixes size_error differs :: exn
    and fmt :: "field list"
    and fields :: "'a \<Rightarrow> val list"
    and guards :: "val list \<Rightarrow> (bool \<times> exn) list"
    and build :: "val list \<Rightarrow> 'a result"
    and validate :: "'a \<Rightarrow> unit result"
  assumes fields_fit: "validate x = Inr () \<Longrightarrow> list_all2 packable fmt (fields x) \<Longrightarrow> list_all2 fits fmt (fields x)"
    and guards_fields: "validate x = Inr () \<Longrightarrow> checks (guards (fields x)) = Inr ()"
    and build_fields: "validate x = Inr () \<Longrightarrow> build (fields x) = Inr x"
begin

lemma reencoded_dec_enc:
  assumes "pack_record validate fmt fields x = Inr bs"
  shows "unpack_reencoded size_error differs fmt guards build (pack_record validate fmt fields) bs = Inr x"
proof -
  from assms have v: "validate x = Inr ()" and p: "list_all2 packable fmt (fields x)"
    and bs: "struct_pack fmt (fields x) = Inr bs"
    by (auto simp: pack_record_Inr struct_pack_Inr)
  have "struct_unpack fmt bs = Inr (fields x)"
    using struct_unpack_pack [OF bs fields_fit [OF v p]] .
  moreover have "length bs = struct_size fmt" using assms by (rule pack_record_width)
  ultimately show ?thesis using assms guards_fields [OF v] build_fields [OF v]
    by (simp add: unpack_reencoded_def)
qed

lemma reencoded_enc_dec:
  "unpack_reencoded size_error differs fmt guards build (pack_record validate fmt fields) bs = Inr x \<Longrightarrow>
     pack_record validate fmt fields x = Inr bs"
  by (auto simp: unpack_reencoded_def bindE_Inr_iff split: if_splits)

end

sublocale reencoded \<subseteq> fixed_codec "pack_record validate fmt fields"
  "unpack_reencoded size_error differs fmt guards build (pack_record validate fmt fields)"
  "\<lambda>_. True" "struct_size fmt"
  by unfold_locales (auto intro: reencoded_dec_enc reencoded_enc_dec pack_record_width)

end
