(* ===== verification/Hop_Request.thy ===== *)
theory Hop_Request
  imports Codec
begin

text \<open>
  \<open>persistent_hop.py\<close>, the host's side of one hopping session: the eight tuning profiles, the frozen
  \<open>HOPR\<close> request that carries them, and the host-only plan that produces the request.
\<close>

section \<open>Profiles\<close>

abbreviation (input) "HOP_VERSION \<equiv> 1 :: int"
abbreviation (input) "HOP_REQUEST_BYTES \<equiv> 288 :: int"
abbreviation (input) "HOP_EVENT_BYTES \<equiv> 80 :: int"
abbreviation (input) "HOP_STATUS_BYTES \<equiv> 160 :: int"
abbreviation (input) "HOP_PROFILE_COUNT \<equiv> 8 :: int"
abbreviation (input) "HOP_REQUIRED_FEATURES \<equiv> 0x1F :: int"
abbreviation (input) "HOP_REQUIRED_FLAGS \<equiv> 0x03 :: int"
abbreviation (input) "HOP_NONE_PROFILE \<equiv> 0xFF :: int"
abbreviation (input) "HOPR_MAGIC \<equiv> 0x52504F48 :: int"

definition he :: "string \<Rightarrow> exn" where
  "he = HopProtocolError"

record hop_profile =
  hp_target_index :: int
  hp_fastlock_profile_index :: int
  hp_center_hz :: int
  hp_lo_hz :: int
  hp_profile_crc32 :: int

definition profile_validate :: "int \<Rightarrow> hop_profile \<Rightarrow> unit result" where
  "profile_validate if_offset_hz p = checks
     [(\<not> in_uint 8 (hp_target_index p), he ''profile target_index is outside uint8''),
      (\<not> in_uint 8 (hp_fastlock_profile_index p), he ''profile fastlock_profile_index is outside uint8''),
      (\<not> in_uint 64 (hp_center_hz p), he ''profile center_hz is outside uint64''),
      (\<not> in_uint 64 (hp_lo_hz p), he ''profile lo_hz is outside uint64''),
      (\<not> in_uint 32 (hp_profile_crc32 p), he ''profile profile_crc32 is outside uint32''),
      (hp_target_index p \<ge> HOP_PROFILE_COUNT, he ''persistent-hop target index is outside 0..7''),
      (hp_fastlock_profile_index p \<ge> HOP_PROFILE_COUNT, he ''Fast Lock profile is outside 0..7''),
      (hp_center_hz p = 0 \<or> hp_lo_hz p = 0 \<or> hp_profile_crc32 p = 0,
       he ''profile frequencies and CRC must be non-zero''),
      (hp_lo_hz p + if_offset_hz \<noteq> hp_center_hz p,
       he ''profile center_hz does not equal lo_hz + IF offset'')]"

definition profile_fmt :: "field list" where
  "profile_fmt = [FU 1, FU 1, FU 2, FU 8, FU 8, FU 4]"

definition profile_fields :: "hop_profile \<Rightarrow> val list" where
  "profile_fields p = map VInt
     [hp_target_index p, hp_fastlock_profile_index p, 0, hp_center_hz p, hp_lo_hz p, hp_profile_crc32 p]"

definition profile_pack :: "int \<Rightarrow> hop_profile \<Rightarrow> bytes result" where
  "profile_pack if_offset_hz = pack_record (profile_validate if_offset_hz) profile_fmt profile_fields"

text \<open>The loop of \<open>PersistentHopRequestV1.unpack\<close> unpacks 24 bytes at a time; \<open>_validate\<close> runs later.\<close>

definition profile_guards :: "val list \<Rightarrow> (bool \<times> exn) list" where
  "profile_guards vs = [(int_at vs 2 \<noteq> 0, he ''HOPR profile reserved field must be zero'')]"

definition profile_build :: "val list \<Rightarrow> hop_profile" where
  "profile_build vs = \<lparr>hp_target_index = int_at vs 0, hp_fastlock_profile_index = int_at vs 1,
     hp_center_hz = int_at vs 3, hp_lo_hz = int_at vs 4, hp_profile_crc32 = int_at vs 5\<rparr>"

definition profile_unpack :: "bytes \<Rightarrow> hop_profile result" where
  "profile_unpack = unpack_record StructError profile_fmt profile_guards
     (\<lambda>vs. Inr (profile_build vs)) (\<lambda>_. Inr ())"

lemma profile_size [simp]: "struct_size profile_fmt = 24"
  by (simp add: struct_size_def profile_fmt_def)

interpretation hop_profiles: record_layout StructError profile_fmt profile_fields profile_guards
  "\<lambda>vs. Inr (profile_build vs)" "profile_validate off" "\<lambda>_. Inr ()" "\<lambda>p. profile_validate off p = Inr ()"
  for off
proof unfold_locales
  show "list_all (\<lambda>f. 0 < field_size f) profile_fmt" by (simp add: profile_fmt_def)
  show "list_all2 packable profile_fmt (profile_fields p) \<Longrightarrow>
     list_all2 fits profile_fmt (profile_fields p)" for p
    by (simp add: profile_fmt_def profile_fields_def)
  show "checks (profile_guards (profile_fields p)) = Inr ()" for p
    by (simp add: profile_guards_def profile_fields_def val_access)
  show "Inr (profile_build (profile_fields p)) = Inr p" for p
    by (cases p) (simp add: profile_build_def profile_fields_def val_access)
  show "checks (profile_guards vs) = Inr () \<Longrightarrow> Inr (profile_build vs) = Inr p \<Longrightarrow>
     profile_fields p = shape_at profile_fmt vs 0" for vs p
    by (auto simp: profile_guards_def profile_build_def profile_fields_def
        profile_fmt_def simp del: One_nat_def)
qed simp_all

section \<open>Requests\<close>

record hop_request =
  hr_session_id :: int
  hr_sample_rate_hz :: int
  hr_rf_bandwidth_hz :: int
  hr_if_offset_hz :: int
  hr_dwell_samples :: int
  hr_transition_guard_samples :: int
  hr_dwell_count :: int
  hr_capture_span_samples :: int
  hr_profiles :: "hop_profile list"

fun validate_profiles :: "int \<Rightarrow> int \<Rightarrow> int list \<Rightarrow> hop_profile list \<Rightarrow> unit result" where
  "validate_profiles off index slots [] = Inr ()"
| "validate_profiles off index slots (p # ps) =
     (if hp_target_index p \<noteq> index then Inl (he ''profiles must be ordered CH1L..CH4U at 0..7'')
      else bindE (profile_validate off p) (\<lambda>_.
        if hp_fastlock_profile_index p \<in> set slots
        then Inl (he ''Fast Lock profile slots must be unique'')
        else validate_profiles off (index + 1) (hp_fastlock_profile_index p # slots) ps))"

definition request_validate :: "hop_request \<Rightarrow> unit result" where
  "request_validate r =
     bindE (checks
       [(\<not> in_uint 64 (hr_session_id r), he ''session_id is outside uint64''),
        (\<not> in_uint 64 (hr_sample_rate_hz r), he ''sample_rate_hz is outside uint64''),
        (\<not> in_uint 64 (hr_rf_bandwidth_hz r), he ''rf_bandwidth_hz is outside uint64''),
        (\<not> in_uint 64 (hr_dwell_samples r), he ''dwell_samples is outside uint64''),
        (\<not> in_uint 64 (hr_transition_guard_samples r), he ''transition_guard_samples is outside uint64''),
        (\<not> in_uint 64 (hr_dwell_count r), he ''dwell_count is outside uint64''),
        (\<not> in_uint 64 (hr_capture_span_samples r), he ''capture_span_samples is outside uint64''),
        (\<not> in_sint 64 (hr_if_offset_hz r), he ''if_offset_hz is outside int64''),
        (hr_session_id r = 0 \<or> hr_sample_rate_hz r = 0 \<or> hr_rf_bandwidth_hz r = 0,
         he ''persistent-hop identity and rates must be non-zero''),
        (hr_dwell_samples r = 0 \<or> hr_dwell_count r = 0,
         he ''persistent-hop dwell size and count must be non-zero''),
        (\<not> hr_dwell_samples r \<le> hr_capture_span_samples r,
         he ''capture span must contain at least one complete dwell''),
        (hr_dwell_count r > (2 ^ 64 - 1) div hr_dwell_samples r,
         he ''persistent-hop dwell safety bound overflows uint64''),
        (hr_capture_span_samples r > hr_dwell_count r * hr_dwell_samples r,
         he ''capture span exceeds the dwell safety bound''),
        (hr_rf_bandwidth_hz r > hr_sample_rate_hz r, he ''RF bandwidth cannot exceed sample rate''),
        (hr_transition_guard_samples r \<ge> hr_dwell_samples r,
         he ''transition guard must be shorter than one dwell''),
        (int (length (hr_profiles r)) \<noteq> HOP_PROFILE_COUNT,
         he ''persistent hopping requires exactly eight profiles'')])
     (\<lambda>_. validate_profiles (hr_if_offset_hz r) 0 [] (hr_profiles r))"

definition request_fmt :: "field list" where
  "request_fmt = [FU 4, FU 2, FU 2, FU 4, FU 4, FU 8, FU 8, FU 8, FS 8, FU 8, FU 8, FU 8,
     FU 2, FU 1, FU 1, FU 2, FU 2, FRaw 8, FU 8]"

definition request_fields :: "hop_request \<Rightarrow> val list" where
  "request_fields r = map VInt
     [HOPR_MAGIC, HOP_VERSION, HOP_REQUEST_BYTES, HOP_REQUIRED_FEATURES, HOP_REQUIRED_FLAGS,
      hr_session_id r, hr_sample_rate_hz r, hr_rf_bandwidth_hz r, hr_if_offset_hz r,
      hr_dwell_samples r, hr_transition_guard_samples r, hr_dwell_count r,
      HOP_PROFILE_COUNT, 0, 0, HOP_EVENT_BYTES, HOP_STATUS_BYTES]
     @ [VBytes (replicate 8 0), VInt (hr_capture_span_samples r)]"

lemma request_size [simp]: "struct_size request_fmt = 96"
  by (simp add: struct_size_def request_fmt_def)

definition request_pack :: "hop_request \<Rightarrow> bytes result" where
  "request_pack r =
     bindE (request_validate r) (\<lambda>_.
     bindE (struct_pack request_fmt (request_fields r)) (\<lambda>header.
     bindE (enc_records (profile_pack (hr_if_offset_hz r)) (hr_profiles r)) (\<lambda>profiles.
       if int (length (header @ profiles)) \<noteq> HOP_REQUEST_BYTES
       then Inl (RuntimeError ''persistent-hop request packer emitted the wrong size'')
       else Inr (header @ profiles))))"

definition request_guards :: "val list \<Rightarrow> (bool \<times> exn) list" where
  "request_guards vs =
     [(int_at vs 0 \<noteq> HOPR_MAGIC \<or> int_at vs 1 \<noteq> HOP_VERSION \<or> int_at vs 2 \<noteq> HOP_REQUEST_BYTES,
       he ''bad HOPR magic, version, or size''),
      (int_at vs 3 \<noteq> HOP_REQUIRED_FEATURES, he ''HOPR required feature mask is not exact v1''),
      (int_at vs 4 \<noteq> HOP_REQUIRED_FLAGS, he ''HOPR flags are not exact finite/restore-required v1''),
      (int_at vs 12 \<noteq> HOP_PROFILE_COUNT \<or> int_at vs 13 \<noteq> 0 \<or> int_at vs 14 \<noteq> 0
         \<or> int_at vs 15 \<noteq> HOP_EVENT_BYTES \<or> int_at vs 16 \<noteq> HOP_STATUS_BYTES
         \<or> (\<exists>b \<in> set (bytes_at vs 17). b \<noteq> 0),
       he ''HOPR fixed counts, sizes, or reserved bytes are invalid'')]"

definition request_build :: "val list \<Rightarrow> hop_profile list \<Rightarrow> hop_request" where
  "request_build vs profiles =
     \<lparr>hr_session_id = int_at vs 5, hr_sample_rate_hz = int_at vs 6, hr_rf_bandwidth_hz = int_at vs 7,
      hr_if_offset_hz = int_at vs 8, hr_dwell_samples = int_at vs 9,
      hr_transition_guard_samples = int_at vs 10, hr_dwell_count = int_at vs 11,
      hr_capture_span_samples = int_at vs 18, hr_profiles = profiles\<rparr>"

definition request_unpack :: "bytes \<Rightarrow> hop_request result" where
  "request_unpack payload =
     (if int (length payload) \<noteq> HOP_REQUEST_BYTES then Inl (he ''HOPR request size mismatch'')
      else bindE (struct_unpack request_fmt (take 96 payload)) (\<lambda>vs.
        bindE (checks (request_guards vs)) (\<lambda>_.
        bindE (dec_records profile_unpack 24 96 8 payload) (\<lambda>profiles.
        let r = request_build vs profiles in
        bindE (request_validate r) (\<lambda>_. Inr r)))))"

section \<open>Request lemmas\<close>

lemma validate_profiles_Inr:
  "validate_profiles off index slots ps = Inr () \<longleftrightarrow>
     map hp_target_index ps = map (\<lambda>i. index + int i) [0..<length ps] \<and>
     (\<forall>p \<in> set ps. profile_validate off p = Inr ()) \<and>
     distinct (map hp_fastlock_profile_index ps) \<and>
     set (map hp_fastlock_profile_index ps) \<inter> set slots = {}"
proof (induction off index slots ps rule: validate_profiles.induct)
  case (2 off index slots p ps)
  have "map (\<lambda>i. index + int i) [0..<length (p # ps)] = index # map (\<lambda>i. index + 1 + int i) [0..<length ps]"
    by (simp add: upt_conv_Cons map_Suc_upt [symmetric] del: upt_Suc)
  then show ?case using 2 by (auto simp: bindE_Inr_iff simp del: upt_Suc)
qed simp

lemma request_validate_profiles:
  assumes "request_validate r = Inr ()"
  shows "\<forall>p \<in> set (hr_profiles r). profile_validate (hr_if_offset_hz r) p = Inr ()"
    and "length (hr_profiles r) = 8"
  using assms by (auto simp: request_validate_def bindE_Inr_iff validate_profiles_Inr checks_ok_iff)

lemma request_pack_Inr:
  "request_pack r = Inr bs \<longleftrightarrow> request_validate r = Inr () \<and>
     list_all2 packable request_fmt (request_fields r) \<and>
     (\<exists>ps. enc_records (profile_pack (hr_if_offset_hz r)) (hr_profiles r) = Inr ps \<and>
        bs = struct_bytes request_fmt (request_fields r) @ ps \<and> length bs = 288)"
proof (cases "enc_records (profile_pack (hr_if_offset_hz r)) (hr_profiles r)")
  case (Inr ps)
  have "int (length x) = 288 \<longleftrightarrow> length x = 288" for x :: bytes by linarith
  then show ?thesis using Inr
    by (auto simp: request_pack_def bindE_Inr_iff struct_pack_Inr simp del: length_append)
qed (auto simp: request_pack_def bindE_Inr_iff)

lemma request_dec_enc:
  assumes "request_pack r = Inr bs"
  shows "request_unpack bs = Inr r"
proof -
  from assms obtain ps where v: "request_validate r = Inr ()"
    and p: "list_all2 packable request_fmt (request_fields r)"
    and ps: "enc_records (profile_pack (hr_if_offset_hz r)) (hr_profiles r) = Inr ps"
    and bs: "bs = struct_bytes request_fmt (request_fields r) @ ps" and len: "length bs = 288"
    by (auto simp: request_pack_Inr)
  have fit: "list_all2 fits request_fmt (request_fields r)"
    using p by (simp add: request_fmt_def request_fields_def)
  have hl: "length (struct_bytes request_fmt (request_fields r)) = 96"
    using fit by (simp add: length_struct_bytes list_all2_lengthD)
  have U: "struct_unpack request_fmt (take 96 bs) = Inr (request_fields r)"
    using fit hl by (simp add: bs struct_unpack_Inr struct_round_trip0)
  have G: "checks (request_guards (request_fields r)) = Inr ()"
    by (simp add: request_guards_def request_fields_def val_access)
  have P: "dec_records profile_unpack 24 96 8 bs = Inr (hr_profiles r)"
    using hop_profiles.dec_enc_records [OF ps [unfolded profile_pack_def], of 96 _ 8 "[]"] hl
      request_validate_profiles(2) [OF v] unfolding bs profile_unpack_def by simp
  have "request_build (request_fields r) (hr_profiles r) = r"
    by (cases r) (simp add: request_build_def request_fields_def val_access)
  with U G P v len show ?thesis by (simp add: request_unpack_def Let_def)
qed

lemma zero_bytes: "\<forall>b \<in> set bs. b = (0 :: byte) \<Longrightarrow> bs = replicate (length bs) 0"
  by (rule replicate_eqI) auto

lemma request_enc_dec:
  assumes "request_unpack bs = Inr r"
  shows "request_pack r = Inr bs"
proof -
  from assms obtain vs profiles where len: "length bs = 288"
    and U: "struct_unpack request_fmt (take 96 bs) = Inr vs"
    and g: "checks (request_guards vs) = Inr ()"
    and P: "dec_records profile_unpack 24 96 8 bs = Inr profiles"
    and r: "r = request_build vs profiles" and v: "request_validate r = Inr ()"
    by (auto simp: request_unpack_def bindE_Inr_iff Let_def split: if_splits)
  have pos: "list_all (\<lambda>f. 0 < field_size f) request_fmt" by (simp add: request_fmt_def)
  note D = struct_unpackD [OF U pos]
  have raw8: "length (bytes_at vs 17) = 8"
    using D(1,2) by (auto simp: request_fmt_def fits_shape val_access)
  then have zero: "bytes_at vs 17 = replicate 8 0"
    using g zero_bytes [of "bytes_at vs 17"] by (simp add: request_guards_def)
  have "request_fields r = shape_at request_fmt vs 0"
    using g zero by (simp add: request_fields_def r request_build_def request_guards_def request_fmt_def
        del: One_nat_def)
  then have f: "request_fields r = vs" using D(1) by simp
  have "\<forall>p \<in> set profiles. profile_validate (hr_if_offset_hz r) p = Inr ()"
    using request_validate_profiles(1) [OF v] by (simp add: r request_build_def)
  then have E: "enc_records (profile_pack (hr_if_offset_hz r)) profiles = Inr (drop 96 bs)"
    using hop_profiles.enc_dec_records(1) [unfolded profile_size, OF P [unfolded profile_unpack_def]] len
    by (simp add: profile_pack_def slice_def)
  have "hr_profiles r = profiles" by (simp add: r request_build_def)
  then show ?thesis using v D(3,4) f E len by (simp add: request_pack_Inr)
qed

interpretation hop_requests: wire_codec request_pack request_unpack "\<lambda>_. True"
  by unfold_locales (erule request_dec_enc request_enc_dec)+

end
