(* ===== verification/Hop_Plan.thy ===== *)
theory Hop_Plan
  imports Hop_Request
begin

text \<open>
  \<open>persistent_hop.py\<close>, \<open>PersistentHopPlanV1\<close> and its two single-receiver subclasses: the bounded
  host-only plan, the admission rules of its constructor, and the request it produces. The
  subclasses override only the rate rule and the receiver tuple, so they are a field of one record.
\<close>

section \<open>The plan\<close>

datatype plan_kind = DualRx | SingleRxV2 int | SingleRxMultirateV3 int

record hop_plan =
  pl_kind :: plan_kind
  pl_nominal_duration_seconds :: int
  pl_valid_visit_ms :: int
  pl_sample_rate_hz :: int
  pl_rf_bandwidth_hz :: int
  pl_transition_guard_samples :: int
  pl_samples_per_block :: int
  pl_kernel_buffers :: int
  pl_minimum_valid_duty_ppm :: int
  pl_manual_gain_db :: real
  pl_profiles :: "hop_profile list"

definition validate_receiver_rate :: "hop_plan \<Rightarrow> unit result" where
  "validate_receiver_rate p =
     (case pl_kind p of
        DualRx \<Rightarrow> checks
          [(\<not> (pl_sample_rate_hz p = 2500000 \<or> pl_sample_rate_hz p = 5000000),
            ValueError ''persistent-hop scanner rate must be 2.5 or 5 MS/s'')]
      | SingleRxV2 receiver_id \<Rightarrow> checks
          [(pl_sample_rate_hz p \<noteq> 10000000,
            ValueError ''single-RX persistent hopping requires exactly 10 MS/s''),
           (\<not> (receiver_id = 0 \<or> receiver_id = 1),
            ValueError ''single-RX persistent hopping requires RX0 or RX1'')]
      | SingleRxMultirateV3 receiver_id \<Rightarrow> checks
          [(\<not> (pl_sample_rate_hz p = 15000000 \<or> pl_sample_rate_hz p = 20000000),
            ValueError ''multirate persistent hopping requires 15 or 20 MS/s''),
           (receiver_id \<noteq> 0,
            ValueError ''multirate persistent hopping requires physical RX0'')])"

definition receiver_ids :: "hop_plan \<Rightarrow> int list" where
  "receiver_ids p =
     (case pl_kind p of
        DualRx \<Rightarrow> [0, 1]
      | SingleRxV2 receiver_id \<Rightarrow> [receiver_id]
      | SingleRxMultirateV3 receiver_id \<Rightarrow> [receiver_id])"

definition plan_dwell_samples :: "hop_plan \<Rightarrow> int result" where
  "plan_dwell_samples p =
     (let numerator = pl_sample_rate_hz p * pl_valid_visit_ms p in
      if numerator mod 1000 \<noteq> 0
      then Inl (ValueError ''visit duration does not produce an integral sample count'')
      else Inr (numerator div 1000))"

definition plan_capture_span_samples :: "hop_plan \<Rightarrow> int" where
  "plan_capture_span_samples p = pl_sample_rate_hz p * pl_nominal_duration_seconds p"

text \<open>\<open>(available + dwell - 1) // dwell\<close>; the dwell is positive for every admitted rate.\<close>

definition plan_dwell_count :: "hop_plan \<Rightarrow> int result" where
  "plan_dwell_count p =
     bindE (plan_dwell_samples p) (\<lambda>dwell.
       Inr ((plan_capture_span_samples p + dwell - 1) div dwell))"

definition planned_valid_duty_ppm :: "hop_plan \<Rightarrow> int result" where
  "planned_valid_duty_ppm p =
     bindE (plan_dwell_samples p) (\<lambda>dwell.
       Inr (dwell * 1000000 div (dwell + pl_transition_guard_samples p)))"

definition plan_request :: "hop_plan \<Rightarrow> int \<Rightarrow> hop_request result" where
  "plan_request p session_id =
     bindE (plan_dwell_samples p) (\<lambda>dwell.
     bindE (plan_dwell_count p) (\<lambda>dwell_count.
       Inr \<lparr>hr_session_id = session_id, hr_sample_rate_hz = pl_sample_rate_hz p,
            hr_rf_bandwidth_hz = pl_rf_bandwidth_hz p,
            hr_if_offset_hz = (case pl_profiles p of [] \<Rightarrow> 0 | q # _ \<Rightarrow> hp_center_hz q - hp_lo_hz q),
            hr_dwell_samples = dwell, hr_transition_guard_samples = pl_transition_guard_samples p,
            hr_dwell_count = dwell_count, hr_capture_span_samples = plan_capture_span_samples p,
            hr_profiles = pl_profiles p\<rparr>))"

definition placeholder_crcs :: "hop_request \<Rightarrow> hop_request" where
  "placeholder_crcs r = r\<lparr>hr_profiles := map (\<lambda>q. q\<lparr>hp_profile_crc32 := 1\<rparr>) (hr_profiles r)\<rparr>"

text \<open>
  \<open>__post_init__\<close>. Gains are real numbers here, so the source's \<open>isfinite\<close> and type tests hold by
  construction.
\<close>

definition plan_init :: "hop_plan \<Rightarrow> unit result" where
  "plan_init p =
     bindE (checks
       [(pl_nominal_duration_seconds p \<noteq> 300 \<or> pl_valid_visit_ms p \<noteq> 120,
         ValueError ''persistent-hop scanner plan must be exactly 300 seconds / 120 ms'')]) (\<lambda>_.
     bindE (validate_receiver_rate p) (\<lambda>_.
     bindE (checks
       [(pl_rf_bandwidth_hz p \<noteq> pl_sample_rate_hz p,
         ValueError ''persistent-hop RF bandwidth must equal sample rate''),
        (\<not> (2 \<le> pl_kernel_buffers p \<and> pl_kernel_buffers p \<le> 64),
         ValueError ''persistent-hop kernel buffer count must be within 2..64''),
        (\<not> (1 \<le> pl_samples_per_block p \<and> pl_samples_per_block p \<le> 0xFFFFFFFF),
         ValueError ''persistent-hop samples_per_block is outside uint32'')]) (\<lambda>_.
     bindE (plan_dwell_samples p) (\<lambda>dwell.
     bindE (checks
       [(\<not> (0 \<le> pl_transition_guard_samples p \<and> pl_transition_guard_samples p < dwell),
         ValueError ''persistent-hop transition guard is outside the visit''),
        (\<not> (1 \<le> pl_minimum_valid_duty_ppm p \<and> pl_minimum_valid_duty_ppm p \<le> 1000000),
         ValueError ''minimum persistent-hop duty must be within 1..1,000,000 ppm''),
        (\<not> (-3 \<le> pl_manual_gain_db p \<and> pl_manual_gain_db p \<le> 73),
         ValueError ''persistent-hop manual gain must be finite and within -3..73 dB''),
        ((\<exists>q \<in> set (pl_profiles p). hp_profile_crc32 q \<noteq> 0)
           \<and> \<not> (\<forall>q \<in> set (pl_profiles p). hp_profile_crc32 q \<noteq> 0),
         ValueError ''persistent-hop plan profile CRCs must be all hardware-compiled or all zero'')]) (\<lambda>_.
     bindE (plan_request p 1) (\<lambda>request.
     bindE (request_validate
       (if \<not> (\<exists>q \<in> set (pl_profiles p). hp_profile_crc32 q \<noteq> 0) then placeholder_crcs request
        else request)) (\<lambda>_.
     bindE (planned_valid_duty_ppm p) (\<lambda>duty. checks
       [(duty < pl_minimum_valid_duty_ppm p,
         ValueError ''persistent-hop plan cannot meet its minimum valid duty'')]))))))))"

text \<open>\<open>_require_same_plan_except_profile_crcs\<close>: a hardware compiler may fill in CRCs only.\<close>

definition without_crcs :: "hop_plan \<Rightarrow> hop_plan" where
  "without_crcs p = p\<lparr>pl_profiles := map (\<lambda>q. q\<lparr>hp_profile_crc32 := 1\<rparr>) (pl_profiles p)\<rparr>"

definition require_same_plan_except_profile_crcs :: "hop_plan \<Rightarrow> hop_plan \<Rightarrow> unit result" where
  "require_same_plan_except_profile_crcs requested prepared = checks
     [(without_crcs prepared \<noteq> without_crcs requested,
       HopClientError ''persistent-hop hardware preparation changed the requested plan'')]"

section \<open>Plan lemmas\<close>

lemma plan_rate:
  assumes "plan_init p = Inr ()"
  shows "pl_sample_rate_hz p \<in> {2500000, 5000000, 10000000, 15000000, 20000000}"
    and "pl_valid_visit_ms p = 120" and "pl_nominal_duration_seconds p = 300"
  using assms
  by (auto simp: plan_init_def validate_receiver_rate_def bindE_Inr_iff checks_ok_iff split: plan_kind.splits)

lemma plan_geometry:
  assumes "plan_init p = Inr ()"
  shows "plan_dwell_samples p = Inr (pl_sample_rate_hz p * 120 div 1000)"
    and "plan_dwell_count p = Inr 2500" and "0 < pl_sample_rate_hz p * 120 div 1000"
    and "plan_capture_span_samples p = 2500 * (pl_sample_rate_hz p * 120 div 1000)"
  using plan_rate [OF assms]
  by (auto simp: plan_dwell_samples_def plan_dwell_count_def plan_capture_span_samples_def Let_def)

lemma request_validate_session:
  assumes "request_validate r = Inr ()" and "0 < s" and "s < 2 ^ 64"
  shows "request_validate (r\<lparr>hr_session_id := s\<rparr>) = Inr ()"
  using assms by (simp add: request_validate_def bindE_Inr_iff checks_ok_iff in_uint_def)

lemma plan_request_valid:
  assumes "plan_init p = Inr ()" and "\<forall>q \<in> set (pl_profiles p). hp_profile_crc32 q \<noteq> 0"
    and "0 < s" and "s < 2 ^ 64"
  shows "\<exists>r. plan_request p s = Inr r \<and> request_validate r = Inr ()"
proof -
  obtain r where r: "plan_request p 1 = Inr r"
    using plan_geometry [OF assms(1)] by (simp add: plan_request_def)
  have eq: "plan_request p s = Inr (r\<lparr>hr_session_id := s\<rparr>)"
    using r plan_geometry [OF assms(1)] by (auto simp: plan_request_def)
  have "request_validate (if \<not> (\<exists>q \<in> set (pl_profiles p). hp_profile_crc32 q \<noteq> 0)
      then placeholder_crcs r else r) = Inr ()"
    using assms(1) unfolding plan_init_def bindE_Inr_iff r sum.inject by (elim exE conjE) (auto split: if_splits)
  moreover have "hr_profiles r = pl_profiles p"
    using r plan_geometry [OF assms(1)] by (auto simp: plan_request_def)
  moreover have "placeholder_crcs r = r" if "pl_profiles p = []"
    using that \<open>hr_profiles r = pl_profiles p\<close> by (cases r) (simp add: placeholder_crcs_def)
  ultimately have "request_validate r = Inr ()"
    using assms(2) by (cases "pl_profiles p") (auto split: if_splits)
  then show ?thesis using eq request_validate_session [OF _ assms(3,4)] by blast
qed

lemma packable_request:
  assumes "request_validate r = Inr ()"
  shows "list_all2 packable request_fmt (request_fields r)"
  using assms
  by (simp add: request_validate_def bindE_Inr_iff checks_ok_iff in_uint_def in_sint_def
      request_fmt_def request_fields_def)

lemma profile_packs:
  assumes "profile_validate off p = Inr ()"
  shows "profile_pack off p = Inr (struct_bytes profile_fmt (profile_fields p))"
  using assms
  by (simp add: profile_pack_def pack_record_Inr)
    (simp add: profile_validate_def checks_ok_iff in_uint_def profile_fmt_def profile_fields_def)

text \<open>Validation is all that packing needs: an accepted request always packs into 288 bytes.\<close>

lemma valid_request_packs:
  assumes "request_validate r = Inr ()"
  shows "\<exists>bs. request_pack r = Inr bs \<and> length bs = 288"
proof -
  have P: "\<forall>p \<in> set (hr_profiles r). profile_validate (hr_if_offset_hz r) p = Inr ()"
    and n: "length (hr_profiles r) = 8"
    using request_validate_profiles [OF assms] by simp_all
  obtain ps where ps: "enc_records (profile_pack (hr_if_offset_hz r)) (hr_profiles r) = Inr ps"
    using mapE_all [of "hr_profiles r" "profile_pack (hr_if_offset_hz r)"
        "\<lambda>p. struct_bytes profile_fmt (profile_fields p)"] P
    by (auto simp: enc_records_def profile_packs)
  have "length ps = 192"
    using hop_profiles.enc_records_length [OF ps [unfolded profile_pack_def]] n by simp
  moreover have "length (struct_bytes request_fmt (request_fields r)) = 96"
    using packable_request [OF assms] by (simp add: length_struct_bytes list_all2_lengthD)
  ultimately show ?thesis using assms ps packable_request [OF assms] by (simp add: request_pack_Inr)
qed

end
