(* ===== verification/Hop_Evidence.thy ===== *)
theory Hop_Evidence
  imports Hop_Request
begin

text \<open>
  \<open>persistent_hop.py\<close>, what the device reports: one \<open>HOPS\<close> evidence record per captured block with
  its retune events, and the \<open>HOPT\<close> status of the session, both with their consistency rules.
\<close>

section \<open>States, reasons and flags\<close>

datatype hop_event_kind = STARTUP | RETUNE

datatype hop_state = IDLE | ARMED | RUNNING | COMPLETED | CANCELLED | FAILED

datatype hop_reason =
    REASON_NONE
  | PLAN_COMPLETE
  | CLIENT_CLOSE
  | CLIENT_DISCONNECT
  | DEVICE_ERROR
  | EVENT_OVERFLOW
  | EVENT_SEQUENCE
  | COUNTER_DISCONTINUITY
  | PROTOCOL_FAULT
  | RESTORE_ERROR

abbreviation (input) "ST_TERMINAL \<equiv> 0x01 :: int"
abbreviation (input) "ST_EVENT_OVERFLOW \<equiv> 0x02 :: int"
abbreviation (input) "ST_CONTINUITY_FAULT \<equiv> 0x04 :: int"
abbreviation (input) "ST_RESTORE_ATTEMPTED \<equiv> 0x08 :: int"
abbreviation (input) "ST_RESTORE_SUCCEEDED \<equiv> 0x10 :: int"
abbreviation (input) "ST_RESTORE_REQUIRED \<equiv> 0x20 :: int"
abbreviation (input) "KNOWN_STATUS_FLAGS \<equiv> 0x3F :: int"
abbreviation (input) "REQUIRED_EVENT_FLAGS \<equiv> 0x03 :: int"
abbreviation (input) "HOPS_MAGIC \<equiv> 0x53504F48 :: int"
abbreviation (input) "HOPT_MAGIC \<equiv> 0x54504F48 :: int"
abbreviation (input) "HOP_EVENT_CAPACITY \<equiv> 8 :: int"

fun kind_num :: "hop_event_kind \<Rightarrow> int" where
  "kind_num STARTUP = 1"
| "kind_num RETUNE = 2"

fun state_num :: "hop_state \<Rightarrow> int" where
  "state_num IDLE = 0"
| "state_num ARMED = 1"
| "state_num RUNNING = 2"
| "state_num COMPLETED = 3"
| "state_num CANCELLED = 4"
| "state_num FAILED = 5"

fun reason_num :: "hop_reason \<Rightarrow> int" where
  "reason_num REASON_NONE = 0"
| "reason_num PLAN_COMPLETE = 1"
| "reason_num CLIENT_CLOSE = 2"
| "reason_num CLIENT_DISCONNECT = 3"
| "reason_num DEVICE_ERROR = 4"
| "reason_num EVENT_OVERFLOW = 5"
| "reason_num EVENT_SEQUENCE = 6"
| "reason_num COUNTER_DISCONTINUITY = 7"
| "reason_num PROTOCOL_FAULT = 8"
| "reason_num RESTORE_ERROR = 9"

definition kind_of :: "int \<Rightarrow> hop_event_kind option" where
  "kind_of v = find (\<lambda>k. kind_num k = v) [STARTUP, RETUNE]"

definition state_of :: "int \<Rightarrow> hop_state option" where
  "state_of v = find (\<lambda>s. state_num s = v) [IDLE, ARMED, RUNNING, COMPLETED, CANCELLED, FAILED]"

definition reason_of :: "int \<Rightarrow> hop_reason option" where
  "reason_of v = find (\<lambda>r. reason_num r = v)
     [REASON_NONE, PLAN_COMPLETE, CLIENT_CLOSE, CLIENT_DISCONNECT, DEVICE_ERROR, EVENT_OVERFLOW,
      EVENT_SEQUENCE, COUNTER_DISCONTINUITY, PROTOCOL_FAULT, RESTORE_ERROR]"

lemma kind_of_Some [simp]: "kind_of v = Some k \<longleftrightarrow> v = kind_num k"
  by (cases k) (auto simp: kind_of_def split: if_splits)

lemma state_of_Some [simp]: "state_of v = Some s \<longleftrightarrow> v = state_num s"
  by (cases s) (auto simp: state_of_def split: if_splits)

lemma reason_of_Some [simp]: "reason_of v = Some r \<longleftrightarrow> v = reason_num r"
  by (cases r) (auto simp: reason_of_def split: if_splits)

lemma enum_of_num [simp]:
  "kind_of (kind_num k) = Some k" "state_of (state_num s) = Some s" "reason_of (reason_num r) = Some r"
  by simp_all

text \<open>
  \<open>_validate_state_reason_flags\<close>; the final \<open>if/elif\<close> chain on the state is one guard per branch.
\<close>

definition terminal_state :: "hop_state \<Rightarrow> bool" where
  "terminal_state s \<longleftrightarrow> s = COMPLETED \<or> s = CANCELLED \<or> s = FAILED"

definition active_state :: "hop_state \<Rightarrow> bool" where
  "active_state s \<longleftrightarrow> s = IDLE \<or> s = ARMED \<or> s = RUNNING"

definition validate_state_reason_flags :: "hop_state \<Rightarrow> hop_reason \<Rightarrow> int \<Rightarrow> int \<Rightarrow> unit result" where
  "validate_state_reason_flags state reason error_code flags = checks
     [(has flags ST_TERMINAL \<noteq> terminal_state state,
       he ''persistent-hop terminal flag disagrees with state''),
      (\<not> has flags ST_RESTORE_REQUIRED, he ''persistent-hop record lost restore-required evidence''),
      (active_state state \<and> flags \<noteq> ST_RESTORE_REQUIRED,
       he ''active persistent-hop flags are not exact v1''),
      (terminal_state state \<and> \<not> has flags ST_RESTORE_ATTEMPTED,
       he ''terminal persistent-hop status lacks a restore attempt''),
      (active_state state \<and> (reason \<noteq> REASON_NONE \<or> error_code \<noteq> 0),
       he ''active persistent-hop state has a terminal result''),
      (state = COMPLETED \<and> (reason \<noteq> PLAN_COMPLETE \<or> error_code \<noteq> 0),
       he ''completed persistent-hop result is inconsistent''),
      (state = CANCELLED \<and> (\<not> (reason = CLIENT_CLOSE \<or> reason = CLIENT_DISCONNECT) \<or> error_code \<noteq> 0),
       he ''cancelled persistent-hop result is inconsistent''),
      (state = FAILED \<and> (reason = REASON_NONE \<or> reason = PLAN_COMPLETE \<or> reason = CLIENT_CLOSE
          \<or> reason = CLIENT_DISCONNECT \<or> error_code \<ge> 0),
       he ''failed persistent-hop result is inconsistent'')]"

section \<open>Retune events\<close>

record hop_event =
  he_event_sequence :: int
  he_dwell_index :: int
  he_transition_before_counter :: int
  he_transition_after_counter :: int
  he_invalid_start_counter :: int
  he_invalid_end_counter_exclusive :: int
  he_from_profile_index :: int
  he_to_profile_index :: int
  he_kind :: hop_event_kind
  he_flags :: int
  he_fastlock_slot :: int
  he_actual_lo_frequency_hz :: int
  he_actual_if_offset_hz :: int
  he_device_event_id :: int

definition hop_event_validate :: "hop_event \<Rightarrow> unit result" where
  "hop_event_validate e = checks
     [(\<not> in_uint 64 (he_event_sequence e), he ''event_sequence is outside uint64''),
      (\<not> in_uint 64 (he_dwell_index e), he ''dwell_index is outside uint64''),
      (\<not> in_uint 64 (he_transition_before_counter e), he ''transition_before_counter is outside uint64''),
      (\<not> in_uint 64 (he_transition_after_counter e), he ''transition_after_counter is outside uint64''),
      (\<not> in_uint 64 (he_invalid_start_counter e), he ''invalid_start_counter is outside uint64''),
      (\<not> in_uint 64 (he_invalid_end_counter_exclusive e),
       he ''invalid_end_counter_exclusive is outside uint64''),
      (\<not> in_uint 8 (he_from_profile_index e), he ''from_profile_index is outside uint8''),
      (\<not> in_uint 8 (he_to_profile_index e), he ''to_profile_index is outside uint8''),
      (\<not> in_uint 16 (he_fastlock_slot e), he ''fastlock_slot is outside uint16''),
      (\<not> in_uint 64 (he_actual_lo_frequency_hz e), he ''actual_lo_frequency_hz is outside uint64''),
      (\<not> in_uint 64 (he_device_event_id e), he ''device_event_id is outside uint64''),
      (\<not> in_sint 64 (he_actual_if_offset_hz e), he ''actual_if_offset_hz is outside int64''),
      (he_flags e \<noteq> REQUIRED_EVENT_FLAGS, he ''hop event lacks exact counter and LO attestations''),
      (he_to_profile_index e \<ge> HOP_PROFILE_COUNT, he ''hop event target profile is outside 0..7''),
      (\<not> (0 \<le> he_from_profile_index e \<and> he_from_profile_index e < HOP_PROFILE_COUNT)
         \<and> he_from_profile_index e \<noteq> HOP_NONE_PROFILE, he ''hop event source profile is invalid''),
      (he_fastlock_slot e \<ge> HOP_PROFILE_COUNT, he ''hop event Fast Lock slot is outside 0..7''),
      (he_actual_lo_frequency_hz e = 0 \<or> he_device_event_id e = 0,
       he ''hop event tuning and device identity must be non-zero''),
      (he_transition_after_counter e < he_transition_before_counter e,
       he ''hop transition counter interval regressed''),
      (he_invalid_start_counter e > he_transition_before_counter e,
       he ''hop invalid span does not include scheduler lead time''),
      (he_invalid_end_counter_exclusive e < he_transition_after_counter e
         \<or> he_invalid_end_counter_exclusive e \<le> he_invalid_start_counter e,
       he ''hop invalid span does not cover the transition'')]"

definition hop_event_fmt :: "field list" where
  "hop_event_fmt = [FU 8, FU 8, FU 8, FU 8, FU 8, FU 8, FU 1, FU 1, FU 1, FU 1, FU 2, FU 2, FU 8, FS 8, FU 8]"

definition hop_event_fields :: "hop_event \<Rightarrow> val list" where
  "hop_event_fields e = map VInt
     [he_event_sequence e, he_dwell_index e, he_transition_before_counter e,
      he_transition_after_counter e, he_invalid_start_counter e, he_invalid_end_counter_exclusive e,
      he_from_profile_index e, he_to_profile_index e, kind_num (he_kind e), he_flags e,
      he_fastlock_slot e, 0, he_actual_lo_frequency_hz e, he_actual_if_offset_hz e,
      he_device_event_id e]"

definition hop_event_pack :: "hop_event \<Rightarrow> bytes result" where
  "hop_event_pack = pack_record hop_event_validate hop_event_fmt hop_event_fields"

definition hop_event_guards :: "val list \<Rightarrow> (bool \<times> exn) list" where
  "hop_event_guards vs = [(int_at vs 11 \<noteq> 0, he ''hop event reserved field must be zero'')]"

definition hop_event_build :: "val list \<Rightarrow> hop_event result" where
  "hop_event_build vs =
     (case kind_of (int_at vs 8) of
        None \<Rightarrow> Inl (he ''hop event kind is unknown'')
      | Some kind \<Rightarrow> Inr
         \<lparr>he_event_sequence = int_at vs 0, he_dwell_index = int_at vs 1,
          he_transition_before_counter = int_at vs 2, he_transition_after_counter = int_at vs 3,
          he_invalid_start_counter = int_at vs 4, he_invalid_end_counter_exclusive = int_at vs 5,
          he_from_profile_index = int_at vs 6, he_to_profile_index = int_at vs 7, he_kind = kind,
          he_flags = int_at vs 9, he_fastlock_slot = int_at vs 10,
          he_actual_lo_frequency_hz = int_at vs 12, he_actual_if_offset_hz = int_at vs 13,
          he_device_event_id = int_at vs 14\<rparr>)"

definition hop_event_unpack :: "bytes \<Rightarrow> hop_event result" where
  "hop_event_unpack = unpack_record (he ''hop event record has the wrong size'') hop_event_fmt
     hop_event_guards hop_event_build hop_event_validate"

lemma hop_event_size [simp]: "struct_size hop_event_fmt = 80"
  by (simp add: struct_size_def hop_event_fmt_def)

interpretation hop_events: record_layout "he ''hop event record has the wrong size''"
  hop_event_fmt hop_event_fields hop_event_guards hop_event_build
  hop_event_validate hop_event_validate "\<lambda>_. True"
proof unfold_locales
  show "list_all (\<lambda>f. 0 < field_size f) hop_event_fmt" by (simp add: hop_event_fmt_def)
  show "list_all2 packable hop_event_fmt (hop_event_fields e) \<Longrightarrow>
     list_all2 fits hop_event_fmt (hop_event_fields e)" for e
    by (simp add: hop_event_fmt_def hop_event_fields_def)
  show "checks (hop_event_guards (hop_event_fields e)) = Inr ()" for e
    by (simp add: hop_event_guards_def hop_event_fields_def val_access)
  show "hop_event_build (hop_event_fields e) = Inr e" for e
    by (cases e) (simp add: hop_event_build_def hop_event_fields_def val_access del: kind_of_Some)
  show "checks (hop_event_guards vs) = Inr () \<Longrightarrow> hop_event_build vs = Inr e \<Longrightarrow>
     hop_event_fields e = shape_at hop_event_fmt vs 0" for vs e
    by (auto simp: hop_event_guards_def hop_event_build_def hop_event_fields_def
        hop_event_fmt_def simp del: One_nat_def split: option.splits)
qed simp_all

section \<open>Block evidence\<close>

record hop_evidence =
  ev_flags :: int
  ev_session_id :: int
  ev_buffer_sequence :: int
  ev_block_first_counter :: int
  ev_block_end_counter_exclusive :: int
  ev_state :: hop_state
  ev_reason :: hop_reason
  ev_error_code :: int
  ev_events :: "hop_event list"

fun validate_events :: "hop_event option \<Rightarrow> hop_event list \<Rightarrow> unit result" where
  "validate_events previous [] = Inr ()"
| "validate_events previous (e # es) =
     bindE (hop_event_validate e) (\<lambda>_.
       if (case previous of None \<Rightarrow> False
           | Some p \<Rightarrow> he_event_sequence e \<noteq> he_event_sequence p + 1
               \<or> he_dwell_index e \<noteq> he_dwell_index p + 1
               \<or> he_invalid_start_counter e < he_invalid_end_counter_exclusive p)
       then Inl (he ''HOPS events are out of order or overlap'')
       else validate_events (Some e) es)"

definition evidence_validate :: "hop_evidence \<Rightarrow> unit result" where
  "evidence_validate v =
     bindE (checks
       [(ev_flags v AND flag_invert KNOWN_STATUS_FLAGS KNOWN_STATUS_FLAGS \<noteq> 0,
         he ''HOPS contains unknown status flags''),
        (\<not> in_uint 64 (ev_session_id v), he ''session_id is outside uint64''),
        (\<not> in_uint 64 (ev_buffer_sequence v), he ''buffer_sequence is outside uint64''),
        (\<not> in_uint 64 (ev_block_first_counter v), he ''block_first_counter is outside uint64''),
        (\<not> in_uint 64 (ev_block_end_counter_exclusive v),
         he ''block_end_counter_exclusive is outside uint64''),
        (ev_session_id v = 0 \<or> ev_block_end_counter_exclusive v \<le> ev_block_first_counter v,
         he ''HOPS session or block counter interval is invalid''),
        (int (length (ev_events v)) > HOP_EVENT_CAPACITY,
         he ''HOPS event count exceeds its fixed capacity''),
        (\<not> in_sint 32 (ev_error_code v), he ''HOPS error code is outside int32'')])
     (\<lambda>_. bindE (validate_state_reason_flags (ev_state v) (ev_reason v) (ev_error_code v) (ev_flags v))
     (\<lambda>_. validate_events None (ev_events v)))"

definition evidence_fmt :: "field list" where
  "evidence_fmt = [FU 4, FU 2, FU 2, FU 4, FU 4, FU 4, FU 2, FU 2, FU 8, FU 8, FU 8, FU 8, FU 2, FU 2, FS 4]"

definition evidence_fields :: "hop_evidence \<Rightarrow> val list" where
  "evidence_fields v = map VInt
     [HOPS_MAGIC, HOP_VERSION, 64, 64 + int (length (ev_events v)) * 80, HOP_REQUIRED_FEATURES,
      ev_flags v, int (length (ev_events v)), HOP_EVENT_CAPACITY, ev_session_id v,
      ev_buffer_sequence v, ev_block_first_counter v, ev_block_end_counter_exclusive v,
      state_num (ev_state v), reason_num (ev_reason v), ev_error_code v]"

lemma evidence_size [simp]: "struct_size evidence_fmt = 64"
  by (simp add: struct_size_def evidence_fmt_def)

definition evidence_pack :: "hop_evidence \<Rightarrow> bytes result" where
  "evidence_pack v =
     bindE (evidence_validate v) (\<lambda>_.
     bindE (struct_pack evidence_fmt (evidence_fields v)) (\<lambda>header.
     bindE (enc_records hop_event_pack (ev_events v)) (\<lambda>events. Inr (header @ events))))"

definition evidence_guards :: "int \<Rightarrow> val list \<Rightarrow> (bool \<times> exn) list" where
  "evidence_guards len vs =
     [(int_at vs 0 \<noteq> HOPS_MAGIC \<or> int_at vs 1 \<noteq> HOP_VERSION \<or> int_at vs 2 \<noteq> 64,
       he ''bad HOPS magic, version, or header size''),
      (int_at vs 3 \<noteq> len, he ''HOPS declared record size does not match payload''),
      (int_at vs 3 \<noteq> 64 + int_at vs 6 * 80, he ''HOPS event count does not match record size''),
      (int_at vs 4 \<noteq> HOP_REQUIRED_FEATURES \<or> int_at vs 7 \<noteq> HOP_EVENT_CAPACITY,
       he ''HOPS features or event capacity are not exact v1''),
      (state_of (int_at vs 12) = None \<or> reason_of (int_at vs 13) = None,
       he ''HOPS state or terminal reason is unknown'')]"

definition evidence_build :: "val list \<Rightarrow> hop_event list \<Rightarrow> hop_evidence" where
  "evidence_build vs events =
     \<lparr>ev_flags = int_at vs 5, ev_session_id = int_at vs 8, ev_buffer_sequence = int_at vs 9,
      ev_block_first_counter = int_at vs 10, ev_block_end_counter_exclusive = int_at vs 11,
      ev_state = the (state_of (int_at vs 12)), ev_reason = the (reason_of (int_at vs 13)),
      ev_error_code = int_at vs 14, ev_events = events\<rparr>"

definition evidence_unpack :: "bytes \<Rightarrow> hop_evidence result" where
  "evidence_unpack payload =
     (if length payload < 64 then Inl (he ''HOPS record is shorter than its header'')
      else bindE (struct_unpack evidence_fmt (take 64 payload)) (\<lambda>vs.
        bindE (checks (evidence_guards (int (length payload)) vs)) (\<lambda>_.
        bindE (dec_records hop_event_unpack 80 64 (nat (int_at vs 6)) payload) (\<lambda>events.
        let v = evidence_build vs events in
        bindE (evidence_validate v) (\<lambda>_. Inr v)))))"

section \<open>Evidence lemmas\<close>

lemma evidence_pack_Inr:
  "evidence_pack v = Inr bs \<longleftrightarrow> evidence_validate v = Inr () \<and>
     list_all2 packable evidence_fmt (evidence_fields v) \<and>
     (\<exists>es. enc_records hop_event_pack (ev_events v) = Inr es \<and>
        bs = struct_bytes evidence_fmt (evidence_fields v) @ es)"
  by (auto simp: evidence_pack_def bindE_Inr_iff struct_pack_Inr)

lemma evidence_dec_enc:
  assumes "evidence_pack v = Inr bs"
  shows "evidence_unpack bs = Inr v" and "length bs = 64 + 80 * length (ev_events v)"
proof -
  from assms obtain es where v: "evidence_validate v = Inr ()"
    and p: "list_all2 packable evidence_fmt (evidence_fields v)"
    and es: "enc_records hop_event_pack (ev_events v) = Inr es"
    and bs: "bs = struct_bytes evidence_fmt (evidence_fields v) @ es"
    by (auto simp: evidence_pack_Inr)
  have fit: "list_all2 fits evidence_fmt (evidence_fields v)"
    using p by (simp add: evidence_fmt_def evidence_fields_def)
  have hl: "length (struct_bytes evidence_fmt (evidence_fields v)) = 64"
    using fit by (simp add: length_struct_bytes list_all2_lengthD)
  have el: "length es = length (ev_events v) * 80"
    using hop_events.enc_records_length [OF es [unfolded hop_event_pack_def]] by simp
  show len: "length bs = 64 + 80 * length (ev_events v)" using hl el by (simp add: bs)
  have U: "struct_unpack evidence_fmt (take 64 bs) = Inr (evidence_fields v)"
    using fit hl by (simp add: bs struct_unpack_Inr struct_round_trip0)
  have G: "checks (evidence_guards (int (length bs)) (evidence_fields v)) = Inr ()"
    by (simp add: evidence_guards_def evidence_fields_def val_access len
        del: state_of_Some reason_of_Some)
  have n: "nat (int_at (evidence_fields v) 6) = length (ev_events v)"
    by (simp add: evidence_fields_def val_access)
  have P: "dec_records hop_event_unpack 80 64 (length (ev_events v)) bs = Inr (ev_events v)"
    using hop_events.dec_enc_records [OF es [unfolded hop_event_pack_def], of 64 _ _ "[]"] hl
    unfolding bs hop_event_unpack_def by simp
  have "evidence_build (evidence_fields v) (ev_events v) = v"
    by (cases v) (simp add: evidence_build_def evidence_fields_def val_access
        del: state_of_Some reason_of_Some)
  with U G P v len n show "evidence_unpack bs = Inr v" by (simp add: evidence_unpack_def Let_def)
qed

lemma evidence_enc_dec:
  assumes "evidence_unpack bs = Inr v"
  shows "evidence_pack v = Inr bs"
proof -
  from assms obtain vs events where len: "64 \<le> length bs"
    and U: "struct_unpack evidence_fmt (take 64 bs) = Inr vs"
    and g: "checks (evidence_guards (int (length bs)) vs) = Inr ()"
    and P: "dec_records hop_event_unpack 80 64 (nat (int_at vs 6)) bs = Inr events"
    and v: "v = evidence_build vs events" and ok: "evidence_validate v = Inr ()"
    by (auto simp: evidence_unpack_def bindE_Inr_iff Let_def split: if_splits)
  have pos: "list_all (\<lambda>f. 0 < field_size f) evidence_fmt" by (simp add: evidence_fmt_def)
  note D = struct_unpackD [OF U pos]
  have nonneg: "0 \<le> int_at vs 6"
    using D(1,2) by (auto simp: evidence_fmt_def fits_shape val_access)
  obtain s r where sr: "state_of (int_at vs 12) = Some s" "reason_of (int_at vs 13) = Some r"
    using g by (auto simp: evidence_guards_def)
  have total_len: "int (length bs) = 64 + int_at vs 6 * 80"
    using g by (simp add: evidence_guards_def)
  then have blen: "length bs = 64 + nat (int_at vs 6) * 80" using nonneg by linarith
  note E = hop_events.enc_dec_records [unfolded hop_event_size, OF P [unfolded hop_event_unpack_def]]
  have n: "length events = nat (int_at vs 6)" using E(2) blen by simp
  have es: "enc_records hop_event_pack events = Inr (drop 64 bs)"
    using E(1) blen by (simp add: hop_event_pack_def slice_def)
  have "evidence_fields v = shape_at evidence_fmt vs 0"
    using g n nonneg sr unfolding v
    by (simp add: evidence_fields_def evidence_build_def evidence_guards_def evidence_fmt_def
        del: One_nat_def)
  then have f: "evidence_fields v = vs" using D(1) by simp
  have "ev_events v = events" by (simp add: v evidence_build_def)
  then show ?thesis using ok D(3,4) f es by (simp add: evidence_pack_Inr)
qed

interpretation hop_evidences: wire_codec evidence_pack evidence_unpack "\<lambda>_. True"
  by unfold_locales (erule evidence_dec_enc(1) evidence_enc_dec)+

text \<open>Accepted events are numbered consecutively and their invalid spans do not overlap.\<close>

definition follows :: "hop_event \<Rightarrow> hop_event \<Rightarrow> bool" where
  "follows p e \<longleftrightarrow> he_event_sequence e = he_event_sequence p + 1 \<and>
     he_dwell_index e = he_dwell_index p + 1 \<and>
     he_invalid_end_counter_exclusive p \<le> he_invalid_start_counter e"

lemma validate_events_Cons:
  "validate_events q (e # es) = Inr () \<longleftrightarrow> hop_event_validate e = Inr () \<and>
     (\<forall>p. q = Some p \<longrightarrow> follows p e) \<and> validate_events (Some e) es = Inr ()"
  by (auto simp: bindE_Inr_iff follows_def split: option.splits if_splits)

lemma validate_events_ordered:
  "validate_events q es = Inr () \<Longrightarrow> Suc i < length es \<Longrightarrow> follows (es ! i) (es ! Suc i)"
proof (induction es arbitrary: q i)
  case (Cons e es)
  then have rest: "validate_events (Some e) es = Inr ()" by (simp only: validate_events_Cons)
  show ?case
  proof (cases i)
    case 0
    then have "es ! 0 \<in> set es" "es = hd es # tl es" using Cons.prems(2) by auto
    then have "follows e (es ! 0)" using rest by (metis validate_events_Cons nth_Cons_0)
    then show ?thesis using 0 by simp
  next
    case (Suc k)
    then show ?thesis using Cons.IH [OF rest, of k] Cons.prems(2) by simp
  qed
qed simp

lemma validate_events_each: "validate_events q es = Inr () \<Longrightarrow> \<forall>e \<in> set es. hop_event_validate e = Inr ()"
  by (induction es arbitrary: q) (auto simp: validate_events_Cons simp del: validate_events.simps)

end
