(* ===== verification/Hop_Status.thy ===== *)
theory Hop_Status
  imports Hop_Evidence
begin

text \<open>
  \<open>persistent_hop.py\<close>, \<open>PersistentHopStatusV1\<close>: the \<open>HOPT\<close> status record of a session with the rules
  that tie its state, flags, counters and restoration fields together.
\<close>

section \<open>The record\<close>

record hop_status =
  hs_state :: hop_state
  hs_reason :: hop_reason
  hs_error_code :: int
  hs_flags :: int
  hs_session_id :: int
  hs_planned_dwells :: int
  hs_visits_started :: int
  hs_events_emitted :: int
  hs_next_event_sequence :: int
  hs_last_block_sequence :: int
  hs_last_block_end_counter :: int
  hs_first_counter :: int
  hs_final_counter :: int
  hs_restore_before_counter :: int
  hs_restore_after_counter :: int
  hs_restored_lo_frequency_hz :: int
  hs_restore_error_code :: int
  hs_active_profile_index :: int
  hs_restored_profile_index :: int
  hs_startup_invalid_start_counter :: int
  hs_startup_invalid_end_counter_exclusive :: int
  hs_device_dropped_events :: int

definition status_range_checks :: "hop_status \<Rightarrow> (bool \<times> exn) list" where
  "status_range_checks s =
     [(hs_flags s AND flag_invert KNOWN_STATUS_FLAGS KNOWN_STATUS_FLAGS \<noteq> 0,
       he ''HOPT contains unknown status flags''),
      (\<not> in_sint 32 (hs_error_code s), he ''HOPT error code is outside int32''),
      (\<not> in_sint 32 (hs_restore_error_code s), he ''HOPT restore error code is outside int32''),
      (\<not> in_uint 64 (hs_session_id s), he ''session_id is outside uint64''),
      (\<not> in_uint 64 (hs_planned_dwells s), he ''planned_dwells is outside uint64''),
      (\<not> in_uint 64 (hs_visits_started s), he ''visits_started is outside uint64''),
      (\<not> in_uint 64 (hs_events_emitted s), he ''events_emitted is outside uint64''),
      (\<not> in_uint 64 (hs_next_event_sequence s), he ''next_event_sequence is outside uint64''),
      (\<not> in_uint 64 (hs_last_block_sequence s), he ''last_block_sequence is outside uint64''),
      (\<not> in_uint 64 (hs_last_block_end_counter s), he ''last_block_end_counter is outside uint64''),
      (\<not> in_uint 64 (hs_first_counter s), he ''first_counter is outside uint64''),
      (\<not> in_uint 64 (hs_final_counter s), he ''final_counter is outside uint64''),
      (\<not> in_uint 64 (hs_restore_before_counter s), he ''restore_before_counter is outside uint64''),
      (\<not> in_uint 64 (hs_restore_after_counter s), he ''restore_after_counter is outside uint64''),
      (\<not> in_uint 64 (hs_restored_lo_frequency_hz s), he ''restored_lo_frequency_hz is outside uint64''),
      (\<not> in_uint 64 (hs_startup_invalid_start_counter s),
       he ''startup_invalid_start_counter is outside uint64''),
      (\<not> in_uint 64 (hs_startup_invalid_end_counter_exclusive s),
       he ''startup_invalid_end_counter_exclusive is outside uint64''),
      (\<not> in_uint 64 (hs_device_dropped_events s), he ''device_dropped_events is outside uint64'')]"

definition profile_index_ok :: "int \<Rightarrow> bool" where
  "profile_index_ok i \<longleftrightarrow> 0 \<le> i \<and> i < HOP_PROFILE_COUNT \<or> i = HOP_NONE_PROFILE"

definition status_count_checks :: "hop_status \<Rightarrow> (bool \<times> exn) list" where
  "status_count_checks s =
     [(hs_session_id s = 0 \<or> hs_planned_dwells s = 0,
       he ''HOPT session and planned dwell count must be non-zero''),
      (hs_visits_started s > hs_planned_dwells s \<or> hs_events_emitted s > hs_visits_started s,
       he ''HOPT visit/event counts exceed the plan''),
      (hs_next_event_sequence s \<noteq> hs_events_emitted s,
       he ''HOPT next event sequence disagrees with emitted count''),
      (\<not> profile_index_ok (hs_active_profile_index s), he ''HOPT active_profile_index is invalid''),
      (\<not> profile_index_ok (hs_restored_profile_index s), he ''HOPT restored_profile_index is invalid''),
      (hs_startup_invalid_end_counter_exclusive s < hs_startup_invalid_start_counter s,
       he ''HOPT startup invalid counter interval regressed'')]"

definition status_restore_checks :: "hop_status \<Rightarrow> (bool \<times> exn) list" where
  "status_restore_checks s =
     (let attempted = has (hs_flags s) ST_RESTORE_ATTEMPTED;
          succeeded = has (hs_flags s) ST_RESTORE_SUCCEEDED in
      [(succeeded \<and> \<not> attempted, he ''HOPT restore succeeded without being attempted''),
       (attempted \<and> hs_restore_after_counter s < hs_restore_before_counter s,
        he ''HOPT restoration counter interval regressed''),
       (attempted \<and> succeeded \<noteq> (hs_restore_error_code s = 0),
        he ''HOPT restore result disagrees with error code''),
       (attempted \<and> \<not> succeeded \<and> hs_restore_error_code s \<ge> 0,
        he ''HOPT failed restoration requires a negative error''),
       (attempted \<and> succeeded \<and> hs_restored_lo_frequency_hz s = 0,
        he ''HOPT successful restore lacks LO readback''),
       (\<not> attempted \<and> (hs_restore_before_counter s \<noteq> 0 \<or> hs_restore_after_counter s \<noteq> 0
          \<or> hs_restored_lo_frequency_hz s \<noteq> 0 \<or> hs_restore_error_code s \<noteq> 0),
        he ''HOPT has restoration fields without an attempt''),
       (has (hs_flags s) ST_EVENT_OVERFLOW \<noteq> (hs_device_dropped_events s \<noteq> 0),
        he ''HOPT event-overflow flag disagrees with drop count'')])"

definition status_terminal_checks :: "hop_status \<Rightarrow> (bool \<times> exn) list" where
  "status_terminal_checks s =
     (let attempted = has (hs_flags s) ST_RESTORE_ATTEMPTED;
          terminal = has (hs_flags s) ST_TERMINAL;
          required_restore_counter = max (hs_final_counter s) (hs_last_block_end_counter s) in
      [(terminal \<and> hs_final_counter s < hs_first_counter s,
        he ''HOPT terminal counter interval regressed''),
       (terminal \<and> hs_state s = COMPLETED \<and> hs_final_counter s > hs_last_block_end_counter s,
        he ''HOPT completion extends beyond the last delivered block''),
       (terminal \<and> hs_state s \<noteq> COMPLETED \<and> hs_last_block_end_counter s > hs_final_counter s,
        he ''HOPT final counter precedes the last block''),
       (terminal \<and> attempted \<and> hs_restore_before_counter s < required_restore_counter,
        he ''HOPT restoration begins before the terminal counter''),
       (\<not> terminal \<and> hs_final_counter s \<noteq> 0, he ''non-terminal HOPT status has a final counter'')])"

definition status_validate :: "hop_status \<Rightarrow> unit result" where
  "status_validate s =
     bindE (checks (status_range_checks s @ status_count_checks s)) (\<lambda>_.
     bindE (validate_state_reason_flags (hs_state s) (hs_reason s) (hs_error_code s) (hs_flags s)) (\<lambda>_.
       checks (status_restore_checks s @ status_terminal_checks s)))"

section \<open>The codec\<close>

definition status_fmt :: "field list" where
  "status_fmt = [FU 4, FU 2, FU 2, FU 4, FU 2, FU 2, FS 4, FU 4] @ replicate 12 (FU 8)
     @ [FS 4, FU 1, FU 1, FU 2] @ replicate 4 (FU 8)"

definition status_fields :: "hop_status \<Rightarrow> val list" where
  "status_fields s = map VInt
     [HOPT_MAGIC, HOP_VERSION, HOP_STATUS_BYTES, HOP_REQUIRED_FEATURES, state_num (hs_state s),
      reason_num (hs_reason s), hs_error_code s, hs_flags s, hs_session_id s, hs_planned_dwells s,
      hs_visits_started s, hs_events_emitted s, hs_next_event_sequence s, hs_last_block_sequence s,
      hs_last_block_end_counter s, hs_first_counter s, hs_final_counter s,
      hs_restore_before_counter s, hs_restore_after_counter s, hs_restored_lo_frequency_hz s,
      hs_restore_error_code s, hs_active_profile_index s, hs_restored_profile_index s, 0,
      hs_startup_invalid_start_counter s, hs_startup_invalid_end_counter_exclusive s,
      hs_device_dropped_events s, 0]"

definition status_pack :: "hop_status \<Rightarrow> bytes result" where
  "status_pack = pack_record status_validate status_fmt status_fields"

definition status_guards :: "val list \<Rightarrow> (bool \<times> exn) list" where
  "status_guards vs =
     [(int_at vs 0 \<noteq> HOPT_MAGIC \<or> int_at vs 1 \<noteq> HOP_VERSION \<or> int_at vs 2 \<noteq> HOP_STATUS_BYTES,
       he ''bad HOPT magic, version, or size''),
      (int_at vs 3 \<noteq> HOP_REQUIRED_FEATURES, he ''HOPT feature mask is not exact v1''),
      (int_at vs 23 \<noteq> 0 \<or> int_at vs 27 \<noteq> 0, he ''HOPT reserved fields must be zero'')]"

definition status_build :: "val list \<Rightarrow> hop_status result" where
  "status_build vs =
     (case (state_of (int_at vs 4), reason_of (int_at vs 5)) of
        (Some state, Some reason) \<Rightarrow> Inr
          \<lparr>hs_state = state, hs_reason = reason, hs_error_code = int_at vs 6, hs_flags = int_at vs 7,
           hs_session_id = int_at vs 8, hs_planned_dwells = int_at vs 9,
           hs_visits_started = int_at vs 10, hs_events_emitted = int_at vs 11,
           hs_next_event_sequence = int_at vs 12, hs_last_block_sequence = int_at vs 13,
           hs_last_block_end_counter = int_at vs 14, hs_first_counter = int_at vs 15,
           hs_final_counter = int_at vs 16, hs_restore_before_counter = int_at vs 17,
           hs_restore_after_counter = int_at vs 18, hs_restored_lo_frequency_hz = int_at vs 19,
           hs_restore_error_code = int_at vs 20, hs_active_profile_index = int_at vs 21,
           hs_restored_profile_index = int_at vs 22, hs_startup_invalid_start_counter = int_at vs 24,
           hs_startup_invalid_end_counter_exclusive = int_at vs 25,
           hs_device_dropped_events = int_at vs 26\<rparr>
      | _ \<Rightarrow> Inl (he ''HOPT state or terminal reason is unknown''))"

definition status_unpack :: "bytes \<Rightarrow> hop_status result" where
  "status_unpack = unpack_record (he ''HOPT status size mismatch'') status_fmt status_guards
     status_build status_validate"

lemma status_fmt_eq:
  "status_fmt = [FU 4, FU 2, FU 2, FU 4, FU 2, FU 2, FS 4, FU 4, FU 8, FU 8, FU 8, FU 8, FU 8, FU 8,
     FU 8, FU 8, FU 8, FU 8, FU 8, FU 8, FS 4, FU 1, FU 1, FU 2, FU 8, FU 8, FU 8, FU 8]"
  by (simp add: status_fmt_def numeral_eq_Suc)

lemma status_size [simp]: "struct_size status_fmt = 160"
  by (simp add: struct_size_def status_fmt_eq)

interpretation hop_statuses: record_layout "he ''HOPT status size mismatch''"
  status_fmt status_fields status_guards status_build status_validate status_validate "\<lambda>_. True"
proof unfold_locales
  show "list_all (\<lambda>f. 0 < field_size f) status_fmt" by (simp add: status_fmt_eq)
  show "list_all2 packable status_fmt (status_fields s) \<Longrightarrow> list_all2 fits status_fmt (status_fields s)" for s
    by (simp add: status_fmt_eq status_fields_def)
  show "checks (status_guards (status_fields s)) = Inr ()" for s
    by (simp add: status_guards_def status_fields_def val_access)
  show "status_build (status_fields s) = Inr s" for s
    by (cases s) (simp add: status_build_def status_fields_def val_access
        del: state_of_Some reason_of_Some)
  show "checks (status_guards vs) = Inr () \<Longrightarrow> status_build vs = Inr s \<Longrightarrow>
     status_fields s = shape_at status_fmt vs 0" for vs s
    by (auto simp: status_guards_def status_build_def status_fields_def
        status_fmt_eq simp del: One_nat_def split: option.splits)
qed simp_all

section \<open>What an accepted status guarantees\<close>

lemma status_validate_facts:
  assumes "status_validate s = Inr ()"
  shows "checks (status_range_checks s @ status_count_checks s) = Inr ()"
    and "validate_state_reason_flags (hs_state s) (hs_reason s) (hs_error_code s) (hs_flags s) = Inr ()"
    and "checks (status_restore_checks s @ status_terminal_checks s) = Inr ()"
  using assms by (simp_all add: status_validate_def bindE_Inr_iff)

lemma status_terminal_flag:
  assumes "status_validate s = Inr ()"
  shows "has (hs_flags s) ST_TERMINAL = terminal_state (hs_state s)"
    and "has (hs_flags s) ST_RESTORE_REQUIRED"
    and "terminal_state (hs_state s) \<Longrightarrow> has (hs_flags s) ST_RESTORE_ATTEMPTED"
  using status_validate_facts(2) [OF assms]
  by (auto simp: validate_state_reason_flags_def checks_ok_iff)

lemma active_or_terminal: "active_state s \<noteq> terminal_state s"
  by (cases s) (simp_all add: active_state_def terminal_state_def)

end
