(* ===== verification/Hop_Session.thy ===== *)
theory Hop_Session
  imports Hop_Plan Hop_Status
begin

text \<open>
  \<open>persistent_hop.py\<close>, \<open>PersistentHopSession\<close>: the continuity machine that accepts one evidence record
  per block, turns retune events into attested visits, and closes the session with a receipt. The
  backend (I/O) appears only through the bytes it returns.
\<close>

section \<open>State\<close>

definition hc :: "string \<Rightarrow> exn" where
  "hc = HopClientError"

record hop_invalid_span =
  hi_visit_index :: int
  hi_from_profile_index :: int
  hi_to_profile_index :: int
  hi_transition_before_counter :: int
  hi_transition_after_counter :: int
  hi_start :: int
  hi_end :: int

record hop_visit =
  hv_visit_index :: int
  hv_sweep_index :: int
  hv_target_index :: int
  hv_fastlock_slot :: int
  hv_event_sequence :: int
  hv_device_event_id :: int
  hv_device_event_flags :: int
  hv_requested_center_hz :: int
  hv_requested_lo_hz :: int
  hv_requested_if_offset_hz :: int
  hv_actual_lo_frequency_hz :: int
  hv_actual_if_offset_hz :: int
  hv_invalid_before :: hop_invalid_span
  hv_valid_start :: int
  hv_valid_end :: int

definition valid_sample_count :: "hop_visit \<Rightarrow> int" where
  "valid_sample_count v = hv_valid_end v - hv_valid_start v"

definition invalid_sample_count :: "hop_visit \<Rightarrow> int" where
  "invalid_sample_count v = hi_end (hv_invalid_before v) - hi_start (hv_invalid_before v)"

record hop_session =
  hx_radio_serial :: string
  hx_radio_uri :: string
  hx_plan :: hop_plan
  hx_request :: hop_request
  hx_initial_status :: hop_status
  hx_closed :: bool
  hx_iterated :: bool
  hx_previous_block_sequence :: "int option"
  hx_previous_block_end :: "int option"
  hx_previous_event :: "hop_event option"
  hx_stream_generation :: "int option"
  hx_visits :: "hop_visit list"

definition session_init :: "string \<Rightarrow> string \<Rightarrow> hop_plan \<Rightarrow> hop_request \<Rightarrow> hop_status \<Rightarrow> hop_session" where
  "session_init serial uri plan request initial_status =
     \<lparr>hx_radio_serial = serial, hx_radio_uri = uri, hx_plan = plan, hx_request = request, hx_initial_status = initial_status, hx_closed = False,
      hx_iterated = False, hx_previous_block_sequence = None, hx_previous_block_end = None,
      hx_previous_event = None, hx_stream_generation = None, hx_visits = []\<rparr>"

definition claim_iterator :: "hop_session \<Rightarrow> hop_session result" where
  "claim_iterator s =
     (if hx_closed s then Inl (hc ''persistent-hop session is closed'')
      else if hx_iterated s then Inl (hc ''persistent-hop IQ iterator is single-use'')
      else Inr (s\<lparr>hx_iterated := True\<rparr>))"

section \<open>Events become visits\<close>

definition checked_add_u64 :: "int \<Rightarrow> int \<Rightarrow> int result" where
  "checked_add_u64 left right =
     bindE (checks
       [(\<not> in_uint 64 left, he ''hop invalid end left is outside uint64''),
        (\<not> in_uint 64 right, he ''hop invalid end right is outside uint64''),
        (left + right \<ge> 2 ^ 64, he ''hop invalid end overflows uint64'')])
     (\<lambda>_. Inr (left + right))"

text \<open>\<open>self.request.profiles[index]\<close>.\<close>

definition request_profile :: "hop_request \<Rightarrow> int \<Rightarrow> hop_profile result" where
  "request_profile r index =
     (if 0 \<le> index \<and> index < int (length (hr_profiles r)) then Inr (hr_profiles r ! nat index)
      else Inl IndexError)"

definition visit_from :: "hop_request \<Rightarrow> hop_event \<Rightarrow> int \<Rightarrow> hop_visit result" where
  "visit_from r e valid_end =
     (let valid_start = he_invalid_end_counter_exclusive e in
      if valid_end \<le> valid_start \<or> valid_end - valid_start \<noteq> hr_dwell_samples r
      then Inl (hc ''persistent-hop valid visit is not the requested dwell'')
      else bindE (request_profile r (he_to_profile_index e)) (\<lambda>profile. Inr
        \<lparr>hv_visit_index = he_dwell_index e,
         hv_sweep_index = he_dwell_index e div HOP_PROFILE_COUNT,
         hv_target_index = he_to_profile_index e, hv_fastlock_slot = he_fastlock_slot e,
         hv_event_sequence = he_event_sequence e, hv_device_event_id = he_device_event_id e,
         hv_device_event_flags = he_flags e, hv_requested_center_hz = hp_center_hz profile,
         hv_requested_lo_hz = hp_lo_hz profile, hv_requested_if_offset_hz = hr_if_offset_hz r,
         hv_actual_lo_frequency_hz = he_actual_lo_frequency_hz e,
         hv_actual_if_offset_hz = he_actual_if_offset_hz e,
         hv_invalid_before =
           \<lparr>hi_visit_index = he_dwell_index e, hi_from_profile_index = he_from_profile_index e,
            hi_to_profile_index = he_to_profile_index e,
            hi_transition_before_counter = he_transition_before_counter e,
            hi_transition_after_counter = he_transition_after_counter e,
            hi_start = he_invalid_start_counter e,
            hi_end = he_invalid_end_counter_exclusive e\<rparr>,
         hv_valid_start = valid_start, hv_valid_end = valid_end\<rparr>))"

definition accept_event :: "hop_session \<Rightarrow> hop_event \<Rightarrow> hop_session result" where
  "accept_event s e =
     (let r = hx_request s; previous = hx_previous_event s;
          expected_index = (case previous of None \<Rightarrow> 0 | Some p \<Rightarrow> he_event_sequence p + 1);
          expected_dwell = (case previous of None \<Rightarrow> 0 | Some p \<Rightarrow> he_dwell_index p + 1);
          expected_target = he_dwell_index e mod HOP_PROFILE_COUNT;
          expected_from = (if he_dwell_index e = 0 then HOP_NONE_PROFILE
                           else (expected_target - 1) mod HOP_PROFILE_COUNT);
          expected_kind = (if he_dwell_index e = 0 then STARTUP else RETUNE) in
      bindE (checks
        [(he_event_sequence e \<noteq> expected_index \<or> he_dwell_index e \<noteq> expected_dwell,
          hc ''persistent-hop event sequence or dwell index has a gap''),
         (he_to_profile_index e \<noteq> expected_target \<or> he_from_profile_index e \<noteq> expected_from
            \<or> he_kind e \<noteq> expected_kind, hc ''persistent-hop event does not follow CH1L..CH4U order'')]) (\<lambda>_.
      bindE (request_profile r expected_target) (\<lambda>profile.
      bindE (checks
        [(he_fastlock_slot e \<noteq> hp_fastlock_profile_index profile,
          hc ''persistent-hop event Fast Lock slot changed'')]) (\<lambda>_.
      bindE (checked_add_u64 (he_transition_after_counter e) (hr_transition_guard_samples r)) (\<lambda>guard_end.
      bindE (checks
        [(he_invalid_end_counter_exclusive e \<noteq> guard_end,
          hc ''persistent-hop event guard does not match the request''),
         (he_actual_lo_frequency_hz e \<noteq> hp_lo_hz profile
            \<or> he_actual_if_offset_hz e \<noteq> hr_if_offset_hz r,
          hc ''persistent-hop event actual LO or IF differs from the request'')]) (\<lambda>_.
      case previous of
        None \<Rightarrow> Inr (s\<lparr>hx_previous_event := Some e\<rparr>)
      | Some p \<Rightarrow>
          bindE (visit_from r p (he_invalid_start_counter e)) (\<lambda>v.
            Inr (s\<lparr>hx_visits := hx_visits s @ [v], hx_previous_event := Some e\<rparr>))))))))"

fun accept_events :: "hop_session \<Rightarrow> hop_event list \<Rightarrow> hop_session \<times> unit result" where
  "accept_events s [] = (s, Inr ())"
| "accept_events s (e # es) =
     (case accept_event s e of Inl x \<Rightarrow> (s, Inl x) | Inr s1 \<Rightarrow> accept_events s1 es)"

section \<open>Blocks\<close>

definition LOST_EVIDENCE :: int where
  "LOST_EVIDENCE = ST_EVENT_OVERFLOW OR ST_CONTINUITY_FAULT"

definition validate_evidence :: "hop_session \<Rightarrow> hop_evidence \<Rightarrow> hop_session \<times> unit result" where
  "validate_evidence s v =
     (let expected_sequence =
            (case hx_previous_block_sequence s of None \<Rightarrow> 0 | Some q \<Rightarrow> q + 1);
          counter_gap =
            (case hx_previous_block_end s of
               None \<Rightarrow> hs_first_counter (hx_initial_status s) \<noteq> 0
                        \<and> ev_block_first_counter v < hs_first_counter (hx_initial_status s)
             | Some b \<Rightarrow> ev_block_first_counter v \<noteq> b) in
      case checks
        [(ev_session_id v \<noteq> hr_session_id (hx_request s),
          hc ''HOPS evidence belongs to a different session''),
         (has (ev_flags v) LOST_EVIDENCE,
          hc ''persistent-hop device reported overflow or continuity loss''),
         (ev_buffer_sequence v \<noteq> expected_sequence,
          hc ''persistent-hop buffer sequence is not contiguous''),
         (counter_gap, hc ''persistent-hop device sample counter has a gap'')] of
        Inl e \<Rightarrow> (s, Inl e)
      | Inr _ \<Rightarrow>
          accept_events
            (s\<lparr>hx_previous_block_sequence := Some (ev_buffer_sequence v),
               hx_previous_block_end := Some (ev_block_end_counter_exclusive v)\<rparr>)
            (ev_events v))"

definition accept_stream_generation :: "hop_session \<Rightarrow> int option \<Rightarrow> hop_session result" where
  "accept_stream_generation s generation =
     (case generation of
        None \<Rightarrow>
          if hx_stream_generation s \<noteq> None
          then Inl (hc ''persistent-hop ABI-3 stream generation disappeared'') else Inr s
      | Some g \<Rightarrow>
          if g \<le> 0 then Inl (hc ''persistent-hop ABI-3 stream generation is invalid'')
          else case hx_stream_generation s of
            None \<Rightarrow> Inr (s\<lparr>hx_stream_generation := Some g\<rparr>)
          | Some h \<Rightarrow> if g \<noteq> h then Inl (hc ''persistent-hop ABI-3 stream generation changed'')
                      else Inr s)"

text \<open>
  \<open>ci16_single_rx\<close> and \<open>ci16_dual_rx\<close> (\<open>direct_radio/samples.py\<close>): the payload as a list of columns,
  one \<open>(I, Q)\<close> pair per receiver. The conversion of 16-bit integers to \<open>float32\<close> is exact, so the
  model keeps the integers.
\<close>

type_synonym iq_column = "(int \<times> int) list"

definition ci16_column :: "nat \<Rightarrow> bytes \<Rightarrow> iq_column" where
  "ci16_column receivers row =
     map (\<lambda>j. (sle_value (slice (4 * j) (4 * j + 2) row), sle_value (slice (4 * j + 2) (4 * j + 4) row)))
       [0..<receivers]"

definition ci16_columns :: "nat \<Rightarrow> bytes \<Rightarrow> iq_column list result" where
  "ci16_columns receivers payload =
     (if payload = [] \<or> length payload mod (4 * receivers) \<noteq> 0
      then Inl (ProtocolError ''CI16 payload requires complete non-empty rows'')
      else Inr (map (\<lambda>i. ci16_column receivers
                  (slice (i * (4 * receivers)) (Suc i * (4 * receivers)) payload))
                [0..<length payload div (4 * receivers)]))"

definition ci16_dual_rx :: "bytes \<Rightarrow> int option \<Rightarrow> iq_column list result" where
  "ci16_dual_rx payload samples =
     bindE (ci16_columns 2 payload) (\<lambda>columns.
       case samples of
         None \<Rightarrow> Inr columns
       | Some n \<Rightarrow>
           if 1 \<le> n \<and> n \<le> int (length columns) then Inr (take (nat n) columns)
           else Inl (ValueError ''dual-RX CI16 prefix must be within the payload''))"

text \<open>\<open>except ValueError as error: raise PersistentHopClientError(str(error))\<close>.\<close>

definition value_error_as_client :: "'a result \<Rightarrow> 'a result" where
  "value_error_as_client m =
     (case m of
        Inl (ProtocolError msg) \<Rightarrow> Inl (hc msg)
      | Inl (ValueError msg) \<Rightarrow> Inl (hc msg)
      | _ \<Rightarrow> m)"

record wire_block =
  wb_evidence :: bytes
  wb_iq_payload :: bytes
  wb_stream_generation :: "int option"

record decoded_block =
  db_evidence :: hop_evidence
  db_samples :: "iq_column list"

text \<open>
  The body of the loop of \<open>_decoded_blocks\<close>. The optional metadata extension is an advisory consumer
  of the same bytes that cannot fail the session, and is not part of the state.
\<close>

definition decode_block :: "hop_session \<Rightarrow> wire_block \<Rightarrow> hop_session \<times> decoded_block result" where
  "decode_block s w =
     (case evidence_unpack (wb_evidence w) of
        Inl e \<Rightarrow> (s, Inl e)
      | Inr v \<Rightarrow>
          (case validate_evidence s v of
             (s1, Inl e) \<Rightarrow> (s1, Inl e)
           | (s1, Inr _) \<Rightarrow>
               (case accept_stream_generation s1 (wb_stream_generation w) of
                  Inl e \<Rightarrow> (s1, Inl e)
                | Inr s2 \<Rightarrow>
                    let receivers = length (receiver_ids (hx_plan s2));
                        expected_bytes = (ev_block_end_counter_exclusive v - ev_block_first_counter v)
                          * (4 * int receivers) in
                    if int (length (wb_iq_payload w)) \<noteq> expected_bytes
                    then (s2, Inl (hc ''persistent-hop payload length disagrees with receiver geometry and counters''))
                    else (case value_error_as_client
                                 (if receivers = 1 then ci16_columns 1 (wb_iq_payload w)
                                  else ci16_dual_rx (wb_iq_payload w) None) of
                        Inl e \<Rightarrow> (s2, Inl e)
                      | Inr samples \<Rightarrow> (s2, Inr \<lparr>db_evidence = v, db_samples = samples\<rparr>)))))"

section \<open>The invariant\<close>

text \<open>
  The visits so far are numbered from zero, follow the eight targets in turn, last exactly one dwell
  each, and tile the counter line: each invalid span starts where the previous visit ends, up to
  the invalid span of the event still open.
\<close>

definition visit_ok :: "hop_request \<Rightarrow> nat \<Rightarrow> hop_visit \<Rightarrow> bool" where
  "visit_ok r i v \<longleftrightarrow> hv_visit_index v = int i \<and> hv_event_sequence v = int i \<and>
     hv_sweep_index v = int i div 8 \<and> hv_target_index v = int i mod 8 \<and>
     hv_actual_lo_frequency_hz v = hp_lo_hz (hr_profiles r ! (i mod 8)) \<and>
     hi_end (hv_invalid_before v)
       = hi_transition_after_counter (hv_invalid_before v) + hr_transition_guard_samples r \<and>
     hi_start (hv_invalid_before v) < hi_end (hv_invalid_before v) \<and>
     hv_valid_start v = hi_end (hv_invalid_before v) \<and>
     valid_sample_count v = hr_dwell_samples r"

definition open_event_ok :: "hop_request \<Rightarrow> nat \<Rightarrow> hop_event \<Rightarrow> bool" where
  "open_event_ok r n e \<longleftrightarrow> hop_event_validate e = Inr () \<and>
     he_event_sequence e = int n \<and> he_dwell_index e = int n \<and> he_to_profile_index e = int n mod 8 \<and>
     he_actual_lo_frequency_hz e = hp_lo_hz (hr_profiles r ! (n mod 8)) \<and>
     he_invalid_end_counter_exclusive e = he_transition_after_counter e + hr_transition_guard_samples r"

definition tiled :: "hop_visit list \<Rightarrow> int \<Rightarrow> bool" where
  "tiled vs b \<longleftrightarrow> (\<forall>i < length vs. hv_valid_end (vs ! i) =
     (if Suc i < length vs then hi_start (hv_invalid_before (vs ! Suc i)) else b))"

definition session_inv :: "hop_session \<Rightarrow> bool" where
  "session_inv s \<longleftrightarrow> request_validate (hx_request s) = Inr () \<and>
     (\<forall>i < length (hx_visits s). visit_ok (hx_request s) i (hx_visits s ! i)) \<and>
     (case hx_previous_event s of
        None \<Rightarrow> hx_visits s = []
      | Some e \<Rightarrow> open_event_ok (hx_request s) (length (hx_visits s)) e \<and>
                  tiled (hx_visits s) (he_invalid_start_counter e))"

lemma tiled_append:
  assumes "tiled vs (hi_start (hv_invalid_before v))"
  shows "tiled (vs @ [v]) (hv_valid_end v)"
  using assms by (auto simp: tiled_def nth_append less_Suc_eq)

lemma visit_from_ok:
  assumes "visit_from r e b = Inr v" and "open_event_ok r n e"
  shows "visit_ok r n v" and "hi_start (hv_invalid_before v) = he_invalid_start_counter e"
    and "hv_valid_end v = b"
proof -
  have "he_invalid_start_counter e < he_invalid_end_counter_exclusive e"
    using assms(2) by (simp add: open_event_ok_def hop_event_validate_def checks_ok_iff)
  then show "visit_ok r n v" "hi_start (hv_invalid_before v) = he_invalid_start_counter e"
    "hv_valid_end v = b"
    using assms by (auto simp: visit_from_def bindE_Inr_iff visit_ok_def open_event_ok_def
        valid_sample_count_def Let_def split: if_splits)
qed

lemma accept_event_keeps:
  "accept_event s e = Inr s1 \<Longrightarrow> hx_request s1 = hx_request s \<and> hx_plan s1 = hx_plan s \<and>
     hx_previous_event s1 = Some e \<and> hx_previous_block_sequence s1 = hx_previous_block_sequence s \<and>
     hx_previous_block_end s1 = hx_previous_block_end s"
  by (auto simp: accept_event_def Let_def bindE_Inr_iff split: option.splits)

text \<open>What an accepted event says of itself and of the visit it closes.\<close>

lemma accept_event_facts:
  assumes "accept_event s e = Inr s1"
  shows "he_event_sequence e = (case hx_previous_event s of None \<Rightarrow> 0 | Some p \<Rightarrow> he_event_sequence p + 1)"
    and "he_dwell_index e = (case hx_previous_event s of None \<Rightarrow> 0 | Some p \<Rightarrow> he_dwell_index p + 1)"
    and "he_to_profile_index e = he_dwell_index e mod 8"
    and "he_actual_lo_frequency_hz e = hp_lo_hz (hr_profiles (hx_request s) ! nat (he_dwell_index e mod 8))"
    and "he_invalid_end_counter_exclusive e
           = he_transition_after_counter e + hr_transition_guard_samples (hx_request s)"
    and "hx_previous_event s = None \<Longrightarrow> hx_visits s1 = hx_visits s"
    and "\<And>p. hx_previous_event s = Some p \<Longrightarrow>
           \<exists>v. visit_from (hx_request s) p (he_invalid_start_counter e) = Inr v \<and>
               hx_visits s1 = hx_visits s @ [v]"
  using assms
  by (auto simp: accept_event_def Let_def bindE_Inr_iff request_profile_def checked_add_u64_def
      split: option.splits if_splits)

lemma accept_event_inv:
  assumes "session_inv s" and "hop_event_validate e = Inr ()" and "accept_event s e = Inr s1"
  shows "session_inv s1"
proof -
  note K = accept_event_keeps [OF assms(3)] and F = accept_event_facts [OF assms(3)]
  have mods: "nat (int n mod 8) = n mod 8" for n by (simp add: nat_mod_distrib)
  show ?thesis
  proof (cases "hx_previous_event s")
    case None
    then show ?thesis using assms(1,2) K F(1-6) mods [of 0]
      by (auto simp: session_inv_def open_event_ok_def tiled_def)
  next
    case (Some p)
    then obtain v where v: "visit_from (hx_request s) p (he_invalid_start_counter e) = Inr v"
      and vs: "hx_visits s1 = hx_visits s @ [v]" using F(7) by blast
    have p: "open_event_ok (hx_request s) (length (hx_visits s)) p"
      and t: "tiled (hx_visits s) (he_invalid_start_counter p)"
      and all: "\<forall>i < length (hx_visits s). visit_ok (hx_request s) i (hx_visits s ! i)"
      using assms(1) Some by (simp_all add: session_inv_def)
    note V = visit_from_ok [OF v p]
    have "tiled (hx_visits s1) (he_invalid_start_counter e)"
      using tiled_append [of "hx_visits s" v] t V(2,3) by (simp add: vs)
    moreover have "\<forall>i < length (hx_visits s1). visit_ok (hx_request s) i (hx_visits s1 ! i)"
      using all V(1) by (auto simp: vs nth_append less_Suc_eq)
    moreover have "open_event_ok (hx_request s) (length (hx_visits s1)) e"
      using p F(1-5) assms(2) Some mods [of "Suc (length (hx_visits s))"]
      by (simp add: open_event_ok_def vs add.commute)
    ultimately show ?thesis using assms(1) K by (simp add: session_inv_def)
  qed
qed

lemma accept_events_inv:
  "session_inv s \<Longrightarrow> \<forall>e \<in> set es. hop_event_validate e = Inr () \<Longrightarrow> session_inv (fst (accept_events s es))"
proof (induction es arbitrary: s)
  case (Cons e es)
  show ?case
  proof (cases "accept_event s e")
    case (Inr s1)
    then show ?thesis using Cons accept_event_inv [OF Cons.prems(1) _ Inr] by simp
  qed (use Cons.prems in simp)
qed simp

lemma evidence_unpack_events:
  assumes "evidence_unpack bs = Inr v"
  shows "\<forall>e \<in> set (ev_events v). hop_event_validate e = Inr ()"
    and "ev_block_first_counter v < ev_block_end_counter_exclusive v"
proof -
  have "evidence_validate v = Inr ()"
    using evidence_enc_dec [OF assms] by (simp add: evidence_pack_Inr)
  then show "\<forall>e \<in> set (ev_events v). hop_event_validate e = Inr ()"
    and "ev_block_first_counter v < ev_block_end_counter_exclusive v"
    by (auto simp: evidence_validate_def bindE_Inr_iff checks_ok_iff dest!: validate_events_each)
qed

lemma session_inv_fields [simp]:
  "session_inv (s\<lparr>hx_previous_block_sequence := q\<rparr>) = session_inv s"
  "session_inv (s\<lparr>hx_previous_block_end := b\<rparr>) = session_inv s"
  "session_inv (s\<lparr>hx_stream_generation := g\<rparr>) = session_inv s"
  "session_inv (s\<lparr>hx_closed := c\<rparr>) = session_inv s"
  "session_inv (s\<lparr>hx_iterated := c\<rparr>) = session_inv s"
  by (simp_all add: session_inv_def split: option.split)

lemma validate_evidence_inv:
  assumes "session_inv s" and "\<forall>e \<in> set (ev_events v). hop_event_validate e = Inr ()"
  shows "session_inv (fst (validate_evidence s v))"
  using assms accept_events_inv
  by (simp add: validate_evidence_def Let_def split: sum.splits)

lemma accept_stream_generation_inv:
  "accept_stream_generation s g = Inr s1 \<Longrightarrow> \<exists>h. s1 = s\<lparr>hx_stream_generation := h\<rparr>"
  by (cases s) (auto simp: accept_stream_generation_def split: option.splits if_splits)

lemma decode_block_inv:
  assumes "session_inv s"
  shows "session_inv (fst (decode_block s w))"
proof (cases "evidence_unpack (wb_evidence w)")
  case (Inr v)
  obtain s1 o1 where V: "validate_evidence s v = (s1, o1)" by (cases "validate_evidence s v")
  have i1: "session_inv s1"
    using validate_evidence_inv [OF assms evidence_unpack_events(1) [OF Inr]] by (simp add: V)
  then have i2: "session_inv s2" if "accept_stream_generation s1 g = Inr s2" for s2 g
    using accept_stream_generation_inv [OF that] by auto
  show ?thesis using i1 i2
    by (simp add: decode_block_def Inr V Let_def split: sum.splits)
qed (simp add: decode_block_def assms)

interpretation hop_blocks: state_machine decode_block session_inv
  by unfold_locales (rule decode_block_inv)

lemma session_init_inv:
  "request_validate r = Inr () \<Longrightarrow> session_inv (session_init serial uri p r st)"
  by (simp add: session_inv_def session_init_def)

section \<open>Visits tile the session\<close>

lemma tiled_Cons:
  "tiled (v # vs) b \<longleftrightarrow>
     hv_valid_end v = (case vs of [] \<Rightarrow> b | w # _ \<Rightarrow> hi_start (hv_invalid_before w)) \<and> tiled vs b"
proof -
  have "(\<forall>i < Suc n. P i) \<longleftrightarrow> P 0 \<and> (\<forall>i < n. P (Suc i))" for n and P :: "nat \<Rightarrow> bool"
    by (metis less_Suc_eq_0_disj)
  then show ?thesis by (cases vs) (simp_all add: tiled_def)
qed

lemma sum_tiled:
  assumes "tiled vs b" and "\<forall>v \<in> set vs. hv_valid_start v = hi_end (hv_invalid_before v)"
    and "vs \<noteq> []"
  shows "sum_list (map valid_sample_count vs) + sum_list (map invalid_sample_count vs)
    = b - hi_start (hv_invalid_before (hd vs))"
  using assms
proof (induction vs)
  case (Cons v vs)
  then show ?case
    by (cases vs) (simp_all add: tiled_Cons valid_sample_count_def invalid_sample_count_def)
qed simp

end
