(* ===== verification/Adaptive_Hop.thy ===== *)
theory Adaptive_Hop
  imports Restamp Text Hop_Session
begin

text \<open>
  \<open>adaptive_hop.py\<close>: version 2 of the hop records. A request carries a scheduling policy after the
  version 1 geometry, every event carries the decision that chose its target, and the status is
  the version 1 status under a new header.
\<close>

section \<open>Policies\<close>

abbreviation (input) "ADAPTIVE_HOP_REQUEST_BYTES \<equiv> 352 :: int"
abbreviation (input) "ADAPTIVE_HOP_EVENT_BYTES \<equiv> 144 :: int"
abbreviation (input) "NO_VISIT \<equiv> 0xFFFFFFFFFFFFFFFF :: int"

text \<open>\<open>mode\<close> is an \<open>IntEnum\<close> (1 shadow, 2 adaptive); like the source, the record keeps the integer.\<close>

record adaptive_policy =
  ap_generation :: int
  ap_mode :: int
  ap_warmup_visits :: int
  ap_missed_dwells :: int
  ap_active_weight :: int
  ap_quiet_weight :: int
  ap_cooldown_ms :: int
  ap_maximum_revisit_ms :: int
  ap_hop_budget_ms :: int
  ap_maximum_result_age_ms :: int
  ap_unhealthy_limit :: int

definition policy_words :: "adaptive_policy \<Rightarrow> int list" where
  "policy_words p = [ap_mode p, ap_warmup_visits p, ap_missed_dwells p, ap_active_weight p,
     ap_quiet_weight p, ap_cooldown_ms p, ap_maximum_revisit_ms p, ap_hop_budget_ms p,
     ap_maximum_result_age_ms p, ap_unhealthy_limit p]"

definition a_uint :: "nat \<Rightarrow> int \<Rightarrow> bool \<times> exn" where
  "a_uint bits v = (\<not> in_uint bits v, he ''adaptive value outside uint'')"

definition adaptive_policy_validate :: "adaptive_policy \<Rightarrow> unit result" where
  "adaptive_policy_validate p = checks
     (a_uint 64 (ap_generation p) # map (a_uint 32) (policy_words p) @
      [(ap_generation p = 0 \<or> ap_mode p \<notin> {1, 2}
         \<or> \<not> (1 \<le> ap_warmup_visits p \<and> ap_warmup_visits p \<le> 16)
         \<or> \<not> (1 \<le> ap_missed_dwells p \<and> ap_missed_dwells p \<le> 32)
         \<or> \<not> (1 \<le> ap_quiet_weight p \<and> ap_quiet_weight p \<le> ap_active_weight p \<and> ap_active_weight p \<le> 16)
         \<or> \<not> (1 \<le> ap_cooldown_ms p \<and> ap_cooldown_ms p \<le> 30000)
         \<or> \<not> (120 \<le> ap_hop_budget_ms p \<and> ap_hop_budget_ms p \<le> 1000)
         \<or> \<not> (ap_hop_budget_ms p * 8 \<le> ap_maximum_revisit_ms p \<and> ap_maximum_revisit_ms p \<le> 30000)
         \<or> \<not> (1 \<le> ap_maximum_result_age_ms p \<and> ap_maximum_result_age_ms p \<le> 10000)
         \<or> \<not> (1 \<le> ap_unhealthy_limit p \<and> ap_unhealthy_limit p \<le> 32),
        he ''unsupported adaptive policy bounds'')])"

definition policy_fmt :: "field list" where
  "policy_fmt = FU 8 # replicate 10 (FU 4) @ [FRaw 16]"

definition policy_fields :: "adaptive_policy \<Rightarrow> val list" where
  "policy_fields p = VInt (ap_generation p) # map VInt (policy_words p) @ [VBytes (replicate 16 0)]"

definition policy_pack :: "adaptive_policy \<Rightarrow> bytes result" where
  "policy_pack = pack_record adaptive_policy_validate policy_fmt policy_fields"

definition policy_guards :: "val list \<Rightarrow> (bool \<times> exn) list" where
  "policy_guards vs =
     [(bytes_at vs 11 \<noteq> replicate 16 0, he ''adaptive policy reserved bytes are nonzero'')]"

definition policy_build :: "val list \<Rightarrow> adaptive_policy result" where
  "policy_build vs =
     (if int_at vs 1 \<notin> {1, 2} then Inl (he ''unknown adaptive policy mode'')
      else Inr \<lparr>ap_generation = int_at vs 0, ap_mode = int_at vs 1, ap_warmup_visits = int_at vs 2,
        ap_missed_dwells = int_at vs 3, ap_active_weight = int_at vs 4, ap_quiet_weight = int_at vs 5,
        ap_cooldown_ms = int_at vs 6, ap_maximum_revisit_ms = int_at vs 7,
        ap_hop_budget_ms = int_at vs 8, ap_maximum_result_age_ms = int_at vs 9,
        ap_unhealthy_limit = int_at vs 10\<rparr>)"

definition policy_unpack :: "bytes \<Rightarrow> adaptive_policy result" where
  "policy_unpack = unpack_record (he ''adaptive policy size mismatch'') policy_fmt policy_guards
     policy_build adaptive_policy_validate"

definition pinned_policy :: "int \<Rightarrow> int \<Rightarrow> adaptive_policy" where
  "pinned_policy generation mode =
     \<lparr>ap_generation = generation, ap_mode = mode, ap_warmup_visits = 3, ap_missed_dwells = 3,
      ap_active_weight = 3, ap_quiet_weight = 1, ap_cooldown_ms = 2000, ap_maximum_revisit_ms = 3000,
      ap_hop_budget_ms = 160, ap_maximum_result_age_ms = 1000, ap_unhealthy_limit = 3\<rparr>"

definition require_pinned_policy :: "adaptive_policy \<Rightarrow> unit result" where
  "require_pinned_policy p =
     bindE (adaptive_policy_validate p) (\<lambda>_. checks
       [(p \<noteq> pinned_policy (ap_generation p) (ap_mode p),
         he ''policy differs from three-miss-two-second-v1'')])"

definition require_adaptive_capabilities :: "(string \<times> string) list \<Rightarrow> adaptive_policy \<Rightarrow> unit result" where
  "require_adaptive_capabilities attributes p =
     bindE (require_pinned_policy p) (\<lambda>_. checks
       [(\<exists>(key, v) \<in> set
           [(''iio,buffer-adaptive-hop-request'', ''2''),
            (''iio,buffer-adaptive-hop-event'', ''2''),
            (''iio,buffer-adaptive-hop-status'', ''2''),
            (''iio,buffer-adaptive-hop-modes'', ''shadow,adaptive''),
            (''iio,buffer-adaptive-hop-policy'', ''three-miss-two-second-v1''),
            (''iio,buffer-scanner-glrt-mode'', ''positive-only-v1'')].
           map_of attributes key \<noteq> Some v,
         hc ''adaptive peer capabilities/policy are incompatible'')])"

lemma policy_fmt_eq:
  "policy_fmt = [FU 8, FU 4, FU 4, FU 4, FU 4, FU 4, FU 4, FU 4, FU 4, FU 4, FU 4, FRaw 16]"
  by (simp add: policy_fmt_def numeral_eq_Suc)

lemma policy_size [simp]: "struct_size policy_fmt = 64"
  by (simp add: struct_size_def policy_fmt_eq)

interpretation policies: record_layout "he ''adaptive policy size mismatch''" policy_fmt policy_fields
  policy_guards policy_build adaptive_policy_validate adaptive_policy_validate "\<lambda>_. True"
proof unfold_locales
  show "list_all (\<lambda>f. 0 < field_size f) policy_fmt" by (simp add: policy_fmt_eq)
  show "list_all2 packable policy_fmt (policy_fields p) \<Longrightarrow> list_all2 fits policy_fmt (policy_fields p)" for p
    by (simp add: policy_fmt_eq policy_fields_def policy_words_def)
  show "checks (policy_guards (policy_fields p)) = Inr ()" for p
    by (simp add: policy_guards_def policy_fields_def policy_words_def val_access)
  show "adaptive_policy_validate p = Inr () \<Longrightarrow> policy_build (policy_fields p) = Inr p" for p
    by (cases p) (auto simp: policy_build_def policy_fields_def policy_words_def val_access
        adaptive_policy_validate_def a_uint_def)
  show "checks (policy_guards vs) = Inr () \<Longrightarrow> policy_build vs = Inr p \<Longrightarrow>
     policy_fields p = shape_at policy_fmt vs 0" for vs p
    by (auto simp: policy_guards_def policy_build_def policy_fields_def policy_words_def
        policy_fmt_eq simp del: One_nat_def split: if_splits)
qed simp_all

section \<open>Requests\<close>

definition v2_header :: "bytes \<Rightarrow> bytes \<Rightarrow> nat \<Rightarrow> bool \<Rightarrow> unit result" where
  "v2_header payload magic expected exact = checks
     [(if exact then length payload \<noteq> expected else length payload < expected,
       he ''adaptive record size mismatch''),
      (take 4 payload \<noteq> magic \<or> le_value (slice 4 6 payload) \<noteq> 2
         \<or> le_value (slice 6 8 payload) \<noteq> int expected,
       he ''adaptive record magic/version/header mismatch'')]"

record adaptive_request =
  ar_geometry :: hop_request
  ar_policy :: adaptive_policy

text \<open>The header fields a later version replaces: version, size and features, and the event size.\<close>

definition request_stamps :: "int \<Rightarrow> int \<Rightarrow> int \<Rightarrow> int \<Rightarrow> patch list" where
  "request_stamps version bytes_total features event_bytes =
     [(4, le_bytes 2 version), (6, le_bytes 2 bytes_total), (8, le_bytes 4 features), (76, le_bytes 2 event_bytes)]"

definition adaptive_request_pack :: "adaptive_request \<Rightarrow> bytes result" where
  "adaptive_request_pack r =
     bindE (request_pack (ar_geometry r)) (\<lambda>geometry.
     bindE (policy_pack (ar_policy r)) (\<lambda>policy.
     bindE (checks
       [(hr_sample_rate_hz (ar_geometry r) \<notin> {2500000, 5000000}
          \<or> hr_dwell_samples (ar_geometry r) \<noteq> hr_sample_rate_hz (ar_geometry r) * 120 div 1000
          \<or> \<not> (ap_warmup_visits (ar_policy r) * 8 \<le> hr_dwell_count (ar_geometry r)
               \<and> hr_dwell_count (ar_geometry r) \<le> 2500),
         he ''unsupported adaptive capture geometry'')]) (\<lambda>_.
       Inr (stamp (request_stamps 2 ADAPTIVE_HOP_REQUEST_BYTES 0x3F 144) geometry @ policy))))"

definition adaptive_request_unpack :: "bytes \<Rightarrow> adaptive_request result" where
  "adaptive_request_unpack raw =
     bindE (v2_header raw (ascii_bytes ''HOPR'') 352 True) (\<lambda>_.
     bindE (checks
       [(le_value (slice 8 12 raw) \<noteq> 0x3F \<or> le_value (slice 76 78 raw) \<noteq> 144,
         he ''adaptive request features/event size mismatch'')]) (\<lambda>_.
     bindE (request_unpack (stamp (request_stamps 1 288 0x1F 80) (take 288 raw))) (\<lambda>geometry.
     bindE (policy_unpack (drop 288 raw)) (\<lambda>policy.
     let r = \<lparr>ar_geometry = geometry, ar_policy = policy\<rparr> in
     bindE (adaptive_request_pack r) (\<lambda>_. Inr r)))))"

lemma same_shape_request_stamps:
  "same_shape (request_stamps v s f e) (request_stamps v2 s2 f2 e2)"
  "apart (request_stamps v s f e)" "n \<ge> 78 \<Longrightarrow> fit_in (request_stamps v s f e) n"
  by (simp_all add: same_shape_def request_stamps_def fit_in_def)

lemma request_pack_holds:
  assumes "request_pack r = Inr bs"
  shows "length bs = 288" and "holds (request_stamps 1 288 0x1F 80) bs" and "take 4 bs = ascii_bytes ''HOPR''"
proof -
  from assms obtain ps where bs: "bs = struct_bytes request_fmt (request_fields r) @ ps"
    and len: "length bs = 288" by (auto simp: request_pack_Inr)
  show "length bs = 288" by (rule len)
  show "holds (request_stamps 1 288 0x1F 80) bs"
    by (simp add: holds_def request_stamps_def bs request_fmt_def request_fields_def slice_def)
  show "take 4 bs = ascii_bytes ''HOPR''"
    by (simp add: bs request_fmt_def request_fields_def ascii_bytes_def le_bytes_small)
qed

lemma holds_request_stamps:
  "78 \<le> length bs \<Longrightarrow> holds (request_stamps v s f e) bs \<longleftrightarrow>
     slice 4 6 bs = le_bytes 2 v \<and> slice 6 8 bs = le_bytes 2 s \<and> slice 8 12 bs = le_bytes 4 f
     \<and> slice 76 78 bs = le_bytes 2 e"
  by (simp add: holds_def request_stamps_def)

text \<open>The header test of any later version, as a statement about the first 288 bytes.\<close>

lemma request_header_holds:
  assumes "288 \<le> length raw" and "0 \<le> v \<and> v < 65536" and "0 \<le> s \<and> s < 65536"
    and "0 \<le> f \<and> f < 2 ^ 32" and "0 \<le> e \<and> e < 65536"
  shows "holds (request_stamps v s f e) (take 288 raw) \<longleftrightarrow>
     le_value (slice 4 6 raw) = v \<and> le_value (slice 6 8 raw) = s \<and> le_value (slice 8 12 raw) = f
     \<and> le_value (slice 76 78 raw) = e"
  using assms by (simp add: holds_request_stamps slice_take le_field_eq)

lemma adaptive_request_dec_enc:
  assumes "adaptive_request_pack r = Inr bs"
  shows "adaptive_request_unpack bs = Inr r" and "length bs = 352"
proof -
  from assms obtain g p where g: "request_pack (ar_geometry r) = Inr g" and p: "policy_pack (ar_policy r) = Inr p"
    and bs: "bs = stamp (request_stamps 2 352 0x3F 144) g @ p"
    by (auto simp: adaptive_request_pack_def bindE_Inr_iff)
  note G = request_pack_holds [OF g]
  note S = same_shape_request_stamps
  let ?h = "stamp (request_stamps 2 352 0x3F 144) g"
  have fit: "fit_in (request_stamps 2 352 0x3F 144) (length g)" using G(1) S(3) by simp
  have hl: "length ?h = 288" using fit G(1) by simp
  have pl: "length p = 64" using policies.enc_width p by (simp add: policy_pack_def)
  show len: "length bs = 352" using hl pl by (simp add: bs)
  have t: "take 288 bs = ?h" "drop 288 bs = p" using hl by (simp_all add: bs)
  have H: "holds (request_stamps 2 352 0x3F 144) (take 288 bs)"
    unfolding t using fit S(2) by (rule stamp_holds)
  have F: "le_value (slice 4 6 bs) = 2 \<and> le_value (slice 6 8 bs) = 352 \<and> le_value (slice 8 12 bs) = 0x3F
     \<and> le_value (slice 76 78 bs) = 144"
    using H len by (simp add: request_header_holds)
  have "take 4 bs = take 4 ?h" using hl by (simp add: bs)
  also have "\<dots> = take 4 g"
    using fit G(1) by (intro take_stamp_low) (auto simp: request_stamps_def)
  finally have M: "take 4 bs = ascii_bytes ''HOPR''" using G(3) by simp
  have restored: "stamp (request_stamps 1 288 0x1F 80) (take 288 bs) = g"
    unfolding t using G S by (intro stamp_back) auto
  have "policy_unpack p = Inr (ar_policy r)"
    using policies.dec_enc p by (simp add: policy_pack_def policy_unpack_def)
  moreover have eta: "\<lparr>ar_geometry = ar_geometry r, ar_policy = ar_policy r\<rparr> = r" by simp
  ultimately show "adaptive_request_unpack bs = Inr r"
    using assms F M len restored t request_dec_enc [OF g]
    by (simp add: adaptive_request_unpack_def v2_header_def checks_eval Let_def eta del: adaptive_request.simps)
qed

lemma adaptive_request_enc_dec:
  assumes "adaptive_request_unpack raw = Inr r"
  shows "adaptive_request_pack r = Inr raw"
proof -
  from assms have len: "length raw = 352"
    and F: "le_value (slice 4 6 raw) = 2 \<and> le_value (slice 6 8 raw) = 352 \<and> le_value (slice 8 12 raw) = 0x3F
     \<and> le_value (slice 76 78 raw) = 144"
    and g: "request_unpack (stamp (request_stamps 1 288 0x1F 80) (take 288 raw)) = Inr (ar_geometry r)"
    and p: "policy_unpack (drop 288 raw) = Inr (ar_policy r)"
    by (auto simp: adaptive_request_unpack_def v2_header_def bindE_Inr_iff Let_def)
  have "\<exists>out. adaptive_request_pack r = Inr out"
    using assms by (auto simp: adaptive_request_unpack_def bindE_Inr_iff Let_def)
  then obtain out where out: "adaptive_request_pack r = Inr out" ..
  have H: "holds (request_stamps 2 352 0x3F 144) (take 288 raw)"
    using F len by (simp add: request_header_holds)
  have "request_pack (ar_geometry r) = Inr (stamp (request_stamps 1 288 0x1F 80) (take 288 raw))"
    by (rule request_enc_dec [OF g])
  moreover have "policy_pack (ar_policy r) = Inr (drop 288 raw)"
    using policies.enc_dec p by (simp add: policy_pack_def policy_unpack_def)
  moreover have "stamp (request_stamps 2 352 0x3F 144) (stamp (request_stamps 1 288 0x1F 80) (take 288 raw)) = take 288 raw"
    using H len same_shape_request_stamps by (intro stamp_back) auto
  ultimately show ?thesis using out by (auto simp: adaptive_request_pack_def bindE_Inr_iff)
qed

interpretation adaptive_requests: wire_codec adaptive_request_pack adaptive_request_unpack "\<lambda>_. True"
  by unfold_locales (erule adaptive_request_dec_enc(1) adaptive_request_enc_dec)+

section \<open>Decisions\<close>

record adaptive_choice =
  ac_decision_counter :: int
  ac_basis_visit :: int
  ac_cooldown_remaining_samples :: int
  ac_generation :: int
  ac_proposed_target :: int
  ac_reason :: int
  ac_active_mask :: int
  ac_quiet_mask :: int
  ac_consecutive_misses :: int
  ac_mode :: int

definition choice_validate :: "hop_event \<Rightarrow> adaptive_choice \<Rightarrow> unit result" where
  "choice_validate e c = checks
     (map (a_uint 64) [ac_decision_counter c, ac_basis_visit c, ac_cooldown_remaining_samples c, ac_generation c]
      @ map (a_uint 32) [ac_proposed_target c, ac_reason c, ac_active_mask c, ac_quiet_mask c,
          ac_consecutive_misses c, ac_mode c]
      @ [(ac_generation c = 0 \<or> ac_proposed_target c \<ge> 8 \<or> ac_reason c > 4
           \<or> (ac_active_mask c OR ac_quiet_mask c) > 255
           \<or> ac_active_mask c AND ac_quiet_mask c \<noteq> 0
           \<or> ac_consecutive_misses c > 32
           \<or> ac_cooldown_remaining_samples c > 150000000
           \<or> (ac_basis_visit c \<noteq> NO_VISIT \<and> ac_basis_visit c \<ge> he_dwell_index e)
           \<or> ac_decision_counter c > he_transition_before_counter e
           \<or> ac_mode c \<notin> {1, 2}
           \<or> (ac_mode c = 2 \<and> ac_proposed_target c \<noteq> he_to_profile_index e)
           \<or> (ac_mode c = 1 \<and> he_to_profile_index e \<noteq> he_dwell_index e mod 8),
          he ''adaptive decision/actual-event mismatch'')])"

definition choice_fmt :: "field list" where
  "choice_fmt = [FU 8, FU 8, FU 8, FU 8, FU 4, FU 4, FU 4, FU 4, FU 4, FU 4, FRaw 8]"

definition choice_fields :: "adaptive_choice \<Rightarrow> val list" where
  "choice_fields c = map VInt
     [ac_decision_counter c, ac_basis_visit c, ac_cooldown_remaining_samples c, ac_generation c,
      ac_proposed_target c, ac_reason c, ac_active_mask c, ac_quiet_mask c, ac_consecutive_misses c,
      ac_mode c] @ [VBytes (replicate 8 0)]"

definition choice_pack :: "hop_event \<Rightarrow> adaptive_choice \<Rightarrow> bytes result" where
  "choice_pack e = pack_record (choice_validate e) choice_fmt choice_fields"

definition choice_guards :: "val list \<Rightarrow> (bool \<times> exn) list" where
  "choice_guards vs =
     [(bytes_at vs 10 \<noteq> replicate 8 0, he ''adaptive decision reserved bytes are nonzero'')]"

definition choice_build :: "val list \<Rightarrow> adaptive_choice result" where
  "choice_build vs =
     (if int_at vs 9 \<notin> {1, 2} then Inl (he ''unknown adaptive decision mode'')
      else Inr \<lparr>ac_decision_counter = int_at vs 0, ac_basis_visit = int_at vs 1,
        ac_cooldown_remaining_samples = int_at vs 2, ac_generation = int_at vs 3,
        ac_proposed_target = int_at vs 4, ac_reason = int_at vs 5, ac_active_mask = int_at vs 6,
        ac_quiet_mask = int_at vs 7, ac_consecutive_misses = int_at vs 8, ac_mode = int_at vs 9\<rparr>)"

definition choice_unpack :: "bytes \<Rightarrow> hop_event \<Rightarrow> adaptive_choice result" where
  "choice_unpack payload e = unpack_record (he ''adaptive decision size mismatch'') choice_fmt
     choice_guards choice_build (choice_validate e) payload"

lemma choice_size [simp]: "struct_size choice_fmt = 64"
  by (simp add: struct_size_def choice_fmt_def)

interpretation choices: record_layout "he ''adaptive decision size mismatch''" choice_fmt choice_fields
  choice_guards choice_build "choice_validate e" "choice_validate e" "\<lambda>_. True" for e
proof unfold_locales
  show "list_all (\<lambda>f. 0 < field_size f) choice_fmt" by (simp add: choice_fmt_def)
  show "list_all2 packable choice_fmt (choice_fields c) \<Longrightarrow> list_all2 fits choice_fmt (choice_fields c)" for c
    by (simp add: choice_fmt_def choice_fields_def)
  show "checks (choice_guards (choice_fields c)) = Inr ()" for c
    by (simp add: choice_guards_def choice_fields_def val_access)
  show "choice_validate e c = Inr () \<Longrightarrow> choice_build (choice_fields c) = Inr c" for c
    by (cases c) (auto simp: choice_build_def choice_fields_def val_access choice_validate_def)
  show "checks (choice_guards vs) = Inr () \<Longrightarrow> choice_build vs = Inr c \<Longrightarrow>
     choice_fields c = shape_at choice_fmt vs 0" for vs c
    by (auto simp: choice_guards_def choice_build_def choice_fields_def choice_fmt_def
        simp del: One_nat_def split: if_splits)
qed simp_all

section \<open>Evidence\<close>

record adaptive_evidence =
  ae_geometry :: hop_evidence
  ae_choices :: "adaptive_choice list"

definition adaptive_event_pack :: "hop_event \<times> adaptive_choice \<Rightarrow> bytes result" where
  "adaptive_event_pack ec =
     bindE (hop_event_pack (fst ec)) (\<lambda>event.
     bindE (choice_pack (fst ec) (snd ec)) (\<lambda>choice. Inr (event @ choice)))"

definition evidence_stamps :: "int \<Rightarrow> int \<Rightarrow> int \<Rightarrow> patch list" where
  "evidence_stamps version bytes_total features =
     [(4, le_bytes 2 version), (8, le_bytes 4 bytes_total), (12, le_bytes 4 features)]"

definition adaptive_evidence_pack :: "adaptive_evidence \<Rightarrow> bytes result" where
  "adaptive_evidence_pack v =
     (if length (ev_events (ae_geometry v)) \<noteq> length (ae_choices v)
      then Inl (he ''adaptive choices/events cardinality mismatch'')
      else bindE (evidence_pack (ae_geometry v)) (\<lambda>base.
        bindE (enc_records adaptive_event_pack (zip (ev_events (ae_geometry v)) (ae_choices v))) (\<lambda>events.
          Inr (stamp (evidence_stamps 2 (64 + int (length (ae_choices v)) * 144) 0x3F) (take 64 base) @ events))))"

definition event_slices :: "nat \<Rightarrow> bytes \<Rightarrow> bytes" where
  "event_slices count raw = concat (map (\<lambda>i. slice (64 + i * 144) (144 + i * 144) raw) [0..<count])"

definition adaptive_evidence_unpack :: "bytes \<Rightarrow> adaptive_evidence result" where
  "adaptive_evidence_unpack raw =
     bindE (v2_header raw (ascii_bytes ''HOPS'') 64 False) (\<lambda>_.
     let count = le_value (slice 20 22 raw); capacity = le_value (slice 22 24 raw);
         declared = le_value (slice 8 12 raw); features = le_value (slice 12 16 raw) in
     bindE (checks
       [(count > 8 \<or> capacity \<noteq> 8 \<or> features \<noteq> 0x3F \<or> declared \<noteq> int (length raw)
          \<or> declared \<noteq> 64 + count * 144,
         he ''adaptive evidence size/features mismatch'')]) (\<lambda>_.
     bindE (evidence_unpack
       (stamp (evidence_stamps 1 (64 + count * 80) 0x1F) (take 64 raw) @ event_slices (nat count) raw)) (\<lambda>geometry.
     bindE (mapE (\<lambda>(i, event). choice_unpack (slice (144 + i * 144) (208 + i * 144) raw) event)
              (enumerate 0 (ev_events geometry))) (\<lambda>choices.
       Inr \<lparr>ae_geometry = geometry, ae_choices = choices\<rparr>))))"

lemma evidence_stamps_shape:
  "same_shape (evidence_stamps v n f) (evidence_stamps v2 n2 f2)"
  "apart (evidence_stamps v n f)" "m \<ge> 16 \<Longrightarrow> fit_in (evidence_stamps v n f) m"
  by (simp_all add: same_shape_def evidence_stamps_def fit_in_def)

lemma holds_evidence_stamps:
  "holds (evidence_stamps v n f) bs \<longleftrightarrow>
     slice 4 6 bs = le_bytes 2 v \<and> slice 8 12 bs = le_bytes 4 n \<and> slice 12 16 bs = le_bytes 4 f"
  by (simp add: holds_def evidence_stamps_def)

lemma evidence_pack_header:
  assumes "evidence_pack v = Inr bs"
  shows "holds (evidence_stamps 1 (64 + int (length (ev_events v)) * 80) 0x1F) (take 64 bs)"
    and "take 4 bs = ascii_bytes ''HOPS''" and "slice 6 8 bs = le_bytes 2 64"
    and "slice 20 22 bs = le_bytes 2 (int (length (ev_events v)))" and "slice 22 24 bs = le_bytes 2 8"
    and "length (ev_events v) \<le> 8" and "length bs = 64 + 80 * length (ev_events v)"
    and "enc_records hop_event_pack (ev_events v) = Inr (drop 64 bs)"
proof -
  from assms obtain es where v: "evidence_validate v = Inr ()"
    and p: "list_all2 packable evidence_fmt (evidence_fields v)"
    and es: "enc_records hop_event_pack (ev_events v) = Inr es"
    and bs: "bs = struct_bytes evidence_fmt (evidence_fields v) @ es"
    by (auto simp: evidence_pack_Inr)
  show "holds (evidence_stamps 1 (64 + int (length (ev_events v)) * 80) 0x1F) (take 64 bs)"
    unfolding holds_evidence_stamps
    by (simp add: slice_take bs evidence_fmt_def evidence_fields_def slice_def)
  show "take 4 bs = ascii_bytes ''HOPS''"
    by (simp add: bs evidence_fmt_def evidence_fields_def ascii_bytes_def le_bytes_small)
  show "slice 6 8 bs = le_bytes 2 64" "slice 20 22 bs = le_bytes 2 (int (length (ev_events v)))"
    "slice 22 24 bs = le_bytes 2 8"
    by (simp_all add: bs evidence_fmt_def evidence_fields_def slice_def)
  have hl: "length (struct_bytes evidence_fmt (evidence_fields v)) = 64"
    using p by (simp add: length_struct_bytes list_all2_lengthD)
  then show "enc_records hop_event_pack (ev_events v) = Inr (drop 64 bs)" using es by (simp add: bs)
  show "length (ev_events v) \<le> 8"
    using v by (auto simp: evidence_validate_def bindE_Inr_iff checks_ok_iff)
  show "length bs = 64 + 80 * length (ev_events v)" using evidence_dec_enc(2) [OF assms] .
qed

text \<open>Reading the two halves of the blocks that follow the header.\<close>

lemma block_slices:
  assumes "\<forall>b \<in> set bss. length b = 144" and "i < length bss" and "length h = 64"
  shows "slice (64 + i * 144) (144 + i * 144) (h @ concat bss) = take 80 (bss ! i)"
    and "slice (144 + i * 144) (208 + i * 144) (h @ concat bss) = drop 80 (bss ! i)"
proof -
  have b: "slice (i * 144) (Suc i * 144) (concat bss) = bss ! i"
    using assms(1,2) by (rule slice_concat_uniform)
  have "slice (i * 144) (80 + i * 144) (concat bss) = take 80 (slice (i * 144) (Suc i * 144) (concat bss))"
    by (simp add: slice_def)
  then show "slice (64 + i * 144) (144 + i * 144) (h @ concat bss) = take 80 (bss ! i)"
    using assms(3) b by (simp add: slice_append_right)
  have "slice (80 + i * 144) (144 + i * 144) (concat bss) = drop 80 (slice (i * 144) (Suc i * 144) (concat bss))"
    by (simp add: slice_def drop_take add.commute)
  then show "slice (144 + i * 144) (208 + i * 144) (h @ concat bss) = drop 80 (bss ! i)"
    using assms(3) b by (simp add: slice_append_right)
qed

lemma adaptive_event_pack_Inr:
  "adaptive_event_pack (e, c) = Inr b \<longleftrightarrow>
     hop_event_pack e = Inr (take 80 b) \<and> choice_pack e c = Inr (drop 80 b) \<and> length b = 144"
  (is "?l \<longleftrightarrow> ?r")
proof
  assume ?l
  then obtain x y where x: "hop_event_pack e = Inr x" and y: "choice_pack e c = Inr y" and b: "b = x @ y"
    by (auto simp: adaptive_event_pack_def bindE_Inr_iff)
  have "length x = 80" using hop_events.enc_width x by (simp add: hop_event_pack_def)
  moreover have "length y = 64" using choices.enc_width y by (simp add: choice_pack_def)
  ultimately show ?r using x y b by simp
qed (simp add: adaptive_event_pack_def bindE_Inr_iff)

lemma mapE_nth:
  "length xs = n \<Longrightarrow> (\<And>i. i < n \<Longrightarrow> f (xs ! i) = Inr (g i)) \<Longrightarrow> mapE f xs = Inr (map g [0..<n])"
  by (simp add: mapE_Inr_iff list_all2_conv_all_nth)

lemma slice_all_from: "length bs \<le> b \<Longrightarrow> slice a b bs = drop a bs"
  by (simp add: slice_def)

lemma le_slice:
  "b \<le> length raw \<Longrightarrow> 0 \<le> n \<Longrightarrow> n < 256 ^ (b - a) \<Longrightarrow> le_value (slice a b raw) = n \<Longrightarrow>
     slice a b raw = le_bytes (b - a) n"
  by (subst le_field_eq [symmetric]) auto

lemma enumerate_all2:
  "list_all2 (\<lambda>x y. P (fst x) (snd x) y) (enumerate 0 xs) ys \<longleftrightarrow> length xs = length ys \<and> (\<forall>i < length xs. P i (xs ! i) (ys ! i))"
  by (auto simp: list_all2_conv_all_nth nth_enumerate_eq)

lemma adaptive_evidence_dec_enc:
  assumes "adaptive_evidence_pack v = Inr out"
  shows "adaptive_evidence_unpack out = Inr v" and "length out = 64 + 144 * length (ae_choices v)"
proof -
  let ?es = "ev_events (ae_geometry v)" and ?n = "length (ae_choices v)"
  let ?S = "evidence_stamps 2 (64 + int ?n * 144) 0x3F" and ?B = "evidence_stamps 1 (64 + int ?n * 80) 0x1F"
  from assms obtain base ev where n: "length ?es = ?n" and base: "evidence_pack (ae_geometry v) = Inr base"
    and ev: "enc_records adaptive_event_pack (zip ?es (ae_choices v)) = Inr ev"
    and out: "out = stamp ?S (take 64 base) @ ev"
    by (auto simp: adaptive_evidence_pack_def bindE_Inr_iff split: if_splits)
  note H = evidence_pack_header [OF base, unfolded n]
  obtain bss where bss: "list_all2 (\<lambda>ec b. adaptive_event_pack ec = Inr b) (zip ?es (ae_choices v)) bss"
    and ev: "ev = concat bss" using ev by (auto simp: enc_records_def bindE_Inr_iff mapE_Inr_iff)
  have bl: "length bss = ?n" using list_all2_lengthD [OF bss] n by simp
  have each: "hop_event_pack (?es ! i) = Inr (take 80 (bss ! i)) \<and>
      choice_pack (?es ! i) (ae_choices v ! i) = Inr (drop 80 (bss ! i)) \<and> length (bss ! i) = 144" if "i < ?n" for i
    using list_all2_nthD2 [OF bss, of i] that n bl by (simp add: adaptive_event_pack_Inr)
  then have uni: "\<forall>b \<in> set bss. length b = 144" using bl by (auto simp: in_set_conv_nth)
  let ?h = "take 64 base"
  have hl: "length ?h = 64" using H(7) by simp
  have fit: "fit_in ?S (length ?h)" using hl evidence_stamps_shape(3) by simp
  have h2: "length (stamp ?S ?h) = 64" using fit hl by simp
  show len: "length out = 64 + 144 * ?n"
    using h2 bl concat_uniform_length [OF uni] by (simp add: out ev)
  have low: "slice a b out = slice a b (stamp ?S ?h)" if "b \<le> 64" for a b
    using that h2 by (simp add: out slice_append_left)
  have kept: "slice a b out = slice a b base" if "6 \<le> a \<and> b \<le> 8 \<or> 16 \<le> a \<and> b \<le> 64" for a b
  proof -
    have "\<forall>(off, new) \<in> set ?S. b \<le> off \<or> off + length new \<le> a"
      using that by (auto simp: evidence_stamps_def)
    then show ?thesis using low [of b a] slice_stamp_apart [OF fit] that slice_take [of b 64 a base] by auto
  qed
  have hold: "holds ?S (take 64 out)"
    using stamp_holds [OF fit evidence_stamps_shape(2)] h2 by (simp add: out)
  then have F: "slice 4 6 out = le_bytes 2 2" "slice 8 12 out = le_bytes 4 (64 + int ?n * 144)"
    "slice 12 16 out = le_bytes 4 0x3F"
    by (simp_all add: holds_evidence_stamps slice_take)
  have "take 4 out = take 4 (stamp ?S ?h)" using h2 by (simp add: out)
  also have "\<dots> = take 4 ?h" using fit hl by (intro take_stamp_low) (auto simp: evidence_stamps_def)
  finally have M: "take 4 out = ascii_bytes ''HOPS''" using H(2) by simp
  have vals: "le_value (slice 4 6 out) = 2" "le_value (slice 6 8 out) = 64"
    "le_value (slice 8 12 out) = 64 + int ?n * 144" "le_value (slice 12 16 out) = 0x3F"
    "le_value (slice 20 22 out) = int ?n" "le_value (slice 22 24 out) = 8"
    using F H(3,4,5,6) kept [of 6 8] kept [of 20 22] kept [of 22 24]
    by (simp_all add: le_value_le_bytes)
  have slices: "event_slices ?n out = concat (map (take 80) bss)"
    unfolding event_slices_def
  proof (intro arg_cong [where f = concat], rule nth_equalityI)
    show "map (\<lambda>i. slice (64 + i * 144) (144 + i * 144) out) [0..<?n] ! i = map (take 80) bss ! i"
      if "i < length (map (\<lambda>i. slice (64 + i * 144) (144 + i * 144) out) [0..<?n])" for i
      using that uni bl h2 by (simp add: out ev block_slices)
  qed (simp add: bl)
  have "mapE hop_event_pack ?es = Inr (map (take 80) bss)"
    using each n bl by (simp add: mapE_Inr_iff list_all2_conv_all_nth)
  then have "drop 64 base = concat (map (take 80) bss)" using H(8) by (simp add: enc_records_def)
  moreover have "stamp ?B (take 64 out) = ?h"
    using H(1) hl h2 evidence_stamps_shape by (simp add: out) (intro stamp_back, simp_all)
  ultimately have G: "evidence_unpack (stamp ?B (take 64 out) @ event_slices ?n out) = Inr (ae_geometry v)"
    using evidence_dec_enc(1) [OF base] slices by (metis append_take_drop_id)
  have "mapE (\<lambda>(i, event). choice_unpack (slice (144 + i * 144) (208 + i * 144) out) event)
      (enumerate 0 ?es) = Inr (ae_choices v)"
    unfolding mapE_Inr_iff
  proof (subst list_all2_conv_all_nth, intro conjI allI impI)
    fix i assume i: "i < length (enumerate 0 ?es)"
    then have "choice_unpack (drop 80 (bss ! i)) (?es ! i) = Inr (ae_choices v ! i)"
      using each [of i] n choices.dec_enc by (simp add: choice_unpack_def choice_pack_def)
    then show "(case enumerate 0 ?es ! i of (i, event) \<Rightarrow>
        choice_unpack (slice (144 + i * 144) (208 + i * 144) out) event) = Inr (ae_choices v ! i)"
      using i uni bl n h2 by (simp add: nth_enumerate_eq out ev block_slices)
  qed (simp add: n)
  moreover have eta: "\<lparr>ae_geometry = ae_geometry v, ae_choices = ae_choices v\<rparr> = v" by simp
  ultimately show "adaptive_evidence_unpack out = Inr v"
    using G vals M len H(6)
    by (simp add: adaptive_evidence_unpack_def v2_header_def checks_eval eta del: adaptive_evidence.simps)
qed

lemma length_event_slices:
  "64 + count * 144 \<le> length raw \<Longrightarrow> length (event_slices count raw) = count * 80"
proof -
  assume len: "64 + count * 144 \<le> length raw"
  have "length (slice (64 + i * 144) (144 + i * 144) raw) = 80" if "i < count" for i
  proof -
    have "144 + i * 144 \<le> length raw" using that len by simp
    then show ?thesis by simp
  qed
  then have "\<forall>b \<in> set (map (\<lambda>i. slice (64 + i * 144) (144 + i * 144) raw) [0..<count]). length b = 80" by simp
  from concat_uniform_length [OF this] show ?thesis by (simp add: event_slices_def)
qed

lemma event_slices_nth:
  assumes "64 + count * 144 \<le> length raw" and "i < count"
  shows "slice (i * 80) (Suc i * 80) (event_slices count raw) = slice (64 + i * 144) (144 + i * 144) raw"
proof -
  have "length (slice (64 + j * 144) (144 + j * 144) raw) = 80" if "j < count" for j
  proof -
    have "144 + j * 144 \<le> length raw" using that assms(1) by simp
    then show ?thesis by simp
  qed
  then show ?thesis unfolding event_slices_def
    using slice_concat_uniform [of "map (\<lambda>i. slice (64 + i * 144) (144 + i * 144) raw) [0..<count]" 80 i] assms(2)
    by simp
qed

lemma adaptive_evidence_enc_dec:
  assumes "adaptive_evidence_unpack raw = Inr v"
  shows "adaptive_evidence_pack v = Inr raw"
proof -
  let ?es = "ev_events (ae_geometry v)"
  let ?count = "le_value (slice 20 22 raw)"
  define m where "m = nat ?count"
  from assms have F: "64 \<le> length raw" "take 4 raw = ascii_bytes ''HOPS''" "le_value (slice 4 6 raw) = 2"
      "le_value (slice 6 8 raw) = 64" "?count \<le> 8" "le_value (slice 22 24 raw) = 8"
      "le_value (slice 12 16 raw) = 0x3F" "le_value (slice 8 12 raw) = int (length raw)"
      "int (length raw) = 64 + ?count * 144"
    and G: "evidence_unpack (stamp (evidence_stamps 1 (64 + ?count * 80) 0x1F) (take 64 raw) @ event_slices (nat ?count) raw)
       = Inr (ae_geometry v)"
    and C: "list_all2 (\<lambda>x c. choice_unpack (slice (144 + fst x * 144) (208 + fst x * 144) raw) (snd x) = Inr c)
       (enumerate 0 ?es) (ae_choices v)"
    by (auto simp: adaptive_evidence_unpack_def v2_header_def bindE_Inr_iff Let_def mapE_Inr_iff case_prod_beta)
  have cn: "?count = int m" using le_value_bounds(1) [of "slice 20 22 raw"] by (simp add: m_def)
  have len: "length raw = 64 + m * 144" using F(9) cn by linarith
  let ?B = "evidence_stamps 1 (64 + int m * 80) 0x1F" and ?S = "evidence_stamps 2 (64 + int m * 144) 0x3F"
  let ?base = "stamp ?B (take 64 raw) @ event_slices m raw"
  have base: "evidence_pack (ae_geometry v) = Inr ?base"
    using evidence_enc_dec [OF G [folded m_def]] by (simp only: cn)
  have hl: "length (stamp ?B (take 64 raw)) = 64" using F(1) evidence_stamps_shape(3) by simp
  have n: "length ?es = m"
    using evidence_pack_header(7) [OF base] hl length_event_slices [of m raw] len by simp
  have cl: "length (ae_choices v) = m" using enumerate_all2 [THEN iffD1, OF C] n by simp
  have ch: "choice_pack (?es ! i) (ae_choices v ! i) = Inr (slice (144 + i * 144) (208 + i * 144) raw)" if "i < m" for i
  proof -
    have "choice_unpack (slice (144 + i * 144) (208 + i * 144) raw) (?es ! i) = Inr (ae_choices v ! i)"
      using enumerate_all2 [THEN iffD1, OF C] that n by simp
    then show ?thesis using choices.enc_dec by (simp add: choice_unpack_def choice_pack_def)
  qed
  obtain bs where bs: "mapE hop_event_pack ?es = Inr bs" and cat: "concat bs = event_slices m raw"
    using evidence_pack_header(8) [OF base] hl by (auto simp: enc_records_def bindE_Inr_iff)
  have ev: "hop_event_pack (?es ! i) = Inr (bs ! i)" "length bs = m" if "i < m" for i
    using bs that n by (auto simp: mapE_Inr_iff list_all2_conv_all_nth)
  have "\<forall>b \<in> set bs. length b = 80"
    using bs hop_events.enc_each_width by (simp add: hop_event_pack_def mapE_Inr_iff)
  then have bsi: "bs ! i = slice (64 + i * 144) (144 + i * 144) raw" if "i < m" for i
    using slice_concat_uniform [of bs 80 i] that ev(2) [OF that] len event_slices_nth [of m raw i]
    by (simp add: cat)
  have packed: "adaptive_event_pack (?es ! i, ae_choices v ! i) = Inr (slice (64 + i * 144) (64 + Suc i * 144) raw)"
    if i: "i < m" for i
  proof -
    have "slice (64 + i * 144) (144 + i * 144) raw @ slice (144 + i * 144) (208 + i * 144) raw
        = slice (64 + i * 144) (64 + Suc i * 144) raw" by (simp add: slice_append_slice)
    then show ?thesis using ev(1) [OF i] ch [OF i] bsi [OF i] by (simp add: adaptive_event_pack_def)
  qed
  have "mapE adaptive_event_pack (zip ?es (ae_choices v))
      = Inr (map (\<lambda>i. slice (64 + i * 144) (64 + Suc i * 144) raw) [0..<m])"
  proof (rule mapE_nth)
    show "length (zip ?es (ae_choices v)) = m" by (simp only: length_zip n cl min.idem)
    fix i assume i: "i < m"
    then have "zip ?es (ae_choices v) ! i = (?es ! i, ae_choices v ! i)" by (intro nth_zip) (simp_all only: n cl)
    then show "adaptive_event_pack (zip ?es (ae_choices v) ! i) = Inr (slice (64 + i * 144) (64 + Suc i * 144) raw)"
      using packed [OF i] by (simp only:)
  qed
  moreover have "concat (map (\<lambda>i. slice (64 + i * 144) (64 + Suc i * 144) raw) [0..<m]) = drop 64 raw"
  proof -
    note concat_slices [OF eq_refl [OF len [symmetric]]]
    also have "slice 64 (64 + m * 144) raw = drop 64 raw" by (rule slice_all_from) (rule eq_refl [OF len])
    finally show ?thesis .
  qed
  moreover have "stamp ?S (take 64 ?base) = take 64 raw"
  proof -
    have total: "le_value (slice 8 12 raw) = 64 + int m * 144" using F(8,9) cn by simp
    have small: "0 \<le> 64 + int m * 144 \<and> 64 + int m * 144 < 256 ^ 4" using F(5) cn by simp
    have "holds ?S (take 64 raw)"
      using le_slice [where raw = raw and a = 4 and b = 6 and n = 2]
        le_slice [where raw = raw and a = 8 and b = 12 and n = "64 + int m * 144"]
        le_slice [where raw = raw and a = 12 and b = 16 and n = 63]
        F(1,3,7) total small by (simp add: holds_evidence_stamps slice_take)
    then show ?thesis using hl F(1) evidence_stamps_shape by simp (intro stamp_back, simp_all)
  qed
  ultimately show ?thesis
    using n cl base by (simp add: adaptive_evidence_pack_def enc_records_def)
qed

interpretation adaptive_evidences: wire_codec adaptive_evidence_pack adaptive_evidence_unpack "\<lambda>_. True"
  by unfold_locales (erule adaptive_evidence_dec_enc(1) adaptive_evidence_enc_dec)+

section \<open>Binding to the request\<close>

text \<open>\<open>_validate_event_binding\<close>: the loop over events and choices, \<open>previous\<close> being the last event.\<close>

fun bind_events ::
    "hop_request \<Rightarrow> adaptive_policy \<Rightarrow> hop_event option \<Rightarrow> (hop_event \<times> adaptive_choice) list \<Rightarrow> unit result" where
  "bind_events g p previous [] = Inr ()"
| "bind_events g p previous ((e, c) # rest) =
     bindE (request_profile g (he_to_profile_index e)) (\<lambda>profile.
     bindE (checks
       [(ac_generation c \<noteq> ap_generation p \<or> ac_mode c \<noteq> ap_mode p
          \<or> ac_consecutive_misses c > ap_missed_dwells p
          \<or> ac_cooldown_remaining_samples c > hr_sample_rate_hz g * ap_cooldown_ms p div 1000
          \<or> he_actual_lo_frequency_hz e \<noteq> hp_lo_hz profile
          \<or> he_actual_if_offset_hz e \<noteq> hr_if_offset_hz g
          \<or> he_fastlock_slot e \<noteq> hp_fastlock_profile_index profile
          \<or> he_invalid_end_counter_exclusive e
               \<noteq> he_transition_after_counter e + hr_transition_guard_samples g
          \<or> (case previous of None \<Rightarrow> False
             | Some q \<Rightarrow> he_from_profile_index e \<noteq> he_to_profile_index q
                 \<or> he_invalid_start_counter e
                     \<noteq> he_invalid_end_counter_exclusive q + hr_dwell_samples g
                 \<or> ac_decision_counter c < he_invalid_start_counter e),
         he ''adaptive event/request binding mismatch'')]) (\<lambda>_.
       bind_events g p (Some e) rest))"

definition validate_event_binding ::
    "hop_evidence \<Rightarrow> adaptive_choice list \<Rightarrow> hop_request \<Rightarrow> adaptive_policy \<Rightarrow> unit result" where
  "validate_event_binding v cs g p =
     (if ev_session_id v \<noteq> hr_session_id g then Inl (he ''adaptive session identity mismatch'')
      else bind_events g p None (zip (ev_events v) cs))"

definition validate_binding :: "adaptive_evidence \<Rightarrow> adaptive_request \<Rightarrow> unit result" where
  "validate_binding v r =
     bindE (adaptive_request_pack r) (\<lambda>_.
     bindE (adaptive_evidence_pack v) (\<lambda>_.
       validate_event_binding (ae_geometry v) (ae_choices v) (ar_geometry r) (ar_policy r)))"

section \<open>Status\<close>

definition status_stamps :: "int \<Rightarrow> int \<Rightarrow> patch list" where
  "status_stamps version features = [(4, le_bytes 2 version), (8, le_bytes 4 features)]"

definition adaptive_status_pack :: "hop_status \<Rightarrow> bytes result" where
  "adaptive_status_pack s = bindE (status_pack s) (\<lambda>packet. Inr (stamp (status_stamps 2 0x3F) packet))"

definition adaptive_status_unpack :: "bytes \<Rightarrow> hop_status result" where
  "adaptive_status_unpack payload =
     bindE (v2_header payload (ascii_bytes ''HOPT'') 160 True) (\<lambda>_.
     bindE (checks [(le_value (slice 8 12 payload) \<noteq> 0x3F, he ''adaptive status features mismatch'')]) (\<lambda>_.
       status_unpack (stamp (status_stamps 1 0x1F) payload)))"

lemma status_pack_header:
  assumes "status_pack s = Inr bs"
  shows "length bs = 160" and "holds (status_stamps 1 0x1F) bs" and "take 4 bs = ascii_bytes ''HOPT''"
    and "slice 6 8 bs = le_bytes 2 160"
proof -
  have bs: "bs = struct_bytes status_fmt (status_fields s)"
    using assms by (simp add: status_pack_def pack_record_Inr)
  show "length bs = 160" using hop_statuses.enc_width assms by (simp add: status_pack_def)
  show "holds (status_stamps 1 0x1F) bs"
    by (simp add: holds_def status_stamps_def bs status_fmt_eq status_fields_def slice_def)
  show "take 4 bs = ascii_bytes ''HOPT''"
    by (simp add: bs status_fmt_eq status_fields_def ascii_bytes_def le_bytes_small)
  show "slice 6 8 bs = le_bytes 2 160"
    by (simp add: bs status_fmt_eq status_fields_def slice_def)
qed

text \<open>A base decoder that accepts a buffer finds its own header in it, so the two headers can be exchanged.\<close>

lemma adaptive_status_dec:
  "adaptive_status_unpack bs = Inr s \<longleftrightarrow>
     160 \<le> length bs \<and> holds (status_stamps 2 0x3F) bs \<and> status_unpack (stamp (status_stamps 1 0x1F) bs) = Inr s"
  (is "?l \<longleftrightarrow> ?r")
proof
  assume ?l
  then show ?r
    using le_slice [where raw = bs and a = 4 and b = 6 and n = 2] le_slice [where raw = bs and a = 8 and b = 12 and n = 63]
    by (auto simp: adaptive_status_unpack_def v2_header_def bindE_Inr_iff holds_def status_stamps_def)
next
  assume r: ?r
  then have fit: "fit_in (status_stamps 1 0x1F) (length bs)" by (simp add: status_stamps_def fit_in_def)
  from r have "status_pack s = Inr (stamp (status_stamps 1 0x1F) bs)"
    using hop_statuses.enc_dec by (simp add: status_unpack_def status_pack_def)
  note H = status_pack_header [OF this]
  have "length bs = 160" using H(1) fit by simp
  moreover have "take 4 bs = ascii_bytes ''HOPT''"
    using H(3) fit r by (subst (asm) take_stamp_low) (auto simp: status_stamps_def)
  moreover have "slice 6 8 bs = le_bytes 2 160"
    using H(4) fit r by (subst (asm) slice_stamp_apart) (auto simp: status_stamps_def)
  moreover have "slice 4 6 bs = le_bytes 2 2" "slice 8 12 bs = le_bytes 4 0x3F"
    using r by (simp_all add: holds_def status_stamps_def)
  ultimately show ?l
    using r by (simp add: adaptive_status_unpack_def v2_header_def checks_eval le_value_le_bytes)
qed

interpretation adaptive_statuses: restamped status_pack status_unpack "\<lambda>_. True"
  "status_stamps 1 0x1F" "status_stamps 2 0x3F" 160 adaptive_status_pack adaptive_status_unpack
proof unfold_locales
  show "status_pack s = Inr bs \<Longrightarrow> status_unpack bs = Inr s" for s bs
    using hop_statuses.dec_enc by (simp add: status_pack_def status_unpack_def)
  show "status_unpack bs = Inr s \<Longrightarrow> status_pack s = Inr bs" for s bs
    using hop_statuses.enc_dec by (simp add: status_pack_def status_unpack_def)
  show "status_pack s = Inr bs \<Longrightarrow> 160 \<le> length bs \<and> holds (status_stamps 1 0x1F) bs" for s bs
    by (metis status_pack_header(1,2) order_refl)
qed (simp_all add: same_shape_def status_stamps_def fit_in_def adaptive_status_pack_def adaptive_status_dec
      [unfolded status_stamps_def])

end
