(* ===== verification/Host_Adaptive.thy ===== *)
theory Host_Adaptive
  imports Adaptive_Hop
begin

text \<open>
  \<open>host_adaptive_hop.py\<close>: versions 3 and 4 of the hop records, where the host decides the next
  target from one receiver. Requests carry a decision configuration after geometry and policy;
  evidence and status are the version 2 records under a new header; the feedback record carries
  the host's verdict on one visit back to the device.
\<close>

section \<open>Decision configurations\<close>

definition h_uint :: "nat \<Rightarrow> int \<Rightarrow> bool \<times> exn" where
  "h_uint bits v = (\<not> in_uint bits v, he ''host-adaptive value outside uint'')"

definition h_digest :: "bytes \<Rightarrow> bool \<times> exn" where
  "h_digest d = (length d \<noteq> 32 \<or> (\<forall>b \<in> set d. b = 0), he ''host decision identity requires a nonzero SHA-256'')"

text \<open>\<open>HostDecisionConfigurationV2\<close> is a subclass with one more field: a record extension.\<close>

record host_decision =
  hd_receiver_id :: int
  hd_configuration_sha256 :: bytes

record host_decision2 = host_decision +
  hd_source_rate_hz :: int

definition config_fmt :: "field list" where
  "config_fmt = [FU 4, FU 4, FU 4, FU 4, FU 4, FU 4, FU 4, FU 4, FRaw 32]"

definition config1_validate :: "host_decision \<Rightarrow> unit result" where
  "config1_validate d = checks
     [h_uint 32 (hd_receiver_id d), h_digest (hd_configuration_sha256 d),
      (hd_receiver_id d \<notin> {0, 1}, he ''host decision requires physical RX0 or RX1'')]"

definition config1_fields :: "host_decision \<Rightarrow> val list" where
  "config1_fields d = map VInt [1, hd_receiver_id d, 2500000, 4, 0, 80, 40, 300000]
     @ [VBytes (hd_configuration_sha256 d)]"

definition config1_pack :: "host_decision \<Rightarrow> bytes result" where
  "config1_pack = pack_record config1_validate config_fmt config1_fields"

definition config1_build :: "val list \<Rightarrow> host_decision result" where
  "config1_build vs = Inr \<lparr>hd_receiver_id = int_at vs 1, hd_configuration_sha256 = bytes_at vs 8\<rparr>"

definition config1_unpack :: "bytes \<Rightarrow> host_decision result" where
  "config1_unpack = unpack_reencoded (he ''host decision configuration size mismatch'')
     (he ''unqualified host decimation geometry'') config_fmt (\<lambda>_. []) config1_build config1_pack"

text \<open>The table of decimation factor, filter delay and first supported sample per source rate.\<close>

definition multirate :: "int \<Rightarrow> int \<times> int \<times> int" where
  "multirate rate =
     (if rate = 15000000 then (6, 100, 34) else if rate = 20000000 then (8, 128, 32) else (0, 0, 0))"

definition config2_validate :: "host_decision2 \<Rightarrow> unit result" where
  "config2_validate d = checks
     [h_uint 32 (hd_receiver_id d), h_digest (hd_configuration_sha256 d),
      (hd_receiver_id d \<noteq> 0 \<or> hd_source_rate_hz d \<notin> {15000000, 20000000},
       he ''multirate host decision requires RX0 at 15/20 MS/s'')]"

definition config2_fields :: "host_decision2 \<Rightarrow> val list" where
  "config2_fields d =
     (case multirate (hd_source_rate_hz d) of (factor, delay, supported_start) \<Rightarrow>
        map VInt [2, 0, 2500000, factor, 0, delay, supported_start, 300000]
        @ [VBytes (hd_configuration_sha256 d)])"

definition config2_pack :: "host_decision2 \<Rightarrow> bytes result" where
  "config2_pack = pack_record config2_validate config_fmt config2_fields"

definition config2_build :: "val list \<Rightarrow> host_decision2 result" where
  "config2_build vs = Inr \<lparr>hd_receiver_id = int_at vs 1, hd_configuration_sha256 = bytes_at vs 8,
     hd_source_rate_hz = (if int_at vs 3 = 6 then 15000000 else if int_at vs 3 = 8 then 20000000 else 0)\<rparr>"

definition config2_unpack :: "bytes \<Rightarrow> host_decision2 result" where
  "config2_unpack = unpack_reencoded (he ''host decision configuration size mismatch'')
     (he ''unqualified multirate host decimation geometry'') config_fmt (\<lambda>_. []) config2_build config2_pack"

lemma config_size [simp]: "struct_size config_fmt = 64"
  by (simp add: struct_size_def config_fmt_def)

interpretation configs1: reencoded "he ''host decision configuration size mismatch''"
  "he ''unqualified host decimation geometry''" config_fmt config1_fields "\<lambda>_. []" config1_build config1_validate
proof unfold_locales
  show "config1_validate d = Inr () \<Longrightarrow> list_all2 packable config_fmt (config1_fields d) \<Longrightarrow>
     list_all2 fits config_fmt (config1_fields d)" for d
    by (auto simp: config_fmt_def config1_fields_def config1_validate_def h_digest_def)
qed (simp_all add: config1_build_def config1_fields_def val_access)

interpretation configs2: reencoded "he ''host decision configuration size mismatch''"
  "he ''unqualified multirate host decimation geometry''" config_fmt config2_fields "\<lambda>_. []" config2_build
  config2_validate
proof unfold_locales
  show "config2_validate d = Inr () \<Longrightarrow> list_all2 packable config_fmt (config2_fields d) \<Longrightarrow>
     list_all2 fits config_fmt (config2_fields d)" for d
    by (auto simp: config_fmt_def config2_fields_def config2_validate_def h_digest_def multirate_def)
  show "config2_validate d = Inr () \<Longrightarrow> config2_build (config2_fields d) = Inr d" for d
    by (cases d) (auto simp: config2_build_def config2_fields_def config2_validate_def multirate_def val_access)
qed simp_all

definition require_host_adaptive_capabilities :: "(string \<times> string) list \<Rightarrow> adaptive_policy \<Rightarrow> bool \<Rightarrow> unit result" where
  "require_host_adaptive_capabilities attributes p multirate_decision =
     bindE (require_pinned_policy p) (\<lambda>_. checks
       [((\<exists>(key, v) \<in> set
           [(''iio,buffer-host-adaptive-hop-event'', ''3''),
            (''iio,buffer-host-adaptive-hop-status'', ''3''),
            (''iio,buffer-metadata-feedback'', ''1''),
            (''iio,buffer-adaptive-hop-modes'', ''shadow,adaptive''),
            (''iio,buffer-adaptive-hop-policy'', ''three-miss-two-second-v1'')].
           map_of attributes key \<noteq> Some v)
         \<or> map_of attributes ''iio,buffer-host-adaptive-hop-request''
             \<notin> Some ` set (if multirate_decision then [''3,4''] else [''3'', ''3,4''])
         \<or> map_of attributes ''iio,buffer-host-adaptive-hop-feedback''
             \<notin> Some ` set (if multirate_decision then [''1,2''] else [''1'', ''1,2'']),
         hc ''host-adaptive peer capabilities/policy are incompatible'')])"

section \<open>Requests\<close>

text \<open>
  Versions 3 and 4 share everything but the version number, the feature mask, the geometry rule
  and the configuration codec.
\<close>

record 'd host_request =
  hq_geometry :: hop_request
  hq_policy :: adaptive_policy
  hq_decision :: 'd

definition host_request_pack ::
    "int \<Rightarrow> int \<Rightarrow> ('d host_request \<Rightarrow> (bool \<times> exn) list) \<Rightarrow> ('d \<Rightarrow> bytes result) \<Rightarrow> 'd host_request \<Rightarrow> bytes result" where
  "host_request_pack version features geometry_checks decision_pack r =
     bindE (request_pack (hq_geometry r)) (\<lambda>packet.
     bindE (require_pinned_policy (hq_policy r)) (\<lambda>_.
     bindE (checks (geometry_checks r)) (\<lambda>_.
     bindE (policy_pack (hq_policy r)) (\<lambda>policy.
     bindE (decision_pack (hq_decision r)) (\<lambda>decision.
       Inr (stamp (request_stamps version 416 features 144) packet @ policy @ decision))))))"

definition host_request_unpack ::
    "int \<Rightarrow> int \<Rightarrow> string \<Rightarrow> (bytes \<Rightarrow> 'd result) \<Rightarrow> ('d host_request \<Rightarrow> bytes result) \<Rightarrow> bytes \<Rightarrow> 'd host_request result" where
  "host_request_unpack version features mismatch decision_unpack pack raw =
     bindE (checks
       [(length raw \<noteq> 416 \<or> take 4 raw \<noteq> ascii_bytes ''HOPR''
          \<or> le_value (slice 4 6 raw) \<noteq> version \<or> le_value (slice 6 8 raw) \<noteq> 416
          \<or> le_value (slice 8 12 raw) \<noteq> features \<or> le_value (slice 76 78 raw) \<noteq> 144,
         he mismatch)]) (\<lambda>_.
     bindE (request_unpack (stamp (request_stamps 1 288 0x1F 80) (take 288 raw))) (\<lambda>geometry.
     bindE (policy_unpack (slice 288 352 raw)) (\<lambda>policy.
     bindE (decision_unpack (drop 352 raw)) (\<lambda>decision.
     let r = \<lparr>hq_geometry = geometry, hq_policy = policy, hq_decision = decision\<rparr> in
     bindE (pack r) (\<lambda>_. Inr r)))))"

definition v3_geometry_checks :: "host_decision host_request \<Rightarrow> (bool \<times> exn) list" where
  "v3_geometry_checks r =
     [(hr_sample_rate_hz (hq_geometry r) \<noteq> 10000000 \<or> hr_rf_bandwidth_hz (hq_geometry r) \<noteq> 10000000
         \<or> hr_dwell_samples (hq_geometry r) \<noteq> 1200000
         \<or> \<not> (ap_warmup_visits (hq_policy r) * 8 \<le> hr_dwell_count (hq_geometry r)
              \<and> hr_dwell_count (hq_geometry r) \<le> 2500),
       he ''host adaptive capture requires native 10 MS/s'')]"

definition v4_geometry_checks :: "host_decision2 host_request \<Rightarrow> (bool \<times> exn) list" where
  "v4_geometry_checks r =
     [(hr_sample_rate_hz (hq_geometry r) \<noteq> hd_source_rate_hz (hq_decision r)
         \<or> hr_rf_bandwidth_hz (hq_geometry r) \<noteq> hd_source_rate_hz (hq_decision r)
         \<or> hr_dwell_samples (hq_geometry r) \<noteq> hd_source_rate_hz (hq_decision r) * 120 div 1000
         \<or> \<not> (ap_warmup_visits (hq_policy r) * 8 \<le> hr_dwell_count (hq_geometry r)
              \<and> hr_dwell_count (hq_geometry r) \<le> 2500),
       he ''host adaptive capture changed multirate geometry'')]"

definition host_request3_pack :: "host_decision host_request \<Rightarrow> bytes result" where
  "host_request3_pack = host_request_pack 3 0x7F v3_geometry_checks config1_pack"

definition host_request3_unpack :: "bytes \<Rightarrow> host_decision host_request result" where
  "host_request3_unpack = host_request_unpack 3 0x7F ''host adaptive request header mismatch''
     config1_unpack host_request3_pack"

definition host_request4_pack :: "host_decision2 host_request \<Rightarrow> bytes result" where
  "host_request4_pack = host_request_pack 4 0xFF v4_geometry_checks config2_pack"

definition host_request4_unpack :: "bytes \<Rightarrow> host_decision2 host_request result" where
  "host_request4_unpack = host_request_unpack 4 0xFF ''multirate host adaptive request header mismatch''
     config2_unpack host_request4_pack"

text \<open>The contract: any 64-byte configuration codec gives a request codec.\<close>

locale host_requests = fixed_codec decision_pack decision_unpack "\<lambda>_. True" 64
  for decision_pack :: "'d \<Rightarrow> bytes result" and decision_unpack +
  fixes version features :: int
    and geometry_checks :: "'d host_request \<Rightarrow> (bool \<times> exn) list"
    and mismatch :: string
  assumes small: "0 \<le> version \<and> version < 65536 \<and> 0 \<le> features \<and> features < 2 ^ 32"
begin

abbreviation "req_pack \<equiv> host_request_pack version features geometry_checks decision_pack"
abbreviation "req_unpack \<equiv> host_request_unpack version features mismatch decision_unpack req_pack"

lemma host_request_dec_enc:
  assumes "req_pack r = Inr bs"
  shows "req_unpack bs = Inr r"
proof -
  from assms obtain g p d where g: "request_pack (hq_geometry r) = Inr g" and p: "policy_pack (hq_policy r) = Inr p"
    and d: "decision_pack (hq_decision r) = Inr d"
    and bs: "bs = stamp (request_stamps version 416 features 144) g @ p @ d"
    by (auto simp: host_request_pack_def bindE_Inr_iff)
  note G = request_pack_holds [OF g]
  note S = same_shape_request_stamps
  let ?h = "stamp (request_stamps version 416 features 144) g"
  have fit: "fit_in (request_stamps version 416 features 144) (length g)" using G(1) S(3) by simp
  have hl: "length ?h = 288" using fit G(1) by simp
  have pl: "length p = 64" using policies.enc_width p by (simp add: policy_pack_def)
  have len: "length bs = 416" using hl pl enc_width [OF d] by (simp add: bs)
  have t: "take 288 bs = ?h" "slice 288 352 bs = p" "drop 352 bs = d"
    using hl pl by (simp_all add: bs slice_def)
  have H: "holds (request_stamps version 416 features 144) (take 288 bs)"
    unfolding t using fit S(2) by (rule stamp_holds)
  have F: "le_value (slice 4 6 bs) = version \<and> le_value (slice 6 8 bs) = 416 \<and> le_value (slice 8 12 bs) = features
     \<and> le_value (slice 76 78 bs) = 144"
    using H len small by (simp add: request_header_holds)
  have "take 4 bs = take 4 ?h" using hl by (simp add: bs)
  also have "\<dots> = take 4 g"
    using fit G(1) by (intro take_stamp_low) (auto simp: request_stamps_def)
  finally have M: "take 4 bs = ascii_bytes ''HOPR''" using G(3) by simp
  have restored: "stamp (request_stamps 1 288 0x1F 80) (take 288 bs) = g"
    unfolding t using G S by (intro stamp_back) auto
  have "policy_unpack p = Inr (hq_policy r)"
    using policies.dec_enc p by (simp add: policy_pack_def policy_unpack_def)
  moreover have eta: "\<lparr>hq_geometry = hq_geometry r, hq_policy = hq_policy r, hq_decision = hq_decision r\<rparr> = r"
    by simp
  ultimately show "req_unpack bs = Inr r"
    using assms F M len restored t request_dec_enc [OF g] dec_enc [OF d]
    by (simp add: host_request_unpack_def checks_eval Let_def eta del: host_request.simps)
qed

lemma host_request_enc_dec:
  assumes "req_unpack raw = Inr r"
  shows "req_pack r = Inr raw"
proof -
  from assms have len: "length raw = 416"
    and F: "le_value (slice 4 6 raw) = version \<and> le_value (slice 6 8 raw) = 416
      \<and> le_value (slice 8 12 raw) = features \<and> le_value (slice 76 78 raw) = 144"
    and g: "request_unpack (stamp (request_stamps 1 288 0x1F 80) (take 288 raw)) = Inr (hq_geometry r)"
    and p: "policy_unpack (slice 288 352 raw) = Inr (hq_policy r)"
    and d: "decision_unpack (drop 352 raw) = Inr (hq_decision r)"
    by (auto simp: host_request_unpack_def bindE_Inr_iff Let_def)
  have "\<exists>out. req_pack r = Inr out"
    using assms by (auto simp: host_request_unpack_def bindE_Inr_iff Let_def)
  then obtain out where out: "req_pack r = Inr out" ..
  have H: "holds (request_stamps version 416 features 144) (take 288 raw)"
    using F len small by (simp add: request_header_holds)
  have "request_pack (hq_geometry r) = Inr (stamp (request_stamps 1 288 0x1F 80) (take 288 raw))"
    by (rule request_enc_dec [OF g])
  moreover have "policy_pack (hq_policy r) = Inr (slice 288 352 raw)"
    using policies.enc_dec p by (simp add: policy_pack_def policy_unpack_def)
  moreover have "decision_pack (hq_decision r) = Inr (drop 352 raw)" using enc_dec [OF d] by simp
  moreover have "stamp (request_stamps version 416 features 144)
      (stamp (request_stamps 1 288 0x1F 80) (take 288 raw)) = take 288 raw"
    using H len same_shape_request_stamps by (intro stamp_back) auto
  moreover have "take 288 raw @ slice 288 352 raw @ drop 352 raw = raw"
    by (simp add: slice_rejoin)
  ultimately show ?thesis using out by (auto simp: host_request_pack_def bindE_Inr_iff)
qed

end

sublocale host_requests \<subseteq> requests: wire_codec req_pack req_unpack "\<lambda>_. True"
  by unfold_locales (auto intro: host_request_dec_enc host_request_enc_dec)

interpretation requests3: host_requests config1_pack config1_unpack 3 "0x7F" v3_geometry_checks
  "''host adaptive request header mismatch''"
  unfolding config1_pack_def config1_unpack_def
  by (intro host_requests.intro host_requests_axioms.intro configs1.fixed_codec_axioms [unfolded config_size]) simp

interpretation requests4: host_requests config2_pack config2_unpack 4 "0xFF" v4_geometry_checks
  "''multirate host adaptive request header mismatch''"
  unfolding config2_pack_def config2_unpack_def
  by (intro host_requests.intro host_requests_axioms.intro configs2.fixed_codec_axioms [unfolded config_size]) simp

section \<open>Evidence and status\<close>

definition major3_numeric_packet :: "bytes \<Rightarrow> bytes \<Rightarrow> nat \<Rightarrow> bytes result" where
  "major3_numeric_packet raw magic feature_offset =
     bindE (checks
       [(length raw < feature_offset + 4 \<or> take 4 raw \<noteq> magic \<or> le_value (slice 4 6 raw) \<noteq> 3
          \<or> le_value (slice feature_offset (feature_offset + 4) raw) \<noteq> 0x7F,
         he ''host adaptive evidence/status version mismatch'')]) (\<lambda>_.
       Inr (stamp [(4, le_bytes 2 2), (feature_offset, le_bytes 4 0x3F)] raw))"

definition host_evidence_pack :: "adaptive_evidence \<Rightarrow> bytes result" where
  "host_evidence_pack v =
     bindE (adaptive_evidence_pack v) (\<lambda>packet. Inr (stamp [(4, le_bytes 2 3), (12, le_bytes 4 0x7F)] packet))"

definition host_evidence_unpack :: "bytes \<Rightarrow> adaptive_evidence result" where
  "host_evidence_unpack payload =
     bindE (major3_numeric_packet payload (ascii_bytes ''HOPS'') 12) adaptive_evidence_unpack"

definition host_validate_binding ::
    "('d host_request \<Rightarrow> bytes result) \<Rightarrow> adaptive_evidence \<Rightarrow> 'd host_request \<Rightarrow> unit result" where
  "host_validate_binding pack v r =
     bindE (pack r) (\<lambda>_.
     bindE (host_evidence_pack v) (\<lambda>_.
       validate_event_binding (ae_geometry v) (ae_choices v) (hq_geometry r) (hq_policy r)))"

definition host_status_pack :: "hop_status \<Rightarrow> bytes result" where
  "host_status_pack s =
     bindE (adaptive_status_pack s) (\<lambda>packet. Inr (stamp [(4, le_bytes 2 3), (8, le_bytes 4 0x7F)] packet))"

definition host_status_unpack :: "bytes \<Rightarrow> hop_status result" where
  "host_status_unpack payload =
     bindE (major3_numeric_packet payload (ascii_bytes ''HOPT'') 8) adaptive_status_unpack"

lemma major3_Inr:
  assumes "4 \<le> off - 2" and "6 \<le> off"
  shows "major3_numeric_packet raw magic off = Inr out \<longleftrightarrow> off + 4 \<le> length raw \<and> take 4 raw = magic \<and>
    holds [(4, le_bytes 2 3), (off, le_bytes 4 0x7F)] raw \<and>
    out = stamp [(4, le_bytes 2 2), (off, le_bytes 4 0x3F)] raw"
proof -
  have "le_value (slice 4 6 raw) = 3 \<longleftrightarrow> slice 4 6 raw = le_bytes 2 3" if "off + 4 \<le> length raw"
    using that assms by (intro le_field_eq) auto
  moreover have "le_value (slice off (off + 4) raw) = 0x7F \<longleftrightarrow> slice off (off + 4) raw = le_bytes 4 0x7F"
    if "off + 4 \<le> length raw"
    using that by (intro le_field_eq) auto
  ultimately show ?thesis
    by (auto simp: major3_numeric_packet_def bindE_Inr_iff holds_def not_less)
qed

text \<open>The magic survives the exchange of the header fields, so accepting the base record checks it.\<close>

lemma take4_stamp:
  "6 \<le> off \<Longrightarrow> off + 4 \<le> length raw \<Longrightarrow> take 4 (stamp [(4, le_bytes 2 a), (off, le_bytes 4 b)] raw) = take 4 raw"
  by (rule take_stamp_low) (auto simp: fit_in_def)

lemma adaptive_evidence_header:
  assumes "adaptive_evidence_pack v = Inr bs"
  shows "16 \<le> length bs" and "holds [(4, le_bytes 2 2), (12, le_bytes 4 0x3F)] bs"
    and "take 4 bs = ascii_bytes ''HOPS''"
proof -
  have U: "adaptive_evidence_unpack bs = Inr v" using adaptive_evidence_dec_enc(1) [OF assms] .
  then have F: "64 \<le> length bs" "take 4 bs = ascii_bytes ''HOPS''" "le_value (slice 4 6 bs) = 2"
      "le_value (slice 12 16 bs) = 0x3F"
    by (auto simp: adaptive_evidence_unpack_def v2_header_def bindE_Inr_iff Let_def)
  show "16 \<le> length bs" "take 4 bs = ascii_bytes ''HOPS''" using F by simp_all
  show "holds [(4, le_bytes 2 2), (12, le_bytes 4 0x3F)] bs"
    using le_slice [where raw = bs and a = 4 and b = 6 and n = 2]
      le_slice [where raw = bs and a = 12 and b = 16 and n = 63] F by (simp add: holds_def)
qed

lemma adaptive_status_header:
  assumes "adaptive_status_pack s = Inr bs"
  shows "12 \<le> length bs" and "holds [(4, le_bytes 2 2), (8, le_bytes 4 0x3F)] bs"
    and "take 4 bs = ascii_bytes ''HOPT''"
proof -
  have U: "adaptive_status_unpack bs = Inr s" using adaptive_statuses.stamped.dec_enc [OF assms] .
  then show "12 \<le> length bs" "holds [(4, le_bytes 2 2), (8, le_bytes 4 0x3F)] bs"
    by (simp_all add: adaptive_status_dec status_stamps_def)
  show "take 4 bs = ascii_bytes ''HOPT''"
    using U by (auto simp: adaptive_status_unpack_def v2_header_def bindE_Inr_iff)
qed

interpretation host_evidences: restamped adaptive_evidence_pack adaptive_evidence_unpack "\<lambda>_. True"
  "[(4, le_bytes 2 2), (12, le_bytes 4 0x3F)]" "[(4, le_bytes 2 3), (12, le_bytes 4 0x7F)]" 16
  host_evidence_pack host_evidence_unpack
proof unfold_locales
  show "adaptive_evidence_pack v = Inr bs \<Longrightarrow> 16 \<le> length bs \<and> holds [(4, le_bytes 2 2), (12, le_bytes 4 0x3F)] bs"
    for v bs using adaptive_evidence_header by blast
  show "host_evidence_unpack bs = Inr v \<longleftrightarrow> 16 \<le> length bs \<and> holds [(4, le_bytes 2 3), (12, le_bytes 4 0x7F)] bs \<and>
      adaptive_evidence_unpack (stamp [(4, le_bytes 2 2), (12, le_bytes 4 0x3F)] bs) = Inr v" for bs v
  proof -
    have "take 4 bs = ascii_bytes ''HOPS''"
      if "16 \<le> length bs" "adaptive_evidence_unpack (stamp [(4, le_bytes 2 2), (12, le_bytes 4 0x3F)] bs) = Inr v"
      using adaptive_evidence_header(3) [OF adaptive_evidence_enc_dec [OF that(2)]] that(1) by (simp only: take4_stamp)
    then show ?thesis by (auto simp: host_evidence_unpack_def bindE_Inr_iff major3_Inr)
  qed
qed (simp_all add: same_shape_def fit_in_def host_evidence_pack_def)

interpretation host_statuses: restamped adaptive_status_pack adaptive_status_unpack "\<lambda>_. True"
  "[(4, le_bytes 2 2), (8, le_bytes 4 0x3F)]" "[(4, le_bytes 2 3), (8, le_bytes 4 0x7F)]" 12
  host_status_pack host_status_unpack
proof unfold_locales
  show "adaptive_status_pack s = Inr bs \<Longrightarrow> 12 \<le> length bs \<and> holds [(4, le_bytes 2 2), (8, le_bytes 4 0x3F)] bs"
    for s bs using adaptive_status_header by blast
  show "host_status_unpack bs = Inr s \<longleftrightarrow> 12 \<le> length bs \<and> holds [(4, le_bytes 2 3), (8, le_bytes 4 0x7F)] bs \<and>
      adaptive_status_unpack (stamp [(4, le_bytes 2 2), (8, le_bytes 4 0x3F)] bs) = Inr s" for bs s
  proof -
    have "take 4 bs = ascii_bytes ''HOPT''"
      if "12 \<le> length bs" "adaptive_status_unpack (stamp [(4, le_bytes 2 2), (8, le_bytes 4 0x3F)] bs) = Inr s"
      using adaptive_status_header(3) [OF adaptive_statuses.stamped.enc_dec [OF that(2) TrueI]] that(1)
      by (simp only: take4_stamp)
    then show ?thesis by (auto simp: host_status_unpack_def bindE_Inr_iff major3_Inr)
  qed
qed (simp_all add: same_shape_def fit_in_def host_status_pack_def)

section \<open>Feedback\<close>

record host_feedback =
  hf_session_id :: int
  hf_generation :: int
  hf_stream_id :: int
  hf_visit :: int
  hf_event_sequence :: int
  hf_valid_start :: int
  hf_valid_end :: int
  hf_receiver_id :: int
  hf_target_index :: int
  hf_outcome :: int
  hf_healthy :: int
  hf_screen_mask :: int
  hf_confirmation_mask :: int
  hf_configuration_sha256 :: bytes

record host_feedback2 = host_feedback +
  hf_source_rate_hz :: int

definition feedback_counters :: "'a host_feedback_scheme \<Rightarrow> int list" where
  "feedback_counters f = [hf_session_id f, hf_generation f, hf_stream_id f, hf_visit f,
     hf_event_sequence f, hf_valid_start f, hf_valid_end f]"

definition feedback_words :: "'a host_feedback_scheme \<Rightarrow> int list" where
  "feedback_words f = [hf_receiver_id f, hf_target_index f, hf_outcome f, hf_healthy f,
     hf_screen_mask f, hf_confirmation_mask f]"

definition feedback_ranges :: "'a host_feedback_scheme \<Rightarrow> (bool \<times> exn) list" where
  "feedback_ranges f = map (h_uint 64) (feedback_counters f) @ map (h_uint 32) (feedback_words f)
     @ [h_digest (hf_configuration_sha256 f)]"

definition feedback_inconsistent :: "'a host_feedback_scheme \<Rightarrow> int \<Rightarrow> int \<Rightarrow> bool" where
  "feedback_inconsistent f dwell last_receiver \<longleftrightarrow>
     hf_session_id f = 0 \<or> hf_generation f = 0 \<or> hf_stream_id f = 0
     \<or> hf_visit f \<ge> 2500 \<or> hf_event_sequence f \<noteq> hf_visit f
     \<or> hf_valid_end f - hf_valid_start f \<noteq> dwell
     \<or> hf_receiver_id f > last_receiver \<or> hf_target_index f \<ge> 8
     \<or> hf_outcome f \<notin> {0, 1, 2} \<or> hf_healthy f \<notin> {0, 1}
     \<or> hf_screen_mask f > 63 \<or> hf_confirmation_mask f > 63
     \<or> hf_confirmation_mask f AND (hf_confirmation_mask f - 1) \<noteq> 0
     \<or> (hf_healthy f \<noteq> 0 \<and> hf_screen_mask f \<noteq> 63)
     \<or> (hf_healthy f = 0 \<and> hf_outcome f \<noteq> 0)
     \<or> (hf_outcome f = 1 \<and> hf_confirmation_mask f = 0)"

definition feedback_fmt :: "field list" where
  "feedback_fmt = [FRaw 4, FU 2, FU 2, FU 8, FU 8, FU 8, FU 8, FU 8, FU 8, FU 8, FU 4, FU 4, FU 4, FU 4,
     FU 4, FU 4, FU 4, FU 4, FU 4, FU 4, FU 4, FU 4, FU 4, FU 4, FRaw 32, FU 8]"

definition feedback1_validate :: "host_feedback \<Rightarrow> unit result" where
  "feedback1_validate f = checks (feedback_ranges f @
     [(feedback_inconsistent f 1200000 1, he ''host feedback lacks complete bound decision evidence'')])"

definition feedback1_fields :: "host_feedback \<Rightarrow> val list" where
  "feedback1_fields f = [VBytes (ascii_bytes ''HFB1''), VInt 1, VInt 160]
     @ map VInt (feedback_counters f @ [10000000, 2500000] @ feedback_words f @ [40, 300000, 4, 0, 80, 0])
     @ [VBytes (hf_configuration_sha256 f), VInt 0]"

definition feedback1_pack :: "host_feedback \<Rightarrow> bytes result" where
  "feedback1_pack = pack_record feedback1_validate feedback_fmt feedback1_fields"

definition feedback_guards :: "string \<Rightarrow> int \<Rightarrow> val list \<Rightarrow> (bool \<times> exn) list" where
  "feedback_guards magic version vs =
     [(bytes_at vs 0 \<noteq> ascii_bytes magic \<or> int_at vs 1 \<noteq> version \<or> int_at vs 2 \<noteq> 160,
       he ''host feedback version mismatch'')]"

definition feedback1_build :: "val list \<Rightarrow> host_feedback result" where
  "feedback1_build vs =
     (if int_at vs 14 \<notin> {0, 1, 2} then Inl (he ''unknown host feedback outcome'')
      else Inr \<lparr>hf_session_id = int_at vs 3, hf_generation = int_at vs 4, hf_stream_id = int_at vs 5,
        hf_visit = int_at vs 6, hf_event_sequence = int_at vs 7, hf_valid_start = int_at vs 8,
        hf_valid_end = int_at vs 9, hf_receiver_id = int_at vs 12, hf_target_index = int_at vs 13,
        hf_outcome = int_at vs 14, hf_healthy = int_at vs 15, hf_screen_mask = int_at vs 16,
        hf_confirmation_mask = int_at vs 17, hf_configuration_sha256 = bytes_at vs 24\<rparr>)"

definition feedback1_unpack :: "bytes \<Rightarrow> host_feedback result" where
  "feedback1_unpack = unpack_reencoded (he ''host feedback size mismatch'')
     (he ''host feedback geometry/reserved bytes mismatch'') feedback_fmt (feedback_guards ''HFB1'' 1)
     feedback1_build feedback1_pack"

definition feedback2_validate :: "host_feedback2 \<Rightarrow> unit result" where
  "feedback2_validate f = checks (feedback_ranges f @
     [(fst (multirate (hf_source_rate_hz f)) = 0
         \<or> feedback_inconsistent f (hf_source_rate_hz f * 120 div 1000) 0,
       he ''multirate feedback lacks complete bound evidence'')])"

definition feedback2_fields :: "host_feedback2 \<Rightarrow> val list" where
  "feedback2_fields f =
     (case multirate (hf_source_rate_hz f) of (factor, delay, supported_start) \<Rightarrow>
        [VBytes (ascii_bytes ''HFB2''), VInt 2, VInt 160]
        @ map VInt (feedback_counters f @ [hf_source_rate_hz f, 2500000] @ feedback_words f
            @ [supported_start, 300000, factor, 0, delay, 0])
        @ [VBytes (hf_configuration_sha256 f), VInt 0])"

definition feedback2_pack :: "host_feedback2 \<Rightarrow> bytes result" where
  "feedback2_pack = pack_record feedback2_validate feedback_fmt feedback2_fields"

definition feedback2_build :: "val list \<Rightarrow> host_feedback2 result" where
  "feedback2_build vs =
     (if int_at vs 14 \<notin> {0, 1, 2} then Inl (he ''unknown host feedback outcome'')
      else Inr \<lparr>hf_session_id = int_at vs 3, hf_generation = int_at vs 4, hf_stream_id = int_at vs 5,
        hf_visit = int_at vs 6, hf_event_sequence = int_at vs 7, hf_valid_start = int_at vs 8,
        hf_valid_end = int_at vs 9, hf_receiver_id = int_at vs 12, hf_target_index = int_at vs 13,
        hf_outcome = int_at vs 14, hf_healthy = int_at vs 15, hf_screen_mask = int_at vs 16,
        hf_confirmation_mask = int_at vs 17, hf_configuration_sha256 = bytes_at vs 24,
        hf_source_rate_hz = int_at vs 10\<rparr>)"

definition feedback2_unpack :: "bytes \<Rightarrow> host_feedback2 result" where
  "feedback2_unpack = unpack_reencoded (he ''host feedback size mismatch'')
     (he ''host feedback geometry/reserved bytes mismatch'') feedback_fmt (feedback_guards ''HFB2'' 2)
     feedback2_build feedback2_pack"

lemma feedback_size [simp]: "struct_size feedback_fmt = 160"
  by (simp add: struct_size_def feedback_fmt_def)

lemmas feedback_lists = feedback_fmt_def feedback_counters_def feedback_words_def ascii_bytes_def

interpretation feedbacks1: reencoded "he ''host feedback size mismatch''"
  "he ''host feedback geometry/reserved bytes mismatch''" feedback_fmt feedback1_fields
  "feedback_guards ''HFB1'' 1" feedback1_build feedback1_validate
proof unfold_locales
  fix f assume v: "feedback1_validate f = Inr ()"
  then show "list_all2 packable feedback_fmt (feedback1_fields f) \<Longrightarrow>
     list_all2 fits feedback_fmt (feedback1_fields f)"
    by (auto simp: feedback_lists feedback1_fields_def feedback1_validate_def feedback_ranges_def
        h_digest_def bindE_Inr_iff)
  show "checks (feedback_guards ''HFB1'' 1 (feedback1_fields f)) = Inr ()"
    by (simp add: feedback_guards_def feedback1_fields_def val_access)
  show "feedback1_build (feedback1_fields f) = Inr f"
    using v by (cases f) (auto simp: feedback1_build_def feedback1_fields_def feedback_lists val_access
        feedback1_validate_def feedback_inconsistent_def bindE_Inr_iff)
qed

interpretation feedbacks2: reencoded "he ''host feedback size mismatch''"
  "he ''host feedback geometry/reserved bytes mismatch''" feedback_fmt feedback2_fields
  "feedback_guards ''HFB2'' 2" feedback2_build feedback2_validate
proof unfold_locales
  fix f assume v: "feedback2_validate f = Inr ()"
  then show "list_all2 packable feedback_fmt (feedback2_fields f) \<Longrightarrow>
     list_all2 fits feedback_fmt (feedback2_fields f)"
    by (auto simp: feedback_lists feedback2_fields_def feedback2_validate_def feedback_ranges_def
        h_digest_def bindE_Inr_iff split: prod.splits)
  show "checks (feedback_guards ''HFB2'' 2 (feedback2_fields f)) = Inr ()"
    by (simp add: feedback_guards_def feedback2_fields_def val_access split: prod.splits)
  show "feedback2_build (feedback2_fields f) = Inr f"
    using v by (cases f) (auto simp: feedback2_build_def feedback2_fields_def feedback_lists val_access
        feedback2_validate_def feedback_inconsistent_def bindE_Inr_iff split: prod.splits)
qed

end
