(* ===== verification/Effects.thy ===== *)
theory Effects
  imports Prelude
begin

text \<open>
  Methods that change an object and may raise half-way: a step returns the state it leaves behind
  together with its result, and sequencing stops at the first exception with the state changed so far.
\<close>

type_synonym ('s, 'a) effect = "'s \<times> 'a result"

definition bindS :: "('s, 'a) effect \<Rightarrow> ('s \<Rightarrow> 'a \<Rightarrow> ('s, 'b) effect) \<Rightarrow> ('s, 'b) effect" where
  "bindS m f = (case m of (s, Inl e) \<Rightarrow> (s, Inl e) | (s, Inr x) \<Rightarrow> f s x)"

lemma bindS_simps [simp]: "bindS (s, Inl e) f = (s, Inl e)" "bindS (s, Inr x) f = f s x"
  by (simp_all add: bindS_def)

lemma bindS_Inr: "bindS m f = (s, Inr y) \<longleftrightarrow> (\<exists>s1 x. m = (s1, Inr x) \<and> f s1 x = (s, Inr y))"
  by (cases m; cases "snd m") (auto simp: bindS_def)

lemma bindS_state: "fst (bindS m f) = s \<longleftrightarrow>
    (\<exists>s1. (\<exists>e. m = (s1, Inl e) \<and> s = s1) \<or> (\<exists>x. m = (s1, Inr x) \<and> s = fst (f s1 x)))"
  by (cases m; cases "snd m") (auto simp: bindS_def)

text \<open>What every step keeps of the state, a sequence of steps keeps, whether or not one of them raises.\<close>

lemma bindS_keeps:
  "P (fst m) \<Longrightarrow> (\<And>s x. P s \<Longrightarrow> P (fst (f s x))) \<Longrightarrow> P (fst (bindS m f))"
  by (cases m; cases "snd m") (auto simp: bindS_def)

text \<open>A loop over a list that may raise.\<close>

fun eachS :: "('s \<Rightarrow> 'i \<Rightarrow> ('s, unit) effect) \<Rightarrow> 's \<Rightarrow> 'i list \<Rightarrow> ('s, unit) effect" where
  "eachS f s [] = (s, Inr ())"
| "eachS f s (x # xs) = bindS (f s x) (\<lambda>s _. eachS f s xs)"

lemma eachS_keeps: "(\<And>s x. P s \<Longrightarrow> P (fst (f s x))) \<Longrightarrow> P s \<Longrightarrow> P (fst (eachS f s xs))"
  by (induction xs arbitrary: s) (auto intro: bindS_keeps)

lemma eachS_inv:
  "(\<And>s x s1. P s \<Longrightarrow> x \<in> set xs \<Longrightarrow> f s x = (s1, Inr ()) \<Longrightarrow> P s1) \<Longrightarrow> P s \<Longrightarrow>
     eachS f s xs = (s1, Inr ()) \<Longrightarrow> P s1"
proof (induction xs arbitrary: s)
  case (Cons x xs)
  from Cons.prems(3) obtain s2 where f: "f s x = (s2, Inr ())" and r: "eachS f s2 xs = (s1, Inr ())"
    by (auto simp: bindS_Inr)
  have "P s2" using Cons.prems(1) [OF Cons.prems(2) _ f] by simp
  then show ?case using Cons.IH [OF _ _ r] Cons.prems(1) by (metis list.set_intros(2))
qed simp

end
