(* ===== verification/Hop_Receipt.thy ===== *)
theory Hop_Receipt
  imports Hop_Session
begin

text \<open>
  \<open>persistent_hop.py\<close>, the end of a session: the checks that turn a terminal status and the accepted
  visits into a receipt, cancellation, and the cleanup after a failure.
\<close>

section \<open>Receipts\<close>

record hop_restoration =
  rr_status :: string
  rr_restore_before_counter :: int
  rr_restore_after_counter :: int
  rr_restored_lo_frequency_hz :: int
  rr_restored_profile_index :: int
  rr_active_profile_index :: int
  rr_error_code :: int

definition restoration_receipt :: "hop_status \<Rightarrow> hop_restoration" where
  "restoration_receipt s =
     \<lparr>rr_status = (if has (hs_flags s) ST_RESTORE_SUCCEEDED then ''restored''
                   else if has (hs_flags s) ST_RESTORE_ATTEMPTED then ''failed'' else ''not_attempted''),
      rr_restore_before_counter = hs_restore_before_counter s,
      rr_restore_after_counter = hs_restore_after_counter s,
      rr_restored_lo_frequency_hz = hs_restored_lo_frequency_hz s,
      rr_restored_profile_index = hs_restored_profile_index s,
      rr_active_profile_index = hs_active_profile_index s,
      rr_error_code = hs_restore_error_code s\<rparr>"

record target_coverage =
  tc_target_index :: int
  tc_visit_count :: int
  tc_valid_sample_count :: int

definition coverage_of :: "hop_visit list \<Rightarrow> target_coverage list" where
  "coverage_of visits =
     map (\<lambda>index.
       (let mine = filter (\<lambda>v. hv_target_index v = index) visits in
        \<lparr>tc_target_index = index, tc_visit_count = int (length mine),
         tc_valid_sample_count = sum_list (map valid_sample_count mine)\<rparr>)) [0..7]"

text \<open>
  The backend is I/O behind a \<open>Protocol\<close>; a value of this record is what it answers during one call:
  the outcome of \<open>cancel\<close>, the bytes of \<open>read_status\<close>, the lifecycle receipt of \<open>close\<close>, and the
  optional attributes the session reads.
\<close>

record 'h hop_backend =
  bk_cancel :: "unit result"
  bk_read_status :: "bytes result"
  bk_close :: "'h option result"
  bk_radio_id :: "string option"
  bk_kernel_buffers_requested :: "int option"
  bk_kernel_buffers_readback :: "int option"

record 'h hop_receipt =
  rc_session_id :: int
  rc_radio_serial :: string
  rc_radio_uri :: string
  rc_status :: hop_status
  rc_visits :: "hop_visit list"
  rc_target_coverage :: "target_coverage list"
  rc_capture_outcome :: string
  rc_valid_sample_count :: int
  rc_transition_invalid_sample_count :: int
  rc_missing_sample_count :: int
  rc_overflow_count :: int
  rc_hop_event_sequence_gap_count :: int
  rc_duty_denominator_sample_count :: int
  rc_valid_duty_ppm :: int
  rc_continuity_attested :: bool
  rc_duty_target_met :: bool
  rc_restoration :: hop_restoration
  rc_incomplete_visit_sample_count :: int
  rc_incomplete_start :: "int option"
  rc_incomplete_end :: "int option"
  rc_host_lifecycle :: "'h option"
  rc_radio_id :: "string option"
  rc_metadata_abi_version :: int
  rc_stream_generation :: "int option"
  rc_kernel_buffers_requested :: int
  rc_kernel_buffers_readback :: "int option"

record backend_facts =
  bf_radio_id :: "string option"
  bf_stream_generation :: "int option"
  bf_kernel_buffers_requested :: int
  bf_kernel_buffers_readback :: "int option"

definition backend_receipt_facts :: "'h hop_backend \<Rightarrow> hop_session \<Rightarrow> backend_facts result" where
  "backend_receipt_facts b s =
     (let planned = pl_kernel_buffers (hx_plan s) in
      bindE (checks
        [(case bk_kernel_buffers_requested b of None \<Rightarrow> False | Some n \<Rightarrow> n \<noteq> planned,
          hc ''persistent-hop kernel-buffer request changed''),
         (case bk_kernel_buffers_readback b of None \<Rightarrow> False | Some n \<Rightarrow> n \<noteq> planned,
          hc ''persistent-hop kernel-buffer readback changed'')]) (\<lambda>_. Inr
        \<lparr>bf_radio_id = (case bk_radio_id b of Some i \<Rightarrow> if i = [] then None else Some i | None \<Rightarrow> None),
         bf_stream_generation = hx_stream_generation s,
         bf_kernel_buffers_requested =
           (case bk_kernel_buffers_requested b of Some n \<Rightarrow> n | None \<Rightarrow> planned),
         bf_kernel_buffers_readback = bk_kernel_buffers_readback b\<rparr>))"

definition require_terminal_status :: "hop_session \<Rightarrow> hop_status \<Rightarrow> hop_state \<Rightarrow> unit result" where
  "require_terminal_status s st expected = checks
     [(hs_session_id st \<noteq> hr_session_id (hx_request s) \<or> hs_state st \<noteq> expected,
       hc ''persistent-hop terminal status does not match the session''),
      (has (hs_flags st) LOST_EVIDENCE, hc ''persistent-hop terminal status reports lost evidence''),
      (rr_status (restoration_receipt st) \<noteq> ''restored'',
       hc ''persistent-hop settings restoration was not attested'')]"

definition session_receipt ::
    "hop_session \<Rightarrow> hop_status \<Rightarrow> backend_facts \<Rightarrow> string \<Rightarrow> int \<Rightarrow> int \<Rightarrow> int \<Rightarrow> int \<Rightarrow> int option \<Rightarrow> int option
     \<Rightarrow> 'h hop_receipt" where
  "session_receipt s st facts outcome valid_samples invalid_samples denominator duty inc_start inc_end =
     \<lparr>rc_session_id = hs_session_id st, rc_radio_serial = hx_radio_serial s,
      rc_radio_uri = hx_radio_uri s, rc_status = st, rc_visits = hx_visits s,
      rc_target_coverage = coverage_of (hx_visits s), rc_capture_outcome = outcome,
      rc_valid_sample_count = valid_samples, rc_transition_invalid_sample_count = invalid_samples,
      rc_missing_sample_count = 0, rc_overflow_count = 0, rc_hop_event_sequence_gap_count = 0,
      rc_duty_denominator_sample_count = denominator, rc_valid_duty_ppm = duty,
      rc_continuity_attested = True,
      rc_duty_target_met = (duty \<ge> pl_minimum_valid_duty_ppm (hx_plan s)),
      rc_restoration = restoration_receipt st,
      rc_incomplete_visit_sample_count =
        (case (inc_start, inc_end) of (Some a, Some b) \<Rightarrow> b - a | _ \<Rightarrow> 0),
      rc_incomplete_start = inc_start, rc_incomplete_end = inc_end, rc_host_lifecycle = None,
      rc_radio_id = bf_radio_id facts, rc_metadata_abi_version = 3,
      rc_stream_generation = bf_stream_generation facts,
      rc_kernel_buffers_requested = bf_kernel_buffers_requested facts,
      rc_kernel_buffers_readback = bf_kernel_buffers_readback facts\<rparr>"

text \<open>\<open>_release\<close> marks the session closed whether or not \<open>close\<close> raises.\<close>

definition release :: "'h hop_backend \<Rightarrow> hop_session \<Rightarrow> hop_session \<times> 'h option result" where
  "release b s = (if hx_closed s then (s, Inr None) else (s\<lparr>hx_closed := True\<rparr>, bk_close b))"

section \<open>Completion\<close>

definition finish_visit :: "hop_session \<Rightarrow> hop_status \<Rightarrow> hop_visit result" where
  "finish_visit s st =
     bindE (require_terminal_status s st COMPLETED) (\<lambda>_.
     bindE (checks
       [(hx_previous_block_sequence s = None
           \<or> Some (hs_last_block_sequence st) \<noteq> hx_previous_block_sequence s
           \<or> Some (hs_last_block_end_counter st) \<noteq> hx_previous_block_end s,
         hc ''persistent-hop completion status disagrees with delivered IQ''),
        (\<not> (1 \<le> hs_visits_started st \<and> hs_visits_started st \<le> hr_dwell_count (hx_request s)),
         hc ''persistent-hop completion has an invalid visit count''),
        (hs_events_emitted st \<noteq> hs_visits_started st,
         hc ''persistent-hop completion omitted device hop events'')]) (\<lambda>_.
     case hx_previous_event s of
       None \<Rightarrow> Inl (hc ''persistent-hop completion has no device hop events'')
     | Some e \<Rightarrow> visit_from (hx_request s) e (hs_final_counter st)))"

definition completed_receipt ::
    "'h hop_backend \<Rightarrow> hop_session \<Rightarrow> hop_status \<Rightarrow> hop_event \<Rightarrow> 'h hop_receipt result" where
  "completed_receipt b s st last_event =
     (let r = hx_request s;
          valid_samples = sum_list (map valid_sample_count (hx_visits s));
          invalid_samples = sum_list (map invalid_sample_count (hx_visits s));
          denominator = hs_final_counter st - hs_first_counter st;
          maximum_overshoot = hr_dwell_samples r +
            (he_invalid_end_counter_exclusive last_event - he_invalid_start_counter last_event);
          startup = hv_invalid_before (hd (hx_visits s));
          duty = valid_samples * 1000000 div denominator in
      bindE (checks
        [(int (length (hx_visits s)) \<noteq> hs_visits_started st,
          hc ''persistent-hop completed visit count is inconsistent''),
         (denominator \<le> 0 \<or> valid_samples + invalid_samples \<noteq> denominator,
          hc ''persistent-hop visit spans do not partition the session''),
         (denominator < hr_capture_span_samples r,
          hc ''persistent-hop session ended before its capture span''),
         (denominator - hr_capture_span_samples r > maximum_overshoot,
          hc ''persistent-hop session exceeded its bounded overshoot''),
         (hs_last_block_end_counter st < hs_final_counter st,
          hc ''persistent-hop completion did not deliver final IQ''),
         (hs_last_block_end_counter st - hs_final_counter st > pl_samples_per_block (hx_plan s),
          hc ''persistent-hop completion retained more than one terminal refill''),
         (hs_first_counter st \<noteq> hi_start startup
            \<or> hs_startup_invalid_start_counter st \<noteq> hi_start startup
            \<or> hs_startup_invalid_end_counter_exclusive st \<noteq> hi_end startup,
          hc ''persistent-hop startup invalid span is inconsistent'')]) (\<lambda>_.
      bindE (backend_receipt_facts b s) (\<lambda>facts.
        let receipt = session_receipt s st facts ''complete'' valid_samples invalid_samples
              denominator duty None None in
        if \<not> rc_duty_target_met receipt
        then Inl (hc ''persistent-hop session missed its minimum valid duty'')
        else Inr receipt)))"

definition finish_completed ::
    "'h hop_backend \<Rightarrow> hop_session \<Rightarrow> hop_session \<times> 'h hop_receipt result" where
  "finish_completed b s =
     (case bindE (bk_read_status b) status_unpack of
        Inl e \<Rightarrow> (s, Inl e)
      | Inr st \<Rightarrow>
          (case finish_visit s st of
             Inl e \<Rightarrow> (s, Inl e)
           | Inr v \<Rightarrow>
               let s1 = s\<lparr>hx_visits := hx_visits s @ [v]\<rparr> in
               case completed_receipt b s1 st (the (hx_previous_event s)) of
                 Inl e \<Rightarrow> (s1, Inl e)
               | Inr receipt \<Rightarrow>
                   (case release b s1 of
                      (s2, Inl e) \<Rightarrow> (s2, Inl e)
                    | (s2, Inr h) \<Rightarrow> (s2, Inr (receipt\<lparr>rc_host_lifecycle := h\<rparr>)))))"

section \<open>Cancellation\<close>

definition cancelled_full_receipt ::
    "'h hop_backend \<Rightarrow> hop_session \<Rightarrow> hop_status \<Rightarrow> 'h hop_receipt result" where
  "cancelled_full_receipt b s st =
     (let previous = hx_previous_event s;
          accepted_events = (case previous of None \<Rightarrow> 0 | Some e \<Rightarrow> he_event_sequence e + 1);
          first = hs_first_counter st;
          final = hs_final_counter st;
          valid_samples = sum_list (map valid_sample_count (hx_visits s));
          invalid_intervals =
            map (\<lambda>v. (hi_start (hv_invalid_before v), hi_end (hv_invalid_before v))) (hx_visits s)
            @ (case previous of None \<Rightarrow> []
               | Some e \<Rightarrow> [(he_invalid_start_counter e, he_invalid_end_counter_exclusive e)]);
          invalid_samples =
            sum_list (map (\<lambda>(a, z). max 0 (min final z - max first a)) invalid_intervals);
          incomplete_start =
            (case previous of None \<Rightarrow> first
             | Some e \<Rightarrow> max first (min final (he_invalid_end_counter_exclusive e)));
          incomplete_samples = final - incomplete_start;
          denominator = final - first;
          duty = (if denominator = 0 then 0 else valid_samples * 1000000 div denominator) in
      bindE (checks
        [(hs_events_emitted st \<noteq> accepted_events \<or> hs_visits_started st \<noteq> accepted_events,
          hc ''persistent-hop cancellation has undelivered device events''),
         (hx_previous_block_sequence s \<noteq> None
            \<and> (Some (hs_last_block_sequence st) \<noteq> hx_previous_block_sequence s
               \<or> Some (hs_last_block_end_counter st) \<noteq> hx_previous_block_end s),
          hc ''persistent-hop cancellation status disagrees with delivered IQ''),
         (final < first \<or> (case hx_previous_block_end s of None \<Rightarrow> False | Some z \<Rightarrow> final < z),
          hc ''persistent-hop cancellation counter envelope regressed''),
         (valid_samples + invalid_samples + incomplete_samples \<noteq> denominator,
          hc ''persistent-hop cancellation spans do not partition the session'')]) (\<lambda>_.
      bindE (backend_receipt_facts b s) (\<lambda>facts. Inr
        (session_receipt s st facts ''cancelled'' valid_samples invalid_samples denominator duty
          (if incomplete_samples \<noteq> 0 then Some incomplete_start else None)
          (if incomplete_samples \<noteq> 0 then Some final else None)))))"

text \<open>
  \<open>cancel\<close> releases the backend in a \<open>finally\<close> clause: the session is closed on every path, and an
  error of the release replaces an earlier one. The result is the full receipt; the short
  cancellation receipt lists fields of its status.
\<close>

definition cancel_session :: "'h hop_backend \<Rightarrow> hop_session \<Rightarrow> hop_session \<times> 'h hop_receipt result" where
  "cancel_session b s =
     (if hx_closed s then (s, Inl (hc ''persistent-hop session is already closed''))
      else
        let outcome =
              bindE (bk_cancel b) (\<lambda>_.
              bindE (bindE (bk_read_status b) status_unpack) (\<lambda>st.
              bindE (require_terminal_status s st CANCELLED) (\<lambda>_.
                cancelled_full_receipt b s st))) in
        case release b s of
          (s1, Inl e) \<Rightarrow> (s1, Inl e)
        | (s1, Inr h) \<Rightarrow> (s1, bindE outcome (\<lambda>receipt. Inr (receipt\<lparr>rc_host_lifecycle := h\<rparr>))))"

definition close_session :: "'h hop_backend \<Rightarrow> hop_session \<Rightarrow> hop_session \<times> 'h hop_receipt option result" where
  "close_session b s =
     (if hx_closed s then (s, Inr None)
      else case cancel_session b s of (s1, outcome) \<Rightarrow> (s1, bindE outcome (\<lambda>r. Inr (Some r))))"

section \<open>Cleanup after a failure\<close>

record 'h failure_diagnostics =
  fd_session_id :: int
  fd_terminal_status :: "hop_status option"
  fd_host_lifecycle :: "'h option"
  fd_cleanup_errors :: "exn list"

definition cleanup_status :: "'h hop_backend \<Rightarrow> hop_session \<Rightarrow> hop_status option \<times> exn list" where
  "cleanup_status b s =
     (case bindE (bk_cancel b) (\<lambda>_.
           bindE (bindE (bk_read_status b) status_unpack) (\<lambda>observed.
           bindE (checks
             [(hs_session_id observed \<noteq> hr_session_id (hx_request s),
               hc ''cleanup status belongs to a different session''),
              (\<not> terminal_state (hs_state observed), hc ''cleanup status is not terminal'')])
           (\<lambda>_. Inr observed))) of
        Inl e \<Rightarrow> (None, [e])
      | Inr st \<Rightarrow>
          (Some st,
           if rr_status (restoration_receipt st) \<noteq> ''restored''
           then [hc ''cleanup did not attest exact settings restoration''] else []))"

definition cancel_after_failure ::
    "'h hop_backend \<Rightarrow> hop_session \<Rightarrow> hop_session \<times> 'h failure_diagnostics option" where
  "cancel_after_failure b s =
     (if hx_closed s then (s, None)
      else
        case cleanup_status b s of (status, errors) \<Rightarrow>
        case release b s of (s1, released) \<Rightarrow>
          (s1, Some
            \<lparr>fd_session_id = hr_session_id (hx_request s), fd_terminal_status = status,
             fd_host_lifecycle = (case released of Inl _ \<Rightarrow> None | Inr h \<Rightarrow> h),
             fd_cleanup_errors = errors @ (case released of Inl e \<Rightarrow> [e] | Inr _ \<Rightarrow> [])\<rparr>))"

text \<open>
  The iterator \<open>_decoded_blocks\<close>. Its surroundings are arguments. The backend's \<open>blocks()\<close> yields the wire
  blocks \<open>ws\<close> and then is exhausted or raises any exception. The consumer takes blocks for as long as the
  iterator yields (\<open>None\<close>), or drops it when it has taken \<open>n\<close> blocks (\<open>Some n\<close>), which raises
  \<open>GeneratorExit\<close> at the \<open>yield\<close> of the last of them; only the blocks taken so far were asked of the
  backend, so an endless backend is the list of those.
\<close>

datatype stream_end = Exhausted | Breaks exn

type_synonym patience = "nat option"

definition satisfied :: "patience \<Rightarrow> nat \<Rightarrow> bool" where
  "satisfied p n \<longleftrightarrow> (case p of None \<Rightarrow> False | Some m \<Rightarrow> m \<le> n)"

definition still_wanted :: "patience \<Rightarrow> nat \<Rightarrow> patience" where
  "still_wanted p n = map_option (\<lambda>m. m - n) p"

text \<open>The loop: the blocks yielded, and the exception that ended it, if any.\<close>

fun decoded_blocks ::
    "patience \<Rightarrow> hop_session \<Rightarrow> wire_block list \<Rightarrow> stream_end \<Rightarrow> hop_session \<times> decoded_block list \<times> exn option" where
  "decoded_blocks p s [] Exhausted = (s, [], None)"
| "decoded_blocks p s [] (Breaks e) = (s, [], Some e)"
| "decoded_blocks p s (w # ws) stop =
     (case decode_block s w of
        (s1, Inl e) \<Rightarrow> (s1, [], Some e)
      | (s1, Inr d) \<Rightarrow>
          if satisfied p 1 then (s1, [d], Some GeneratorExit)
          else (case decoded_blocks (still_wanted p 1) s1 ws stop of (s2, ds, e) \<Rightarrow> (s2, d # ds, e)))"

text \<open>
  The whole generator with its \<open>except BaseException\<close> clause: whatever ends the loop early, or the
  completion, the session is cancelled and the exception raised again. A generator that is dropped
  before its first block was asked for has not started, and nothing of its body runs.
\<close>

definition iterate_session ::
    "'h hop_backend \<Rightarrow> 'h hop_backend \<Rightarrow> patience \<Rightarrow> hop_session \<Rightarrow> wire_block list \<Rightarrow> stream_end \<Rightarrow>
     hop_session \<times> decoded_block list \<times> 'h hop_receipt result" where
  "iterate_session finishing cleaning p s ws stop =
     (if satisfied p 0 then (s, [], Inl GeneratorExit)
      else case decoded_blocks p s ws stop of
        (s1, ds, Some e) \<Rightarrow> (fst (cancel_after_failure cleaning s1), ds, Inl e)
      | (s1, ds, None) \<Rightarrow>
          (case finish_completed finishing s1 of
             (s2, Inl e) \<Rightarrow> (fst (cancel_after_failure cleaning s2), ds, Inl e)
           | (s2, Inr receipt) \<Rightarrow> (s2, ds, Inr receipt)))"

text \<open>\<open>blocks()\<close>: the first request claims the iterator, which can refuse.\<close>

definition session_blocks ::
    "'h hop_backend \<Rightarrow> 'h hop_backend \<Rightarrow> patience \<Rightarrow> hop_session \<Rightarrow> wire_block list \<Rightarrow> stream_end \<Rightarrow>
     hop_session \<times> decoded_block list \<times> 'h hop_receipt result" where
  "session_blocks finishing cleaning p s ws stop =
     (if satisfied p 0 then (s, [], Inl GeneratorExit)
      else case claim_iterator s of
        Inl e \<Rightarrow> (s, [], Inl e)
      | Inr s1 \<Rightarrow> iterate_session finishing cleaning p s1 ws stop)"

section \<open>What a completed session guarantees\<close>

lemma decoded_blocks_inv: "session_inv s \<Longrightarrow> session_inv (fst (decoded_blocks p s ws stop))"
proof (induction ws arbitrary: p s)
  case Nil
  then show ?case by (cases stop) simp_all
next
  case (Cons w ws)
  obtain s1 o1 where D: "decode_block s w = (s1, o1)" by (cases "decode_block s w")
  have "session_inv s1" using decode_block_inv [OF Cons.prems, of w] by (simp add: D)
  then have "session_inv (fst (decoded_blocks (still_wanted p 1) s1 ws stop))" by (rule Cons.IH)
  then show ?case using D \<open>session_inv s1\<close> by (auto split: sum.splits prod.splits)
qed

lemma accept_event_frame:
  "accept_event s e = Inr s1 \<Longrightarrow> hx_closed s1 = hx_closed s \<and> hx_iterated s1 = hx_iterated s"
  by (auto simp: accept_event_def Let_def bindE_Inr_iff split: option.splits)

lemma accept_events_closed: "hx_closed (fst (accept_events s es)) = hx_closed s"
  by (induction s es rule: accept_events.induct) (auto split: sum.splits dest: accept_event_frame)

lemma decode_block_closed: "hx_closed (fst (decode_block s w)) = hx_closed s"
proof (cases "evidence_unpack (wb_evidence w)")
  case (Inr v)
  obtain s1 o1 where V: "validate_evidence s v = (s1, o1)" by (cases "validate_evidence s v")
  have i1: "hx_closed s1 = hx_closed s"
  proof -
    have "hx_closed (fst (validate_evidence s v)) = hx_closed s"
      by (simp add: validate_evidence_def Let_def accept_events_closed split: sum.splits)
    then show ?thesis by (simp add: V)
  qed
  have "hx_closed s2 = hx_closed s1" if "accept_stream_generation s1 g = Inr s2" for s2 g
    using accept_stream_generation_inv [OF that] by auto
  then show ?thesis using i1 by (simp add: decode_block_def Inr V Let_def split: sum.splits)
qed (simp add: decode_block_def)

lemma decoded_blocks_closed: "hx_closed (fst (decoded_blocks p s ws stop)) = hx_closed s"
proof (induction ws arbitrary: p s)
  case Nil
  then show ?case by (cases stop) simp_all
next
  case (Cons w ws)
  obtain s1 o1 where D: "decode_block s w = (s1, o1)" by (cases "decode_block s w")
  have "hx_closed s1 = hx_closed s" using decode_block_closed [of s w] by (simp add: D)
  then show ?case using D Cons.IH [of "still_wanted p 1" s1] by (auto split: sum.splits prod.splits)
qed

text \<open>A backend that breaks yields the same blocks as one that is exhausted there.\<close>

lemma decoded_blocks_break:
  "decoded_blocks p s ws Exhausted = (s1, ds, None) \<Longrightarrow> decoded_blocks p s ws (Breaks e) = (s1, ds, Some e)"
  by (induction ws arbitrary: p s ds) (auto split: prod.splits sum.splits if_splits)

lemma release_closed [simp]: "hx_closed (fst (release b s))"
  by (simp add: release_def)

lemma finish_completed_closed:
  "finish_completed b s = (s1, Inr receipt) \<Longrightarrow> hx_closed s1"
  by (auto simp: finish_completed_def Let_def split: sum.splits prod.splits)
    (metis fst_conv release_closed)

lemma cancel_after_failure_closed: "hx_closed (fst (cancel_after_failure b s))"
  using release_closed [of b s]
  by (cases "release b s") (auto simp: cancel_after_failure_def split: prod.splits)

lemma iterate_session_closed: "\<not> satisfied p 0 \<Longrightarrow> hx_closed (fst (iterate_session f c p s ws stop))"
  using cancel_after_failure_closed finish_completed_closed
  by (auto simp: iterate_session_def split: prod.splits option.splits sum.splits)

lemma cancel_session_closed: "hx_closed (fst (cancel_session b s))"
  using release_closed [of b s]
  by (cases "release b s") (auto simp: cancel_session_def Let_def split: sum.splits)

lemma finish_completed_facts:
  assumes "finish_completed b s = (s1, Inr receipt)"
  obtains st e v where "bindE (bk_read_status b) status_unpack = Inr st"
    and "hx_previous_event s = Some e"
    and "visit_from (hx_request s) e (hs_final_counter st) = Inr v"
    and "rc_visits receipt = hx_visits s @ [v]" and "rc_status receipt = st"
    and "require_terminal_status s st COMPLETED = Inr ()"
    and "hs_visits_started st = int (length (rc_visits receipt))"
    and "hs_first_counter st = hi_start (hv_invalid_before (hd (rc_visits receipt)))"
    and "rc_duty_target_met receipt"
    and "rc_duty_denominator_sample_count receipt = hs_final_counter st - hs_first_counter st"
    and "rc_valid_sample_count receipt = sum_list (map valid_sample_count (rc_visits receipt))"
    and "rc_transition_invalid_sample_count receipt = sum_list (map invalid_sample_count (rc_visits receipt))"
    and "rc_target_coverage receipt = coverage_of (rc_visits receipt)"
    and "hr_capture_span_samples (hx_request s) \<le> hs_final_counter st - hs_first_counter st"
    and "rc_valid_duty_ppm receipt =
           rc_valid_sample_count receipt * 1000000 div rc_duty_denominator_sample_count receipt"
    and "rc_duty_target_met receipt \<longleftrightarrow>
           rc_valid_duty_ppm receipt \<ge> pl_minimum_valid_duty_ppm (hx_plan s)"
proof -
  obtain st where st: "bindE (bk_read_status b) status_unpack = Inr st"
    using assms by (auto simp: finish_completed_def split: sum.splits)
  obtain v where v: "finish_visit s st = Inr v"
    using assms st by (auto simp: finish_completed_def split: sum.splits)
  obtain e where e: "hx_previous_event s = Some e"
    and vf: "visit_from (hx_request s) e (hs_final_counter st) = Inr v"
    and T: "require_terminal_status s st COMPLETED = Inr ()"
    using v by (auto simp: finish_visit_def bindE_Inr_iff split: option.splits)
  let ?s = "s\<lparr>hx_visits := hx_visits s @ [v]\<rparr>"
  obtain rc h where C: "completed_receipt b ?s st e = Inr rc"
    and rc: "receipt = rc\<lparr>rc_host_lifecycle := h\<rparr>"
    using assms st v e by (auto simp: finish_completed_def Let_def split: sum.splits prod.splits)
  show thesis
    by (rule that [OF st e vf])
      (use C T in \<open>auto simp: rc completed_receipt_def session_receipt_def Let_def bindE_Inr_iff
        checks_ok_iff split: if_splits\<close>)
qed

lemma finish_completed_visits:
  assumes "finish_completed b s = (s1, Inr receipt)" and "session_inv s"
  shows "\<forall>i < length (rc_visits receipt). visit_ok (hx_request s) i (rc_visits receipt ! i)"
    and "tiled (rc_visits receipt) (hs_final_counter (rc_status receipt))"
    and "rc_visits receipt \<noteq> []"
proof -
  obtain st e v where e: "hx_previous_event s = Some e"
    and vf: "visit_from (hx_request s) e (hs_final_counter st) = Inr v"
    and vs: "rc_visits receipt = hx_visits s @ [v]" and st: "rc_status receipt = st"
    by (rule finish_completed_facts [OF assms(1)])
  have I: "open_event_ok (hx_request s) (length (hx_visits s)) e"
    "tiled (hx_visits s) (he_invalid_start_counter e)"
    "\<forall>i < length (hx_visits s). visit_ok (hx_request s) i (hx_visits s ! i)"
    using assms(2) e by (simp_all add: session_inv_def)
  note V = visit_from_ok [OF vf I(1)]
  show "\<forall>i < length (rc_visits receipt). visit_ok (hx_request s) i (rc_visits receipt ! i)"
    using I(3) V(1) by (auto simp: vs nth_append less_Suc_eq)
  show "tiled (rc_visits receipt) (hs_final_counter (rc_status receipt))"
    using tiled_append [of "hx_visits s" v] I(2) V(2,3) by (simp add: vs st)
  show "rc_visits receipt \<noteq> []" by (simp add: vs)
qed

text \<open>Tiling visits hold every counter of their span exactly once.\<close>

definition holds :: "int \<Rightarrow> hop_visit \<Rightarrow> bool" where
  "holds c v \<longleftrightarrow> hi_start (hv_invalid_before v) \<le> c \<and> c < hv_valid_end v"

lemma tiled_start_le:
  "tiled vs b \<Longrightarrow> \<forall>v \<in> set vs. hi_start (hv_invalid_before v) < hv_valid_end v \<Longrightarrow>
     v \<in> set vs \<Longrightarrow> hi_start (hv_invalid_before (hd vs)) \<le> hi_start (hv_invalid_before v)"
proof (induction vs)
  case (Cons w vs)
  show ?case
  proof (cases "v = w \<or> vs = []")
    case False
    then have "v \<in> set vs" "vs \<noteq> []" using Cons.prems(3) by auto
    then show ?thesis using Cons by (cases vs) (force simp: tiled_Cons)+
  qed (use Cons.prems in auto)
qed simp

lemma tiled_exactly_one:
  assumes "tiled vs b" and "\<forall>v \<in> set vs. hi_start (hv_invalid_before v) < hv_valid_end v"
    and "vs \<noteq> []" and "hi_start (hv_invalid_before (hd vs)) \<le> c" and "c < b"
  shows "\<exists>!i. i < length vs \<and> holds c (vs ! i)"
  using assms
proof (induction vs)
  case (Cons v vs)
  show ?case
  proof (cases "c < hv_valid_end v")
    case True
    have later: "\<not> holds c w" if "w \<in> set vs" for w
    proof -
      have "tiled vs b" "vs \<noteq> []" using Cons.prems(1) that by (auto simp: tiled_Cons)
      then have "hv_valid_end v \<le> hi_start (hv_invalid_before w)"
        using tiled_start_le [of vs b w] that Cons.prems(1,2) by (cases vs) (auto simp: tiled_Cons)
      then show ?thesis using True by (simp add: holds_def)
    qed
    have "holds c v" using True Cons.prems(4) by (simp add: holds_def)
    then show ?thesis using later
      by (intro ex1I [of _ 0]) (auto simp: nth_Cons less_Suc_eq_0_disj split: nat.splits)
  next
    case False
    then have ne: "vs \<noteq> []" using Cons.prems(1,5) by (auto simp: tiled_Cons)
    then have "hi_start (hv_invalid_before (hd vs)) \<le> c"
      using Cons.prems(1) False by (cases vs) (auto simp: tiled_Cons)
    then have "\<exists>!i. i < length vs \<and> holds c (vs ! i)"
      using Cons ne by (simp add: tiled_Cons)
    moreover have "\<not> holds c v" using False by (simp add: holds_def)
    then have "(i < length (v # vs) \<and> holds c ((v # vs) ! i)) \<longleftrightarrow>
        (\<exists>j. i = Suc j \<and> j < length vs \<and> holds c (vs ! j))" for i
      by (cases i) auto
    ultimately show ?thesis by auto
  qed
qed simp

section \<open>Coverage of the targets\<close>

lemma card_residues: "k < 8 \<Longrightarrow> card {i. i < n \<and> i mod 8 = k} = (n + 7 - k) div 8" for n k :: nat
proof (induction n)
  case (Suc n)
  have "{i. i < Suc n \<and> i mod 8 = k} =
      (if n mod 8 = k then insert n {i. i < n \<and> i mod 8 = k} else {i. i < n \<and> i mod 8 = k})"
    by (auto simp: less_Suc_eq)
  then have "card {i. i < Suc n \<and> i mod 8 = k} = (n + 7 - k) div 8 + (if n mod 8 = k then 1 else 0)"
    using Suc by simp
  also have "\<dots> = (Suc n + 7 - k) div 8"
  proof -
    have "k \<in> {0, 1, 2, 3, 4, 5, 6, 7}" using Suc.prems by auto
    then have "(Suc (n + 7 - k) mod 8 = 0) = (n mod 8 = k)" by auto presburger+
    moreover have "Suc n + 7 - k = Suc (n + 7 - k)" using Suc.prems by simp
    ultimately show ?thesis
      by (cases "n mod 8 = k") (simp_all only: div_Suc if_True if_False, simp_all)
  qed
  finally show ?case .
qed simp

lemma coverage_count:
  assumes "\<forall>i < length vs. hv_target_index (vs ! i) = int i mod 8" and "k < 8"
  shows "tc_visit_count (coverage_of vs ! k) = int ((length vs + 7 - k) div 8)"
proof -
  have residue: "int i mod 8 = int k \<longleftrightarrow> i mod 8 = k" for i
    by (metis of_nat_eq_iff of_nat_mod of_nat_numeral)
  have "{i. i < length vs \<and> hv_target_index (vs ! i) = int k} = {i. i < length vs \<and> i mod 8 = k}"
    using assms(1) residue by (intro Collect_cong conj_cong refl) simp
  then have "length (filter (\<lambda>v. hv_target_index v = int k) vs) = (length vs + 7 - k) div 8"
    using card_residues [OF assms(2)] by (simp add: length_filter_conv_card)
  moreover have "[0..7::int] ! k = int k" using assms(2) by (simp add: nth_upto)
  ultimately show ?thesis using assms(2) by (simp add: coverage_of_def Let_def)
qed

end
