(* ===== verification/Hop_Assembly.thy ===== *)
theory Hop_Assembly
  imports Hop_Receipt
begin

text \<open>
  \<open>persistent_hop.py\<close>, \<open>PersistentHopSession.visits\<close>: blocks arrive at arbitrary refill boundaries and
  leave as one array of samples per attested visit. A segment is a counter interval with its
  samples; the sample type is left open, since the assembler only cuts and joins columns.
\<close>

section \<open>Segments\<close>

type_synonym 'a segment = "int \<times> int \<times> 'a list"

definition piece_of :: "int \<Rightarrow> int \<Rightarrow> 'a segment \<Rightarrow> 'a list" where
  "piece_of start stop seg =
     (case seg of (a, b, samples) \<Rightarrow>
        if b > start \<and> a < stop
        then slice (nat (max start a - a)) (nat (min stop b - a)) samples else [])"

definition sampled_visit :: "hop_visit \<Rightarrow> 'a segment list \<Rightarrow> 'a list result" where
  "sampled_visit v segments =
     (let samples = concat (map (piece_of (hv_valid_start v) (hv_valid_end v)) segments) in
      if int (length samples) \<noteq> valid_sample_count v
      then Inl (hc ''persistent-hop IQ blocks do not cover the attested valid visit'')
      else Inr samples)"

fun trim_segments :: "int \<Rightarrow> 'a segment list \<Rightarrow> 'a segment list" where
  "trim_segments retain_from [] = []"
| "trim_segments retain_from ((a, b, samples) # rest) =
     (if b \<le> retain_from then trim_segments retain_from rest
      else if a < retain_from then (retain_from, b, drop (nat (retain_from - a)) samples) # rest
      else (a, b, samples) # rest)"

text \<open>
  The two inner loops of \<open>visits\<close>: the one inside the block loop stops at the first visit whose last
  counter has not arrived (\<open>waiting\<close>), the final one does not stop.
\<close>

fun emit_visits ::
    "bool \<Rightarrow> hop_visit list \<Rightarrow> 'a segment list \<Rightarrow> 'a segment list \<times> (hop_visit \<times> 'a list) list \<times> exn option" where
  "emit_visits waiting [] segments = (segments, [], None)"
| "emit_visits waiting (v # vs) segments =
     (if waiting \<and> (segments = [] \<or> fst (snd (last segments)) < hv_valid_end v)
      then (segments, [], None)
      else case sampled_visit v segments of
             Inl e \<Rightarrow> (segments, [], Some e)
           | Inr samples \<Rightarrow>
               (case emit_visits waiting vs (trim_segments (hv_valid_end v) segments) of
                  (segments1, out, e) \<Rightarrow> (segments1, (v, samples) # out, e)))"

section \<open>The visit iterator\<close>

definition retain_counter :: "hop_session \<Rightarrow> nat \<Rightarrow> int" where
  "retain_counter s emitted =
     (if emitted < length (hx_visits s) then hv_valid_start (hx_visits s ! emitted)
      else case hx_previous_event s of
             Some e \<Rightarrow> he_invalid_end_counter_exclusive e
           | None \<Rightarrow> hs_first_counter (hx_initial_status s))"

definition retained_samples :: "'a segment list \<Rightarrow> int" where
  "retained_samples segments = sum_list (map (\<lambda>(a, b, _). b - a) segments)"

definition assemble_block ::
    "hop_session \<Rightarrow> nat \<Rightarrow> iq_column segment list \<Rightarrow> decoded_block \<Rightarrow>
     iq_column segment list \<times> (hop_visit \<times> iq_column list) list \<times> exn option" where
  "assemble_block s emitted segments block =
     (let v = db_evidence block in
      case emit_visits True (drop emitted (hx_visits s))
             (segments @ [(ev_block_first_counter v, ev_block_end_counter_exclusive v, db_samples block)]) of
        (segments1, out, Some e) \<Rightarrow> (segments1, out, Some e)
      | (segments1, out, None) \<Rightarrow>
          let segments2 = trim_segments (retain_counter s (emitted + length out)) segments1 in
          (segments2, out,
           if retained_samples segments2 > hr_dwell_samples (hx_request s) + pl_samples_per_block (hx_plan s)
           then Some (hc ''persistent-hop event delivery exceeded the bounded visit IQ window'')
           else None))"

text \<open>
  The generator over all blocks: an error of the backend, the decoder or the assembler ends it, and the
  cleanup of \<open>_decoded_blocks\<close> cancels the session; after the last block the session completes, which
  adds the last visit, and the remaining visits are emitted. Here the consumer takes visits: one that
  drops the generator ends it at the \<open>yield\<close> of the last visit it took, where the interpreter closes the
  suspended \<open>_decoded_blocks\<close> as well, which runs the same cleanup.
\<close>

fun iterate_visits ::
    "'h hop_backend \<Rightarrow> 'h hop_backend \<Rightarrow> patience \<Rightarrow> hop_session \<Rightarrow> nat \<Rightarrow> iq_column segment list \<Rightarrow>
     wire_block list \<Rightarrow> stream_end \<Rightarrow> hop_session \<times> (hop_visit \<times> iq_column list) list \<times> 'h hop_receipt result" where
  "iterate_visits finishing cleaning p s emitted segments [] (Breaks e) =
     (fst (cancel_after_failure cleaning s), [], Inl e)"
| "iterate_visits finishing cleaning p s emitted segments [] Exhausted =
     (case finish_completed finishing s of
        (s1, Inl e) \<Rightarrow> (fst (cancel_after_failure cleaning s1), [], Inl e)
      | (s1, Inr receipt) \<Rightarrow>
          (case emit_visits False (drop emitted (hx_visits s1)) segments of
             (_, out, e) \<Rightarrow>
               if satisfied p (length out) then (s1, take (the p) out, Inl GeneratorExit)
               else (s1, out, case e of Some e \<Rightarrow> Inl e | None \<Rightarrow> Inr receipt)))"
| "iterate_visits finishing cleaning p s emitted segments (w # ws) stop =
     (case decode_block s w of
        (s1, Inl e) \<Rightarrow> (fst (cancel_after_failure cleaning s1), [], Inl e)
      | (s1, Inr block) \<Rightarrow>
          (case assemble_block s1 emitted segments block of
             (segments1, out, e) \<Rightarrow>
               if satisfied p (length out)
               then (fst (cancel_after_failure cleaning s1), take (the p) out, Inl GeneratorExit)
               else case e of
                 Some e \<Rightarrow> (fst (cancel_after_failure cleaning s1), out, Inl e)
               | None \<Rightarrow>
                   (case iterate_visits finishing cleaning (still_wanted p (length out)) s1
                           (emitted + length out) segments1 ws stop of
                      (s2, outs, r) \<Rightarrow> (s2, out @ outs, r))))"

definition session_visits ::
    "'h hop_backend \<Rightarrow> 'h hop_backend \<Rightarrow> patience \<Rightarrow> hop_session \<Rightarrow> wire_block list \<Rightarrow> stream_end \<Rightarrow>
     hop_session \<times> (hop_visit \<times> iq_column list) list \<times> 'h hop_receipt result" where
  "session_visits finishing cleaning p s ws stop =
     (if satisfied p 0 then (s, [], Inl GeneratorExit)
      else case claim_iterator s of
        Inl e \<Rightarrow> (s, [], Inl e)
      | Inr s1 \<Rightarrow> iterate_visits finishing cleaning p s1 0 [] ws stop)"

text \<open>Once the generator has started, it ends with the session closed.\<close>

lemma iterate_visits_closed:
  "hx_closed (fst (iterate_visits fin cln p s emitted segs ws stop))"
proof (induction fin cln p s emitted segs ws stop rule: iterate_visits.induct)
  case (1 fin cln p s emitted segs e)
  then show ?case by (simp add: cancel_after_failure_closed)
next
  case (2 fin cln p s emitted segs)
  then show ?case
    using cancel_after_failure_closed finish_completed_closed [of fin s] by (auto split: prod.splits sum.splits)
next
  case (3 fin cln p s emitted segs w ws stop)
  obtain s1 o1 where D: "decode_block s w = (s1, o1)" by (cases "decode_block s w")
  show ?case
  proof (cases o1)
    case (Inl e)
    then show ?thesis by (simp add: D cancel_after_failure_closed)
  next
    case (Inr block)
    obtain segs1 out e where A: "assemble_block s1 emitted segs block = (segs1, out, e)" by (metis prod_cases3)
    show ?thesis
    proof (cases "satisfied p (length out) \<or> e \<noteq> None")
      case True
      then show ?thesis using D Inr A cancel_after_failure_closed by (auto split: option.splits)
    next
      case False
      then show ?thesis using "3.IH" [OF D [symmetric] Inr A [symmetric] refl] D Inr A by (auto split: prod.splits)
    qed
  qed
qed

section \<open>Exactness of a visit\<close>

text \<open>The samples a device stream \<open>iq\<close> holds at the counters of an interval.\<close>

definition span :: "(int \<Rightarrow> 'a) \<Rightarrow> int \<Rightarrow> int \<Rightarrow> 'a list" where
  "span iq a b = map iq [a..b - 1]"

lemma length_span [simp]: "length (span iq a b) = nat (b - a)"
  by (simp add: span_def)

lemma span_empty [simp]: "b \<le> a \<Longrightarrow> span iq a b = []"
  by (simp add: span_def)

lemma span_append:
  assumes "a \<le> b" and "b \<le> c"
  shows "span iq a b @ span iq b c = span iq a c"
proof (cases "b = c")
  case False
  then have "[a..c - 1] = [a..b - 1] @ [b..c - 1]" using assms by (intro upto_split1) simp_all
  then show ?thesis by (simp add: span_def)
qed simp

lemma drop_span: "0 \<le> k \<Longrightarrow> drop (nat k) (span iq a b) = span iq (a + k) b"
proof (cases "a + k \<le> b")
  case True
  moreover assume "0 \<le> k"
  ultimately have "span iq a b = span iq a (a + k) @ span iq (a + k) b" by (simp add: span_append)
  then show ?thesis using \<open>0 \<le> k\<close> by simp
qed simp

lemma take_span: "0 \<le> k \<Longrightarrow> a + k \<le> b \<Longrightarrow> take (nat k) (span iq a b) = span iq a (a + k)"
  using span_append [of a "a + k" b iq] by (metis add.commute add_diff_cancel_right' append_eq_conv_conj le_add_same_cancel2 length_span)

lemma slice_span:
  "0 \<le> p \<Longrightarrow> p \<le> q \<Longrightarrow> a + q \<le> b \<Longrightarrow> slice (nat p) (nat q) (span iq a b) = span iq (a + p) (a + q)"
  using take_span [of "q - p" "a + p" b iq] by (simp add: slice_def drop_span nat_diff_distrib)

fun chain :: "(int \<Rightarrow> 'a) \<Rightarrow> 'a segment list \<Rightarrow> bool" where
  "chain iq [] \<longleftrightarrow> True"
| "chain iq ((a, b, xs) # rest) \<longleftrightarrow> a < b \<and> xs = span iq a b \<and>
     (case rest of [] \<Rightarrow> True | (c, _, _) # _ \<Rightarrow> c = b) \<and> chain iq rest"

lemma chain_ends:
  "chain iq ((a, b, xs) # rest) \<Longrightarrow> b \<le> fst (snd (last ((a, b, xs) # rest)))"
proof (induction rest arbitrary: a b xs)
  case (Cons s rest)
  obtain c d ys where s: "s = (c, d, ys)" by (cases s)
  have ch: "chain iq ((c, d, ys) # rest)" using Cons.prems s by simp
  have "d \<le> fst (snd (last (s # rest)))" using Cons.IH [OF ch] by (simp only: s)
  moreover have "b < d" using Cons.prems by (auto simp: s)
  moreover have "last ((a, b, xs) # s # rest) = last (s # rest)" by simp
  ultimately show ?case by (metis less_imp_le order_trans)
qed simp

lemma chain_append:
  "chain iq segs \<Longrightarrow> (segs \<noteq> [] \<Longrightarrow> fst (snd (last segs)) = a) \<Longrightarrow> a < b \<Longrightarrow>
     chain iq (segs @ [(a, b, span iq a b)])"
proof (induction segs)
  case (Cons s segs)
  then show ?case by (cases s; cases segs) (auto split: prod.splits)
qed simp

lemma chain_trim: "chain iq segs \<Longrightarrow> chain iq (trim_segments r segs)"
proof (induction r segs rule: trim_segments.induct)
  case (2 r a b xs rest)
  then show ?case by (simp add: drop_span)
qed simp

lemma trim_last:
  "trim_segments r segs \<noteq> [] \<Longrightarrow> fst (snd (last (trim_segments r segs))) = fst (snd (last segs))"
  by (induction r segs rule: trim_segments.induct) (auto split: if_splits)

lemma pieces_span:
  "chain iq ((a, b, xs) # rest) \<Longrightarrow> start < stop \<Longrightarrow>
     concat (map (piece_of start stop) ((a, b, xs) # rest))
       = span iq (max start a) (min stop (fst (snd (last ((a, b, xs) # rest)))))"
proof (induction rest arbitrary: a b xs)
  case Nil
  then show ?case
    by (auto simp: piece_of_def slice_span max_def min_def)
next
  case (Cons s rest)
  obtain c d ys where s: "s = (c, d, ys)" by (cases s)
  let ?B = "fst (snd (last (s # rest)))"
  have ch: "chain iq ((b, d, ys) # rest)" and ab: "a < b" and xs: "xs = span iq a b" and c: "c = b"
    using Cons.prems(1) s by auto
  have B: "b \<le> ?B" using chain_ends [OF ch] ch by (simp add: s c split: if_splits)
  have IH: "concat (map (piece_of start stop) (s # rest)) = span iq (max start b) (min stop ?B)"
    using Cons.IH [OF ch Cons.prems(2)] by (simp add: s c)
  have last: "last ((a, b, xs) # s # rest) = last (s # rest)" by simp
  consider "b \<le> start" | "stop \<le> a" | "start < b" "a < stop" by linarith
  then show ?case
  proof cases
    case 1
    then have "piece_of start stop (a, b, xs) = []" by (simp add: piece_of_def)
    moreover have "max start b = max start a" using 1 ab by simp
    ultimately show ?thesis using IH unfolding last by simp
  next
    case 2
    then have "piece_of start stop (a, b, xs) = []" by (simp add: piece_of_def)
    moreover have "min stop ?B \<le> max start b" "min stop ?B \<le> max start a" using 2 ab by auto
    ultimately show ?thesis using IH unfolding last by simp
  next
    case 3
    then have P: "piece_of start stop (a, b, xs) = span iq (max start a) (min stop b)"
      using ab Cons.prems(2) by (simp add: piece_of_def xs slice_span)
    show ?thesis
    proof (cases "stop \<le> b")
      case True
      then have "min stop ?B = stop" "min stop b = stop" "min stop ?B \<le> max start b" using B by auto
      then show ?thesis using IH P unfolding last by simp
    next
      case False
      then have "min stop b = b" "max start b = b" "b \<le> min stop ?B" "max start a \<le> b"
        using 3 B ab by auto
      then show ?thesis using IH P span_append [of "max start a" b "min stop ?B" iq]
        unfolding last by simp
    qed
  qed
qed

lemma sampled_visit_exact:
  assumes "chain iq segs" and "sampled_visit v segs = Inr xs" and "hv_valid_start v < hv_valid_end v"
  shows "xs = span iq (hv_valid_start v) (hv_valid_end v)"
proof -
  have xs: "xs = concat (map (piece_of (hv_valid_start v) (hv_valid_end v)) segs)"
    and n: "int (length xs) = hv_valid_end v - hv_valid_start v"
    using assms(2) by (auto simp: sampled_visit_def Let_def valid_sample_count_def split: if_splits)
  have "segs \<noteq> []" using xs n assms(3) by auto
  then obtain a b ys rest where segs: "segs = (a, b, ys) # rest" by (cases segs) auto
  let ?p = "max (hv_valid_start v) a" and ?q = "min (hv_valid_end v) (fst (snd (last segs)))"
  have eq: "xs = span iq ?p ?q"
    using pieces_span [of iq a b ys rest] assms(1,3) xs by (simp add: segs)
  then have "int (nat (?q - ?p)) = hv_valid_end v - hv_valid_start v" using n by simp
  then have "?p = hv_valid_start v" "?q = hv_valid_end v" using assms(3) by linarith+
  then show ?thesis using eq by simp
qed

section \<open>Exactness of the iterator\<close>

lemma emit_visits_step:
  assumes "emit_visits waiting (v # vs) segs = (segs1, out, e)"
  obtains (stop) "out = []" and "segs1 = segs" and "e = None \<Longrightarrow> waiting"
  | (emit) xs out2 where "sampled_visit v segs = Inr xs" and "out = (v, xs) # out2"
      and "\<not> (waiting \<and> (segs = [] \<or> fst (snd (last segs)) < hv_valid_end v))"
      and "emit_visits waiting vs (trim_segments (hv_valid_end v) segs) = (segs1, out2, e)"
proof (cases "waiting \<and> (segs = [] \<or> fst (snd (last segs)) < hv_valid_end v)")
  case True
  then show thesis using assms stop by simp
next
  case go: False
  show thesis
  proof (cases "sampled_visit v segs")
    case (Inl x)
    then show thesis using assms go stop by auto
  next
    case (Inr xs)
    then show thesis using assms go emit by (cases "emit_visits waiting vs (trim_segments (hv_valid_end v) segs)") auto
  qed
qed

lemma emit_visits_exact:
  "emit_visits waiting vs segs = (segs1, out, e) \<Longrightarrow> chain iq segs \<Longrightarrow>
     \<forall>v \<in> set vs. hv_valid_start v < hv_valid_end v \<Longrightarrow>
     chain iq segs1 \<and> (\<forall>(v, xs) \<in> set out. xs = span iq (hv_valid_start v) (hv_valid_end v)) \<and>
     (segs1 \<noteq> [] \<longrightarrow> segs \<noteq> [] \<and> fst (snd (last segs1)) = fst (snd (last segs))) \<and>
     map fst out = take (length out) vs \<and> (e = None \<and> \<not> waiting \<longrightarrow> map fst out = vs)"
proof (induction vs arbitrary: segs out)
  case (Cons v vs)
  from Cons.prems(1) show ?case
  proof (cases rule: emit_visits_step)
    case stop
    then show ?thesis using Cons.prems(2) by (cases e) simp_all
  next
    case (emit xs out2)
    have ex: "xs = span iq (hv_valid_start v) (hv_valid_end v)"
      using sampled_visit_exact [OF Cons.prems(2) emit(1)] Cons.prems(3) by simp
    have ends: "trim_segments (hv_valid_end v) segs \<noteq> [] \<Longrightarrow>
        segs \<noteq> [] \<and> fst (snd (last (trim_segments (hv_valid_end v) segs))) = fst (snd (last segs))"
      using trim_last [of "hv_valid_end v" segs] by auto
    have "\<forall>v \<in> set vs. hv_valid_start v < hv_valid_end v" using Cons.prems(3) by simp
    note IH = Cons.IH [OF emit(4) chain_trim [OF Cons.prems(2)] this]
    show ?thesis using IH ex ends
      by (cases "segs1 = []"; cases "trim_segments (hv_valid_end v) segs = []") (simp_all add: emit(2))
  qed
qed simp

definition block_samples :: "hop_session \<Rightarrow> wire_block \<Rightarrow> iq_column list result" where
  "block_samples s w =
     (if length (receiver_ids (hx_plan s)) = 1 then ci16_columns 1 (wb_iq_payload w)
      else ci16_dual_rx (wb_iq_payload w) None)"

text \<open>The payload of every block is the device's sample stream at the counters of its evidence.\<close>

definition streams :: "hop_session \<Rightarrow> (int \<Rightarrow> iq_column) \<Rightarrow> wire_block \<Rightarrow> bool" where
  "streams s iq w \<longleftrightarrow> (\<forall>v columns. evidence_unpack (wb_evidence w) = Inr v \<longrightarrow>
     block_samples s w = Inr columns \<longrightarrow>
     columns = span iq (ev_block_first_counter v) (ev_block_end_counter_exclusive v))"

lemma accept_events_frame:
  "hx_previous_block_end (fst (accept_events s es)) = hx_previous_block_end s \<and>
   hx_plan (fst (accept_events s es)) = hx_plan s \<and>
   hx_request (fst (accept_events s es)) = hx_request s \<and>
   (\<exists>ext. hx_visits (fst (accept_events s es)) = hx_visits s @ ext)"
proof (induction s es rule: accept_events.induct)
  case (2 s e es)
  show ?case
  proof (cases "accept_event s e")
    case (Inr s1)
    have "\<exists>ext. hx_visits s1 = hx_visits s @ ext"
      using accept_event_facts(6,7) [OF Inr] by (cases "hx_previous_event s") auto
    then show ?thesis using "2.IH" [OF Inr] accept_event_keeps [OF Inr] Inr by auto
  qed simp
qed simp

lemma value_error_as_client_Inr [simp]: "value_error_as_client m = Inr x \<longleftrightarrow> m = Inr x"
  by (auto simp: value_error_as_client_def split: sum.splits exn.splits)

lemma validate_evidence_ok:
  assumes "validate_evidence s v = (s1, Inr u)"
  shows "hx_previous_block_end s1 = Some (ev_block_end_counter_exclusive v)"
    and "\<And>b. hx_previous_block_end s = Some b \<Longrightarrow> ev_block_first_counter v = b"
    and "hx_plan s1 = hx_plan s" and "\<exists>ext. hx_visits s1 = hx_visits s @ ext"
proof -
  let ?s = "s\<lparr>hx_previous_block_sequence := Some (ev_buffer_sequence v),
               hx_previous_block_end := Some (ev_block_end_counter_exclusive v)\<rparr>"
  have A: "accept_events ?s (ev_events v) = (s1, Inr u)"
    and g: "\<And>b. hx_previous_block_end s = Some b \<Longrightarrow> ev_block_first_counter v = b"
    using assms by (auto simp: validate_evidence_def Let_def checks_ok_iff split: sum.splits)
  show "hx_previous_block_end s1 = Some (ev_block_end_counter_exclusive v)" "hx_plan s1 = hx_plan s"
    "\<exists>ext. hx_visits s1 = hx_visits s @ ext"
    using accept_events_frame [of ?s "ev_events v"] by (simp_all add: A)
  show "ev_block_first_counter v = b" if "hx_previous_block_end s = Some b" for b using g that .
qed

lemma decode_block_ok:
  assumes "decode_block s w = (s1, Inr block)" and "streams s iq w"
  shows "hx_previous_block_end s1 = Some (ev_block_end_counter_exclusive (db_evidence block))"
    and "\<And>b. hx_previous_block_end s = Some b \<Longrightarrow> ev_block_first_counter (db_evidence block) = b"
    and "hx_plan s1 = hx_plan s" and "\<exists>ext. hx_visits s1 = hx_visits s @ ext"
    and "ev_block_first_counter (db_evidence block) < ev_block_end_counter_exclusive (db_evidence block)"
    and "db_samples block =
      span iq (ev_block_first_counter (db_evidence block)) (ev_block_end_counter_exclusive (db_evidence block))"
proof -
  obtain v where v: "evidence_unpack (wb_evidence w) = Inr v"
    using assms(1) by (auto simp: decode_block_def split: sum.splits)
  obtain s2 u where V: "validate_evidence s v = (s2, Inr u)"
    using assms(1) v by (auto simp: decode_block_def split: sum.splits prod.splits)
  obtain s3 where G: "accept_stream_generation s2 (wb_stream_generation w) = Inr s3"
    using assms(1) v V by (auto simp: decode_block_def split: sum.splits)
  obtain h where s3: "s3 = s2\<lparr>hx_stream_generation := h\<rparr>"
    using accept_stream_generation_inv [OF G] by blast
  note K = validate_evidence_ok [OF V]
  have S: "s1 = s3 \<and> db_evidence block = v \<and> block_samples s w = Inr (db_samples block)"
    using assms(1) v V G K(3)
    by (auto simp: decode_block_def Let_def block_samples_def s3 split: sum.splits if_splits)
  then show "hx_previous_block_end s1 = Some (ev_block_end_counter_exclusive (db_evidence block))"
    and "hx_plan s1 = hx_plan s" and "\<exists>ext. hx_visits s1 = hx_visits s @ ext"
    using K(1,3,4) by (simp_all add: s3)
  show "ev_block_first_counter (db_evidence block) = b" if "hx_previous_block_end s = Some b" for b
    using K(2) [OF that] S by simp
  show "ev_block_first_counter (db_evidence block) < ev_block_end_counter_exclusive (db_evidence block)"
    using evidence_unpack_events(2) [OF v] S by simp
  show "db_samples block =
      span iq (ev_block_first_counter (db_evidence block)) (ev_block_end_counter_exclusive (db_evidence block))"
    using assms(2) v S by (simp add: streams_def)
qed

lemma request_dwell_positive: "request_validate r = Inr () \<Longrightarrow> 0 < hr_dwell_samples r"
  by (auto simp: request_validate_def bindE_Inr_iff checks_ok_iff in_uint_def)

lemma visits_nonempty:
  assumes "request_validate r = Inr ()" and "\<forall>i < length vs. visit_ok r i (vs ! i)"
  shows "\<forall>v \<in> set vs. hv_valid_start v < hv_valid_end v"
    and "\<forall>v \<in> set vs. hi_start (hv_invalid_before v) < hv_valid_end v"
    and "\<forall>v \<in> set vs. hv_valid_start v = hi_end (hv_invalid_before v)"
  using assms(2) request_dwell_positive [OF assms(1)]
  by (force simp: in_set_conv_nth visit_ok_def valid_sample_count_def)+

lemma finish_completed_session:
  assumes "finish_completed b s = (s1, Inr receipt)"
  shows "hx_visits s1 = rc_visits receipt" and "\<exists>v. rc_visits receipt = hx_visits s @ [v]"
proof -
  show "\<exists>v. rc_visits receipt = hx_visits s @ [v]"
    by (rule finish_completed_facts [OF assms]) blast
  have "hx_visits (fst (release c t)) = hx_visits t" for c :: "'a hop_backend" and t
    by (simp add: release_def)
  then have R: "hx_visits t1 = hx_visits t" if "release c t = (t1, x)" for c :: "'a hop_backend" and t t1 x
    by (metis that fst_conv)
  show "hx_visits s1 = rc_visits receipt"
    using assms
    by (auto simp: finish_completed_def completed_receipt_def session_receipt_def Let_def bindE_Inr_iff
        split: sum.splits prod.splits if_splits dest!: R)
qed

lemma session_visits_nonempty:
  "session_inv s \<Longrightarrow> \<forall>v \<in> set (hx_visits s). hv_valid_start v < hv_valid_end v"
  unfolding session_inv_def using visits_nonempty(1) by blast

lemma assemble_block_exact:
  assumes "assemble_block s emitted segs block = (segs1, out, e)" and "chain iq segs"
    and "segs \<noteq> [] \<longrightarrow> fst (snd (last segs)) = ev_block_first_counter (db_evidence block)"
    and "ev_block_first_counter (db_evidence block) < ev_block_end_counter_exclusive (db_evidence block)"
    and "db_samples block =
      span iq (ev_block_first_counter (db_evidence block)) (ev_block_end_counter_exclusive (db_evidence block))"
    and "\<forall>v \<in> set (hx_visits s). hv_valid_start v < hv_valid_end v"
  shows "chain iq segs1"
    and "segs1 \<noteq> [] \<longrightarrow> fst (snd (last segs1)) = ev_block_end_counter_exclusive (db_evidence block)"
    and "\<forall>(v, xs) \<in> set out. xs = span iq (hv_valid_start v) (hv_valid_end v)"
    and "map fst out = take (length out) (drop emitted (hx_visits s))"
proof -
  let ?segs = "segs @ [(ev_block_first_counter (db_evidence block),
    ev_block_end_counter_exclusive (db_evidence block), db_samples block)]"
  obtain segs2 out2 e2 where E: "emit_visits True (drop emitted (hx_visits s)) ?segs = (segs2, out2, e2)"
    by (metis prod_cases3)
  have ch: "chain iq ?segs" using chain_append [OF assms(2) _ assms(4)] assms(3,5) by simp
  have ne: "\<forall>v \<in> set (drop emitted (hx_visits s)). hv_valid_start v < hv_valid_end v"
    using assms(6) by (meson in_set_dropD)
  note X = emit_visits_exact [OF E ch ne]
  have out: "out = out2"
    and segs1: "segs1 = segs2 \<or> segs1 = trim_segments (retain_counter s (emitted + length out2)) segs2"
    using assms(1) E by (auto simp: assemble_block_def Let_def split: option.splits)
  show "chain iq segs1" using segs1 X chain_trim by auto
  show "segs1 \<noteq> [] \<longrightarrow> fst (snd (last segs1)) = ev_block_end_counter_exclusive (db_evidence block)"
    using segs1 X trim_last [of "retain_counter s (emitted + length out2)" segs2] by auto
  show "\<forall>(v, xs) \<in> set out. xs = span iq (hv_valid_start v) (hv_valid_end v)"
    and "map fst out = take (length out) (drop emitted (hx_visits s))"
    using X by (simp_all add: out)
qed

lemma streams_plan: "hx_plan s1 = hx_plan s \<Longrightarrow> streams s1 iq w = streams s iq w"
  by (simp add: streams_def block_samples_def)

lemma iterate_visits_exact:
  "iterate_visits fin cln p s emitted segs ws stop = (s1, outs, r) \<Longrightarrow> session_inv s \<Longrightarrow> chain iq segs \<Longrightarrow>
   segs \<noteq> [] \<longrightarrow> hx_previous_block_end s = Some (fst (snd (last segs))) \<Longrightarrow>
   emitted \<le> length (hx_visits s) \<Longrightarrow> \<forall>w \<in> set ws. streams s iq w \<Longrightarrow>
   (\<forall>(v, xs) \<in> set outs. xs = span iq (hv_valid_start v) (hv_valid_end v)) \<and>
   (\<forall>receipt. r = Inr receipt \<longrightarrow> map fst outs = drop emitted (rc_visits receipt) \<and>
      (\<exists>ext. rc_visits receipt = hx_visits s @ ext))"
proof (induction ws arbitrary: p s emitted segs outs)
  case Nil
  show ?case
  proof (cases stop)
    case (Breaks e)
    then show ?thesis using Nil.prems(1) by auto
  next
    case Exhausted
    obtain s2 o2 where Pair: "finish_completed fin s = (s2, o2)" by (cases "finish_completed fin s")
    show ?thesis
    proof (cases o2)
      case (Inl e)
      then show ?thesis using Nil.prems(1) Pair Exhausted by auto
    next
      case (Inr receipt)
      then have F: "finish_completed fin s = (s2, Inr receipt)" using Pair by simp
      note V = finish_completed_session [OF F] and W = finish_completed_visits [OF F Nil.prems(2)]
      have ne: "\<forall>v \<in> set (drop emitted (hx_visits s2)). hv_valid_start v < hv_valid_end v"
        using visits_nonempty(1) [OF _ W(1)] Nil.prems(2) V(1)
        by (metis in_set_dropD session_inv_def)
      obtain segs2 out2 e2 where E: "emit_visits False (drop emitted (hx_visits s2)) segs = (segs2, out2, e2)"
        by (metis prod_cases3)
      note X = emit_visits_exact [OF E Nil.prems(3) ne]
      have "set outs \<subseteq> set out2 \<and> (\<forall>rc. r = Inr rc \<longrightarrow> outs = out2 \<and> rc = receipt \<and> e2 = None)"
        using Nil.prems(1) F E Exhausted by (auto split: option.splits if_splits dest: in_set_takeD)
      moreover have "e2 = None \<Longrightarrow> map fst out2 = drop emitted (rc_visits receipt)"
        using X unfolding V(1) by blast
      moreover have "\<exists>ext. rc_visits receipt = hx_visits s @ ext" using V(2) by blast
      ultimately show ?thesis using X by blast
    qed
  qed
next
  case (Cons w ws)
  obtain s2 o2 where D: "decode_block s w = (s2, o2)" by (cases "decode_block s w")
  show ?case
  proof (cases o2)
    case (Inl e)
    then show ?thesis using Cons.prems(1) D by auto
  next
    case (Inr block)
    then have D: "decode_block s w = (s2, Inr block)" using D by simp
    have st: "streams s iq w" using Cons.prems(6) by simp
    note K = decode_block_ok [OF D st]
    have inv2: "session_inv s2" using decode_block_inv [OF Cons.prems(2), of w] by (simp add: D)
    obtain segs2 out2 e2 where A: "assemble_block s2 emitted segs block = (segs2, out2, e2)"
      by (metis prod_cases3)
    have joined: "segs \<noteq> [] \<longrightarrow> fst (snd (last segs)) = ev_block_first_counter (db_evidence block)"
      using K(2) Cons.prems(4) by simp
    note X = assemble_block_exact [OF A Cons.prems(3) joined K(5,6) session_visits_nonempty [OF inv2]]
    show ?thesis
    proof (cases "satisfied p (length out2) \<or> e2 \<noteq> None")
      case True
      then have "set outs \<subseteq> set out2 \<and> (\<exists>e. r = Inl e)"
        using Cons.prems(1) D A by (auto split: option.splits if_splits dest: in_set_takeD)
      then show ?thesis using X(3) by blast
    next
      case False
      obtain outs3 where R: "iterate_visits fin cln (still_wanted p (length out2)) s2 (emitted + length out2) segs2 ws stop
          = (s1, outs3, r)"
        and outs: "outs = out2 @ outs3"
        using Cons.prems(1) D A False by (auto split: prod.splits)
      obtain ext where ext: "hx_visits s2 = hx_visits s @ ext" using K(4) by blast
      have len: "emitted + length out2 \<le> length (hx_visits s2)"
      proof -
        have "length out2 \<le> length (drop emitted (hx_visits s2))"
          using X(4) by (metis length_map length_take min.cobounded1)
        then show ?thesis using Cons.prems(5) by (simp add: ext)
      qed
      have seg_end: "segs2 \<noteq> [] \<longrightarrow> hx_previous_block_end s2 = Some (fst (snd (last segs2)))"
        using X(2) K(1) by simp
      have "\<forall>w \<in> set ws. streams s2 iq w" using Cons.prems(6) streams_plan [OF K(3)] by simp
      note IH = Cons.IH [OF R inv2 X(1) seg_end len this]
      note IH1 = conjunct1 [OF IH] and IH2 = conjunct2 [OF IH, rule_format]
      have "map fst outs = drop emitted (rc_visits receipt)" if rc: "r = Inr receipt" for receipt
      proof -
        obtain ext2 where e2: "rc_visits receipt = hx_visits s2 @ ext2"
          using conjunct2 [OF IH2 [OF rc]] by (rule exE)
        have "map fst outs = take (length out2) (drop emitted (hx_visits s2))
            @ drop (emitted + length out2) (rc_visits receipt)"
          using conjunct1 [OF IH2 [OF rc]] X(4) by (simp add: outs)
        also have "take (length out2) (drop emitted (hx_visits s2))
            = take (length out2) (drop emitted (rc_visits receipt))"
          using len by (simp add: e2)
        also have "drop (emitted + length out2) (rc_visits receipt)
            = drop (length out2) (drop emitted (rc_visits receipt))" by (simp add: add.commute)
        finally show ?thesis by (simp only: append_take_drop_id)
      qed
      moreover have "\<exists>x. rc_visits receipt = hx_visits s @ x" if rc: "r = Inr receipt" for receipt
      proof -
        obtain x where "rc_visits receipt = hx_visits s2 @ x"
          using conjunct2 [OF IH2 [OF rc]] by (rule exE)
        then show ?thesis by (simp add: ext)
      qed
      moreover have "\<forall>(v, xs) \<in> set outs. xs = span iq (hv_valid_start v) (hv_valid_end v)"
        using IH1 X(3) unfolding outs set_append ball_Un by (rule conjI [rotated])
      ultimately show ?thesis by blast
    qed
  qed
qed

lemma validate_evidence_request: "hx_request (fst (validate_evidence s v)) = hx_request s"
  by (simp add: validate_evidence_def Let_def accept_events_frame split: sum.splits)

lemma decode_block_request: "hx_request (fst (decode_block s w)) = hx_request s"
proof (cases "evidence_unpack (wb_evidence w)")
  case (Inr v)
  obtain s1 o1 where V: "validate_evidence s v = (s1, o1)" by (cases "validate_evidence s v")
  have i1: "hx_request s1 = hx_request s" using validate_evidence_request [of s v] by (simp add: V)
  have "hx_request s2 = hx_request s1" if "accept_stream_generation s1 g = Inr s2" for s2 g
    using accept_stream_generation_inv [OF that] by auto
  then show ?thesis using i1 by (simp add: decode_block_def Inr V Let_def split: sum.splits)
qed (simp add: decode_block_def)

lemma run_request: "hx_request (fst (run decode_block s ws)) = hx_request s"
proof (induction ws arbitrary: s)
  case (Cons w ws)
  then show ?case using decode_block_request [of s w] by (simp add: split_beta)
qed simp

end
