(* ===== verification/Adaptive_Stream.thy ===== *)
theory Adaptive_Stream
  imports Host_Adaptive Effects Hop_Assembly
begin

text \<open>
  \<open>adaptive_hop_stream.py\<close> and \<open>host_adaptive_hop_stream.py\<close>: the consumer that turns blocks of IQ with
  adaptive evidence into complete visits, with or without gaps in the counters, and accounts for
  every counter when the session ends. The engine is generic in the record versions: its
  constructor parameters are the fields of \<open>stream_config\<close>.
\<close>

section \<open>State\<close>

definition LOST :: int where
  "LOST = ST_EVENT_OVERFLOW OR ST_CONTINUITY_FAULT"

record adaptive_visit =
  av_event :: hop_event
  av_choice :: adaptive_choice
  av_profile :: hop_profile
  av_valid_end :: int

definition av_valid_start :: "adaptive_visit \<Rightarrow> int" where
  "av_valid_start v = he_invalid_end_counter_exclusive (av_event v)"

definition av_valid_sample_count :: "adaptive_visit \<Rightarrow> int" where
  "av_valid_sample_count v = av_valid_end v - av_valid_start v"

record stream_config =
  sc_geometry :: hop_request
  sc_status_pack :: "hop_status \<Rightarrow> bytes result"
  sc_decode_evidence :: "bytes \<Rightarrow> (hop_evidence \<times> adaptive_choice list) result"
  sc_decode_samples :: "bytes \<Rightarrow> iq_column list result"
  sc_bytes_per_sample :: int
  sc_samples_per_block :: int
  sc_minimum_valid_duty_ppm :: int
  sc_allow_counter_gaps :: bool
  sc_close_visits_from_geometry :: bool
  sc_maximum_retained_samples :: int

record adaptive_receipt =
  at_status :: hop_status
  at_stream_generation :: "int option"
  at_visits :: "adaptive_visit list"
  at_events :: "hop_event list"
  at_choices :: "adaptive_choice list"
  at_target_coverage :: "(int \<times> int \<times> int) list"
  at_valid :: int
  at_transition_invalid :: int
  at_unclassified :: int
  at_unreceived_tail :: int
  at_duty_denominator :: int
  at_valid_duty_ppm :: int
  at_duty_target_met :: bool
  at_source_span_attested :: bool
  at_sparse :: "(int list \<times> int) option"

record adaptive_stream =
  as_segments :: "iq_column segment list"
  as_events :: "hop_event list"
  as_choices :: "adaptive_choice list"
  as_visits :: "adaptive_visit list"
  as_retained_visits :: "adaptive_visit list"
  as_gaps :: "(int \<times> int) list"
  as_emitted :: nat
  as_previous :: "hop_evidence option"
  as_first_block_counter :: "int option"
  as_generation :: "int option"
  as_failed :: bool
  as_receipt :: "adaptive_receipt option"

definition stream_start :: adaptive_stream where
  "stream_start = \<lparr>as_segments = [], as_events = [], as_choices = [], as_visits = [],
     as_retained_visits = [], as_gaps = [], as_emitted = 0, as_previous = None,
     as_first_block_counter = None, as_generation = None, as_failed = False, as_receipt = None\<rparr>"

definition retained_sample_count :: "adaptive_stream \<Rightarrow> int" where
  "retained_sample_count s = retained_samples (as_segments s)"

text \<open>\<open>__init__\<close> after the type checks: the request must pack, then the bounds.\<close>

definition stream_config_new ::
    "bytes result \<Rightarrow> hop_request \<Rightarrow> (hop_status \<Rightarrow> bytes result) \<Rightarrow> (bytes \<Rightarrow> (hop_evidence \<times> adaptive_choice list) result)
     \<Rightarrow> (bytes \<Rightarrow> iq_column list result) \<Rightarrow> int \<Rightarrow> int \<Rightarrow> int \<Rightarrow> int \<Rightarrow> bool \<Rightarrow> bool \<Rightarrow> stream_config result" where
  "stream_config_new packed geometry status_packer decode samples bytes_per_sample samples_per_block
       minimum_valid_duty_ppm maximum_event_lag_blocks allow_gaps close_from_geometry =
     bindE packed (\<lambda>_.
     bindE (checks
       [(\<not> (0 < samples_per_block \<and> samples_per_block \<le> 2 ^ 24)
          \<or> \<not> (0 \<le> minimum_valid_duty_ppm \<and> minimum_valid_duty_ppm \<le> 1000000)
          \<or> \<not> (0 \<le> maximum_event_lag_blocks \<and> maximum_event_lag_blocks \<le> 8),
         ValueError ''invalid adaptive stream block/duty bounds'')]) (\<lambda>_.
       Inr \<lparr>sc_geometry = geometry, sc_status_pack = status_packer, sc_decode_evidence = decode, sc_decode_samples = samples,
         sc_bytes_per_sample = bytes_per_sample, sc_samples_per_block = samples_per_block,
         sc_minimum_valid_duty_ppm = minimum_valid_duty_ppm, sc_allow_counter_gaps = allow_gaps,
         sc_close_visits_from_geometry = close_from_geometry,
         sc_maximum_retained_samples =
           hr_dwell_samples geometry + (maximum_event_lag_blocks + 1) * samples_per_block\<rparr>))"

definition decode_v2 :: "adaptive_request \<Rightarrow> bytes \<Rightarrow> (hop_evidence \<times> adaptive_choice list) result" where
  "decode_v2 r payload =
     bindE (adaptive_evidence_unpack payload) (\<lambda>v.
     bindE (validate_binding v r) (\<lambda>_. Inr (ae_geometry v, ae_choices v)))"

definition adaptive_stream_v2 :: "adaptive_request \<Rightarrow> int \<Rightarrow> int \<Rightarrow> int \<Rightarrow> stream_config result" where
  "adaptive_stream_v2 r samples_per_block minimum_valid_duty_ppm maximum_event_lag_blocks =
     stream_config_new (adaptive_request_pack r) (ar_geometry r) adaptive_status_pack (decode_v2 r)
       (\<lambda>payload. ci16_dual_rx payload None) 8 samples_per_block minimum_valid_duty_ppm
       maximum_event_lag_blocks False False"

text \<open>\<open>_decode_v3\<close>; the request is version 3 or 4, and its own \<open>pack\<close> runs.\<close>

definition decode_v3 ::
    "('d host_request \<Rightarrow> bytes result) \<Rightarrow> 'd host_request \<Rightarrow> bytes \<Rightarrow> (hop_evidence \<times> adaptive_choice list) result" where
  "decode_v3 pack r payload =
     bindE (host_evidence_unpack payload) (\<lambda>v.
     bindE (host_validate_binding pack v r) (\<lambda>_. Inr (ae_geometry v, ae_choices v)))"

definition host_stream_v3 ::
    "('d host_request \<Rightarrow> bytes result) \<Rightarrow> bool \<Rightarrow> 'd host_request \<Rightarrow> int \<Rightarrow> int \<Rightarrow> int \<Rightarrow> stream_config result" where
  "host_stream_v3 pack version4 r samples_per_block minimum_valid_duty_ppm maximum_event_lag_blocks =
     stream_config_new (pack r) (hq_geometry r) host_status_pack (decode_v3 pack r) (ci16_columns 1) 4
       samples_per_block minimum_valid_duty_ppm maximum_event_lag_blocks version4 True"

section \<open>Closing and emitting visits\<close>

definition close_visit :: "stream_config \<Rightarrow> adaptive_stream \<Rightarrow> hop_event \<Rightarrow> adaptive_choice \<Rightarrow> int \<Rightarrow> (adaptive_stream, unit) effect" where
  "close_visit c s e choice stop =
     (if stop - he_invalid_end_counter_exclusive e \<noteq> hr_dwell_samples (sc_geometry c)
      then (s, Inl (hc ''adaptive visit is not a complete requested dwell''))
      else case request_profile (sc_geometry c) (he_to_profile_index e) of
        Inl x \<Rightarrow> (s, Inl x)
      | Inr profile \<Rightarrow>
          (s\<lparr>as_visits := as_visits s @
              [\<lparr>av_event = e, av_choice = choice, av_profile = profile, av_valid_end = stop\<rparr>]\<rparr>, Inr ()))"

definition stream_trim :: "int \<Rightarrow> adaptive_stream \<Rightarrow> adaptive_stream" where
  "stream_trim first s = s\<lparr>as_segments := trim_segments first (as_segments s)\<rparr>"

definition reaches :: "adaptive_stream \<Rightarrow> int \<Rightarrow> bool" where
  "reaches s stop \<longleftrightarrow> as_segments s \<noteq> [] \<and> stop \<le> fst (snd (last (as_segments s)))"

definition close_current_visit :: "stream_config \<Rightarrow> adaptive_stream \<Rightarrow> (adaptive_stream, unit) effect" where
  "close_current_visit c s =
     (if as_events s = [] \<or> length (as_visits s) = length (as_events s) then (s, Inr ())
      else if length (as_visits s) \<noteq> length (as_events s) - 1
      then (s, Inl (hc ''adaptive visit closure inventory is invalid''))
      else let e = last (as_events s);
               stop = he_invalid_end_counter_exclusive e + hr_dwell_samples (sc_geometry c) in
        if reaches s stop then close_visit c s e (last (as_choices s)) stop else (s, Inr ()))"

text \<open>
  \<open>_emit_ready\<close>: the loop over the closed visits from \<open>_emitted\<close> on. Outputs are the visits with their
  samples (\<open>AdaptiveHopSampledVisitV2\<close> rechecks their number).
\<close>

definition visit_pieces :: "adaptive_stream \<Rightarrow> adaptive_visit \<Rightarrow> iq_column list" where
  "visit_pieces s v = concat (map (piece_of (av_valid_start v) (av_valid_end v)) (as_segments s))"

definition intersects_gap :: "adaptive_stream \<Rightarrow> adaptive_visit \<Rightarrow> bool" where
  "intersects_gap s v \<longleftrightarrow>
     (\<exists>(gap_start, gap_end) \<in> set (as_gaps s). gap_end > av_valid_start v \<and> gap_start < av_valid_end v)"

fun emit_ready ::
    "stream_config \<Rightarrow> adaptive_visit list \<Rightarrow> adaptive_stream \<Rightarrow> (adaptive_stream, (adaptive_visit \<times> iq_column list) list) effect" where
  "emit_ready c [] s = (s, Inr [])"
| "emit_ready c (v # vs) s =
     (if \<not> reaches s (av_valid_end v) then (s, Inr [])
      else let samples = visit_pieces s v in
        if int (length samples) \<noteq> av_valid_sample_count v then
          if \<not> sc_allow_counter_gaps c \<or> \<not> intersects_gap s v
          then (s, Inl (hc ''adaptive IQ does not cover the complete valid dwell''))
          else emit_ready c vs (stream_trim (av_valid_end v) (s\<lparr>as_emitted := Suc (as_emitted s)\<rparr>))
        else bindS
          (emit_ready c vs (stream_trim (av_valid_end v)
            (s\<lparr>as_retained_visits := as_retained_visits s @ [v], as_emitted := Suc (as_emitted s)\<rparr>)))
          (\<lambda>s out. (s, Inr ((v, samples) # out))))"

definition emit_pending ::
    "stream_config \<Rightarrow> adaptive_stream \<Rightarrow> (adaptive_stream, (adaptive_visit \<times> iq_column list) list) effect" where
  "emit_pending c s = emit_ready c (drop (as_emitted s) (as_visits s)) s"

section \<open>Events\<close>

definition chain_invalid :: "stream_config \<Rightarrow> adaptive_stream \<Rightarrow> hop_event \<Rightarrow> bool" where
  "chain_invalid c s e \<longleftrightarrow>
     (let index = int (length (as_events s)) in
      index \<ge> hr_dwell_count (sc_geometry c) \<or> he_event_sequence e \<noteq> index \<or> he_dwell_index e \<noteq> index
      \<or> he_kind e \<noteq> (if as_events s = [] then STARTUP else RETUNE)
      \<or> he_from_profile_index e
          \<noteq> (if as_events s = [] then 255 else he_to_profile_index (last (as_events s)))
      \<or> he_invalid_end_counter_exclusive e + hr_dwell_samples (sc_geometry c) \<ge> 2 ^ 64)"

definition crosses_blocks_badly :: "stream_config \<Rightarrow> adaptive_stream \<Rightarrow> hop_event \<Rightarrow> adaptive_choice \<Rightarrow> bool" where
  "crosses_blocks_badly c s e choice \<longleftrightarrow>
     (let previous = last (as_events s); last_choice = last (as_choices s) in
      he_invalid_start_counter e
        \<noteq> he_invalid_end_counter_exclusive previous + hr_dwell_samples (sc_geometry c)
      \<or> he_device_event_id e \<le> he_device_event_id previous
      \<or> ac_decision_counter choice < he_invalid_start_counter e
      \<or> he_invalid_start_counter e - he_invalid_start_counter (hd (as_events s))
          \<ge> hr_capture_span_samples (sc_geometry c)
      \<or> (ac_basis_visit last_choice \<noteq> NO_VISIT \<and> ac_basis_visit choice = NO_VISIT)
      \<or> (ac_basis_visit choice \<noteq> NO_VISIT \<and> ac_basis_visit last_choice \<noteq> NO_VISIT
          \<and> ac_basis_visit choice < ac_basis_visit last_choice))"

text \<open>\<open>self._events[choice.basis_visit]\<close>.\<close>

definition basis_event :: "adaptive_stream \<Rightarrow> int \<Rightarrow> hop_event result" where
  "basis_event s b = (if 0 \<le> b \<and> b < int (length (as_events s)) then Inr (as_events s ! nat b) else Inl IndexError)"

definition accept_adaptive_event ::
    "stream_config \<Rightarrow> adaptive_stream \<Rightarrow> hop_event \<times> adaptive_choice \<Rightarrow> (adaptive_stream, unit) effect" where
  "accept_adaptive_event c s = (\<lambda>(e, choice).
     bindS (s, checks
       [(chain_invalid c s e, hc ''adaptive actual visit/event chain is invalid''),
        (as_events s = [] \<and> (case as_first_block_counter s of None \<Rightarrow> True
           | Some first \<Rightarrow> he_invalid_start_counter e < first), hc ''adaptive startup precedes received IQ''),
        (as_events s \<noteq> [] \<and> crosses_blocks_badly c s e choice,
         hc ''adaptive cross-block dwell/decision continuity is invalid'')]) (\<lambda>s _.
     bindS (s, if ac_basis_visit choice = NO_VISIT then Inr ()
        else bindE (basis_event s (ac_basis_visit choice)) (\<lambda>basis. checks
          [(he_invalid_end_counter_exclusive basis + hr_dwell_samples (sc_geometry c)
              > ac_decision_counter choice,
            hc ''adaptive decision uses an unfinished source dwell'')])) (\<lambda>s _.
     bindS
       (if as_events s = [] then (s, Inr ())
        else if length (as_visits s) = length (as_events s)
        then (s, checks [(av_valid_end (last (as_visits s)) \<noteq> he_invalid_start_counter e,
               hc ''adaptive geometry-closed visit disagrees with the next actual event'')])
        else close_visit c s (last (as_events s)) (last (as_choices s)) (he_invalid_start_counter e)) (\<lambda>s _.
       (s\<lparr>as_events := as_events s @ [e], as_choices := as_choices s @ [choice]\<rparr>, Inr ())))))"

section \<open>Blocks\<close>

definition require_open :: "adaptive_stream \<Rightarrow> (adaptive_stream, unit) effect" where
  "require_open s = (s, checks
     [(as_failed s \<or> as_receipt s \<noteq> None, hc ''adaptive stream is failed or already finished'')])"

definition missing_before :: "adaptive_stream \<Rightarrow> hop_evidence \<Rightarrow> int" where
  "missing_before s base =
     (case as_previous s of None \<Rightarrow> 0
      | Some p \<Rightarrow> ev_block_first_counter base - ev_block_end_counter_exclusive p)"

definition expected_block_sequence :: "stream_config \<Rightarrow> adaptive_stream \<Rightarrow> hop_evidence \<Rightarrow> int" where
  "expected_block_sequence c s base =
     (case as_previous s of None \<Rightarrow> 0
      | Some p \<Rightarrow> ev_buffer_sequence p + 1
          + (if sc_allow_counter_gaps c then missing_before s base div sc_samples_per_block c else 0))"

definition block_order_checks :: "stream_config \<Rightarrow> adaptive_stream \<Rightarrow> hop_evidence \<Rightarrow> (bool \<times> exn) list" where
  "block_order_checks c s base =
     [(has (ev_flags base) LOST \<or> \<not> (ev_state base = RUNNING \<or> terminal_state (ev_state base)),
       hc ''adaptive stream reports lost/invalid capture state''),
      ((case as_previous s of None \<Rightarrow> False | Some p \<Rightarrow> terminal_state (ev_state p)),
       hc ''adaptive IQ arrived after terminal evidence''),
      ((case as_previous s of None \<Rightarrow> False
        | Some p \<Rightarrow> ev_block_first_counter base < ev_block_end_counter_exclusive p),
       hc ''adaptive block counters regress''),
      (ev_buffer_sequence base \<noteq> expected_block_sequence c s base,
       hc ''adaptive block sequence disagrees with counter gap''),
      (missing_before s base \<noteq> 0 \<and> \<not> sc_allow_counter_gaps c,
       hc ''adaptive block counters are not contiguous'')]"

definition note_gap :: "adaptive_stream \<Rightarrow> hop_evidence \<Rightarrow> adaptive_stream" where
  "note_gap s base =
     (case as_previous s of None \<Rightarrow> s
      | Some p \<Rightarrow> if ev_block_first_counter base > ev_block_end_counter_exclusive p
          then s\<lparr>as_gaps := as_gaps s @ [(ev_block_end_counter_exclusive p, ev_block_first_counter base)]\<rparr>
          else s)"

definition block_shape_checks :: "stream_config \<Rightarrow> adaptive_stream \<Rightarrow> hop_evidence \<Rightarrow> wire_block \<Rightarrow> (bool \<times> exn) list" where
  "block_shape_checks c s base w =
     (let count = ev_block_end_counter_exclusive base - ev_block_first_counter base in
      [(count > sc_samples_per_block c \<or> int (length (wb_iq_payload w)) \<noteq> count * sc_bytes_per_sample c,
        hc ''adaptive IQ length disagrees with block bounds''),
       ((case wb_stream_generation w of None \<Rightarrow> True | Some g \<Rightarrow> \<not> (0 < g \<and> g < 2 ^ 64)),
        hc ''adaptive ABI-3 stream generation is missing/invalid''),
       (as_generation s \<noteq> None \<and> wb_stream_generation w \<noteq> as_generation s,
        hc ''adaptive ABI-3 stream generation changed'')])"

definition admit_block :: "adaptive_stream \<Rightarrow> hop_evidence \<Rightarrow> wire_block \<Rightarrow> adaptive_stream" where
  "admit_block s base w = s\<lparr>
     as_first_block_counter := (case as_first_block_counter s of
        None \<Rightarrow> Some (ev_block_first_counter base) | Some first \<Rightarrow> Some first),
     as_generation := wb_stream_generation w\<rparr>"

definition retain_from :: "adaptive_stream \<Rightarrow> int" where
  "retain_from s =
     (if as_emitted s < length (as_visits s) then av_valid_start (as_visits s ! as_emitted s)
      else if as_events s \<noteq> [] then he_invalid_end_counter_exclusive (last (as_events s))
      else the (as_first_block_counter s))"

definition feed_block ::
    "stream_config \<Rightarrow> adaptive_stream \<Rightarrow> wire_block \<Rightarrow> (adaptive_stream, (adaptive_visit \<times> iq_column list) list) effect" where
  "feed_block c s w =
     bindS (s, sc_decode_evidence c (wb_evidence w)) (\<lambda>s (base, choices).
     bindS (s, checks (block_order_checks c s base)) (\<lambda>s _.
     bindS (note_gap s base, checks (block_shape_checks c s base w)) (\<lambda>s _.
     bindS (eachS (accept_adaptive_event c) (admit_block s base w) (zip (ev_events base) choices)) (\<lambda>s _.
     bindS (s, sc_decode_samples c (wb_iq_payload w)) (\<lambda>s columns.
     let s = s\<lparr>as_segments := as_segments s
            @ [(ev_block_first_counter base, ev_block_end_counter_exclusive base, columns)],
           as_previous := Some base\<rparr> in
     bindS (if sc_close_visits_from_geometry c \<and> ev_state base = RUNNING
            then close_current_visit c s else (s, Inr ())) (\<lambda>s _.
     bindS (emit_pending c s) (\<lambda>s out.
     let s = stream_trim (retain_from s) s in
       (s, bindE (checks [(retained_sample_count s > sc_maximum_retained_samples c,
              hc ''adaptive event delivery exceeded bounded IQ retention'')]) (\<lambda>_. Inr out)))))))))"

text \<open>\<open>except Exception: self._failed = True; self._segments.clear(); raise\<close>.\<close>

definition poison :: "(adaptive_stream, 'a) effect \<Rightarrow> (adaptive_stream, 'a) effect" where
  "poison m = (case m of (s, Inl e) \<Rightarrow> (s\<lparr>as_failed := True, as_segments := []\<rparr>, Inl e) | (s, Inr x) \<Rightarrow> (s, Inr x))"

definition stream_feed ::
    "stream_config \<Rightarrow> adaptive_stream \<Rightarrow> wire_block \<Rightarrow> (adaptive_stream, (adaptive_visit \<times> iq_column list) list) effect" where
  "stream_feed c s w = bindS (require_open s) (\<lambda>s _. poison (feed_block c s w))"

section \<open>The end of a session\<close>

definition finish_inventory_checks :: "stream_config \<Rightarrow> adaptive_stream \<Rightarrow> hop_status \<Rightarrow> (bool \<times> exn) list" where
  "finish_inventory_checks c s st =
     [(hs_session_id st \<noteq> hr_session_id (sc_geometry c)
         \<or> hs_planned_dwells st \<noteq> hr_dwell_count (sc_geometry c)
         \<or> \<not> (hs_state st = COMPLETED \<or> hs_state st = CANCELLED)
         \<or> has (hs_flags st) LOST \<or> \<not> has (hs_flags st) ST_RESTORE_SUCCEEDED
         \<or> hs_events_emitted st \<noteq> int (length (as_events s))
         \<or> hs_visits_started st \<noteq> int (length (as_events s)),
       hc ''adaptive terminal identity/inventory/restoration is invalid''),
      ((case as_previous s of None \<Rightarrow> False
        | Some p \<Rightarrow> hs_last_block_sequence st \<noteq> ev_buffer_sequence p
            \<or> hs_last_block_end_counter st \<noteq> ev_block_end_counter_exclusive p
            \<or> (terminal_state (ev_state p) \<and>
                (hs_state st \<noteq> ev_state p \<or> hs_reason st \<noteq> ev_reason p \<or> hs_flags st \<noteq> ev_flags p
                 \<or> hs_error_code st \<noteq> ev_error_code p))),
       hc ''adaptive terminal status disagrees with received blocks''),
      (as_previous s = None \<and>
         (as_events s \<noteq> [] \<or> hs_last_block_end_counter st \<noteq> 0 \<or> hs_last_block_sequence st \<noteq> 0),
       hc ''adaptive terminal claims undelivered IQ''),
      (as_events s \<noteq> [] \<and>
         (hs_first_counter st, hs_startup_invalid_start_counter st, hs_startup_invalid_end_counter_exclusive st)
         \<noteq> (he_invalid_start_counter (hd (as_events s)), he_invalid_start_counter (hd (as_events s)),
            he_invalid_end_counter_exclusive (hd (as_events s))),
       hc ''adaptive terminal startup interval changed'')]"

definition gap_samples :: "adaptive_stream \<Rightarrow> int" where
  "gap_samples s = (\<Sum>(a, b) \<leftarrow> as_gaps s. b - a)"

definition denominator_of :: "adaptive_stream \<Rightarrow> hop_status \<Rightarrow> int" where
  "denominator_of s st = (if as_events s = [] then 0 else hs_final_counter st - hs_first_counter st)"

definition finish_completion_checks :: "stream_config \<Rightarrow> adaptive_stream \<Rightarrow> hop_status \<Rightarrow> (bool \<times> exn) list" where
  "finish_completion_checks c s st =
     [((case as_previous s of None \<Rightarrow> True | Some p \<Rightarrow> ev_state p \<noteq> hs_state st) \<or> as_events s = [],
       hc ''adaptive completion lacks terminal block/events''),
      (let e = last (as_events s); missing = gap_samples s; denominator = denominator_of s st;
           span_samples = hr_capture_span_samples (sc_geometry c);
           overshoot = hr_dwell_samples (sc_geometry c) + he_invalid_end_counter_exclusive e
             - he_invalid_start_counter e;
           after_end = hs_last_block_end_counter st - hs_final_counter st in
         \<not> (span_samples \<le> denominator \<and> denominator \<le> span_samples + overshoot + missing)
         \<or> \<not> (0 \<le> after_end \<and> after_end \<le> sc_samples_per_block c + missing),
       hc ''adaptive completion duration/overshoot is invalid'')]"

definition close_last_visit :: "stream_config \<Rightarrow> adaptive_stream \<Rightarrow> hop_status \<Rightarrow> (adaptive_stream, unit) effect" where
  "close_last_visit c s st =
     (if length (as_visits s) = length (as_events s)
      then (s, checks [(av_valid_end (last (as_visits s)) \<noteq> hs_final_counter st,
             hc ''adaptive geometry-closed visit disagrees with terminal status'')])
      else close_visit c s (last (as_events s)) (last (as_choices s)) (hs_final_counter st))"

definition adaptive_valid :: "adaptive_visit list \<Rightarrow> int" where
  "adaptive_valid vs = sum_list (map av_valid_sample_count vs)"

text \<open>The part of an invalid span that lies between the first and the final counter.\<close>

definition clipped_invalid :: "hop_status \<Rightarrow> hop_event \<Rightarrow> int" where
  "clipped_invalid st e =
     max 0 (min (hs_final_counter st) (he_invalid_end_counter_exclusive e)
            - max (hs_first_counter st) (he_invalid_start_counter e))"

definition target_coverage :: "hop_request \<Rightarrow> adaptive_visit list \<Rightarrow> (int \<times> int \<times> int) list" where
  "target_coverage g vs =
     map (\<lambda>p. let own = filter (\<lambda>v. hp_target_index (av_profile v) = hp_target_index p) vs in
            (hp_target_index p, int (length own), adaptive_valid own)) (hr_profiles g)"

fun increasing :: "int list \<Rightarrow> bool" where
  "increasing (a # b # xs) \<longleftrightarrow> a < b \<and> increasing (b # xs)"
| "increasing _ \<longleftrightarrow> True"

definition sparse_accounting :: "adaptive_stream \<Rightarrow> (int list \<times> int) result" where
  "sparse_accounting s =
     (let indices = map (\<lambda>v. he_dwell_index (av_event v)) (as_retained_visits s);
          missing = gap_samples s in
      if (\<exists>i \<in> set indices. i < 0) \<or> \<not> increasing indices \<or> missing < 0
      then Inl (ValueError ''invalid sparse adaptive stream accounting'')
      else Inr (indices, missing))"

definition make_receipt :: "stream_config \<Rightarrow> adaptive_stream \<Rightarrow> hop_status \<Rightarrow> adaptive_receipt result" where
  "make_receipt c s st =
     (let attested = as_events s \<noteq> []; denominator = denominator_of s st;
          valid = adaptive_valid (as_retained_visits s);
          invalid = sum_list (map (clipped_invalid st) (as_events s));
          unclassified = denominator - valid - invalid;
          duty = (if denominator \<noteq> 0 then valid * 1000000 div denominator else 0) in
      bindE (checks
        [(unclassified < 0 \<or> (hs_state st = COMPLETED \<and> unclassified \<noteq> 0 \<and> \<not> sc_allow_counter_gaps c),
          hc ''adaptive spans do not partition terminal capture'')]) (\<lambda>_.
      bindE (if sc_allow_counter_gaps c then bindE (sparse_accounting s) (\<lambda>x. Inr (Some x)) else Inr None)
        (\<lambda>sparse. Inr
        \<lparr>at_status = st, at_stream_generation = as_generation s, at_visits = as_retained_visits s,
         at_events = as_events s, at_choices = as_choices s,
         at_target_coverage = target_coverage (sc_geometry c) (as_retained_visits s),
         at_valid = valid, at_transition_invalid = invalid, at_unclassified = unclassified,
         at_unreceived_tail =
           (if attested then max 0 (hs_final_counter st -
              (if as_previous s \<noteq> None then hs_last_block_end_counter st else hs_first_counter st)) else 0),
         at_duty_denominator = denominator, at_valid_duty_ppm = duty,
         at_duty_target_met = (duty \<ge> sc_minimum_valid_duty_ppm c),
         at_source_span_attested = attested, at_sparse = sparse\<rparr>)))"

definition finish_stream ::
    "stream_config \<Rightarrow> adaptive_stream \<Rightarrow> hop_status \<Rightarrow>
     (adaptive_stream, adaptive_receipt \<times> (adaptive_visit \<times> iq_column list) list) effect" where
  "finish_stream c s st =
     bindS (s, sc_status_pack c st) (\<lambda>s _.
     bindS (s, checks (finish_inventory_checks c s st)) (\<lambda>s _.
     bindS (if hs_state st = COMPLETED
        then bindS (s, checks (finish_completion_checks c s st)) (\<lambda>s _. close_last_visit c s st)
        else (s, Inr ())) (\<lambda>s _.
     bindS (emit_pending c s) (\<lambda>s out.
     bindS (s, checks [(as_emitted s \<noteq> length (as_visits s),
              hc ''adaptive terminal has undelivered complete visit IQ'')]) (\<lambda>s _.
     bindS (s, make_receipt c s st) (\<lambda>s receipt.
       (s\<lparr>as_receipt := Some receipt, as_segments := []\<rparr>, Inr (receipt, out))))))))"

definition stream_finish ::
    "stream_config \<Rightarrow> adaptive_stream \<Rightarrow> hop_status \<Rightarrow>
     (adaptive_stream, adaptive_receipt \<times> (adaptive_visit \<times> iq_column list) list) effect" where
  "stream_finish c s st = bindS (require_open s) (\<lambda>s _. poison (finish_stream c s st))"

end
