(* ===== verification/Adaptive_Stream_Facts.thy ===== *)
theory Adaptive_Stream_Facts
  imports Adaptive_Stream "HOL-Library.Sublist"
begin

text \<open>
  Lemmas about the adaptive stream: what its segments hold when counters may have gaps, the
  invariant of its state, and the effect of each operation on it.
\<close>

section \<open>Segments with gaps\<close>

text \<open>Segments in counter order, each holding the stream's samples at its own counters.\<close>

fun gapped :: "(int \<Rightarrow> 'a) \<Rightarrow> 'a segment list \<Rightarrow> bool" where
  "gapped iq [] \<longleftrightarrow> True"
| "gapped iq ((a, b, xs) # rest) \<longleftrightarrow> a < b \<and> xs = span iq a b \<and>
     (case rest of [] \<Rightarrow> True | (c, _, _) # _ \<Rightarrow> b \<le> c) \<and> gapped iq rest"

definition covered :: "'a segment list \<Rightarrow> int \<Rightarrow> bool" where
  "covered segs x \<longleftrightarrow> (\<exists>(a, b, _) \<in> set segs. a \<le> x \<and> x < b)"

lemma gapped_above: "gapped iq ((a, b, xs) # rest) \<Longrightarrow> covered rest x \<Longrightarrow> b \<le> x"
proof (induction rest arbitrary: a b xs)
  case (Cons s rest)
  obtain c d ys where s: "s = (c, d, ys)" by (cases s)
  have g: "gapped iq ((c, d, ys) # rest)" and bc: "b \<le> c" "c < d" using Cons.prems(1) by (auto simp: s)
  consider "c \<le> x" | "covered rest x" using Cons.prems(2) by (auto simp: covered_def s)
  then show ?case using Cons.IH [OF g] bc by cases auto
qed (simp add: covered_def)

lemma gapped_append:
  "gapped iq segs \<Longrightarrow> (segs \<noteq> [] \<Longrightarrow> fst (snd (last segs)) \<le> a) \<Longrightarrow> a < b \<Longrightarrow>
     gapped iq (segs @ [(a, b, span iq a b)])"
proof (induction segs)
  case (Cons s segs)
  then show ?case by (cases s; cases segs) (auto split: prod.splits)
qed simp

lemma gapped_trim: "gapped iq segs \<Longrightarrow> gapped iq (trim_segments r segs)"
proof (induction r segs rule: trim_segments.induct)
  case (2 r a b xs rest)
  then show ?case by (simp add: drop_span)
qed simp

lemma filter_upto: "filter (\<lambda>x. a \<le> x \<and> x < b) [s..t - 1] = [max s a..min t b - (1 :: int)]"
  by (rule sorted_distinct_set_unique) (auto simp: sorted_wrt_filter)

lemma filter_ordered_parts:
  assumes "sorted xs" and "distinct xs" and "\<And>x y. P x \<Longrightarrow> Q y \<Longrightarrow> x < (y :: int)"
  shows "filter P xs @ filter Q xs = filter (\<lambda>x. P x \<or> Q x) xs"
proof (rule sorted_distinct_set_unique)
  show "sorted (filter P xs @ filter Q xs)"
    using assms by (auto simp: sorted_append sorted_wrt_filter intro: less_imp_le)
  show "distinct (filter P xs @ filter Q xs)" using assms(2,3) by force
qed (use assms in \<open>auto simp: sorted_wrt_filter\<close>)

lemma piece_filter:
  assumes "a < b" and "s < t"
  shows "piece_of s t (a, b, span iq a b) = map iq (filter (\<lambda>x. a \<le> x \<and> x < b) [s..t - 1])"
proof (cases "b > s \<and> a < t")
  case True
  then have "slice (nat (max s a - a)) (nat (min t b - a)) (span iq a b) = span iq (max s a) (min t b)"
    using assms by (subst slice_span) auto
  then show ?thesis using True by (simp add: piece_of_def filter_upto span_def)
qed (use assms in \<open>auto simp: piece_of_def filter_upto\<close>)

lemma gapped_pieces:
  "gapped iq segs \<Longrightarrow> s < t \<Longrightarrow>
     concat (map (piece_of s t) segs) = map iq (filter (covered segs) [s..t - 1])"
proof (induction segs)
  case (Cons seg segs)
  obtain a b xs where seg: "seg = (a, b, xs)" by (cases seg)
  have ab: "a < b" "xs = span iq a b" "gapped iq segs" using Cons.prems(1) by (simp_all add: seg)
  have "filter (\<lambda>x. a \<le> x \<and> x < b) [s..t - 1] @ filter (covered segs) [s..t - 1]
      = filter (\<lambda>x. (a \<le> x \<and> x < b) \<or> covered segs x) [s..t - 1]"
    using gapped_above [OF Cons.prems(1) [unfolded seg]] by (intro filter_ordered_parts) force+
  also have "\<dots> = filter (covered (seg # segs)) [s..t - 1]"
    by (rule filter_cong) (auto simp: covered_def seg)
  finally show ?case using Cons.IH [OF ab(3) Cons.prems(2)] ab Cons.prems(2)
    by (simp add: seg piece_filter flip: map_append)
qed (simp add: covered_def)

text \<open>Pieces of the full length are the full span.\<close>

lemma gapped_complete:
  assumes "gapped iq segs" and "s < t" and "int (length (concat (map (piece_of s t) segs))) = t - s"
  shows "concat (map (piece_of s t) segs) = span iq s t"
proof -
  have "length (filter (covered segs) [s..t - 1]) = length [s..t - 1]"
    using assms gapped_pieces [OF assms(1,2)] by simp
  then have "filter (covered segs) [s..t - 1] = [s..t - 1]"
    by (metis filter_id_conv length_filter_less less_irrefl)
  then show ?thesis using gapped_pieces [OF assms(1,2)] by (simp add: span_def)
qed

section \<open>Emitting visits\<close>

text \<open>What emitting leaves alone.\<close>

definition same_history :: "adaptive_stream \<Rightarrow> adaptive_stream \<Rightarrow> bool" where
  "same_history s t \<longleftrightarrow> as_events t = as_events s \<and> as_choices t = as_choices s \<and> as_visits t = as_visits s
     \<and> as_gaps t = as_gaps s \<and> as_previous t = as_previous s
     \<and> as_first_block_counter t = as_first_block_counter s \<and> as_generation t = as_generation s
     \<and> as_failed t = as_failed s \<and> as_receipt t = as_receipt s"

lemma same_history_trans: "same_history s t \<Longrightarrow> same_history t u \<Longrightarrow> same_history s u"
  by (simp add: same_history_def)

definition visits_exact :: "(int \<Rightarrow> iq_column) \<Rightarrow> (adaptive_visit \<times> iq_column list) list \<Rightarrow> bool" where
  "visits_exact iq out \<longleftrightarrow> (\<forall>(v, xs) \<in> set out. xs = span iq (av_valid_start v) (av_valid_end v))"

definition last_end :: "adaptive_stream \<Rightarrow> int option" where
  "last_end s = (if as_segments s = [] then None else Some (fst (snd (last (as_segments s)))))"

lemma last_end_update [simp]:
  "last_end (s\<lparr>as_retained_visits := x\<rparr>) = last_end s" "last_end (s\<lparr>as_emitted := n\<rparr>) = last_end s"
  by (simp_all add: last_end_def)

lemma stream_trim_fields [simp]:
  "as_emitted (stream_trim r s) = as_emitted s" "as_retained_visits (stream_trim r s) = as_retained_visits s"
  "as_segments (stream_trim r s) = trim_segments r (as_segments s)"
  "same_history (stream_trim r s) t = same_history s t" "same_history t (stream_trim r s) = same_history t s"
  by (simp_all add: stream_trim_def same_history_def)

lemma same_history_update [simp]:
  "same_history (s\<lparr>as_retained_visits := x\<rparr>) t = same_history s t"
  "same_history (s\<lparr>as_emitted := n\<rparr>) t = same_history s t"
  by (simp_all add: same_history_def)

lemma last_end_trim:
  "last_end (stream_trim r s) = None \<or> last_end (stream_trim r s) = last_end s"
  using trim_last [of r "as_segments s"] by (auto simp: last_end_def stream_trim_def)

lemma emit_ready_facts:
  assumes "emit_ready c vs s = (s1, Inr out)" and "gapped iq (as_segments s)"
    and "\<forall>v \<in> set vs. av_valid_start v < av_valid_end v"
  shows "gapped iq (as_segments s1) \<and> same_history s s1 \<and> (last_end s1 = None \<or> last_end s1 = last_end s)
    \<and> visits_exact iq out \<and> as_retained_visits s1 = as_retained_visits s @ map fst out
    \<and> (\<exists>k \<le> length vs. as_emitted s1 = as_emitted s + k \<and> subseq (map fst out) (take k vs)
         \<and> (\<not> sc_allow_counter_gaps c \<longrightarrow> map fst out = take k vs))"
  using assms
proof (induction c vs s arbitrary: out rule: emit_ready.induct)
  case (1 c s)
  then show ?case by (simp add: same_history_def visits_exact_def)
next
  case (2 c v vs s)
  let ?samples = "visit_pieces s v"
  have ne: "av_valid_start v < av_valid_end v" and rest: "\<forall>v \<in> set vs. av_valid_start v < av_valid_end v"
    using "2.prems"(3) by simp_all
  show ?case
  proof (cases "reaches s (av_valid_end v)")
    case False
    then show ?thesis using "2.prems" by (auto simp: same_history_def visits_exact_def intro: exI [of _ 0])
  next
    case R: True
    show ?thesis
    proof (cases "int (length ?samples) = av_valid_sample_count v")
      case True
      let ?s = "stream_trim (av_valid_end v)
        (s\<lparr>as_retained_visits := as_retained_visits s @ [v], as_emitted := Suc (as_emitted s)\<rparr>)"
      obtain out2 where E: "emit_ready c vs ?s = (s1, Inr out2)" and out: "out = (v, ?samples) # out2"
        using "2.prems"(1) R True by (auto simp: Let_def bindS_Inr)
      have g: "gapped iq (as_segments ?s)"
        using "2.prems"(2) by (simp add: stream_trim_def gapped_trim)
      have "?samples = span iq (av_valid_start v) (av_valid_end v)"
        using gapped_complete [OF "2.prems"(2) ne] True
        by (simp add: visit_pieces_def av_valid_sample_count_def)
      moreover note IH = "2.IH"(2) [OF _ refl _ E g rest]
      obtain k where "k \<le> length vs" "as_emitted s1 = as_emitted ?s + k" "subseq (map fst out2) (take k vs)"
        "\<not> sc_allow_counter_gaps c \<longrightarrow> map fst out2 = take k vs" using IH R True by auto
      ultimately show ?thesis using IH R True last_end_trim [of "av_valid_end v"
          "s\<lparr>as_retained_visits := as_retained_visits s @ [v], as_emitted := Suc (as_emitted s)\<rparr>"]
        by (auto simp: out visits_exact_def intro!: exI [of _ "Suc k"])
    next
      case False
      let ?s = "stream_trim (av_valid_end v) (s\<lparr>as_emitted := Suc (as_emitted s)\<rparr>)"
      have allow: "sc_allow_counter_gaps c" "intersects_gap s v" and E: "emit_ready c vs ?s = (s1, Inr out)"
        using "2.prems"(1) R False by (auto simp: Let_def split: if_splits)
      have g: "gapped iq (as_segments ?s)"
        using "2.prems"(2) by (simp add: stream_trim_def gapped_trim)
      note IH = "2.IH"(1) [OF _ refl _ _ E g rest]
      obtain k where "k \<le> length vs" "as_emitted s1 = as_emitted ?s + k" "subseq (map fst out) (take k vs)"
        using IH R False allow by auto
      then show ?thesis using IH R False allow last_end_trim [of "av_valid_end v" "s\<lparr>as_emitted := Suc (as_emitted s)\<rparr>"]
        by (auto intro!: exI [of _ "Suc k"])
    qed
  qed
qed

section \<open>The invariant of events, decisions and visits\<close>

definition visit_matches :: "stream_config \<Rightarrow> hop_event \<Rightarrow> adaptive_choice \<Rightarrow> adaptive_visit \<Rightarrow> bool" where
  "visit_matches c e choice v \<longleftrightarrow> av_event v = e \<and> av_choice v = choice
     \<and> request_profile (sc_geometry c) (he_to_profile_index e) = Inr (av_profile v)
     \<and> av_valid_end v = he_invalid_end_counter_exclusive e + hr_dwell_samples (sc_geometry c)"

text \<open>A decision names no source visit, or one that ended before the decision was taken.\<close>

definition causal :: "stream_config \<Rightarrow> hop_event list \<Rightarrow> nat \<Rightarrow> adaptive_choice \<Rightarrow> bool" where
  "causal c es i choice \<longleftrightarrow> ac_basis_visit choice = NO_VISIT \<or>
     (0 \<le> ac_basis_visit choice \<and> ac_basis_visit choice < int i \<and>
      he_invalid_end_counter_exclusive (es ! nat (ac_basis_visit choice)) + hr_dwell_samples (sc_geometry c)
        \<le> ac_decision_counter choice)"

definition chained :: "stream_config \<Rightarrow> hop_event list \<Rightarrow> adaptive_choice list \<Rightarrow> bool" where
  "chained c es cs \<longleftrightarrow> length cs = length es \<and>
     (\<forall>i < length es. he_event_sequence (es ! i) = int i \<and> he_dwell_index (es ! i) = int i
        \<and> he_invalid_start_counter (es ! i) < he_invalid_end_counter_exclusive (es ! i)
        \<and> causal c es i (cs ! i)) \<and>
     (\<forall>i. Suc i < length es \<longrightarrow>
        he_invalid_start_counter (es ! Suc i) = he_invalid_end_counter_exclusive (es ! i) + hr_dwell_samples (sc_geometry c)
        \<and> he_invalid_start_counter (es ! Suc i) \<le> ac_decision_counter (cs ! Suc i))"

definition visits_match :: "stream_config \<Rightarrow> adaptive_stream \<Rightarrow> bool" where
  "visits_match c s \<longleftrightarrow>
     (length (as_visits s) = length (as_events s) \<or> Suc (length (as_visits s)) = length (as_events s)) \<and>
     (\<forall>i < length (as_visits s). visit_matches c (as_events s ! i) (as_choices s ! i) (as_visits s ! i))"

definition starts_received :: "adaptive_stream \<Rightarrow> bool" where
  "starts_received s \<longleftrightarrow> (as_events s \<noteq> [] \<longrightarrow>
     (\<exists>first. as_first_block_counter s = Some first \<and> first \<le> he_invalid_start_counter (hd (as_events s))))"

definition history_inv :: "stream_config \<Rightarrow> adaptive_stream \<Rightarrow> bool" where
  "history_inv c s \<longleftrightarrow> chained c (as_events s) (as_choices s) \<and> visits_match c s \<and> starts_received s"

lemma close_visit_Inr:
  "close_visit c s e choice stop = (s1, Inr u) \<longleftrightarrow>
     stop = he_invalid_end_counter_exclusive e + hr_dwell_samples (sc_geometry c) \<and>
     (\<exists>v. visit_matches c e choice v \<and> s1 = s\<lparr>as_visits := as_visits s @ [v]\<rparr>)"
proof (cases "request_profile (sc_geometry c) (he_to_profile_index e)")
  case (Inr p)
  have "visit_matches c e choice v \<longleftrightarrow> v = \<lparr>av_event = e, av_choice = choice, av_profile = p,
      av_valid_end = he_invalid_end_counter_exclusive e + hr_dwell_samples (sc_geometry c)\<rparr>" for v
    by (cases v) (auto simp: visit_matches_def Inr)
  then show ?thesis by (auto simp: close_visit_def Inr)
qed (auto simp: close_visit_def visit_matches_def)

text \<open>Appending one matching event to a chain.\<close>

lemma chained_append:
  assumes "chained c es cs" and "he_event_sequence e = int (length es)" and "he_dwell_index e = int (length es)"
    and "he_invalid_start_counter e < he_invalid_end_counter_exclusive e"
    and "causal c es (length es) choice"
    and "es \<noteq> [] \<Longrightarrow> he_invalid_start_counter e
       = he_invalid_end_counter_exclusive (last es) + hr_dwell_samples (sc_geometry c)
       \<and> he_invalid_start_counter e \<le> ac_decision_counter choice"
  shows "chained c (es @ [e]) (cs @ [choice])"
proof -
  have len: "length cs = length es" using assms(1) by (simp add: chained_def)
  have causal: "causal c (es @ [e]) i x = causal c es i x" if "i \<le> length es" for i x
    using that by (auto simp: causal_def nth_append)
  have step: "he_invalid_start_counter ((es @ [e]) ! Suc i)
        = he_invalid_end_counter_exclusive ((es @ [e]) ! i) + hr_dwell_samples (sc_geometry c)
      \<and> he_invalid_start_counter ((es @ [e]) ! Suc i) \<le> ac_decision_counter ((cs @ [choice]) ! Suc i)"
    if "Suc i < length (es @ [e])" for i
  proof (cases "Suc i < length es")
    case True
    then have "he_invalid_start_counter (es ! Suc i) = he_invalid_end_counter_exclusive (es ! i) + hr_dwell_samples (sc_geometry c)
        \<and> he_invalid_start_counter (es ! Suc i) \<le> ac_decision_counter (cs ! Suc i)"
      using assms(1) unfolding chained_def by blast
    then show ?thesis using True len by (simp add: nth_append)
  next
    case False
    then have i: "Suc i = length es" using that by simp
    then have "es \<noteq> []" by auto
    moreover have "i = length es - 1" using i by simp
    ultimately show ?thesis using assms(6) len i by (simp add: nth_append last_conv_nth)
  qed
  have "he_event_sequence ((es @ [e]) ! i) = int i \<and> he_dwell_index ((es @ [e]) ! i) = int i
      \<and> he_invalid_start_counter ((es @ [e]) ! i) < he_invalid_end_counter_exclusive ((es @ [e]) ! i)
      \<and> causal c (es @ [e]) i ((cs @ [choice]) ! i)" if "i < length (es @ [e])" for i
  proof -
    have "i < length es \<or> i = length es" using that by auto
    then show ?thesis using assms(1-5) len causal [of i]
      by (elim disjE) (simp_all add: chained_def nth_append)
  qed
  moreover have "length (cs @ [choice]) = length (es @ [e])" using len by simp
  ultimately show ?thesis using step unfolding chained_def by blast
qed

lemma adaptive_event_facts:
  assumes "accept_adaptive_event c s (e, choice) = (s1, Inr u)"
  shows "\<exists>vs. s1 = s\<lparr>as_visits := as_visits s @ vs, as_events := as_events s @ [e],
      as_choices := as_choices s @ [choice]\<rparr>
    \<and> (as_events s = [] \<or> length (as_visits s) = length (as_events s) \<longrightarrow> vs = [])
    \<and> (as_events s \<noteq> [] \<and> length (as_visits s) \<noteq> length (as_events s) \<longrightarrow>
      (\<exists>v. vs = [v] \<and> visit_matches c (last (as_events s)) (last (as_choices s)) v))"
    and "\<not> chain_invalid c s e" and "causal c (as_events s) (length (as_events s)) choice"
    and "as_events s \<noteq> [] \<Longrightarrow> \<not> crosses_blocks_badly c s e choice"
    and "as_events s = [] \<Longrightarrow> \<exists>first. as_first_block_counter s = Some first \<and> first \<le> he_invalid_start_counter e"
proof -
  from assms have g: "\<not> chain_invalid c s e"
      "as_events s \<noteq> [] \<Longrightarrow> \<not> crosses_blocks_badly c s e choice"
      "as_events s = [] \<Longrightarrow> \<exists>first. as_first_block_counter s = Some first \<and> first \<le> he_invalid_start_counter e"
    by (auto simp: accept_adaptive_event_def bindS_Inr split: option.splits)
  have b: "causal c (as_events s) (length (as_events s)) choice"
    using assms
    by (auto simp: accept_adaptive_event_def bindS_Inr bindE_Inr_iff causal_def basis_event_def split: if_splits)
  show "\<not> chain_invalid c s e" "causal c (as_events s) (length (as_events s)) choice"
    "as_events s \<noteq> [] \<Longrightarrow> \<not> crosses_blocks_badly c s e choice"
    "as_events s = [] \<Longrightarrow> \<exists>first. as_first_block_counter s = Some first \<and> first \<le> he_invalid_start_counter e"
    using g b by blast+
  show "\<exists>vs. s1 = s\<lparr>as_visits := as_visits s @ vs, as_events := as_events s @ [e],
      as_choices := as_choices s @ [choice]\<rparr>
    \<and> (as_events s = [] \<or> length (as_visits s) = length (as_events s) \<longrightarrow> vs = [])
    \<and> (as_events s \<noteq> [] \<and> length (as_visits s) \<noteq> length (as_events s) \<longrightarrow>
      (\<exists>v. vs = [v] \<and> visit_matches c (last (as_events s)) (last (as_choices s)) v))"
  proof (cases "as_events s = [] \<or> length (as_visits s) = length (as_events s)")
    case True
    then have "s1 = s\<lparr>as_visits := as_visits s @ [], as_events := as_events s @ [e], as_choices := as_choices s @ [choice]\<rparr>"
      using assms by (auto simp: accept_adaptive_event_def bindS_Inr split: if_splits)
    then show ?thesis using True by blast
  next
    case False
    then obtain v where "visit_matches c (last (as_events s)) (last (as_choices s)) v"
        and "s1 = s\<lparr>as_visits := as_visits s @ [v], as_events := as_events s @ [e], as_choices := as_choices s @ [choice]\<rparr>"
      using assms by (auto simp: accept_adaptive_event_def bindS_Inr close_visit_Inr)
    then show ?thesis using False by blast
  qed
qed

lemma accept_event_history:
  assumes "accept_adaptive_event c s (e, choice) = (s1, Inr u)" and "history_inv c s"
    and "he_invalid_start_counter e < he_invalid_end_counter_exclusive e"
  shows "history_inv c s1"
proof -
  note F = adaptive_event_facts [OF assms(1)]
  obtain vs where
    s1: "s1 = s\<lparr>as_visits := as_visits s @ vs, as_events := as_events s @ [e], as_choices := as_choices s @ [choice]\<rparr>"
    and V: "as_events s = [] \<or> length (as_visits s) = length (as_events s) \<longrightarrow> vs = []"
      "as_events s \<noteq> [] \<and> length (as_visits s) \<noteq> length (as_events s) \<longrightarrow>
        (\<exists>v. vs = [v] \<and> visit_matches c (last (as_events s)) (last (as_choices s)) v)"
    using F(1) by blast
  note G = F(2-)
  have ch: "chained c (as_events s) (as_choices s)" and vm: "visits_match c s" and st: "starts_received s"
    using assms(2) by (simp_all add: history_inv_def)
  have len: "length (as_choices s) = length (as_events s)" using ch by (simp add: chained_def)
  have "chained c (as_events s @ [e]) (as_choices s @ [choice])"
  proof (rule chained_append [OF ch _ _ assms(3) G(2)])
    show "he_event_sequence e = int (length (as_events s))" "he_dwell_index e = int (length (as_events s))"
      using G(1) by (simp_all add: chain_invalid_def Let_def)
    show "he_invalid_start_counter e
         = he_invalid_end_counter_exclusive (last (as_events s)) + hr_dwell_samples (sc_geometry c)
         \<and> he_invalid_start_counter e \<le> ac_decision_counter choice" if "as_events s \<noteq> []"
      using G(3) [OF that] by (simp add: crosses_blocks_badly_def Let_def)
  qed
  moreover have "visits_match c s1"
  proof (cases "as_events s = [] \<or> length (as_visits s) = length (as_events s)")
    case True
    then have "length (as_visits s) = length (as_events s)" using vm by (auto simp: visits_match_def)
    then show ?thesis using vm V(1) len by (simp add: s1 visits_match_def nth_append)
  next
    case False
    then obtain v where v: "vs = [v]" "visit_matches c (last (as_events s)) (last (as_choices s)) v" using V(2) by blast
    have n: "Suc (length (as_visits s)) = length (as_events s)" using vm False by (simp add: visits_match_def)
    have cs: "as_choices s \<noteq> []" using False len by auto
    have "last (as_events s) = as_events s ! length (as_visits s)"
      "last (as_choices s) = as_choices s ! length (as_visits s)"
      using False cs len n by (metis diff_Suc_1 last_conv_nth)+
    moreover have "i < length (as_visits s) \<or> i = length (as_visits s)" if "i < length (as_events s)" for i
      using that n by linarith
    ultimately show ?thesis using vm v n len
      by (auto simp: s1 visits_match_def nth_append)
  qed
  moreover have "starts_received s1" using st G(4) by (cases "as_events s") (auto simp: starts_received_def s1)
  ultimately show ?thesis by (simp add: history_inv_def s1)
qed

section \<open>Feeding blocks\<close>

text \<open>Accepting events and closing visits only extend the history.\<close>

definition extends :: "adaptive_stream \<Rightarrow> adaptive_stream \<Rightarrow> bool" where
  "extends s t \<longleftrightarrow> as_segments t = as_segments s \<and> as_retained_visits t = as_retained_visits s
     \<and> as_gaps t = as_gaps s \<and> as_emitted t = as_emitted s \<and> as_previous t = as_previous s
     \<and> as_first_block_counter t = as_first_block_counter s \<and> as_generation t = as_generation s
     \<and> as_failed t = as_failed s \<and> as_receipt t = as_receipt s
     \<and> (\<exists>vs. as_visits t = as_visits s @ vs)"

lemma extends_refl: "extends s s"
  by (simp add: extends_def)

lemma extends_trans: "extends s t \<Longrightarrow> extends t u \<Longrightarrow> extends s u"
  by (auto simp: extends_def)

lemma accept_event_extends: "accept_adaptive_event c s ec = (s1, Inr u) \<Longrightarrow> extends s s1"
  using adaptive_event_facts(1) [of c s "fst ec" "snd ec"] by (auto simp: extends_def)

lemma close_visit_history:
  assumes "history_inv c s" and "as_events s \<noteq> []" and "length (as_visits s) \<noteq> length (as_events s)"
    and "visit_matches c (last (as_events s)) (last (as_choices s)) v"
  shows "history_inv c (s\<lparr>as_visits := as_visits s @ [v]\<rparr>)"
    and "length (as_visits s @ [v]) = length (as_events s)"
proof -
  have vm: "visits_match c s" and len: "length (as_choices s) = length (as_events s)"
    using assms(1) by (simp_all add: history_inv_def chained_def)
  have n: "Suc (length (as_visits s)) = length (as_events s)" using vm assms(3) by (simp add: visits_match_def)
  then show "length (as_visits s @ [v]) = length (as_events s)" by simp
  have cs: "as_choices s \<noteq> []" using assms(2) len by auto
  have l: "last (as_events s) = as_events s ! length (as_visits s)"
    "last (as_choices s) = as_choices s ! length (as_visits s)"
    using assms(2) cs len n by (metis diff_Suc_1 last_conv_nth)+
  have "visit_matches c (as_events s ! i) (as_choices s ! i) ((as_visits s @ [v]) ! i)" if "i < length (as_events s)" for i
  proof (cases "i < length (as_visits s)")
    case True
    then show ?thesis using vm by (simp add: visits_match_def nth_append)
  next
    case False
    then have "i = length (as_visits s)" using that n by simp
    then show ?thesis using assms(4) l by simp
  qed
  then show "history_inv c (s\<lparr>as_visits := as_visits s @ [v]\<rparr>)"
    using assms(1) n by (simp add: history_inv_def starts_received_def visits_match_def)
qed

lemma close_current_visit_facts:
  assumes "close_current_visit c s = (s1, Inr u)" and "history_inv c s"
  shows "history_inv c s1 \<and> extends s s1"
proof (cases "as_events s = [] \<or> length (as_visits s) = length (as_events s)")
  case True
  then show ?thesis using assms by (auto simp: close_current_visit_def extends_refl)
next
  case False
  let ?stop = "he_invalid_end_counter_exclusive (last (as_events s)) + hr_dwell_samples (sc_geometry c)"
  have m: "length (as_visits s) = length (as_events s) - 1"
    using assms(2) False by (auto simp: history_inv_def visits_match_def)
  have D: "close_current_visit c s = (if reaches s ?stop
      then close_visit c s (last (as_events s)) (last (as_choices s)) ?stop else (s, Inr ()))"
    using False m by (simp add: close_current_visit_def Let_def)
  show ?thesis
  proof (cases "reaches s ?stop")
    case True
    then have "close_visit c s (last (as_events s)) (last (as_choices s)) ?stop = (s1, Inr u)"
      using assms(1) unfolding D by simp
    then obtain v where "visit_matches c (last (as_events s)) (last (as_choices s)) v"
        and "s1 = s\<lparr>as_visits := as_visits s @ [v]\<rparr>" unfolding close_visit_Inr by blast
    then show ?thesis using close_visit_history [OF assms(2)] False by (simp add: extends_def)
  qed (use assms in \<open>simp add: D extends_refl\<close>)
qed

text \<open>The invariant of a stream that has not failed, for a device sample stream \<open>iq\<close>.\<close>

definition stream_ok :: "stream_config \<Rightarrow> (int \<Rightarrow> iq_column) \<Rightarrow> adaptive_stream \<Rightarrow> bool" where
  "stream_ok c iq s \<longleftrightarrow> history_inv c s \<and> gapped iq (as_segments s)
     \<and> (\<forall>b. last_end s = Some b \<longrightarrow> (\<exists>p. as_previous s = Some p \<and> ev_block_end_counter_exclusive p = b))
     \<and> as_emitted s \<le> length (as_visits s)
     \<and> subseq (as_retained_visits s) (take (as_emitted s) (as_visits s))
     \<and> (\<not> sc_allow_counter_gaps c \<longrightarrow> as_retained_visits s = take (as_emitted s) (as_visits s))"

definition carries :: "stream_config \<Rightarrow> (int \<Rightarrow> iq_column) \<Rightarrow> wire_block \<Rightarrow> bool" where
  "carries c iq w \<longleftrightarrow> (\<forall>base choices columns.
     sc_decode_evidence c (wb_evidence w) = Inr (base, choices) \<longrightarrow>
     sc_decode_samples c (wb_iq_payload w) = Inr columns \<longrightarrow>
     columns = span iq (ev_block_first_counter base) (ev_block_end_counter_exclusive base))"

lemma visits_nonempty_adaptive:
  assumes "history_inv c s" and "0 < hr_dwell_samples (sc_geometry c)"
  shows "\<forall>v \<in> set (as_visits s). av_valid_start v < av_valid_end v
     \<and> av_valid_sample_count v = hr_dwell_samples (sc_geometry c)"
proof
  fix v assume "v \<in> set (as_visits s)"
  then obtain i where "i < length (as_visits s)" "v = as_visits s ! i" by (auto simp: in_set_conv_nth)
  then have "visit_matches c (as_events s ! i) (as_choices s ! i) v"
    using assms(1) by (simp add: history_inv_def visits_match_def)
  then show "av_valid_start v < av_valid_end v \<and> av_valid_sample_count v = hr_dwell_samples (sc_geometry c)"
    using assms(2) by (auto simp: visit_matches_def av_valid_start_def av_valid_sample_count_def)
qed

lemma stream_ok_extends:
  "stream_ok c iq s \<Longrightarrow> extends s t \<Longrightarrow> history_inv c t \<Longrightarrow> stream_ok c iq t"
  by (auto simp: stream_ok_def extends_def last_end_def)

lemma emit_pending_ok:
  assumes "emit_pending c s = (s1, Inr out)" and "stream_ok c iq s" and "0 < hr_dwell_samples (sc_geometry c)"
  shows "stream_ok c iq s1" and "visits_exact iq out"
    and "as_retained_visits s1 = as_retained_visits s @ map fst out" and "same_history s s1"
proof -
  have h: "history_inv c s" and g: "gapped iq (as_segments s)" and le: "as_emitted s \<le> length (as_visits s)"
    using assms(2) by (simp_all add: stream_ok_def)
  have ne: "\<forall>v \<in> set (drop (as_emitted s) (as_visits s)). av_valid_start v < av_valid_end v"
    using visits_nonempty_adaptive [OF h assms(3)] by (meson in_set_dropD)
  note F = emit_ready_facts [OF assms(1) [unfolded emit_pending_def] g ne]
  show hist: "same_history s s1" and "visits_exact iq out"
    and R: "as_retained_visits s1 = as_retained_visits s @ map fst out" using F by blast+
  obtain k where k: "k \<le> length (drop (as_emitted s) (as_visits s))" "as_emitted s1 = as_emitted s + k"
    "subseq (map fst out) (take k (drop (as_emitted s) (as_visits s)))"
    "\<not> sc_allow_counter_gaps c \<longrightarrow> map fst out = take k (drop (as_emitted s) (as_visits s))"
    using F by blast
  have tk: "take (as_emitted s + k) (as_visits s)
      = take (as_emitted s) (as_visits s) @ take k (drop (as_emitted s) (as_visits s))" by (rule take_add)
  have "subseq (as_retained_visits s @ map fst out) (take (as_emitted s + k) (as_visits s))"
    unfolding tk using assms(2) k(3) by (intro list_emb_append_mono) (auto simp: stream_ok_def)
  moreover have "history_inv c s1"
    using h hist by (simp add: history_inv_def same_history_def visits_match_def starts_received_def)
  ultimately show "stream_ok c iq s1"
    using assms(2) F k le tk R hist
    by (auto simp: stream_ok_def same_history_def)
qed

lemma stream_trim_ok: "stream_ok c iq s \<Longrightarrow> stream_ok c iq (stream_trim r s)"
  using last_end_trim [of r s]
  by (auto simp: stream_ok_def gapped_trim stream_trim_def history_inv_def visits_match_def starts_received_def)

locale evidence_source =
  fixes decode :: "bytes \<Rightarrow> (hop_evidence \<times> adaptive_choice list) result"
  assumes decoded: "decode payload = Inr (base, choices) \<Longrightarrow>
    ev_block_first_counter base < ev_block_end_counter_exclusive base \<and>
    (\<forall>e \<in> set (ev_events base). he_invalid_start_counter e < he_invalid_end_counter_exclusive e)"
begin

lemma feed_block_ok:
  assumes "feed_block c s w = (s1, Inr out)" and "stream_ok c iq s" and "carries c iq w"
    and "sc_decode_evidence c = decode" and "0 < hr_dwell_samples (sc_geometry c)"
  shows "stream_ok c iq s1 \<and> visits_exact iq out \<and> as_retained_visits s1 = as_retained_visits s @ map fst out
    \<and> retained_sample_count s1 \<le> sc_maximum_retained_samples c
    \<and> as_failed s1 = as_failed s \<and> as_receipt s1 = as_receipt s"
proof -
  obtain base choices where D: "decode (wb_evidence w) = Inr (base, choices)"
    using assms(1,4) by (auto simp: feed_block_def bindS_Inr)
  let ?a = "admit_block (note_gap s base) base w"
  obtain s3 columns where order: "checks (block_order_checks c s base) = Inr ()"
    and E: "eachS (accept_adaptive_event c) ?a (zip (ev_events base) choices) = (s3, Inr ())"
    and C: "sc_decode_samples c (wb_iq_payload w) = Inr columns"
    using assms(1,4) D by (auto simp: feed_block_def bindS_Inr)
  let ?d = "s3\<lparr>as_segments := as_segments s3
     @ [(ev_block_first_counter base, ev_block_end_counter_exclusive base, columns)], as_previous := Some base\<rparr>"
  obtain s4 u where K: "(if sc_close_visits_from_geometry c \<and> ev_state base = RUNNING
       then close_current_visit c ?d else (?d, Inr ())) = (s4, Inr u)"
    using assms(1,4) D E C by (auto simp: feed_block_def bindS_Inr Let_def)
  obtain s5 where P: "emit_pending c s4 = (s5, Inr out)" and s1: "s1 = stream_trim (retain_from s5) s5"
    and bound: "retained_sample_count s1 \<le> sc_maximum_retained_samples c"
    using assms(1,4) D E C K by (auto simp: feed_block_def bindS_Inr bindE_Inr_iff Let_def)
  have gap_fields: "as_events (note_gap s base) = as_events s \<and> as_visits (note_gap s base) = as_visits s
     \<and> as_choices (note_gap s base) = as_choices s \<and> as_segments (note_gap s base) = as_segments s
     \<and> as_emitted (note_gap s base) = as_emitted s \<and> as_retained_visits (note_gap s base) = as_retained_visits s
     \<and> as_previous (note_gap s base) = as_previous s \<and> as_failed (note_gap s base) = as_failed s
     \<and> as_receipt (note_gap s base) = as_receipt s
     \<and> as_first_block_counter (note_gap s base) = as_first_block_counter s"
    by (simp add: note_gap_def split: option.splits)
  have "starts_received ?a"
    using assms(2) gap_fields by (auto simp: stream_ok_def history_inv_def starts_received_def admit_block_def split: option.splits)
  then have a_ok: "stream_ok c iq ?a"
    using assms(2) gap_fields
    by (simp add: stream_ok_def history_inv_def visits_match_def admit_block_def last_end_def)
  define I where "I t \<longleftrightarrow> history_inv c t \<and> extends ?a t" for t
  have "I ?a" using a_ok by (simp add: I_def stream_ok_def extends_refl)
  moreover have "I t1" if "I t" "ec \<in> set (zip (ev_events base) choices)" "accept_adaptive_event c t ec = (t1, Inr ())" for t ec t1
  proof -
    obtain e ch where ec: "ec = (e, ch)" by (cases ec)
    then have "e \<in> set (ev_events base)" using that(2) by (auto dest: set_zip_leftD)
    then show ?thesis using that(1) accept_event_history [of c t e ch t1] accept_event_extends [OF that(3)]
        that(3) decoded [OF D] extends_trans unfolding I_def ec by blast
  qed
  ultimately have "I s3" using eachS_inv [of I _ "accept_adaptive_event c"] E by blast
  then have s3_ok: "stream_ok c iq s3" and ext: "extends ?a s3" using stream_ok_extends a_ok by (auto simp: I_def)
  have cols: "columns = span iq (ev_block_first_counter base) (ev_block_end_counter_exclusive base)"
    using assms(3,4) D C by (simp add: carries_def)
  have "gapped iq (as_segments ?d)"
  proof -
    have "fst (snd (last (as_segments s3))) \<le> ev_block_first_counter base" if ne: "as_segments s3 \<noteq> []"
    proof -
      obtain p where "as_previous s3 = Some p" "ev_block_end_counter_exclusive p = fst (snd (last (as_segments s3)))"
        using s3_ok ne by (auto simp: stream_ok_def last_end_def)
      moreover have "as_previous s3 = as_previous s" using ext gap_fields by (simp add: extends_def admit_block_def)
      ultimately show ?thesis using order by (auto simp: block_order_checks_def not_less)
    qed
    then show ?thesis using s3_ok decoded [OF D] cols by (simp add: stream_ok_def gapped_append)
  qed
  then have d_ok: "stream_ok c iq ?d"
    using s3_ok by (simp add: stream_ok_def history_inv_def visits_match_def starts_received_def last_end_def)
  have K4: "history_inv c s4 \<and> extends ?d s4"
    using K close_current_visit_facts [of c ?d s4 u] d_ok
    by (auto simp: stream_ok_def extends_refl split: if_splits)
  then have s4_ok: "stream_ok c iq s4" using stream_ok_extends [OF d_ok] by blast
  note M = emit_pending_ok [OF P s4_ok assms(5)]
  have keep: "as_retained_visits s4 = as_retained_visits s" "as_failed s4 = as_failed s" "as_receipt s4 = as_receipt s"
    using K4 ext gap_fields by (simp_all add: extends_def admit_block_def)
  show ?thesis
    using M stream_trim_ok [OF M(1)] bound keep by (simp add: s1 same_history_def stream_trim_def)
qed

end

section \<open>Finishing\<close>

lemma close_last_visit_facts:
  assumes "close_last_visit c s st = (s1, Inr u)" and "history_inv c s" and "as_events s \<noteq> []"
  shows "history_inv c s1 \<and> extends s s1 \<and> as_events s1 = as_events s \<and> as_choices s1 = as_choices s
    \<and> length (as_visits s1) = length (as_events s1) \<and> av_valid_end (last (as_visits s1)) = hs_final_counter st"
proof (cases "length (as_visits s) = length (as_events s)")
  case True
  then show ?thesis using assms by (auto simp: close_last_visit_def extends_refl)
next
  case False
  then have "close_visit c s (last (as_events s)) (last (as_choices s)) (hs_final_counter st) = (s1, Inr u)"
    using assms(1) by (simp add: close_last_visit_def)
  then obtain v where v: "visit_matches c (last (as_events s)) (last (as_choices s)) v"
    and s1: "s1 = s\<lparr>as_visits := as_visits s @ [v]\<rparr>"
    and stop: "hs_final_counter st = he_invalid_end_counter_exclusive (last (as_events s)) + hr_dwell_samples (sc_geometry c)"
    unfolding close_visit_Inr by blast
  have "av_valid_end v = hs_final_counter st" using v stop by (simp add: visit_matches_def)
  then show ?thesis using close_visit_history [OF assms(2,3) False v] by (simp add: s1 extends_def)
qed

text \<open>The state a successful finish is computed from: everything emitted, nothing changed but the visits.\<close>

lemma finish_stream_facts:
  assumes "finish_stream c s st = (s1, Inr (rc, out))" and "stream_ok c iq s"
    and "0 < hr_dwell_samples (sc_geometry c)"
  obtains t where "stream_ok c iq t" and "as_events t = as_events s" and "as_choices t = as_choices s"
    and "as_gaps t = as_gaps s" and "as_emitted t = length (as_visits t)"
    and "as_retained_visits t = as_retained_visits s @ map fst out" and "visits_exact iq out"
    and "make_receipt c t st = Inr rc"
    and "checks (finish_inventory_checks c s st) = Inr ()"
    and "hs_state st = COMPLETED \<Longrightarrow> checks (finish_completion_checks c s st) = Inr ()
      \<and> length (as_visits t) = length (as_events t) \<and> av_valid_end (last (as_visits t)) = hs_final_counter st"
    and "s1 = t\<lparr>as_receipt := Some rc, as_segments := []\<rparr>"
proof -
  have inv: "checks (finish_inventory_checks c s st) = Inr ()"
    using assms(1) by (auto simp: finish_stream_def bindS_Inr)
  obtain s2 u where C: "(if hs_state st = COMPLETED
        then bindS (s, checks (finish_completion_checks c s st)) (\<lambda>s _. close_last_visit c s st)
        else (s, Inr ())) = (s2, Inr u)"
    using assms(1) by (auto simp: finish_stream_def bindS_Inr)
  then obtain t where E: "emit_pending c s2 = (t, Inr out)" and full: "as_emitted t = length (as_visits t)"
    and R: "make_receipt c t st = Inr rc" and s1: "s1 = t\<lparr>as_receipt := Some rc, as_segments := []\<rparr>"
    using assms(1) by (auto simp: finish_stream_def bindS_Inr)
  have hist: "history_inv c s" using assms(2) by (simp add: stream_ok_def)
  have S2: "history_inv c s2 \<and> extends s s2 \<and> as_events s2 = as_events s \<and> as_choices s2 = as_choices s"
    and D: "hs_state st = COMPLETED \<Longrightarrow> checks (finish_completion_checks c s st) = Inr ()
       \<and> length (as_visits s2) = length (as_events s2) \<and> av_valid_end (last (as_visits s2)) = hs_final_counter st"
  proof -
    show "history_inv c s2 \<and> extends s s2 \<and> as_events s2 = as_events s \<and> as_choices s2 = as_choices s"
    proof (cases "hs_state st = COMPLETED")
      case True
      then have "checks (finish_completion_checks c s st) = Inr ()" "close_last_visit c s st = (s2, Inr u)"
        using C by (auto simp: bindS_Inr)
      moreover from this(1) have "as_events s \<noteq> []" by (simp add: finish_completion_checks_def)
      ultimately show ?thesis using close_last_visit_facts hist by blast
    next
      case False
      then show ?thesis using C hist by (auto simp: extends_refl)
    qed
    assume c: "hs_state st = COMPLETED"
    then have A: "checks (finish_completion_checks c s st) = Inr ()" "close_last_visit c s st = (s2, Inr u)"
      using C by (auto simp: bindS_Inr)
    moreover from this(1) have "as_events s \<noteq> []" by (simp add: finish_completion_checks_def)
    ultimately show "checks (finish_completion_checks c s st) = Inr ()
       \<and> length (as_visits s2) = length (as_events s2) \<and> av_valid_end (last (as_visits s2)) = hs_final_counter st" using close_last_visit_facts hist by blast
  qed
  have ok2: "stream_ok c iq s2" using stream_ok_extends [OF assms(2)] S2 by blast
  note M = emit_pending_ok [OF E ok2 assms(3)]
  show thesis
    by (rule that [OF M(1) _ _ _ full _ M(2) R inv _ s1])
      (use M S2 D in \<open>auto simp: same_history_def extends_def\<close>)
qed

section \<open>Runs of a stream\<close>

text \<open>Everything the successful calls of a run returned, in order.\<close>

definition delivered :: "'a list result list \<Rightarrow> 'a list" where
  "delivered rs = concat (map (\<lambda>r. case r of Inr out \<Rightarrow> out | Inl _ \<Rightarrow> []) rs)"

lemma delivered_simps [simp]:
  "delivered [] = []" "delivered (Inr out # rs) = out @ delivered rs" "delivered (Inl e # rs) = delivered rs"
  by (simp_all add: delivered_def)

lemma visits_exact_append [simp]: "visits_exact iq (xs @ ys) \<longleftrightarrow> visits_exact iq xs \<and> visits_exact iq ys"
  by (auto simp: visits_exact_def)

lemma feed_open: "\<not> as_failed s \<Longrightarrow> as_receipt s = None \<Longrightarrow> stream_feed c s w = poison (feed_block c s w)"
  by (simp add: stream_feed_def require_open_def checks_eval)

lemma feed_closed:
  assumes "as_failed s \<or> as_receipt s \<noteq> None"
  shows "\<exists>e. stream_feed c s w = (s, Inl e)" and "\<exists>e. stream_finish c s st = (s, Inl e)"
  using assms by (auto simp: stream_feed_def stream_finish_def require_open_def checks_eval)

lemma run_failed: "as_failed s \<Longrightarrow> fst (run (stream_feed c) s ws) = s"
proof (induction ws)
  case (Cons w ws)
  then obtain e where "stream_feed c s w = (s, Inl e)" using feed_closed(1) by blast
  then show ?case using Cons by (simp add: split_beta)
qed simp

context evidence_source
begin

lemma stream_feed_ok:
  assumes "stream_feed c s w = (s1, r)" and "stream_ok c iq s" and "\<not> as_failed s" and "as_receipt s = None"
    and "carries c iq w" and "sc_decode_evidence c = decode" and "0 < hr_dwell_samples (sc_geometry c)"
  shows "case r of Inr out \<Rightarrow> stream_ok c iq s1 \<and> \<not> as_failed s1 \<and> as_receipt s1 = None \<and> visits_exact iq out
        \<and> as_retained_visits s1 = as_retained_visits s @ map fst out
        \<and> retained_sample_count s1 \<le> sc_maximum_retained_samples c
    | Inl e \<Rightarrow> as_failed s1 \<and> as_segments s1 = []"
proof (cases r)
  case (Inl e)
  then show ?thesis using assms(1) by (auto simp: feed_open [OF assms(3,4)] poison_def split: prod.splits sum.splits)
next
  case (Inr out)
  then have "feed_block c s w = (s1, Inr out)"
    using assms(1) by (auto simp: feed_open [OF assms(3,4)] poison_def split: prod.splits sum.splits)
  from feed_block_ok [OF this assms(2,5,6,7)] show ?thesis using Inr assms(3,4) by simp
qed

lemma run_feed_ok:
  "run (stream_feed c) s ws = (s1, rs) \<Longrightarrow> stream_ok c iq s \<Longrightarrow> \<not> as_failed s \<Longrightarrow> as_receipt s = None \<Longrightarrow>
   \<forall>w \<in> set ws. carries c iq w \<Longrightarrow> sc_decode_evidence c = decode \<Longrightarrow> 0 < hr_dwell_samples (sc_geometry c) \<Longrightarrow>
   retained_sample_count s \<le> sc_maximum_retained_samples c \<Longrightarrow> 0 \<le> sc_maximum_retained_samples c \<Longrightarrow>
   retained_sample_count s1 \<le> sc_maximum_retained_samples c \<and> visits_exact iq (delivered rs) \<and>
   (if \<exists>e. Inl e \<in> set rs then as_failed s1 \<and> as_segments s1 = []
    else stream_ok c iq s1 \<and> \<not> as_failed s1 \<and> as_receipt s1 = None
      \<and> as_retained_visits s1 = as_retained_visits s @ map fst (delivered rs))"
proof (induction ws arbitrary: s rs)
  case Nil
  then show ?case by (simp add: visits_exact_def)
next
  case (Cons w ws)
  obtain s2 r where F: "stream_feed c s w = (s2, r)" by (cases "stream_feed c s w")
  obtain rs2 where R: "run (stream_feed c) s2 ws = (s1, rs2)" and rs: "rs = r # rs2"
    using Cons.prems(1) F by (auto split: prod.splits)
  have cw: "carries c iq w" and cws: "\<forall>w \<in> set ws. carries c iq w" using Cons.prems(5) by simp_all
  note ok = stream_feed_ok [OF F Cons.prems(2-4) cw Cons.prems(6,7)]
  show ?case
  proof (cases r)
    case (Inr out)
    then have "stream_ok c iq s2" "\<not> as_failed s2" "as_receipt s2 = None" "visits_exact iq out"
      "as_retained_visits s2 = as_retained_visits s @ map fst out"
      "retained_sample_count s2 \<le> sc_maximum_retained_samples c" using ok by simp_all
    then show ?thesis using Cons.IH [OF R _ _ _ cws Cons.prems(6,7) _ Cons.prems(9)]
      by (auto simp: rs Inr)
  next
    case (Inl e)
    then have p: "as_failed s2" "as_segments s2 = []" using ok by simp_all
    have s1: "s1 = s2" using run_failed [OF p(1), of c ws] R by simp
    have "delivered rs2 = []"
    proof -
      have "\<forall>r \<in> set rs2. \<exists>e. r = Inl e" using R p(1)
      proof (induction ws arbitrary: rs2)
        case (Cons w ws)
        then obtain e where "stream_feed c s2 w = (s2, Inl e)" using feed_closed(1) by blast
        then show ?case using Cons by (auto split: prod.splits)
      qed simp
      then show ?thesis by (induction rs2) auto
    qed
    then show ?thesis using p s1 Cons.prems(9)
      by (auto simp: rs Inl visits_exact_def retained_sample_count_def retained_samples_def)
  qed
qed

end

text \<open>Both versions of the stream decode evidence whose blocks are non-empty and whose events are validated.\<close>

lemma checked_events:
  assumes "evidence_unpack bs = Inr base"
  shows "ev_block_first_counter base < ev_block_end_counter_exclusive base \<and>
    (\<forall>e \<in> set (ev_events base). he_invalid_start_counter e < he_invalid_end_counter_exclusive e)"
proof -
  have "he_invalid_start_counter e < he_invalid_end_counter_exclusive e" if "hop_event_validate e = Inr ()" for e
    using that by (simp add: hop_event_validate_def)
  then show ?thesis using evidence_unpack_events [OF assms] by blast
qed

lemma adaptive_evidence_checked:
  assumes "adaptive_evidence_unpack bs = Inr v"
  shows "ev_block_first_counter (ae_geometry v) < ev_block_end_counter_exclusive (ae_geometry v) \<and>
    (\<forall>e \<in> set (ev_events (ae_geometry v)). he_invalid_start_counter e < he_invalid_end_counter_exclusive e)"
proof -
  obtain base where "evidence_pack (ae_geometry v) = Inr base"
    using adaptive_evidence_enc_dec [OF assms] by (auto simp: adaptive_evidence_pack_def bindE_Inr_iff split: if_splits)
  then show ?thesis using checked_events evidence_dec_enc(1) by blast
qed

interpretation evidence_v2: evidence_source "decode_v2 r" for r
  by unfold_locales (auto simp: decode_v2_def bindE_Inr_iff dest!: adaptive_evidence_checked)

interpretation evidence_v3: evidence_source "decode_v3 pack r" for pack r
proof unfold_locales
  fix payload base choices
  assume "decode_v3 pack r payload = Inr (base, choices)"
  then obtain v where v: "host_evidence_unpack payload = Inr v" and base: "base = ae_geometry v"
    by (auto simp: decode_v3_def bindE_Inr_iff)
  from v have "adaptive_evidence_unpack (stamp [(4, le_bytes 2 2), (12, le_bytes 4 0x3F)] payload) = Inr v"
    using host_evidences.dec2_eq by blast
  then show "ev_block_first_counter base < ev_block_end_counter_exclusive base \<and>
    (\<forall>e \<in> set (ev_events base). he_invalid_start_counter e < he_invalid_end_counter_exclusive e)"
    using adaptive_evidence_checked base by blast
qed

lemma stream_start_ok: "stream_ok c iq stream_start" "\<not> as_failed stream_start" "as_receipt stream_start = None"
  "retained_sample_count stream_start = 0"
  by (simp_all add: stream_ok_def stream_start_def history_inv_def chained_def visits_match_def starts_received_def
      last_end_def retained_sample_count_def retained_samples_def)

section \<open>Whole sessions\<close>

text \<open>A successful session: all blocks fed, then the terminal status; its outputs are the visits returned.\<close>

definition finished ::
    "stream_config \<Rightarrow> wire_block list \<Rightarrow> hop_status \<Rightarrow> adaptive_receipt \<Rightarrow> (adaptive_visit \<times> iq_column list) list \<Rightarrow> bool" where
  "finished c ws st rc outputs \<longleftrightarrow>
     (case run (stream_feed c) stream_start ws of (s, rs) \<Rightarrow>
        (case stream_finish c s st of
           (s1, Inr (rc1, out)) \<Rightarrow> rc1 = rc \<and> outputs = delivered rs @ out
         | (s1, Inl e) \<Rightarrow> False))"

lemma finish_open:
  assumes "stream_finish c s st = (s1, Inr x)"
  shows "\<not> as_failed s" and "as_receipt s = None" and "finish_stream c s st = (s1, Inr x)"
proof -
  show o: "\<not> as_failed s" "as_receipt s = None"
    using assms by (auto simp: stream_finish_def require_open_def bindS_Inr)
  then show "finish_stream c s st = (s1, Inr x)"
    using assms by (auto simp: stream_finish_def require_open_def checks_eval poison_def split: prod.splits sum.splits)
qed

context evidence_source
begin

lemma finished_facts:
  assumes "finished c ws st rc outputs" and "sc_decode_evidence c = decode"
    and "0 < hr_dwell_samples (sc_geometry c)" and "0 \<le> sc_maximum_retained_samples c"
    and "\<forall>w \<in> set ws. carries c iq w"
  obtains t where "stream_ok c iq t" and "visits_exact iq outputs" and "as_retained_visits t = map fst outputs"
    and "make_receipt c t st = Inr rc" and "as_emitted t = length (as_visits t)"
    and "hs_state st = COMPLETED \<longrightarrow> length (as_visits t) = length (as_events t)"
    and "as_events t \<noteq> [] \<longrightarrow> hs_first_counter st = he_invalid_start_counter (hd (as_events t))"
    and "hs_state st = COMPLETED \<longrightarrow> as_events t \<noteq> [] \<and> av_valid_end (last (as_visits t)) = hs_final_counter st"
proof -
  obtain s rs s1 out where R: "run (stream_feed c) stream_start ws = (s, rs)"
    and F: "stream_finish c s st = (s1, Inr (rc, out))" and O: "outputs = delivered rs @ out"
    using assms(1) by (auto simp: finished_def split: prod.splits sum.splits)
  note K = run_feed_ok [OF R stream_start_ok(1-3) assms(5,2,3)] and FO = finish_open [OF F]
  have K: "visits_exact iq (delivered rs)" "stream_ok c iq s" "as_retained_visits s = map fst (delivered rs)"
    using K FO(1) stream_start_ok(4) [of] assms(4) by (auto simp: stream_start_def split: if_splits)
  obtain t where T: "stream_ok c iq t" "as_events t = as_events s" "as_emitted t = length (as_visits t)"
      "as_retained_visits t = as_retained_visits s @ map fst out" "visits_exact iq out" "make_receipt c t st = Inr rc"
    and inv: "checks (finish_inventory_checks c s st) = Inr ()"
    and D: "hs_state st = COMPLETED \<longrightarrow> checks (finish_completion_checks c s st) = Inr ()
      \<and> length (as_visits t) = length (as_events t) \<and> av_valid_end (last (as_visits t)) = hs_final_counter st"
    by (rule finish_stream_facts [OF FO(3) K(2) assms(3)]) blast
  have "as_events s \<noteq> [] \<longrightarrow> hs_first_counter st = he_invalid_start_counter (hd (as_events s))"
    using inv by (auto simp: finish_inventory_checks_def)
  moreover have "hs_state st = COMPLETED \<longrightarrow> as_events s \<noteq> []"
    using D by (auto simp: finish_completion_checks_def)
  ultimately show thesis using that [OF T(1) _ _ T(6,3)] K(1,3) T D O by simp
qed

end

section \<open>Failing closed\<close>

text \<open>No step of a block changes whether the stream has failed or finished.\<close>

definition same_mode :: "adaptive_stream \<Rightarrow> adaptive_stream \<Rightarrow> bool" where
  "same_mode s t \<longleftrightarrow> as_failed t = as_failed s \<and> as_receipt t = as_receipt s"

lemma same_mode_trans: "same_mode s t \<Longrightarrow> same_mode t u \<Longrightarrow> same_mode s u"
  by (simp add: same_mode_def)

lemma emit_ready_mode: "emit_ready c vs s = (s1, r) \<Longrightarrow> same_mode s s1"
proof (induction c vs s arbitrary: r rule: emit_ready.induct)
  case (2 c v vs s)
  show ?case
  proof (cases "reaches s (av_valid_end v)")
    case R: True
    show ?thesis
    proof (cases "int (length (visit_pieces s v)) = av_valid_sample_count v")
      case True
      let ?s = "stream_trim (av_valid_end v)
        (s\<lparr>as_retained_visits := as_retained_visits s @ [v], as_emitted := Suc (as_emitted s)\<rparr>)"
      obtain r2 where "emit_ready c vs ?s = (s1, r2)"
        using "2.prems" R True by (auto simp: Let_def bindS_def split: prod.splits sum.splits)
      from "2.IH"(2) [OF _ refl _ this] R True show ?thesis by (simp add: same_mode_def stream_trim_def)
    next
      case False
      then show ?thesis using "2.prems" R "2.IH"(1) [OF _ refl False, of r]
        by (auto simp: Let_def same_mode_def stream_trim_def split: if_splits)
    qed
  qed (use "2.prems" in \<open>simp add: same_mode_def\<close>)
qed (simp add: same_mode_def)

lemma close_current_mode: "close_current_visit c s = (s1, Inr u) \<Longrightarrow> same_mode s s1"
  by (auto simp: close_current_visit_def same_mode_def Let_def close_visit_Inr split: if_splits)

lemma feed_block_success:
  assumes "feed_block c s w = (s1, Inr out)"
  shows "same_mode s s1 \<and> retained_sample_count s1 \<le> sc_maximum_retained_samples c"
proof -
  obtain base choices where D: "sc_decode_evidence c (wb_evidence w) = Inr (base, choices)"
    using assms by (auto simp: feed_block_def bindS_Inr)
  let ?a = "admit_block (note_gap s base) base w"
  obtain s3 columns where E: "eachS (accept_adaptive_event c) ?a (zip (ev_events base) choices) = (s3, Inr ())"
    and C: "sc_decode_samples c (wb_iq_payload w) = Inr columns"
    using assms D by (auto simp: feed_block_def bindS_Inr)
  let ?d = "s3\<lparr>as_segments := as_segments s3
     @ [(ev_block_first_counter base, ev_block_end_counter_exclusive base, columns)], as_previous := Some base\<rparr>"
  obtain s4 u where K: "(if sc_close_visits_from_geometry c \<and> ev_state base = RUNNING
       then close_current_visit c ?d else (?d, Inr ())) = (s4, Inr u)"
    using assms D E C by (auto simp: feed_block_def bindS_Inr Let_def)
  obtain s5 where P: "emit_pending c s4 = (s5, Inr out)" and s1: "s1 = stream_trim (retain_from s5) s5"
    and bound: "retained_sample_count s1 \<le> sc_maximum_retained_samples c"
    using assms D E C K by (auto simp: feed_block_def bindS_Inr bindE_Inr_iff Let_def)
  have "same_mode s ?a" by (simp add: same_mode_def admit_block_def note_gap_def split: option.splits)
  moreover have "same_mode ?a s3"
  proof -
    have "same_mode ?a ?a" by (simp add: same_mode_def)
    moreover have "same_mode ?a t1" if "same_mode ?a t" "accept_adaptive_event c t ec = (t1, Inr ())" for t ec t1
      using that(1) accept_event_extends [OF that(2)] by (simp add: same_mode_def extends_def)
    ultimately show ?thesis using eachS_inv [of "same_mode ?a" _ "accept_adaptive_event c"] E by blast
  qed
  moreover have "same_mode ?d s4" using K close_current_mode [of c ?d s4 u] by (auto simp: same_mode_def split: if_splits)
  moreover have "same_mode s4 s5" using P emit_ready_mode by (simp add: emit_pending_def)
  ultimately show ?thesis using bound by (simp add: same_mode_def s1 stream_trim_def)
qed

text \<open>Whatever the blocks are, an open stream stays within its bound and a block it refuses closes it for good.\<close>

lemma run_bounded:
  "run (stream_feed c) s ws = (s1, rs) \<Longrightarrow> \<not> as_failed s \<Longrightarrow> as_receipt s = None \<Longrightarrow>
   retained_sample_count s \<le> sc_maximum_retained_samples c \<Longrightarrow> 0 \<le> sc_maximum_retained_samples c \<Longrightarrow>
   retained_sample_count s1 \<le> sc_maximum_retained_samples c \<and>
   (if \<exists>e. Inl e \<in> set rs then as_failed s1 \<and> as_segments s1 = [] else \<not> as_failed s1 \<and> as_receipt s1 = None)"
proof (induction ws arbitrary: s rs)
  case (Cons w ws)
  obtain s2 r where F: "stream_feed c s w = (s2, r)" by (cases "stream_feed c s w")
  obtain rs2 where R: "run (stream_feed c) s2 ws = (s1, rs2)" and rs: "rs = r # rs2"
    using Cons.prems(1) F by (auto split: prod.splits)
  have F2: "poison (feed_block c s w) = (s2, r)" using F feed_open Cons.prems(2,3) by simp
  show ?case
  proof (cases r)
    case (Inr out)
    then have "feed_block c s w = (s2, Inr out)" using F2 by (auto simp: poison_def split: prod.splits sum.splits)
    then show ?thesis using feed_block_success [of c s w s2 out] Cons.IH [OF R] Cons.prems
      by (simp add: same_mode_def rs Inr)
  next
    case (Inl e)
    then have p: "as_failed s2" "as_segments s2 = []" using F2 by (auto simp: poison_def split: prod.splits sum.splits)
    then have "s1 = s2" using run_failed [OF p(1), of c ws] R by simp
    then show ?thesis using p Cons.prems(5) by (auto simp: rs Inl retained_sample_count_def retained_samples_def)
  qed
qed simp

section \<open>Counting counters\<close>

definition valid_span :: "adaptive_visit \<Rightarrow> int set" where
  "valid_span v = {av_valid_start v..<av_valid_end v}"

definition invalid_span :: "hop_event \<Rightarrow> int set" where
  "invalid_span e = {he_invalid_start_counter e..<he_invalid_end_counter_exclusive e}"

text \<open>The counters of a receipt: those of its visits, those of its transitions, and the whole capture.\<close>

definition valid_counters :: "adaptive_receipt \<Rightarrow> int set" where
  "valid_counters rc = \<Union> (valid_span ` set (at_visits rc))"

definition transition_counters :: "adaptive_receipt \<Rightarrow> int set" where
  "transition_counters rc = \<Union> (invalid_span ` set (at_events rc))"

definition capture_counters :: "adaptive_receipt \<Rightarrow> int set" where
  "capture_counters rc = (if at_events rc = [] then {}
     else {hs_first_counter (at_status rc)..<hs_final_counter (at_status rc)})"

lemma card_ordered_intervals:
  fixes lo hi :: "'a \<Rightarrow> int"
  assumes "sorted_wrt (\<lambda>x y. hi x \<le> lo y) xs"
  shows "int (card (\<Union>x \<in> set xs. {lo x..<hi x})) = (\<Sum>x \<leftarrow> xs. max 0 (hi x - lo x))"
  using assms
proof (induction xs)
  case (Cons x xs)
  have "{lo x..<hi x} \<inter> (\<Union>y \<in> set xs. {lo y..<hi y}) = {}" using Cons.prems by fastforce
  then have "card ({lo x..<hi x} \<union> (\<Union>y \<in> set xs. {lo y..<hi y}))
      = card {lo x..<hi x} + card (\<Union>y \<in> set xs. {lo y..<hi y})"
    by (intro card_Un_disjoint) simp_all
  then show ?case using Cons by simp
qed simp

lemma chained_order:
  assumes "chained c es cs" and "0 < hr_dwell_samples (sc_geometry c)" and "i < j" and "j < length es"
  shows "he_invalid_end_counter_exclusive (es ! i) + hr_dwell_samples (sc_geometry c) \<le> he_invalid_start_counter (es ! j)"
  using assms(3,4)
proof (induction j)
  case (Suc j)
  have step: "he_invalid_start_counter (es ! Suc j) = he_invalid_end_counter_exclusive (es ! j) + hr_dwell_samples (sc_geometry c)"
    and ne: "he_invalid_start_counter (es ! j) < he_invalid_end_counter_exclusive (es ! j)"
    using assms(1) Suc.prems by (auto simp: chained_def)
  show ?case using Suc step ne assms(2) by (cases "i = j") auto
qed simp

text \<open>The history of a stream as spans: transitions and visits follow each other.\<close>

lemma history_spans:
  assumes "history_inv c t" and d: "0 < hr_dwell_samples (sc_geometry c)"
  shows "sorted_wrt (\<lambda>x y. he_invalid_end_counter_exclusive x \<le> he_invalid_start_counter y) (as_events t)"
    and "sorted_wrt (\<lambda>u v. av_valid_end u \<le> av_valid_start v) (as_visits t)"
    and "v \<in> set (as_visits t) \<Longrightarrow> e \<in> set (as_events t) \<Longrightarrow> valid_span v \<inter> invalid_span e = {}"
    and "v \<in> set (as_visits t) \<Longrightarrow> \<exists>e \<in> set (as_events t). av_valid_start v = he_invalid_end_counter_exclusive e
       \<and> av_valid_end v = he_invalid_end_counter_exclusive e + hr_dwell_samples (sc_geometry c)"
    and "e \<in> set (as_events t) \<Longrightarrow> he_invalid_start_counter (hd (as_events t)) \<le> he_invalid_start_counter e
       \<and> he_invalid_start_counter e < he_invalid_end_counter_exclusive e
       \<and> he_invalid_end_counter_exclusive e \<le> he_invalid_end_counter_exclusive (last (as_events t))"
proof -
  let ?es = "as_events t" and ?d = "hr_dwell_samples (sc_geometry c)"
  have ch: "chained c ?es (as_choices t)" and vm: "visits_match c t" using assms(1) by (simp_all add: history_inv_def)
  note O = chained_order [OF ch d]
  have ne: "he_invalid_start_counter (?es ! i) < he_invalid_end_counter_exclusive (?es ! i)" if "i < length ?es" for i
    using ch that by (simp add: chained_def)
  have len: "length (as_visits t) \<le> length ?es" using vm by (auto simp: visits_match_def)
  have V: "av_valid_start (as_visits t ! i) = he_invalid_end_counter_exclusive (?es ! i)
      \<and> av_valid_end (as_visits t ! i) = he_invalid_end_counter_exclusive (?es ! i) + ?d" if "i < length (as_visits t)" for i
    using vm that by (simp add: visits_match_def visit_matches_def av_valid_start_def)
  show "sorted_wrt (\<lambda>x y. he_invalid_end_counter_exclusive x \<le> he_invalid_start_counter y) ?es"
    unfolding sorted_wrt_iff_nth_less
  proof safe
    fix i j assume "i < j" "j < length ?es"
    then show "he_invalid_end_counter_exclusive (?es ! i) \<le> he_invalid_start_counter (?es ! j)"
      using O [of i j] d by simp
  qed
  show "sorted_wrt (\<lambda>u v. av_valid_end u \<le> av_valid_start v) (as_visits t)"
    unfolding sorted_wrt_iff_nth_less
  proof safe
    fix i j assume ij: "i < j" "j < length (as_visits t)"
    then show "av_valid_end (as_visits t ! i) \<le> av_valid_start (as_visits t ! j)"
      using O [of i j] V [of i] V [of j] ne [of j] len by simp
  qed
  show "valid_span v \<inter> invalid_span e = {}" if ve: "v \<in> set (as_visits t)" "e \<in> set ?es" for v e
  proof -
    obtain i j where i: "i < length (as_visits t)" "v = as_visits t ! i" and j: "j < length ?es" "e = ?es ! j"
      using ve by (auto simp: in_set_conv_nth)
    consider "i < j" | "i = j" | "j < i" by linarith
    then show ?thesis
    proof cases
      case 1
      then show ?thesis using O [OF 1 j(1)] V [OF i(1)] by (auto simp: valid_span_def invalid_span_def i(2) j(2))
    next
      case 3
      then show ?thesis using O [OF 3] V [OF i(1)] ne [of i] i(1) len d
        by (auto simp: valid_span_def invalid_span_def i(2) j(2))
    qed (use V i j in \<open>auto simp: valid_span_def invalid_span_def\<close>)
  qed
  show "\<exists>e \<in> set ?es. av_valid_start v = he_invalid_end_counter_exclusive e
      \<and> av_valid_end v = he_invalid_end_counter_exclusive e + ?d" if "v \<in> set (as_visits t)"
    using that V len by (metis in_set_conv_nth nth_mem order_less_le_trans)
  show "he_invalid_start_counter (hd ?es) \<le> he_invalid_start_counter e
      \<and> he_invalid_start_counter e < he_invalid_end_counter_exclusive e
      \<and> he_invalid_end_counter_exclusive e \<le> he_invalid_end_counter_exclusive (last ?es)" if e: "e \<in> set ?es"
  proof -
    obtain j where j: "j < length ?es" "e = ?es ! j" using e by (auto simp: in_set_conv_nth)
    have "?es \<noteq> []" using e by auto
    then have h: "0 < length ?es" "hd ?es = ?es ! 0" "last ?es = ?es ! (length ?es - 1)" by (simp_all add: hd_conv_nth last_conv_nth)
    have "he_invalid_start_counter (hd ?es) \<le> he_invalid_start_counter e"
      using O [of 0 j] ne [of 0, OF h(1)] j d by (cases "j = 0") (simp_all add: h)
    moreover have "he_invalid_end_counter_exclusive e \<le> he_invalid_end_counter_exclusive (last ?es)"
    proof (cases "j = length ?es - 1")
      case False
      then have "j < length ?es - 1" "length ?es - 1 < length ?es" using j(1) h(1) by linarith+
      then show ?thesis unfolding h(3) j(2) using O [of j "length ?es - 1"] ne [of "length ?es - 1"] d by linarith
    qed (simp add: h j)
    ultimately show ?thesis using ne j by blast
  qed
qed

lemma subseq_sorted_wrt: "subseq xs ys \<Longrightarrow> sorted_wrt P ys \<Longrightarrow> sorted_wrt P xs"
proof (induction rule: list_emb.induct)
  case (list_emb_Cons2 x y xs ys)
  then show ?case using list_emb_set [of "(=)" xs ys] by auto
qed auto

text \<open>The totals of a receipt count counters.\<close>

lemma receipt_counts:
  assumes ok: "stream_ok c iq t" and R: "make_receipt c t st = Inr rc" and d: "0 < hr_dwell_samples (sc_geometry c)"
  shows "at_valid rc = int (card (valid_counters rc))"
    and "at_transition_invalid rc = int (card (transition_counters rc \<inter> {hs_first_counter st..<hs_final_counter st}))"
    and "valid_counters rc \<inter> transition_counters rc = {}"
proof -
  have hist: "history_inv c t" and sub: "subseq (as_retained_visits t) (take (as_emitted t) (as_visits t))"
    using ok by (simp_all add: stream_ok_def)
  note H = history_spans [OF hist d]
  have rc: "at_visits rc = as_retained_visits t" "at_events rc = as_events t" "at_valid rc = adaptive_valid (as_retained_visits t)"
      "at_transition_invalid rc = sum_list (map (clipped_invalid st) (as_events t))"
    using R by (auto simp: make_receipt_def bindE_Inr_iff Let_def)
  have mem: "v \<in> set (as_visits t)" if v: "v \<in> set (as_retained_visits t)" for v
  proof -
    obtain u where "u \<in> set (take (as_emitted t) (as_visits t))" "v = u" using list_emb_set [OF sub v] by blast
    then show ?thesis by (auto dest: in_set_takeD)
  qed
  have "sorted_wrt (\<lambda>u v. av_valid_end u \<le> av_valid_start v) (as_retained_visits t)"
    by (rule subseq_sorted_wrt [OF sub sorted_wrt_take [OF H(2)]])
  from card_ordered_intervals [OF this]
  have "int (card (valid_counters rc)) = (\<Sum>v \<leftarrow> as_retained_visits t. max 0 (av_valid_end v - av_valid_start v))"
    by (simp add: valid_counters_def valid_span_def rc(1))
  also have "map (\<lambda>v. max 0 (av_valid_end v - av_valid_start v)) (as_retained_visits t)
      = map av_valid_sample_count (as_retained_visits t)"
  proof (rule map_cong [OF refl])
    fix v assume "v \<in> set (as_retained_visits t)"
    then have "v \<in> set (as_visits t)" by (rule mem)
    then have "av_valid_start v < av_valid_end v" using visits_nonempty_adaptive [OF hist d] by simp
    then show "max 0 (av_valid_end v - av_valid_start v) = av_valid_sample_count v"
      by (simp add: av_valid_sample_count_def)
  qed
  also have "sum_list \<dots> = adaptive_valid (as_retained_visits t)" by (simp add: adaptive_valid_def)
  finally show "at_valid rc = int (card (valid_counters rc))" by (simp add: rc(3))
  let ?lo = "\<lambda>e. max (hs_first_counter st) (he_invalid_start_counter e)"
    and ?hi = "\<lambda>e. min (hs_final_counter st) (he_invalid_end_counter_exclusive e)"
  have "transition_counters rc \<inter> {hs_first_counter st..<hs_final_counter st} = (\<Union>e \<in> set (as_events t). {?lo e..<?hi e})"
    by (auto simp: transition_counters_def invalid_span_def rc(2))
  moreover have "sorted_wrt (\<lambda>x y. ?hi x \<le> ?lo y) (as_events t)"
    using H(1) by (rule sorted_wrt_mono_rel [rotated]) auto
  ultimately show "at_transition_invalid rc
      = int (card (transition_counters rc \<inter> {hs_first_counter st..<hs_final_counter st}))"
    using card_ordered_intervals [of ?hi ?lo "as_events t"]
    by (simp add: rc(4) clipped_invalid_def [abs_def])
  show "valid_counters rc \<inter> transition_counters rc = {}"
    using H(3) mem by (force simp: valid_counters_def transition_counters_def rc(1,2))
qed

text \<open>The capture of a receipt, and where a completed session's spans lie.\<close>

lemma receipt_capture:
  assumes ok: "stream_ok c iq t" and R: "make_receipt c t st = Inr rc" and d: "0 < hr_dwell_samples (sc_geometry c)"
    and first: "as_events t \<noteq> [] \<longrightarrow> hs_first_counter st = he_invalid_start_counter (hd (as_events t))"
  shows "at_transition_invalid rc = int (card (transition_counters rc \<inter> capture_counters rc))
    \<and> at_duty_denominator rc = int (card (capture_counters rc))"
proof -
  note C = receipt_counts [OF ok R d]
  have rc: "at_events rc = as_events t" "at_status rc = st" "at_duty_denominator rc = denominator_of t st"
    "at_valid rc + at_transition_invalid rc + at_unclassified rc = at_duty_denominator rc" "0 \<le> at_unclassified rc"
    using R by (auto simp: make_receipt_def bindE_Inr_iff Let_def)
  show ?thesis
  proof (cases "as_events t = []")
    case True
    then show ?thesis using C(2) rc by (simp add: transition_counters_def capture_counters_def denominator_of_def)
  next
    case False
    then have S: "capture_counters rc = {hs_first_counter st..<hs_final_counter st}" by (simp add: capture_counters_def rc)
    have "0 \<le> at_duty_denominator rc" using rc(4,5) C(1,2) by linarith
    then show ?thesis using C(2) False by (simp add: S rc(3) denominator_of_def)
  qed
qed

lemma completed_inside:
  assumes ok: "stream_ok c iq t" and R: "make_receipt c t st = Inr rc" and d: "0 < hr_dwell_samples (sc_geometry c)"
    and "as_events t \<noteq> []" and "hs_first_counter st = he_invalid_start_counter (hd (as_events t))"
    and "av_valid_end (last (as_visits t)) = hs_final_counter st" and "length (as_visits t) = length (as_events t)"
  shows "valid_counters rc \<union> transition_counters rc \<subseteq> capture_counters rc"
proof -
  have hist: "history_inv c t" and sub: "subseq (as_retained_visits t) (take (as_emitted t) (as_visits t))"
    using ok by (simp_all add: stream_ok_def)
  note H = history_spans [OF hist d]
  let ?k = "length (as_events t) - 1"
  have ne: "as_visits t \<noteq> []" using assms(4,7) by auto
  have "visit_matches c (as_events t ! ?k) (as_choices t ! ?k) (as_visits t ! ?k)"
    using hist assms(4,7) by (simp add: history_inv_def visits_match_def)
  then have final: "hs_final_counter st = he_invalid_end_counter_exclusive (last (as_events t)) + hr_dwell_samples (sc_geometry c)"
    using assms(4,6,7) ne by (simp add: visit_matches_def last_conv_nth)
  have S: "capture_counters rc = {hs_first_counter st..<hs_final_counter st}"
    and rc: "at_visits rc = as_retained_visits t" "at_events rc = as_events t"
    using R assms(4) by (auto simp: make_receipt_def bindE_Inr_iff Let_def capture_counters_def)
  have "invalid_span e \<subseteq> capture_counters rc" if "e \<in> set (as_events t)" for e
    using H(5) [OF that] final assms(5) d by (auto simp: S invalid_span_def)
  moreover have "valid_span v \<subseteq> capture_counters rc" if v: "v \<in> set (as_retained_visits t)" for v
  proof -
    obtain u where "u \<in> set (take (as_emitted t) (as_visits t))" "v = u" using list_emb_set [OF sub v] by blast
    then have "v \<in> set (as_visits t)" by (auto dest: in_set_takeD)
    then obtain e where e: "e \<in> set (as_events t)" "av_valid_start v = he_invalid_end_counter_exclusive e"
      "av_valid_end v = he_invalid_end_counter_exclusive e + hr_dwell_samples (sc_geometry c)" using H(4) by blast
    then show ?thesis using H(5) [OF e(1)] final assms(5) by (auto simp: S valid_span_def)
  qed
  ultimately show ?thesis by (auto simp: valid_counters_def transition_counters_def rc)
qed

lemma card_three_parts:
  assumes "finite S" and "V \<subseteq> S" and "V \<inter> I = {}"
  shows "int (card S) = int (card V) + int (card (I \<inter> S)) + int (card (S - V - I))"
proof -
  have S: "S = (V \<union> (I \<inter> S)) \<union> (S - V - I)" using assms(2) by blast
  have f: "finite V" "finite (I \<inter> S)" using assms(1,2) finite_subset by auto
  have "card S = card (V \<union> (I \<inter> S)) + card (S - V - I)"
    by (subst S, rule card_Un_disjoint) (use assms f in auto)
  moreover have "card (V \<union> (I \<inter> S)) = card V + card (I \<inter> S)"
    by (rule card_Un_disjoint) (use assms(3) f in auto)
  ultimately show ?thesis by simp
qed

lemma adaptive_valid_dwells:
  "\<forall>v \<in> set vs. av_valid_sample_count v = d \<Longrightarrow> adaptive_valid vs = int (length vs) * d"
  by (induction vs) (auto simp: adaptive_valid_def algebra_simps)

text \<open>Sums over visits grouped by the target of their profile.\<close>

lemma coverage_total:
  assumes "distinct (map hp_target_index ps)" and "\<forall>v \<in> set vs. av_profile v \<in> set ps"
  shows "(\<Sum>(_, _, n) \<leftarrow> map (\<lambda>p. let own = filter (\<lambda>v. hp_target_index (av_profile v) = hp_target_index p) vs in
            (hp_target_index p, int (length own), adaptive_valid own)) ps. n) = adaptive_valid vs"
  using assms(2)
proof (induction vs)
  case Nil
  then show ?case by (induction ps) (simp_all add: adaptive_valid_def)
next
  case (Cons v vs)
  have one: "(\<Sum>p \<leftarrow> ps. if hp_target_index (av_profile v) = hp_target_index p then x else 0) = x" for x :: int
  proof -
    have "av_profile v \<in> set ps" using Cons.prems by simp
    then show ?thesis using assms(1)
    proof (induction ps)
      case (Cons p ps)
      have zero: "(\<Sum>p \<leftarrow> ps. if k = hp_target_index p then x else 0) = 0" if "k \<notin> hp_target_index ` set ps" for k
        using that by (induction ps) auto
      show ?case using Cons zero by (auto simp: image_iff)
    qed simp
  qed
  have "(\<Sum>p \<leftarrow> ps. adaptive_valid (filter (\<lambda>v. hp_target_index (av_profile v) = hp_target_index p) (v # vs)))
      = (\<Sum>p \<leftarrow> ps. (if hp_target_index (av_profile v) = hp_target_index p then av_valid_sample_count v else 0)
          + adaptive_valid (filter (\<lambda>v. hp_target_index (av_profile v) = hp_target_index p) vs))"
    by (rule arg_cong [where f = sum_list], rule map_cong) (auto simp: adaptive_valid_def)
  then show ?case using Cons one
    by (simp add: sum_list_addf comp_def Let_def adaptive_valid_def)
qed

lemma matched_visits:
  assumes "stream_ok c iq t" and "0 < hr_dwell_samples (sc_geometry c)"
  shows "\<forall>v \<in> set (as_retained_visits t). av_valid_sample_count v = hr_dwell_samples (sc_geometry c)
     \<and> av_profile v \<in> set (hr_profiles (sc_geometry c))"
proof
  fix v assume v: "v \<in> set (as_retained_visits t)"
  moreover have "subseq (as_retained_visits t) (take (as_emitted t) (as_visits t))"
    using assms(1) by (simp add: stream_ok_def)
  ultimately obtain u where "u \<in> set (take (as_emitted t) (as_visits t))" "v = u"
    by (meson list_emb_set)
  then have "v \<in> set (as_visits t)" by (auto dest: in_set_takeD)
  then obtain i where "i < length (as_visits t)" "v = as_visits t ! i" by (auto simp: in_set_conv_nth)
  then have "visit_matches c (as_events t ! i) (as_choices t ! i) v"
    using assms(1) by (simp add: stream_ok_def history_inv_def visits_match_def)
  then show "av_valid_sample_count v = hr_dwell_samples (sc_geometry c) \<and> av_profile v \<in> set (hr_profiles (sc_geometry c))"
    by (auto simp: visit_matches_def av_valid_start_def av_valid_sample_count_def request_profile_def
        in_set_conv_nth split: if_splits intro!: exI [of _ "nat (he_to_profile_index (as_events t ! i))"])
qed

end
