(* ===== verification/Hop_Properties.thy ===== *)
theory Hop_Properties
  imports Hop_Assembly
begin

text \<open>
  The properties of the persistent-hop client of \<open>persistent_hop.py\<close>, each with an instance on one
  small concrete session: a single visit of two samples after a startup transition.
\<close>

section \<open>A concrete session\<close>

definition sample_profiles :: "hop_profile list" where
  "sample_profiles = map (\<lambda>i. \<lparr>hp_target_index = i, hp_fastlock_profile_index = i,
     hp_center_hz = 100 + i, hp_lo_hz = 100 + i, hp_profile_crc32 = 1\<rparr>) [0..7]"

definition sample_request :: hop_request where
  "sample_request = \<lparr>hr_session_id = 7, hr_sample_rate_hz = 10, hr_rf_bandwidth_hz = 10,
     hr_if_offset_hz = 0, hr_dwell_samples = 2, hr_transition_guard_samples = 1, hr_dwell_count = 1,
     hr_capture_span_samples = 2, hr_profiles = sample_profiles\<rparr>"

definition sample_plan :: hop_plan where
  "sample_plan = \<lparr>pl_kind = DualRx, pl_nominal_duration_seconds = 300, pl_valid_visit_ms = 120,
     pl_sample_rate_hz = 2500000, pl_rf_bandwidth_hz = 2500000, pl_transition_guard_samples = 1000,
     pl_samples_per_block = 65536, pl_kernel_buffers = 4, pl_minimum_valid_duty_ppm = 500000,
     pl_manual_gain_db = 30, pl_profiles = sample_profiles\<rparr>"

definition sample_event :: hop_event where
  "sample_event = \<lparr>he_event_sequence = 0, he_dwell_index = 0, he_transition_before_counter = 0,
     he_transition_after_counter = 0, he_invalid_start_counter = 0,
     he_invalid_end_counter_exclusive = 1, he_from_profile_index = 255, he_to_profile_index = 0,
     he_kind = STARTUP, he_flags = 3, he_fastlock_slot = 0, he_actual_lo_frequency_hz = 100,
     he_actual_if_offset_hz = 0, he_device_event_id = 1\<rparr>"

definition sample_evidence :: hop_evidence where
  "sample_evidence = \<lparr>ev_flags = 0x20, ev_session_id = 7, ev_buffer_sequence = 0,
     ev_block_first_counter = 0, ev_block_end_counter_exclusive = 3, ev_state = RUNNING,
     ev_reason = REASON_NONE, ev_error_code = 0, ev_events = [sample_event]\<rparr>"

definition sample_status :: hop_status where
  "sample_status = \<lparr>hs_state = COMPLETED, hs_reason = PLAN_COMPLETE, hs_error_code = 0,
     hs_flags = 0x39, hs_session_id = 7, hs_planned_dwells = 1, hs_visits_started = 1,
     hs_events_emitted = 1, hs_next_event_sequence = 1, hs_last_block_sequence = 0,
     hs_last_block_end_counter = 3, hs_first_counter = 0, hs_final_counter = 3,
     hs_restore_before_counter = 3, hs_restore_after_counter = 3, hs_restored_lo_frequency_hz = 100,
     hs_restore_error_code = 0, hs_active_profile_index = 0, hs_restored_profile_index = 255,
     hs_startup_invalid_start_counter = 0, hs_startup_invalid_end_counter_exclusive = 1,
     hs_device_dropped_events = 0\<rparr>"

definition sample_session :: hop_session where
  "sample_session = session_init ''s'' ''u'' sample_plan sample_request sample_status"

definition evidence_wire :: bytes where
  "evidence_wire = (case evidence_pack sample_evidence of Inr bs \<Rightarrow> bs | Inl _ \<Rightarrow> [])"

definition sample_block :: wire_block where
  "sample_block = \<lparr>wb_evidence = evidence_wire, wb_iq_payload = replicate 24 0,
     wb_stream_generation = None\<rparr>"

definition sample_backend :: "unit hop_backend" where
  "sample_backend = \<lparr>bk_cancel = Inr (), bk_read_status = status_pack sample_status,
     bk_close = Inr (Some ()), bk_radio_id = None, bk_kernel_buffers_requested = None,
     bk_kernel_buffers_readback = None\<rparr>"

lemmas sample_defs = sample_request_def sample_event_def sample_evidence_def sample_status_def

lemma sample_profiles_eq: "sample_profiles =
  map (\<lambda>i. \<lparr>hp_target_index = i, hp_fastlock_profile_index = i, hp_center_hz = 100 + i,
     hp_lo_hz = 100 + i, hp_profile_crc32 = 1\<rparr>) [0, 1, 2, 3, 4, 5, 6, 7]"
proof -
  have "[0..7 :: int] = [0, 1, 2, 3, 4, 5, 6, 7]" by (simp add: upto_rec1)
  then show ?thesis by (simp only: sample_profiles_def)
qed

lemma sample_request_valid: "request_validate sample_request = Inr ()"
  by (simp add: request_validate_def sample_request_def checks_eval in_uint_def in_sint_def
      sample_profiles_eq profile_validate_def)

lemma sample_event_valid: "hop_event_validate sample_event = Inr ()"
  by (simp add: hop_event_validate_def sample_event_def checks_eval in_uint_def in_sint_def)

lemma sample_evidence_valid: "evidence_validate sample_evidence = Inr ()"
proof -
  have "validate_state_reason_flags RUNNING REASON_NONE 0 0x20 = Inr ()"
    by (simp add: validate_state_reason_flags_def checks_eval has_def terminal_state_def active_state_def)
  then show ?thesis using sample_event_valid
    by (simp add: evidence_validate_def sample_evidence_def checks_eval in_uint_def in_sint_def)
qed

lemma sample_status_valid: "status_validate sample_status = Inr ()"
proof -
  have "validate_state_reason_flags COMPLETED PLAN_COMPLETE 0 0x39 = Inr ()"
    by (simp add: validate_state_reason_flags_def checks_eval has_def terminal_state_def active_state_def)
  then show ?thesis
    by (simp add: status_validate_def sample_status_def status_range_checks_def status_count_checks_def
        status_restore_checks_def status_terminal_checks_def checks_eval in_uint_def in_sint_def
        profile_index_ok_def has_def Let_def)
qed

lemma sample_evidence_packs: "evidence_pack sample_evidence = Inr evidence_wire"
proof -
  have "list_all2 packable hop_event_fmt (hop_event_fields sample_event)"
    by (simp add: hop_event_fmt_def hop_event_fields_def sample_event_def)
  then obtain b where "hop_event_pack sample_event = Inr b"
    using sample_event_valid by (auto simp: hop_event_pack_def pack_record_Inr)
  then have "enc_records hop_event_pack (ev_events sample_evidence) = Inr b"
    by (simp add: enc_records_def sample_evidence_def)
  moreover have "list_all2 packable evidence_fmt (evidence_fields sample_evidence)"
    by (simp add: evidence_fmt_def evidence_fields_def sample_evidence_def)
  ultimately have "\<exists>bs. evidence_pack sample_evidence = Inr bs"
    using sample_evidence_valid by (simp add: evidence_pack_Inr)
  then show ?thesis by (auto simp: evidence_wire_def)
qed

lemma sample_status_packs:
  "\<exists>bs. status_pack sample_status = Inr bs \<and> status_unpack bs = Inr sample_status"
proof -
  have "list_all2 packable status_fmt (status_fields sample_status)"
    by (simp add: status_fmt_eq status_fields_def sample_status_def)
  then obtain bs where bs: "status_pack sample_status = Inr bs"
    using sample_status_valid by (auto simp: status_pack_def pack_record_Inr)
  then show ?thesis
    using hop_statuses.dec_enc [of sample_status bs] by (auto simp: status_pack_def status_unpack_def)
qed

definition zero_columns :: "iq_column list" where
  "zero_columns = [[(0, 0), (0, 0)], [(0, 0), (0, 0)], [(0, 0), (0, 0)]]"

lemma zero_payload: "ci16_dual_rx (replicate 24 0) None = Inr zero_columns"
proof -
  have z: "sle_value (replicate 2 0) = 0" by (simp add: sle_value_def numeral_2_eq_2)
  have s: "slice a b (replicate n (0 :: byte)) = replicate (min (b - a) (n - a)) 0" for a b n
    by (simp add: slice_def min_def)
  have u: "[0..<3] = [0, 1, 2 :: nat]" "[0..<2] = [0, 1 :: nat]" by code_simp+
  have col: "ci16_column 2 (slice (i * 8) (Suc i * 8) (replicate 24 0)) = [(0, 0), (0, 0)]" if "i < 3" for i
  proof -
    have "min (Suc i * 8 - i * 8) (24 - i * 8) = 8" using that by simp
    then show ?thesis by (simp only: ci16_column_def s u) (simp add: s z)
  qed
  show ?thesis using col [of 0] col [of 1] col [of 2]
    by (simp add: ci16_dual_rx_def ci16_columns_def zero_columns_def u)
qed

text \<open>The whole iterator on this session: one block, one visit, a complete receipt.\<close>

definition sample_visit :: hop_visit where
  "sample_visit = \<lparr>hv_visit_index = 0, hv_sweep_index = 0, hv_target_index = 0,
     hv_fastlock_slot = 0, hv_event_sequence = 0, hv_device_event_id = 1, hv_device_event_flags = 3,
     hv_requested_center_hz = 100, hv_requested_lo_hz = 100, hv_requested_if_offset_hz = 0,
     hv_actual_lo_frequency_hz = 100, hv_actual_if_offset_hz = 0,
     hv_invalid_before = \<lparr>hi_visit_index = 0, hi_from_profile_index = 255, hi_to_profile_index = 0,
       hi_transition_before_counter = 0, hi_transition_after_counter = 0, hi_start = 0, hi_end = 1\<rparr>,
     hv_valid_start = 1, hv_valid_end = 3\<rparr>"

definition sample_decoded :: hop_session where
  "sample_decoded = sample_session\<lparr>hx_iterated := True, hx_previous_block_sequence := Some 0,
     hx_previous_block_end := Some 3, hx_previous_event := Some sample_event\<rparr>"

lemma sample_request_profile: "request_profile sample_request 0 = Inr (hd sample_profiles)"
  by (simp add: request_profile_def sample_request_def sample_profiles_eq)

lemma sample_first_profile:
  "hp_fastlock_profile_index (hd sample_profiles) = 0" "hp_lo_hz (hd sample_profiles) = 100"
  "hp_center_hz (hd sample_profiles) = 100"
  by (simp_all add: sample_profiles_eq)

lemma sample_decode:
  "decode_block (sample_session\<lparr>hx_iterated := True\<rparr>) sample_block =
     (sample_decoded, Inr \<lparr>db_evidence = sample_evidence, db_samples = zero_columns\<rparr>)"
proof -
  have E: "evidence_unpack (wb_evidence sample_block) = Inr sample_evidence"
    using evidence_dec_enc(1) [OF sample_evidence_packs] by (simp add: sample_block_def)
  have A: "accept_event s sample_event = Inr (s\<lparr>hx_previous_event := Some sample_event\<rparr>)"
    if "hx_request s = sample_request" "hx_previous_event s = None" for s
    using that sample_request_profile sample_first_profile
    by (simp add: accept_event_def sample_event_def checked_add_u64_def in_uint_def checks_eval Let_def)
      (simp add: sample_request_def checks_eval)
  have V: "validate_evidence (sample_session\<lparr>hx_iterated := True\<rparr>) sample_evidence = (sample_decoded, Inr ())"
    by (simp add: validate_evidence_def sample_decoded_def sample_session_def session_init_def
        sample_evidence_def A checks_eval LOST_EVIDENCE_def has_def Let_def sample_status_def)
      (simp add: sample_request_def)
  show ?thesis
    by (simp add: decode_block_def E V)
      (simp add: accept_stream_generation_def sample_block_def sample_decoded_def sample_session_def
        session_init_def sample_plan_def receiver_ids_def sample_evidence_def zero_payload
        value_error_as_client_def Let_def)
qed

lemma sample_assembly:
  "assemble_block sample_decoded 0 [] \<lparr>db_evidence = sample_evidence, db_samples = zero_columns\<rparr> =
     ([(1, 3, drop 1 zero_columns)], [], None)"
  by (simp add: assemble_block_def sample_decoded_def sample_session_def session_init_def
      sample_evidence_def retain_counter_def sample_event_def retained_samples_def
      sample_request_def sample_plan_def Let_def)

lemma sample_finish:
  "\<exists>receipt. finish_completed sample_backend sample_decoded =
       (sample_decoded\<lparr>hx_visits := [sample_visit], hx_closed := True\<rparr>, Inr receipt) \<and>
     rc_visits receipt = [sample_visit]"
proof -
  obtain bs where bs: "status_pack sample_status = Inr bs" "status_unpack bs = Inr sample_status"
    using sample_status_packs by blast
  have T: "require_terminal_status sample_decoded sample_status COMPLETED = Inr ()"
    by (simp add: require_terminal_status_def sample_decoded_def sample_session_def session_init_def
        sample_status_def LOST_EVIDENCE_def has_def checks_eval restoration_receipt_def)
      (simp add: sample_request_def)
  have V: "visit_from sample_request sample_event 3 = Inr sample_visit"
    using sample_request_profile sample_first_profile
    by (simp add: visit_from_def sample_event_def sample_visit_def Let_def) (simp add: sample_request_def)
  have F: "finish_visit sample_decoded sample_status = Inr sample_visit"
    using T V
    by (simp add: finish_visit_def)
      (simp add: sample_decoded_def sample_session_def session_init_def sample_status_def checks_eval
        sample_request_def)
  have B: "\<exists>facts. backend_receipt_facts sample_backend s = Inr facts" for s
    by (simp add: backend_receipt_facts_def sample_backend_def checks_eval Let_def)
  have "\<exists>receipt. completed_receipt sample_backend (sample_decoded\<lparr>hx_visits := [sample_visit]\<rparr>)
      sample_status sample_event = Inr receipt \<and> rc_visits receipt = [sample_visit]"
    using B [of "sample_decoded\<lparr>hx_visits := [sample_visit]\<rparr>"]
    by (auto simp: completed_receipt_def Let_def checks_eval session_receipt_def sample_decoded_def
        sample_session_def session_init_def sample_defs sample_visit_def sample_plan_def
        valid_sample_count_def invalid_sample_count_def)
  then obtain receipt where "completed_receipt sample_backend (sample_decoded\<lparr>hx_visits := [sample_visit]\<rparr>)
      sample_status sample_event = Inr receipt" "rc_visits receipt = [sample_visit]" by blast
  then show ?thesis using bs F
    by (simp add: finish_completed_def)
      (simp add: sample_backend_def sample_decoded_def sample_session_def session_init_def release_def)
qed

lemma sample_visits:
  "\<exists>s receipt. session_visits sample_backend sample_backend None sample_session [sample_block] Exhausted =
       (s, [(sample_visit, [[(0, 0), (0, 0)], [(0, 0), (0, 0)]])], Inr receipt) \<and>
     rc_visits receipt = [sample_visit]"
proof -
  have C: "claim_iterator sample_session = Inr (sample_session\<lparr>hx_iterated := True\<rparr>)"
    by (simp add: claim_iterator_def sample_session_def session_init_def)
  obtain receipt where R: "finish_completed sample_backend sample_decoded =
      (sample_decoded\<lparr>hx_visits := [sample_visit], hx_closed := True\<rparr>, Inr receipt)"
    "rc_visits receipt = [sample_visit]" using sample_finish by blast
  have "slice 0 2 [[(0, 0), (0, 0)], [(0, 0), (0, 0)]] = [[(0, 0), (0, 0)], [(0, 0), (0, 0 :: int)]]"
    by (simp add: slice_def numeral_2_eq_2)
  then have E: "emit_visits False [sample_visit] [(1, 3, drop 1 zero_columns)] =
      ([], [(sample_visit, [[(0, 0), (0, 0)], [(0, 0), (0, 0)]])], None)"
    by (simp add: sampled_visit_def piece_of_def sample_visit_def zero_columns_def valid_sample_count_def)
  show ?thesis using C sample_decode sample_assembly R E by (simp add: session_visits_def satisfied_def still_wanted_def)
qed

lemma sample_plan_admitted: "plan_init sample_plan = Inr ()"
  by (simp add: plan_init_def sample_plan_def validate_receiver_rate_def plan_dwell_samples_def
      plan_request_def plan_dwell_count_def plan_capture_span_samples_def planned_valid_duty_ppm_def
      sample_profiles_eq checks_eval Let_def request_validate_def in_uint_def in_sint_def
      profile_validate_def)

lemma sample_iteration:
  "\<exists>s ds receipt. iterate_session sample_backend sample_backend None (sample_session\<lparr>hx_iterated := True\<rparr>)
     [sample_block] Exhausted = (s, ds, Inr receipt) \<and> rc_visits receipt = [sample_visit]"
  using sample_finish by (auto simp: iterate_session_def sample_decode satisfied_def)

section \<open>Properties\<close>

text \<open>
  C26: exactness of the IQ assembly. Blocks that carry the device's sample stream at the counters their
  evidence names, cut at arbitrary refill boundaries, are reassembled without loss: every visit
  handed out, however the blocks end and whenever the consumer stops, holds exactly the samples of its
  attested valid span, and when the iterator ends normally the visits handed out are all visits of the
  receipt, in order.
\<close>

theorem visit_iterator_is_exact:
  assumes "request_validate r = Inr ()"
    and "session_visits finishing cleaning n (session_init serial uri p r st) ws stop = (s1, outs, outcome)"
    and "\<forall>w \<in> set ws. streams (session_init serial uri p r st) iq w"
  shows "(\<forall>(v, xs) \<in> set outs. xs = map iq [hv_valid_start v..hv_valid_end v - 1]) \<and>
    (\<forall>receipt. outcome = Inr receipt \<longrightarrow> map fst outs = rc_visits receipt)"
proof -
  let ?s = "(session_init serial uri p r st)\<lparr>hx_iterated := True\<rparr>"
  show ?thesis
  proof (cases "satisfied n 0")
    case True
    then show ?thesis using assms(2) by (auto simp: session_visits_def)
  next
    case False
    then have E: "iterate_visits finishing cleaning n ?s 0 [] ws stop = (s1, outs, outcome)"
      using assms(2) by (simp add: session_visits_def claim_iterator_def session_init_def)
    have I: "session_inv ?s" using session_init_inv [OF assms(1)] by simp
    have W: "\<forall>w \<in> set ws. streams ?s iq w"
      using assms(3) streams_plan [of ?s "session_init serial uri p r st" iq] by simp
    show ?thesis using iterate_visits_exact [OF E I _ _ _ W] by (auto simp: span_def)
  qed
qed

theorem visit_iterator_is_exact_witness:
  "\<exists>s1 outs receipt. session_visits sample_backend sample_backend None sample_session [sample_block] Exhausted
       = (s1, outs, Inr receipt) \<and> outs \<noteq> [] \<and> map fst outs = rc_visits receipt \<and>
     (\<forall>(v, xs) \<in> set outs. xs = map (\<lambda>_. [(0, 0), (0, 0)]) [hv_valid_start v..hv_valid_end v - 1])"
proof -
  obtain s1 receipt where R: "session_visits sample_backend sample_backend None sample_session [sample_block] Exhausted
      = (s1, [(sample_visit, [[(0, 0), (0, 0)], [(0, 0), (0, 0)]])], Inr receipt)"
    using sample_visits by blast
  have "span (\<lambda>_. [(0, 0), (0, 0)]) 0 3 = zero_columns"
    by (simp add: span_def zero_columns_def upto_rec1)
  then have "streams sample_session (\<lambda>_. [(0, 0), (0, 0)]) sample_block"
    using evidence_dec_enc(1) [OF sample_evidence_packs]
    by (simp add: streams_def block_samples_def sample_block_def sample_session_def session_init_def
        sample_plan_def receiver_ids_def zero_payload sample_evidence_def)
  then show ?thesis
    using visit_iterator_is_exact [OF sample_request_valid R [unfolded sample_session_def]] R
    by (auto simp: sample_session_def)
qed

text \<open>
  C33: the state of a session after any blocks: the visits are numbered from zero, follow the eight
  targets in turn, last exactly one dwell each, start at the end of their attested invalid span, and
  leave no counter between one visit and the next.
\<close>

theorem session_visits_tile:
  assumes "request_validate r = Inr ()"
  shows "let vs = hx_visits (fst (run decode_block (session_init serial uri p r st) ws)) in
    (\<forall>i < length vs. hv_visit_index (vs ! i) = int i \<and> hv_target_index (vs ! i) = int i mod 8 \<and>
       hv_sweep_index (vs ! i) = int i div 8 \<and> valid_sample_count (vs ! i) = hr_dwell_samples r \<and>
       hv_valid_start (vs ! i) = hi_end (hv_invalid_before (vs ! i))) \<and>
    (\<forall>i. Suc i < length vs \<longrightarrow> hv_valid_end (vs ! i) = hi_start (hv_invalid_before (vs ! Suc i)))"
proof -
  let ?s = "fst (run decode_block (session_init serial uri p r st) ws)"
  have I: "session_inv ?s" using hop_blocks.inv_run [OF session_init_inv [OF assms]] .
  have R: "hx_request ?s = r" using run_request [of "session_init serial uri p r st" ws]
    by (simp add: session_init_def)
  have "\<exists>b. tiled (hx_visits ?s) b"
    using I by (cases "hx_previous_event ?s") (auto simp: session_inv_def tiled_def)
  then show ?thesis using I R by (auto simp: Let_def session_inv_def visit_ok_def tiled_def)
qed

text \<open>
  The instance: three blocks of three samples, each opening a dwell, so that the second and the third
  event close the visits of the first two.
\<close>

definition hop_request3 :: hop_request where
  "hop_request3 = sample_request\<lparr>hr_dwell_count := 3, hr_capture_span_samples := 6\<rparr>"

definition hop_event3 :: "int \<Rightarrow> hop_event" where
  "hop_event3 k = (if k = 0 then sample_event else \<lparr>he_event_sequence = k, he_dwell_index = k,
     he_transition_before_counter = 3 * k, he_transition_after_counter = 3 * k,
     he_invalid_start_counter = 3 * k, he_invalid_end_counter_exclusive = 3 * k + 1,
     he_from_profile_index = k - 1, he_to_profile_index = k, he_kind = RETUNE, he_flags = 3,
     he_fastlock_slot = k, he_actual_lo_frequency_hz = 100 + k, he_actual_if_offset_hz = 0,
     he_device_event_id = k + 1\<rparr>)"

definition hop_evidence3 :: "int \<Rightarrow> hop_evidence" where
  "hop_evidence3 k = sample_evidence\<lparr>ev_buffer_sequence := k, ev_block_first_counter := 3 * k,
     ev_block_end_counter_exclusive := 3 * k + 3, ev_events := [hop_event3 k]\<rparr>"

definition hop_block3 :: "int \<Rightarrow> wire_block" where
  "hop_block3 k = sample_block\<lparr>wb_evidence := projr (evidence_pack (hop_evidence3 k))\<rparr>"

lemma hop_request3_valid: "request_validate hop_request3 = Inr ()"
  by (simp add: request_validate_def hop_request3_def sample_request_def checks_eval in_uint_def in_sint_def
      sample_profiles_eq profile_validate_def)

lemma hop_block3_reads:
  assumes "k \<in> {0, 1, 2}"
  shows "evidence_unpack (wb_evidence (hop_block3 k)) = Inr (hop_evidence3 k)"
proof -
  have f: "list_all2 packable hop_event_fmt (hop_event_fields (hop_event3 k))" "hop_event_validate (hop_event3 k) = Inr ()"
    using assms
    by (auto simp: hop_event_fmt_def hop_event_fields_def hop_event3_def sample_event_def hop_event_validate_def
        checks_eval in_uint_def in_sint_def)
  then obtain b where "hop_event_pack (hop_event3 k) = Inr b"
    by (auto simp: hop_event_pack_def pack_record_Inr)
  then have "enc_records hop_event_pack (ev_events (hop_evidence3 k)) = Inr b"
    by (simp add: enc_records_def hop_evidence3_def)
  moreover have "list_all2 packable evidence_fmt (evidence_fields (hop_evidence3 k))"
    using assms by (auto simp: evidence_fmt_def evidence_fields_def hop_evidence3_def sample_evidence_def)
  moreover have "evidence_validate (hop_evidence3 k) = Inr ()"
  proof -
    have "validate_state_reason_flags RUNNING REASON_NONE 0 0x20 = Inr ()"
      by (simp add: validate_state_reason_flags_def checks_eval has_def terminal_state_def active_state_def)
    then show ?thesis using assms f(2)
      by (auto simp: evidence_validate_def hop_evidence3_def sample_evidence_def checks_eval in_uint_def in_sint_def)
  qed
  ultimately have "\<exists>bs. evidence_pack (hop_evidence3 k) = Inr bs" by (simp add: evidence_pack_Inr)
  then show ?thesis using evidence_dec_enc(1) by (auto simp: hop_block3_def)
qed

lemma hop_accept3:
  assumes "k \<in> {0, 1, 2}" and "hx_request s = hop_request3"
    and "hx_previous_event s = (if k = 0 then None else Some (hop_event3 (k - 1)))"
  shows "\<exists>vs. accept_event s (hop_event3 k) = Inr (s\<lparr>hx_visits := hx_visits s @ vs, hx_previous_event := Some (hop_event3 k)\<rparr>)
    \<and> length vs = (if k = 0 then 0 else 1)"
proof -
  have p: "request_profile hop_request3 j = Inr (sample_profiles ! nat j)" if "j \<in> {0, 1, 2}" for j
    using that by (auto simp: request_profile_def hop_request3_def sample_request_def sample_profiles_eq)
  have q: "hp_fastlock_profile_index (sample_profiles ! nat j) = j" "hp_lo_hz (sample_profiles ! nat j) = 100 + j"
    if "j \<in> {0, 1, 2}" for j
    using that by (auto simp: sample_profiles_eq)
  have r: "hr_transition_guard_samples hop_request3 = 1" "hr_if_offset_hz hop_request3 = 0" "hr_dwell_samples hop_request3 = 2"
    by (simp_all add: hop_request3_def sample_request_def)
  consider "k = 0" | "k = 1" | "k = 2" using assms(1) by auto
  then show ?thesis
  proof cases
    case 1
    then show ?thesis using assms(2,3) p [of 0] q [of 0]
      by (intro exI [of _ "[]"])
        (simp add: accept_event_def hop_event3_def sample_event_def checked_add_u64_def in_uint_def checks_eval Let_def r)
  next
    case 2
    then show ?thesis using assms(2,3) p [of 0] p [of 1] q [of 1]
      by (auto simp: accept_event_def hop_event3_def sample_event_def checked_add_u64_def in_uint_def checks_eval Let_def r
          visit_from_def)
  next
    case 3
    then show ?thesis using assms(2,3) p [of 1] p [of 2] q [of 2]
      by (auto simp: accept_event_def hop_event3_def sample_event_def checked_add_u64_def in_uint_def checks_eval Let_def r
          visit_from_def)
  qed
qed

definition hop_state3 :: "int \<Rightarrow> nat \<Rightarrow> hop_session \<Rightarrow> bool" where
  "hop_state3 k n s \<longleftrightarrow> hx_request s = hop_request3 \<and> hx_plan s = sample_plan \<and> hx_initial_status s = sample_status
     \<and> hx_previous_block_sequence s = (if k = 0 then None else Some (k - 1))
     \<and> hx_previous_block_end s = (if k = 0 then None else Some (3 * k))
     \<and> hx_previous_event s = (if k = 0 then None else Some (hop_event3 (k - 1)))
     \<and> hx_stream_generation s = None \<and> length (hx_visits s) = n"

lemma hop_decode3:
  assumes "k \<in> {0, 1, 2}" and "hop_state3 k n s"
  shows "\<exists>s1 d. decode_block s (hop_block3 k) = (s1, Inr d) \<and> hop_state3 (k + 1) (if k = 0 then n else Suc n) s1"
proof -
  let ?s = "s\<lparr>hx_previous_block_sequence := Some k, hx_previous_block_end := Some (3 * k + 3)\<rparr>"
  obtain vs where vs: "accept_event ?s (hop_event3 k)
      = Inr (?s\<lparr>hx_visits := hx_visits s @ vs, hx_previous_event := Some (hop_event3 k)\<rparr>)" "length vs = (if k = 0 then 0 else 1)"
    using hop_accept3 [OF assms(1), of ?s] assms(2) by (auto simp: hop_state3_def)
  let ?t = "?s\<lparr>hx_visits := hx_visits s @ vs, hx_previous_event := Some (hop_event3 k)\<rparr>"
  have V: "validate_evidence s (hop_evidence3 k) = (?t, Inr ())"
    using assms vs(1)
    by (auto simp: validate_evidence_def hop_state3_def hop_evidence3_def sample_evidence_def checks_eval LOST_EVIDENCE_def
        has_def Let_def sample_status_def hop_request3_def sample_request_def)
  have "wb_iq_payload (hop_block3 k) = replicate 24 0" "wb_stream_generation (hop_block3 k) = None"
    by (simp_all add: hop_block3_def sample_block_def)
  moreover have "hx_plan ?t = sample_plan" "hx_stream_generation ?t = None" using assms(2) by (simp_all add: hop_state3_def)
  ultimately have "\<exists>d. decode_block s (hop_block3 k) = (?t, Inr d)"
    by (simp add: decode_block_def hop_block3_reads [OF assms(1)] V)
      (simp add: accept_stream_generation_def receiver_ids_def sample_plan_def hop_evidence3_def sample_evidence_def
        zero_payload value_error_as_client_def Let_def)
  moreover have "hop_state3 (k + 1) (if k = 0 then n else Suc n) ?t"
    using assms vs(2) by (auto simp: hop_state3_def)
  ultimately show ?thesis by blast
qed

lemma hop_run3:
  "\<exists>s ds. run decode_block (session_init ''s'' ''u'' sample_plan hop_request3 sample_status)
     [hop_block3 0, hop_block3 1, hop_block3 2] = (s, map Inr ds) \<and> length (hx_visits s) = 2"
proof -
  have "hop_state3 0 0 (session_init ''s'' ''u'' sample_plan hop_request3 sample_status)"
    by (simp add: hop_state3_def session_init_def)
  then obtain s1 d1 where 1: "decode_block (session_init ''s'' ''u'' sample_plan hop_request3 sample_status) (hop_block3 0) = (s1, Inr d1)"
    "hop_state3 1 0 s1" using hop_decode3 [of 0] by fastforce
  obtain s2 d2 where 2: "decode_block s1 (hop_block3 1) = (s2, Inr d2)" "hop_state3 2 1 s2"
    using hop_decode3 [OF _ 1(2)] by fastforce
  obtain s3 d3 where 3: "decode_block s2 (hop_block3 2) = (s3, Inr d3)" "hop_state3 3 2 s3"
    using hop_decode3 [OF _ 2(2)] by (fastforce simp: numeral_2_eq_2)
  show ?thesis using 1 2 3 by (intro exI [of _ s3] exI [of _ "[d1, d2, d3]"]) (simp add: hop_state3_def)
qed

theorem session_visits_tile_witness:
  "\<exists>v0 v1. hx_visits (fst (run decode_block (session_init ''s'' ''u'' sample_plan hop_request3 sample_status)
       [hop_block3 0, hop_block3 1, hop_block3 2])) = [v0, v1] \<and>
     hv_target_index v0 = 0 \<and> hv_target_index v1 = 1 \<and> valid_sample_count v0 = 2 \<and> valid_sample_count v1 = 2 \<and>
     hv_valid_end v0 = hi_start (hv_invalid_before v1)"
proof -
  let ?vs = "hx_visits (fst (run decode_block (session_init ''s'' ''u'' sample_plan hop_request3 sample_status)
       [hop_block3 0, hop_block3 1, hop_block3 2]))"
  have "length ?vs = 2" using hop_run3 by fastforce
  then obtain v0 v1 where v: "?vs = [v0, v1]" by (auto simp: length_Suc_conv numeral_2_eq_2)
  note T = session_visits_tile [OF hop_request3_valid, of "''s''" "''u''" sample_plan sample_status
      "[hop_block3 0, hop_block3 1, hop_block3 2]", unfolded v Let_def]
  have "hr_dwell_samples hop_request3 = 2" by (simp add: hop_request3_def sample_request_def)
  then show ?thesis using T v by (force simp: less_Suc_eq)
qed

text \<open>
  C28: a session that ends normally accounts for every device sample: each counter from the first to
  the final one lies in the invalid or the valid span of exactly one visit of the receipt, the two
  totals add up to the duty denominator, the final status attests the restoration of the
  radio and reports no lost evidence, and the session is closed.
\<close>

theorem completed_session_partitions_counters:
  assumes "session_inv s" and "iterate_session finishing cleaning n s ws stop = (s1, ds, Inr receipt)"
  shows "(\<forall>c. hs_first_counter (rc_status receipt) \<le> c \<and> c < hs_final_counter (rc_status receipt) \<longrightarrow>
      (\<exists>!i. i < length (rc_visits receipt) \<and> holds c (rc_visits receipt ! i))) \<and>
    rc_valid_sample_count receipt + rc_transition_invalid_sample_count receipt
      = hs_final_counter (rc_status receipt) - hs_first_counter (rc_status receipt) \<and>
    has (hs_flags (rc_status receipt)) ST_RESTORE_SUCCEEDED \<and>
    \<not> has (hs_flags (rc_status receipt)) LOST_EVIDENCE \<and> hx_closed s1"
proof -
  obtain s2 ds2 where D: "decoded_blocks n s ws stop = (s2, ds2, None)"
    and F: "finish_completed finishing s2 = (s1, Inr receipt)"
    using assms(2) by (auto simp: iterate_session_def split: prod.splits option.splits sum.splits if_splits)
  have I: "session_inv s2" using decoded_blocks_inv [OF assms(1), of n ws stop] by (simp add: D)
  note V = finish_completed_visits [OF F I]
  obtain st where st: "rc_status receipt = st" and T: "require_terminal_status s2 st COMPLETED = Inr ()"
    and first: "hs_first_counter st = hi_start (hv_invalid_before (hd (rc_visits receipt)))"
    and sums: "rc_valid_sample_count receipt = sum_list (map valid_sample_count (rc_visits receipt))"
      "rc_transition_invalid_sample_count receipt = sum_list (map invalid_sample_count (rc_visits receipt))"
    by (rule finish_completed_facts [OF F])
  have R: "request_validate (hx_request s2) = Inr ()" using I by (simp add: session_inv_def)
  note N = visits_nonempty [OF R V(1)]
  show ?thesis
    using tiled_exactly_one [OF V(2) N(2) V(3)] sum_tiled [OF V(2) N(3) V(3)] T first sums
      finish_completed_closed [OF F]
    by (auto simp: st require_terminal_status_def checks_ok_iff restoration_receipt_def split: if_splits)
qed

theorem completed_session_partitions_counters_witness:
  "\<exists>s ds receipt. iterate_session sample_backend sample_backend None (sample_session\<lparr>hx_iterated := True\<rparr>)
     [sample_block] Exhausted = (s, ds, Inr receipt) \<and> hx_closed s \<and> rc_visits receipt = [sample_visit] \<and>
     rc_valid_sample_count receipt + rc_transition_invalid_sample_count receipt
       = hs_final_counter (rc_status receipt) - hs_first_counter (rc_status receipt)"
proof -
  have I: "session_inv (sample_session\<lparr>hx_iterated := True\<rparr>)"
    using session_init_inv [OF sample_request_valid] by (simp add: sample_session_def)
  obtain s ds receipt where R: "iterate_session sample_backend sample_backend None
      (sample_session\<lparr>hx_iterated := True\<rparr>) [sample_block] Exhausted = (s, ds, Inr receipt)"
    and v: "rc_visits receipt = [sample_visit]" using sample_iteration by blast
  show ?thesis using completed_session_partitions_counters [OF I R] R v by blast
qed

text \<open>
  The coverage table of a completed session is the round-robin one: of \<open>n\<close> visits, target \<open>k\<close>
  received \<open>(n + 7 - k) div 8\<close>, so any two targets differ by at most one visit.
\<close>

lemma coverage_is_round_robin:
  assumes "session_inv s" and "iterate_session finishing cleaning n s ws stop = (s1, ds, Inr receipt)" and "k < 8"
  shows "tc_visit_count (rc_target_coverage receipt ! k) = int ((length (rc_visits receipt) + 7 - k) div 8)"
proof -
  obtain s2 ds2 where D: "decoded_blocks n s ws stop = (s2, ds2, None)"
    and F: "finish_completed finishing s2 = (s1, Inr receipt)"
    using assms(2) by (auto simp: iterate_session_def split: prod.splits option.splits sum.splits if_splits)
  have I: "session_inv s2" using decoded_blocks_inv [OF assms(1), of n ws stop] by (simp add: D)
  have "rc_target_coverage receipt = coverage_of (rc_visits receipt)"
    by (rule finish_completed_facts [OF F])
  then show ?thesis using coverage_count [OF _ assms(3)] finish_completed_visits(1) [OF F I]
    by (simp add: visit_ok_def)
qed

theorem coverage_is_round_robin_witness:
  "\<exists>s ds receipt. iterate_session sample_backend sample_backend None (sample_session\<lparr>hx_iterated := True\<rparr>)
     [sample_block] Exhausted = (s, ds, Inr receipt) \<and> tc_visit_count (rc_target_coverage receipt ! 0) = 1"
proof -
  have I: "session_inv (sample_session\<lparr>hx_iterated := True\<rparr>)"
    using session_init_inv [OF sample_request_valid] by (simp add: sample_session_def)
  obtain s ds receipt where R: "iterate_session sample_backend sample_backend None
      (sample_session\<lparr>hx_iterated := True\<rparr>) [sample_block] Exhausted = (s, ds, Inr receipt)"
    and v: "rc_visits receipt = [sample_visit]" using sample_iteration by blast
  show ?thesis using coverage_is_round_robin [OF I R, of 0] R v by simp
qed

text \<open>
  C34: a session never stays open: whatever the backend answers, whatever blocks arrive, however the
  backend's blocks end (exhausted or with any exception) and whenever the consumer drops a generator
  that has started, iterating blocks or visits leaves the session closed, and so do cancelling and
  closing. The exception of a backend that breaks reaches the consumer unchanged. A generator that was
  never started leaves the session as it was, and a closed session refuses to be iterated or cancelled
  again.
\<close>

theorem session_always_released:
  "(\<not> satisfied n 0 \<longrightarrow> hx_closed (fst (iterate_session finishing cleaning n s ws stop))) \<and>
   (\<not> satisfied n 0 \<and> \<not> hx_iterated s \<longrightarrow>
      hx_closed (fst (session_blocks finishing cleaning n s ws stop)) \<and>
      hx_closed (fst (session_visits finishing cleaning n s ws stop))) \<and>
   (decoded_blocks None s ws Exhausted = (s1, ds, None) \<longrightarrow>
      snd (iterate_session finishing cleaning None s ws (Breaks e)) = (ds, Inl e)) \<and>
   (satisfied n 0 \<longrightarrow> fst (session_blocks finishing cleaning n s ws stop) = s \<and>
      fst (session_visits finishing cleaning n s ws stop) = s) \<and>
   hx_closed (fst (cancel_session b s)) \<and> hx_closed (fst (close_session b s)) \<and>
   (\<not> satisfied n 0 \<and> hx_closed s \<longrightarrow>
      session_blocks finishing cleaning n s ws stop
        = (s, [], Inl (HopClientError ''persistent-hop session is closed'')) \<and>
      session_visits finishing cleaning n s ws stop
        = (s, [], Inl (HopClientError ''persistent-hop session is closed''))) \<and>
   (hx_closed s \<longrightarrow> cancel_session b s
      = (s, Inl (HopClientError ''persistent-hop session is already closed'')))"
proof -
  have "\<not> satisfied n 0 \<Longrightarrow> \<not> hx_iterated s \<Longrightarrow> hx_closed (fst (session_blocks finishing cleaning n s ws stop))"
    by (simp add: session_blocks_def claim_iterator_def iterate_session_closed split: sum.splits)
  moreover have "\<not> satisfied n 0 \<Longrightarrow> \<not> hx_iterated s \<Longrightarrow> hx_closed (fst (session_visits finishing cleaning n s ws stop))"
    by (simp add: session_visits_def claim_iterator_def iterate_visits_closed split: sum.splits)
  moreover have "snd (iterate_session finishing cleaning None s ws (Breaks e)) = (ds, Inl e)"
    if "decoded_blocks None s ws Exhausted = (s1, ds, None)"
    using decoded_blocks_break [OF that] by (simp add: iterate_session_def satisfied_def)
  ultimately show ?thesis
    using iterate_session_closed cancel_session_closed [of b s]
    by (auto simp: close_session_def session_visits_def session_blocks_def claim_iterator_def cancel_session_def hc_def
        split: prod.splits)
qed

text \<open>
  Three ends of the sample session: the backend breaks after the first block, the consumer drops the
  generator at the first block, and a session already closed.
\<close>

theorem session_always_released_witness:
  "(\<exists>s. iterate_session sample_backend sample_backend None (sample_session\<lparr>hx_iterated := True\<rparr>) [sample_block]
      (Breaks KeyboardInterrupt)
      = (s, [\<lparr>db_evidence = sample_evidence, db_samples = zero_columns\<rparr>], Inl KeyboardInterrupt) \<and> hx_closed s) \<and>
   (\<exists>s. iterate_session sample_backend sample_backend (Some 1) (sample_session\<lparr>hx_iterated := True\<rparr>)
      [sample_block, sample_block] Exhausted
      = (s, [\<lparr>db_evidence = sample_evidence, db_samples = zero_columns\<rparr>], Inl GeneratorExit) \<and> hx_closed s) \<and>
   session_visits sample_backend sample_backend None (sample_session\<lparr>hx_closed := True\<rparr>) [] Exhausted
     = (sample_session\<lparr>hx_closed := True\<rparr>, [], Inl (HopClientError ''persistent-hop session is closed''))"
proof -
  let ?s = "sample_session\<lparr>hx_iterated := True\<rparr>" and ?d = "\<lparr>db_evidence = sample_evidence, db_samples = zero_columns\<rparr>"
  have closed: "hx_closed (sample_session\<lparr>hx_closed := True\<rparr>)" by simp
  have wants: "\<not> satisfied None 0" "\<not> satisfied (Some 1) 0" by (simp_all add: satisfied_def)
  have D: "decoded_blocks None ?s [sample_block] Exhausted = (sample_decoded, [?d], None)"
    by (simp add: sample_decode satisfied_def)
  have "snd (iterate_session sample_backend sample_backend None ?s [sample_block] (Breaks KeyboardInterrupt))
      = ([?d], Inl KeyboardInterrupt)"
    using session_always_released [of None sample_backend sample_backend ?s "[sample_block]" "Breaks KeyboardInterrupt"
        sample_decoded "[?d]" KeyboardInterrupt sample_backend] D by blast
  moreover have "hx_closed (fst (iterate_session sample_backend sample_backend None ?s [sample_block] (Breaks KeyboardInterrupt)))"
    using session_always_released [of None sample_backend sample_backend ?s "[sample_block]" "Breaks KeyboardInterrupt"] wants
    by blast
  moreover have "snd (iterate_session sample_backend sample_backend (Some 1) ?s [sample_block, sample_block] Exhausted)
      = ([?d], Inl GeneratorExit)"
    by (simp add: iterate_session_def sample_decode satisfied_def)
  moreover have "hx_closed (fst (iterate_session sample_backend sample_backend (Some 1) ?s [sample_block, sample_block] Exhausted))"
    using session_always_released [of "Some 1" sample_backend sample_backend ?s "[sample_block, sample_block]" Exhausted] wants
    by blast
  moreover have "session_visits sample_backend sample_backend None (sample_session\<lparr>hx_closed := True\<rparr>) [] Exhausted
     = (sample_session\<lparr>hx_closed := True\<rparr>, [], Inl (HopClientError ''persistent-hop session is closed''))"
    using session_always_released [of None sample_backend sample_backend "sample_session\<lparr>hx_closed := True\<rparr>" "[]" Exhausted] wants closed
    by blast
  ultimately show ?thesis by (metis prod.collapse)
qed

text \<open>
  plan admission is sound: every plan whose constructor accepts it, with compiled profile
  checksums, yields for every non-zero session identifier a request that passes validation, spans
  exactly 2500 dwells, and packs into 288 bytes.
\<close>

theorem admitted_plan_yields_valid_request:
  assumes "plan_init p = Inr ()" and "\<forall>q \<in> set (pl_profiles p). hp_profile_crc32 q \<noteq> 0"
    and "0 < session_id" and "session_id < 2 ^ 64"
  shows "\<exists>r bs. plan_request p session_id = Inr r \<and> request_validate r = Inr () \<and>
    hr_session_id r = session_id \<and> hr_dwell_count r = 2500 \<and>
    hr_capture_span_samples r = 2500 * hr_dwell_samples r \<and>
    request_pack r = Inr bs \<and> length bs = 288"
proof -
  obtain r where r: "plan_request p session_id = Inr r" and v: "request_validate r = Inr ()"
    using plan_request_valid [OF assms] by blast
  have "hr_session_id r = session_id \<and> hr_dwell_count r = 2500 \<and>
      hr_capture_span_samples r = 2500 * hr_dwell_samples r"
    using r plan_geometry [OF assms(1)] by (auto simp: plan_request_def)
  then show ?thesis using r v valid_request_packs [OF v] by blast
qed

theorem admitted_plan_yields_valid_request_witness:
  "\<exists>r bs. plan_request sample_plan 7 = Inr r \<and> hr_dwell_count r = 2500 \<and>
     request_pack r = Inr bs \<and> length bs = 288"
  using admitted_plan_yields_valid_request [OF sample_plan_admitted, of 7]
  by (auto simp: sample_plan_def sample_profiles_eq)

text \<open>
  The three wire records of a session are bijective encodings: \<open>unpack\<close> undoes \<open>pack\<close>, every
  byte string \<open>unpack\<close> accepts is the one \<open>pack\<close> produces, and the lengths are the protocol's.
\<close>

lemma hop_records_bijective:
  "(request_pack r = Inr bs \<longleftrightarrow> request_unpack bs = Inr r) \<and>
   (evidence_pack v = Inr es \<longleftrightarrow> evidence_unpack es = Inr v) \<and>
   (status_pack s = Inr ss \<longleftrightarrow> status_unpack ss = Inr s) \<and>
   (evidence_pack v = Inr es \<longrightarrow> length es = 64 + 80 * length (ev_events v))"
  using request_dec_enc request_enc_dec evidence_dec_enc evidence_enc_dec
    hop_statuses.dec_enc hop_statuses.enc_dec
  unfolding status_pack_def status_unpack_def by blast

theorem hop_records_bijective_witness:
  "evidence_pack sample_evidence = Inr evidence_wire \<and> length evidence_wire = 144"
  using hop_records_bijective [of sample_request "[]" sample_evidence evidence_wire sample_status "[]"]
    sample_evidence_packs
  by (simp add: sample_evidence_def)

text \<open>
  evidence that decodes is ordered: its block interval is non-empty, it holds at most eight
  events, and consecutive events have consecutive sequence numbers and dwell indices with
  disjoint invalid spans.
\<close>

theorem accepted_evidence_is_ordered:
  assumes "evidence_unpack bs = Inr v"
  shows "ev_block_first_counter v < ev_block_end_counter_exclusive v \<and> length (ev_events v) \<le> 8 \<and>
    (\<forall>i. Suc i < length (ev_events v) \<longrightarrow>
       he_event_sequence (ev_events v ! Suc i) = he_event_sequence (ev_events v ! i) + 1 \<and>
       he_dwell_index (ev_events v ! Suc i) = he_dwell_index (ev_events v ! i) + 1 \<and>
       he_invalid_end_counter_exclusive (ev_events v ! i) \<le> he_invalid_start_counter (ev_events v ! Suc i))"
proof -
  have V: "evidence_validate v = Inr ()"
    using evidence_enc_dec [OF assms] by (simp add: evidence_pack_Inr)
  then have E: "validate_events None (ev_events v) = Inr ()" and n: "length (ev_events v) \<le> 8"
    by (auto simp: evidence_validate_def bindE_Inr_iff checks_ok_iff)
  show ?thesis
    using n evidence_unpack_events(2) [OF assms] validate_events_ordered [OF E] by (auto simp: follows_def)
qed

theorem accepted_evidence_is_ordered_witness:
  "\<exists>v. evidence_unpack evidence_wire = Inr v \<and> length (ev_events v) \<le> 8"
  using accepted_evidence_is_ordered evidence_dec_enc(1) [OF sample_evidence_packs] by blast

text \<open>
  An accepted status cannot claim more than it attests: the terminal flag is set exactly in the
  three terminal states, a terminal status always records a restoration attempt that does not
  start before the last sample, and a successful restoration has a zero error code and a
  frequency readback.
\<close>

lemma accepted_status_is_consistent:
  assumes "status_unpack bs = Inr s"
  shows "has (hs_flags s) ST_TERMINAL = terminal_state (hs_state s) \<and>
    (terminal_state (hs_state s) \<longrightarrow> has (hs_flags s) ST_RESTORE_ATTEMPTED \<and>
       hs_first_counter s \<le> hs_final_counter s \<and> hs_final_counter s \<le> hs_restore_before_counter s \<and>
       hs_last_block_end_counter s \<le> hs_restore_before_counter s) \<and>
    (has (hs_flags s) ST_RESTORE_SUCCEEDED \<longrightarrow>
       hs_restore_error_code s = 0 \<and> hs_restored_lo_frequency_hz s \<noteq> 0 \<and>
       hs_restore_before_counter s \<le> hs_restore_after_counter s)"
proof -
  have V: "status_validate s = Inr ()"
    using hop_statuses.enc_dec [of bs s] assms
    by (auto simp: status_unpack_def status_pack_def pack_record_Inr)
  have R: "checks (status_restore_checks s) = Inr ()" and T: "checks (status_terminal_checks s) = Inr ()"
    using status_validate_facts(3) [OF V] by (simp_all add: checks_append bindE_Inr_iff)
  have t: "hs_first_counter s \<le> hs_final_counter s \<and> hs_final_counter s \<le> hs_restore_before_counter s \<and>
      hs_last_block_end_counter s \<le> hs_restore_before_counter s"
    if "has (hs_flags s) ST_TERMINAL" and "has (hs_flags s) ST_RESTORE_ATTEMPTED"
    using T that by (simp add: status_terminal_checks_def checks_ok_iff Let_def not_less)
  have r: "hs_restore_error_code s = 0 \<and> hs_restored_lo_frequency_hz s \<noteq> 0 \<and>
      hs_restore_before_counter s \<le> hs_restore_after_counter s"
    if "has (hs_flags s) ST_RESTORE_SUCCEEDED"
    using R that by (simp add: status_restore_checks_def checks_ok_iff Let_def not_less)
  show ?thesis using status_terminal_flag [OF V] t r by simp
qed

theorem accepted_status_is_consistent_witness:
  "\<exists>bs. status_unpack bs = Inr sample_status \<and> hs_restored_lo_frequency_hz sample_status \<noteq> 0 \<and>
     has (hs_flags sample_status) ST_TERMINAL"
proof -
  obtain bs where bs: "status_unpack bs = Inr sample_status" using sample_status_packs by blast
  then show ?thesis using accepted_status_is_consistent [OF bs]
    by (auto simp: sample_status_def terminal_state_def has_def)
qed

end
