(* ===== verification/Adaptive_Properties.thy ===== *)
theory Adaptive_Properties
  imports Adaptive_Stream_Facts Hop_Properties
begin

text \<open>
  The properties of the adaptive hop records and of the adaptive stream. The stream properties
  hold for every decoder of checked evidence (\<open>evidence_source\<close>), which the interpretations
  \<open>evidence_v2\<close> and \<open>evidence_v3\<close> show both versions of the program are.
\<close>

section \<open>Records\<close>

text \<open>
  The version 2 records (request, evidence with its decisions, status) are bijective encodings:
  a record packs into a byte string exactly when that byte string unpacks to it, although the
  implementation reuses the version 1 codecs by patching headers and interleaving events with
  decisions.
\<close>

lemma adaptive_records_bijective:
  "(adaptive_request_pack r = Inr bs \<longleftrightarrow> adaptive_request_unpack bs = Inr r) \<and>
   (adaptive_evidence_pack v = Inr cs \<longleftrightarrow> adaptive_evidence_unpack cs = Inr v) \<and>
   (adaptive_status_pack s = Inr ds \<longleftrightarrow> adaptive_status_unpack ds = Inr s) \<and>
   (policy_pack p = Inr ps \<longleftrightarrow> policy_unpack ps = Inr p)"
  using adaptive_requests.accepts_iff [of bs r] adaptive_evidences.accepts_iff [of cs v]
    adaptive_statuses.stamped.accepts_iff [of ds s] policies.accepts_iff [of ps p]
  by (auto simp: policy_pack_def policy_unpack_def)

text \<open>
  The host-adaptive records (requests of versions 3 and 4, evidence, status, both feedback
  records) are bijective encodings as well; in particular a feedback record is accepted only when
  every constant of its decimation geometry and every reserved byte has the value the packer writes.
\<close>

lemma host_records_bijective:
  "(host_request3_pack r3 = Inr b3 \<longleftrightarrow> host_request3_unpack b3 = Inr r3) \<and>
   (host_request4_pack r4 = Inr b4 \<longleftrightarrow> host_request4_unpack b4 = Inr r4) \<and>
   (host_evidence_pack v = Inr cs \<longleftrightarrow> host_evidence_unpack cs = Inr v) \<and>
   (host_status_pack s = Inr ds \<longleftrightarrow> host_status_unpack ds = Inr s) \<and>
   (feedback1_pack f1 = Inr c1 \<longleftrightarrow> feedback1_unpack c1 = Inr f1) \<and>
   (feedback2_pack f2 = Inr c2 \<longleftrightarrow> feedback2_unpack c2 = Inr f2)"
  using requests3.requests.accepts_iff [of b3 r3] requests4.requests.accepts_iff [of b4 r4]
    host_evidences.stamped.accepts_iff [of cs v] host_statuses.stamped.accepts_iff [of ds s]
    feedbacks1.accepts_iff [of c1 f1] feedbacks2.accepts_iff [of c2 f2]
  by (auto simp: host_request3_pack_def host_request3_unpack_def host_request4_pack_def host_request4_unpack_def
      feedback1_pack_def feedback1_unpack_def feedback2_pack_def feedback2_unpack_def)

text \<open>
  C32: Every wire record of persistent, adaptive and host-adaptive hopping is a bijective encoding: a
  record packs into a byte string exactly when that byte string unpacks to it.
\<close>

theorem hop_wire_records_bijective:
  "(request_pack r1 = Inr b1 \<longleftrightarrow> request_unpack b1 = Inr r1)
   \<and> (evidence_pack v1 = Inr e1 \<longleftrightarrow> evidence_unpack e1 = Inr v1)
   \<and> (status_pack s1 = Inr d1 \<longleftrightarrow> status_unpack d1 = Inr s1)
   \<and> (adaptive_request_pack r2 = Inr b2 \<longleftrightarrow> adaptive_request_unpack b2 = Inr r2)
   \<and> (adaptive_evidence_pack v2 = Inr e2 \<longleftrightarrow> adaptive_evidence_unpack e2 = Inr v2)
   \<and> (adaptive_status_pack s2 = Inr d2 \<longleftrightarrow> adaptive_status_unpack d2 = Inr s2)
   \<and> (policy_pack p = Inr ps \<longleftrightarrow> policy_unpack ps = Inr p)
   \<and> (host_request3_pack r3 = Inr b3 \<longleftrightarrow> host_request3_unpack b3 = Inr r3)
   \<and> (host_request4_pack r4 = Inr b4 \<longleftrightarrow> host_request4_unpack b4 = Inr r4)
   \<and> (host_evidence_pack v3 = Inr e3 \<longleftrightarrow> host_evidence_unpack e3 = Inr v3)
   \<and> (host_status_pack s3 = Inr d3 \<longleftrightarrow> host_status_unpack d3 = Inr s3)
   \<and> (feedback1_pack f1 = Inr c1 \<longleftrightarrow> feedback1_unpack c1 = Inr f1)
   \<and> (feedback2_pack f2 = Inr c2 \<longleftrightarrow> feedback2_unpack c2 = Inr f2)"
  using hop_records_bijective [of r1 b1 v1 e1 s1 d1] adaptive_records_bijective [of r2 b2 v2 e2 s2 d2 p ps]
    host_records_bijective [of r3 b3 r4 b4 v3 e3 s3 d3 f1 c1 f2 c2]
  by blast

section \<open>A sample session\<close>

text \<open>
  One block of three samples whose terminal evidence reports the startup event: its transition
  covers counter 0 and its dwell counters 1 and 2.
\<close>

definition sample_choice :: adaptive_choice where
  "sample_choice = \<lparr>ac_decision_counter = 0, ac_basis_visit = NO_VISIT, ac_cooldown_remaining_samples = 0,
     ac_generation = 1, ac_proposed_target = 0, ac_reason = 0, ac_active_mask = 0, ac_quiet_mask = 0,
     ac_consecutive_misses = 0, ac_mode = 2\<rparr>"

definition last_evidence :: hop_evidence where
  "last_evidence = sample_evidence\<lparr>ev_flags := 0x39, ev_state := COMPLETED, ev_reason := PLAN_COMPLETE\<rparr>"

definition sample_iq :: "int \<Rightarrow> iq_column" where
  "sample_iq k = [(k, - k)]"

definition sample_stream :: stream_config where
  "sample_stream = \<lparr>sc_geometry = sample_request, sc_status_pack = (\<lambda>_. Inr []),
     sc_decode_evidence = (\<lambda>_. Inr (last_evidence, [sample_choice])),
     sc_decode_samples = (\<lambda>_. Inr [sample_iq 0, sample_iq 1, sample_iq 2]), sc_bytes_per_sample = 4,
     sc_samples_per_block = 3, sc_minimum_valid_duty_ppm = 500000, sc_allow_counter_gaps = False,
     sc_close_visits_from_geometry = False, sc_maximum_retained_samples = 11\<rparr>"

definition stream_block :: wire_block where
  "stream_block = \<lparr>wb_evidence = [], wb_iq_payload = replicate 12 0, wb_stream_generation = Some 1\<rparr>"

definition sample_result :: "adaptive_receipt \<times> (adaptive_visit \<times> iq_column list) list" where
  "sample_result = projr (snd (stream_finish sample_stream
     (fst (run (stream_feed sample_stream) stream_start [stream_block])) sample_status))"

lemma sample_finished:
  "finished sample_stream [stream_block] sample_status (fst sample_result) (snd sample_result)"
  by code_simp

lemma sample_source: "evidence_source (sc_decode_evidence sample_stream)"
  by unfold_locales (auto simp: sample_stream_def last_evidence_def sample_defs)

lemma sample_carries: "\<forall>w \<in> set [stream_block]. carries sample_stream sample_iq w"
  by (simp add: carries_def sample_stream_def last_evidence_def sample_defs span_def upto_rec1)

lemma sample_bounds:
  "0 < hr_dwell_samples (sc_geometry sample_stream)" "0 \<le> sc_maximum_retained_samples sample_stream"
  "request_validate (sc_geometry sample_stream) = Inr ()"
  by (simp_all add: sample_stream_def sample_request_valid) (simp add: sample_request_def)

section \<open>The stream\<close>

lemma div_mult_le_int: "0 < (b :: int) \<Longrightarrow> a div b * b \<le> a"
  by (metis add_le_cancel_left div_mult_mod_eq le_add_same_cancel1 pos_mod_sign)

text \<open>
  C27: Whatever blocks a session receives, and whether or not their counters have gaps, each visit
  the stream returns carries exactly the device's samples of the valid interval attested for it,
  the interval is one requested dwell, and the visits returned are the visits of the receipt, in order.
\<close>

theorem adaptive_visits_are_exact:
  assumes "finished c ws st rc outputs" and "evidence_source (sc_decode_evidence c)"
    and "0 < hr_dwell_samples (sc_geometry c)" and "0 \<le> sc_maximum_retained_samples c"
    and "\<forall>w \<in> set ws. carries c iq w"
  shows "(\<forall>(v, columns) \<in> set outputs.
      columns = map iq [av_valid_start v..av_valid_end v - 1]
      \<and> av_valid_sample_count v = hr_dwell_samples (sc_geometry c))
    \<and> map fst outputs = at_visits rc"
proof -
  obtain t where T: "stream_ok c iq t" "visits_exact iq outputs" "as_retained_visits t = map fst outputs"
    "make_receipt c t st = Inr rc"
    using evidence_source.finished_facts [OF assms(2,1) refl assms(3-5)] by metis
  have "map fst outputs = at_visits rc"
    using T(3,4) by (auto simp: make_receipt_def bindE_Inr_iff Let_def)
  moreover have "\<forall>(v, columns) \<in> set outputs. columns = span iq (av_valid_start v) (av_valid_end v)
      \<and> av_valid_sample_count v = hr_dwell_samples (sc_geometry c)"
    using T(2) matched_visits [OF T(1) assms(3)] by (force simp: visits_exact_def T(3))
  ultimately show ?thesis by (simp add: span_def)
qed

theorem adaptive_visits_are_exact_witness:
  "map fst (snd sample_result) = at_visits (fst sample_result) \<and> length (snd sample_result) = 1"
proof -
  have "length (snd sample_result) = 1" by code_simp
  then show ?thesis
    using adaptive_visits_are_exact [OF sample_finished sample_source sample_bounds(1,2) sample_carries] by simp
qed

text \<open>
  C29: The receipt of a session counts counters. Its valid total is the number of counters in the
  attested intervals of its visits, its transition total the number of capture counters that lie in a
  transition, the two kinds of counters are disjoint, and its denominator is the number of counters of
  the capture. When the session completed, visits and transitions lie inside the capture, and the
  unclassified total is then the number of capture counters in neither; without permitted gaps there is
  none, every counter of the capture lies in a visit or a transition, and every event has its visit.
  The valid total is one dwell per visit and equals the total of the coverage table, and the duty is
  rounded down.
\<close>

theorem adaptive_receipt_accounts:
  assumes "finished c ws st rc outputs" and "evidence_source (sc_decode_evidence c)"
    and "0 \<le> sc_maximum_retained_samples c" and "\<forall>w \<in> set ws. carries c iq w"
    and "request_validate (sc_geometry c) = Inr ()"
  shows "at_valid rc = int (card (valid_counters rc))
    \<and> at_transition_invalid rc = int (card (transition_counters rc \<inter> capture_counters rc))
    \<and> valid_counters rc \<inter> transition_counters rc = {}
    \<and> at_duty_denominator rc = int (card (capture_counters rc))
    \<and> (hs_state st = COMPLETED \<longrightarrow> valid_counters rc \<union> transition_counters rc \<subseteq> capture_counters rc)
    \<and> (valid_counters rc \<subseteq> capture_counters rc \<longrightarrow>
          at_unclassified rc = int (card (capture_counters rc - valid_counters rc - transition_counters rc)))
    \<and> at_valid rc + at_transition_invalid rc + at_unclassified rc = at_duty_denominator rc
    \<and> 0 \<le> at_unclassified rc
    \<and> (hs_state st = COMPLETED \<and> \<not> sc_allow_counter_gaps c \<longrightarrow>
          capture_counters rc = valid_counters rc \<union> transition_counters rc
          \<and> at_unclassified rc = 0 \<and> length (at_visits rc) = length (at_events rc))
    \<and> at_valid rc = int (length (at_visits rc)) * hr_dwell_samples (sc_geometry c)
    \<and> (\<Sum>(_, _, n) \<leftarrow> at_target_coverage rc. n) = at_valid rc
    \<and> (0 < at_duty_denominator rc \<longrightarrow>
          at_valid_duty_ppm rc * at_duty_denominator rc \<le> at_valid rc * 1000000)"
proof -
  have pos: "0 < hr_dwell_samples (sc_geometry c)" by (rule request_dwell_positive [OF assms(5)])
  obtain t where T: "stream_ok c iq t" "make_receipt c t st = Inr rc" "as_emitted t = length (as_visits t)"
    "hs_state st = COMPLETED \<longrightarrow> length (as_visits t) = length (as_events t)"
    and first: "as_events t \<noteq> [] \<longrightarrow> hs_first_counter st = he_invalid_start_counter (hd (as_events t))"
    and final: "hs_state st = COMPLETED \<longrightarrow> as_events t \<noteq> [] \<and> av_valid_end (last (as_visits t)) = hs_final_counter st"
    using evidence_source.finished_facts [OF assms(2,1) refl pos assms(3,4)] by metis
  note C = receipt_counts [OF T(1,2) pos] and K = receipt_capture [OF T(1,2) pos first]
  have v: "at_valid rc = adaptive_valid (as_retained_visits t)" "at_visits rc = as_retained_visits t"
    and e: "at_events rc = as_events t"
    and cov: "at_target_coverage rc = target_coverage (sc_geometry c) (as_retained_visits t)"
    and sum: "at_valid rc + at_transition_invalid rc + at_unclassified rc = at_duty_denominator rc" "0 \<le> at_unclassified rc"
    using T(2) by (auto simp: make_receipt_def bindE_Inr_iff Let_def)
  have inside: "valid_counters rc \<union> transition_counters rc \<subseteq> capture_counters rc" if "hs_state st = COMPLETED"
    using completed_inside [OF T(1,2) pos] first final T(4) that by blast
  have rest: "at_unclassified rc = int (card (capture_counters rc - valid_counters rc - transition_counters rc))"
    if "valid_counters rc \<subseteq> capture_counters rc"
    using card_three_parts [OF _ that C(3)] C(1) K sum(1) by (simp add: capture_counters_def)
  have zero: "at_unclassified rc = 0 \<and> length (at_visits rc) = length (at_events rc)"
    if "hs_state st = COMPLETED" "\<not> sc_allow_counter_gaps c"
    using T v e that by (auto simp: make_receipt_def bindE_Inr_iff Let_def stream_ok_def)
  have tiled: "capture_counters rc = valid_counters rc \<union> transition_counters rc"
    if "hs_state st = COMPLETED" "\<not> sc_allow_counter_gaps c"
  proof -
    have "card (capture_counters rc - valid_counters rc - transition_counters rc) = 0"
      using rest inside [OF that(1)] zero [OF that] by simp
    moreover have "finite (capture_counters rc)" by (simp add: capture_counters_def)
    ultimately show ?thesis using inside [OF that(1)] by auto
  qed
  note M = matched_visits [OF T(1) pos]
  have dwells: "at_valid rc = int (length (at_visits rc)) * hr_dwell_samples (sc_geometry c)"
    unfolding v using M by (intro adaptive_valid_dwells) blast
  have "distinct (map hp_target_index (hr_profiles (sc_geometry c)))"
    using assms(5) by (simp add: request_validate_def bindE_Inr_iff validate_profiles_Inr distinct_map inj_on_def)
  then have table: "(\<Sum>(_, _, n) \<leftarrow> at_target_coverage rc. n) = at_valid rc"
    unfolding cov v target_coverage_def using M by (intro coverage_total) blast+
  have "at_valid_duty_ppm rc = at_valid rc * 1000000 div at_duty_denominator rc" if "0 < at_duty_denominator rc"
    using T(2) that by (auto simp: make_receipt_def bindE_Inr_iff Let_def)
  then have duty: "0 < at_duty_denominator rc \<longrightarrow>
      at_valid_duty_ppm rc * at_duty_denominator rc \<le> at_valid rc * 1000000"
    by (metis div_mult_le_int)
  show ?thesis using C(1,3) K sum inside rest zero tiled dwells table duty by blast
qed

theorem adaptive_receipt_accounts_witness:
  "at_unclassified (fst sample_result) = 0 \<and> at_valid (fst sample_result) = 2 \<and>
   at_transition_invalid (fst sample_result) = 1 \<and> capture_counters (fst sample_result) = {0..<3} \<and>
   valid_counters (fst sample_result) \<union> transition_counters (fst sample_result) = {0..<3} \<and>
   at_valid_duty_ppm (fst sample_result) * 3 \<le> 2000000"
proof -
  note A = adaptive_receipt_accounts [OF sample_finished sample_source sample_bounds(2) sample_carries sample_bounds(3)]
  have n: "at_valid (fst sample_result) = 2" "at_duty_denominator (fst sample_result) = 3"
    "at_transition_invalid (fst sample_result) = 1" "hs_first_counter (at_status (fst sample_result)) = 0"
    "hs_final_counter (at_status (fst sample_result)) = 3" "length (at_events (fst sample_result)) = 1"
    by code_simp+
  then have "capture_counters (fst sample_result) = {0..<3}" by (auto simp: capture_counters_def)
  moreover have "hs_state sample_status = COMPLETED" "\<not> sc_allow_counter_gaps sample_stream"
    by (simp_all add: sample_status_def sample_stream_def)
  moreover have "0 < at_duty_denominator (fst sample_result) \<longrightarrow>
      at_valid_duty_ppm (fst sample_result) * at_duty_denominator (fst sample_result)
        \<le> at_valid (fst sample_result) * 1000000" using A by blast
  ultimately show ?thesis using A n by auto
qed

text \<open>
  C30: No decision looks into the future: in the receipt of a session, the visit a decision was based
  on is an earlier one whose dwell had ended when the decision was taken, and from the second event
  on the decision was taken after the previous dwell, which ends where the event's transition begins.
\<close>

theorem adaptive_decisions_are_causal:
  assumes "finished c ws st rc outputs" and "evidence_source (sc_decode_evidence c)"
    and "0 < hr_dwell_samples (sc_geometry c)" and "0 \<le> sc_maximum_retained_samples c"
    and "\<forall>w \<in> set ws. carries c iq w" and "i < length (at_events rc)"
  shows "(ac_basis_visit (at_choices rc ! i) \<noteq> NO_VISIT \<longrightarrow>
        0 \<le> ac_basis_visit (at_choices rc ! i) \<and> ac_basis_visit (at_choices rc ! i) < int i \<and>
        he_invalid_end_counter_exclusive (at_events rc ! nat (ac_basis_visit (at_choices rc ! i)))
          + hr_dwell_samples (sc_geometry c) \<le> ac_decision_counter (at_choices rc ! i))
    \<and> (0 < i \<longrightarrow> he_invalid_start_counter (at_events rc ! i)
        = he_invalid_end_counter_exclusive (at_events rc ! (i - 1)) + hr_dwell_samples (sc_geometry c)
      \<and> he_invalid_start_counter (at_events rc ! i) \<le> ac_decision_counter (at_choices rc ! i))"
proof -
  obtain t where T: "stream_ok c iq t" "make_receipt c t st = Inr rc"
    using evidence_source.finished_facts [OF assms(2,1) refl assms(3-5)] by metis
  have "at_events rc = as_events t" "at_choices rc = as_choices t"
    using T(2) by (auto simp: make_receipt_def bindE_Inr_iff Let_def)
  then have ch: "chained c (at_events rc) (at_choices rc)"
    using T(1) by (simp add: stream_ok_def history_inv_def)
  then have "causal c (at_events rc) i (at_choices rc ! i)" using assms(6) by (simp add: chained_def)
  moreover have "he_invalid_start_counter (at_events rc ! i)
        = he_invalid_end_counter_exclusive (at_events rc ! (i - 1)) + hr_dwell_samples (sc_geometry c)
      \<and> he_invalid_start_counter (at_events rc ! i) \<le> ac_decision_counter (at_choices rc ! i)" if "0 < i"
    using ch assms(6) that unfolding chained_def by (metis Suc_diff_1)
  ultimately show ?thesis by (auto simp: causal_def)
qed

theorem adaptive_decisions_are_causal_witness:
  "length (at_events (fst sample_result)) = 1 \<and>
   (ac_basis_visit (at_choices (fst sample_result) ! 0) = NO_VISIT
    \<or> ac_basis_visit (at_choices (fst sample_result) ! 0) < 0)"
proof -
  have n: "length (at_events (fst sample_result)) = 1" by code_simp
  then have "0 < length (at_events (fst sample_result))" by simp
  from adaptive_decisions_are_causal [OF sample_finished sample_source sample_bounds(1,2) sample_carries this]
  show ?thesis using n by auto
qed

text \<open>
  C31: The stream is bounded and fails closed. After any sequence of blocks, malformed and replayed ones
  included, it retains at most the configured number of samples; once a block has been refused it holds
  no samples at all and every further block and every terminal status is refused without changing it.
\<close>

theorem poisoned_stream_refuses:
  assumes "run (stream_feed c) stream_start ws = (s, rs)" and "0 \<le> sc_maximum_retained_samples c"
  shows "retained_sample_count s \<le> sc_maximum_retained_samples c
    \<and> ((\<exists>e. Inl e \<in> set rs) \<longrightarrow> retained_sample_count s = 0
      \<and> (\<exists>e. stream_feed c s w = (s, Inl e)) \<and> (\<exists>e. stream_finish c s st = (s, Inl e)))"
proof -
  have "retained_sample_count stream_start \<le> sc_maximum_retained_samples c"
    using stream_start_ok(4) assms(2) by simp
  note K = run_bounded [OF assms(1) stream_start_ok(2,3) this assms(2)]
  show ?thesis
  proof (cases "\<exists>e. Inl e \<in> set rs")
    case True
    then have "as_failed s" "as_segments s = []" using K by simp_all
    then show ?thesis using feed_closed [of s c] K
      by (simp add: retained_sample_count_def retained_samples_def)
  qed (use K in simp)
qed

text \<open>
  A block whose payload is a byte short is refused; the well-formed block after it is refused as well.
\<close>

definition short_block :: wire_block where
  "short_block = stream_block\<lparr>wb_iq_payload := replicate 11 0\<rparr>"

theorem poisoned_stream_refuses_witness:
  "\<exists>e s rs. run (stream_feed sample_stream) stream_start [short_block] = (s, rs) \<and>
     stream_feed sample_stream s stream_block = (s, Inl e) \<and> retained_sample_count s = 0"
proof -
  obtain s rs where R: "run (stream_feed sample_stream) stream_start [short_block] = (s, rs)"
    by (cases "run (stream_feed sample_stream) stream_start [short_block]")
  have "list_ex isl (snd (run (stream_feed sample_stream) stream_start [short_block]))" by code_simp
  then have "\<exists>e. Inl e \<in> set rs" using R by (auto simp: list_ex_iff isl_def)
  then show ?thesis
    using poisoned_stream_refuses [OF R sample_bounds(2), of stream_block] R by auto
qed

end
