(* ===== verification/Firmware_Image.thy ===== *)
theory Firmware_Image
  imports Text
begin

text \<open>
  \<open>firmware.py\<close>: the two firmware containers (DFU with its suffix, FRM with its MD5 trailer), the
  conversion between them, and the confirmation tokens that authorise one write. MD5 and SHA-256
  are parameters: the theorems hold for every digest function with the documented output format.
\<close>

section \<open>Images\<close>

definition fi :: "string \<Rightarrow> exn" where
  "fi = FirmwareImageError"

definition FIT_MAGIC :: bytes where
  "FIT_MAGIC = [0xD0, 0x0D, 0xFE, 0xED]"

definition PLUTO_FRM_MAGIC :: bytes where
  "PLUTO_FRM_MAGIC = ascii_bytes ''ITB PlutoSDR (ADALM-PLUTO)''"

definition validate_fit :: "bytes \<Rightarrow> unit result" where
  "validate_fit body = checks
     [(length body < 40 \<or> take 4 body \<noteq> FIT_MAGIC,
       fi ''image does not start with a complete FIT header''),
      (be_value (slice 4 8 body) \<noteq> int (length body), fi ''FIT size disagrees with the image body''),
      (\<not> has_infix PLUTO_FRM_MAGIC body, fi ''required Pluto FRM magic is absent from FIT body'')]"

text \<open>The DFU suffix keeps the CRC accumulator without its final complement.\<close>

definition dfu_crc :: "bytes \<Rightarrow> int" where
  "dfu_crc bs = crc32 bs XOR 0xFFFFFFFF"

definition validate_dfu :: "bytes \<Rightarrow> bytes result" where
  "validate_dfu data =
     (if length data \<le> 16 then Inl (fi ''DFU image is too short'')
      else let body = take (length data - 16) data; suffix = drop (length data - 16) data in
        bindE (checks
          [(slice 8 11 suffix \<noteq> ascii_bytes ''UFD'' \<or> uint (suffix ! 11) \<noteq> 16,
            fi ''invalid DFU suffix signature or length''),
           (le_value (slice 4 6 suffix) \<noteq> 0x0456 \<or> le_value (slice 2 4 suffix) \<noteq> 0xB673,
            fi ''DFU targets another device, expected 0456:b673''),
           (le_value (slice 6 8 suffix) \<noteq> 0x0100, fi ''unsupported DFU specification''),
           (le_value (slice 12 16 suffix) \<noteq> dfu_crc (take (length data - 4) data),
            fi ''DFU suffix CRC mismatch'')]) (\<lambda>_.
        bindE (validate_fit body) (\<lambda>_. Inr body)))"

definition validate_frm :: "(bytes \<Rightarrow> bytes) \<Rightarrow> bytes \<Rightarrow> bytes result" where
  "validate_frm md5_hex data =
     (if length data \<le> 33 then Inl (fi ''FRM image is too short'')
      else let body = take (length data - 33) data; trailer = drop (length data - 33) data;
               digest = butlast trailer in
        bindE (checks
          [(last trailer \<noteq> 10, fi ''FRM MD5 trailer must end in a newline''),
           (length digest \<noteq> 32 \<or> (\<exists>b \<in> set digest. b \<notin> set (ascii_bytes ''0123456789abcdef'')),
            fi ''FRM MD5 trailer must be lowercase hexadecimal''),
           (digest \<noteq> md5_hex body, fi ''FRM MD5 trailer mismatch'')]) (\<lambda>_.
        bindE (validate_fit body) (\<lambda>_. Inr body)))"

definition generate_frm :: "(bytes \<Rightarrow> bytes) \<Rightarrow> bytes \<Rightarrow> bytes result" where
  "generate_frm md5_hex dfu_data =
     bindE (validate_dfu dfu_data) (\<lambda>body.
       let out = body @ md5_hex body @ [10] in
       bindE (validate_frm md5_hex out) (\<lambda>_. Inr out))"

text \<open>What \<open>hashlib.md5(...).hexdigest().encode()\<close> always returns: 32 lowercase hexadecimal characters.\<close>

definition hex_digests :: "(bytes \<Rightarrow> bytes) \<Rightarrow> bool" where
  "hex_digests h \<longleftrightarrow>
     (\<forall>bs. length (h bs) = 32 \<and> set (h bs) \<subseteq> set (ascii_bytes ''0123456789abcdef''))"

lemma validate_dfu_body:
  "validate_dfu dfu = Inr body \<Longrightarrow> validate_fit body = Inr () \<and> body = take (length dfu - 16) dfu"
  by (auto simp: validate_dfu_def Let_def bindE_Inr_iff split: if_splits)

lemma validate_fit_length: "validate_fit body = Inr () \<Longrightarrow> 40 \<le> length body"
  by (simp add: validate_fit_def split: if_splits)

lemma validate_frm_sealed:
  assumes "hex_digests h" and "validate_fit body = Inr ()"
  shows "validate_frm h (body @ h body @ [10]) = Inr body"
  using assms validate_fit_length [OF assms(2)]
  by (auto simp: validate_frm_def hex_digests_def checks_eval Let_def)

section \<open>Confirmation tokens\<close>

text \<open>
  The store maps a plan identifier to the digest of the last token issued for it. A plan is its
  identifier, its expiry and everything else it was confirmed for (\<open>fp_content\<close>), because the store only
  compares plans; times are integers.
\<close>

record 'p firmware_plan =
  fp_plan_id :: string
  fp_expires_at :: int
  fp_content :: 'p

record 'p token_record =
  tr_digest :: bytes
  tr_expires_at :: int
  tr_plan :: "'p firmware_plan"
  tr_used :: bool

type_synonym 'p token_store = "(string \<times> 'p token_record) list"

definition issue_token :: "(string \<Rightarrow> bytes) \<Rightarrow> 'p firmware_plan \<Rightarrow> string \<Rightarrow> 'p token_store \<Rightarrow> 'p token_store" where
  "issue_token sha plan token s =
     AList.update (fp_plan_id plan)
       \<lparr>tr_digest = sha token, tr_expires_at = fp_expires_at plan, tr_plan = plan, tr_used = False\<rparr> s"

definition consume_token ::
    "(string \<Rightarrow> bytes) \<Rightarrow> 'p firmware_plan \<Rightarrow> string \<Rightarrow> int \<Rightarrow> 'p token_store \<Rightarrow> 'p token_store \<times> unit result" where
  "consume_token sha plan token now s =
     (case map_of s (fp_plan_id plan) of
        None \<Rightarrow> (s, Inl (FirmwareAuthorizationError ''confirmation token is invalid''))
      | Some r \<Rightarrow>
          (case checks
             [(tr_digest r \<noteq> sha token, FirmwareAuthorizationError ''confirmation token is invalid''),
              (tr_plan r \<noteq> plan, FirmwareAuthorizationError ''confirmation token is bound to another plan''),
              (tr_used r, FirmwareAuthorizationError ''confirmation token was already used''),
              (now \<ge> tr_expires_at r, FirmwareAuthorizationError ''confirmation token has expired'')] of
             Inl e \<Rightarrow> (s, Inl e)
           | Inr _ \<Rightarrow> (AList.update (fp_plan_id plan) (r\<lparr>tr_used := True\<rparr>) s, Inr ())))"

datatype 'p token_call = Issue "'p firmware_plan" string | Consume "'p firmware_plan" string int

fun token_step :: "(string \<Rightarrow> bytes) \<Rightarrow> 'p token_store \<Rightarrow> 'p token_call \<Rightarrow> 'p token_store \<times> unit result" where
  "token_step sha s (Issue plan token) = (issue_token sha plan token s, Inr ())"
| "token_step sha s (Consume plan token now) = consume_token sha plan token now s"

text \<open>Every stored record comes from the plan it is stored under.\<close>

definition token_inv :: "'p token_store \<Rightarrow> bool" where
  "token_inv s \<longleftrightarrow> (\<forall>(k, r) \<in> set s. fp_plan_id (tr_plan r) = k \<and> tr_expires_at r = fp_expires_at (tr_plan r))
     \<and> distinct (map fst s)"

lemma token_step_inv: "token_inv s \<Longrightarrow> token_inv (fst (token_step sha s c))"
proof (cases c)
  case (Issue plan token)
  assume "token_inv s"
  then show ?thesis using Issue
    by (auto simp: token_inv_def issue_token_def distinct_update dest: update_values)
next
  case (Consume plan token now)
  assume I: "token_inv s"
  show ?thesis
  proof (cases "map_of s (fp_plan_id plan)")
    case (Some r)
    then have "fp_plan_id (tr_plan r) = fp_plan_id plan \<and> tr_expires_at r = fp_expires_at (tr_plan r)"
      using I by (auto simp: token_inv_def dest!: map_of_SomeD)
    then show ?thesis using I Some Consume
      by (auto simp: token_inv_def consume_token_def distinct_update dest: update_values
          split: sum.splits if_splits)
  qed (use I Consume in \<open>simp add: consume_token_def\<close>)
qed

interpretation tokens: state_machine "token_step sha" token_inv for sha
  by unfold_locales (rule token_step_inv)

text \<open>Once a plan's token is used, only a new issue for that plan makes it usable again.\<close>

definition spent :: "string \<Rightarrow> 'p token_store \<Rightarrow> bool" where
  "spent k s \<longleftrightarrow> (\<exists>r. map_of s k = Some r \<and> tr_used r)"

fun issues :: "string \<Rightarrow> 'p token_call \<Rightarrow> bool" where
  "issues k (Issue plan token) \<longleftrightarrow> fp_plan_id plan = k"
| "issues k (Consume plan token now) \<longleftrightarrow> False"

lemma spent_step: "spent k s \<Longrightarrow> \<not> issues k c \<Longrightarrow> spent k (fst (token_step sha s c))"
  by (cases c) (auto simp: spent_def issue_token_def consume_token_def update_conv' split: option.splits sum.splits)

lemma spent_run:
  "spent k s \<Longrightarrow> \<forall>c \<in> set cs. \<not> issues k c \<Longrightarrow> spent k (fst (run (token_step sha) s cs))"
proof (induction cs arbitrary: s)
  case (Cons c cs)
  have "spent k (fst (token_step sha s c))" using spent_step [of k s c sha] Cons.prems by simp
  then show ?case using Cons.IH Cons.prems(2) by (simp add: split_beta)
qed simp

lemma consume_token_Inr:
  "consume_token sha plan token now s = (s1, Inr u) \<longleftrightarrow>
     (\<exists>r. map_of s (fp_plan_id plan) = Some r \<and> tr_digest r = sha token \<and> tr_plan r = plan \<and>
        \<not> tr_used r \<and> now < tr_expires_at r \<and>
        s1 = AList.update (fp_plan_id plan) (r\<lparr>tr_used := True\<rparr>) s)"
  by (auto simp: consume_token_def checks_eval not_le split: option.splits if_splits)

lemma consume_spent: "consume_token sha plan token now s = (s1, Inr u) \<Longrightarrow> spent (fp_plan_id plan) s1"
  by (auto simp: consume_token_Inr spent_def update_conv')

lemma spent_refused: "spent (fp_plan_id plan) s \<Longrightarrow> snd (consume_token sha plan token now s) \<noteq> Inr ()"
  by (cases "consume_token sha plan token now s") (auto simp: spent_def consume_token_Inr)

text \<open>A record in the store was put there by an issue of that plan with a token of that digest.\<close>

lemma issued_run:
  assumes "map_of (fst (run (token_step sha) s cs)) k = Some r"
    and "\<And>r. map_of s k = Some r \<Longrightarrow> \<exists>token. sha token = tr_digest r \<and> P (tr_plan r) token"
    and "\<And>plan token. Issue plan token \<in> set cs \<Longrightarrow> P plan token"
  shows "\<exists>token. sha token = tr_digest r \<and> P (tr_plan r) token"
  using assms
proof (induction cs arbitrary: s)
  case (Cons c cs)
  let ?s = "fst (token_step sha s c)"
  have "\<exists>token. sha token = tr_digest r \<and> P (tr_plan r) token" if "map_of ?s k = Some r" for r
    using that Cons.prems(2,3)
    by (cases c) (auto simp: issue_token_def consume_token_def update_conv' split: if_splits option.splits sum.splits)
  then show ?case using Cons.IH [of ?s] Cons.prems(1,3) by (simp add: split_beta)
qed auto

section \<open>Properties\<close>

text \<open>
  C40: converting a DFU to the persistent container is total and lossless: whenever the DFU validates,
  the generated FRM passes its own validation and both carry the same FIT body; a refused DFU is
  refused with the same error.
\<close>

theorem generated_frm_preserves_fit:
  assumes "hex_digests md5_hex"
  shows "case validate_dfu dfu of
      Inl e \<Rightarrow> generate_frm md5_hex dfu = Inl e
    | Inr body \<Rightarrow> (\<exists>frm. generate_frm md5_hex dfu = Inr frm \<and> validate_frm md5_hex frm = Inr body \<and>
        take (length frm - 33) frm = take (length dfu - 16) dfu)"
proof (cases "validate_dfu dfu")
  case (Inr body)
  have "length (md5_hex body) = 32" using assms by (simp add: hex_digests_def)
  then show ?thesis
    using Inr validate_dfu_body [OF Inr] validate_frm_sealed [OF assms, of body]
    by (auto simp: generate_frm_def Let_def)
qed (simp add: generate_frm_def)

definition sample_fit :: bytes where
  "sample_fit = FIT_MAGIC @ [0, 0, 0, 66] @ replicate 32 0 @ PLUTO_FRM_MAGIC"

definition sample_dfu :: bytes where
  "sample_dfu = (let unsealed = sample_fit @ [0, 0, 0x73, 0xB6, 0x56, 0x04, 0, 1] @ ascii_bytes ''UFD'' @ [16] in
     unsealed @ le_bytes 4 (dfu_crc unsealed))"

lemma sample_fit_length: "length sample_fit = 66"
  by (simp add: sample_fit_def FIT_MAGIC_def PLUTO_FRM_MAGIC_def ascii_bytes_def)

lemma sample_fit_valid: "validate_fit sample_fit = Inr ()"
proof -
  have "has_infix PLUTO_FRM_MAGIC sample_fit"
    unfolding sample_fit_def append_assoc [symmetric] by (rule has_infix_suffix)
  moreover have "be_value (slice 4 8 sample_fit) = 66" "take 4 sample_fit = FIT_MAGIC"
    by (simp_all add: sample_fit_def FIT_MAGIC_def slice_def be_value_def)
  ultimately show ?thesis by (simp add: validate_fit_def sample_fit_length checks_eval)
qed

lemma dfu_crc_bounds: "0 \<le> dfu_crc bs" "dfu_crc bs < 4294967296"
  using XOR_upper [where x = "crc32 bs" and n = 32 and y = "0xFFFFFFFF"] crc32_bounds [of bs]
  by (simp_all add: dfu_crc_def)

lemma sample_dfu_valid: "validate_dfu sample_dfu = Inr sample_fit"
proof -
  let ?tail = "[0, 0, 0x73, 0xB6, 0x56, 0x04, 0, 1, 85, 70, 68, 16] :: bytes"
  let ?w = "le_bytes 4 (dfu_crc (sample_fit @ ?tail))"
  have d: "sample_dfu = sample_fit @ ?tail @ ?w"
    by (simp add: sample_dfu_def ascii_bytes_def Let_def)
  have c: "le_value ?w = dfu_crc (sample_fit @ ?tail)"
    by (rule le_value_le_bytes) (use dfu_crc_bounds [of "sample_fit @ ?tail"] in simp_all)
  have parts: "take 66 sample_dfu = sample_fit" "drop 66 sample_dfu = ?tail @ ?w"
    "take 78 sample_dfu = sample_fit @ ?tail" "length sample_dfu = 82"
    by (simp_all only: d) (simp_all add: sample_fit_length)
  have "slice 12 16 (?tail @ ?w) = ?w" by (simp add: slice_def)
  then have fields: "slice 8 11 (?tail @ ?w) = ascii_bytes ''UFD''" "(?tail @ ?w) ! 11 = 16"
    "le_value (slice 4 6 (?tail @ ?w)) = 0x0456" "le_value (slice 2 4 (?tail @ ?w)) = 0xB673"
    "le_value (slice 6 8 (?tail @ ?w)) = 0x0100"
    "le_value (slice 12 16 (?tail @ ?w)) = dfu_crc (sample_fit @ ?tail)"
    using c by (simp_all add: slice_def ascii_bytes_def)
  have "82 - 16 = (66 :: nat)" "82 - 4 = (78 :: nat)" by simp_all
  then show ?thesis
    unfolding validate_dfu_def parts Let_def
    by (simp only: parts fields sample_fit_valid) (simp add: checks_eval)
qed

theorem generated_frm_preserves_fit_witness:
  "\<exists>frm. generate_frm (\<lambda>_. replicate 32 48) sample_dfu = Inr frm \<and>
     validate_frm (\<lambda>_. replicate 32 48) frm = Inr sample_fit"
proof -
  have "hex_digests (\<lambda>_. replicate 32 48)" by (simp add: hex_digests_def ascii_bytes_def)
  from generated_frm_preserves_fit [OF this, of sample_dfu] show ?thesis
    by (auto simp: sample_dfu_valid)
qed

text \<open>
  C39: a confirmation token authorises one write: after a plan has been confirmed, no token is accepted
  for it again, whatever other calls happen in between, until a new token is issued for it.
\<close>

theorem confirmation_is_single_use:
  assumes "token_step sha s (Consume plan token now) = (s1, Inr ())"
    and "\<forall>c \<in> set calls. \<not> issues (fp_plan_id plan) c"
  shows "snd (token_step sha (fst (run (token_step sha) s1 calls)) (Consume plan token2 now2)) \<noteq> Inr ()"
  using spent_refused [OF spent_run [OF consume_spent assms(2)]] assms(1) by fastforce

theorem confirmation_is_single_use_witness:
  "\<exists>s1. token_step ascii_bytes [(''p'', \<lparr>tr_digest = ascii_bytes ''t'', tr_expires_at = 5,
        tr_plan = \<lparr>fp_plan_id = ''p'', fp_expires_at = 5, fp_content = ()\<rparr>, tr_used = False\<rparr>)]
        (Consume \<lparr>fp_plan_id = ''p'', fp_expires_at = 5, fp_content = ()\<rparr> ''t'' 3) = (s1, Inr ()) \<and>
     snd (token_step ascii_bytes s1
        (Consume \<lparr>fp_plan_id = ''p'', fp_expires_at = 5, fp_content = ()\<rparr> ''t'' 4)) \<noteq> Inr ()"
  using confirmation_is_single_use [of ascii_bytes "[(''p'', \<lparr>tr_digest = ascii_bytes ''t'', tr_expires_at = 5,
        tr_plan = \<lparr>fp_plan_id = ''p'', fp_expires_at = 5, fp_content = ()\<rparr>, tr_used = False\<rparr>)]"
      "\<lparr>fp_plan_id = ''p'', fp_expires_at = 5, fp_content = ()\<rparr>" "''t''" 3 _ "[]" "''t''" 4]
  by (simp add: consume_token_Inr)

text \<open>
  Every confirmation goes back to its issue: from the empty store, a token is accepted for a plan
  only before the plan's expiry and only if a token with the same digest was issued for exactly
  this plan, in all its fields.
\<close>

lemma confirmation_requires_issue:
  assumes "snd (token_step sha (fst (run (token_step sha) [] calls)) (Consume plan token now)) = Inr ()"
  shows "now < fp_expires_at plan \<and> (\<exists>issued. Issue plan issued \<in> set calls \<and> sha issued = sha token)"
proof -
  let ?s = "fst (run (token_step sha) [] calls)"
  have I: "token_inv ?s" by (rule tokens.inv_run) (simp add: token_inv_def)
  obtain s1 where "consume_token sha plan token now ?s = (s1, Inr ())"
    using assms by (cases "consume_token sha plan token now ?s") simp
  then obtain r where r: "map_of ?s (fp_plan_id plan) = Some r" "tr_digest r = sha token"
    "tr_plan r = plan" "now < tr_expires_at r" by (auto simp: consume_token_Inr)
  have "tr_expires_at r = fp_expires_at plan"
    using I r(1,3) by (auto simp: token_inv_def dest!: map_of_SomeD)
  moreover have "\<exists>issued. sha issued = tr_digest r \<and> Issue (tr_plan r) issued \<in> set calls"
    by (rule issued_run [OF r(1)]) auto
  ultimately show ?thesis using r by auto
qed

theorem confirmation_requires_issue_witness:
  "\<exists>issued. Issue \<lparr>fp_plan_id = ''p'', fp_expires_at = 5, fp_content = ()\<rparr> issued
     \<in> set [Issue \<lparr>fp_plan_id = ''p'', fp_expires_at = 5, fp_content = ()\<rparr> ''t''] \<and>
     ascii_bytes issued = ascii_bytes ''t''"
  using confirmation_requires_issue [of ascii_bytes
      "[Issue \<lparr>fp_plan_id = ''p'', fp_expires_at = 5, fp_content = ()\<rparr> ''t'']"
      "\<lparr>fp_plan_id = ''p'', fp_expires_at = 5, fp_content = ()\<rparr>" "''t''" 3]
  by (simp add: issue_token_def consume_token_def checks_eval)

end
