(* ===== verification/Flash_Safety.thy ===== *)
theory Flash_Safety
  imports Firmware_Image
begin

text \<open>
  \<open>flash_ranges.py\<close> and \<open>flash_safety.py\<close>: the policy that decides whether a FIT may be written to the
  serial flash of one observed radio. SHA-256 of the FIT and of a qualification record are
  parameters.
\<close>

section \<open>Intervals\<close>

abbreviation (input) "MAX_FLASH_BYTES \<equiv> 134217728 :: int"
abbreviation (input) "LEGACY_ADDRESS_LIMIT \<equiv> 0x1000000 :: int"

record interval =
  iv_start :: int
  iv_end :: int

definition interval_new :: "int \<Rightarrow> int \<Rightarrow> interval result" where
  "interval_new a b =
     (if 0 \<le> a \<and> a < b \<and> b \<le> MAX_FLASH_BYTES then Inr \<lparr>iv_start = a, iv_end = b\<rparr>
      else Inl (ValueError ''invalid flash interval''))"

definition iv_contains :: "interval \<Rightarrow> interval \<Rightarrow> bool" where
  "iv_contains outer inner \<longleftrightarrow> iv_start outer \<le> iv_start inner \<and> iv_end inner \<le> iv_end outer"

definition iv_overlaps :: "interval \<Rightarrow> interval \<Rightarrow> bool" where
  "iv_overlaps x y \<longleftrightarrow> iv_start x < iv_end y \<and> iv_start y < iv_end x"

definition validate_write_intervals ::
    "interval \<Rightarrow> interval \<Rightarrow> interval \<Rightarrow> int \<Rightarrow> interval list \<Rightarrow> unit result" where
  "validate_write_intervals payload footprint destination address_limit protected = checks
     [(\<not> (0 < address_limit \<and> address_limit \<le> MAX_FLASH_BYTES), ValueError ''invalid qualified address limit''),
      (\<not> iv_contains footprint payload \<or> \<not> iv_contains destination footprint,
       ValueError ''payload/erase footprint exceeds destination''),
      (iv_end footprint > address_limit,
       ValueError ''payload/erase footprint exceeds qualified physical range''),
      (list_ex (iv_overlaps footprint) protected,
       ValueError ''erase footprint overlaps a protected region'')]"

section \<open>Observations, qualifications, decisions\<close>

record flash_partition =
  fp_index :: int
  fp_name :: string
  fp_start :: int
  fp_size :: int
  fp_erase_size :: int

definition fp_end :: "flash_partition \<Rightarrow> int" where
  "fp_end p = fp_start p + fp_size p"

record flash_observation =
  fo_serial :: string
  fo_boot_id :: string
  fo_kernel :: string
  fo_updater_sha256 :: string
  fo_tools_sha256 :: string
  fo_boot_sha256 :: string
  fo_flash_identity :: string
  fo_capacity :: int
  fo_partitions :: "flash_partition list"
  fo_environment_sha256 :: string
  fo_report_sha256 :: string
  fo_board_identity :: string

record flash_qualification =
  fq_qualification_id :: string
  fq_flash_identity :: string
  fq_kernel :: string
  fq_updater_sha256 :: string
  fq_tools_sha256 :: string
  fq_boot_sha256 :: string
  fq_partitions :: "flash_partition list"
  fq_capacity :: int
  fq_address_limit :: int
  fq_write_evidence_sha256 :: string
  fq_cold_boot_evidence_sha256 :: string
  fq_board_identity :: string

text \<open>No extended-range qualification ships.\<close>

definition QUALIFICATIONS :: "flash_qualification list" where
  "QUALIFICATIONS = []"

record flash_decision =
  fd_policy_version :: string
  fd_observation :: flash_observation
  fd_fit_sha256 :: string
  fd_fit_size :: int
  fd_payload_start :: int
  fd_payload_end :: int
  fd_erase_start :: int
  fd_erase_end :: int
  fd_environment_start :: int
  fd_environment_end :: int
  fd_address_limit :: int
  fd_qualification_id :: "string option"
  fd_qualification_sha256 :: "string option"

definition fs :: "string \<Rightarrow> string \<Rightarrow> exn" where
  "fs = FlashSafetyError"

definition flash_integer :: "string \<Rightarrow> bool \<Rightarrow> int \<Rightarrow> bool \<times> exn" where
  "flash_integer label zero v =
     (\<not> ((if zero then 0 else 1) \<le> v \<and> v \<le> MAX_FLASH_BYTES),
      fs ''flash_geometry_invalid'' (''invalid '' @ label))"

section \<open>The decision\<close>

definition LEGACY_UPDATER_SHA256 :: string where
  "LEGACY_UPDATER_SHA256 = ''d8a3693f88ca9f3f7e4f9e7b4ac4a62abb8976d610df058fc74bbd6a6ee915f0''"

definition ISSUE99_UPDATER_SHA256 :: string where
  "ISSUE99_UPDATER_SHA256 = ''cd172a1bda9d12117425131d6f20cfdd8b1cabc6c76ee4ac7b60147be93f5cd5''"

definition ISSUE99_TOOLS_SHA256S :: "string list" where
  "ISSUE99_TOOLS_SHA256S =
     [''0c2b228fc776a1d0c7e819d50bd9010544074ba43d1010e440826c90ca566b01'',
      ''fb9bf2664ff977f7288c73d1501981faed73892d0e781934dd8a96fadfdb5906'']"

definition jedec_of :: "flash_observation \<Rightarrow> string" where
  "jedec_of obs = after_last (CHR '':'') (fo_flash_identity obs)"

definition jedec_density :: "flash_observation \<Rightarrow> int" where
  "jedec_density obs = hex_value (slice 4 6 (jedec_of obs))"

definition flash_identity_checks :: "flash_observation \<Rightarrow> int \<Rightarrow> (bool \<times> exn) list" where
  "flash_identity_checks obs fit_len =
     [flash_integer ''FIT size'' False fit_len,
      flash_integer ''flash capacity'' False (fo_capacity obs),
      (fo_serial obs = [] \<or> fo_boot_id obs = [] \<or> fo_kernel obs = [],
       fs ''flash_identity_unknown'' ''serial, boot ID and kernel are required''),
      (fo_flash_identity obs = [] \<or> \<not> lower_digest (fo_board_identity obs),
       fs ''flash_identity_unknown'' ''actual flash identity is unavailable''),
      (\<not> (6 \<le> length (jedec_of obs) \<and> length (jedec_of obs) \<le> 12 \<and> list_all lower_hex (jedec_of obs)),
       fs ''flash_identity_unknown'' ''unsupported JEDEC identity''),
      (\<not> (20 \<le> jedec_density obs \<and> jedec_density obs < 28)
         \<or> fo_capacity obs \<noteq> 2 ^ nat (jedec_density obs),
       fs ''flash_geometry_invalid'' ''partition capacity disagrees with JEDEC''),
      (\<not> list_all lower_digest [fo_updater_sha256 obs, fo_tools_sha256 obs, fo_boot_sha256 obs,
           fo_environment_sha256 obs, fo_report_sha256 obs],
       fs ''flash_observation_invalid'' ''missing build/content digest''),
      (fo_updater_sha256 obs = ISSUE99_UPDATER_SHA256 \<and> fo_tools_sha256 obs \<notin> set ISSUE99_TOOLS_SHA256S,
       fs ''flash_writer_unknown'' ''updater dependencies are not reviewed''),
      (fo_updater_sha256 obs \<noteq> ISSUE99_UPDATER_SHA256 \<and> fo_updater_sha256 obs \<noteq> LEGACY_UPDATER_SHA256,
       fs ''flash_writer_unknown'' ''updater footprint is not reviewed'')]"

definition role_name :: "int \<Rightarrow> string" where
  "role_name i =
     (if i = 0 then ''qspi-fsbl-uboot'' else if i = 1 then ''qspi-uboot-env''
      else if i = 2 then ''qspi-nvmfs'' else ''qspi-linux'')"

definition partition_checks :: "int \<Rightarrow> flash_partition \<Rightarrow> (bool \<times> exn) list" where
  "partition_checks capacity p =
     [flash_integer ''partition offset'' True (fp_start p),
      flash_integer ''partition size'' False (fp_size p),
      flash_integer ''erase size'' False (fp_erase_size p),
      (fp_start p mod fp_erase_size p \<noteq> 0 \<or> fp_size p mod fp_erase_size p \<noteq> 0
         \<or> fp_end p > capacity \<or> fp_name p = [],
       fs ''flash_geometry_invalid'' ''unaligned or out-of-flash partition'')]"

definition partition_map_checks :: "int \<Rightarrow> flash_partition list \<Rightarrow> (bool \<times> exn) list" where
  "partition_map_checks capacity parts =
     [(set (map fp_index parts) \<noteq> {0, 1, 2, 3} \<or> length parts \<noteq> 4,
       fs ''flash_geometry_invalid'' ''expected exactly four flash partitions''),
      (list_ex (\<lambda>p. fp_name p \<noteq> role_name (fp_index p)) parts,
       fs ''flash_geometry_invalid'' ''partition roles do not match the writer'')]
     @ concat (map (partition_checks capacity) parts)
     @ (let ordered = sort_key fp_start parts in
        [(fp_start (hd ordered) \<noteq> 0 \<or> fp_index (hd ordered) \<noteq> 0 \<or> fp_end (last ordered) \<noteq> capacity
            \<or> list_ex (\<lambda>(a, b). fp_end a \<noteq> fp_start b) (zip ordered (tl ordered)),
          fs ''flash_geometry_invalid'' ''overlapping or incomplete partition map'')])"

definition qualifies :: "flash_observation \<Rightarrow> flash_qualification \<Rightarrow> bool" where
  "qualifies obs r \<longleftrightarrow> fq_flash_identity r = fo_flash_identity obs
     \<and> fq_board_identity r = fo_board_identity obs \<and> fq_kernel r = fo_kernel obs
     \<and> fq_updater_sha256 r = fo_updater_sha256 obs \<and> fq_tools_sha256 r = fo_tools_sha256 obs
     \<and> fq_boot_sha256 r = fo_boot_sha256 obs \<and> fq_partitions r = fo_partitions obs
     \<and> fq_capacity r = fo_capacity obs"

definition address_limit_of ::
    "flash_observation \<Rightarrow> flash_qualification list \<Rightarrow> (int \<times> flash_qualification option) result" where
  "address_limit_of obs quals =
     (case find (qualifies obs) quals of
        None \<Rightarrow> Inr (min (fo_capacity obs) LEGACY_ADDRESS_LIMIT, None)
      | Some r \<Rightarrow>
          bindE (checks
            [flash_integer ''qualified address limit'' False (fq_address_limit r),
             (fq_qualification_id r = [] \<or> \<not> lower_digest (fq_write_evidence_sha256 r)
                \<or> \<not> lower_digest (fq_cold_boot_evidence_sha256 r) \<or> fq_address_limit r > fo_capacity obs,
              fs ''flash_qualification_invalid'' ''incomplete qualification'')])
          (\<lambda>_. Inr (fq_address_limit r, Some r)))"

text \<open>\<open>next(p for p in parts if p.index == i)\<close>.\<close>

definition partition_at :: "int \<Rightarrow> flash_partition list \<Rightarrow> flash_partition result" where
  "partition_at i parts =
     (case find (\<lambda>p. fp_index p = i) parts of
        None \<Rightarrow> Inl (RuntimeError ''StopIteration'') | Some p \<Rightarrow> Inr p)"

definition erase_end_of :: "flash_partition \<Rightarrow> int \<Rightarrow> int" where
  "erase_end_of p fit_len =
     fp_start p + (fit_len + fp_erase_size p - 1) div fp_erase_size p * fp_erase_size p"

definition others :: "int \<Rightarrow> flash_partition list \<Rightarrow> interval list result" where
  "others i parts = mapE (\<lambda>p. interval_new (fp_start p) (fp_end p)) (filter (\<lambda>p. fp_index p \<noteq> i) parts)"

text \<open>The two interval checks, whose \<open>ValueError\<close> becomes a range refusal.\<close>

definition write_interval_checks ::
    "flash_partition list \<Rightarrow> flash_partition \<Rightarrow> flash_partition \<Rightarrow> int \<Rightarrow> int \<Rightarrow> int \<Rightarrow> unit result" where
  "write_interval_checks parts firmware env payload_end erase_end limit =
     bindE (interval_new (fp_start firmware) payload_end) (\<lambda>payload.
     bindE (interval_new (fp_start firmware) erase_end) (\<lambda>footprint.
     bindE (interval_new (fp_start firmware) (fp_end firmware)) (\<lambda>destination.
     bindE (others 3 parts) (\<lambda>protected.
     bindE (validate_write_intervals payload footprint destination limit protected) (\<lambda>_.
     bindE (interval_new (fp_start env) (fp_end env)) (\<lambda>environment.
     bindE (others 1 parts) (\<lambda>protected1.
       validate_write_intervals environment environment environment limit protected1)))))))"

definition range_refusal :: "unit result \<Rightarrow> unit result" where
  "range_refusal m =
     (case m of Inl (ValueError msg) \<Rightarrow> Inl (fs ''flash_range_unqualified'' msg) | _ \<Rightarrow> m)"

definition validate_flash ::
    "(bytes \<Rightarrow> string) \<Rightarrow> (flash_qualification \<Rightarrow> string) \<Rightarrow> flash_observation \<Rightarrow> bytes
     \<Rightarrow> flash_qualification list option \<Rightarrow> flash_decision result" where
  "validate_flash sha record_sha obs fit quals =
     (let parts = fo_partitions obs; fit_len = int (length fit) in
      bindE (validate_fit fit) (\<lambda>_.
      bindE (checks (flash_identity_checks obs fit_len)) (\<lambda>_.
      bindE (checks (partition_map_checks (fo_capacity obs) parts)) (\<lambda>_.
      bindE (partition_at 3 parts) (\<lambda>firmware.
      bindE (partition_at 1 parts) (\<lambda>env.
      bindE (checks
        [(fp_size env \<noteq> 0x20000 \<or> fp_erase_size env > 0x20000,
          fs ''flash_environment_unknown'' ''unsupported environment geometry'')]) (\<lambda>_.
      bindE (address_limit_of obs (case quals of None \<Rightarrow> QUALIFICATIONS | Some qs \<Rightarrow> qs)) (\<lambda>(limit, qual).
        let payload_end = fp_start firmware + fit_len;
            erase_end = erase_end_of firmware fit_len;
            allowed_end = min limit (fp_end firmware) in
      bindE (checks
        [(payload_end > allowed_end \<or> erase_end > allowed_end,
          fs ''flash_range_unqualified'' ''FIT exceeds the allowed physical end'')]) (\<lambda>_.
      bindE (range_refusal (write_interval_checks parts firmware env payload_end erase_end limit)) (\<lambda>_.
      bindE (checks
        [(list_ex (\<lambda>p. fp_index p \<noteq> 3 \<and> fp_end p > limit) parts,
          fs ''flash_range_unqualified'' ''protected/environment range exceeds limit'')]) (\<lambda>_. Inr
        \<lparr>fd_policy_version = ''ppu-physical-flash-v1'', fd_observation = obs, fd_fit_sha256 = sha fit,
         fd_fit_size = fit_len, fd_payload_start = fp_start firmware, fd_payload_end = payload_end,
         fd_erase_start = fp_start firmware, fd_erase_end = erase_end,
         fd_environment_start = fp_start env, fd_environment_end = fp_end env, fd_address_limit = limit,
         fd_qualification_id = map_option fq_qualification_id qual,
         fd_qualification_sha256 = map_option record_sha qual\<rparr>)))))))))))"

definition require_same_flash :: "flash_decision option \<Rightarrow> flash_decision \<Rightarrow> unit result" where
  "require_same_flash expected current = checks
     [(expected = None \<or> expected \<noteq> Some current,
       fs ''flash_observation_changed''
         ''image, target, boot, writer, layout or policy changed; create a new attested plan'')]"

section \<open>Partition maps\<close>

fun abut :: "flash_partition list \<Rightarrow> bool" where
  "abut (p # q # ps) \<longleftrightarrow> fp_end p = fp_start q \<and> abut (q # ps)"
| "abut _ \<longleftrightarrow> True"

lemma abut_zip: "abut ps \<longleftrightarrow> \<not> list_ex (\<lambda>(a, b). fp_end a \<noteq> fp_start b) (zip ps (tl ps))"
  by (induction ps rule: abut.induct) auto

definition inside :: "int \<Rightarrow> flash_partition \<Rightarrow> bool" where
  "inside a p \<longleftrightarrow> fp_start p \<le> a \<and> a < fp_end p"

lemma abut_starts:
  "abut (p # ps) \<Longrightarrow> \<forall>x \<in> set (p # ps). 0 < fp_size x \<Longrightarrow> x \<in> set ps \<Longrightarrow> fp_end p \<le> fp_start x"
proof (induction ps arbitrary: p)
  case (Cons q ps)
  have pq: "fp_end p = fp_start q" and ab: "abut (q # ps)" using Cons.prems(1) by auto
  show ?case
  proof (cases "x = q")
    case False
    then have "fp_end q \<le> fp_start x" using Cons.IH [OF ab] Cons.prems(2,3) by simp
    then show ?thesis using pq Cons.prems(2) by (simp add: fp_end_def)
  qed (simp add: pq)
qed simp

lemma abut_unique:
  "abut ps \<Longrightarrow> \<forall>x \<in> set ps. 0 < fp_size x \<Longrightarrow> ps \<noteq> [] \<Longrightarrow> fp_start (hd ps) \<le> a \<Longrightarrow>
     a < fp_end (last ps) \<Longrightarrow> \<exists>!p. p \<in> set ps \<and> inside a p"
proof (induction ps)
  case (Cons p ps)
  have later: "fp_end p \<le> fp_start x" if "x \<in> set ps" for x
    using abut_starts [OF Cons.prems(1,2) that] .
  show ?case
  proof (cases "a < fp_end p")
    case True
    have "\<not> inside a x" if "x \<in> set ps" for x using later [OF that] True by (simp add: inside_def)
    then show ?thesis using True Cons.prems(4) by (intro ex1I [of _ p]) (auto simp: inside_def)
  next
    case False
    then obtain q qs where ps: "ps = q # qs" using Cons.prems(5) by (cases ps) auto
    then have "\<exists>!x. x \<in> set ps \<and> inside a x" using Cons False by simp
    moreover have "\<not> inside a p" using False by (simp add: inside_def)
    ultimately show ?thesis by auto
  qed
qed simp

lemma partition_map_facts:
  assumes "checks (partition_map_checks capacity parts) = Inr ()"
  shows "set (map fp_index parts) = {0, 1, 2, 3}" and "length parts = 4"
    and "\<And>p. p \<in> set parts \<Longrightarrow> 0 \<le> fp_start p \<and> 0 < fp_size p \<and> 0 < fp_erase_size p \<and>
        fp_start p mod fp_erase_size p = 0 \<and> fp_size p mod fp_erase_size p = 0 \<and> fp_end p \<le> capacity"
    and "\<And>a. 0 \<le> a \<Longrightarrow> a < capacity \<Longrightarrow> \<exists>!p. p \<in> set parts \<and> inside a p"
proof -
  let ?ordered = "sort_key fp_start parts"
  show n: "set (map fp_index parts) = {0, 1, 2, 3}" "length parts = 4"
    using assms by (auto simp: partition_map_checks_def bindE_Inr_iff)
  have each: "checks (partition_checks capacity p) = Inr ()" if "p \<in> set parts" for p
    using assms that by (auto simp: partition_map_checks_def bindE_Inr_iff checks_ok_iff)
  show P: "0 \<le> fp_start p \<and> 0 < fp_size p \<and> 0 < fp_erase_size p \<and> fp_start p mod fp_erase_size p = 0 \<and>
      fp_size p mod fp_erase_size p = 0 \<and> fp_end p \<le> capacity" if "p \<in> set parts" for p
    using each [OF that] by (auto simp: partition_checks_def flash_integer_def)
  have O: "fp_start (hd ?ordered) = 0" "fp_end (last ?ordered) = capacity" "abut ?ordered"
    using assms by (auto simp: partition_map_checks_def bindE_Inr_iff Let_def abut_zip)
  have "?ordered \<noteq> []" using n(2) by (metis length_sort list.size(3) zero_neq_numeral)
  then show "\<exists>!p. p \<in> set parts \<and> inside a p" if "0 \<le> a" "a < capacity" for a
    using abut_unique [OF O(3), of a] P O(1,2) that by simp
qed

lemma erase_end_bounds:
  assumes "0 < n" and "0 < fp_erase_size p"
  shows "fp_start p + n \<le> erase_end_of p n" and "erase_end_of p n < fp_start p + n + fp_erase_size p"
proof -
  let ?e = "fp_erase_size p" and ?k = "(n + fp_erase_size p - 1) div fp_erase_size p"
  have eq: "(n + ?e - 1) = ?k * ?e + (n + ?e - 1) mod ?e" by simp
  have "0 \<le> (n + ?e - 1) mod ?e" "(n + ?e - 1) mod ?e < ?e" using assms(2) by simp_all
  then have "n \<le> ?k * ?e" "?k * ?e < n + ?e" using eq by linarith+
  then show "fp_start p + n \<le> erase_end_of p n" "erase_end_of p n < fp_start p + n + ?e"
    by (simp_all add: erase_end_of_def)
qed

section \<open>What an accepted decision guarantees\<close>

lemma address_limit_facts:
  assumes "address_limit_of obs quals = Inr (limit, qual)"
  shows "(qual = None \<longrightarrow> limit = min (fo_capacity obs) LEGACY_ADDRESS_LIMIT)"
    and "\<And>r. qual = Some r \<Longrightarrow> r \<in> set quals \<and> qualifies obs r \<and> limit = fq_address_limit r \<and>
        limit \<le> fo_capacity obs \<and> lower_digest (fq_write_evidence_sha256 r) \<and>
        lower_digest (fq_cold_boot_evidence_sha256 r)"
  using assms
  by (auto simp: address_limit_of_def bindE_Inr_iff flash_integer_def find_Some_iff split: option.splits)

lemma validate_flash_facts:
  assumes "validate_flash sha record_sha obs fit quals = Inr d"
  obtains p qual where "p \<in> set (fo_partitions obs)" and "fp_index p = 3"
    and "checks (partition_map_checks (fo_capacity obs) (fo_partitions obs)) = Inr ()"
    and "address_limit_of obs (case quals of None \<Rightarrow> QUALIFICATIONS | Some qs \<Rightarrow> qs) = Inr (fd_address_limit d, qual)"
    and "fd_payload_start d = fp_start p" and "fd_erase_start d = fp_start p"
    and "fd_payload_end d = fp_start p + int (length fit)"
    and "fd_erase_end d = erase_end_of p (int (length fit))"
    and "fd_erase_end d \<le> fd_address_limit d" and "fd_erase_end d \<le> fp_end p"
    and "\<And>q. q \<in> set (fo_partitions obs) \<Longrightarrow> fp_index q \<noteq> 3 \<Longrightarrow> fp_end q \<le> fd_address_limit d"
    and "0 < length fit" and "fd_qualification_id d = map_option fq_qualification_id qual"
proof -
  have "validate_fit fit = Inr ()" using assms by (auto simp: validate_flash_def Let_def bindE_Inr_iff)
  then have fit: "0 < length fit" using validate_fit_length by force
  obtain p where p: "find (\<lambda>p. fp_index p = 3) (fo_partitions obs) = Some p"
    and P: "partition_at 3 (fo_partitions obs) = Inr p"
    using assms by (auto simp: validate_flash_def Let_def bindE_Inr_iff partition_at_def split: option.splits)
  have ix: "p \<in> set (fo_partitions obs)" "fp_index p = 3"
    using p by (auto simp: find_Some_iff)
  obtain qual where q: "address_limit_of obs (case quals of None \<Rightarrow> QUALIFICATIONS | Some qs \<Rightarrow> qs)
      = Inr (fd_address_limit d, qual)" and qid: "fd_qualification_id d = map_option fq_qualification_id qual"
    using assms by (auto simp: validate_flash_def Let_def bindE_Inr_iff)
  show thesis
    by (rule that [OF ix _ q _ _ _ _ _ _ _ fit qid])
      (use assms P in \<open>auto simp: validate_flash_def Let_def bindE_Inr_iff list_ex_iff\<close>)
qed

definition flash_error :: "exn \<Rightarrow> bool" where
  "flash_error e \<longleftrightarrow> (\<exists>code msg. e = FlashSafetyError code msg) \<or> (\<exists>msg. e = FirmwareImageError msg)"

lemma flash_error_simps [simp]:
  "flash_error (fs code msg)" "flash_error (fi msg)" "flash_error (snd (flash_integer l z v))"
  by (simp_all add: flash_error_def fs_def fi_def flash_integer_def)

definition value_error :: "exn \<Rightarrow> bool" where
  "value_error e \<longleftrightarrow> (\<exists>msg. e = ValueError msg)"

lemma interval_raises [raise_intro]:
  "raises value_error (interval_new a b)" "raises value_error (others i parts)"
  "raises value_error (validate_write_intervals x y z l ps)"
proof -
  show I: "raises value_error (interval_new a b)" for a b
    by (simp add: interval_new_def value_error_def)
  show "raises value_error (others i parts)"
    unfolding others_def by (intro raise_intro I)
  show "raises value_error (validate_write_intervals x y z l ps)"
    unfolding validate_write_intervals_def by (intro raise_intro) (simp add: value_error_def)
qed

lemma write_intervals_raise: "raises flash_error (range_refusal (write_interval_checks parts firmware env p q limit))"
proof -
  have "raises value_error (write_interval_checks parts firmware env p q limit)"
    unfolding write_interval_checks_def by (intro raise_intro)
  then show ?thesis
    by (cases "write_interval_checks parts firmware env p q limit")
      (auto simp: range_refusal_def value_error_def)
qed

lemma partition_found:
  assumes "checks (partition_map_checks capacity parts) = Inr ()" and "i \<in> {1, 3}"
  shows "raises P (partition_at i parts)"
proof -
  have "i \<in> fp_index ` set parts" using partition_map_facts(1) [OF assms(1)] assms(2) by auto
  then show ?thesis by (cases "find (\<lambda>p. fp_index p = i) parts") (auto simp: partition_at_def find_None_iff)
qed

lemma guard_lists_raise:
  "list_all (\<lambda>c. flash_error (snd c)) (flash_identity_checks obs n)"
  "list_all (\<lambda>c. flash_error (snd c)) (partition_map_checks capacity parts)"
  "raises flash_error (validate_fit fit)" "raises flash_error (address_limit_of obs qs)"
proof -
  show "list_all (\<lambda>c. flash_error (snd c)) (flash_identity_checks obs n)"
    by (simp add: flash_identity_checks_def)
  show "list_all (\<lambda>c. flash_error (snd c)) (partition_map_checks capacity parts)"
    by (auto simp: partition_map_checks_def partition_checks_def list_all_iff Let_def)
  show "raises flash_error (validate_fit fit)"
    unfolding validate_fit_def by (intro raise_intro) simp
  have "raises flash_error (checks
      [flash_integer ''qualified address limit'' False l, (b, fs code msg)])" for l b code msg
    by (intro raise_intro) simp
  then show "raises flash_error (address_limit_of obs qs)"
    by (auto simp: address_limit_of_def split: option.splits intro!: raises_bindE)
qed

section \<open>A concrete radio\<close>

text \<open>A 32 MiB chip with the four partitions of the device, and a small valid FIT.\<close>

definition sample_partitions :: "flash_partition list" where
  "sample_partitions =
     [\<lparr>fp_index = 0, fp_name = ''qspi-fsbl-uboot'', fp_start = 0, fp_size = 0x100000, fp_erase_size = 0x10000\<rparr>,
      \<lparr>fp_index = 1, fp_name = ''qspi-uboot-env'', fp_start = 0x100000, fp_size = 0x20000, fp_erase_size = 0x10000\<rparr>,
      \<lparr>fp_index = 2, fp_name = ''qspi-nvmfs'', fp_start = 0x120000, fp_size = 0xE0000, fp_erase_size = 0x10000\<rparr>,
      \<lparr>fp_index = 3, fp_name = ''qspi-linux'', fp_start = 0x200000, fp_size = 0x1E00000, fp_erase_size = 0x10000\<rparr>]"

definition zero_digest :: string where
  "zero_digest = replicate 64 (CHR ''0'')"

definition sample_chip :: flash_observation where
  "sample_chip = \<lparr>fo_serial = ''s'', fo_boot_id = ''b'', fo_kernel = ''k'',
     fo_updater_sha256 = LEGACY_UPDATER_SHA256, fo_tools_sha256 = zero_digest, fo_boot_sha256 = zero_digest,
     fo_flash_identity = ''jedec:20ba19'', fo_capacity = 0x2000000, fo_partitions = sample_partitions,
     fo_environment_sha256 = zero_digest, fo_report_sha256 = zero_digest, fo_board_identity = zero_digest\<rparr>"

lemma sample_digests: "lower_digest zero_digest" "lower_digest LEGACY_UPDATER_SHA256"
  by (simp add: lower_digest_def zero_digest_def lower_hex_def list_all_iff)
    (simp add: lower_digest_def LEGACY_UPDATER_SHA256_def lower_hex_def)

lemma sample_accepted: "\<exists>d. validate_flash sha record_sha sample_chip sample_fit None = Inr d"
proof -
  have J: "jedec_of sample_chip = ''20ba19''"
    by (simp add: jedec_of_def sample_chip_def after_last_def)
  have D: "jedec_density sample_chip = 25"
    by (simp add: jedec_density_def J slice_def hex_value_def hex_digit_def)
  have I: "checks (flash_identity_checks sample_chip 66) = Inr ()"
    using sample_digests
    by (simp add: flash_identity_checks_def J D flash_integer_def checks_eval)
      (simp add: sample_chip_def lower_hex_def LEGACY_UPDATER_SHA256_def ISSUE99_UPDATER_SHA256_def)
  have M: "checks (partition_map_checks 0x2000000 sample_partitions) = Inr ()"
    by (simp add: partition_map_checks_def sample_partitions_def partition_checks_def role_name_def
        flash_integer_def fp_end_def checks_eval)
  have W: "write_interval_checks sample_partitions (sample_partitions ! 3) (sample_partitions ! 1)
      0x200042 0x210000 0x1000000 = Inr ()"
    by (simp add: write_interval_checks_def sample_partitions_def interval_new_def others_def fp_end_def
        validate_write_intervals_def iv_contains_def iv_overlaps_def checks_eval)
  have P: "partition_at 3 sample_partitions = Inr (sample_partitions ! 3)"
    "partition_at 1 sample_partitions = Inr (sample_partitions ! 1)"
    by (simp_all add: partition_at_def sample_partitions_def)
  have O: "fo_partitions sample_chip = sample_partitions" "fo_capacity sample_chip = 0x2000000"
    by (simp_all add: sample_chip_def)
  have L: "address_limit_of sample_chip QUALIFICATIONS = Inr (0x1000000, None)"
    by (simp add: address_limit_of_def QUALIFICATIONS_def O)
  have E: "fp_start (sample_partitions ! 3) = 0x200000" "fp_end (sample_partitions ! 3) = 0x2000000"
    "erase_end_of (sample_partitions ! 3) 66 = 0x210000" "fp_size (sample_partitions ! 1) = 0x20000"
    "fp_erase_size (sample_partitions ! 1) = 0x10000"
    by (simp_all add: sample_partitions_def fp_end_def erase_end_of_def)
  have Q: "list_ex (\<lambda>p. fp_index p \<noteq> 3 \<and> fp_end p > 0x1000000) sample_partitions = False"
    by (simp add: sample_partitions_def fp_end_def)
  show ?thesis using sample_fit_valid I M W P L E Q
    by (simp add: validate_flash_def O sample_fit_length Let_def checks_eval range_refusal_def)
qed

section \<open>Properties\<close>

text \<open>
  C35: confinement of the write: when the policy accepts a FIT, the four partitions lie inside the chip
  and tile it, every address belonging to exactly one of them. The payload and the whole erase
  footprint start at the firmware partition and lie below the address limit, and every byte of flash
  they touch belongs to the firmware partition only, so no byte of the boot loader, its environment or
  the non-volatile store is erased or programmed. The footprint consists of whole erase blocks: it
  starts on a block boundary and is the payload rounded up to the next one.
\<close>

theorem accepted_flash_write_is_confined:
  assumes "validate_flash sha record_sha obs fit quals = Inr d"
  shows "(\<forall>a. fd_erase_start d \<le> a \<and> a < fd_erase_end d \<longrightarrow> 0 \<le> a \<and> a < fd_address_limit d \<and>
      (\<exists>!p. p \<in> set (fo_partitions obs) \<and> fp_start p \<le> a \<and> a < fp_end p) \<and>
      (\<forall>p \<in> set (fo_partitions obs). fp_start p \<le> a \<and> a < fp_end p \<longrightarrow> fp_index p = 3)) \<and>
    fd_erase_start d = fd_payload_start d \<and> fd_payload_end d = fd_payload_start d + int (length fit) \<and>
    fd_payload_end d \<le> fd_erase_end d \<and>
    (\<exists>p \<in> set (fo_partitions obs). fp_index p = 3 \<and> fd_erase_end d < fd_payload_end d + fp_erase_size p \<and>
       fd_erase_start d = fp_start p \<and> fd_erase_end d \<le> fp_end p \<and> 0 < fp_erase_size p \<and>
       fp_erase_size p dvd fd_erase_start d \<and> fp_erase_size p dvd fd_erase_end d) \<and>
    length (fo_partitions obs) = 4 \<and> set (map fp_index (fo_partitions obs)) = {0, 1, 2, 3} \<and>
    (\<forall>p \<in> set (fo_partitions obs). 0 \<le> fp_start p \<and> fp_start p < fp_end p \<and> fp_end p \<le> fo_capacity obs) \<and>
    (\<forall>a. 0 \<le> a \<and> a < fo_capacity obs \<longrightarrow>
       (\<exists>!p. p \<in> set (fo_partitions obs) \<and> fp_start p \<le> a \<and> a < fp_end p))"
proof -
  obtain p qual where p: "p \<in> set (fo_partitions obs)" "fp_index p = 3"
    and M: "checks (partition_map_checks (fo_capacity obs) (fo_partitions obs)) = Inr ()"
    and s: "fd_payload_start d = fp_start p" "fd_erase_start d = fp_start p"
      "fd_payload_end d = fp_start p + int (length fit)" "fd_erase_end d = erase_end_of p (int (length fit))"
    and e: "fd_erase_end d \<le> fd_address_limit d" "fd_erase_end d \<le> fp_end p" and n: "0 < length fit"
    by (rule validate_flash_facts [OF assms])
  note F = partition_map_facts [OF M]
  have b: "0 \<le> fp_start p" "fp_end p \<le> fo_capacity obs" "0 < fp_erase_size p" "fp_erase_size p dvd fp_start p"
    using F(3) [OF p(1)] by (simp_all add: mod_eq_0_iff_dvd)
  note E = erase_end_bounds [of "int (length fit)" p, OF _ b(3)]
  have whole: "fp_erase_size p dvd fd_erase_end d" by (simp add: s(4) erase_end_of_def b(4))
  have tiled: "\<exists>!q. q \<in> set (fo_partitions obs) \<and> fp_start q \<le> a \<and> a < fp_end q" if "0 \<le> a" "a < fo_capacity obs" for a
    using F(4) [OF that] by (simp add: inside_def)
  have one: "0 \<le> a \<and> a < fd_address_limit d \<and>
      (\<exists>!q. q \<in> set (fo_partitions obs) \<and> fp_start q \<le> a \<and> a < fp_end q) \<and>
      (\<forall>q \<in> set (fo_partitions obs). fp_start q \<le> a \<and> a < fp_end q \<longrightarrow> fp_index q = 3)"
    if a: "fd_erase_start d \<le> a" "a < fd_erase_end d" for a
  proof -
    have r: "0 \<le> a" "a < fo_capacity obs" "fp_start p \<le> a" "a < fp_end p" using a s(2) e(2) b(1,2) by simp_all
    then have "\<forall>q \<in> set (fo_partitions obs). fp_start q \<le> a \<and> a < fp_end q \<longrightarrow> q = p" using tiled [OF r(1,2)] p(1) by blast
    then show ?thesis using tiled [OF r(1,2)] p(2) a e(1) r(1) by auto
  qed
  have map: "\<forall>q \<in> set (fo_partitions obs). 0 \<le> fp_start q \<and> fp_start q < fp_end q \<and> fp_end q \<le> fo_capacity obs"
    using F(3) by (auto simp: fp_end_def)
  have fw: "\<exists>q \<in> set (fo_partitions obs). fp_index q = 3 \<and> fd_erase_end d < fd_payload_end d + fp_erase_size q \<and>
       fd_erase_start d = fp_start q \<and> fd_erase_end d \<le> fp_end q \<and> 0 < fp_erase_size q \<and>
       fp_erase_size q dvd fd_erase_start d \<and> fp_erase_size q dvd fd_erase_end d"
    using p s b e(2) whole E n by (intro bexI [of _ p]) simp_all
  have ends: "fd_erase_start d = fd_payload_start d" "fd_payload_end d = fd_payload_start d + int (length fit)"
    "fd_payload_end d \<le> fd_erase_end d"
    using s E n by simp_all
  have confined: "\<forall>a. fd_erase_start d \<le> a \<and> a < fd_erase_end d \<longrightarrow> 0 \<le> a \<and> a < fd_address_limit d \<and>
      (\<exists>!q. q \<in> set (fo_partitions obs) \<and> fp_start q \<le> a \<and> a < fp_end q) \<and>
      (\<forall>q \<in> set (fo_partitions obs). fp_start q \<le> a \<and> a < fp_end q \<longrightarrow> fp_index q = 3)"
    using one by blast
  have tiles: "\<forall>a. 0 \<le> a \<and> a < fo_capacity obs \<longrightarrow>
      (\<exists>!q. q \<in> set (fo_partitions obs) \<and> fp_start q \<le> a \<and> a < fp_end q)"
    using tiled by blast
  show ?thesis by (intro conjI confined ends fw F(1,2) map tiles)
qed

text \<open>On the sample chip the image takes the first block of the firmware partition.\<close>

theorem accepted_flash_write_is_confined_witness:
  "\<exists>d. validate_flash (\<lambda>_. zero_digest) (\<lambda>_. zero_digest) sample_chip sample_fit None = Inr d \<and>
     fd_payload_start d = 0x200000 \<and> fd_erase_start d = 0x200000 \<and> fd_erase_end d = 0x210000"
proof -
  obtain d where d: "validate_flash (\<lambda>_. zero_digest) (\<lambda>_. zero_digest) sample_chip sample_fit None = Inr d"
    using sample_accepted by blast
  have "fp_start p = 0x200000 \<and> fp_erase_size p = 0x10000" if "p \<in> set (fo_partitions sample_chip)" "fp_index p = 3" for p
    using that by (auto simp: sample_chip_def sample_partitions_def)
  with accepted_flash_write_is_confined [OF d] have f: "fd_erase_start d = 0x200000" "fd_payload_start d = 0x200000"
    "fd_payload_end d = 0x200000 + int (length sample_fit)" "fd_payload_end d \<le> fd_erase_end d"
    "fd_erase_end d < fd_payload_end d + 0x10000" "0x10000 dvd fd_erase_end d"
    by fastforce+
  then obtain k where k: "fd_erase_end d = 0x10000 * k" by blast
  then have "32 < k" "k < 34" using f by (simp_all add: sample_fit_length)
  then have "fd_erase_end d = 0x210000" using k by simp
  then show ?thesis using d f by blast
qed

text \<open>
  C36: no write above 16 MiB without a qualification: if the accepted footprint ends above the legacy
  limit, the caller supplied a qualification record that matches the observed chip, board, kernel,
  updater, tools, boot image and partition map exactly, carries both evidence digests, and itself
  allows that address; with the shipped (empty) list every footprint ends within 16 MiB.
\<close>

theorem high_writes_need_qualification:
  assumes "validate_flash sha record_sha obs fit quals = Inr d"
  shows "(fd_erase_end d > 0x1000000 \<longrightarrow> (\<exists>qs r. quals = Some qs \<and> r \<in> set qs \<and> qualifies obs r \<and>
      lower_digest (fq_write_evidence_sha256 r) \<and> lower_digest (fq_cold_boot_evidence_sha256 r) \<and>
      fd_erase_end d \<le> fq_address_limit r \<and> fd_qualification_id d = Some (fq_qualification_id r))) \<and>
    (quals = None \<longrightarrow> fd_erase_end d \<le> 0x1000000 \<and> fd_qualification_id d = None)"
proof -
  let ?qs = "case quals of None \<Rightarrow> QUALIFICATIONS | Some qs \<Rightarrow> qs"
  obtain p qual where q: "address_limit_of obs ?qs = Inr (fd_address_limit d, qual)"
    and e: "fd_erase_end d \<le> fd_address_limit d" and i: "fd_qualification_id d = map_option fq_qualification_id qual"
    by (rule validate_flash_facts [OF assms])
  note A = address_limit_facts [OF q]
  show ?thesis
  proof (cases qual)
    case None
    then show ?thesis using A(1) e i by simp
  next
    case (Some r)
    then show ?thesis using A(2) [OF Some] e i by (cases quals) (auto simp: QUALIFICATIONS_def)
  qed
qed

theorem high_writes_need_qualification_witness:
  "\<exists>d. validate_flash (\<lambda>_. zero_digest) (\<lambda>_. zero_digest) sample_chip sample_fit None = Inr d \<and>
     fd_erase_end d \<le> 0x1000000"
proof -
  obtain d where d: "validate_flash (\<lambda>_. zero_digest) (\<lambda>_. zero_digest) sample_chip sample_fit None = Inr d"
    using sample_accepted by blast
  from high_writes_need_qualification [OF this] d show ?thesis by blast
qed

text \<open>
  whatever the observation and the image hold, the policy refuses with one of its two error
  classes: it never fails with a \<open>StopIteration\<close>, a plain \<open>ValueError\<close> or another exception.
\<close>

theorem flash_policy_errors:
  assumes "validate_flash sha record_sha obs fit quals = Inl e"
  shows "(\<exists>code msg. e = FlashSafetyError code msg) \<or> (\<exists>msg. e = FirmwareImageError msg)"
proof -
  have "raises flash_error (validate_flash sha record_sha obs fit quals)"
    unfolding validate_flash_def Let_def case_prod_unfold
    by (intro raise_intro guard_lists_raise write_intervals_raise partition_found)
      (assumption | simp)+
  then show ?thesis using assms by (simp add: raises_def flash_error_def)
qed

theorem flash_policy_errors_witness:
  "\<exists>e. validate_flash (\<lambda>_. zero_digest) (\<lambda>_. zero_digest) sample_chip [] None = Inl e \<and>
     ((\<exists>code msg. e = FlashSafetyError code msg) \<or> (\<exists>msg. e = FirmwareImageError msg))"
proof -
  have "\<exists>e. validate_flash (\<lambda>_. zero_digest) (\<lambda>_. zero_digest) sample_chip [] None = Inl e"
    by (simp add: validate_flash_def validate_fit_def checks_eval Let_def)
  then show ?thesis using flash_policy_errors by blast
qed

end
