(* ===== verification/Flash_Environment.thy ===== *)
theory Flash_Environment
  imports Flash_Safety
begin

text \<open>
  \<open>flash_safety.py\<close>, the readback after a write: the U-Boot environment decoder and the check that a
  firmware update changed nothing but the \<open>fit_size\<close> variable. A Python dictionary is an
  association list with distinct keys; two of them are equal when they hold the same items.
\<close>

section \<open>Decoding an environment\<close>

definition protected_changed :: "string \<Rightarrow> exn" where
  "protected_changed = fs ''protected_region_changed''"

definition LEGACY_DUPLICATE_PREBOOT :: bytes where
  "LEGACY_DUPLICATE_PREBOOT = ascii_bytes
     ''if test $modeboot = sdboot && env run sd_uEnvtxt_existence_test; then if env run loadbootenv; then env run importbootenv; fi; fi; ''"

text \<open>\<open>data.find(b"\0\0")\<close>.\<close>

fun find_terminator :: "bytes \<Rightarrow> nat option" where
  "find_terminator (a # b # bs) =
     (if a = 0 \<and> b = 0 then Some 0 else map_option Suc (find_terminator (b # bs)))"
| "find_terminator _ = None"

definition entry_key :: "bytes \<Rightarrow> bytes" where
  "entry_key e = takeWhile (\<lambda>b. b \<noteq> 61) e"

definition entry_value :: "bytes \<Rightarrow> bytes" where
  "entry_value e = drop (Suc (length (entry_key e))) e"

definition legacy_preboot :: "bool \<Rightarrow> bytes list \<Rightarrow> nat \<Rightarrow> bytes \<Rightarrow> bytes \<Rightarrow> (bytes \<times> bytes) list \<Rightarrow> bool" where
  "legacy_preboot allow entries position key value env \<longleftrightarrow>
     allow \<and> key = ascii_bytes ''preboot'' \<and> map_of env key = Some []
     \<and> value = LEGACY_DUPLICATE_PREBOOT \<and> position > 0
     \<and> entries ! (position - 1) = ascii_bytes ''preboot=''
     \<and> length (filter (\<lambda>e. take 8 e = ascii_bytes ''preboot='') entries) = 2"

fun env_entries ::
    "bool \<Rightarrow> bytes list \<Rightarrow> nat \<Rightarrow> bytes list \<Rightarrow> (bytes \<times> bytes) list \<Rightarrow> bool \<Rightarrow> ((bytes \<times> bytes) list \<times> bool) result" where
  "env_entries allow entries position [] env legacy = Inr (env, legacy)"
| "env_entries allow entries position (e # es) env legacy =
     (if 61 \<notin> set e \<or> entry_key e = []
      then Inl (protected_changed ''invalid/duplicate environment key'')
      else if map_of env (entry_key e) \<noteq> None then
        if legacy_preboot allow entries position (entry_key e) (entry_value e) env
        then env_entries allow entries (Suc position) es (AList.update (entry_key e) (entry_value e) env) True
        else Inl (protected_changed ''invalid/duplicate environment key'')
      else env_entries allow entries (Suc position) es (AList.update (entry_key e) (entry_value e) env) legacy)"

definition decode_env :: "bytes \<Rightarrow> bool \<Rightarrow> bool \<Rightarrow> ((bytes \<times> bytes) list \<times> bool) result" where
  "decode_env raw opaque_padding allow =
     (if length raw \<noteq> 0x20000 \<or> le_value (take 4 raw) \<noteq> crc32 (drop 4 raw)
      then Inl (protected_changed ''invalid environment size/CRC'')
      else let data = drop 4 raw in
        case find_terminator data of
          None \<Rightarrow> Inl (protected_changed ''invalid environment encoding/padding'')
        | Some t \<Rightarrow>
            if \<not> opaque_padding \<and> (\<exists>b \<in> set (drop (t + 2) data). b \<noteq> 0 \<and> b \<noteq> 255)
            then Inl (protected_changed ''invalid environment encoding/padding'')
            else let entries = split_bytes 0 (take t data) in
              env_entries allow entries 0 entries [] False)"

definition decode_environment :: "bytes \<Rightarrow> bool \<Rightarrow> bool \<Rightarrow> (bytes \<times> bytes) list result" where
  "decode_environment raw opaque_padding allow =
     bindE (decode_env raw opaque_padding allow) (\<lambda>(env, _). Inr env)"

section \<open>Verifying the protected regions\<close>

definition FIT_SIZE :: bytes where
  "FIT_SIZE = ascii_bytes ''fit_size''"

definition same_dict :: "('k \<times> 'v) list \<Rightarrow> ('k \<times> 'v) list \<Rightarrow> bool" where
  "same_dict xs ys \<longleftrightarrow> set xs = set ys"

definition region :: "(int \<times> bytes) list \<Rightarrow> int \<Rightarrow> bytes" where
  "region regions i = (case map_of regions i of Some bs \<Rightarrow> bs | None \<Rightarrow> [])"

definition verify_protected :: "(int \<times> bytes) list \<Rightarrow> (int \<times> bytes) list \<Rightarrow> nat \<Rightarrow> bool \<Rightarrow> unit result" where
  "verify_protected before after fit_size opaque_padding =
     bindE (checks
       [(fst ` set before \<noteq> {0, 1, 2} \<or> fst ` set after \<noteq> fst ` set before,
         fs ''protected_verification_unavailable'' ''incomplete protected readback''),
        (region before 0 = [] \<or> region after 0 \<noteq> region before 0,
         protected_changed ''mtd0 changed; do not reboot''),
        (region before 2 = [] \<or> region after 2 \<noteq> region before 2,
         protected_changed ''mtd2 changed; do not reboot'')]) (\<lambda>_.
     bindE (decode_env (region before 1) opaque_padding True) (\<lambda>(expected, before_legacy).
     bindE (checks
       [(map_of expected FIT_SIZE = None,
         protected_changed ''pre-write U-Boot environment lacks fit_size'')]) (\<lambda>_.
     bindE (decode_env (region after 1) opaque_padding True) (\<lambda>(observed, after_legacy). checks
       [((after_legacy \<and> \<not> before_legacy)
           \<or> \<not> same_dict observed (AList.update FIT_SIZE (ascii_bytes (hex_upper fit_size)) expected),
         protected_changed ''unexpected U-Boot environment changes'')]))))"

section \<open>Decoded environments are dictionaries\<close>

lemma env_entries_distinct:
  "env_entries allow entries position es env legacy = Inr (env1, l) \<Longrightarrow> distinct (map fst env) \<Longrightarrow>
     distinct (map fst env1)"
  by (induction allow entries position es env legacy rule: env_entries.induct)
    (auto simp: distinct_update split: if_splits)

lemma decode_env_distinct: "decode_env raw opq allow = Inr (env, l) \<Longrightarrow> distinct (map fst env)"
  by (auto simp: decode_env_def Let_def split: if_splits option.splits dest!: env_entries_distinct)

lemma same_dict_map_of:
  "distinct (map fst xs) \<Longrightarrow> distinct (map fst ys) \<Longrightarrow> same_dict xs ys \<longleftrightarrow> map_of xs = map_of ys"
  by (simp add: same_dict_def map_of_inject_set)

section \<open>Well-formed environment images\<close>

definition entry_bytes :: "bytes \<times> bytes \<Rightarrow> bytes" where
  "entry_bytes kv = fst kv @ 61 # snd kv"

fun join_entries :: "bytes list \<Rightarrow> bytes" where
  "join_entries [] = []"
| "join_entries [e] = e"
| "join_entries (e # es) = e @ 0 # join_entries es"

definition well_formed_env :: "(bytes \<times> bytes) list \<Rightarrow> bool" where
  "well_formed_env env \<longleftrightarrow> env \<noteq> [] \<and> distinct (map fst env) \<and>
     (\<forall>(k, v) \<in> set env. k \<noteq> [] \<and> 0 \<notin> set k \<and> 61 \<notin> set k \<and> 0 \<notin> set v)"

definition env_image :: "(bytes \<times> bytes) list \<Rightarrow> bytes \<Rightarrow> bytes" where
  "env_image env padding =
     (let data = join_entries (map entry_bytes env) @ [0, 0] @ padding in le_bytes 4 (crc32 data) @ data)"

fun gapless :: "bytes \<Rightarrow> bool" where
  "gapless (a # b # bs) \<longleftrightarrow> (a \<noteq> 0 \<or> b \<noteq> 0) \<and> gapless (b # bs)"
| "gapless [a] \<longleftrightarrow> a \<noteq> 0"
| "gapless [] \<longleftrightarrow> True"

lemma find_terminator_gapless: "gapless t \<Longrightarrow> find_terminator (t @ 0 # 0 # padding) = Some (length t)"
  by (induction t rule: gapless.induct) auto

lemma gapless_free: "0 \<notin> set x \<Longrightarrow> gapless x"
  by (induction x rule: gapless.induct) auto

lemma gapless_join_step:
  "0 \<notin> set x \<Longrightarrow> x \<noteq> [] \<Longrightarrow> gapless rest \<Longrightarrow> rest \<noteq> [] \<Longrightarrow> hd rest \<noteq> 0 \<Longrightarrow> gapless (x @ 0 # rest)"
proof (induction x rule: gapless.induct)
  case (2 a)
  then show ?case by (cases rest) auto
qed auto

lemma join_entries_facts:
  "\<forall>e \<in> set es. 0 \<notin> set e \<and> e \<noteq> [] \<Longrightarrow> es \<noteq> [] \<Longrightarrow>
     gapless (join_entries es) \<and> join_entries es \<noteq> [] \<and> hd (join_entries es) \<noteq> 0 \<and>
     split_bytes 0 (join_entries es) = es"
proof (induction es rule: join_entries.induct)
  case (2 e)
  then have e: "0 \<notin> set e" "e \<noteq> []" by simp_all
  then have "hd e \<noteq> 0" using hd_in_set by metis
  then show ?case using e by (simp add: gapless_free split_bytes_none)
next
  case (3 e f fs)
  have e: "0 \<notin> set e" "e \<noteq> []" using "3.prems" by simp_all
  then have h: "hd e \<noteq> 0" using hd_in_set by metis
  have IH: "gapless (join_entries (f # fs)) \<and> join_entries (f # fs) \<noteq> [] \<and>
      hd (join_entries (f # fs)) \<noteq> 0 \<and> split_bytes 0 (join_entries (f # fs)) = f # fs"
    using "3.IH" "3.prems" by simp
  show ?case
    using gapless_join_step [OF e] IH e h by (simp add: split_bytes_append)
qed simp

lemma entry_parts:
  assumes "61 \<notin> set k"
  shows "entry_key (entry_bytes (k, v)) = k" and "entry_value (entry_bytes (k, v)) = v"
proof -
  have "takeWhile (\<lambda>b. b \<noteq> 61) (k @ 61 # v) = k" using assms
    by (subst takeWhile_append2) auto
  then show "entry_key (entry_bytes (k, v)) = k" by (simp add: entry_key_def entry_bytes_def)
  then show "entry_value (entry_bytes (k, v)) = v" by (simp add: entry_value_def) (simp add: entry_bytes_def)
qed

lemma env_entries_well_formed:
  "\<forall>(k, v) \<in> set env. k \<noteq> [] \<and> 61 \<notin> set k \<Longrightarrow> distinct (map fst (seen @ env)) \<Longrightarrow>
     env_entries allow entries position (map entry_bytes env) seen legacy = Inr (seen @ env, legacy)"
proof (induction env arbitrary: seen position)
  case (Cons kv env)
  obtain k v where kv: "kv = (k, v)" by (cases kv)
  have k: "k \<noteq> []" "61 \<notin> set k" using Cons.prems(1) kv by auto
  have new: "k \<notin> fst ` set seen" using Cons.prems(2) kv by auto
  then have none: "map_of seen k = None" by (simp add: map_of_eq_None_iff)
  have "61 \<in> set (entry_bytes (k, v))" by (simp add: entry_bytes_def)
  moreover have "AList.update k v seen = seen @ [(k, v)]" using none by (rule update_new_append)
  ultimately show ?case
    using Cons.IH [of "seen @ [(k, v)]" "Suc position"] Cons.prems k none
    by (simp add: kv entry_parts)
qed simp

text \<open>The decoder inverts the image of every well-formed environment.\<close>

lemma decode_env_image:
  assumes "well_formed_env env" and "length (env_image env padding) = 0x20000"
    and "opq \<or> set padding \<subseteq> {0, 255}"
  shows "decode_env (env_image env padding) opq allow = Inr (env, False)"
proof -
  let ?es = "map entry_bytes env"
  let ?data = "join_entries ?es @ [0, 0] @ padding"
  have img: "env_image env padding = le_bytes 4 (crc32 ?data) @ ?data" by (simp add: env_image_def Let_def)
  have d: "drop 4 (env_image env padding) = ?data" "take 4 (env_image env padding) = le_bytes 4 (crc32 ?data)"
    by (simp_all add: img)
  have crc: "le_value (le_bytes 4 (crc32 ?data)) = crc32 ?data"
    by (rule le_value_le_bytes) (use crc32_bounds [of ?data] in simp_all)
  have "\<forall>e \<in> set ?es. 0 \<notin> set e \<and> e \<noteq> []" using assms(1) by (auto simp: well_formed_env_def entry_bytes_def)
  then have J: "gapless (join_entries ?es)" "split_bytes 0 (join_entries ?es) = ?es"
    using join_entries_facts [of ?es] assms(1) by (simp_all add: well_formed_env_def)
  have t: "find_terminator ?data = Some (length (join_entries ?es))"
    using find_terminator_gapless [OF J(1)] by simp
  have "env_entries allow ?es 0 ?es [] False = Inr (env, False)"
  proof -
    have "\<forall>(k, v) \<in> set env. k \<noteq> [] \<and> 61 \<notin> set k" "distinct (map fst ([] @ env))"
      using assms(1) by (auto simp: well_formed_env_def)
    then show ?thesis by (simp only: env_entries_well_formed append_Nil)
  qed
  then show ?thesis using assms(2,3) t J(2) crc by (auto simp: decode_env_def d Let_def)
qed

lemma verify_updated:
  assumes "well_formed_env env" and "map_of env FIT_SIZE \<noteq> None"
    and "length (env_image env padding) = 0x20000"
    and "length (env_image (AList.update FIT_SIZE (ascii_bytes (hex_upper n)) env) padding1) = 0x20000"
    and "set padding \<subseteq> {0, 255}" and "set padding1 \<subseteq> {0, 255}" and "boot \<noteq> []" and "store \<noteq> []"
  shows "verify_protected [(0, boot), (1, env_image env padding), (2, store)]
    [(0, boot), (1, env_image (AList.update FIT_SIZE (ascii_bytes (hex_upper n)) env) padding1), (2, store)] n False
    = Inr ()"
proof -
  let ?new = "AList.update FIT_SIZE (ascii_bytes (hex_upper n)) env"
  have W: "well_formed_env ?new" using assms(1) hex_upper_text [of n]
    by (auto simp: well_formed_env_def distinct_update FIT_SIZE_def dest!: update_values)
      (auto simp: ascii_bytes_def)
  have "decode_env (env_image env padding) False True = Inr (env, False)"
    by (rule decode_env_image) (use assms in simp_all)
  moreover have "decode_env (env_image ?new padding1) False True = Inr (?new, False)"
    by (rule decode_env_image) (use assms W in simp_all)
  ultimately show ?thesis using assms(2,7,8)
    by (auto simp: verify_protected_def region_def same_dict_def checks_eval)
qed

section \<open>Properties\<close>

text \<open>
  C37: the environment decoder is exact: for every well-formed environment (distinct, non-empty keys
  without NUL or \<open>=\<close>, values without NUL) of any number of variables, with any admissible padding,
  the image with its CRC decodes to exactly those variables.
\<close>

theorem environment_round_trip:
  assumes "well_formed_env env" and "length (env_image env padding) = 0x20000"
    and "opaque_padding \<or> set padding \<subseteq> {0, 255}"
  shows "decode_environment (env_image env padding) opaque_padding allow = Inr env"
  using decode_env_image [OF assms] by (simp add: decode_environment_def)

definition sample_env :: "(bytes \<times> bytes) list" where
  "sample_env = [(ascii_bytes ''a'', []), (FIT_SIZE, ascii_bytes ''42'')]"

definition sample_padding :: bytes where
  "sample_padding = replicate 131052 0"

lemma sample_env_ok: "well_formed_env sample_env" "length (env_image sample_env sample_padding) = 0x20000"
  by (simp_all add: well_formed_env_def sample_env_def FIT_SIZE_def ascii_bytes_def env_image_def
      entry_bytes_def sample_padding_def Let_def)

lemma sample_env_updated:
  "hex_upper 67 = ''43''" "map_of sample_env FIT_SIZE \<noteq> None"
  "length (env_image (AList.update FIT_SIZE (ascii_bytes (hex_upper 67)) sample_env) sample_padding) = 0x20000"
proof -
  show h: "hex_upper 67 = ''43''" by (simp add: hex_upper.simps hex_char_upper_def)
  show "map_of sample_env FIT_SIZE \<noteq> None" by (simp add: sample_env_def)
  show "length (env_image (AList.update FIT_SIZE (ascii_bytes (hex_upper 67)) sample_env) sample_padding) = 0x20000"
    by (simp add: h sample_env_def FIT_SIZE_def ascii_bytes_def env_image_def entry_bytes_def
        sample_padding_def Let_def)
qed

lemma sample_padding_zero: "set sample_padding \<subseteq> {0, 255}"
  by (simp add: sample_padding_def)

theorem environment_round_trip_witness:
  "decode_environment (env_image sample_env sample_padding) False True = Inr sample_env"
  by (rule environment_round_trip [OF sample_env_ok]) (simp add: sample_padding_def)

text \<open>
  C38: soundness of the readback check: when it passes, the boot loader and the non-volatile store are
  unchanged byte for byte, and the environment after the write is the one before it with
  \<open>fit_size\<close>, and nothing else, set to the size of the FIT in hexadecimal.
\<close>

theorem verified_write_changed_only_fit_size:
  assumes "verify_protected before after fit_size opaque_padding = Inr ()"
  shows "region after 0 = region before 0 \<and> region after 2 = region before 2 \<and>
    (\<exists>env env1. decode_environment (region before 1) opaque_padding True = Inr env \<and>
       decode_environment (region after 1) opaque_padding True = Inr env1 \<and>
       map_of env FIT_SIZE \<noteq> None \<and> map_of env1 FIT_SIZE = Some (ascii_bytes (hex_upper fit_size)) \<and>
       (\<forall>k. k \<noteq> FIT_SIZE \<longrightarrow> map_of env1 k = map_of env k))"
proof -
  obtain env l env1 l1 where B: "decode_env (region before 1) opaque_padding True = Inr (env, l)"
    and A: "decode_env (region after 1) opaque_padding True = Inr (env1, l1)"
    and f: "map_of env FIT_SIZE \<noteq> None"
    and e: "same_dict env1 (AList.update FIT_SIZE (ascii_bytes (hex_upper fit_size)) env)"
    and r: "region after 0 = region before 0" "region after 2 = region before 2"
    using assms by (auto simp: verify_protected_def bindE_Inr_iff)
  have "map_of env1 = (map_of env)(FIT_SIZE \<mapsto> ascii_bytes (hex_upper fit_size))"
    using e decode_env_distinct [OF A] decode_env_distinct [OF B]
    by (simp add: same_dict_map_of distinct_update update_conv')
  then show ?thesis using r f A B by (simp add: decode_environment_def)
qed

lemma sample_env_verifies:
  "verify_protected [(0, [1]), (1, env_image sample_env sample_padding), (2, [2])]
    [(0, [1]), (1, env_image (AList.update FIT_SIZE (ascii_bytes (hex_upper 67)) sample_env) sample_padding),
     (2, [2])] 67 False = Inr ()"
  by (rule verify_updated [OF sample_env_ok(1) sample_env_updated(2) sample_env_ok(2) sample_env_updated(3)
        sample_padding_zero sample_padding_zero]) simp_all

theorem verified_write_changed_only_fit_size_witness:
  "\<exists>after. verify_protected [(0, [1]), (1, env_image sample_env sample_padding), (2, [2])] after 67 False = Inr () \<and>
     (\<exists>env1. decode_environment (region after 1) False True = Inr env1 \<and>
        map_of env1 FIT_SIZE = Some (ascii_bytes ''43''))"
  using verified_write_changed_only_fit_size [OF sample_env_verifies] sample_env_verifies
  unfolding sample_env_updated(1) by blast

text \<open>
  completeness of the readback check: it accepts the updater's own mutation of every well-formed
  environment that has a \<open>fit_size\<close>, with the other regions untouched.
\<close>

theorem updater_mutation_verifies:
  assumes "well_formed_env env" and "map_of env FIT_SIZE \<noteq> None"
    and "length (env_image env padding) = 0x20000"
    and "length (env_image (AList.update FIT_SIZE (ascii_bytes (hex_upper n)) env) padding1) = 0x20000"
    and "set padding \<subseteq> {0, 255}" and "set padding1 \<subseteq> {0, 255}" and "boot \<noteq> []" and "store \<noteq> []"
  shows "verify_protected [(0, boot), (1, env_image env padding), (2, store)]
    [(0, boot), (1, env_image (AList.update FIT_SIZE (ascii_bytes (hex_upper n)) env) padding1), (2, store)] n False
    = Inr ()"
  by (rule verify_updated [OF assms])

theorem updater_mutation_verifies_witness:
  "verify_protected [(0, [1]), (1, env_image sample_env sample_padding), (2, [2])]
    [(0, [1]), (1, env_image (AList.update FIT_SIZE (ascii_bytes (hex_upper 67)) sample_env) sample_padding),
     (2, [2])] 67 False = Inr ()"
  by (rule updater_mutation_verifies [OF sample_env_ok(1) sample_env_updated(2) sample_env_ok(2) sample_env_updated(3)
        sample_padding_zero sample_padding_zero]) simp_all

end
