(* ===== verification/Actions.thy ===== *)
theory Actions
  imports Effects
begin

text \<open>
  Effects as functions of the state: a procedure whose calls all read and change one state (a
  session directory and a device, a socket) is an \<open>action\<close>. Sequencing stops at the first exception
  and keeps the state reached so far.
\<close>

type_synonym ('s, 'a) action = "'s \<Rightarrow> ('s, 'a) effect"

definition ret :: "'a \<Rightarrow> ('s, 'a) action" where
  "ret x s = (s, Inr x)"

definition fail :: "exn \<Rightarrow> ('s, 'a) action" where
  "fail e s = (s, Inl e)"

definition andThen :: "('s, 'a) action \<Rightarrow> ('a \<Rightarrow> ('s, 'b) action) \<Rightarrow> ('s, 'b) action" where
  "andThen m f s = bindS (m s) (\<lambda>s x. f x s)"

text \<open>A pure computation that may raise, and a statement \<open>if condition: raise error\<close>.\<close>

definition lift :: "'a result \<Rightarrow> ('s, 'a) action" where
  "lift r s = (s, r)"

definition refuse :: "bool \<Rightarrow> exn \<Rightarrow> ('s, unit) action" where
  "refuse c e = (if c then fail e else ret ())"

definition getS :: "('s \<Rightarrow> 'a) \<Rightarrow> ('s, 'a) action" where
  "getS f s = (s, Inr (f s))"

text \<open>Loops over a list: with statements only, and with an accumulator.\<close>

fun eachA :: "('i \<Rightarrow> ('s, unit) action) \<Rightarrow> 'i list \<Rightarrow> ('s, unit) action" where
  "eachA f [] = ret ()"
| "eachA f (x # xs) = andThen (f x) (\<lambda>_. eachA f xs)"

fun foldA :: "('i \<Rightarrow> 'a \<Rightarrow> ('s, 'a) action) \<Rightarrow> 'i list \<Rightarrow> 'a \<Rightarrow> ('s, 'a) action" where
  "foldA f [] a = ret a"
| "foldA f (x # xs) a = andThen (f x a) (foldA f xs)"

text \<open>\<open>try: m except BaseException as error: h(error); raise\<close>. When \<open>h\<close> raises, its exception wins.\<close>

definition onError :: "('s, 'a) action \<Rightarrow> (exn \<Rightarrow> ('s, unit) action) \<Rightarrow> ('s, 'a) action" where
  "onError m h s = (case m s of
     (s1, Inr x) \<Rightarrow> (s1, Inr x)
   | (s1, Inl e) \<Rightarrow> (case h e s1 of (s2, Inl e2) \<Rightarrow> (s2, Inl e2) | (s2, Inr _) \<Rightarrow> (s2, Inl e)))"

lemma ret_simps [simp]: "ret x s = (s, Inr x)" "fail e s = (s, Inl e)" "lift r s = (s, r)"
  "getS f s = (s, Inr (f s))"
  by (simp_all add: ret_def fail_def lift_def getS_def)

lemma andThen_Inr: "andThen m f s = (s2, Inr y) \<longleftrightarrow> (\<exists>s1 x. m s = (s1, Inr x) \<and> f x s1 = (s2, Inr y))"
  by (simp add: andThen_def bindS_Inr)

lemma andThen_InrE:
  assumes "andThen m f s = (s2, Inr y)"
  obtains s1 x where "m s = (s1, Inr x)" and "f x s1 = (s2, Inr y)"
  using assms by (auto simp: andThen_Inr)

lemma refuse_Inr [simp]: "refuse c e s = (s1, Inr x) \<longleftrightarrow> \<not> c \<and> s1 = s"
  by (auto simp: refuse_def)

lemma refuse_state [simp]: "fst (refuse c e s) = s"
  by (simp add: refuse_def)

lemma onError_Inr [simp]: "onError m h s = (s1, Inr x) \<longleftrightarrow> m s = (s1, Inr x)"
  by (auto simp: onError_def split: prod.splits sum.splits)

text \<open>The same loop without state: a fold whose body may raise.\<close>

fun foldE :: "('i \<Rightarrow> 'a \<Rightarrow> 'a result) \<Rightarrow> 'i list \<Rightarrow> 'a \<Rightarrow> 'a result" where
  "foldE f [] a = Inr a"
| "foldE f (x # xs) a = bindE (f x a) (foldE f xs)"

lemma foldE_append: "foldE f (xs @ ys) a = bindE (foldE f xs a) (foldE f ys)"
  by (induction xs arbitrary: a) (auto simp: bindE_def split: sum.splits)

lemma foldE_inv:
  "foldE f xs a = Inr b \<Longrightarrow> P a \<Longrightarrow> (\<And>x a a1. x \<in> set xs \<Longrightarrow> P a \<Longrightarrow> f x a = Inr a1 \<Longrightarrow> P a1) \<Longrightarrow> P b"
proof (induction xs arbitrary: a)
  case (Cons x xs)
  then obtain a1 where "f x a = Inr a1" "foldE f xs a1 = Inr b" by (auto simp: bindE_Inr_iff)
  then show ?case using Cons.IH [of a1] Cons.prems by (metis list.set_intros)
qed simp

text \<open>\<open>try: m finally: f\<close>. When \<open>f\<close> raises, its exception wins.\<close>

definition finallyA :: "('s, 'a) action \<Rightarrow> ('s, unit) action \<Rightarrow> ('s, 'a) action" where
  "finallyA m f s = (case m s of (s1, r) \<Rightarrow>
     (case f s1 of (s2, Inl e) \<Rightarrow> (s2, Inl e) | (s2, Inr _) \<Rightarrow> (s2, r)))"

section \<open>Triples\<close>

text \<open>
  \<open>triple P m Q E\<close>: from a state in \<open>P\<close>, the action \<open>m\<close> either returns a value with \<open>Q\<close> of it and the
  state, or raises in a state with \<open>E\<close>. One rule for each way actions are composed.
\<close>

definition triple ::
    "('s \<Rightarrow> bool) \<Rightarrow> ('s, 'a) action \<Rightarrow> ('a \<Rightarrow> 's \<Rightarrow> bool) \<Rightarrow> ('s \<Rightarrow> bool) \<Rightarrow> bool" where
  "triple P m Q E \<longleftrightarrow>
     (\<forall>s. P s \<longrightarrow> (case m s of (s1, Inl e) \<Rightarrow> E s1 | (s1, Inr x) \<Rightarrow> Q x s1))"

named_theorems triple_intro

lemma tripleD: "triple P m Q E \<Longrightarrow> P s \<Longrightarrow> m s = (s1, Inr x) \<Longrightarrow> Q x s1"
  "triple P m Q E \<Longrightarrow> P s \<Longrightarrow> m s = (s1, Inl e) \<Longrightarrow> E s1"
  by (force simp: triple_def)+

lemma tripleI:
  "(\<And>s s1 x. P s \<Longrightarrow> m s = (s1, Inr x) \<Longrightarrow> Q x s1) \<Longrightarrow> (\<And>s s1 e. P s \<Longrightarrow> m s = (s1, Inl e) \<Longrightarrow> E s1) \<Longrightarrow>
     triple P m Q E"
  by (auto simp: triple_def split: prod.splits sum.splits)

lemma triple_ret: "(\<And>s. P s \<Longrightarrow> Q x s) \<Longrightarrow> triple P (ret x) Q E"
  by (simp add: triple_def)

lemma triple_fail: "(\<And>s. P s \<Longrightarrow> E s) \<Longrightarrow> triple P (fail e) Q E"
  by (simp add: triple_def)

lemma triple_lift: "(\<And>s x. P s \<Longrightarrow> r = Inr x \<Longrightarrow> Q x s) \<Longrightarrow> (\<And>s. P s \<Longrightarrow> E s) \<Longrightarrow> triple P (lift r) Q E"
  by (cases r) (simp_all add: triple_def)

lemma triple_getS: "(\<And>s. P s \<Longrightarrow> Q (f s) s) \<Longrightarrow> triple P (getS f) Q E"
  by (simp add: triple_def)

lemma triple_refuse: "(\<And>s. P s \<Longrightarrow> \<not> c \<Longrightarrow> Q () s) \<Longrightarrow> (\<And>s. P s \<Longrightarrow> E s) \<Longrightarrow> triple P (refuse c e) Q E"
  by (simp add: triple_def refuse_def)

lemma triple_andThen:
  assumes m: "triple P m R E" and f: "\<And>x. triple (R x) (f x) Q E"
  shows "triple P (andThen m f) Q E"
proof (rule tripleI)
  fix s s1 x
  assume "P s" "andThen m f s = (s1, Inr x)"
  then show "Q x s1" using tripleD [OF m] tripleD [OF f] by (fastforce simp: andThen_Inr)
next
  fix s s1 e
  assume P: "P s" and r: "andThen m f s = (s1, Inl e)"
  show "E s1"
  proof (cases "m s")
    case (Pair s2 q)
    then show ?thesis using r tripleD [OF m P] tripleD(2) [OF f] by (cases q) (auto simp: andThen_def)
  qed
qed

lemma triple_onError:
  assumes m: "triple P m Q F" and h: "\<And>e. triple F (h e) (\<lambda>_. E) E"
  shows "triple P (onError m h) Q E"
proof (rule tripleI)
  fix s s1 x
  assume "P s" "onError m h s = (s1, Inr x)"
  then show "Q x s1" using tripleD(1) [OF m] by simp
next
  fix s s1 e
  assume P: "P s" and r: "onError m h s = (s1, Inl e)"
  then obtain s2 e2 where m2: "m s = (s2, Inl e2)" and "\<exists>q. h e2 s2 = (s1, q)"
    by (auto simp: onError_def split: prod.splits sum.splits)
  then obtain q where q: "h e2 s2 = (s1, q)" by blast
  then show "E s1" using tripleD(2) [OF m P m2] tripleD [OF h] by (cases q) blast+
qed

lemma triple_finally:
  assumes m: "triple P m Q F" and ok: "\<And>x. triple (Q x) f (\<lambda>_. Q1 x) E" and bad: "triple F f (\<lambda>_. E) E"
  shows "triple P (finallyA m f) Q1 E"
proof (rule tripleI)
  fix s s1 x
  assume P: "P s" and "finallyA m f s = (s1, Inr x)"
  then obtain s2 y where "m s = (s2, Inr x)" "f s2 = (s1, Inr y)"
    by (auto simp: finallyA_def split: prod.splits sum.splits)
  then show "Q1 x s1" using tripleD(1) [OF m P] tripleD(1) [OF ok] by blast
next
  fix s s1 e
  assume P: "P s" and r: "finallyA m f s = (s1, Inl e)"
  obtain s2 q where q: "m s = (s2, q)" by (cases "m s")
  obtain q2 where q2: "f s2 = (s1, q2)" using r q by (auto simp: finallyA_def split: prod.splits sum.splits)
  show "E s1"
  proof (cases q)
    case (Inl e1)
    then have "F s2" using tripleD(2) [OF m P] q by simp
    then show ?thesis using tripleD [OF bad] q2 by (cases q2) blast+
  next
    case (Inr x)
    then have "Q x s2" using tripleD(1) [OF m P] q by simp
    moreover obtain e2 where "q2 = Inl e2" using r q q2 Inr by (cases q2) (auto simp: finallyA_def)
    ultimately show ?thesis using tripleD(2) [OF ok] q2 by blast
  qed
qed

lemma triple_if: "(b \<Longrightarrow> triple P m Q E) \<Longrightarrow> (\<not> b \<Longrightarrow> triple P n Q E) \<Longrightarrow> triple P (if b then m else n) Q E"
  by simp

lemma triple_weaken:
  "triple P1 m Q1 E1 \<Longrightarrow> (\<And>s. P s \<Longrightarrow> P1 s) \<Longrightarrow> (\<And>x s. Q1 x s \<Longrightarrow> Q x s) \<Longrightarrow> (\<And>s. E1 s \<Longrightarrow> E s) \<Longrightarrow>
     triple P m Q E"
  unfolding triple_def by (fastforce split: prod.splits sum.splits)

lemma triple_eachA:
  "(\<And>x. x \<in> set xs \<Longrightarrow> triple P (f x) (\<lambda>_. P) E) \<Longrightarrow> triple P (eachA f xs) (\<lambda>_. P) E"
  by (induction xs) (auto intro!: triple_ret triple_andThen)

lemma triple_foldA:
  "(\<And>x a. x \<in> set xs \<Longrightarrow> triple P (f x a) (\<lambda>_. P) E) \<Longrightarrow> triple P (foldA f xs a) (\<lambda>_. P) E"
  by (induction xs arbitrary: a) (auto intro!: triple_ret triple_andThen)

text \<open>An assertion both outcomes keep, and one that only success strengthens.\<close>

lemma triple_keep: "(\<And>s. P s \<Longrightarrow> P (fst (m s))) \<Longrightarrow> triple P m (\<lambda>_. P) P"
  unfolding triple_def by (metis (mono_tags, lifting) case_prod_beta sum.case_eq_if)

end
