(* ===== verification/Recovery_Contracts.thy ===== *)
theory Recovery_Contracts
  imports Flash_Environment Actions
begin

text \<open>
  \<open>recovery/contracts.py\<close> and \<open>recovery/profiles.py\<close>: the immutable records of a flash recovery
  (geometry, observation, qualification profile, provenance, repair plan, evidence) with their
  validators, and the qualification of an observation against a profile. Every integer field of
  these contracts is constrained to be non-negative, so addresses and sizes are \<open>nat\<close>. Pydantic's
  \<open>ValidationError\<close> is a \<open>ValueError\<close>. The textual patterns of digests and names are carried by
  the JSON parser, which is a parameter of the development.
\<close>

definition MAX_BLOB :: nat where
  "MAX_BLOB = 128 * 1024 * 1024"

definition rec_err :: "string \<Rightarrow> string \<Rightarrow> exn" where
  "rec_err = RecoveryError"

record blob =
  bl_sha256 :: string
  bl_size :: nat

definition blob_new :: "string \<Rightarrow> nat \<Rightarrow> blob result" where
  "blob_new sha n =
     (if 0 < n \<and> n \<le> MAX_BLOB then Inr \<lparr>bl_sha256 = sha, bl_size = n\<rparr>
      else Inl (ValueError ''size''))"

section \<open>Geometry\<close>

record region =
  rg_name :: string
  rg_start :: nat
  rg_size :: nat
  rg_erase_size :: nat

definition rg_end :: "region \<Rightarrow> nat" where
  "rg_end r = rg_start r + rg_size r"

definition size_ok :: "nat \<Rightarrow> bool" where
  "size_ok n \<longleftrightarrow> 0 < n \<and> n \<le> 128 * 1024 * 1024"

definition region_validate :: "region \<Rightarrow> unit result" where
  "region_validate r = checks
     [(\<not> rg_start r \<le> 128 * 1024 * 1024 \<or> \<not> size_ok (rg_size r) \<or> \<not> size_ok (rg_erase_size r), ValueError ''field''),
      (rg_start r mod rg_erase_size r \<noteq> 0 \<or> rg_size r mod rg_erase_size r \<noteq> 0,
       ValueError ''region must contain complete erase sectors'')]"

record geometry =
  ge_capacity :: nat
  ge_regions :: "region list"

text \<open>\<open>any(a.end != b.start for a, b in zip(parts, parts[1:]))\<close>.\<close>

fun has_gap :: "region list \<Rightarrow> bool" where
  "has_gap (a # b # rs) \<longleftrightarrow> rg_end a \<noteq> rg_start b \<or> has_gap (b # rs)"
| "has_gap _ \<longleftrightarrow> False"

definition geometry_validate :: "geometry \<Rightarrow> unit result" where
  "geometry_validate g =
     (let parts = sort_key rg_start (ge_regions g) in
      bindE (checks [(\<not> size_ok (ge_capacity g), ValueError ''field'')]) (\<lambda>_.
      bindE (mapE region_validate (ge_regions g)) (\<lambda>_. checks
        [(parts = [] \<or> \<not> distinct (map rg_name parts), ValueError ''missing or duplicate regions''),
         (rg_start (hd parts) \<noteq> 0 \<or> rg_end (last parts) \<noteq> ge_capacity g,
          ValueError ''layout must cover physical flash''),
         (has_gap parts, ValueError ''layout overlaps or has gaps'')])))"

definition geometry_region :: "geometry \<Rightarrow> string \<Rightarrow> region result" where
  "geometry_region g name =
     (case find (\<lambda>r. rg_name r = name) (ge_regions g) of
        Some r \<Rightarrow> Inr r | None \<Rightarrow> Inl (rec_err ''geometry_unknown'' ''missing region''))"

section \<open>Targets, observations, profiles\<close>

record target =
  tg_adapter :: string
  tg_topology :: string
  tg_uid :: "string option"
  tg_serial :: "string option"
  tg_board :: string
  tg_soc :: string
  tg_ddr_bytes :: nat
  tg_jedec :: string

record observation =
  on_target :: target
  on_geometry :: geometry
  on_bootstrap_sha256 :: string
  on_writer_sha256 :: string
  on_boot_epoch :: string
  on_qualification_id :: string
  on_transcript :: blob
  on_flash_protected :: bool

record fit_contract =
  fc_sha256 :: string
  fc_size :: nat
  fc_configuration :: string
  fc_soc :: string
  fc_components :: "string list"
  fc_ram_start :: nat
  fc_ram_end :: nat
  fc_expected_firmware :: string
  fc_expected_layout :: string
  fc_expanded_sizes :: "(string \<times> nat) list"
  fc_component_sha256 :: "(string \<times> string) list"

datatype support = Qualified | Incident

record profile =
  pr_profile_id :: string
  pr_qualification_id :: string
  pr_board :: string
  pr_soc :: string
  pr_ddr_bytes :: nat
  pr_jedec :: string
  pr_geometry :: geometry
  pr_bootstrap_sha256 :: string
  pr_writer_sha256 :: string
  pr_read_limit :: nat
  pr_write_limit :: nat
  pr_read_evidence :: string
  pr_write_evidence :: string
  pr_cold_boot_evidence :: "string option"
  pr_console_only_evidence :: string
  pr_ram_recipe_evidence :: "string option"
  pr_support :: support
  pr_target_uid_sha256 :: "string option"
  pr_original_flash_sha256 :: "string option"
  pr_opaque_environment_padding :: bool
  pr_capture_address :: nat
  pr_compare_address :: nat
  pr_wiring_instructions :: string
  pr_boot_instructions :: string
  pr_rollback :: fit_contract
  pr_sd_files :: "(string \<times> blob) list"

text \<open>\<open>Profile.bounds\<close>. The optional digests are non-empty by their pattern, so \<open>not x\<close> is \<open>x is None\<close>.\<close>

definition profile_validate :: "profile \<Rightarrow> unit result" where
  "profile_validate p =
     (let capacity = ge_capacity (pr_geometry p); a = pr_capture_address p; b = pr_compare_address p in
      bindE (geometry_validate (pr_geometry p)) (\<lambda>_. checks
        [(\<not> size_ok (pr_read_limit p) \<or> \<not> size_ok (pr_write_limit p), ValueError ''field''),
         (pr_opaque_environment_padding p \<and> pr_support p \<noteq> Incident,
          ValueError ''opaque padding is supported only for a pinned incident environment''),
         (pr_support p = Qualified \<and> (pr_cold_boot_evidence p = None \<or> pr_ram_recipe_evidence p = None),
          ValueError ''qualified support requires completed hardware acceptance''),
         (pr_support p = Incident \<and> (pr_target_uid_sha256 p = None \<or> pr_original_flash_sha256 p = None
             \<or> pr_write_limit p > 0x1000000),
          ValueError ''incident support requires an exact target, image and low-bank limit''),
         (\<not> (pr_read_limit p \<le> capacity \<and> pr_write_limit p \<le> capacity
             \<and> a + capacity \<le> pr_ddr_bytes p \<and> b + capacity \<le> pr_ddr_bytes p
             \<and> (a + capacity \<le> b \<or> b + capacity \<le> a)
             \<and> fc_soc (pr_rollback p) = pr_soc p
             \<and> fc_ram_start (pr_rollback p) < fc_ram_end (pr_rollback p)
             \<and> fc_ram_end (pr_rollback p) \<le> pr_ddr_bytes p),
          ValueError ''invalid qualified flash/RAM bounds'')]))"

section \<open>Provenance, plans, evidence\<close>

record provenance =
  pv_target_uid :: string
  pv_historical_boot_sha256 :: string
  pv_historical_record_sha256 :: string
  pv_boot_source_sha256 :: string
  pv_rollback_sha256 :: string
  pv_boot_restore_start :: nat
  pv_boot_restore_size :: nat

record historical_boot =
  hb_target_uid :: string
  hb_boot_sha256 :: string
  hb_source_receipt_sha256 :: string

record dispatch =
  dp_plan_sha256 :: string
  dp_start :: nat
  dp_size :: nat
  dp_payload_sha256 :: string

datatype repair_kind = Fit | Environment | Boot

record patch =
  pt_kind :: repair_kind
  pt_start :: nat
  pt_payload :: blob
  pt_before_sha256 :: string

record sector =
  sc_kind :: repair_kind
  sc_start :: nat
  sc_size :: nat
  sc_before_sha256 :: string
  sc_after :: blob

record plan =
  pn_policy_version :: string
  pn_session_id :: string
  pn_profile_sha256 :: string
  pn_observation :: observation
  pn_original :: blob
  pn_current :: blob
  pn_expected :: blob
  pn_provenance :: provenance
  pn_history :: blob
  pn_boot_source :: blob
  pn_patches :: "patch list"
  pn_sectors :: "sector list"
  pn_parent_plan :: "string option"

datatype boot_source = source_sd | source_ram | source_qspi | source_unknown

datatype reset_cause = power_on | warm | cause_unknown

record return_evidence =
  re_target :: target
  re_fit_sha256 :: string
  re_firmware :: string
  re_layout :: string
  re_network_ok :: bool
  re_iio_ok :: bool
  re_rf_inactive :: bool
  re_settings_ok :: bool
  re_boot_source :: boot_source
  re_reset_cause :: reset_cause
  re_boot_epoch :: string
  re_transcript :: blob
  re_operator_power_off :: bool
  re_operator_sd_removed :: bool

record session =
  se_session_id :: string
  se_adapter :: string
  se_profile_id :: "string option"

section \<open>Qualification of an observation\<close>

text \<open>
  \<open>qualify\<close>: the order of its loops is kept; \<open>not observed.target.uid\<close> is true of \<open>None\<close> and of the
  empty string. \<open>sha\<close> is SHA-256 in hexadecimal.
\<close>

definition uid_missing :: "observation \<Rightarrow> bool" where
  "uid_missing ob \<longleftrightarrow> tg_uid (on_target ob) = None \<or> tg_uid (on_target ob) = Some []"

definition qualify :: "(bytes \<Rightarrow> string) \<Rightarrow> profile \<Rightarrow> observation \<Rightarrow> bool \<Rightarrow> unit result" where
  "qualify sha p ob mutation = checks
     [(pr_target_uid_sha256 p \<noteq> None
         \<and> (uid_missing ob \<or> Some (sha (ascii_bytes (the (tg_uid (on_target ob))))) \<noteq> pr_target_uid_sha256 p),
       rec_err ''target_mismatch'' ''flash unique ID differs from incident binding''),
      (pr_board p \<noteq> tg_board (on_target ob), rec_err ''target_mismatch'' ''qualified board differs''),
      (pr_soc p \<noteq> tg_soc (on_target ob), rec_err ''target_mismatch'' ''qualified soc differs''),
      (pr_ddr_bytes p \<noteq> tg_ddr_bytes (on_target ob), rec_err ''target_mismatch'' ''qualified ddr_bytes differs''),
      (pr_jedec p \<noteq> tg_jedec (on_target ob), rec_err ''target_mismatch'' ''qualified jedec differs''),
      (pr_geometry p \<noteq> on_geometry ob, rec_err ''writer_unqualified'' ''qualified geometry differs''),
      (pr_bootstrap_sha256 p \<noteq> on_bootstrap_sha256 ob,
       rec_err ''writer_unqualified'' ''qualified bootstrap_sha256 differs''),
      (pr_writer_sha256 p \<noteq> on_writer_sha256 ob,
       rec_err ''writer_unqualified'' ''qualified writer_sha256 differs''),
      (pr_qualification_id p \<noteq> on_qualification_id ob,
       rec_err ''writer_unqualified'' ''qualified qualification_id differs''),
      (pr_read_limit p \<noteq> ge_capacity (on_geometry ob),
       rec_err ''reader_unqualified'' ''complete physical flash is not qualified''),
      (mutation \<and> (uid_missing ob \<or> on_flash_protected ob),
       rec_err ''target_unbound'' ''unique identity and writable protection state required'')]"

text \<open>\<open>get_profile\<close>: exactly one record of that identifier, validated again.\<close>

definition get_profile :: "profile list \<Rightarrow> string \<Rightarrow> profile result" where
  "get_profile profiles profile_id =
     (case filter (\<lambda>p. pr_profile_id p = profile_id) profiles of
        [p] \<Rightarrow> bindE (profile_validate p) (\<lambda>_. Inr p)
      | _ \<Rightarrow> Inl (rec_err ''profile_unqualified'' ''no shipped qualification for this profile''))"

section \<open>Facts about a valid geometry\<close>

text \<open>Consecutive parts: each part starts where the previous one ends.\<close>

lemma no_gap_bounds:
  "\<not> has_gap rs \<Longrightarrow> rs \<noteq> [] \<Longrightarrow> r \<in> set rs \<Longrightarrow> rg_start (hd rs) \<le> rg_start r \<and> rg_end r \<le> rg_end (last rs)"
proof (induction rs arbitrary: r rule: has_gap.induct)
  case (1 a b rs)
  have e: "rg_end a = rg_start b" and IH: "\<And>r. r \<in> set (b # rs) \<Longrightarrow> rg_start b \<le> rg_start r \<and> rg_end r \<le> rg_end (last (b # rs))"
    using "1.IH" "1.prems" by auto
  have l: "rg_start a \<le> rg_end a" "rg_start b \<le> rg_end b" by (simp_all add: rg_end_def)
  show ?case
  proof (cases "r = a")
    case True
    then show ?thesis using IH [of b] e l by simp
  next
    case False
    then show ?thesis using IH [of r] e l "1.prems"(3) by simp
  qed
qed auto

lemma no_gap_disjoint:
  "\<not> has_gap rs \<Longrightarrow> i < j \<Longrightarrow> j < length rs \<Longrightarrow> rg_end (rs ! i) \<le> rg_start (rs ! j)"
proof (induction rs arbitrary: i j rule: has_gap.induct)
  case (1 a b rs)
  obtain k where j: "j = Suc k" using "1.prems"(2) by (cases j) simp_all
  show ?case
  proof (cases i)
    case 0
    have "rg_end a = rg_start b" "\<not> has_gap (b # rs)" using "1.prems" by simp_all
    moreover have "rg_start b \<le> rg_start ((b # rs) ! k)"
      using no_gap_bounds [of "b # rs" "(b # rs) ! k"] "1.prems" j nth_mem [of k "b # rs"] by simp
    ultimately show ?thesis by (simp add: 0 j)
  next
    case (Suc l)
    then show ?thesis using "1.IH" [of l k] "1.prems" j by simp
  qed
qed auto

lemma geometry_facts:
  assumes "geometry_validate g = Inr ()"
  shows "r \<in> set (ge_regions g) \<Longrightarrow> rg_end r \<le> ge_capacity g"
    and "r \<in> set (ge_regions g) \<Longrightarrow> r1 \<in> set (ge_regions g) \<Longrightarrow> rg_name r \<noteq> rg_name r1 \<Longrightarrow>
      rg_end r \<le> rg_start r1 \<or> rg_end r1 \<le> rg_start r"
    and "r \<in> set (ge_regions g) \<Longrightarrow> rg_start r mod rg_erase_size r = 0 \<and> rg_size r mod rg_erase_size r = 0
      \<and> 0 < rg_erase_size r \<and> 0 < rg_size r"
    and "ge_capacity g \<le> MAX_BLOB" and "0 < ge_capacity g"
proof -
  let ?p = "sort_key rg_start (ge_regions g)"
  have v: "mapE region_validate (ge_regions g) \<noteq> Inl e" for e
    using assms by (auto simp: geometry_validate_def Let_def)
  have f: "?p \<noteq> []" "rg_end (last ?p) = ge_capacity g" "\<not> has_gap ?p" "size_ok (ge_capacity g)"
    using assms by (auto simp: geometry_validate_def Let_def bindE_Inr_iff)
  then show "ge_capacity g \<le> MAX_BLOB" "0 < ge_capacity g" by (simp_all add: size_ok_def MAX_BLOB_def)
  show "rg_end r \<le> ge_capacity g" if "r \<in> set (ge_regions g)"
    using no_gap_bounds [OF f(3,1), of r] that f(2) by simp
  show "rg_end r \<le> rg_start r1 \<or> rg_end r1 \<le> rg_start r"
    if asm: "r \<in> set (ge_regions g)" "r1 \<in> set (ge_regions g)" "rg_name r \<noteq> rg_name r1"
  proof -
    obtain i j where "i < length ?p" "?p ! i = r" "j < length ?p" "?p ! j = r1"
      using asm(1,2) by (metis in_set_conv_nth set_sort)
    then show ?thesis using no_gap_disjoint [OF f(3), of i j] no_gap_disjoint [OF f(3), of j i] asm(3)
      by (metis linorder_neqE_nat)
  qed
  obtain us where "mapE region_validate (ge_regions g) = Inr us"
    using v by (cases "mapE region_validate (ge_regions g)") auto
  then have "\<forall>r \<in> set (ge_regions g). region_validate r = Inr ()"
    by (auto simp: mapE_Inr_iff list_all2_conv_all_nth in_set_conv_nth)
  then show "rg_start r mod rg_erase_size r = 0 \<and> rg_size r mod rg_erase_size r = 0
      \<and> 0 < rg_erase_size r \<and> 0 < rg_size r" if "r \<in> set (ge_regions g)"
    using that by (auto simp: region_validate_def size_ok_def)
qed

lemma geometry_region_facts:
  assumes "geometry_region g name = Inr r"
  shows "r \<in> set (ge_regions g)" "rg_name r = name"
  using assms by (auto simp: geometry_region_def find_Some_iff split: option.splits)

end
