(* ===== verification/Recovery_Fit.thy ===== *)
theory Recovery_Fit
  imports Recovery_Contracts
begin

text \<open>
  \<open>recovery/fit.py\<close>: the bounded parser of flattened device trees (version 17) and the admission of
  a FIT against its trusted contract. Offsets are non-negative and are \<open>nat\<close>. The hash functions of
  \<open>hashlib\<close> and the gzip decompressor of \<open>zlib\<close> are parameters; a decompression answers the
  expanded length with the three flags the source looks at (end of stream, unused data, unconsumed
  tail), or \<open>None\<close> for \<open>zlib.error\<close>.
\<close>

definition fit_err :: "string \<Rightarrow> exn" where
  "fit_err detail = rec_err ''fit_invalid'' detail"

definition be_nat :: "bytes \<Rightarrow> nat" where
  "be_nat bs = foldl (\<lambda>v b. 256 * v + unat b) 0 bs"

text \<open>\<open>_string\<close>: one terminating NUL and ASCII before it.\<close>

definition fdt_string :: "bytes \<Rightarrow> string result" where
  "fdt_string data =
     (if data = [] \<or> last data \<noteq> 0 \<or> 0 \<in> set (butlast data)
      then Inl (fit_err ''expected a single terminated string'')
      else if list_ex (\<lambda>b. 128 \<le> b) (butlast data) then Inl (fit_err ''invalid FIT string'')
      else Inr (map (\<lambda>b. char_of (unat b)) (butlast data)))"

text \<open>\<open>data.find(b"\0", a, b)\<close>.\<close>

definition find_nul :: "bytes \<Rightarrow> nat \<Rightarrow> nat \<Rightarrow> nat option" where
  "find_nul data a b =
     (let n = length (takeWhile (\<lambda>x. x \<noteq> 0) (slice a b data)) in
      if n < length (slice a b data) then Some (a + n) else None)"

definition node_char :: "char \<Rightarrow> bool" where
  "node_char c \<longleftrightarrow>
     c \<in> set ''ABCDEFGHIJKLMNOPQRSTUVWXYZabcdefghijklmnopqrstuvwxyz0123456789_,@.+-''"

definition node_name :: "string \<Rightarrow> bool" where
  "node_name s \<longleftrightarrow> 1 \<le> length s \<and> length s \<le> 128 \<and> list_all node_char s"

fun join_path :: "string list \<Rightarrow> string" where
  "join_path [] = []"
| "join_path [x] = x"
| "join_path (x # y # xs) = x @ CHR 0x2F # join_path (y # xs)"

text \<open>\<open>"/".join(stack) or "/"\<close>.\<close>

definition stack_path :: "string list \<Rightarrow> string" where
  "stack_path stack = (let p = join_path stack in if p = [] then ''/'' else p)"

type_synonym props = "(string \<times> bytes) list"

type_synonym fdt = "(string \<times> props) list"

text \<open>\<open>(x + 3) & ~3\<close>.\<close>

definition align4 :: "nat \<Rightarrow> nat" where
  "align4 x = (x + 3) div 4 * 4"

record fdt_header =
  fh_total :: nat
  fh_structure :: nat
  fh_strings :: nat
  fh_reserve :: nat
  fh_strings_size :: nat
  fh_structure_size :: nat

definition fdt_field :: "bytes \<Rightarrow> nat \<Rightarrow> nat" where
  "fdt_field data i = be_nat (slice (4 * i) (4 * i + 4) data)"

text \<open>
  The header checks of \<open>nodes\<close>. Its reservation loop leaves at the first entry, which must be the
  terminator.
\<close>

definition fdt_header_of :: "bytes \<Rightarrow> fdt_header result" where
  "fdt_header_of data =
     (let h = \<lparr>fh_total = fdt_field data 1, fh_structure = fdt_field data 2, fh_strings = fdt_field data 3,
               fh_reserve = fdt_field data 4, fh_strings_size = fdt_field data 8,
               fh_structure_size = fdt_field data 9\<rparr>;
          total = fh_total h; structure = fh_structure h; strings = fh_strings h; reserve = fh_reserve h;
          ss = fh_strings_size h; st = fh_structure_size h; end_reserve = reserve + 16 in
      bindE (checks
        [(length data < 56, fit_err ''truncated FDT''),
         (fdt_field data 0 \<noteq> 0xD00DFEED \<or> total \<noteq> length data \<or> fdt_field data 5 \<noteq> 17 \<or> fdt_field data 6 > 17,
          fit_err ''unsupported FDT header''),
         (structure mod 4 \<noteq> 0 \<or> reserve mod 8 \<noteq> 0
           \<or> \<not> (40 \<le> structure \<and> structure < structure + st \<and> structure + st \<le> total)
           \<or> \<not> (40 \<le> strings \<and> strings \<le> strings + ss \<and> strings + ss \<le> total)
           \<or> reserve < 40 \<or> reserve + 16 > total, fit_err ''invalid FDT offsets''),
         (structure < strings + ss \<and> strings < structure + st, fit_err ''overlapping FDT blocks''),
         (end_reserve > total, fit_err ''unterminated reservation map''),
         (list_ex (\<lambda>b. b \<noteq> 0) (slice reserve end_reserve data), fit_err ''unsupported reservation map''),
         ((reserve < structure + st \<and> structure < end_reserve) \<or> (reserve < strings + ss \<and> strings < end_reserve),
          fit_err ''reservation map overlaps data'')]) (\<lambda>_. Inr h))"

section \<open>The structure block\<close>

text \<open>One token each: the new position, stack and tree, or the error.\<close>

type_synonym fdt_state = "nat \<times> string list \<times> fdt"

definition begin_node :: "bytes \<Rightarrow> nat \<Rightarrow> fdt_state \<Rightarrow> fdt_state result" where
  "begin_node data limit = (\<lambda>(pos, stack, tree).
     case find_nul data pos limit of
       None \<Rightarrow> Inl (fit_err ''unterminated node'')
     | Some stop \<Rightarrow> bindE (fdt_string (slice pos (stop + 1) data)) (\<lambda>name.
         let stack1 = stack @ [name]; path = stack_path stack1 in
         bindE (checks
           [((stack \<noteq> [] \<and> \<not> node_name name) \<or> (stack = [] \<and> (name \<noteq> [] \<or> tree \<noteq> [])),
             fit_err ''invalid node name or second root''),
            (length stack1 > 32 \<or> length tree > 4096, fit_err ''FDT nesting or node count exceeds bound''),
            (map_of tree path \<noteq> None, fit_err ''duplicate node'')]) (\<lambda>_.
         Inr (align4 (stop + 1), stack1, AList.update path [] tree))))"

definition node_property :: "bytes \<Rightarrow> fdt_header \<Rightarrow> nat \<Rightarrow> fdt_state \<Rightarrow> fdt_state result" where
  "node_property data h limit = (\<lambda>(pos, stack, tree).
     if stack = [] \<or> pos + 8 > limit then Inl (fit_err ''property outside node or truncated'')
     else let size = be_nat (slice pos (pos + 4) data); nameoff = be_nat (slice (pos + 4) (pos + 8) data);
              start = pos + 8; strings = fh_strings h; ss = fh_strings_size h in
       if start + size > limit \<or> nameoff \<ge> ss then Inl (fit_err ''property exceeds block'')
       else case find_nul data (strings + nameoff) (strings + ss) of
         None \<Rightarrow> Inl (fit_err ''unterminated property name'')
       | Some stop \<Rightarrow> bindE (fdt_string (slice (strings + nameoff) (stop + 1) data)) (\<lambda>name.
           let path = stack_path stack in
           case map_of tree path of
             None \<Rightarrow> Inl KeyError
           | Some props \<Rightarrow>
               if name = [] \<or> map_of props name \<noteq> None then Inl (fit_err ''empty or duplicate property'')
               else Inr (align4 (start + size), stack,
                 AList.update path (AList.update name (slice start (start + size) data) props) tree)))"

text \<open>
  The token loop of \<open>nodes\<close>. Not returning would be the value \<open>None\<close>; \<open>fdt_loop_returns\<close> shows
  that it cannot happen.
\<close>

partial_function (option) fdt_loop ::
    "bytes \<Rightarrow> fdt_header \<Rightarrow> nat \<Rightarrow> nat \<Rightarrow> string list \<Rightarrow> fdt \<Rightarrow> fdt result option" where
  "fdt_loop data h limit pos stack tree =
     (if \<not> pos + 4 \<le> limit then Some (Inl (fit_err ''missing FDT end token''))
      else if be_nat (slice pos (pos + 4) data) = 1 then
        (case begin_node data limit (pos + 4, stack, tree) of
           Inl e \<Rightarrow> Some (Inl e)
         | Inr s \<Rightarrow> fdt_loop data h limit (fst s) (fst (snd s)) (snd (snd s)))
      else if be_nat (slice pos (pos + 4) data) = 2 then
        (if stack = [] then Some (Inl (fit_err ''unbalanced end node''))
         else fdt_loop data h limit (pos + 4) (butlast stack) tree)
      else if be_nat (slice pos (pos + 4) data) = 3 then
        (case node_property data h limit (pos + 4, stack, tree) of
           Inl e \<Rightarrow> Some (Inl e)
         | Inr s \<Rightarrow> fdt_loop data h limit (fst s) (fst (snd s)) (snd (snd s)))
      else if be_nat (slice pos (pos + 4) data) = 4 then fdt_loop data h limit (pos + 4) stack tree
      else if be_nat (slice pos (pos + 4) data) = 9 then
        (if stack \<noteq> [] \<or> tree = [] \<or> list_ex (\<lambda>b. b \<noteq> 0) (slice (pos + 4) limit data)
         then Some (Inl (fit_err ''incomplete FDT or trailing structure data''))
         else Some (Inr tree))
      else Some (Inl (fit_err ''unknown FDT token'')))"

definition fdt_nodes :: "bytes \<Rightarrow> fdt result option" where
  "fdt_nodes data =
     (case fdt_header_of data of
        Inl e \<Rightarrow> Some (Inl e)
      | Inr h \<Rightarrow> fdt_loop data h (fh_structure h + fh_structure_size h) (fh_structure h) [] [])"

lemma align4_ge: "x \<le> align4 x"
  unfolding align4_def by presburger

lemma find_nul_bounds: "find_nul data a b = Some n \<Longrightarrow> a \<le> n"
  by (auto simp: find_nul_def Let_def split: if_splits)

lemma begin_node_advances: "begin_node data limit (pos, stack, tree) = Inr s \<Longrightarrow> pos < fst s"
proof -
  have "pos < align4 (Suc stop)" if "find_nul data pos limit = Some stop" for stop
    using align4_ge [of "Suc stop"] find_nul_bounds [OF that] by linarith
  then show "begin_node data limit (pos, stack, tree) = Inr s \<Longrightarrow> pos < fst s"
    by (auto simp: begin_node_def bindE_Inr_iff Let_def split: option.splits)
qed

lemma node_property_advances: "node_property data h limit (pos, stack, tree) = Inr s \<Longrightarrow> pos < fst s"
proof -
  have "pos < align4 (pos + 8 + n)" for n using align4_ge [of "pos + 8 + n"] by linarith
  then show "node_property data h limit (pos, stack, tree) = Inr s \<Longrightarrow> pos < fst s"
    by (auto simp: node_property_def bindE_Inr_iff Let_def split: option.splits if_splits)
qed

lemma fdt_loop_returns: "\<exists>r. fdt_loop data h limit pos stack tree = Some r"
proof (induction "limit - pos" arbitrary: pos stack tree rule: less_induct)
  case less
  show ?case
  proof (cases "pos + 4 \<le> limit")
    case True
    then have again: "\<exists>r. fdt_loop data h limit pos1 stack1 tree1 = Some r" if "pos + 4 \<le> pos1" for pos1 stack1 tree1
      using less.hyps [of pos1] that by simp
    show ?thesis
    proof (cases "begin_node data limit (pos + 4, stack, tree)")
      case (Inl e)
      then show ?thesis using again node_property_advances [of data h limit "pos + 4" stack tree]
        by (subst fdt_loop.simps) (auto split: sum.splits)
    next
      case (Inr s)
      then show ?thesis using again begin_node_advances [OF Inr]
          node_property_advances [of data h limit "pos + 4" stack tree]
        by (subst fdt_loop.simps) (auto split: sum.splits)
    qed
  qed (simp add: fdt_loop.simps)
qed

lemma fdt_nodes_returns: "\<exists>r. fdt_nodes data = Some r"
  using fdt_loop_returns by (auto simp: fdt_nodes_def split: sum.splits)

section \<open>Admission of a FIT\<close>

record fit_tools =
  ft_sha256_hex :: "bytes \<Rightarrow> string"
  ft_hash :: "string \<Rightarrow> bytes \<Rightarrow> bytes"
  ft_gunzip :: "bytes \<Rightarrow> nat \<Rightarrow> (nat \<times> bool \<times> bool \<times> bool) option"

definition fdt_prop :: "props \<Rightarrow> string \<Rightarrow> bytes option" where
  "fdt_prop ps key = map_of ps key"

text \<open>The hash nodes of an image: the children one level below its path.\<close>

definition hash_nodes :: "fdt \<Rightarrow> string \<Rightarrow> props list" where
  "hash_nodes tree path =
     map snd (filter (\<lambda>(child, _). take (length path + 1) child = path @ ''/''
                        \<and> length (filter (\<lambda>c. c = CHR 0x2F) child) = 3) tree)"

definition check_hash :: "fit_tools \<Rightarrow> bool \<Rightarrow> bytes \<Rightarrow> props \<Rightarrow> unit result" where
  "check_hash t pinned body hashed =
     bindE (fdt_string (case fdt_prop hashed ''algo'' of None \<Rightarrow> [0] | Some a \<Rightarrow> a)) (\<lambda>algorithm. checks
       [(algorithm \<noteq> ''sha256'' \<and> algorithm \<noteq> ''sha1'' \<and> \<not> (algorithm = ''md5'' \<and> pinned),
         fit_err ''unsupported component hash/signature''),
        (fdt_prop hashed ''value'' \<noteq> Some (ft_hash t algorithm body), fit_err ''component integrity hash differs'')])"

text \<open>The size of a component in RAM.\<close>

definition expanded_size :: "fit_tools \<Rightarrow> fit_contract \<Rightarrow> string \<Rightarrow> string \<Rightarrow> bytes \<Rightarrow> nat result" where
  "expanded_size t c name compression body =
     (if compression = ''gzip'' then
        (case map_of (fc_expanded_sizes c) name of
           None \<Rightarrow> Inl (fit_err ''gzip component needs an exact expanded-size contract'')
         | Some claimed \<Rightarrow>
             (case ft_gunzip t body (claimed + 1) of
                None \<Rightarrow> Inl (fit_err ''invalid compressed component'')
              | Some (n, eof, unused, tail) \<Rightarrow>
                  if n \<noteq> claimed \<or> \<not> eof \<or> unused \<or> tail
                  then Inl (fit_err ''decompressed size or gzip stream differs'') else Inr claimed))
      else if compression \<noteq> ''none'' then Inl (fit_err ''unsupported component compression'')
      else if map_of (fc_expanded_sizes c) name \<noteq> None \<and> map_of (fc_expanded_sizes c) name \<noteq> Some (length body)
      then Inl (fit_err ''component expanded size differs'')
      else Inr (length body))"

type_synonym windows = "(nat \<times> nat) list"

text \<open>The loop over \<open>load\<close> and \<open>entry\<close> of one component.\<close>

definition check_address :: "fit_contract \<Rightarrow> props \<Rightarrow> nat \<Rightarrow> string \<Rightarrow> windows \<Rightarrow> windows result" where
  "check_address c ps extent key allocations =
     (case fdt_prop ps key of
        None \<Rightarrow> Inr allocations
      | Some raw \<Rightarrow>
          let address = be_nat raw; stop = address + (if key = ''load'' then extent else 1) in
          bindE (checks
            [(length raw \<noteq> 4 \<and> length raw \<noteq> 8, fit_err ''invalid load/entry address''),
             (\<not> (fc_ram_start c \<le> address \<and> address < stop \<and> stop \<le> fc_ram_end c),
              fit_err ''component load/entry exceeds qualified RAM''),
             (key = ''load'' \<and> list_ex (\<lambda>(a, b). address < b \<and> a < stop) allocations,
              fit_err ''component RAM allocations overlap'')]) (\<lambda>_.
          Inr (if key = ''load'' then allocations @ [(address, stop)] else allocations)))"

text \<open>One selected component.\<close>

definition check_component :: "fit_tools \<Rightarrow> fit_contract \<Rightarrow> fdt \<Rightarrow> string \<Rightarrow> windows \<Rightarrow> windows result" where
  "check_component t c tree name allocations =
     (let path = ''/images/'' @ name;
          ps = (case map_of tree path of None \<Rightarrow> [] | Some ps \<Rightarrow> ps);
          body = (case fdt_prop ps ''data'' of None \<Rightarrow> [] | Some b \<Rightarrow> b);
          pinned = map_of (fc_component_sha256 c) name in
      bindE (checks
        [(body = [] \<or> list_ex (\<lambda>key. fdt_prop ps key \<noteq> None) [''data-offset'', ''data-position'', ''data-size''],
          fit_err ''only complete inline image data is supported''),
         (pinned \<noteq> None \<and> pinned \<noteq> Some (ft_sha256_hex t body),
          fit_err ''component differs from trusted SHA-256 pin'')]) (\<lambda>_.
      bindE (fdt_string (case fdt_prop ps ''compression'' of None \<Rightarrow> ascii_bytes ''none'' @ [0] | Some b \<Rightarrow> b)) (\<lambda>compression.
      bindE (checks [(hash_nodes tree path = [] \<and> pinned = None, fit_err ''component lacks integrity hash'')]) (\<lambda>_.
      bindE (mapE (check_hash t (pinned \<noteq> None) body) (hash_nodes tree path)) (\<lambda>_.
      bindE (expanded_size t c name compression body) (\<lambda>extent.
        foldE (check_address c ps extent) [''load'', ''entry''] allocations))))))"

text \<open>\<open>validate_fit\<close> returns nothing; the model returns its local list of RAM allocations.\<close>

definition admit_fit :: "fit_tools \<Rightarrow> bytes \<Rightarrow> fit_contract \<Rightarrow> string \<Rightarrow> windows result" where
  "admit_fit t data c soc =
     bindE (checks
       [(length data \<noteq> fc_size c \<or> ft_sha256_hex t data \<noteq> fc_sha256 c \<or> soc \<noteq> fc_soc c,
         fit_err ''exact artifact or SoC differs from trusted contract'')]) (\<lambda>_.
     bindE (the (fdt_nodes data)) (\<lambda>tree.
     case map_of tree (''/configurations/'' @ fc_configuration c) of
       None \<Rightarrow> Inl (fit_err ''missing or unsupported selected configuration'')
     | Some config \<Rightarrow>
         bindE (checks
           [(fdt_prop config ''loadables'' \<noteq> None \<or> fdt_prop config ''script'' \<noteq> None,
             fit_err ''missing or unsupported selected configuration''),
            (fdt_prop config ''kernel'' = None \<or> fdt_prop config ''fdt'' = None,
             fit_err ''selected configuration needs kernel and device tree'')]) (\<lambda>_.
         bindE (mapE (\<lambda>key. fdt_string (the (fdt_prop config key)))
             (filter (\<lambda>key. fdt_prop config key \<noteq> None) [''kernel'', ''fdt'', ''ramdisk'', ''fpga''])) (\<lambda>selected.
         bindE (checks
           [(\<not> distinct selected \<or> set selected \<noteq> set (fc_components c),
             fit_err ''selected components differ from trusted manifest'')]) (\<lambda>_.
           foldE (check_component t c tree) selected [])))))"

definition validate_recovery_fit :: "fit_tools \<Rightarrow> bytes \<Rightarrow> fit_contract \<Rightarrow> string \<Rightarrow> unit result" where
  "validate_recovery_fit t data c soc = bindE (admit_fit t data c soc) (\<lambda>_. Inr ())"

section \<open>What an admitted FIT allocates\<close>

text \<open>Allocations inside the qualified window that do not overlap.\<close>

definition good_windows :: "fit_contract \<Rightarrow> windows \<Rightarrow> bool" where
  "good_windows c ws \<longleftrightarrow>
     (\<forall>(a, b) \<in> set ws. fc_ram_start c \<le> a \<and> a < b \<and> b \<le> fc_ram_end c) \<and>
     sorted_wrt (\<lambda>(a, b) (a1, b1). b \<le> a1 \<or> b1 \<le> a) ws"

lemma check_address_good:
  "check_address c ps extent key ws = Inr ws1 \<Longrightarrow> good_windows c ws \<Longrightarrow> good_windows c ws1"
  by (auto simp: check_address_def good_windows_def Let_def bindE_Inr_iff sorted_wrt_append list_ex_iff
      split: option.splits if_splits) fastforce+

lemma check_component_good:
  assumes "check_component t c tree name ws = Inr ws1" and "good_windows c ws"
  shows "good_windows c ws1"
proof -
  obtain ps n where "foldE (check_address c ps n) [''load'', ''entry''] ws = Inr ws1"
    using assms(1) unfolding check_component_def Let_def bindE_Inr_iff by blast
  then show ?thesis using foldE_inv [of "check_address c ps n" _ ws ws1 "good_windows c"]
    assms(2) check_address_good by blast
qed

lemma admit_fit_good: "admit_fit t data c soc = Inr ws \<Longrightarrow> good_windows c ws"
  using foldE_inv [of "check_component t c tree" selected "[]" ws "good_windows c" for tree selected]
    check_component_good
  by (fastforce simp: admit_fit_def bindE_Inr_iff good_windows_def split: option.splits)

end
