(* ===== verification/Recovery_Planner.thy ===== *)
theory Recovery_Planner
  imports Recovery_Fit
begin

text \<open>
  \<open>recovery/planner.py\<close>: the reconstruction of the flash image a recovery should end with and the
  program of sector writes that reaches it. SHA-256, the canonical JSON of the contracts and its
  parser are the fields of one parameter. Blobs are stored and fetched by callables, as in the
  source: an action on whatever state holds them.
\<close>

record evidence_codec =
  ec_tools :: fit_tools
  ec_plan_bytes :: "plan \<Rightarrow> bytes"
  ec_parse_plan :: "bytes \<Rightarrow> plan result"
  ec_profile_bytes :: "profile \<Rightarrow> bytes"
  ec_history_bytes :: "historical_boot \<Rightarrow> bytes"
  ec_parse_history :: "bytes \<Rightarrow> historical_boot result"

definition digest :: "evidence_codec \<Rightarrow> bytes \<Rightarrow> string" where
  "digest e = ft_sha256_hex (ec_tools e)"

definition plan_sha256 :: "evidence_codec \<Rightarrow> plan \<Rightarrow> string" where
  "plan_sha256 e p = digest e (ec_plan_bytes e p)"

definition profile_sha256 :: "evidence_codec \<Rightarrow> profile \<Rightarrow> string" where
  "profile_sha256 e p = digest e (ec_profile_bytes e p)"

definition POLICY_VERSION :: string where
  "POLICY_VERSION = ''ppu-physical-flash-v1''"

section \<open>The environment\<close>

definition env_unknown :: "string \<Rightarrow> exn" where
  "env_unknown = rec_err ''environment_unknown''"

definition environment_values :: "bytes \<Rightarrow> bool \<Rightarrow> (bytes \<times> bytes) list result" where
  "environment_values raw opaque_padding =
     (if \<not> opaque_padding then decode_environment raw False False
      else if length raw \<noteq> 0x20000 \<or> le_value (take 4 raw) \<noteq> crc32 (drop 4 raw)
      then Inl (env_unknown ''invalid captured environment size or CRC'')
      else case find_terminator (drop 4 raw) of
        None \<Rightarrow> Inl (env_unknown ''missing environment terminator'')
      | Some stop \<Rightarrow>
          let used = take (stop + 2) (drop 4 raw);
              data = used @ replicate (length raw - 4 - length used) 0 in
          decode_environment (le_bytes 4 (crc32 data) @ data) False False)"

text \<open>\<open>entries[entries.index(old)] = new\<close>; \<open>None\<close> when \<open>old\<close> is not in the list.\<close>

fun replace_first :: "'a \<Rightarrow> 'a \<Rightarrow> 'a list \<Rightarrow> 'a list option" where
  "replace_first old new [] = None"
| "replace_first old new (x # xs) =
     (if x = old then Some (new # xs) else map_option ((#) x) (replace_first old new xs))"

definition fit_size_entry :: "bytes \<Rightarrow> bytes" where
  "fit_size_entry v = FIT_SIZE @ 61 # v"

text \<open>The rewritten data area: the new entries, then the original bytes outside the old ones.\<close>

definition rewritten_data :: "bytes \<Rightarrow> nat \<Rightarrow> bytes list \<Rightarrow> bytes" where
  "rewritten_data data terminator entries =
     (let encoded = join_entries entries @ [0, 0]; old_end = terminator + 2;
          pad = (if old_end < length data then data ! old_end else 0);
          filled = encoded @ replicate (old_end - length encoded) pad in
      filled @ drop (length filled) data)"

definition environment_with_fit_size :: "bytes \<Rightarrow> nat \<Rightarrow> bool \<Rightarrow> bytes result" where
  "environment_with_fit_size raw n opaque_padding =
     bindE (environment_values raw opaque_padding) (\<lambda>env.
     case map_of env FIT_SIZE of
       None \<Rightarrow> Inl (env_unknown ''captured environment lacks fit_size'')
     | Some v \<Rightarrow>
         let old = fit_size_entry v; new = fit_size_entry (ascii_bytes (hex_upper n)); data = drop 4 raw in
         if opaque_padding \<and> length old \<noteq> length new
         then Inl (env_unknown ''incident fit_size must preserve byte offsets'')
         else case find_terminator data of
           None \<Rightarrow> Inl (ValueError ''subsection not found'')
         | Some terminator \<Rightarrow>
             case replace_first old new (split_bytes 0 (take terminator data)) of
               None \<Rightarrow> Inl (ValueError ''not in list'')
             | Some entries \<Rightarrow>
                 if length (join_entries entries @ [0, 0]) > length data
                 then Inl (env_unknown ''environment has no room for fit_size'')
                 else let encoded = rewritten_data data terminator entries;
                          res = le_bytes 4 (crc32 encoded) @ encoded in
                   bindE (environment_values res opaque_padding) (\<lambda>env1.
                     if \<not> same_dict env1 (AList.update FIT_SIZE (ascii_bytes (hex_upper n)) env)
                     then Inl (env_unknown ''unexpected serialization change'')
                     else Inr res))"

section \<open>Building a plan\<close>

text \<open>\<open>image[a:a + len(p)] = p\<close> on a \<open>bytearray\<close>.\<close>

definition overlay :: "bytes \<Rightarrow> nat \<Rightarrow> bytes \<Rightarrow> bytes" where
  "overlay img a p = take a img @ p @ drop (a + length p) img"

text \<open>\<open>range(first, stop, step)\<close>.\<close>

definition sector_starts :: "nat \<Rightarrow> nat \<Rightarrow> nat \<Rightarrow> nat list" where
  "sector_starts first stop step = map (\<lambda>i. first + i * step) [0..<(stop - first + step - 1) div step]"

definition region_interval :: "region \<Rightarrow> interval result" where
  "region_interval r = interval_new (int (rg_start r)) (int (rg_end r))"

definition sector_range :: "profile \<Rightarrow> geometry \<Rightarrow> region \<Rightarrow> nat \<Rightarrow> nat \<Rightarrow> nat \<Rightarrow> nat \<Rightarrow> unit result" where
  "sector_range prof g r payload_start payload_end start stop =
     bindE (interval_new (int (max start payload_start)) (int (min stop payload_end))) (\<lambda>payload.
     bindE (interval_new (int start) (int stop)) (\<lambda>footprint.
     bindE (region_interval r) (\<lambda>destination.
     bindE (mapE region_interval (filter (\<lambda>p. rg_name p \<noteq> rg_name r) (ge_regions g))) (\<lambda>protected.
       validate_write_intervals payload footprint destination (int (pr_write_limit prof)) protected))))"

definition unqualified_range :: "unit result \<Rightarrow> unit result" where
  "unqualified_range m =
     (case m of Inl (ValueError msg) \<Rightarrow> Inl (rec_err ''flash_range_unqualified'' msg) | _ \<Rightarrow> m)"

definition plan_sector ::
    "evidence_codec \<Rightarrow> profile \<Rightarrow> geometry \<Rightarrow> (bytes \<Rightarrow> ('s, blob) action) \<Rightarrow> repair_kind \<Rightarrow> region \<Rightarrow> nat \<Rightarrow> nat
     \<Rightarrow> bytes \<Rightarrow> bytes \<Rightarrow> nat \<Rightarrow> sector list \<Rightarrow> ('s, sector list) action" where
  "plan_sector e prof g put kind r payload_start payload_end original expected start sectors =
     (let stop = start + rg_erase_size r; before = slice start stop original; after = slice start stop expected in
      if before = after then ret sectors
      else andThen (lift (unqualified_range (sector_range prof g r payload_start payload_end start stop))) (\<lambda>_.
        andThen (put after) (\<lambda>b. ret (sectors @
          [\<lparr>sc_kind = kind, sc_start = start, sc_size = rg_erase_size r,
            sc_before_sha256 = digest e before, sc_after = b\<rparr>]))))"

type_synonym repair = "repair_kind \<times> region \<times> nat \<times> bytes"

type_synonym repair_state = "bytes \<times> patch list \<times> sector list"

definition plan_repair ::
    "evidence_codec \<Rightarrow> profile \<Rightarrow> geometry \<Rightarrow> (bytes \<Rightarrow> ('s, blob) action) \<Rightarrow> bytes \<Rightarrow> repair \<Rightarrow> repair_state
     \<Rightarrow> ('s, repair_state) action" where
  "plan_repair e prof g put original = (\<lambda>(kind, r, start, payload) (expected, patches, sectors).
     let stop = start + length payload in
     andThen (refuse (stop > rg_end r) (rec_err ''flash_range_unqualified'' ''payload exceeds partition'')) (\<lambda>_.
     let expected1 = overlay expected start payload in
     andThen (put payload) (\<lambda>b.
     let patches1 = patches @ [\<lparr>pt_kind = kind, pt_start = start, pt_payload = b,
                                pt_before_sha256 = digest e (slice start stop original)\<rparr>];
         first = start - (start - rg_start r) mod rg_erase_size r in
     andThen (foldA (plan_sector e prof g put kind r start stop original expected1)
                (sector_starts first stop (rg_erase_size r)) sectors) (\<lambda>sectors1.
       ret (expected1, patches1, sectors1)))))"

definition provenance_err :: "string \<Rightarrow> exn" where
  "provenance_err = rec_err ''provenance_missing''"

definition history_mismatch :: "evidence_codec \<Rightarrow> bytes \<Rightarrow> historical_boot \<Rightarrow> provenance \<Rightarrow> bool" where
  "history_mismatch e history h pv \<longleftrightarrow>
     digest e history \<noteq> pv_historical_record_sha256 pv \<or> hb_target_uid h \<noteq> pv_target_uid pv
     \<or> hb_boot_sha256 h \<noteq> pv_historical_boot_sha256 pv"

definition build_plan ::
    "evidence_codec \<Rightarrow> string \<Rightarrow> profile \<Rightarrow> observation \<Rightarrow> bytes \<Rightarrow> bytes \<Rightarrow> bytes \<Rightarrow> provenance \<Rightarrow> bytes
     \<Rightarrow> (bytes \<Rightarrow> ('s, blob) action) \<Rightarrow> ('s, plan) action" where
  "build_plan e session_id prof ob original boot fit pv history put =
     andThen (lift (qualify (digest e) prof ob True)) (\<lambda>_.
     andThen (lift (ec_parse_history e history)) (\<lambda>h.
     andThen (refuse (ec_history_bytes e h \<noteq> history \<or> history_mismatch e history h pv)
       (provenance_err ''historical target boot receipt differs'')) (\<lambda>_.
     andThen (refuse (length original \<noteq> ge_capacity (on_geometry ob))
       (rec_err ''backup_invalid'' ''backup does not cover full physical flash'')) (\<lambda>_.
     andThen (refuse (Some (pv_target_uid pv) \<noteq> tg_uid (on_target ob))
       (provenance_err ''boot provenance belongs to another target'')) (\<lambda>_.
     andThen (lift (geometry_region (on_geometry ob) ''boot'')) (\<lambda>boot_region.
     andThen (lift (geometry_region (on_geometry ob) ''environment'')) (\<lambda>env_region.
     andThen (lift (geometry_region (on_geometry ob) ''fit'')) (\<lambda>fit_region.
     andThen (refuse (length boot \<noteq> rg_size boot_region \<or> digest e boot \<noteq> pv_boot_source_sha256 pv
         \<or> digest e boot \<noteq> pv_historical_boot_sha256 pv)
       (provenance_err ''full boot image must match target historical digest'')) (\<lambda>_.
     andThen (refuse (digest e fit \<noteq> pv_rollback_sha256 pv) (provenance_err ''rollback provenance differs'')) (\<lambda>_.
     let boot_start = pv_boot_restore_start pv; boot_end = boot_start + pv_boot_restore_size pv in
     andThen (refuse (\<not> (rg_start boot_region \<le> boot_start \<and> boot_start < boot_end \<and> boot_end \<le> rg_end boot_region))
       (provenance_err ''explicit boot restoration exceeds boot partition'')) (\<lambda>_.
     let relative_start = boot_start - rg_start boot_region; relative_end = boot_end - rg_start boot_region;
         boot_part = slice relative_start relative_end boot in
     andThen (refuse (overlay (slice (rg_start boot_region) (rg_end boot_region) original) relative_start boot_part \<noteq> boot)
       (provenance_err ''unexplained boot changes outside approved restoration'')) (\<lambda>_.
     andThen (lift (validate_recovery_fit (ec_tools e) fit (pr_rollback prof) (tg_soc (on_target ob)))) (\<lambda>_.
     andThen (lift (environment_with_fit_size (slice (rg_start env_region) (rg_end env_region) original)
         (length fit) (pr_opaque_environment_padding prof))) (\<lambda>env_after.
     andThen (foldA (plan_repair e prof (on_geometry ob) put original)
         [(Fit, fit_region, rg_start fit_region, fit),
          (Environment, env_region, rg_start env_region, env_after),
          (Boot, boot_region, boot_start, boot_part)] (original, [], [])) (\<lambda>(expected, patches, sectors).
     andThen (put original) (\<lambda>original_blob.
     andThen (put original) (\<lambda>current_blob.
     andThen (put expected) (\<lambda>expected_blob.
     andThen (put history) (\<lambda>history_blob.
     andThen (put boot) (\<lambda>boot_blob.
       ret \<lparr>pn_policy_version = POLICY_VERSION, pn_session_id = session_id,
            pn_profile_sha256 = profile_sha256 e prof, pn_observation = ob, pn_original = original_blob,
            pn_current = current_blob, pn_expected = expected_blob, pn_provenance = pv,
            pn_history = history_blob, pn_boot_source = boot_blob, pn_patches = patches,
            pn_sectors = sectors, pn_parent_plan = None\<rparr>))))))))))))))))))))"

section \<open>Validating a plan\<close>

definition plan_invalid :: "string \<Rightarrow> exn" where
  "plan_invalid = rec_err ''plan_invalid''"

text \<open>The local \<open>remember\<close>: a blob for the data, kept only in a dictionary the function drops.\<close>

definition remember :: "evidence_codec \<Rightarrow> bytes \<Rightarrow> ('s, blob) action" where
  "remember e data = lift (blob_new (digest e data) (length data))"

definition patch_of :: "plan \<Rightarrow> repair_kind \<Rightarrow> patch option" where
  "patch_of p kind = find (\<lambda>x. pt_kind x = kind) (rev (pn_patches p))"

text \<open>The sectors still to write when the flash holds \<open>current\<close>.\<close>

definition pending_sectors :: "evidence_codec \<Rightarrow> bytes \<Rightarrow> sector list \<Rightarrow> sector list" where
  "pending_sectors e current sectors =
     map (\<lambda>s. s\<lparr>sc_before_sha256 := digest e (slice (sc_start s) (sc_start s + sc_size s) current)\<rparr>)
       (filter (\<lambda>s. digest e (slice (sc_start s) (sc_start s + sc_size s) current) \<noteq> bl_sha256 (sc_after s)) sectors)"

text \<open>Put the bytes of \<open>source\<close> back into the given footprints.\<close>

definition restore_spans :: "(nat \<times> nat) list \<Rightarrow> bytes \<Rightarrow> bytes \<Rightarrow> bytes" where
  "restore_spans spans source img =
     foldl (\<lambda>m (a, n). overlay m a (slice a (a + n) source)) img spans"

definition footprint :: "sector \<Rightarrow> nat \<times> nat" where
  "footprint s = (sc_start s, sc_size s)"

definition validate_plan ::
    "evidence_codec \<Rightarrow> plan \<Rightarrow> profile \<Rightarrow> (blob \<Rightarrow> ('s, bytes) action) \<Rightarrow> ('s, unit) action" where
  "validate_plan e p prof get =
     andThen (refuse (pn_policy_version p \<noteq> POLICY_VERSION \<or> pn_profile_sha256 p \<noteq> profile_sha256 e prof)
       (rec_err ''plan_stale'' ''policy or qualification changed'')) (\<lambda>_.
     andThen (refuse (pt_kind ` set (pn_patches p) \<noteq> {Boot, Environment, Fit} \<or> length (pn_patches p) \<noteq> 3)
       (plan_invalid ''repair patch set differs'')) (\<lambda>_.
     andThen (get (pn_original p)) (\<lambda>original.
     andThen (get (pn_boot_source p)) (\<lambda>boot.
     andThen (get (pt_payload (the (patch_of p Fit)))) (\<lambda>fit.
     andThen (get (pn_history p)) (\<lambda>history.
     andThen (build_plan e (pn_session_id p) prof (pn_observation p) original boot fit (pn_provenance p) history
         (remember e)) (\<lambda>rebuilt.
     andThen (refuse (pn_patches p \<noteq> pn_patches rebuilt \<or> pn_expected p \<noteq> pn_expected rebuilt)
       (plan_invalid ''expected image or patches differ from reconstruction'')) (\<lambda>_.
     andThen (get (pn_current p)) (\<lambda>current.
     andThen (get (pn_expected p)) (\<lambda>expected.
     andThen (refuse (length current \<noteq> length expected) (plan_invalid ''current flash length differs'')) (\<lambda>_.
     andThen (refuse (pending_sectors e current (pn_sectors rebuilt) \<noteq> pn_sectors p)
       (plan_invalid ''sector program differs from reconstructed image'')) (\<lambda>_.
     andThen (get (pn_original p)) (\<lambda>original1.
     andThen (refuse (restore_spans (map footprint (pn_sectors rebuilt)) original1 current \<noteq> original1)
       (plan_invalid ''unexplained changes outside repair footprint'')) (\<lambda>_.
       eachA (\<lambda>s. andThen (get (sc_after s)) (\<lambda>data.
         refuse (data \<noteq> slice (sc_start s) (sc_start s + sc_size s) expected)
           (plan_invalid ''sector payload differs''))) (pn_sectors p)))))))))))))))"

end
