(* ===== verification/Recovery_Plan_Facts.thy ===== *)
theory Recovery_Plan_Facts
  imports Recovery_Planner
begin

text \<open>
  Lemmas about recovery planning: what the sector program of a plan covers, and what the image a plan
  leads to holds.
\<close>

section \<open>Overlays\<close>

lemma length_overlay [simp]: "a + length p \<le> length img \<Longrightarrow> length (overlay img a p) = length img"
  by (simp add: overlay_def)

lemma nth_overlay:
  "a + length p \<le> length img \<Longrightarrow> i < length img \<Longrightarrow>
     overlay img a p ! i = (if a \<le> i \<and> i < a + length p then p ! (i - a) else img ! i)"
  by (auto simp: overlay_def nth_append)

lemma nth_slice: "i < b - a \<Longrightarrow> a + i < length xs \<Longrightarrow> slice a b xs ! i = xs ! (a + i)"
  by (simp add: slice_def)

lemma slice_eqI:
  assumes "length xs = length ys" and "\<And>i. a \<le> i \<Longrightarrow> i < b \<Longrightarrow> i < length xs \<Longrightarrow> xs ! i = ys ! i"
  shows "slice a b xs = slice a b ys"
  using assms by (auto intro!: nth_equalityI simp: nth_slice)

lemma slice_nth_eq:
  "slice a b xs = slice a b ys \<Longrightarrow> length xs = length ys \<Longrightarrow> a \<le> i \<Longrightarrow> i < b \<Longrightarrow> i < length xs \<Longrightarrow> xs ! i = ys ! i"
  by (metis (no_types, lifting) add_diff_cancel_left' le_Suc_ex less_diff_iff nth_slice diff_less_mono)

lemma slice_overlay_same: "a + length p \<le> length img \<Longrightarrow> slice a (a + length p) (overlay img a p) = p"
  by (simp add: slice_def overlay_def)

lemma slice_overlay_apart:
  "a + length p \<le> length img \<Longrightarrow> u \<le> a \<or> a + length p \<le> b \<Longrightarrow> slice b u (overlay img a p) = slice b u img"
  by (rule slice_eqI) (auto simp: nth_overlay)

section \<open>Sector programs\<close>

definition honest_put :: "evidence_codec \<Rightarrow> (bytes \<Rightarrow> ('s, blob) action) \<Rightarrow> bool" where
  "honest_put e put \<longleftrightarrow>
     (\<forall>d s s1 b. put d s = (s1, Inr b) \<longrightarrow> bl_sha256 b = digest e d \<and> bl_size b = length d)"

definition covers :: "sector \<Rightarrow> nat \<Rightarrow> bool" where
  "covers x i \<longleftrightarrow> sc_start x \<le> i \<and> i < sc_start x + sc_size x"

text \<open>A sector of region \<open>r\<close> below the write limit whose payload is the sector's part of the image.\<close>

definition sector_of :: "evidence_codec \<Rightarrow> profile \<Rightarrow> region \<Rightarrow> bytes \<Rightarrow> sector \<Rightarrow> bool" where
  "sector_of e prof r img x \<longleftrightarrow>
     sc_size x = rg_erase_size r \<and> rg_start r \<le> sc_start x \<and> sc_start x + sc_size x \<le> rg_end r
     \<and> sc_start x + sc_size x \<le> pr_write_limit prof
     \<and> bl_sha256 (sc_after x) = digest e (slice (sc_start x) (sc_start x + sc_size x) img)"

lemma unqualified_range_Inr [simp]: "unqualified_range m = Inr () \<longleftrightarrow> m = Inr ()"
  by (auto simp: unqualified_range_def split: sum.splits exn.splits)

lemma sector_range_ok:
  assumes "sector_range prof g r ps pe start stop = Inr ()"
  shows "rg_start r \<le> start" "stop \<le> rg_end r" "stop \<le> pr_write_limit prof"
  using assms
  by (auto simp: sector_range_def region_interval_def interval_new_def bindE_Inr_iff
      validate_write_intervals_def iv_contains_def split: if_splits)

lemma plan_sector_facts:
  assumes "plan_sector e prof g put kind r ps pe original expected start sectors s = (s1, Inr sectors1)"
    and "honest_put e put"
  shows "\<exists>new. sectors1 = sectors @ new \<and> list_all (sector_of e prof r expected) new \<and>
    (slice start (start + rg_erase_size r) original \<noteq> slice start (start + rg_erase_size r) expected \<longrightarrow>
       (\<exists>x \<in> set new. sc_start x = start \<and> sc_size x = rg_erase_size r))"
proof (cases "slice start (start + rg_erase_size r) original = slice start (start + rg_erase_size r) expected")
  case False
  then obtain b s2 s3 where range: "sector_range prof g r ps pe start (start + rg_erase_size r) = Inr ()"
    and put: "put (slice start (start + rg_erase_size r) expected) s2 = (s3, Inr b)"
    and new: "sectors1 = sectors @ [\<lparr>sc_kind = kind, sc_start = start, sc_size = rg_erase_size r,
      sc_before_sha256 = digest e (slice start (start + rg_erase_size r) original), sc_after = b\<rparr>]"
    using assms(1) by (auto simp: plan_sector_def Let_def andThen_Inr)
  have "bl_sha256 b = digest e (slice start (start + rg_erase_size r) expected)"
    using put assms(2) by (auto simp: honest_put_def)
  then show ?thesis using new sector_range_ok [OF range] by (simp add: sector_of_def)
qed (use assms in \<open>simp add: plan_sector_def Let_def\<close>)

lemma fold_sectors_facts:
  assumes "foldA (plan_sector e prof g put kind r ps pe original expected) starts sectors s = (s1, Inr sectors1)"
    and "honest_put e put"
  shows "\<exists>new. sectors1 = sectors @ new \<and> list_all (sector_of e prof r expected) new \<and>
    (\<forall>start \<in> set starts.
       slice start (start + rg_erase_size r) original \<noteq> slice start (start + rg_erase_size r) expected \<longrightarrow>
       (\<exists>x \<in> set new. sc_start x = start \<and> sc_size x = rg_erase_size r))"
  using assms(1)
proof (induction starts arbitrary: sectors s)
  case (Cons start starts)
  obtain s2 sectors2 where a: "plan_sector e prof g put kind r ps pe original expected start sectors s = (s2, Inr sectors2)"
    and b: "foldA (plan_sector e prof g put kind r ps pe original expected) starts sectors2 s2 = (s1, Inr sectors1)"
    using Cons.prems by (auto simp: andThen_Inr)
  show ?case using plan_sector_facts [OF a assms(2)] Cons.IH [OF b] by fastforce
qed simp

text \<open>The grid of starts reaches every byte of the payload.\<close>

lemma sector_starts_cover:
  assumes "0 < k" and "first \<le> start" and "start \<le> i" and "i < stop"
  shows "\<exists>a \<in> set (sector_starts first stop k). a \<le> i \<and> i < a + k"
proof -
  let ?j = "(i - first) div k"
  have m: "?j * k \<le> i - first" "i - first < ?j * k + k"
    using assms(1) by (simp_all add: div_times_less_eq_dividend) (metis dividend_less_div_times add.commute)
  have "?j * k + k \<le> stop - first + k - 1" using m(1) assms by linarith
  then have "(?j + 1) * k div k \<le> (stop - first + k - 1) div k" by (intro div_le_mono) simp
  then have "?j < (stop - first + k - 1) div k" using assms(1) by simp
  then have "first + ?j * k \<in> set (sector_starts first stop k)"
    unfolding sector_starts_def set_map by (intro imageI) simp
  then show ?thesis using m assms(2,3) by (intro bexI [of _ "first + ?j * k"]) linarith+
qed

text \<open>The state of the repair loop: \<open>names\<close> are the regions done.\<close>

definition repairing ::
    "evidence_codec \<Rightarrow> profile \<Rightarrow> geometry \<Rightarrow> bytes \<Rightarrow> string set \<Rightarrow> bytes \<Rightarrow> sector list \<Rightarrow> bool" where
  "repairing e prof g original names expected sectors \<longleftrightarrow>
     length expected = length original
     \<and> (\<forall>x \<in> set sectors. \<exists>r \<in> set (ge_regions g). rg_name r \<in> names \<and> sector_of e prof r expected x)
     \<and> (\<forall>i < length original. expected ! i \<noteq> original ! i \<longrightarrow> (\<exists>x \<in> set sectors. covers x i))"

lemma sector_of_apart:
  assumes "sector_of e prof r1 expected x" and "a + length p \<le> length expected"
    and "rg_end r1 \<le> a \<or> a + length p \<le> rg_start r1"
  shows "sector_of e prof r1 (overlay expected a p) x"
proof -
  have "slice (sc_start x) (sc_start x + sc_size x) (overlay expected a p) = slice (sc_start x) (sc_start x + sc_size x) expected"
    by (rule slice_overlay_apart) (use assms in \<open>auto simp: sector_of_def\<close>)
  then show ?thesis using assms(1) by (simp add: sector_of_def)
qed

lemma plan_repair_facts:
  assumes run: "plan_repair e prof g put original (kind, r, start, payload) (expected, patches, sectors) s
      = (s1, Inr (expected1, patches1, sectors1))"
    and put: "honest_put e put" and g: "geometry_validate g = Inr ()" and r: "r \<in> set (ge_regions g)"
    and new: "rg_name r \<notin> names" and start: "rg_start r \<le> start"
    and before: "repairing e prof g original names expected sectors" and cap: "length original = ge_capacity g"
  shows "expected1 = overlay expected start payload \<and> start + length payload \<le> rg_end r
    \<and> repairing e prof g original (insert (rg_name r) names) expected1 sectors1"
proof -
  let ?first = "start - (start - rg_start r) mod rg_erase_size r"
  have fits: "start + length payload \<le> rg_end r" and E: "expected1 = overlay expected start payload"
    using run by (auto simp: plan_repair_def Let_def andThen_Inr)
  obtain s2 where f: "foldA (plan_sector e prof g put kind r start (start + length payload) original
      (overlay expected start payload)) (sector_starts ?first (start + length payload) (rg_erase_size r)) sectors s2
      = (s1, Inr sectors1)"
    using run by (auto simp: plan_repair_def Let_def andThen_Inr)
  have inside: "start + length payload \<le> length expected"
    using geometry_facts(1) [OF g r] fits before cap by (simp add: repairing_def)
  obtain added where sectors1: "sectors1 = sectors @ added"
    and good: "list_all (sector_of e prof r expected1) added"
    and all: "\<forall>a \<in> set (sector_starts ?first (start + length payload) (rg_erase_size r)).
       slice a (a + rg_erase_size r) original \<noteq> slice a (a + rg_erase_size r) expected1 \<longrightarrow>
       (\<exists>x \<in> set added. sc_start x = a \<and> sc_size x = rg_erase_size r)"
    using fold_sectors_facts [OF f put] E by auto
  have len: "length expected1 = length original" using before inside by (simp add: E repairing_def)
  have old: "\<exists>r1 \<in> set (ge_regions g). rg_name r1 \<in> names \<and> sector_of e prof r1 expected1 x" if x: "x \<in> set sectors" for x
  proof -
    obtain r1 where r1: "r1 \<in> set (ge_regions g)" "rg_name r1 \<in> names" "sector_of e prof r1 expected x"
      using before x by (auto simp: repairing_def)
    then have "rg_end r1 \<le> rg_start r \<or> rg_end r \<le> rg_start r1"
      using geometry_facts(2) [OF g r1(1) r] new by metis
    then show ?thesis using sector_of_apart [OF r1(3) inside] r1 fits start by (auto simp: E)
  qed
  have cover: "\<exists>x \<in> set sectors1. covers x i" if i: "i < length original" and d: "expected1 ! i \<noteq> original ! i" for i
  proof (cases "start \<le> i \<and> i < start + length payload")
    case True
    have k: "0 < rg_erase_size r" using geometry_facts(3) [OF g r] by simp
    obtain a where a: "a \<in> set (sector_starts ?first (start + length payload) (rg_erase_size r))" "a \<le> i" "i < a + rg_erase_size r"
      using sector_starts_cover [OF k, of ?first start i "start + length payload"] True by auto
    have "slice a (a + rg_erase_size r) original \<noteq> slice a (a + rg_erase_size r) expected1"
      using slice_nth_eq [OF _ len [symmetric] a(2,3) i] d by metis
    then obtain x where "x \<in> set added" "sc_start x = a" "sc_size x = rg_erase_size r" using all a(1) by blast
    then show ?thesis using a by (auto simp: sectors1 covers_def)
  next
    case False
    then have "expected ! i \<noteq> original ! i"
      using d i before inside by (auto simp: E nth_overlay repairing_def)
    then show ?thesis using before i by (auto simp: repairing_def sectors1)
  qed
  have "\<exists>r1 \<in> set (ge_regions g). rg_name r1 \<in> insert (rg_name r) names \<and> sector_of e prof r1 expected1 x"
    if "x \<in> set sectors1" for x
  proof (cases "x \<in> set sectors")
    case True
    then show ?thesis using old by blast
  next
    case False
    then have "sector_of e prof r expected1 x" using that good by (auto simp: sectors1 list_all_iff)
    then show ?thesis using r by blast
  qed
  then show ?thesis using E fits len cover by (simp add: repairing_def)
qed

section \<open>The image a plan leads to\<close>

lemma environment_values_length: "environment_values raw opq = Inr v \<Longrightarrow> length raw = 0x20000"
  by (auto simp: environment_values_def decode_environment_def decode_env_def bindE_Inr_iff split: if_splits option.splits)

lemma environment_with_fit_size_facts:
  assumes "environment_with_fit_size raw n opq = Inr env"
  shows "length env = length raw"
    and "\<exists>v v1. environment_values raw opq = Inr v \<and> environment_values env opq = Inr v1 \<and>
      map_of v FIT_SIZE \<noteq> None \<and> same_dict v1 (AList.update FIT_SIZE (ascii_bytes (hex_upper n)) v)"
proof -
  show E: "\<exists>v v1. environment_values raw opq = Inr v \<and> environment_values env opq = Inr v1 \<and>
      map_of v FIT_SIZE \<noteq> None \<and> same_dict v1 (AList.update FIT_SIZE (ascii_bytes (hex_upper n)) v)"
  proof -
    obtain v where v: "environment_values raw opq = Inr v"
      using assms by (cases "environment_values raw opq") (simp_all add: environment_with_fit_size_def)
    obtain x where x: "map_of v FIT_SIZE = Some x"
      using assms v by (cases "map_of v FIT_SIZE") (simp_all add: environment_with_fit_size_def)
    obtain t where t: "find_terminator (drop 4 raw) = Some t"
      using assms v x by (cases "find_terminator (drop 4 raw)")
        (simp_all add: environment_with_fit_size_def Let_def split: if_splits)
    obtain entries where "replace_first (fit_size_entry x) (fit_size_entry (ascii_bytes (hex_upper n)))
        (split_bytes 0 (take t (drop 4 raw))) = Some entries"
      using assms v x t by (cases "replace_first (fit_size_entry x) (fit_size_entry (ascii_bytes (hex_upper n)))
        (split_bytes 0 (take t (drop 4 raw)))") (simp_all add: environment_with_fit_size_def Let_def split: if_splits)
    then show ?thesis using assms v x t
      by (auto simp: environment_with_fit_size_def Let_def bindE_Inr_iff split: if_splits)
  qed
  then show "length env = length raw" by (metis environment_values_length)
qed

text \<open>
  The image \<open>img\<close> repairs \<open>original\<close>: the boot partition holds \<open>boot\<close>, the environment is the original
  one with \<open>fit_size\<close> rewritten, the FIT partition starts with \<open>fit\<close>, every other byte is original.
\<close>

definition repaired :: "profile \<Rightarrow> bytes \<Rightarrow> bytes \<Rightarrow> bytes \<Rightarrow> bytes \<Rightarrow> bool" where
  "repaired prof original boot fit img \<longleftrightarrow> length img = length original \<and>
     (\<exists>br er fr env. geometry_region (pr_geometry prof) ''boot'' = Inr br
        \<and> geometry_region (pr_geometry prof) ''environment'' = Inr er
        \<and> geometry_region (pr_geometry prof) ''fit'' = Inr fr
        \<and> environment_with_fit_size (slice (rg_start er) (rg_end er) original) (length fit)
            (pr_opaque_environment_padding prof) = Inr env
        \<and> slice (rg_start br) (rg_end br) img = boot
        \<and> slice (rg_start er) (rg_end er) img = env
        \<and> slice (rg_start fr) (rg_start fr + length fit) img = fit \<and> length fit \<le> rg_size fr
        \<and> (\<forall>i < length img. \<not> (rg_start br \<le> i \<and> i < rg_end br) \<and> \<not> (rg_start er \<le> i \<and> i < rg_end er)
              \<and> \<not> (rg_start fr \<le> i \<and> i < rg_start fr + length fit) \<longrightarrow> img ! i = original ! i))"

lemma slice_overlay_inside:
  assumes "a \<le> b" and "b \<le> length img" and "a \<le> c" and "c + length p \<le> b"
  shows "slice a b (overlay img c p) = overlay (slice a b img) (c - a) p"
proof (rule nth_equalityI)
  show "length (slice a b (overlay img c p)) = length (overlay (slice a b img) (c - a) p)"
    using assms by simp
  fix i
  assume "i < length (slice a b (overlay img c p))"
  then have i: "i < b - a" "a + i < length img" using assms by auto
  then show "slice a b (overlay img c p) ! i = overlay (slice a b img) (c - a) p ! i"
    using assms by (auto simp: nth_slice nth_overlay add.commute [of i a])
qed

text \<open>The three overlays of \<open>build_plan\<close>, in its order, on disjoint regions.\<close>

lemma repaired_overlays:
  assumes g: "geometry_validate (pr_geometry prof) = Inr ()" and cap: "length original = ge_capacity (pr_geometry prof)"
    and br: "geometry_region (pr_geometry prof) ''boot'' = Inr br"
    and er: "geometry_region (pr_geometry prof) ''environment'' = Inr er"
    and fr: "geometry_region (pr_geometry prof) ''fit'' = Inr fr"
    and env: "environment_with_fit_size (slice (rg_start er) (rg_end er) original) (length fit)
            (pr_opaque_environment_padding prof) = Inr env"
    and fit: "rg_start fr + length fit \<le> rg_end fr"
    and boot: "rg_start br \<le> a" "a + length part \<le> rg_end br"
      "overlay (slice (rg_start br) (rg_end br) original) (a - rg_start br) part = boot"
  shows "repaired prof original boot fit (overlay (overlay (overlay original (rg_start fr) fit) (rg_start er) env) a part)"
proof -
  note R = geometry_region_facts [OF br] geometry_region_facts [OF er] geometry_region_facts [OF fr]
  have ends: "rg_end br \<le> length original" "rg_end er \<le> length original" "rg_end fr \<le> length original"
    using geometry_facts(1) [OF g] R cap by simp_all
  have apart: "rg_end br \<le> rg_start er \<or> rg_end er \<le> rg_start br" "rg_end br \<le> rg_start fr \<or> rg_end fr \<le> rg_start br"
    "rg_end er \<le> rg_start fr \<or> rg_end fr \<le> rg_start er"
    using geometry_facts(2) [OF g] R by simp_all
  have grow: "rg_start br \<le> rg_end br" "rg_start er \<le> rg_end er" "rg_start fr \<le> rg_end fr" by (simp_all add: rg_end_def)
  have le: "rg_start er + length env = rg_end er"
    using environment_with_fit_size_facts(1) [OF env] ends grow by simp
  let ?f = "overlay original (rg_start fr) fit" let ?e = "overlay ?f (rg_start er) env" let ?b = "overlay ?e a part"
  have len: "length ?f = length original" "length ?e = length original" "length ?b = length original"
    using fit ends le boot grow by simp_all
  have "slice (rg_start br) (rg_end br) ?b = overlay (slice (rg_start br) (rg_end br) ?e) (a - rg_start br) part"
    using slice_overlay_inside [of "rg_start br" "rg_end br" ?e a part] grow(1) ends len boot by simp
  also have "slice (rg_start br) (rg_end br) ?e = slice (rg_start br) (rg_end br) ?f"
    using apart ends le len by (intro slice_overlay_apart) auto
  also have "\<dots> = slice (rg_start br) (rg_end br) original"
    using apart ends fit len by (intro slice_overlay_apart) auto
  finally have B: "slice (rg_start br) (rg_end br) ?b = boot" using boot(3) by simp
  have "slice (rg_start er) (rg_end er) ?b = slice (rg_start er) (rg_end er) ?e"
    using apart boot ends len by (intro slice_overlay_apart) auto
  also have "\<dots> = env" using slice_overlay_same [of "rg_start er" env ?f] le ends len by simp
  finally have E: "slice (rg_start er) (rg_end er) ?b = env" .
  have "slice (rg_start fr) (rg_start fr + length fit) ?b = slice (rg_start fr) (rg_start fr + length fit) ?e"
    using apart boot ends len fit by (intro slice_overlay_apart) auto
  also have "\<dots> = slice (rg_start fr) (rg_start fr + length fit) ?f"
    using apart le ends len fit by (intro slice_overlay_apart) auto
  also have "\<dots> = fit" using slice_overlay_same fit ends by simp
  finally have F: "slice (rg_start fr) (rg_start fr + length fit) ?b = fit" .
  have "?b ! i = original ! i" if i: "i < length ?b" and
    o: "\<not> (rg_start br \<le> i \<and> i < rg_end br)" "\<not> (rg_start er \<le> i \<and> i < rg_end er)"
      "\<not> (rg_start fr \<le> i \<and> i < rg_start fr + length fit)" for i
  proof -
    have "?b ! i = ?e ! i" using i o(1) boot len ends by (subst nth_overlay) auto
    also have "\<dots> = ?f ! i" using i o(2) le len ends by (subst nth_overlay) auto
    also have "\<dots> = original ! i" using i o(3) fit len ends by (subst nth_overlay) auto
    finally show ?thesis .
  qed
  then show ?thesis using len(3) br er fr env B E F fit
    unfolding repaired_def by (auto simp: rg_end_def)
qed

text \<open>What a built plan commits to.\<close>

lemma build_plan_facts:
  assumes run: "build_plan e sid prof ob original boot fit pv history put s = (s1, Inr p)"
    and put: "honest_put e put" and g: "geometry_validate (pr_geometry prof) = Inr ()"
  shows "\<exists>img. bl_sha256 (pn_expected p) = digest e img \<and> repaired prof original boot fit img
    \<and> repairing e prof (pr_geometry prof) original {''boot'', ''environment'', ''fit''} img (pn_sectors p)
    \<and> length original = ge_capacity (pr_geometry prof)
    \<and> bl_sha256 (pn_original p) = digest e original \<and> pn_observation p = ob
    \<and> digest e fit = fc_sha256 (pr_rollback prof) \<and> digest e boot = pv_historical_boot_sha256 pv"
proof -
  obtain br er fr env where
    ge: "pr_geometry prof = on_geometry ob" and cap: "length original = ge_capacity (on_geometry ob)"
    and br: "geometry_region (on_geometry ob) ''boot'' = Inr br"
    and er: "geometry_region (on_geometry ob) ''environment'' = Inr er"
    and fr: "geometry_region (on_geometry ob) ''fit'' = Inr fr"
    and lb: "length boot = rg_size br"
    and within: "rg_start br \<le> pv_boot_restore_start pv" "pv_boot_restore_start pv + pv_boot_restore_size pv \<le> rg_end br"
    and boot: "overlay (slice (rg_start br) (rg_end br) original) (pv_boot_restore_start pv - rg_start br)
      (slice (pv_boot_restore_start pv - rg_start br)
         (pv_boot_restore_start pv + pv_boot_restore_size pv - rg_start br) boot) = boot"
    and env: "environment_with_fit_size (slice (rg_start er) (rg_end er) original) (length fit)
            (pr_opaque_environment_padding prof) = Inr env"
    and pins: "digest e fit = fc_sha256 (pr_rollback prof)" "digest e boot = pv_historical_boot_sha256 pv"
    using run by (auto simp: build_plan_def Let_def andThen_Inr qualify_def validate_recovery_fit_def admit_fit_def
        digest_def bindE_Inr_iff)
  let ?part = "slice (pv_boot_restore_start pv - rg_start br)
         (pv_boot_restore_start pv + pv_boot_restore_size pv - rg_start br) boot"
  obtain s2 s3 expected patches where
    fold: "foldA (plan_repair e prof (on_geometry ob) put original)
         [(Fit, fr, rg_start fr, fit), (Environment, er, rg_start er, env),
          (Boot, br, pv_boot_restore_start pv, ?part)] (original, [], []) s2 = (s3, Inr (expected, patches, pn_sectors p))"
    and blobs: "\<exists>s4 s5. put original s4 = (s5, Inr (pn_original p))" "\<exists>s4 s5. put expected s4 = (s5, Inr (pn_expected p))"
    and ob: "pn_observation p = ob"
    using run br er fr env by (fastforce simp: build_plan_def Let_def andThen_Inr split: prod.splits simp del: foldA.simps)
  obtain e1 p1 x1 e2 p2 x2 t1 t2 where
    f1: "plan_repair e prof (on_geometry ob) put original (Fit, fr, rg_start fr, fit) (original, [], []) s2 = (t1, Inr (e1, p1, x1))"
    and f2: "plan_repair e prof (on_geometry ob) put original (Environment, er, rg_start er, env) (e1, p1, x1) t1 = (t2, Inr (e2, p2, x2))"
    and f3: "plan_repair e prof (on_geometry ob) put original (Boot, br, pv_boot_restore_start pv, ?part) (e2, p2, x2) t2
      = (s3, Inr (expected, patches, pn_sectors p))"
    using fold by (auto simp: andThen_Inr)
  note gv = g [unfolded ge]
  note R = geometry_region_facts [OF br] geometry_region_facts [OF er] geometry_region_facts [OF fr]
  have r0: "repairing e prof (on_geometry ob) original {} original []" by (simp add: repairing_def)
  note q1 = plan_repair_facts [OF f1 put gv R(5) _ _ r0 cap, simplified R(6)]
  have r1: "repairing e prof (on_geometry ob) original {''fit''} e1 x1" and e1: "e1 = overlay original (rg_start fr) fit"
    and fits: "rg_start fr + length fit \<le> rg_end fr" using q1 by blast+
  note q2 = plan_repair_facts [OF f2 put gv R(3) _ _ r1 cap, simplified R(4)]
  have r2: "repairing e prof (on_geometry ob) original {''environment'', ''fit''} e2 x2" and e2: "e2 = overlay e1 (rg_start er) env"
    using q2 by blast+
  note q3 = plan_repair_facts [OF f3 put gv R(1) _ within(1) r2 cap, simplified R(2)]
  have r3: "repairing e prof (on_geometry ob) original {''boot'', ''environment'', ''fit''} expected (pn_sectors p)"
    and e3: "expected = overlay e2 (pv_boot_restore_start pv) ?part"
    and pe: "pv_boot_restore_start pv + length ?part \<le> rg_end br"
    using q3 by blast+
  have "repaired prof original boot fit expected"
    unfolding e3 e2 e1
    by (rule repaired_overlays) (use g cap br er fr env fits within(1) pe boot ge in simp_all)
  moreover have "bl_sha256 (pn_expected p) = digest e expected" "bl_sha256 (pn_original p) = digest e original"
    using blobs put by (auto simp: honest_put_def)
  ultimately show ?thesis using r3 cap ge ob pins by metis
qed

end
