(* ===== verification/Recovery_Store.thy ===== *)
theory Recovery_Store
  imports Recovery_Planner
begin

text \<open>
  \<open>recovery/store.py\<close> and the \<open>Backend\<close> protocol of \<open>recovery/workflow.py\<close>: the content-addressed
  evidence store with its append-only journal. The radio, its transport and the file system are one
  device state \<open>'d\<close>; what they answer is the parameter \<open>backend\<close>, the \<open>Backend\<close> protocol of the
  source plus the file system calls of the store. Every call may raise, so a procedure can be
  interrupted before and after each of its effects. Events are kept as structured values; their hash
  chain, which only detects edits of the journal files by others, is left out.
\<close>

section \<open>Events and the world\<close>

datatype event =
    BootstrapReady observation
  | BackupCandidate blob
  | BackupVerified blob observation
  | PlanReady blob string
  | RamBootIntent string
  | RamBootVerified string observation return_evidence
  | EraseIntent dispatch
  | EraseCompleted dispatch
  | ProgramIntent dispatch
  | SectorVerified dispatch
  | FlashVerified string blob
  | AwaitingColdBoot string
  | Recovered string return_evidence
  | Interrupted string
  | OtherEvent string

record 'd world =
  wd_device :: 'd
  wd_blobs :: "(string \<times> bytes) list"
  wd_events :: "event list"

text \<open>
  \<open>bk_disk\<close> is one file system operation of the store; \<open>bk_enter\<close> and \<open>bk_leave\<close> take and release
  the session lock, the transport lease and the radio lock.
\<close>

record 'd backend =
  bk_disk :: "'d \<Rightarrow> 'd \<times> unit result"
  bk_enter :: "string \<Rightarrow> 'd \<Rightarrow> 'd \<times> unit result"
  bk_leave :: "string \<Rightarrow> 'd \<Rightarrow> 'd \<times> unit result"
  bk_observe :: "'d \<Rightarrow> 'd \<times> observation result"
  bk_read :: "nat \<Rightarrow> nat \<Rightarrow> 'd \<Rightarrow> 'd \<times> bytes result"
  bk_export_and_reload :: "bytes \<Rightarrow> 'd \<Rightarrow> 'd \<times> unit result"
  bk_stage :: "bytes \<Rightarrow> 'd \<Rightarrow> 'd \<times> unit result"
  bk_erase :: "nat \<Rightarrow> nat \<Rightarrow> 'd \<Rightarrow> 'd \<times> unit result"
  bk_program :: "nat \<Rightarrow> nat \<Rightarrow> 'd \<Rightarrow> 'd \<times> unit result"
  bk_ram_boot :: "bytes \<Rightarrow> 'd \<Rightarrow> 'd \<times> return_evidence result"
  bk_return_to_sd :: "'d \<Rightarrow> 'd \<times> unit result"
  bk_attest_cold_boot :: "'d \<Rightarrow> 'd \<times> return_evidence result"

record 'd recovery =
  rc_codec :: evidence_codec
  rc_session :: session
  rc_profile :: profile
  rc_backend :: "'d backend"

definition dev :: "('d \<Rightarrow> 'd \<times> 'a result) \<Rightarrow> ('d world, 'a) action" where
  "dev f w = (case f (wd_device w) of (d, r) \<Rightarrow> (w\<lparr>wd_device := d\<rparr>, r))"

text \<open>\<open>with guard: m\<close>: the guard is left however \<open>m\<close> ends.\<close>

definition guarded :: "'d recovery \<Rightarrow> string \<Rightarrow> ('d world, 'a) action \<Rightarrow> ('d world, 'a) action" where
  "guarded c name m =
     andThen (dev (bk_enter (rc_backend c) name)) (\<lambda>_. finallyA m (dev (bk_leave (rc_backend c) name)))"

section \<open>The store\<close>

definition disk :: "'d recovery \<Rightarrow> ('d world, unit) action" where
  "disk c = dev (bk_disk (rc_backend c))"

definition evidence_changed :: "string \<Rightarrow> exn" where
  "evidence_changed = rec_err ''evidence_changed''"

definition store_get :: "'d recovery \<Rightarrow> blob \<Rightarrow> ('d world, bytes) action" where
  "store_get c b =
     andThen (disk c) (\<lambda>_.
     andThen (getS wd_blobs) (\<lambda>blobs. lift
       (case map_of blobs (bl_sha256 b) of
          None \<Rightarrow> Inl OSError
        | Some data \<Rightarrow>
            if length data > bl_size b then Inl (rec_err ''evidence_invalid'' ''expected one bounded regular file'')
            else if length data \<noteq> bl_size b \<or> digest (rc_codec c) data \<noteq> bl_sha256 b
            then Inl (evidence_changed ''blob length or digest differs'')
            else Inr data)))"

text \<open>
  \<open>put\<close> publishes under the digest of the data; the link may already exist, and the calls before and
  after the link may raise.
\<close>

definition store_put :: "'d recovery \<Rightarrow> bytes \<Rightarrow> ('d world, blob) action" where
  "store_put c data =
     andThen (refuse (\<not> (0 < length data \<and> length data \<le> MAX_BLOB)) (rec_err ''evidence_invalid'' ''invalid blob size'')) (\<lambda>_.
     andThen (lift (blob_new (digest (rc_codec c) data) (length data))) (\<lambda>b.
     andThen (disk c) (\<lambda>_.
     andThen (getS wd_blobs) (\<lambda>blobs.
       if map_of blobs (bl_sha256 b) \<noteq> None then
         andThen (store_get c b) (\<lambda>found.
         andThen (refuse (found \<noteq> data) (evidence_changed ''existing blob differs'')) (\<lambda>_. ret b))
       else
         andThen (\<lambda>w. (w\<lparr>wd_blobs := blobs @ [(bl_sha256 b, data)]\<rparr>, Inr ())) (\<lambda>_.
         andThen (disk c) (\<lambda>_. ret b))))))"

definition store_events :: "'d recovery \<Rightarrow> ('d world, event list) action" where
  "store_events c = andThen (disk c) (\<lambda>_. getS wd_events)"

definition append_event :: "event \<Rightarrow> ('d world, unit) action" where
  "append_event ev w = (w\<lparr>wd_events := wd_events w @ [ev]\<rparr>, Inr ())"

definition store_record :: "'d recovery \<Rightarrow> event \<Rightarrow> ('d world, unit) action" where
  "store_record c ev =
     andThen (store_events c) (\<lambda>_. andThen (disk c) (\<lambda>_. andThen (append_event ev) (\<lambda>_. disk c)))"

text \<open>\<open>latest(kind)\<close>: the newest event the selector accepts.\<close>

fun first_some :: "('a \<Rightarrow> 'b option) \<Rightarrow> 'a list \<Rightarrow> 'b option" where
  "first_some f [] = None"
| "first_some f (x # xs) = (case f x of Some y \<Rightarrow> Some y | None \<Rightarrow> first_some f xs)"

definition latest :: "'d recovery \<Rightarrow> (event \<Rightarrow> 'a option) \<Rightarrow> ('d world, 'a) action" where
  "latest c select =
     andThen (store_events c) (\<lambda>evs. lift
       (case first_some select (rev evs) of
          None \<Rightarrow> Inl (rec_err ''evidence_missing'' ''evidence is required'') | Some x \<Rightarrow> Inr x))"

fun plan_ready :: "event \<Rightarrow> (blob \<times> string) option" where
  "plan_ready (PlanReady b s) = Some (b, s)" | "plan_ready _ = None"

fun backup_verified :: "event \<Rightarrow> (blob \<times> observation) option" where
  "backup_verified (BackupVerified b ob) = Some (b, ob)" | "backup_verified _ = None"

fun ram_boot_verified :: "event \<Rightarrow> (string \<times> observation) option" where
  "ram_boot_verified (RamBootVerified s ob _) = Some (s, ob)" | "ram_boot_verified _ = None"

fun flash_verified :: "event \<Rightarrow> string option" where
  "flash_verified (FlashVerified s _) = Some s" | "flash_verified _ = None"

fun dispatched :: "event \<Rightarrow> dispatch option" where
  "dispatched (EraseIntent d) = Some d" | "dispatched (ProgramIntent d) = Some d" | "dispatched _ = None"

fun intent :: "event \<Rightarrow> bool" where
  "intent (EraseIntent _) \<longleftrightarrow> True"
| "intent (ProgramIntent _) \<longleftrightarrow> True"
| "intent (RamBootIntent _) \<longleftrightarrow> True"
| "intent _ \<longleftrightarrow> False"

text \<open>\<open>status()["state"]\<close>: every event names a state, an intent names \<open>interrupted\<close>, the rest keep it.\<close>

datatype status =
    Discovered | StBootstrapReady | StBackupVerified | StPlanReady | StRamBootVerified
  | StFlashVerified | StAwaitingColdBoot | StRecovered | StInterrupted

fun next_state :: "event \<Rightarrow> status \<Rightarrow> status" where
  "next_state (BootstrapReady _) _ = StBootstrapReady"
| "next_state (BackupVerified _ _) _ = StBackupVerified"
| "next_state (PlanReady _ _) _ = StPlanReady"
| "next_state (RamBootVerified _ _ _) _ = StRamBootVerified"
| "next_state (FlashVerified _ _) _ = StFlashVerified"
| "next_state (AwaitingColdBoot _) _ = StAwaitingColdBoot"
| "next_state (Recovered _ _) _ = StRecovered"
| "next_state (Interrupted _) _ = StInterrupted"
| "next_state (EraseIntent _) _ = StInterrupted"
| "next_state (ProgramIntent _) _ = StInterrupted"
| "next_state (RamBootIntent _) _ = StInterrupted"
| "next_state (BackupCandidate _) s = s"
| "next_state (EraseCompleted _) s = s"
| "next_state (SectorVerified _) s = s"
| "next_state (OtherEvent _) s = s"

definition state_of :: "event list \<Rightarrow> status" where
  "state_of evs = fold next_state evs Discovered"

definition store_status :: "'d recovery \<Rightarrow> ('d world, status) action" where
  "store_status c = andThen (store_events c) (\<lambda>evs. ret (state_of evs))"

end
