(* ===== verification/Recovery_Workflow.thy ===== *)
theory Recovery_Workflow
  imports Recovery_Store
begin

text \<open>
  \<open>recovery/workflow.py\<close>: the recovery procedures. Each is an action on the world: it takes the
  session lock and the transport lease, reads what the journal says, touches the radio, and records
  what it did. An operator callback (\<open>prepare_boot\<close>, \<open>prepare_return\<close>) is an operation of the device;
  the \<open>operator_cold_boot\<close> note one callback of the guide leaves in the journal is not modelled.
\<close>

definition same_target :: "target \<Rightarrow> target \<Rightarrow> ('s, unit) action" where
  "same_target expected current =
     refuse (expected \<noteq> current) (rec_err ''target_mismatch'' ''physical target binding changed'')"

text \<open>Equal up to the transcript.\<close>

definition same_observation :: "observation \<Rightarrow> observation \<Rightarrow> bool" where
  "same_observation a b \<longleftrightarrow> a\<lparr>on_transcript := on_transcript b\<rparr> = b"

definition recovery_new :: "'d recovery \<Rightarrow> unit result" where
  "recovery_new c = checks
     [(se_profile_id (rc_session c) \<noteq> Some (pr_profile_id (rc_profile c)),
       rec_err ''profile_mismatch'' ''session profile differs'')]"

definition observe :: "'d recovery \<Rightarrow> bool \<Rightarrow> ('d world, observation) action" where
  "observe c mutation =
     andThen (dev (bk_observe (rc_backend c))) (\<lambda>ob.
     andThen (refuse (tg_adapter (on_target ob) \<noteq> se_adapter (rc_session c))
       (rec_err ''target_mismatch'' ''adapter differs from session'')) (\<lambda>_.
     andThen (store_get c (on_transcript ob)) (\<lambda>_.
     andThen (lift (qualify (digest (rc_codec c)) (rc_profile c) ob mutation)) (\<lambda>_. ret ob))))"

definition read_flash :: "'d recovery \<Rightarrow> nat \<Rightarrow> nat \<Rightarrow> ('d world, bytes) action" where
  "read_flash c start n = dev (bk_read (rc_backend c) start n)"

text \<open>\<open>sorted(points, reverse=True)\<close> of the boundary windows.\<close>

definition boundary_points :: "nat \<Rightarrow> nat list" where
  "boundary_points capacity =
     rev (sort (remdups ([0, capacity - 256] @ (if capacity > 0x1000000 then [0x1000000 - 128, 0x1000000] else []))))"

definition read_full :: "'d recovery \<Rightarrow> ('d world, bytes) action" where
  "read_full c =
     (let capacity = ge_capacity (pr_geometry (rc_profile c)) in
      andThen (read_flash c 0 capacity) (\<lambda>data.
      andThen (refuse (length data \<noteq> capacity) (rec_err ''backup_invalid'' ''short physical flash read'')) (\<lambda>_.
      andThen (eachA (\<lambda>start.
          let n = min 256 (capacity - start) in
          andThen (read_flash c start n) (\<lambda>again.
            refuse (again \<noteq> slice start (start + n) data)
              (rec_err ''physical_read_inconsistent'' ''boundary/repeated read differs''))) (boundary_points capacity)) (\<lambda>_.
      ret data))))"

definition capture_body ::
    "'d recovery \<Rightarrow> ('d \<Rightarrow> 'd \<times> unit result) \<Rightarrow> ('d world, blob) action" where
  "capture_body c prepare_boot =
     andThen (store_events c) (\<lambda>evs.
     andThen (refuse (list_ex (\<lambda>e. backup_verified e \<noteq> None) evs)
       (rec_err ''backup_exists'' ''original backup is immutable; use resume'')) (\<lambda>_.
     andThen (dev prepare_boot) (\<lambda>_.
     andThen (observe c False) (\<lambda>ob.
     andThen (store_record c (BootstrapReady ob)) (\<lambda>_.
     andThen (read_full c) (\<lambda>data.
     andThen (refuse (pr_original_flash_sha256 (rc_profile c) \<noteq> None
         \<and> Some (digest (rc_codec c) data) \<noteq> pr_original_flash_sha256 (rc_profile c))
       (rec_err ''incident_image_mismatch'' ''current flash differs from bound incident'')) (\<lambda>_.
     andThen (store_put c data) (\<lambda>candidate.
     andThen (store_record c (BackupCandidate candidate)) (\<lambda>_.
     andThen (dev (bk_export_and_reload (rc_backend c) data)) (\<lambda>_.
     andThen (observe c False) (\<lambda>again.
     andThen (refuse (\<not> same_observation again ob)
       (rec_err ''observation_changed'' ''target/bootstrap changed during capture'')) (\<lambda>_.
     andThen (store_put c data) (\<lambda>backup.
     andThen (store_get c backup) (\<lambda>_.
     andThen (store_record c (BackupVerified backup ob)) (\<lambda>_. ret backup)))))))))))))))"

definition capture ::
    "'d recovery \<Rightarrow> ('d \<Rightarrow> 'd \<times> unit result) \<Rightarrow> ('d world, blob) action" where
  "capture c prepare_boot = guarded c ''lock'' (guarded c ''lease'' (capture_body c prepare_boot))"

definition save_plan :: "'d recovery \<Rightarrow> plan \<Rightarrow> ('d world, unit) action" where
  "save_plan c p =
     andThen (store_put c (ec_plan_bytes (rc_codec c) p)) (\<lambda>b.
       store_record c (PlanReady b (plan_sha256 (rc_codec c) p)))"

definition not_canonical :: exn where
  "not_canonical = rec_err ''evidence_invalid'' ''contract is not canonical JSON''"

definition make_plan_body ::
    "'d recovery \<Rightarrow> bytes \<Rightarrow> bytes \<Rightarrow> provenance \<Rightarrow> bytes \<Rightarrow> ('d world, plan) action" where
  "make_plan_body c boot fit pv history =
     andThen (lift (ec_parse_history (rc_codec c) history)) (\<lambda>h.
     andThen (refuse (ec_history_bytes (rc_codec c) h \<noteq> history) not_canonical) (\<lambda>_.
     andThen (refuse (history_mismatch (rc_codec c) history h pv)
       (provenance_err ''historical target boot receipt differs'')) (\<lambda>_.
     andThen (store_put c history) (\<lambda>_.
     andThen (store_events c) (\<lambda>evs.
     andThen (refuse (list_ex intent evs) (rec_err ''resume_required'' ''an attempt exists; inspect current hardware'')) (\<lambda>_.
     andThen (latest c backup_verified) (\<lambda>(backup, ob).
     andThen (store_get c backup) (\<lambda>original.
     andThen (build_plan (rc_codec c) (se_session_id (rc_session c)) (rc_profile c) ob original boot fit pv history
         (store_put c)) (\<lambda>p.
     andThen (save_plan c p) (\<lambda>_. ret p))))))))))"

definition make_plan ::
    "'d recovery \<Rightarrow> bytes \<Rightarrow> bytes \<Rightarrow> provenance \<Rightarrow> bytes \<Rightarrow> ('d world, plan) action" where
  "make_plan c boot fit pv history = guarded c ''lock'' (make_plan_body c boot fit pv history)"

definition current_plan :: "'d recovery \<Rightarrow> ('d world, plan) action" where
  "current_plan c =
     andThen (latest c plan_ready) (\<lambda>(b, _).
     andThen (store_get c b) (\<lambda>data.
     andThen (lift (ec_parse_plan (rc_codec c) data)) (\<lambda>p.
     andThen (refuse (ec_plan_bytes (rc_codec c) p \<noteq> data) not_canonical) (\<lambda>_.
     andThen (refuse (pn_session_id p \<noteq> se_session_id (rc_session c))
       (plan_invalid ''plan belongs to another session'')) (\<lambda>_.
     andThen (validate_plan (rc_codec c) p (rc_profile c) (store_get c)) (\<lambda>_. ret p))))))"

definition fresh :: "'d recovery \<Rightarrow> plan \<Rightarrow> ('d world, observation) action" where
  "fresh c p =
     andThen (observe c True) (\<lambda>ob.
     andThen (same_target (on_target (pn_observation p)) (on_target ob)) (\<lambda>_.
     andThen (read_full c) (\<lambda>data.
     andThen (store_get c (pn_current p)) (\<lambda>current.
     andThen (refuse (data \<noteq> current) (rec_err ''plan_stale'' ''current physical bytes differ; use resume'')) (\<lambda>_.
     ret ob)))))"

definition runtime_check :: "'d recovery \<Rightarrow> return_evidence \<Rightarrow> plan \<Rightarrow> boot_source \<Rightarrow> ('d world, unit) action" where
  "runtime_check c ev p source =
     (let expected = pr_rollback (rc_profile c) in
      andThen (same_target (on_target (pn_observation p)) (re_target ev)) (\<lambda>_.
      andThen (store_get c (re_transcript ev)) (\<lambda>_.
      refuse (re_fit_sha256 ev \<noteq> fc_sha256 expected \<or> re_firmware ev \<noteq> fc_expected_firmware expected
          \<or> re_layout ev \<noteq> fc_expected_layout expected \<or> re_boot_source ev \<noteq> source
          \<or> \<not> (re_network_ok ev \<and> re_iio_ok ev \<and> re_rf_inactive ev \<and> re_settings_ok ev))
        (rec_err ''return_unverified'' ''image, source, services, settings or RF differs''))))"

text \<open>\<open>_interrupted\<close> records the code of a \<open>RecoveryError\<close> and nothing else of an exception.\<close>

definition interruption_code :: "exn \<Rightarrow> string" where
  "interruption_code e = (case e of RecoveryError code _ \<Rightarrow> code | _ \<Rightarrow> ''transport_or_storage_failure'')"

definition interrupted :: "'d recovery \<Rightarrow> exn \<Rightarrow> ('d world, unit) action" where
  "interrupted c e = store_record c (Interrupted (interruption_code e))"

definition require_status :: "'d recovery \<Rightarrow> status \<Rightarrow> exn \<Rightarrow> ('d world, unit) action" where
  "require_status c s e = andThen (store_status c) (\<lambda>st. refuse (st \<noteq> s) e)"

definition ram_session :: "'d recovery \<Rightarrow> plan \<Rightarrow> ('d \<Rightarrow> 'd \<times> unit result) \<Rightarrow> ('d world, unit) action" where
  "ram_session c p prepare_return =
     guarded c ''radio'' (
       andThen (store_record c (RamBootIntent (plan_sha256 (rc_codec c) p))) (\<lambda>_.
       onError (
         andThen (store_get c (pt_payload (the (find (\<lambda>x. pt_kind x = Fit) (pn_patches p))))) (\<lambda>fit.
         andThen (dev (bk_ram_boot (rc_backend c) fit)) (\<lambda>ev.
         andThen (runtime_check c ev p source_ram) (\<lambda>_.
         andThen (dev prepare_return) (\<lambda>_.
         andThen (dev (bk_return_to_sd (rc_backend c))) (\<lambda>_.
         andThen (fresh c p) (\<lambda>after.
           store_record c (RamBootVerified (plan_sha256 (rc_codec c) p) after ev))))))))
         (interrupted c)))"

definition ram_test_body ::
    "'d recovery \<Rightarrow> ('d \<Rightarrow> 'd \<times> unit result) \<Rightarrow> ('d \<Rightarrow> 'd \<times> unit result) \<Rightarrow> ('d world, unit) action" where
  "ram_test_body c prepare_return prepare_boot =
     andThen (current_plan c) (\<lambda>p.
     andThen (require_status c StPlanReady (rec_err ''resume_required'' ''RAM test requires a fresh ready plan'')) (\<lambda>_.
     andThen (dev prepare_boot) (\<lambda>_.
     andThen (fresh c p) (\<lambda>_.
     ram_session c p prepare_return))))"

definition ram_test ::
    "'d recovery \<Rightarrow> ('d \<Rightarrow> 'd \<times> unit result) \<Rightarrow> ('d \<Rightarrow> 'd \<times> unit result) \<Rightarrow> ('d world, unit) action" where
  "ram_test c prepare_return prepare_boot = guarded c ''lock'' (guarded c ''lease'' (ram_test_body c prepare_return prepare_boot))"

definition unchanged_writer :: "'d recovery \<Rightarrow> observation \<Rightarrow> string \<Rightarrow> ('d world, unit) action" where
  "unchanged_writer c current detail =
     andThen (observe c True) (\<lambda>ob. refuse (\<not> same_observation ob current) (rec_err ''plan_stale'' detail))"

definition verify_span :: "'d recovery \<Rightarrow> nat \<Rightarrow> nat \<Rightarrow> bytes \<Rightarrow> string \<Rightarrow> ('d world, unit) action" where
  "verify_span c start n data detail =
     andThen (read_flash c start n) (\<lambda>found. refuse (found \<noteq> data) (rec_err ''integrity_failed'' detail))"

text \<open>One iteration of the loop of \<open>execute\<close>; the accumulator is the local \<open>expected\<close>.\<close>

definition write_sector :: "'d recovery \<Rightarrow> plan \<Rightarrow> observation \<Rightarrow> sector \<Rightarrow> bytes \<Rightarrow> ('d world, bytes) action" where
  "write_sector c p current s expected =
     (let start = sc_start s; n = sc_size s;
          d = \<lparr>dp_plan_sha256 = plan_sha256 (rc_codec c) p, dp_start = start, dp_size = n,
               dp_payload_sha256 = bl_sha256 (sc_after s)\<rparr> in
      andThen (store_get c (sc_after s)) (\<lambda>payload.
      andThen (dev (bk_stage (rc_backend c) payload)) (\<lambda>_.
      andThen (unchanged_writer c current ''writer or target changed after staging'') (\<lambda>_.
      andThen (verify_span c start n (slice start (start + n) expected) ''unexpected intermediate flash change'') (\<lambda>_.
      andThen (store_record c (EraseIntent d)) (\<lambda>_.
      andThen (dev (bk_erase (rc_backend c) start n)) (\<lambda>_.
      andThen (store_record c (EraseCompleted d)) (\<lambda>_.
      andThen (unchanged_writer c current ''target/writer changed after erase'') (\<lambda>_.
      andThen (verify_span c start n (replicate n 255) ''erased sector did not verify'') (\<lambda>_.
      andThen (store_record c (ProgramIntent d)) (\<lambda>_.
      andThen (dev (bk_program (rc_backend c) start n)) (\<lambda>_.
      andThen (verify_span c start n payload ''sector readback differs'') (\<lambda>_.
      andThen (store_record c (SectorVerified d)) (\<lambda>_.
        ret (overlay expected start payload)))))))))))))))"

definition write_plan :: "'d recovery \<Rightarrow> plan \<Rightarrow> observation \<Rightarrow> bytes \<Rightarrow> ('d world, unit) action" where
  "write_plan c p current before =
     guarded c ''radio'' (onError (
       andThen (foldA (write_sector c p current) (pn_sectors p) before) (\<lambda>_.
       andThen (read_full c) (\<lambda>flash.
       andThen (store_get c (pn_expected p)) (\<lambda>expected.
       andThen (refuse (flash \<noteq> expected) (rec_err ''integrity_failed'' ''complete physical flash differs'')) (\<lambda>_.
       andThen (validate_plan (rc_codec c) p (rc_profile c) (store_get c)) (\<lambda>_.
       andThen (store_record c (FlashVerified (plan_sha256 (rc_codec c) p) (pn_expected p))) (\<lambda>_.
         store_record c (AwaitingColdBoot (plan_sha256 (rc_codec c) p)))))))))
       (interrupted c))"

definition execute_body ::
    "'d recovery \<Rightarrow> string \<Rightarrow> ('d world, unit) action" where
  "execute_body c confirmation =
     andThen (current_plan c) (\<lambda>p.
     let sha = plan_sha256 (rc_codec c) p in
     andThen (refuse (confirmation \<noteq> ''RECOVER '' @ se_session_id (rc_session c) @ '' '' @ sha)
       (rec_err ''confirmation_mismatch'' ''confirm this session and exact plan digest'')) (\<lambda>_.
     andThen (require_status c StRamBootVerified (rec_err ''ram_test_required'' ''fresh RAM acceptance is required'')) (\<lambda>_.
     andThen (latest c ram_boot_verified) (\<lambda>(tested, bound).
     andThen (refuse (tested \<noteq> sha) (rec_err ''ram_test_required'' ''RAM acceptance belongs to another plan'')) (\<lambda>_.
     andThen (fresh c p) (\<lambda>current.
     andThen (refuse (\<not> same_observation current bound)
       (rec_err ''plan_stale'' ''bootstrap epoch/evidence changed after RAM test'')) (\<lambda>_.
     andThen (store_get c (pn_current p)) (\<lambda>before.
     write_plan c p current before))))))))"

definition execute ::
    "'d recovery \<Rightarrow> string \<Rightarrow> ('d world, unit) action" where
  "execute c confirmation = guarded c ''lock'' (guarded c ''lease'' (execute_body c confirmation))"

section \<open>Resuming and attesting\<close>

definition plan_intents :: "string \<Rightarrow> event list \<Rightarrow> dispatch list" where
  "plan_intents sha evs = filter (\<lambda>d. dp_plan_sha256 d = sha) (List.map_filter dispatched evs)"

text \<open>\<open>dispatched\<close> is a set of footprints; restoring equal bytes twice or in another order changes nothing.\<close>

definition dispatched_spans :: "string \<Rightarrow> event list \<Rightarrow> (nat \<times> nat) list" where
  "dispatched_spans sha evs = remdups (map (\<lambda>d. (dp_start d, dp_size d)) (plan_intents sha evs))"

definition remaining_sectors :: "evidence_codec \<Rightarrow> bytes \<Rightarrow> bytes \<Rightarrow> sector list \<Rightarrow> sector list" where
  "remaining_sectors e data expected sectors =
     map (\<lambda>s. s\<lparr>sc_before_sha256 := digest e (slice (sc_start s) (sc_start s + sc_size s) data)\<rparr>)
       (filter (\<lambda>s. slice (sc_start s) (sc_start s + sc_size s) data
                    \<noteq> slice (sc_start s) (sc_start s + sc_size s) expected) sectors)"

definition resume_body ::
    "'d recovery \<Rightarrow> ('d \<Rightarrow> 'd \<times> unit result) \<Rightarrow> ('d world, plan) action" where
  "resume_body c prepare_boot =
     andThen (current_plan c) (\<lambda>p.
     andThen (dev prepare_boot) (\<lambda>_.
     andThen (observe c True) (\<lambda>current.
     andThen (same_target (on_target (pn_observation p)) (on_target current)) (\<lambda>_.
     andThen (read_full c) (\<lambda>data.
     andThen (store_get c (pn_current p)) (\<lambda>before.
     andThen (store_get c (pn_expected p)) (\<lambda>expected.
     andThen (store_events c) (\<lambda>evs.
     let spans = dispatched_spans (plan_sha256 (rc_codec c) p) evs in
     andThen (refuse (\<not> list_all (\<lambda>x. x \<in> footprint ` set (pn_sectors p)) spans)
       (rec_err ''journal_invalid'' ''dispatched footprint is not in the plan'')) (\<lambda>_.
     andThen (refuse (restore_spans spans before data \<noteq> before)
       (rec_err ''unexplained_flash_change'' ''bytes changed outside dispatched sectors'')) (\<lambda>_.
     andThen (store_put c data) (\<lambda>b.
     let successor = p\<lparr>pn_observation := current, pn_current := b,
           pn_sectors := remaining_sectors (rc_codec c) data expected (pn_sectors p),
           pn_parent_plan := Some (plan_sha256 (rc_codec c) p)\<rparr> in
     andThen (validate_plan (rc_codec c) successor (rc_profile c) (store_get c)) (\<lambda>_.
     andThen (save_plan c successor) (\<lambda>_. ret successor)))))))))))))"

definition resume ::
    "'d recovery \<Rightarrow> ('d \<Rightarrow> 'd \<times> unit result) \<Rightarrow> ('d world, plan) action" where
  "resume c prepare_boot = guarded c ''lock'' (guarded c ''lease'' (resume_body c prepare_boot))"

definition attest_body ::
    "'d recovery \<Rightarrow> ('d \<Rightarrow> 'd \<times> unit result) \<Rightarrow> ('d world, return_evidence) action" where
  "attest_body c prepare_boot =
     andThen (current_plan c) (\<lambda>p.
     let sha = plan_sha256 (rc_codec c) p in
     andThen (require_status c StAwaitingColdBoot
       (rec_err ''flash_verification_required'' ''complete flash verification required'')) (\<lambda>_.
     andThen (latest c flash_verified) (\<lambda>verified.
     andThen (refuse (verified \<noteq> sha) (rec_err ''plan_stale'' ''flash verification belongs to another plan'')) (\<lambda>_.
     guarded c ''radio'' (
       andThen (dev prepare_boot) (\<lambda>_.
       andThen (dev (bk_attest_cold_boot (rc_backend c))) (\<lambda>ev.
       andThen (runtime_check c ev p source_qspi) (\<lambda>_.
       andThen (refuse (re_reset_cause ev \<noteq> power_on \<or> \<not> re_operator_power_off ev \<or> \<not> re_operator_sd_removed ev
           \<or> re_boot_epoch ev = on_boot_epoch (pn_observation p))
         (rec_err ''cold_boot_unverified'' ''actual QSPI cold-boot evidence required'')) (\<lambda>_.
       andThen (store_record c (Recovered sha ev)) (\<lambda>_. ret ev))))))))))"

definition attest ::
    "'d recovery \<Rightarrow> ('d \<Rightarrow> 'd \<times> unit result) \<Rightarrow> ('d world, return_evidence) action" where
  "attest c prepare_boot = guarded c ''lock'' (guarded c ''lease'' (attest_body c prepare_boot))"

text \<open>
  \<open>recovery/guided.py\<close>: the guide completes an execution whose process stopped between its last two
  events.
\<close>

definition complete_verified_body :: "'d recovery \<Rightarrow> ('d world, unit) action" where
  "complete_verified_body c =
     andThen (require_status c StFlashVerified
       (rec_err ''plan_stale'' ''session changed while guiding cold boot'')) (\<lambda>_.
     andThen (current_plan c) (\<lambda>p.
     let sha = plan_sha256 (rc_codec c) p in
     andThen (latest c flash_verified) (\<lambda>verified.
     andThen (refuse (verified \<noteq> sha) (rec_err ''plan_stale'' ''flash verification belongs to another plan'')) (\<lambda>_.
       store_record c (AwaitingColdBoot sha)))))"

definition complete_verified :: "'d recovery \<Rightarrow> ('d world, unit) action" where
  "complete_verified c = guarded c ''lock'' (complete_verified_body c)"

end
