(* ===== verification/Recovery_Workflow_Facts.thy ===== *)
theory Recovery_Workflow_Facts
  imports Recovery_Plan_Facts Recovery_Workflow
begin

text \<open>
  Lemmas about the recovery procedures: what a validated plan guarantees about the flash, what the
  successful calls of a procedure imply, and the assumptions about a transport under which the flash
  is tracked.
\<close>

section \<open>Transports\<close>

text \<open>
  \<open>flash\<close> is what the flash chip of a device holds. A quiet transport changes it with no call but
  \<open>erase\<close> and \<open>program\<close> (and what the operator does); a truthful one reads it correctly; a confined
  one writes, even when it raises, only inside the sector it was given.
\<close>

definition quiet :: "'d backend \<Rightarrow> ('d \<Rightarrow> bytes) \<Rightarrow> bool" where
  "quiet bk flash \<longleftrightarrow>
     (\<forall>d. flash (fst (bk_disk bk d)) = flash d) \<and> (\<forall>n d. flash (fst (bk_enter bk n d)) = flash d)
     \<and> (\<forall>n d. flash (fst (bk_leave bk n d)) = flash d) \<and> (\<forall>d. flash (fst (bk_observe bk d)) = flash d)
     \<and> (\<forall>a n d. flash (fst (bk_read bk a n d)) = flash d) \<and> (\<forall>p d. flash (fst (bk_stage bk p d)) = flash d)"

definition truthful :: "'d backend \<Rightarrow> ('d \<Rightarrow> bytes) \<Rightarrow> bool" where
  "truthful bk flash \<longleftrightarrow> (\<forall>a n d bs. snd (bk_read bk a n d) = Inr bs \<longrightarrow> bs = slice a (a + n) (flash d))"

definition changed_only :: "nat \<Rightarrow> nat \<Rightarrow> bytes \<Rightarrow> bytes \<Rightarrow> bool" where
  "changed_only a n x y \<longleftrightarrow> length y = length x \<and> (\<forall>i < length x. y ! i \<noteq> x ! i \<longrightarrow> a \<le> i \<and> i < a + n)"

definition confined :: "'d backend \<Rightarrow> ('d \<Rightarrow> bytes) \<Rightarrow> bool" where
  "confined bk flash \<longleftrightarrow>
     (\<forall>a n d. changed_only a n (flash d) (flash (fst (bk_erase bk a n d))))
     \<and> (\<forall>a n d. changed_only a n (flash d) (flash (fst (bk_program bk a n d))))"

text \<open>SHA-256 is taken to have no collisions.\<close>

definition collision_free :: "evidence_codec \<Rightarrow> bool" where
  "collision_free e \<longleftrightarrow> inj (digest e)"

section \<open>Successful calls\<close>

lemma dev_Inr: "dev f w = (w1, Inr x) \<longleftrightarrow> (\<exists>d. f (wd_device w) = (d, Inr x) \<and> w1 = w\<lparr>wd_device := d\<rparr>)"
  by (auto simp: dev_def split: prod.splits)

lemma finallyA_Inr: "finallyA m f s = (s1, Inr x) \<longleftrightarrow> (\<exists>s2 y. m s = (s2, Inr x) \<and> f s2 = (s1, Inr y))"
  by (auto simp: finallyA_def split: prod.splits sum.splits)

lemma guarded_Inr:
  "guarded c name m w = (w1, Inr x) \<longleftrightarrow>
     (\<exists>w2 u w3 v. dev (bk_enter (rc_backend c) name) w = (w2, Inr u) \<and> m w2 = (w3, Inr x) \<and>
        dev (bk_leave (rc_backend c) name) w3 = (w1, Inr v))"
  by (auto simp: guarded_def andThen_Inr finallyA_Inr)

lemma store_get_facts:
  assumes "store_get c b w = (w1, Inr data)"
  shows "digest (rc_codec c) data = bl_sha256 b" "length data = bl_size b"
    "map_of (wd_blobs w) (bl_sha256 b) = Some data" "wd_blobs w1 = wd_blobs w" "wd_events w1 = wd_events w"
    "wd_device w1 = fst (bk_disk (rc_backend c) (wd_device w))"
  using assms
  by (auto simp: store_get_def disk_def andThen_Inr dev_Inr split: option.splits if_splits)

lemma store_get_flash: "quiet (rc_backend c) flash \<Longrightarrow> store_get c b w = (w1, Inr data) \<Longrightarrow>
    flash (wd_device w1) = flash (wd_device w)"
  by (simp add: store_get_facts(6) quiet_def)

lemma store_record_facts:
  assumes "store_record c ev w = (w1, Inr u)"
  shows "wd_events w1 = wd_events w @ [ev]" "wd_blobs w1 = wd_blobs w"
    "quiet (rc_backend c) flash \<Longrightarrow> flash (wd_device w1) = flash (wd_device w)"
proof -
  obtain d1 d2 d3 where "bk_disk (rc_backend c) (wd_device w) = (d1, Inr ())" "bk_disk (rc_backend c) d1 = (d2, Inr ())"
    "bk_disk (rc_backend c) d2 = (d3, Inr ())" and w1: "w1 = w\<lparr>wd_events := wd_events w @ [ev], wd_device := d3\<rparr>"
    using assms by (auto simp: store_record_def store_events_def disk_def append_event_def andThen_Inr dev_Inr)
  then show "wd_events w1 = wd_events w @ [ev]" "wd_blobs w1 = wd_blobs w"
    "quiet (rc_backend c) flash \<Longrightarrow> flash (wd_device w1) = flash (wd_device w)"
    by (simp_all add: quiet_def) (metis fst_conv)
qed

section \<open>Calm actions\<close>

text \<open>Actions that, however they end, leave the store, the journal and, on a quiet transport, the flash.\<close>

definition calm :: "'d recovery \<Rightarrow> ('d world, 'a) action \<Rightarrow> bool" where
  "calm c m \<longleftrightarrow> (\<forall>w. wd_blobs (fst (m w)) = wd_blobs w \<and> wd_events (fst (m w)) = wd_events w
     \<and> (\<forall>flash. quiet (rc_backend c) flash \<longrightarrow> flash (wd_device (fst (m w))) = flash (wd_device w)))"

lemma calmD:
  assumes "calm c m" and "m w = (w1, r)"
  shows "wd_blobs w1 = wd_blobs w" "wd_events w1 = wd_events w"
    "quiet (rc_backend c) flash \<Longrightarrow> flash (wd_device w1) = flash (wd_device w)"
  using assms unfolding calm_def by (metis fst_conv)+

named_theorems calm_intro

lemma calm_basic [calm_intro]: "calm c (ret x)" "calm c (fail e)" "calm c (lift r)" "calm c (getS f)" "calm c (refuse b e)"
  by (simp_all add: calm_def)

lemma calm_andThen [calm_intro]: "calm c m \<Longrightarrow> (\<And>x. calm c (f x)) \<Longrightarrow> calm c (andThen m f)"
  unfolding calm_def andThen_def bindS_def
  by (auto split: prod.splits sum.splits) (metis fst_conv)+

lemma calm_eachA [calm_intro]: "(\<And>x. calm c (f x)) \<Longrightarrow> calm c (eachA f xs)"
  by (induction xs) (auto intro: calm_intro)

lemma calm_foldA [calm_intro]: "(\<And>x a. calm c (f x a)) \<Longrightarrow> calm c (foldA f xs a)"
  by (induction xs arbitrary: a) (auto intro: calm_intro)

lemma calm_if [calm_intro]: "(b \<Longrightarrow> calm c m) \<Longrightarrow> (\<not> b \<Longrightarrow> calm c n) \<Longrightarrow> calm c (if b then m else n)"
  by simp

lemma calm_Let [calm_intro]: "(\<And>x. calm c (f x)) \<Longrightarrow> calm c (let y = v in f y)"
  by simp

lemma calm_split [calm_intro]: "(\<And>x y. calm c (f x y)) \<Longrightarrow> calm c (case z of (x, y) \<Rightarrow> f x y)"
  by (cases z) simp

lemma calm_dev:
  "(\<And>d flash. quiet (rc_backend c) flash \<Longrightarrow> flash (fst (f d)) = flash d) \<Longrightarrow> calm c (dev f)"
  by (auto simp: calm_def dev_def split: prod.splits) (metis fst_conv)

lemma calm_calls [calm_intro]: "calm c (disk c)" "calm c (read_flash c a n)" "calm c (dev (bk_observe (rc_backend c)))"
    "calm c (dev (bk_enter (rc_backend c) name))" "calm c (dev (bk_leave (rc_backend c) name))"
    "calm c (dev (bk_stage (rc_backend c) data))"
  unfolding disk_def read_flash_def by (auto intro!: calm_dev simp: quiet_def)

lemma calm_store [calm_intro]: "calm c (store_get c b)" "calm c (store_events c)" "calm c (latest c sel)"
    "calm c (store_status c)" "calm c (require_status c st e)"
  unfolding store_get_def store_events_def latest_def store_status_def require_status_def
  by (intro calm_intro)+

lemma calm_observe [calm_intro]: "calm c (observe c mutation)" "calm c (read_full c)" "calm c (same_target t1 t2)"
  unfolding observe_def read_full_def same_target_def by (intro calm_intro)+

lemma calm_remember [calm_intro]: "calm c (remember e data)"
  unfolding remember_def by (intro calm_intro)

lemma calm_plan_sector [calm_intro]:
  "calm c (plan_sector e prof g (remember e) kind r a b original expected start sectors)"
  unfolding plan_sector_def by (intro calm_intro)

lemma calm_plan_repair [calm_intro]: "calm c (plan_repair e prof g (remember e) original x a)"
  by (cases x; cases a) (auto simp: plan_repair_def intro!: calm_intro)

lemma calm_build [calm_intro]: "calm c (build_plan e sid prof ob original boot fit pv history (remember e))"
  unfolding build_plan_def by (intro calm_intro)

lemma calm_validate [calm_intro]: "calm c (validate_plan e p prof (store_get c))"
  unfolding validate_plan_def by (intro calm_intro)

lemma calm_current [calm_intro]: "calm c (current_plan c)" "calm c (fresh c p)" "calm c (runtime_check c ev p source)"
    "calm c (unchanged_writer c ob detail)" "calm c (verify_span c a n data detail)"
  unfolding current_plan_def fresh_def runtime_check_def unchanged_writer_def verify_span_def
  by (intro calm_intro)+

section \<open>Restoring footprints\<close>

definition in_spans :: "(nat \<times> nat) list \<Rightarrow> nat \<Rightarrow> bool" where
  "in_spans spans i \<longleftrightarrow> (\<exists>(a, n) \<in> set spans. a \<le> i \<and> i < a + n)"

lemma restore_spans_facts:
  assumes "length src = length img" and "\<forall>(a, n) \<in> set spans. a + n \<le> length img"
  shows "length (restore_spans spans src img) = length img \<and>
    (\<forall>i < length img. restore_spans spans src img ! i = (if in_spans spans i then src ! i else img ! i))"
  using assms
proof (induction spans arbitrary: img)
  case Nil
  then show ?case by (simp add: restore_spans_def in_spans_def)
next
  case (Cons s spans)
  obtain a n where s: "s = (a, n)" by (cases s)
  let ?img = "overlay img a (slice a (a + n) src)"
  have fits: "a + n \<le> length img" using Cons.prems by (simp add: s)
  then have ls: "length (slice a (a + n) src) = n" using Cons.prems(1) by simp
  have len: "length ?img = length img" using fits ls by simp
  have nth: "?img ! i = (if a \<le> i \<and> i < a + n then src ! i else img ! i)" if "i < length img" for i
    using that fits ls Cons.prems(1) by (auto simp: nth_overlay nth_slice)
  have step: "restore_spans (s # spans) src img = restore_spans spans src ?img" by (simp add: restore_spans_def s)
  have "length (restore_spans spans src ?img) = length ?img \<and>
    (\<forall>i < length ?img. restore_spans spans src ?img ! i = (if in_spans spans i then src ! i else ?img ! i))"
    using Cons.IH [of ?img] Cons.prems len by simp
  then show ?case unfolding step using len nth by (auto simp: in_spans_def s)
qed

lemma restore_spans_eq:
  assumes "length src = length img" and "\<forall>(a, n) \<in> set spans. a + n \<le> length img"
  shows "restore_spans spans src img = src \<longleftrightarrow> (\<forall>i < length img. \<not> in_spans spans i \<longrightarrow> img ! i = src ! i)"
  using restore_spans_facts [OF assms] assms(1)
  by (auto simp: list_eq_iff_nth_eq)

section \<open>Validated plans\<close>

lemma honest_remember: "honest_put e (remember e)"
  by (auto simp: honest_put_def remember_def blob_new_def split: if_splits)

lemma honest_store_put: "honest_put (rc_codec c) (store_put c)"
  by (auto simp: honest_put_def store_put_def blob_new_def andThen_Inr split: if_splits)

abbreviation repair_names :: "string set" where
  "repair_names \<equiv> {''boot'', ''environment'', ''fit''}"

text \<open>
  What a validated plan says about the flash: \<open>img\<close> is the image it leads to, \<open>current\<close> the image it
  starts from, and every byte where they differ lies in one of the sectors it will write.
\<close>

definition plan_images :: "evidence_codec \<Rightarrow> profile \<Rightarrow> plan \<Rightarrow> bytes \<Rightarrow> bytes \<Rightarrow> bool" where
  "plan_images e prof p current img \<longleftrightarrow>
     bl_sha256 (pn_current p) = digest e current \<and> bl_sha256 (pn_expected p) = digest e img
     \<and> length current = length img \<and> length img = ge_capacity (pr_geometry prof)
     \<and> (\<exists>original boot fit. bl_sha256 (pn_original p) = digest e original \<and> repaired prof original boot fit img
          \<and> digest e fit = fc_sha256 (pr_rollback prof)
          \<and> digest e boot = pv_historical_boot_sha256 (pn_provenance p))
     \<and> (\<forall>x \<in> set (pn_sectors p). \<exists>r \<in> set (ge_regions (pr_geometry prof)).
          rg_name r \<in> repair_names \<and> sector_of e prof r img x)
     \<and> (\<forall>i < length img. current ! i \<noteq> img ! i \<longrightarrow> (\<exists>x \<in> set (pn_sectors p). covers x i))"

lemma sector_of_bounds:
  assumes "geometry_validate g = Inr ()" and "r \<in> set (ge_regions g)" and "sector_of e prof r img x"
  shows "sc_start x + sc_size x \<le> ge_capacity g"
  using geometry_facts(1) [OF assms(1,2)] assms(3) by (auto simp: sector_of_def)

lemma pending_covers:
  assumes inj: "collision_free e" and g: "geometry_validate (pr_geometry prof) = Inr ()"
    and rep: "repairing e prof (pr_geometry prof) original names img rs"
    and cap: "length original = ge_capacity (pr_geometry prof)" and len: "length current = length img"
    and restored: "restore_spans (map footprint rs) original current = original"
    and i: "i < length img" and d: "current ! i \<noteq> img ! i"
  shows "\<exists>x \<in> set (pending_sectors e current rs). covers x i"
proof -
  have li: "length img = length original" using rep by (simp add: repairing_def)
  have inside: "\<forall>(a, n) \<in> set (map footprint rs). a + n \<le> length current"
    using rep sector_of_bounds [OF g] cap len li by (fastforce simp: repairing_def footprint_def)
  have same: "\<not> in_spans (map footprint rs) i \<longrightarrow> current ! i = original ! i"
    using restore_spans_eq [OF _ inside, of original] restored len li i by simp
  have "\<exists>x \<in> set rs. covers x i"
  proof (rule ccontr)
    assume none: "\<not> ?thesis"
    then have "\<not> in_spans (map footprint rs) i" by (auto simp: in_spans_def footprint_def covers_def)
    then have "current ! i = original ! i" using same by simp
    moreover have "img ! i = original ! i" using rep i li none by (auto simp: repairing_def)
    ultimately show False using d by simp
  qed
  then obtain x where x: "x \<in> set rs" "covers x i" by blast
  then obtain r where "sector_of e prof r img x" using rep by (auto simp: repairing_def)
  moreover have "slice (sc_start x) (sc_start x + sc_size x) current \<noteq> slice (sc_start x) (sc_start x + sc_size x) img"
    using slice_nth_eq [OF _ len] x(2) i len d by (auto simp: covers_def)
  ultimately have "digest e (slice (sc_start x) (sc_start x + sc_size x) current) \<noteq> bl_sha256 (sc_after x)"
    using inj by (auto simp: sector_of_def collision_free_def inj_eq)
  then show ?thesis using x by (force simp: pending_sectors_def covers_def)
qed

lemma validate_plan_facts:
  assumes run: "validate_plan (rc_codec c) p prof (store_get c) w = (w1, Inr ())"
    and g: "geometry_validate (pr_geometry prof) = Inr ()" and inj: "collision_free (rc_codec c)"
  shows "\<exists>current img. plan_images (rc_codec c) prof p current img
    \<and> map_of (wd_blobs w) (bl_sha256 (pn_current p)) = Some current
    \<and> map_of (wd_blobs w) (bl_sha256 (pn_expected p)) = Some img"
proof -
  let ?e = "rc_codec c"
  obtain original boot fit history rebuilt current img original1 v1 v2 v3 v4 v5 v6 v7 v8 where
    g1: "store_get c (pn_original p) w = (v1, Inr original)"
    and g5: "store_get c (pn_boot_source p) v1 = (v2, Inr boot)"
    and g6: "store_get c (pt_payload (the (patch_of p Fit))) v2 = (v3, Inr fit)"
    and g7: "store_get c (pn_history p) v3 = (v4, Inr history)"
    and b: "build_plan ?e (pn_session_id p) prof (pn_observation p) original boot fit (pn_provenance p) history
         (remember ?e) v4 = (v5, Inr rebuilt)"
    and exp: "pn_expected p = pn_expected rebuilt"
    and g2: "store_get c (pn_current p) v5 = (v6, Inr current)" and g3: "store_get c (pn_expected rebuilt) v6 = (v7, Inr img)"
    and len: "length current = length img" and pend: "pending_sectors ?e current (pn_sectors rebuilt) = pn_sectors p"
    and g4: "store_get c (pn_original p) v7 = (v8, Inr original1)"
    and rest: "restore_spans (map footprint (pn_sectors rebuilt)) original1 current = original1"
    using run by (clarsimp simp: validate_plan_def andThen_Inr simp del: eachA.simps)
  have before: "wd_blobs v5 = wd_blobs w" "wd_blobs v6 = wd_blobs w" "wd_blobs v7 = wd_blobs w"
    using calmD(1) [OF calm_build b] store_get_facts(4) [OF g1] store_get_facts(4) [OF g5] store_get_facts(4) [OF g6]
      store_get_facts(4) [OF g7] store_get_facts(4) [OF g2] store_get_facts(4) [OF g3] by simp_all
  obtain img1 where E: "bl_sha256 (pn_expected rebuilt) = digest ?e img1" and rp: "repaired prof original boot fit img1"
    and ri: "repairing ?e prof (pr_geometry prof) original repair_names img1 (pn_sectors rebuilt)"
    and cap: "length original = ge_capacity (pr_geometry prof)"
    and pins: "digest ?e fit = fc_sha256 (pr_rollback prof)" "digest ?e boot = pv_historical_boot_sha256 (pn_provenance p)"
    using build_plan_facts [OF b honest_remember g] by auto
  have img1: "img1 = img" using E exp store_get_facts(1) [OF g3] inj by (auto simp: collision_free_def inj_eq)
  have orig: "original1 = original"
    using store_get_facts(3) [OF g1] store_get_facts(3) [OF g4] before by simp
  have li: "length img = length original" using rp by (simp add: img1 repaired_def)
  have "\<exists>x \<in> set (pn_sectors p). covers x i" if "i < length img" "current ! i \<noteq> img ! i" for i
    using pending_covers [OF inj g ri [unfolded img1] cap len rest [unfolded orig] that] by (simp add: pend)
  moreover have "\<exists>r \<in> set (ge_regions (pr_geometry prof)). rg_name r \<in> repair_names \<and> sector_of ?e prof r img x"
    if "x \<in> set (pn_sectors p)" for x
    using that ri by (auto simp: pend [symmetric] pending_sectors_def repairing_def sector_of_def img1)
  moreover have "\<exists>original boot fit. bl_sha256 (pn_original p) = digest ?e original \<and> repaired prof original boot fit img
      \<and> digest ?e fit = fc_sha256 (pr_rollback prof)
      \<and> digest ?e boot = pv_historical_boot_sha256 (pn_provenance p)"
    by (intro exI [of _ original] exI [of _ boot] exI [of _ fit] conjI)
      (use store_get_facts(1) [OF g1] rp pins in \<open>simp_all add: img1\<close>)
  ultimately have "plan_images ?e prof p current img"
    using store_get_facts(1) [OF g2] store_get_facts(1) [OF g3] len li cap exp by (simp add: plan_images_def)
  then show ?thesis using store_get_facts(3) [OF g2] store_get_facts(3) [OF g3] before exp by auto
qed

section \<open>Reading the journal and the flash\<close>

definition capacity :: "'d recovery \<Rightarrow> nat" where
  "capacity c = ge_capacity (pr_geometry (rc_profile c))"

text \<open>The plan the journal of a world names, as \<open>current_plan\<close> finds it.\<close>

definition names_plan :: "'d recovery \<Rightarrow> 'd world \<Rightarrow> plan \<Rightarrow> bool" where
  "names_plan c w p \<longleftrightarrow>
     (\<exists>b sha. first_some plan_ready (rev (wd_events w)) = Some (b, sha)
        \<and> map_of (wd_blobs w) (bl_sha256 b) = Some (ec_plan_bytes (rc_codec c) p)
        \<and> bl_sha256 b = plan_sha256 (rc_codec c) p
        \<and> ec_parse_plan (rc_codec c) (ec_plan_bytes (rc_codec c) p) = Inr p)"

text \<open>A plan whose reconstruction from the evidence succeeded.\<close>

definition justified :: "'d recovery \<Rightarrow> plan \<Rightarrow> bool" where
  "justified c p \<longleftrightarrow> (\<exists>current img. plan_images (rc_codec c) (rc_profile c) p current img)
     \<and> ec_parse_plan (rc_codec c) (ec_plan_bytes (rc_codec c) p) = Inr p"

lemma names_plan_unique: "names_plan c w p \<Longrightarrow> names_plan c w q \<Longrightarrow> p = q"
  unfolding names_plan_def by (metis option.inject prod.inject sum.inject(2))

lemma names_plan_eq:
  "wd_events w1 = wd_events w \<Longrightarrow> wd_blobs w1 = wd_blobs w \<Longrightarrow> names_plan c w1 p = names_plan c w p"
  by (simp add: names_plan_def)

lemma latest_facts:
  assumes "latest c sel w = (w1, Inr x)"
  shows "first_some sel (rev (wd_events w)) = Some x"
  using assms by (auto simp: latest_def store_events_def disk_def andThen_Inr dev_Inr split: option.splits)

lemma current_plan_facts:
  assumes run: "current_plan c w = (w1, Inr p)" and g: "geometry_validate (pr_geometry (rc_profile c)) = Inr ()"
    and inj: "collision_free (rc_codec c)"
  shows "names_plan c w p" "justified c p"
    "\<exists>current img. plan_images (rc_codec c) (rc_profile c) p current img
      \<and> map_of (wd_blobs w) (bl_sha256 (pn_current p)) = Some current
      \<and> map_of (wd_blobs w) (bl_sha256 (pn_expected p)) = Some img"
proof -
  obtain b sha w2 w3 data where l: "latest c plan_ready w = (w2, Inr (b, sha))"
    and get: "store_get c b w2 = (w3, Inr data)" and parse: "ec_parse_plan (rc_codec c) data = Inr p"
    and canon: "ec_plan_bytes (rc_codec c) p = data"
    and v: "validate_plan (rc_codec c) p (rc_profile c) (store_get c) w3 = (w1, Inr ())"
    using run by (auto simp: current_plan_def andThen_Inr)
  have same: "wd_blobs w2 = wd_blobs w" "wd_blobs w3 = wd_blobs w"
    using calmD(1) [OF calm_store(3) l] store_get_facts(4) [OF get] by simp_all
  show "names_plan c w p"
    using latest_facts [OF l] store_get_facts(1,3) [OF get] same parse canon
    by (auto simp: names_plan_def plan_sha256_def)
  show "\<exists>current img. plan_images (rc_codec c) (rc_profile c) p current img
      \<and> map_of (wd_blobs w) (bl_sha256 (pn_current p)) = Some current
      \<and> map_of (wd_blobs w) (bl_sha256 (pn_expected p)) = Some img"
    using validate_plan_facts [OF v g inj] same by simp
  then show "justified c p" using parse canon by (auto simp: justified_def)
qed

lemma read_full_facts:
  assumes "read_full c w = (w1, Inr data)" and "quiet (rc_backend c) flash" and "truthful (rc_backend c) flash"
  shows "data = take (capacity c) (flash (wd_device w))" "length data = capacity c"
proof -
  obtain w2 where r: "read_flash c 0 (capacity c) w = (w2, Inr data)" and "length data = capacity c"
    using assms(1) by (auto simp: read_full_def Let_def andThen_Inr capacity_def)
  then show "length data = capacity c" by simp
  show "data = take (capacity c) (flash (wd_device w))"
    using r assms(3) [unfolded truthful_def, rule_format, of 0 "capacity c" "wd_device w" data]
    by (auto simp: read_flash_def dev_Inr slice_def)
qed

section \<open>A successful execution\<close>

lemma guarded_facts:
  assumes "guarded c name m w = (w1, Inr x)" and q: "quiet (rc_backend c) flash"
  obtains w2 w3 where "m w2 = (w3, Inr x)" "wd_events w2 = wd_events w" "wd_blobs w2 = wd_blobs w"
    "wd_events w1 = wd_events w3" "wd_blobs w1 = wd_blobs w3"
    "flash (wd_device w2) = flash (wd_device w)" "flash (wd_device w1) = flash (wd_device w3)"
proof -
  obtain w2 u w3 v where a: "dev (bk_enter (rc_backend c) name) w = (w2, Inr u)" and m: "m w2 = (w3, Inr x)"
    and b: "dev (bk_leave (rc_backend c) name) w3 = (w1, Inr v)"
    using assms by (auto simp: guarded_Inr)
  show ?thesis
    by (rule that [OF m])
      (use calmD(1,2) [OF calm_calls(4) a] calmD(3) [OF calm_calls(4) a q] calmD(1,2) [OF calm_calls(5) b]
        calmD(3) [OF calm_calls(5) b q] in simp_all)
qed

lemma execute_installs:
  assumes run: "execute c confirmation w = (w1, Inr ())"
    and g: "geometry_validate (pr_geometry (rc_profile c)) = Inr ()" and inj: "collision_free (rc_codec c)"
    and tr: "quiet (rc_backend c) flash" "truthful (rc_backend c) flash"
  shows "\<exists>p current. names_plan c w p
    \<and> confirmation = ''RECOVER '' @ se_session_id (rc_session c) @ '' '' @ plan_sha256 (rc_codec c) p
    \<and> plan_images (rc_codec c) (rc_profile c) p current (take (capacity c) (flash (wd_device w1)))
    \<and> (\<exists>evs. wd_events w1 = evs @ [FlashVerified (plan_sha256 (rc_codec c) p) (pn_expected p),
                                    AwaitingColdBoot (plan_sha256 (rc_codec c) p)])"
proof -
  let ?e = "rc_codec c"
  obtain v3 v4 where e2: "execute_body c confirmation v3 = (v4, Inr ())"
    and s2: "wd_events v3 = wd_events w" "wd_blobs v3 = wd_blobs w" "wd_events w1 = wd_events v4"
      "flash (wd_device w1) = flash (wd_device v4)"
    using run unfolding execute_def by (elim guarded_facts [OF _ tr(1)]) (rule that, assumption, simp_all)
  obtain p v5 current before v6 where cur: "current_plan c v3 = (v5, Inr p)"
    and conf: "confirmation = ''RECOVER '' @ se_session_id (rc_session c) @ '' '' @ plan_sha256 ?e p"
    and wp: "write_plan c p current before v6 = (v4, Inr ())"
    using e2 by (auto simp: execute_body_def andThen_Inr Let_def)
  obtain v7 v8 where e3: "onError (
       andThen (foldA (write_sector c p current) (pn_sectors p) before) (\<lambda>_.
       andThen (read_full c) (\<lambda>flash.
       andThen (store_get c (pn_expected p)) (\<lambda>expected.
       andThen (refuse (flash \<noteq> expected) (rec_err ''integrity_failed'' ''complete physical flash differs'')) (\<lambda>_.
       andThen (validate_plan (rc_codec c) p (rc_profile c) (store_get c)) (\<lambda>_.
       andThen (store_record c (FlashVerified (plan_sha256 (rc_codec c) p) (pn_expected p))) (\<lambda>_.
         store_record c (AwaitingColdBoot (plan_sha256 (rc_codec c) p))))))))) (interrupted c) v7 = (v8, Inr ())"
    and s3: "wd_events w1 = wd_events v8" "flash (wd_device w1) = flash (wd_device v8)"
    using wp s2 unfolding write_plan_def by (elim guarded_facts [OF _ tr(1)]) (rule that, assumption, simp_all)
  obtain t1 t2 t3 t4 t5 img where rf: "read_full c t1 = (t2, Inr img)" and ge: "store_get c (pn_expected p) t2 = (t3, Inr img)"
    and va: "validate_plan ?e p (rc_profile c) (store_get c) t3 = (t4, Inr ())"
    and r1: "store_record c (FlashVerified (plan_sha256 ?e p) (pn_expected p)) t4 = (t5, Inr ())"
    and r2: "store_record c (AwaitingColdBoot (plan_sha256 ?e p)) t5 = (v8, Inr ())"
    using e3 by (auto simp: andThen_Inr)
  have same: "flash (wd_device w1) = flash (wd_device t1)"
    using s3(2) store_record_facts(3) [OF r1 tr(1)] store_record_facts(3) [OF r2 tr(1)] store_get_flash [OF tr(1) ge]
      calmD(3) [OF calm_validate va tr(1)] calmD(3) [OF calm_observe(2) rf tr(1)] by simp
  have img: "img = take (capacity c) (flash (wd_device w1))" using read_full_facts(1) [OF rf tr] same by simp
  obtain cu im where pi: "plan_images ?e (rc_profile c) p cu im" and "map_of (wd_blobs t3) (bl_sha256 (pn_expected p)) = Some im"
    using validate_plan_facts [OF va g inj] by blast
  then have "im = img" using store_get_facts(3,4) [OF ge] by simp
  moreover have "names_plan c w p"
    using current_plan_facts(1) [OF cur g inj] names_plan_eq [OF s2(1,2)] by simp
  moreover have "wd_events w1 = wd_events t4 @ [FlashVerified (plan_sha256 ?e p) (pn_expected p), AwaitingColdBoot (plan_sha256 ?e p)]"
    using store_record_facts(1) [OF r1] store_record_facts(1) [OF r2] s3(1) by simp
  ultimately show ?thesis using pi conf img by blast
qed

end
