(* ===== verification/Recovery_Journal.thy ===== *)
theory Recovery_Journal
  imports Recovery_Workflow_Facts
begin

text \<open>
  What the recovery procedures write, to the journal and to the flash, however they end: assertions
  over the store, the journal and the flash, and one triple for each procedure.
\<close>

section \<open>Assertions over a world\<close>

type_synonym assertion = "(string \<times> bytes) list \<Rightarrow> event list \<Rightarrow> bytes \<Rightarrow> bool"

definition in_world :: "('d \<Rightarrow> bytes) \<Rightarrow> assertion \<Rightarrow> 'd world \<Rightarrow> bool" where
  "in_world flash K w \<longleftrightarrow> K (wd_blobs w) (wd_events w) (flash (wd_device w))"

lemma triple_calm:
  assumes m: "calm c m" and q: "quiet (rc_backend c) flash" and X: "\<And>B E F. K B E F \<Longrightarrow> X B E F"
  shows "triple (in_world flash K) m (\<lambda>_. in_world flash K) (in_world flash X)"
  using calmD(1,2) [OF m] calmD(3) [OF m _ q] X by (intro tripleI) (simp_all add: in_world_def)

lemma triple_dev_any:
  assumes "\<And>B E F F1. K B E F \<Longrightarrow> K B E F1" and "\<And>B E F. K B E F \<Longrightarrow> X B E F"
  shows "triple (in_world flash K) (dev f) (\<lambda>_. in_world flash K) (in_world flash X)"
  unfolding triple_def in_world_def dev_def using assms by (auto split: prod.splits sum.splits)

lemma quiet_disk:
  "quiet (rc_backend c) flash \<Longrightarrow> bk_disk (rc_backend c) d = (d1, r) \<Longrightarrow> flash d1 = flash d"
  by (metis fst_conv quiet_def)

lemma triple_record:
  assumes q: "quiet (rc_backend c) flash" and L: "\<And>B E F. K B E F \<Longrightarrow> L B (E @ [ev]) F"
    and X: "\<And>B E F. K B E F \<Longrightarrow> X B E F" "\<And>B E F. L B E F \<Longrightarrow> X B E F"
  shows "triple (in_world flash K) (store_record c ev) (\<lambda>_. in_world flash L) (in_world flash X)"
proof -
  have d: "triple (in_world flash K1) (disk c) (\<lambda>_. in_world flash K1) (in_world flash X)" if "\<And>B E F. K1 B E F \<Longrightarrow> X B E F" for K1
    by (rule triple_calm [OF calm_calls(1) q that])
  have e: "triple (in_world flash K) (store_events c) (\<lambda>_. in_world flash K) (in_world flash X)"
    by (rule triple_calm [OF calm_store(2) q X(1)])
  have a: "triple (in_world flash K) (append_event ev) (\<lambda>_. in_world flash L) (in_world flash X)"
    using L by (simp add: triple_def append_event_def in_world_def)
  show ?thesis unfolding store_record_def
    by (rule triple_andThen [OF e triple_andThen [OF d [OF X(1)] triple_andThen [OF a d [OF X(2)]]]])
qed

lemma triple_put:
  assumes q: "quiet (rc_backend c) flash" and K: "\<And>B E F x. K B E F \<Longrightarrow> K (B @ [x]) E F" and X: "\<And>B E F. K B E F \<Longrightarrow> X B E F"
  shows "triple (in_world flash K) (store_put c data) (\<lambda>_. in_world flash K) (in_world flash X)"
proof -
  note cal = triple_calm [where K = K, OF _ q X]
  have add: "triple (\<lambda>w. wd_blobs w = blobs \<and> in_world flash K w) (\<lambda>w. (w\<lparr>wd_blobs := blobs @ [x]\<rparr>, Inr ())) (\<lambda>_. in_world flash K) (in_world flash X)"
    for blobs x by (rule tripleI) (auto simp: in_world_def dest: K [where x = x])
  have get: "triple (in_world flash K) (getS wd_blobs) (\<lambda>blobs w. wd_blobs w = blobs \<and> in_world flash K w) (in_world flash X)"
    by (simp add: triple_def)
  have same: "triple (in_world flash K) m Q E1 \<Longrightarrow> triple (\<lambda>w. wd_blobs w = blobs \<and> in_world flash K w) m Q E1"
    for m :: "('a world, blob) action" and Q E1 blobs by (simp add: triple_def)
  show ?thesis unfolding store_put_def
    by (intro triple_andThen [OF cal] triple_andThen [OF get] triple_andThen [OF add] triple_if same calm_intro
        triple_ret) (auto intro!: triple_ret triple_andThen [OF cal] calm_intro)
qed

lemma triple_guarded:
  assumes q: "quiet (rc_backend c) flash" and m: "triple (in_world flash K) m (\<lambda>x. in_world flash (L x)) (in_world flash X)"
    and Y: "\<And>B E F. K B E F \<Longrightarrow> X B E F" "\<And>x B E F. L x B E F \<Longrightarrow> X B E F"
  shows "triple (in_world flash K) (guarded c name m) (\<lambda>x. in_world flash (L x)) (in_world flash X)"
proof -
  have leave: "triple (in_world flash K1) (dev (bk_leave (rc_backend c) name)) (\<lambda>_. in_world flash K1) (in_world flash X)"
    if "\<And>B E F. K1 B E F \<Longrightarrow> X B E F" for K1
    by (rule triple_calm [OF calm_calls(5) q that])
  show ?thesis unfolding guarded_def
    by (rule triple_andThen [OF triple_calm [OF calm_calls(4) q Y(1)]
          triple_finally [OF m leave [OF Y(2)] leave]]) simp_all
qed

lemma triple_pure: "(\<phi> \<Longrightarrow> triple P m Q E) \<Longrightarrow> triple (\<lambda>s. P s \<and> \<phi>) m Q E"
  by (cases \<phi>) (simp_all add: triple_def)

section \<open>What an execution writes\<close>

text \<open>A dispatch of the plan named at the start, for one of its sectors.\<close>

definition own :: "'d recovery \<Rightarrow> 'd world \<Rightarrow> dispatch \<Rightarrow> bool" where
  "own c w d \<longleftrightarrow> (\<exists>p. names_plan c w p \<and> justified c p \<and> dp_plan_sha256 d = plan_sha256 (rc_codec c) p
     \<and> (dp_start d, dp_size d) \<in> footprint ` set (pn_sectors p))"

definition journaled :: "'d recovery \<Rightarrow> 'd world \<Rightarrow> event list \<Rightarrow> nat \<Rightarrow> bool" where
  "journaled c w new i \<longleftrightarrow> (\<exists>d. EraseIntent d \<in> set new \<and> own c w d \<and> dp_start d \<le> i \<and> i < dp_start d + dp_size d)"

definition tracked :: "'d recovery \<Rightarrow> ('d \<Rightarrow> bytes) \<Rightarrow> 'd world \<Rightarrow> event set \<Rightarrow> assertion" where
  "tracked c flash w X B E F \<longleftrightarrow>
     B = wd_blobs w
     \<and> (\<exists>new. E = wd_events w @ new \<and> X \<subseteq> set new
          \<and> (\<forall>ev \<in> set new. plan_ready ev = None \<and> (\<forall>d. dispatched ev = Some d \<longrightarrow> own c w d))
          \<and> length F = length (flash (wd_device w))
          \<and> (\<forall>i < length F. F ! i \<noteq> flash (wd_device w) ! i \<longrightarrow> journaled c w new i))"

lemma tracked_record:
  assumes "tracked c flash w X B E F" and "plan_ready ev = None" and "\<And>d. dispatched ev = Some d \<Longrightarrow> own c w d"
  shows "tracked c flash w (insert ev X) B (E @ [ev]) F"
  using assms unfolding tracked_def journaled_def by fastforce

lemma tracked_drop: "tracked c flash w X B E F \<Longrightarrow> Y \<subseteq> X \<Longrightarrow> tracked c flash w Y B E F"
  unfolding tracked_def by blast

lemma tracked_write:
  assumes "tracked c flash w X B E F" and "EraseIntent d \<in> X" and "own c w d"
    and "changed_only (dp_start d) (dp_size d) F F1"
  shows "tracked c flash w X B E F1"
proof -
  obtain new where new: "E = wd_events w @ new" "X \<subseteq> set new"
    "\<forall>ev \<in> set new. plan_ready ev = None \<and> (\<forall>d. dispatched ev = Some d \<longrightarrow> own c w d)"
    "length F = length (flash (wd_device w))"
    "\<forall>i < length F. F ! i \<noteq> flash (wd_device w) ! i \<longrightarrow> journaled c w new i" "B = wd_blobs w"
    using assms(1) by (auto simp: tracked_def)
  have "journaled c w new i" if i: "i < length F1" and ne: "F1 ! i \<noteq> flash (wd_device w) ! i" for i
  proof (cases "F1 ! i = F ! i")
    case True
    then show ?thesis using new(5) i ne assms(4) by (simp add: changed_only_def)
  next
    case False
    then show ?thesis using assms(2-4) new(2) i by (auto simp: changed_only_def journaled_def)
  qed
  then show ?thesis using new assms(4) by (auto simp: tracked_def changed_only_def)
qed

lemma triple_write:
  assumes f: "\<And>d. changed_only (dp_start x) (dp_size x) (flash d) (flash (fst (f d)))"
    and x: "EraseIntent x \<in> X" "own c w x"
  shows "triple (in_world flash (tracked c flash w X)) (dev f) (\<lambda>_. in_world flash (tracked c flash w X))
    (in_world flash (tracked c flash w {}))"
proof (rule tripleI)
  fix s s1 :: "'a world" and r
  assume "in_world flash (tracked c flash w X) s" and "dev f s = (s1, Inr r)"
  then show "in_world flash (tracked c flash w X) s1"
    using tracked_write [OF _ x f [of "wd_device s"]] by (auto simp: in_world_def dev_def split: prod.splits)
next
  fix s s1 :: "'a world" and e
  assume "in_world flash (tracked c flash w X) s" and "dev f s = (s1, Inl e)"
  then have "in_world flash (tracked c flash w X) s1"
    using tracked_write [OF _ x f [of "wd_device s"]] by (auto simp: in_world_def dev_def split: prod.splits)
  then show "in_world flash (tracked c flash w {}) s1"
    using tracked_drop [of c flash w X _ _ _ "{}"] by (auto simp: in_world_def)
qed

lemma triple_tracked_calm:
  assumes "calm c m" and "quiet (rc_backend c) flash"
  shows "triple (in_world flash (tracked c flash w X)) m (\<lambda>_. in_world flash (tracked c flash w X))
    (in_world flash (tracked c flash w {}))"
  by (rule triple_calm [OF assms]) (erule tracked_drop, simp)

lemma triple_tracked_record:
  assumes "quiet (rc_backend c) flash" and "plan_ready ev = None" and "\<And>d. dispatched ev = Some d \<Longrightarrow> own c w d"
  shows "triple (in_world flash (tracked c flash w X)) (store_record c ev)
    (\<lambda>_. in_world flash (tracked c flash w (insert ev X))) (in_world flash (tracked c flash w {}))"
  by (rule triple_record [OF assms(1)]) (rule tracked_record [OF _ assms(2,3)] tracked_drop, assumption+ | simp)+

lemma triple_tracked_drop:
  "triple (in_world flash (tracked c flash w X)) m Q E \<Longrightarrow> triple (in_world flash (tracked c flash w (insert ev X))) m Q E"
  by (erule triple_weaken) (auto simp: in_world_def elim: tracked_drop)

lemma triple_write_sector:
  assumes q: "quiet (rc_backend c) flash" and k: "confined (rc_backend c) flash"
    and p: "names_plan c w p" "justified c p" and s: "s \<in> set (pn_sectors p)"
  shows "triple (in_world flash (tracked c flash w {})) (write_sector c p current s expected)
    (\<lambda>_. in_world flash (tracked c flash w {})) (in_world flash (tracked c flash w {}))"
proof -
  define d where "d = \<lparr>dp_plan_sha256 = plan_sha256 (rc_codec c) p, dp_start = sc_start s, dp_size = sc_size s,
               dp_payload_sha256 = bl_sha256 (sc_after s)\<rparr>"
  have own: "own c w d"
    unfolding own_def using p s by (intro exI [of _ p]) (auto simp: d_def footprint_def)
  note calm = triple_tracked_calm [OF _ q]
  have rec: "triple (in_world flash (tracked c flash w X)) (store_record c ev)
      (\<lambda>_. in_world flash (tracked c flash w (insert ev X))) (in_world flash (tracked c flash w {}))"
    if "ev \<in> {EraseIntent d, EraseCompleted d, ProgramIntent d, SectorVerified d}" for ev X
    by (rule triple_tracked_record [OF q]) (use that own in auto)
  have erase: "triple (in_world flash (tracked c flash w X)) (dev (bk_erase (rc_backend c) (sc_start s) (sc_size s)))
      (\<lambda>_. in_world flash (tracked c flash w X)) (in_world flash (tracked c flash w {}))"
    and program: "triple (in_world flash (tracked c flash w X)) (dev (bk_program (rc_backend c) (sc_start s) (sc_size s)))
      (\<lambda>_. in_world flash (tracked c flash w X)) (in_world flash (tracked c flash w {}))" if "EraseIntent d \<in> X" for X
    by (rule triple_write [OF _ that own]; use k in \<open>simp add: confined_def d_def\<close>)+
  show ?thesis
    unfolding write_sector_def Let_def d_def [symmetric]
    by (rule triple_andThen [OF calm], intro calm_intro, rule triple_andThen [OF calm], intro calm_intro,
        rule triple_andThen [OF calm], intro calm_intro, rule triple_andThen [OF calm], intro calm_intro,
        rule triple_andThen [OF rec], simp, rule triple_andThen [OF erase], simp,
        rule triple_andThen [OF rec], simp, rule triple_andThen [OF calm], intro calm_intro,
        rule triple_andThen [OF calm], intro calm_intro, rule triple_andThen [OF rec], simp,
        rule triple_andThen [OF program], simp, rule triple_andThen [OF calm], intro calm_intro,
        rule triple_andThen [OF rec], simp, rule triple_ret)
      (auto simp: in_world_def elim: tracked_drop)
qed

lemma triple_write_plan:
  assumes q: "quiet (rc_backend c) flash" and k: "confined (rc_backend c) flash"
    and p: "names_plan c w p" "justified c p"
  shows "triple (in_world flash (tracked c flash w {})) (write_plan c p current before)
    (\<lambda>_. in_world flash (tracked c flash w {})) (in_world flash (tracked c flash w {}))"
proof -
  note calm = triple_tracked_calm [OF _ q]
  have rec: "triple (in_world flash (tracked c flash w {})) (store_record c ev)
      (\<lambda>_. in_world flash (tracked c flash w {})) (in_world flash (tracked c flash w {}))"
    if "plan_ready ev = None" "dispatched ev = None" for ev
    by (rule triple_weaken [OF triple_tracked_record [OF q, of ev w "{}"]])
      (use that in \<open>auto simp: in_world_def elim: tracked_drop\<close>)
  have fold: "triple (in_world flash (tracked c flash w {})) (foldA (write_sector c p current) (pn_sectors p) before)
      (\<lambda>_. in_world flash (tracked c flash w {})) (in_world flash (tracked c flash w {}))"
    by (rule triple_foldA) (rule triple_write_sector [OF q k p])
  show ?thesis
    unfolding write_plan_def
    apply (rule triple_guarded [OF q])
      apply (rule triple_onError)
       apply (rule triple_andThen [OF fold])
       apply (rule triple_andThen [OF calm], intro calm_intro)+
       apply (rule triple_andThen [OF rec], simp, simp, rule rec, simp, simp)
      apply (simp add: interrupted_def rec)
     apply assumption+
    done
qed

text \<open>However an execution ends, it only wrote where the journal says.\<close>

lemma triple_execute:
  assumes q: "quiet (rc_backend c) flash" and k: "confined (rc_backend c) flash"
    and g: "geometry_validate (pr_geometry (rc_profile c)) = Inr ()" and inj: "collision_free (rc_codec c)"
  shows "triple (\<lambda>s. s = w) (execute c confirmation)
    (\<lambda>_. in_world flash (tracked c flash w {})) (in_world flash (tracked c flash w {}))"
proof -
  let ?T = "in_world flash (tracked c flash w {})"
  have start: "?T w" by (auto simp: in_world_def tracked_def)
  note calm = triple_tracked_calm [OF _ q]
  define here where "here = (\<lambda>s :: 'a world. wd_blobs s = wd_blobs w \<and> wd_events s = wd_events w
     \<and> flash (wd_device s) = flash (wd_device w))"
  have T: "?T s" if "here s" for s using that by (auto simp: here_def in_world_def tracked_def)
  define H where "H = (\<lambda>B E F. B = wd_blobs w \<and> E = wd_events w \<and> F = flash (wd_device w))"
  have HX: "tracked c flash w {} B E F" if "H B E F" for B E F using that by (auto simp: H_def tracked_def)
  have cur: "triple (in_world flash H) (current_plan c)
      (\<lambda>p s. ?T s \<and> names_plan c w p \<and> justified c p) ?T"
  proof (rule tripleI)
    fix s s1 :: "'a world" and p
    assume s: "in_world flash H s" and r: "current_plan c s = (s1, Inr p)"
    have "names_plan c w p = names_plan c s p"
      by (rule names_plan_eq) (use s in \<open>auto simp: in_world_def H_def\<close>)
    moreover have "in_world flash H s1"
      using calmD(1,2) [OF calm_current(1) r] calmD(3) [OF calm_current(1) r q] s by (simp add: in_world_def)
    then have "?T s1" using HX by (auto simp: in_world_def)
    ultimately show "?T s1 \<and> names_plan c w p \<and> justified c p"
      using current_plan_facts(1,2) [OF r g inj] by simp
  next
    fix s s1 :: "'a world" and e
    assume s: "in_world flash H s" and r: "current_plan c s = (s1, Inl e)"
    have "in_world flash H s1"
      using calmD(1,2) [OF calm_current(1) r] calmD(3) [OF calm_current(1) r q] s by (simp add: in_world_def)
    then show "?T s1" using HX by (auto simp: in_world_def)
  qed
  have body: "triple (in_world flash H) (execute_body c confirmation) (\<lambda>_. ?T) ?T"
    unfolding execute_body_def
  proof (rule triple_andThen [OF cur])
    fix p
    have wp: "names_plan c w p \<Longrightarrow> justified c p \<Longrightarrow> triple ?T (write_plan c p current before) (\<lambda>_. ?T) ?T"
      for current before by (rule triple_write_plan [OF q k])
    show "triple (\<lambda>s. ?T s \<and> names_plan c w p \<and> justified c p) (let sha = plan_sha256 (rc_codec c) p in
    andThen (refuse (confirmation \<noteq> ''RECOVER '' @ se_session_id (rc_session c) @ '' '' @ sha)
       (rec_err ''confirmation_mismatch'' ''confirm this session and exact plan digest'')) (\<lambda>_.
     andThen (require_status c StRamBootVerified (rec_err ''ram_test_required'' ''fresh RAM acceptance is required'')) (\<lambda>_.
     andThen (latest c ram_boot_verified) (\<lambda>(tested, bound).
     andThen (refuse (tested \<noteq> sha) (rec_err ''ram_test_required'' ''RAM acceptance belongs to another plan'')) (\<lambda>_.
     andThen (fresh c p) (\<lambda>current.
     andThen (refuse (\<not> same_observation current bound)
       (rec_err ''plan_stale'' ''bootstrap epoch/evidence changed after RAM test'')) (\<lambda>_.
     andThen (store_get c (pn_current p)) (\<lambda>before.
     write_plan c p current before)))))))) (\<lambda>_. ?T) ?T"
      unfolding Let_def
      apply (rule triple_pure)
      apply (rule triple_andThen [OF calm], intro calm_intro)+
      apply (clarsimp)
      apply (rule triple_andThen [OF calm], intro calm_intro)+
      apply (rule wp; simp)
      done
  qed
  have "triple (in_world flash H) (execute c confirmation) (\<lambda>_. ?T) ?T"
    unfolding execute_def
    by (rule triple_guarded [OF q triple_guarded [OF q body]]; (erule HX)?; assumption?)
  then show ?thesis
    by (rule triple_weaken) (auto simp: in_world_def H_def)
qed

end
