(* ===== verification/Recovery_Bench.thy ===== *)
theory Recovery_Bench
  imports Recovery_Journal
begin

text \<open>
  One concrete recovery on which the procedures run to their end: a flash of 132,096 bytes with an
  environment, a boot and a FIT region, a 228 byte FIT of two components, and a transport that does
  what it is told. The boot image and the environment are already right; the FIT sector is not.
\<close>

definition bench_fit :: bytes where
  "bench_fit =
  [208, 13, 254, 237, 0, 0, 0, 228, 0, 0, 0, 56, 0, 0, 0, 212, 0, 0, 0, 40, 0, 0, 0, 17,
   0, 0, 0, 16, 0, 0, 0, 0, 0, 0, 0, 16, 0, 0, 0, 156, 0, 0, 0, 0, 0, 0, 0, 0,
   0, 0, 0, 0, 0, 0, 0, 0, 0, 0, 0, 1, 0, 0, 0, 0, 0, 0, 0, 1, 105, 109, 97, 103,
   101, 115, 0, 0, 0, 0, 0, 1, 107, 0, 0, 0, 0, 0, 0, 3, 0, 0, 0, 1, 0, 0, 0, 0,
   7, 0, 0, 0, 0, 0, 0, 2, 0, 0, 0, 1, 100, 0, 0, 0, 0, 0, 0, 3, 0, 0, 0, 1,
   0, 0, 0, 0, 9, 0, 0, 0, 0, 0, 0, 2, 0, 0, 0, 2, 0, 0, 0, 1, 99, 111, 110, 102,
   105, 103, 117, 114, 97, 116, 105, 111, 110, 115, 0, 0, 0, 0, 0, 1, 99, 0, 0, 0, 0, 0, 0, 3,
   0, 0, 0, 2, 0, 0, 0, 5, 107, 0, 0, 0, 0, 0, 0, 3, 0, 0, 0, 2, 0, 0, 0, 12,
   100, 0, 0, 0, 0, 0, 0, 2, 0, 0, 0, 2, 0, 0, 0, 2, 0, 0, 0, 9, 100, 97, 116, 97,
   0, 107, 101, 114, 110, 101, 108, 0, 102, 100, 116, 0]"

definition bench_digest :: "bytes \<Rightarrow> string" where
  "bench_digest = map (\<lambda>b. char_of (unat b))"

definition bench_tools :: fit_tools where
  "bench_tools = \<lparr>ft_sha256_hex = bench_digest, ft_hash = (\<lambda>_ body. body), ft_gunzip = (\<lambda>_ _. None)\<rparr>"

definition bench_contract :: fit_contract where
  "bench_contract = \<lparr>fc_sha256 = bench_digest bench_fit, fc_size = 228, fc_configuration = ''c'', fc_soc = ''zynq'',
     fc_components = [''k'', ''d''], fc_ram_start = 0, fc_ram_end = 1000, fc_expected_firmware = ''v1'',
     fc_expected_layout = ''a'', fc_expanded_sizes = [],
     fc_component_sha256 = [(''k'', bench_digest [7]), (''d'', bench_digest [9])]\<rparr>"


definition bench_header :: fdt_header where
  "bench_header = \<lparr>fh_total = 228, fh_structure = 56, fh_strings = 212, fh_reserve = 40, fh_strings_size = 16,
     fh_structure_size = 156\<rparr>"

lemma bench_header_read: "fdt_header_of bench_fit = Inr bench_header"
  by (simp add: fdt_header_of_def fdt_field_def bench_fit_def bench_header_def slice_def be_nat_def checks_eval Let_def)

definition bench_tree :: fdt where
  "bench_tree = [(''/'', []), (''/images'', []), (''/images/k'', [(''data'', [7])]), (''/images/d'', [(''data'', [9])]),
     (''/configurations'', []), (''/configurations/c'', [(''kernel'', [107, 0]), (''fdt'', [100, 0])])]"

text \<open>One token at a time.\<close>

lemma bench_token:
  "pos + 4 \<le> limit \<Longrightarrow> be_nat (slice pos (pos + 4) data) = 1 \<Longrightarrow> begin_node data limit (pos + 4, stack, tree) = Inr s \<Longrightarrow>
     fdt_loop data h limit (fst s) (fst (snd s)) (snd (snd s)) = r \<Longrightarrow> fdt_loop data h limit pos stack tree = r"
  "pos + 4 \<le> limit \<Longrightarrow> be_nat (slice pos (pos + 4) data) = 2 \<Longrightarrow> stack \<noteq> [] \<Longrightarrow>
     fdt_loop data h limit (pos + 4) (butlast stack) tree = r \<Longrightarrow> fdt_loop data h limit pos stack tree = r"
  "pos + 4 \<le> limit \<Longrightarrow> be_nat (slice pos (pos + 4) data) = 3 \<Longrightarrow> node_property data h limit (pos + 4, stack, tree) = Inr s \<Longrightarrow>
     fdt_loop data h limit (fst s) (fst (snd s)) (snd (snd s)) = r \<Longrightarrow> fdt_loop data h limit pos stack tree = r"
  "pos + 4 \<le> limit \<Longrightarrow> be_nat (slice pos (pos + 4) data) = 9 \<Longrightarrow> stack = [] \<Longrightarrow> tree \<noteq> [] \<Longrightarrow>
     \<not> list_ex (\<lambda>b. b \<noteq> 0) (slice (pos + 4) limit data) \<Longrightarrow> r = Some (Inr tree) \<Longrightarrow> fdt_loop data h limit pos stack tree = r"
  by (subst fdt_loop.simps; simp)+

lemma bench_chars: "char_of (97 :: nat) = CHR ''a''"
  "char_of (99 :: nat) = CHR ''c''"
  "char_of (100 :: nat) = CHR ''d''"
  "char_of (101 :: nat) = CHR ''e''"
  "char_of (102 :: nat) = CHR ''f''"
  "char_of (103 :: nat) = CHR ''g''"
  "char_of (105 :: nat) = CHR ''i''"
  "char_of (107 :: nat) = CHR ''k''"
  "char_of (108 :: nat) = CHR ''l''"
  "char_of (109 :: nat) = CHR ''m''"
  "char_of (110 :: nat) = CHR ''n''"
  "char_of (111 :: nat) = CHR ''o''"
  "char_of (114 :: nat) = CHR ''r''"
  "char_of (115 :: nat) = CHR ''s''"
  "char_of (116 :: nat) = CHR ''t''"
  "char_of (117 :: nat) = CHR ''u''"
  by code_simp+

lemmas bench_eval = bench_chars slice_def be_nat_def begin_node_def node_property_def find_nul_def fdt_string_def node_name_def
  node_char_def stack_path_def align4_def Let_def bench_fit_def bench_header_def checks_eval ascii_bytes_def

lemma bench_fit_nodes: "fdt_nodes bench_fit = Some (Inr bench_tree)"
proof -
  have "fdt_loop bench_fit bench_header 212 56 [] [] = Some (Inr bench_tree)"
    by (rule bench_token, simp, (simp add: bench_eval; fail), (simp add: bench_eval; fail)?,
        (simp add: bench_eval; fail)?, (simp add: bench_eval)?, (simp add: bench_tree_def; fail)?)+
  then show ?thesis by (simp add: fdt_nodes_def bench_header_read bench_header_def)
qed

lemma bench_fit_admitted: "admit_fit bench_tools bench_fit bench_contract ''zynq'' = Inr []"
proof -
  have "length bench_fit = 228" by (simp add: bench_fit_def)
  then show ?thesis
    by (simp add: admit_fit_def bench_contract_def bench_tools_def bench_fit_nodes checks_eval)
      (simp add: bench_tree_def fdt_prop_def fdt_string_def check_component_def hash_nodes_def expanded_size_def
        check_address_def Let_def checks_eval ascii_bytes_def bench_chars insert_commute)
qed

section \<open>The flash\<close>

definition bench_vars :: "(bytes \<times> bytes) list" where
  "bench_vars = [(FIT_SIZE, ascii_bytes ''E4'')]"

definition bench_env :: bytes where
  "bench_env = env_image bench_vars (replicate 131055 0)"

definition bench_boot :: bytes where
  "bench_boot = replicate 512 1"

definition bench_old :: bytes where
  "bench_old = replicate 512 255"

definition bench_new :: bytes where
  "bench_new = bench_fit @ replicate 284 255"

text \<open>What the flash holds before and after.\<close>

definition bench_before :: bytes where
  "bench_before = bench_env @ bench_boot @ bench_old"

definition bench_after :: bytes where
  "bench_after = bench_env @ bench_boot @ bench_new"

lemma bench_lengths [simp]: "length bench_env = 131072" "length bench_boot = 512" "length bench_old = 512"
    "length bench_new = 512" "length bench_fit = 228" "length bench_before = 132096" "length bench_after = 132096"
proof -
  show f: "length bench_fit = 228" by (simp add: bench_fit_def)
  show "length bench_env = 131072"
    by (simp add: bench_env_def env_image_def bench_vars_def entry_bytes_def FIT_SIZE_def ascii_bytes_def Let_def)
  then show "length bench_before = 132096" "length bench_after = 132096"
    by (simp_all add: bench_before_def bench_after_def bench_boot_def bench_old_def bench_new_def f)
qed (simp_all add: bench_boot_def bench_old_def bench_new_def bench_fit_def)

lemma bench_slices [simp]:
  "slice 0 131072 bench_before = bench_env" "slice 131072 131584 bench_before = bench_boot"
  "slice 131584 132096 bench_before = bench_old" "slice 0 131072 bench_after = bench_env"
  "slice 131072 131584 bench_after = bench_boot" "slice 131584 132096 bench_after = bench_new"
  "slice 0 132096 bench_before = bench_before" "slice 0 132096 bench_after = bench_after"
  by (simp_all add: slice_def bench_before_def bench_after_def)

lemma bench_overlays [simp]:
  "overlay bench_before 131584 bench_fit = bench_after" "overlay bench_after 0 bench_env = bench_after"
  "overlay bench_after 131072 bench_boot = bench_after" "overlay bench_before 131584 bench_new = bench_after"
  "overlay bench_after 131584 bench_old = bench_before" "overlay bench_before 131584 bench_old = bench_before"
proof -
  show "overlay bench_before 131584 bench_fit = bench_after"
    unfolding overlay_def bench_before_def bench_after_def bench_new_def by (simp add: bench_old_def)
qed (simp_all add: overlay_def bench_before_def bench_after_def)

lemma bench_differs [simp]: "bench_old \<noteq> bench_new" "bench_new \<noteq> bench_old" "bench_before \<noteq> bench_after"
    "bench_after \<noteq> bench_before"
proof -
  have "hd bench_old \<noteq> hd bench_new" by (simp add: bench_old_def bench_new_def bench_fit_def)
  then show "bench_old \<noteq> bench_new" "bench_new \<noteq> bench_old" by auto
  then show "bench_before \<noteq> bench_after" "bench_after \<noteq> bench_before"
    by (simp_all add: bench_before_def bench_after_def)
qed

lemma bench_vars_ok: "well_formed_env bench_vars" "hex_upper 228 = ''E4''"
  by (simp_all add: well_formed_env_def bench_vars_def FIT_SIZE_def ascii_bytes_def hex_upper.simps hex_char_upper_def)

lemma bench_env_values: "environment_values bench_env False = Inr bench_vars"
proof -
  have "length (env_image bench_vars (replicate 131055 0)) = 131072"
    using bench_lengths(1) by (simp add: bench_env_def)
  then show ?thesis
    using decode_env_image [OF bench_vars_ok(1), of "replicate 131055 0" False False]
    by (simp add: environment_values_def decode_environment_def bench_env_def)
qed

text \<open>The environment has the right \<open>fit_size\<close> already, and rewriting it changes nothing.\<close>

lemma bench_env_kept: "environment_with_fit_size bench_env 228 False = Inr bench_env"
proof -
  let ?entry = "fit_size_entry (ascii_bytes ''E4'')"
  have entry: "entry_bytes (FIT_SIZE, ascii_bytes ''E4'') = ?entry" "length ?entry = 11" "0 \<notin> set ?entry" "?entry \<noteq> []"
    by (simp_all add: entry_bytes_def fit_size_entry_def FIT_SIZE_def ascii_bytes_def)
  define pad :: bytes where "pad = replicate 131055 0"
  have d: "drop 4 bench_env = ?entry @ 0 # 0 # pad"
    by (simp add: bench_env_def env_image_def bench_vars_def entry Let_def pad_def)
  have env: "le_bytes 4 (crc32 (?entry @ 0 # 0 # pad)) @ ?entry @ 0 # 0 # pad = bench_env"
    by (simp add: bench_env_def env_image_def bench_vars_def entry Let_def pad_def)
  have t: "find_terminator (?entry @ 0 # 0 # pad) = Some 11"
    using find_terminator_gapless [OF gapless_free [OF entry(3)], of pad] entry(2) by simp
  have split: "split_bytes 0 ?entry = [?entry]" by (rule split_bytes_none [OF entry(3)])
  have rw: "rewritten_data (?entry @ 0 # 0 # pad) 11 [?entry] = ?entry @ 0 # 0 # pad"
    by (simp add: rewritten_data_def entry(2) Let_def)
  have v: "map_of bench_vars FIT_SIZE = Some (ascii_bytes ''E4'')" "AList.update FIT_SIZE (ascii_bytes ''E4'') bench_vars = bench_vars"
    by (simp_all add: bench_vars_def)
  have len: "length (?entry @ 0 # 0 # pad) = 131068" by (simp add: entry(2) pad_def)
  show ?thesis
    by (simp add: environment_with_fit_size_def bench_env_values v bench_vars_ok(2) d t entry(2) split rw env Let_def
        same_dict_def del: append.simps)
qed

section \<open>The session\<close>

abbreviation bench_blob :: "bytes \<Rightarrow> blob" where
  "bench_blob data \<equiv> \<lparr>bl_sha256 = bench_digest data, bl_size = length data\<rparr>"

definition bench_geometry :: geometry where
  "bench_geometry = \<lparr>ge_capacity = 132096, ge_regions =
     [\<lparr>rg_name = ''environment'', rg_start = 0, rg_size = 131072, rg_erase_size = 131072\<rparr>,
      \<lparr>rg_name = ''boot'', rg_start = 131072, rg_size = 512, rg_erase_size = 512\<rparr>,
      \<lparr>rg_name = ''fit'', rg_start = 131584, rg_size = 512, rg_erase_size = 512\<rparr>]\<rparr>"

definition bench_target :: target where
  "bench_target = \<lparr>tg_adapter = ''a'', tg_topology = ''1'', tg_uid = Some ''u'', tg_serial = None, tg_board = ''b'',
     tg_soc = ''zynq'', tg_ddr_bytes = 1000000, tg_jedec = ''j''\<rparr>"

definition bench_observation :: observation where
  "bench_observation = \<lparr>on_target = bench_target, on_geometry = bench_geometry, on_bootstrap_sha256 = ''s'',
     on_writer_sha256 = ''w'', on_boot_epoch = ''e'', on_qualification_id = ''q'',
     on_transcript = bench_blob [5], on_flash_protected = False\<rparr>"

definition bench_profile :: profile where
  "bench_profile = \<lparr>pr_profile_id = ''p'', pr_qualification_id = ''q'', pr_board = ''b'', pr_soc = ''zynq'',
     pr_ddr_bytes = 1000000, pr_jedec = ''j'', pr_geometry = bench_geometry, pr_bootstrap_sha256 = ''s'',
     pr_writer_sha256 = ''w'', pr_read_limit = 132096, pr_write_limit = 132096, pr_read_evidence = ''r'',
     pr_write_evidence = ''w'', pr_cold_boot_evidence = Some ''c'', pr_console_only_evidence = ''o'',
     pr_ram_recipe_evidence = Some ''r'', pr_support = Qualified, pr_target_uid_sha256 = None,
     pr_original_flash_sha256 = None, pr_opaque_environment_padding = False, pr_capture_address = 0,
     pr_compare_address = 200000, pr_wiring_instructions = [], pr_boot_instructions = [],
     pr_rollback = bench_contract, pr_sd_files = []\<rparr>"

definition bench_history :: historical_boot where
  "bench_history = \<lparr>hb_target_uid = ''u'', hb_boot_sha256 = bench_digest bench_boot, hb_source_receipt_sha256 = ''h''\<rparr>"

definition bench_provenance :: provenance where
  "bench_provenance = \<lparr>pv_target_uid = ''u'', pv_historical_boot_sha256 = bench_digest bench_boot,
     pv_historical_record_sha256 = bench_digest [3], pv_boot_source_sha256 = bench_digest bench_boot,
     pv_rollback_sha256 = bench_digest bench_fit, pv_boot_restore_start = 131072, pv_boot_restore_size = 512\<rparr>"

definition bench_sector :: sector where
  "bench_sector = \<lparr>sc_kind = Fit, sc_start = 131584, sc_size = 512, sc_before_sha256 = bench_digest bench_old,
     sc_after = bench_blob bench_new\<rparr>"

definition bench_patch :: "repair_kind \<Rightarrow> patch" where
  "bench_patch kind = (case kind of
     Fit \<Rightarrow> \<lparr>pt_kind = Fit, pt_start = 131584, pt_payload = bench_blob bench_fit,
             pt_before_sha256 = bench_digest (slice 131584 131812 bench_before)\<rparr>
   | Environment \<Rightarrow> \<lparr>pt_kind = Environment, pt_start = 0, pt_payload = bench_blob bench_env,
             pt_before_sha256 = bench_digest bench_env\<rparr>
   | Boot \<Rightarrow> \<lparr>pt_kind = Boot, pt_start = 131072, pt_payload = bench_blob bench_boot,
             pt_before_sha256 = bench_digest bench_boot\<rparr>)"

definition bench_plan :: plan where
  "bench_plan = \<lparr>pn_policy_version = POLICY_VERSION, pn_session_id = ''id'', pn_profile_sha256 = bench_digest [4],
     pn_observation = bench_observation, pn_original = bench_blob bench_before, pn_current = bench_blob bench_before,
     pn_expected = bench_blob bench_after, pn_provenance = bench_provenance, pn_history = bench_blob [3],
     pn_boot_source = bench_blob bench_boot,
     pn_patches = [bench_patch Fit, bench_patch Environment, bench_patch Boot],
     pn_sectors = [bench_sector], pn_parent_plan = None\<rparr>"

definition bench_codec :: evidence_codec where
  "bench_codec = \<lparr>ec_tools = bench_tools, ec_plan_bytes = (\<lambda>p. if p = bench_plan then [1] else [2]),
     ec_parse_plan = (\<lambda>data. if data = [1] then Inr bench_plan else Inl (ValueError ''plan'')),
     ec_profile_bytes = (\<lambda>_. [4]), ec_history_bytes = (\<lambda>_. [3]), ec_parse_history = (\<lambda>_. Inr bench_history)\<rparr>"

lemma bench_digest_eq [simp]: "digest bench_codec = bench_digest" "bench_digest a = bench_digest b \<longleftrightarrow> a = b"
proof -
  have "inj (\<lambda>b :: byte. char_of (unat b))"
  proof (rule injI)
    fix a b :: byte
    assume "char_of (unat a) = char_of (unat b)"
    then have "of_char (char_of (unat a)) = (of_char (char_of (unat b)) :: nat)" by simp
    moreover have "unat a < 256" "unat b < 256" using unsigned_less [of a, where ?'a = nat] unsigned_less [of b, where ?'a = nat] by simp_all
    ultimately show "a = b" by (simp add: word_unat_eq_iff)
  qed
  then show "bench_digest a = bench_digest b \<longleftrightarrow> a = b" by (simp add: bench_digest_def inj_map_eq_map)
  show "digest bench_codec = bench_digest" by (simp add: digest_def bench_codec_def bench_tools_def fun_eq_iff)
qed

lemma bench_fields [simp]:
  "ec_parse_history bench_codec data = Inr bench_history" "ec_history_bytes bench_codec h = [3]"
  "ec_tools bench_codec = bench_tools" "ec_plan_bytes bench_codec bench_plan = [1]"
  "ec_parse_plan bench_codec [1] = Inr bench_plan" "profile_sha256 bench_codec bench_profile = bench_digest [4]"
  "plan_sha256 bench_codec bench_plan = bench_digest [1]"
  "history_mismatch bench_codec [3] bench_history bench_provenance = False"
  "on_geometry bench_observation = bench_geometry" "on_target bench_observation = bench_target"
  "tg_uid bench_target = Some ''u''" "tg_soc bench_target = ''zynq''" "ge_capacity bench_geometry = 132096"
  "pr_geometry bench_profile = bench_geometry" "pr_rollback bench_profile = bench_contract"
  "pr_opaque_environment_padding bench_profile = False" "pr_write_limit bench_profile = 132096"
  "pv_target_uid bench_provenance = ''u''" "pv_boot_source_sha256 bench_provenance = bench_digest bench_boot"
  "pv_historical_boot_sha256 bench_provenance = bench_digest bench_boot"
  "pv_rollback_sha256 bench_provenance = bench_digest bench_fit"
  "pv_boot_restore_start bench_provenance = 131072" "pv_boot_restore_size bench_provenance = 512"
  by (simp_all add: bench_codec_def profile_sha256_def plan_sha256_def history_mismatch_def bench_provenance_def bench_history_def
      bench_observation_def bench_target_def bench_geometry_def bench_profile_def digest_def bench_tools_def)

lemma bench_collision_free: "collision_free bench_codec"
  by (simp add: collision_free_def inj_def)

lemma bench_geometry_ok: "geometry_validate bench_geometry = Inr ()"
  by (simp add: geometry_validate_def bench_geometry_def region_validate_def size_ok_def rg_end_def checks_eval Let_def)

lemma bench_qualified: "qualify bench_digest bench_profile bench_observation m = Inr ()"
  by (simp add: qualify_def bench_profile_def bench_observation_def bench_target_def uid_missing_def
      bench_geometry_def checks_eval)

lemma andThen_ok: "m s = (s1, Inr x) \<Longrightarrow> andThen m f s = f x s1"
  by (simp add: andThen_def bindS_def)

lemma refuse_ok: "\<not> b \<Longrightarrow> refuse b e s = (s, Inr ())"
  by (simp add: refuse_def)

definition bench_files :: "bytes list" where
  "bench_files = [[1], [3], [5], bench_before, bench_after, bench_boot, bench_env, bench_fit, bench_new]"

text \<open>Storing without keeping, as the validation of a plan does, or in a store that has the blob.\<close>

definition bench_put :: "'s \<Rightarrow> (bytes \<Rightarrow> ('s, blob) action) \<Rightarrow> bool" where
  "bench_put w put \<longleftrightarrow> (\<forall>data \<in> set bench_files. put data w = (w, Inr (bench_blob data)))"

lemma bench_put: "bench_put w put \<Longrightarrow> data \<in> set bench_files \<Longrightarrow> put data w = (w, Inr (bench_blob data))"
  by (simp add: bench_put_def)

lemma bench_nonempty [simp]: "bench_before \<noteq> []" "bench_after \<noteq> []" "bench_boot \<noteq> []" "bench_env \<noteq> []"
    "bench_fit \<noteq> []" "bench_new \<noteq> []"
  using bench_lengths by (metis list.size(3) zero_neq_numeral)+

lemma bench_sizes: "data \<in> set bench_files \<Longrightarrow> 0 < length data \<and> length data \<le> 132096"
  by (auto simp: bench_files_def)

lemma bench_remember: "bench_put w (remember bench_codec)"
  using bench_sizes by (force simp: bench_put_def remember_def blob_new_def MAX_BLOB_def)

abbreviation bench_repair :: "(bytes \<Rightarrow> ('s, blob) action) \<Rightarrow> repair \<Rightarrow> repair_state \<Rightarrow> ('s, repair_state) action" where
  "bench_repair put \<equiv> plan_repair bench_codec bench_profile bench_geometry put bench_before"

lemma bench_repairs:
  assumes "bench_put w put"
  shows "bench_repair put (Fit, \<lparr>rg_name = ''fit'', rg_start = 131584, rg_size = 512, rg_erase_size = 512\<rparr>, 131584, bench_fit)
     (bench_before, [], []) w = (w, Inr (bench_after, [bench_patch Fit], [bench_sector]))"
  "bench_repair put (Environment, \<lparr>rg_name = ''environment'', rg_start = 0, rg_size = 131072, rg_erase_size = 131072\<rparr>, 0, bench_env)
     (bench_after, ps, ss) w = (w, Inr (bench_after, ps @ [bench_patch Environment], ss))"
  "bench_repair put (Boot, \<lparr>rg_name = ''boot'', rg_start = 131072, rg_size = 512, rg_erase_size = 512\<rparr>, 131072, bench_boot)
     (bench_after, ps, ss) w = (w, Inr (bench_after, ps @ [bench_patch Boot], ss))"
proof -
  note kept = bench_put [OF assms]
  have range: "sector_range bench_profile bench_geometry
      \<lparr>rg_name = ''fit'', rg_start = 131584, rg_size = 512, rg_erase_size = 512\<rparr> 131584 131812 131584 132096 = Inr ()"
    by (simp add: sector_range_def bench_profile_def bench_geometry_def region_interval_def interval_new_def rg_end_def
        validate_write_intervals_def iv_contains_def iv_overlaps_def checks_eval bindE_def)
  show "bench_repair put (Fit, \<lparr>rg_name = ''fit'', rg_start = 131584, rg_size = 512, rg_erase_size = 512\<rparr>, 131584, bench_fit)
     (bench_before, [], []) w = (w, Inr (bench_after, [bench_patch Fit], [bench_sector]))"
    by (simp add: plan_repair_def Let_def rg_end_def andThen_ok refuse_ok kept bench_files_def sector_starts_def plan_sector_def
        range bench_patch_def bench_sector_def unqualified_range_def)
qed (simp_all add: plan_repair_def Let_def rg_end_def andThen_ok refuse_ok bench_put [OF assms] bench_files_def sector_starts_def
      plan_sector_def bench_patch_def)

lemma bench_builds:
  assumes put: "bench_put w put"
  shows "build_plan bench_codec ''id'' bench_profile bench_observation bench_before bench_boot bench_fit bench_provenance [3]
     put w = (w, Inr bench_plan)"
proof -
  note kept = bench_put [OF put]
  have regions: "geometry_region bench_geometry ''boot'' = Inr \<lparr>rg_name = ''boot'', rg_start = 131072, rg_size = 512, rg_erase_size = 512\<rparr>"
    "geometry_region bench_geometry ''environment'' = Inr \<lparr>rg_name = ''environment'', rg_start = 0, rg_size = 131072, rg_erase_size = 131072\<rparr>"
    "geometry_region bench_geometry ''fit'' = Inr \<lparr>rg_name = ''fit'', rg_start = 131584, rg_size = 512, rg_erase_size = 512\<rparr>"
    by (simp_all add: geometry_region_def bench_geometry_def)
  have boot: "overlay bench_boot 0 bench_boot = bench_boot" "slice 0 512 bench_boot = bench_boot"
    by (simp_all add: overlay_def slice_def)
  have fold: "foldA (bench_repair put)
      [(Fit, \<lparr>rg_name = ''fit'', rg_start = 131584, rg_size = 512, rg_erase_size = 512\<rparr>, 131584, bench_fit),
       (Environment, \<lparr>rg_name = ''environment'', rg_start = 0, rg_size = 131072, rg_erase_size = 131072\<rparr>, 0, bench_env),
       (Boot, \<lparr>rg_name = ''boot'', rg_start = 131072, rg_size = 512, rg_erase_size = 512\<rparr>, 131072, bench_boot)]
      (bench_before, [], []) w
      = (w, Inr (bench_after, [bench_patch Fit, bench_patch Environment, bench_patch Boot], [bench_sector]))"
    by (simp add: andThen_ok bench_repairs [OF put] del: One_nat_def)
  show ?thesis
    by (simp add: build_plan_def bench_qualified andThen_ok refuse_ok regions boot rg_end_def Let_def validate_recovery_fit_def
        bench_fit_admitted bench_env_kept fold kept bench_files_def del: foldA.simps) (simp add: bench_plan_def)
qed

section \<open>A transport that does what it is told\<close>

text \<open>The device is the flash and the staging buffer in RAM.\<close>

definition bench_evidence :: return_evidence where
  "bench_evidence = \<lparr>re_target = bench_target, re_fit_sha256 = bench_digest bench_fit, re_firmware = ''v1'',
     re_layout = ''a'', re_network_ok = True, re_iio_ok = True, re_rf_inactive = True, re_settings_ok = True,
     re_boot_source = source_ram, re_reset_cause = warm, re_boot_epoch = ''f'', re_transcript = bench_blob [5],
     re_operator_power_off = False, re_operator_sd_removed = False\<rparr>"

definition bench_backend :: "(bytes \<times> bytes) backend" where
  "bench_backend = \<lparr>bk_disk = (\<lambda>d. (d, Inr ())), bk_enter = (\<lambda>_ d. (d, Inr ())), bk_leave = (\<lambda>_ d. (d, Inr ())),
     bk_observe = (\<lambda>d. (d, Inr bench_observation)), bk_read = (\<lambda>a n d. (d, Inr (slice a (a + n) (fst d)))),
     bk_export_and_reload = (\<lambda>_ d. (d, Inr ())), bk_stage = (\<lambda>data d. ((fst d, data), Inr ())),
     bk_erase = (\<lambda>a n d. ((take (length (fst d)) (overlay (fst d) a (replicate n 255)), snd d), Inr ())),
     bk_program = (\<lambda>a n d. ((take (length (fst d)) (overlay (fst d) a (take n (snd d))), snd d), Inr ())),
     bk_ram_boot = (\<lambda>_ d. (d, Inr bench_evidence)), bk_return_to_sd = (\<lambda>d. (d, Inr ())),
     bk_attest_cold_boot = (\<lambda>d. (d, Inr bench_evidence))\<rparr>"

definition bench_recovery :: "(bytes \<times> bytes) recovery" where
  "bench_recovery = \<lparr>rc_codec = bench_codec, rc_session = \<lparr>se_session_id = ''id'', se_adapter = ''a'', se_profile_id = Some ''p''\<rparr>,
     rc_profile = bench_profile, rc_backend = bench_backend\<rparr>"

definition bench_world :: "bytes \<Rightarrow> bytes \<Rightarrow> event list \<Rightarrow> (bytes \<times> bytes) world" where
  "bench_world fl staged evs = \<lparr>wd_device = (fl, staged), wd_blobs = map (\<lambda>x. (bench_digest x, x)) bench_files, wd_events = evs\<rparr>"

lemma map_of_digests: "x \<in> set xs \<Longrightarrow> map_of (map (\<lambda>x. (bench_digest x, x)) xs) (bench_digest x) = Some x"
  by (induction xs) auto

lemma bench_config [simp]: "rc_codec bench_recovery = bench_codec" "rc_profile bench_recovery = bench_profile"
    "rc_backend bench_recovery = bench_backend" "se_session_id (rc_session bench_recovery) = ''id''"
    "se_adapter (rc_session bench_recovery) = ''a''" "tg_adapter bench_target = ''a''"
    "wd_events (bench_world fl staged evs) = evs" "on_transcript bench_observation = \<lparr>bl_sha256 = bench_digest [5], bl_size = 1\<rparr>"
  by (simp_all add: bench_recovery_def bench_target_def bench_world_def bench_observation_def)

lemma bench_disk: "disk bench_recovery w = (w, Inr ())"
  by (simp add: disk_def dev_def bench_backend_def)

lemma bench_get:
  "x \<in> set bench_files \<Longrightarrow> n = length x \<Longrightarrow>
     store_get bench_recovery \<lparr>bl_sha256 = bench_digest x, bl_size = n\<rparr> (bench_world fl staged evs)
     = (bench_world fl staged evs, Inr x)"
  by (simp add: store_get_def andThen_ok bench_disk bench_world_def map_of_digests)

lemma bench_calls:
  "dev (bk_observe bench_backend) (bench_world fl staged evs) = (bench_world fl staged evs, Inr bench_observation)"
  "read_flash bench_recovery a n (bench_world fl staged evs) = (bench_world fl staged evs, Inr (slice a (a + n) fl))"
  "dev (bk_enter bench_backend name) (bench_world fl staged evs) = (bench_world fl staged evs, Inr ())"
  "dev (bk_leave bench_backend name) (bench_world fl staged evs) = (bench_world fl staged evs, Inr ())"
  "dev (bk_stage bench_backend data) (bench_world fl staged evs) = (bench_world fl data evs, Inr ())"
  "dev (bk_erase bench_backend a k) (bench_world fl staged evs)
     = (bench_world (take (length fl) (overlay fl a (replicate k 255))) staged evs, Inr ())"
  "dev (bk_program bench_backend a k) (bench_world fl staged evs)
     = (bench_world (take (length fl) (overlay fl a (take k staged))) staged evs, Inr ())"
  "store_record bench_recovery ev (bench_world fl staged evs) = (bench_world fl staged (evs @ [ev]), Inr ())"
  "store_events bench_recovery (bench_world fl staged evs) = (bench_world fl staged evs, Inr evs)"
  by (simp_all add: dev_def bench_backend_def bench_world_def read_flash_def store_record_def store_events_def
      append_event_def andThen_ok bench_disk)

lemma bench_observes: "observe bench_recovery m (bench_world fl staged evs) = (bench_world fl staged evs, Inr bench_observation)"
  by (simp add: observe_def andThen_ok refuse_ok bench_calls bench_get bench_files_def bench_qualified)

lemma bench_plan_fields [simp]:
  "pn_policy_version bench_plan = POLICY_VERSION" "pn_session_id bench_plan = ''id''"
  "pn_profile_sha256 bench_plan = bench_digest [4]" "pn_observation bench_plan = bench_observation"
  "pn_original bench_plan = \<lparr>bl_sha256 = bench_digest bench_before, bl_size = 132096\<rparr>"
  "pn_current bench_plan = \<lparr>bl_sha256 = bench_digest bench_before, bl_size = 132096\<rparr>"
  "pn_expected bench_plan = \<lparr>bl_sha256 = bench_digest bench_after, bl_size = 132096\<rparr>"
  "pn_provenance bench_plan = bench_provenance" "pn_history bench_plan = \<lparr>bl_sha256 = bench_digest [3], bl_size = 1\<rparr>"
  "pn_boot_source bench_plan = \<lparr>bl_sha256 = bench_digest bench_boot, bl_size = 512\<rparr>"
  "pn_patches bench_plan = [bench_patch Fit, bench_patch Environment, bench_patch Boot]"
  "pn_sectors bench_plan = [bench_sector]"
  "pt_payload (the (patch_of bench_plan Fit)) = \<lparr>bl_sha256 = bench_digest bench_fit, bl_size = 228\<rparr>"
  "pt_kind (bench_patch kind) = kind"
  by (cases kind; simp add: bench_plan_def bench_patch_def patch_of_def)+

lemma bench_sector_fields [simp]:
  "sc_start bench_sector = 131584" "sc_size bench_sector = 512"
  "sc_after bench_sector = \<lparr>bl_sha256 = bench_digest bench_new, bl_size = 512\<rparr>"
  by (simp_all add: bench_sector_def)

lemma bench_validates:
  "validate_plan bench_codec bench_plan bench_profile (store_get bench_recovery) (bench_world fl staged evs)
     = (bench_world fl staged evs, Inr ())"
proof -
  have kinds: "{Fit, Environment, Boot} = {Boot, Environment, Fit}" by auto
  have pend: "pending_sectors bench_codec bench_before [bench_sector] = [bench_sector]"
    by (simp add: pending_sectors_def bench_sector_def)
  have rest: "restore_spans (map footprint [bench_sector]) bench_before bench_before = bench_before"
    by (simp add: restore_spans_def footprint_def bench_sector_def)
  show ?thesis
    by (simp add: validate_plan_def andThen_ok refuse_ok bench_get bench_files_def bench_builds [OF bench_remember] pend rest kinds
        del: list.map)
qed

text \<open>The journal of a session that passed its RAM test.\<close>

definition bench_journal :: "event list" where
  "bench_journal = [BootstrapReady bench_observation, BackupCandidate (bench_blob bench_before),
     BackupVerified (bench_blob bench_before) bench_observation, PlanReady (bench_blob [1]) (bench_digest [1]),
     RamBootIntent (bench_digest [1]), RamBootVerified (bench_digest [1]) bench_observation bench_evidence]"

lemma bench_current:
  "current_plan bench_recovery (bench_world fl staged bench_journal) = (bench_world fl staged bench_journal, Inr bench_plan)"
  by (simp add: current_plan_def andThen_ok refuse_ok bench_get bench_files_def bench_validates latest_def bench_calls
      bench_journal_def)

lemma bench_reads:
  assumes "length fl = 132096"
  shows "read_full bench_recovery (bench_world fl staged evs) = (bench_world fl staged evs, Inr fl)"
proof -
  have "slice 0 132096 fl = fl" using assms by (simp add: slice_def)
  then show ?thesis
    using assms by (simp add: read_full_def andThen_ok refuse_ok bench_calls boundary_points_def Let_def)
qed

lemma bench_fresh:
  "fresh bench_recovery bench_plan (bench_world bench_before staged evs) = (bench_world bench_before staged evs, Inr bench_observation)"
  by (simp add: fresh_def andThen_ok refuse_ok bench_observes same_target_def bench_reads bench_get bench_files_def)

text \<open>The sector erased, and the journal of the execution.\<close>

definition bench_dispatch :: dispatch where
  "bench_dispatch = \<lparr>dp_plan_sha256 = bench_digest [1], dp_start = 131584, dp_size = 512,
     dp_payload_sha256 = bench_digest bench_new\<rparr>"

definition bench_executed :: "event list" where
  "bench_executed = bench_journal @ [EraseIntent bench_dispatch, EraseCompleted bench_dispatch,
     ProgramIntent bench_dispatch, SectorVerified bench_dispatch,
     FlashVerified (bench_digest [1]) (bench_blob bench_after), AwaitingColdBoot (bench_digest [1])]"

lemma bench_erased [simp]: "replicate 512 255 = bench_old" "take 512 bench_new = bench_new"
    "same_observation bench_observation bench_observation"
  by (simp_all add: bench_old_def same_observation_def)

lemma bench_guarded:
  assumes "m (bench_world fl staged evs) = (bench_world fl1 staged1 evs1, r)"
  shows "guarded bench_recovery name m (bench_world fl staged evs) = (bench_world fl1 staged1 evs1, r)"
  using assms by (simp add: guarded_def andThen_ok bench_calls finallyA_def)

lemma bench_unchanged:
  "unchanged_writer bench_recovery bench_observation detail (bench_world fl staged evs) = (bench_world fl staged evs, Inr ())"
  by (simp add: unchanged_writer_def andThen_ok refuse_ok bench_observes)

lemma bench_span:
  "slice a (a + n) fl = data \<Longrightarrow>
     verify_span bench_recovery a n data detail (bench_world fl staged evs) = (bench_world fl staged evs, Inr ())"
  by (simp add: verify_span_def andThen_ok refuse_ok bench_calls)

lemma bench_sector_written:
  "write_sector bench_recovery bench_plan bench_observation bench_sector bench_before (bench_world bench_before staged evs)
     = (bench_world bench_after bench_new (evs @ [EraseIntent bench_dispatch, EraseCompleted bench_dispatch,
          ProgramIntent bench_dispatch, SectorVerified bench_dispatch]), Inr bench_after)"
  by (simp add: write_sector_def Let_def bench_dispatch_def [symmetric] andThen_ok bench_get bench_files_def bench_calls
      bench_unchanged bench_span)

lemma bench_writes:
  "write_plan bench_recovery bench_plan bench_observation bench_before (bench_world bench_before staged bench_journal)
     = (bench_world bench_after bench_new bench_executed, Inr ())"
  unfolding write_plan_def
  by (rule bench_guarded)
    (simp add: onError_def andThen_ok refuse_ok bench_sector_written bench_reads bench_get bench_files_def bench_validates
      bench_calls bench_executed_def)

text \<open>The whole execution.\<close>

lemma bench_executes:
  "execute bench_recovery (''RECOVER id '' @ bench_digest [1]) (bench_world bench_before staged bench_journal)
     = (bench_world bench_after bench_new bench_executed, Inr ())"
proof -
  have state: "state_of bench_journal = StRamBootVerified"
    "first_some ram_boot_verified (rev bench_journal) = Some (bench_digest [1], bench_observation)"
    by (simp_all add: bench_journal_def state_of_def)
  have "execute_body bench_recovery (''RECOVER id '' @ bench_digest [1]) (bench_world bench_before staged bench_journal)
     = (bench_world bench_after bench_new bench_executed, Inr ())"
    by (simp add: execute_body_def andThen_ok refuse_ok bench_current require_status_def store_status_def bench_calls
        latest_def bench_fresh bench_get bench_files_def bench_writes Let_def state)
  then show ?thesis unfolding execute_def by (intro bench_guarded)
qed

section \<open>The session from its start\<close>

text \<open>Operator callbacks that do nothing.\<close>

abbreviation bench_ready :: "(bytes \<times> bytes) \<Rightarrow> (bytes \<times> bytes) \<times> unit result" where
  "bench_ready \<equiv> \<lambda>d. (d, Inr ())"

lemma bench_dev: "dev bench_ready w = (w, Inr ())" "dev (bk_export_and_reload bench_backend data) w = (w, Inr ())"
    "dev (bk_ram_boot bench_backend fit) w = (w, Inr bench_evidence)" "dev (bk_return_to_sd bench_backend) w = (w, Inr ())"
  by (simp_all add: dev_def bench_backend_def)

lemma bench_stores: "bench_put (bench_world fl staged evs) (store_put bench_recovery)"
proof -
  have "store_put bench_recovery data (bench_world fl staged evs) = (bench_world fl staged evs, Inr (bench_blob data))"
    if "data \<in> set bench_files" for data
    using that bench_sizes [OF that]
    by (simp add: store_put_def refuse_ok andThen_ok blob_new_def MAX_BLOB_def bench_disk bench_get)
      (simp add: bench_world_def map_of_digests)
  then show ?thesis by (simp add: bench_put_def)
qed

lemma bench_captures:
  "capture bench_recovery bench_ready (bench_world bench_before staged [])
     = (bench_world bench_before staged (take 3 bench_journal), Inr (bench_blob bench_before))"
proof -
  have unbound: "pr_original_flash_sha256 bench_profile = None" by (simp add: bench_profile_def)
  have "capture_body bench_recovery bench_ready (bench_world bench_before staged [])
     = (bench_world bench_before staged (take 3 bench_journal), Inr (bench_blob bench_before))"
    by (simp add: capture_body_def andThen_ok refuse_ok bench_calls bench_dev bench_observes bench_reads bench_put [OF bench_stores]
        bench_get bench_files_def bench_journal_def unbound)
  then show ?thesis unfolding capture_def by (intro bench_guarded)
qed

lemma bench_plans:
  "make_plan bench_recovery bench_boot bench_fit bench_provenance [3] (bench_world bench_before staged (take 3 bench_journal))
     = (bench_world bench_before staged (take 4 bench_journal), Inr bench_plan)"
proof -
  have "make_plan_body bench_recovery bench_boot bench_fit bench_provenance [3] (bench_world bench_before staged (take 3 bench_journal))
     = (bench_world bench_before staged (take 4 bench_journal), Inr bench_plan)"
    by (simp add: make_plan_body_def save_plan_def andThen_ok refuse_ok bench_calls bench_put [OF bench_stores] latest_def
        bench_builds [OF bench_stores] bench_get bench_files_def bench_journal_def)
  then show ?thesis unfolding make_plan_def by (intro bench_guarded)
qed

lemma bench_tests:
  "ram_test bench_recovery bench_ready bench_ready (bench_world bench_before staged (take 4 bench_journal))
     = (bench_world bench_before staged bench_journal, Inr ())"
proof -
  let ?w = "bench_world bench_before staged"
  have cur: "current_plan bench_recovery (?w (take 4 bench_journal)) = (?w (take 4 bench_journal), Inr bench_plan)"
    by (simp add: current_plan_def andThen_ok refuse_ok bench_get bench_files_def bench_validates latest_def bench_calls
        bench_journal_def)
  have check: "runtime_check bench_recovery bench_evidence bench_plan source_ram (?w evs) = (?w evs, Inr ())" for evs
    by (simp add: runtime_check_def same_target_def andThen_ok refuse_ok bench_evidence_def bench_get bench_files_def
        bench_contract_def Let_def)
  have state: "state_of (take 4 bench_journal) = StPlanReady" by (simp add: bench_journal_def state_of_def)
  have payload: "pt_payload (bench_patch Fit) = \<lparr>bl_sha256 = bench_digest bench_fit, bl_size = 228\<rparr>"
    by (simp add: bench_patch_def)
  have session: "ram_session bench_recovery bench_plan bench_ready (?w (take 4 bench_journal)) = (?w bench_journal, Inr ())"
    unfolding ram_session_def
    by (rule bench_guarded)
      (simp add: onError_def andThen_ok bench_calls bench_get bench_files_def bench_dev check payload bench_fresh bench_journal_def)
  have "ram_test_body bench_recovery bench_ready bench_ready (?w (take 4 bench_journal)) = (?w bench_journal, Inr ())"
    by (simp add: ram_test_body_def andThen_ok refuse_ok cur state require_status_def store_status_def bench_calls bench_dev bench_fresh session)
  then show ?thesis unfolding ram_test_def by (intro bench_guarded)
qed

end
