(* ===== verification/Recovery_Admission.thy ===== *)
theory Recovery_Admission
  imports Recovery_Bench
begin

text \<open>
  What the admission of a FIT promises about the components themselves, read off the parsed tree and
  the contract and independent of the list of allocations \<open>validate_fit\<close> keeps: where the boot loader
  will put a component, and where it will enter it.
\<close>

definition component_props :: "fdt \<Rightarrow> string \<Rightarrow> props" where
  "component_props tree name = (case map_of tree (''/images/'' @ name) of None \<Rightarrow> [] | Some ps \<Rightarrow> ps)"

text \<open>The bytes a component takes in RAM: the expanded size of the contract, or the size of its data.\<close>

definition ram_size :: "fit_contract \<Rightarrow> fdt \<Rightarrow> string \<Rightarrow> nat" where
  "ram_size c tree name =
     (case map_of (fc_expanded_sizes c) name of
        Some claimed \<Rightarrow> claimed
      | None \<Rightarrow> (case fdt_prop (component_props tree name) ''data'' of None \<Rightarrow> 0 | Some body \<Rightarrow> length body))"

definition load_window :: "fit_contract \<Rightarrow> fdt \<Rightarrow> string \<Rightarrow> (nat \<times> nat) option" where
  "load_window c tree name =
     map_option (\<lambda>raw. (be_nat raw, be_nat raw + ram_size c tree name)) (fdt_prop (component_props tree name) ''load'')"

definition entry_point :: "fdt \<Rightarrow> string \<Rightarrow> nat option" where
  "entry_point tree name = map_option be_nat (fdt_prop (component_props tree name) ''entry'')"

definition gzipped :: "fdt \<Rightarrow> string \<Rightarrow> bool" where
  "gzipped tree name \<longleftrightarrow> fdt_prop (component_props tree name) ''compression'' = Some (ascii_bytes ''gzip'' @ [0])"

definition apart :: "nat \<times> nat \<Rightarrow> nat \<times> nat \<Rightarrow> bool" where
  "apart v w \<longleftrightarrow> snd v \<le> fst w \<or> snd w \<le> fst v"

text \<open>One component is loaded and entered inside the window, and a compressed one expands to exactly its size.\<close>

definition component_ok :: "fit_tools \<Rightarrow> fit_contract \<Rightarrow> fdt \<Rightarrow> string \<Rightarrow> bool" where
  "component_ok t c tree name \<longleftrightarrow>
     (\<forall>a b. load_window c tree name = Some (a, b) \<longrightarrow> fc_ram_start c \<le> a \<and> a < b \<and> b \<le> fc_ram_end c)
     \<and> (\<forall>e. entry_point tree name = Some e \<longrightarrow> fc_ram_start c \<le> e \<and> e < fc_ram_end c)
     \<and> (\<exists>body. fdt_prop (component_props tree name) ''data'' = Some body \<and> body \<noteq> []
          \<and> (case map_of (fc_component_sha256 c) name of None \<Rightarrow> True | Some pin \<Rightarrow> pin = ft_sha256_hex t body)
          \<and> (if gzipped tree name
             then ft_gunzip t body (ram_size c tree name + 1) = Some (ram_size c tree name, True, False, False)
             else ram_size c tree name = length body))"

section \<open>The loop over the components\<close>

lemma check_address_load:
  assumes "check_address c ps n ''load'' ws = Inr ws1"
  shows "case fdt_prop ps ''load'' of
           None \<Rightarrow> ws1 = ws
         | Some raw \<Rightarrow> ws1 = ws @ [(be_nat raw, be_nat raw + n)]
             \<and> fc_ram_start c \<le> be_nat raw \<and> 0 < n \<and> be_nat raw + n \<le> fc_ram_end c
             \<and> (\<forall>w \<in> set ws. apart w (be_nat raw, be_nat raw + n))"
proof (cases "fdt_prop ps ''load''")
  case None
  then show ?thesis using assms by (simp add: check_address_def)
next
  case (Some raw)
  then have facts: "ws1 = ws @ [(be_nat raw, be_nat raw + n)]" "fc_ram_start c \<le> be_nat raw" "0 < n" "be_nat raw + n \<le> fc_ram_end c"
    and free: "\<not> list_ex (\<lambda>(a, b). be_nat raw < b \<and> a < be_nat raw + n) ws"
    using assms by (simp_all add: check_address_def bindE_Inr_iff Let_def)
  have "apart w (be_nat raw, be_nat raw + n)" if "w \<in> set ws" for w
    using free that by (cases w) (force simp: list_ex_iff apart_def)
  then show ?thesis using facts Some by simp
qed

lemma check_address_entry:
  assumes "check_address c ps n ''entry'' ws = Inr ws1"
  shows "ws1 = ws" and "fdt_prop ps ''entry'' = Some raw \<Longrightarrow> fc_ram_start c \<le> be_nat raw \<and> be_nat raw < fc_ram_end c"
  using assms by (auto simp: check_address_def bindE_Inr_iff Let_def split: option.splits)

lemma check_addresses:
  assumes "foldE (check_address c ps n) [''load'', ''entry''] ws = Inr ws1"
  shows "check_address c ps n ''load'' ws = Inr ws1"
    and "fdt_prop ps ''entry'' = Some raw \<Longrightarrow> fc_ram_start c \<le> be_nat raw \<and> be_nat raw < fc_ram_end c"
proof -
  obtain ws2 where two: "check_address c ps n ''load'' ws = Inr ws2" "check_address c ps n ''entry'' ws2 = Inr ws1"
    using assms by (auto simp: bindE_Inr_iff)
  from two show "check_address c ps n ''load'' ws = Inr ws1" by (simp add: check_address_entry(1) [OF two(2)])
  show "fdt_prop ps ''entry'' = Some raw \<Longrightarrow> fc_ram_start c \<le> be_nat raw \<and> be_nat raw < fc_ram_end c"
    by (rule check_address_entry(2) [OF two(2)])
qed

lemma gzip_string: "fdt_string bs = Inr ''gzip'' \<longleftrightarrow> bs = ascii_bytes ''gzip'' @ [0]"
proof
  assume g: "fdt_string bs = Inr ''gzip''"
  then have "bs \<noteq> []" "last bs = 0" and m: "map (\<lambda>b. char_of (unat b)) (butlast bs) = ''gzip''"
    unfolding fdt_string_def by (simp_all split: if_splits)
  then have bs: "bs = butlast bs @ [0]" by (metis append_butlast_last_id)
  have "butlast bs = map (\<lambda>b. of_nat (of_char (char_of (unat b) :: char))) (butlast bs)"
  proof (rule map_idI [symmetric])
    fix b :: byte assume "b \<in> set (butlast bs)"
    have "unat b < 256" using unsigned_less [of b, where ?'a = nat] by simp
    then show "of_nat (of_char (char_of (unat b) :: char)) = b" by simp
  qed
  also have "\<dots> = map (\<lambda>x. of_nat (of_char x)) (map (\<lambda>b. char_of (unat b)) (butlast bs))" by simp
  also have "\<dots> = ascii_bytes ''gzip''" by (simp add: m ascii_bytes_def)
  finally show "bs = ascii_bytes ''gzip'' @ [0]" using bs by metis
next
  assume "bs = ascii_bytes ''gzip'' @ [0]"
  moreover have "char_of (103 :: nat) = CHR ''g''" "char_of (122 :: nat) = CHR ''z''" "char_of (105 :: nat) = CHR ''i''"
    "char_of (112 :: nat) = CHR ''p''" by code_simp+
  ultimately show "fdt_string bs = Inr ''gzip''" by (simp add: fdt_string_def ascii_bytes_def)
qed

lemma check_component_window:
  assumes "check_component t c tree name ws = Inr ws1"
  shows "component_ok t c tree name
    \<and> ws1 = (case load_window c tree name of None \<Rightarrow> ws | Some w \<Rightarrow> ws @ [w])
    \<and> (\<forall>w. load_window c tree name = Some w \<longrightarrow> (\<forall>v \<in> set ws. apart v w))"
proof -
  define ps where "ps = component_props tree name"
  define body where "body = (case fdt_prop ps ''data'' of None \<Rightarrow> [] | Some b \<Rightarrow> b)"
  obtain n compression where body: "body \<noteq> []"
    and pin: "map_of (fc_component_sha256 c) name = None \<or> map_of (fc_component_sha256 c) name = Some (ft_sha256_hex t body)"
    and z: "fdt_string (case fdt_prop ps ''compression'' of None \<Rightarrow> ascii_bytes ''none'' @ [0] | Some b \<Rightarrow> b) = Inr compression"
    and size: "expanded_size t c name compression body = Inr n"
    and addr: "foldE (check_address c ps n) [''load'', ''entry''] ws = Inr ws1"
    using assms unfolding check_component_def Let_def bindE_Inr_iff component_props_def [symmetric] ps_def [symmetric]
      body_def [symmetric] by auto
  have some: "fdt_prop ps ''data'' = Some body" using body by (auto simp: body_def split: option.splits)
  have "compression = ''gzip'' \<longleftrightarrow>
      (case fdt_prop ps ''compression'' of None \<Rightarrow> ascii_bytes ''none'' @ [0] | Some b \<Rightarrow> b) = ascii_bytes ''gzip'' @ [0]"
    unfolding gzip_string [symmetric] using z by auto
  then have gz: "compression = ''gzip'' \<longleftrightarrow> gzipped tree name"
    unfolding gzipped_def ps_def [symmetric] by (auto simp: ascii_bytes_def split: option.splits)
  have n: "n = ram_size c tree name"
    using size some by (auto simp: expanded_size_def ram_size_def ps_def split: if_splits option.splits)
  have g: "if gzipped tree name then ft_gunzip t body (n + 1) = Some (n, True, False, False) else n = length body"
    using size gz by (auto simp: expanded_size_def split: if_splits option.splits)
  note A = check_address_load [OF check_addresses(1) [OF addr]] check_addresses(2) [OF addr]
  have "component_ok t c tree name"
    using A some body pin g
    by (auto simp: component_ok_def load_window_def entry_point_def ps_def [symmetric] n split: option.splits)
  then show ?thesis using A(1) by (auto simp: load_window_def ps_def [symmetric] n split: option.splits)
qed

lemma check_components_windows:
  "foldE (check_component t c tree) names ws = Inr ws1 \<Longrightarrow>
     (\<forall>name \<in> set names. component_ok t c tree name
        \<and> (\<forall>w. load_window c tree name = Some w \<longrightarrow> (\<forall>v \<in> set ws. apart v w)))
     \<and> sorted_wrt (\<lambda>n m. \<forall>v w. load_window c tree n = Some v \<longrightarrow> load_window c tree m = Some w \<longrightarrow> apart v w) names"
proof (induction names arbitrary: ws)
  case (Cons name names)
  then obtain ws2 where head: "check_component t c tree name ws = Inr ws2"
    and rest: "foldE (check_component t c tree) names ws2 = Inr ws1"
    by (auto simp: bindE_Inr_iff)
  note H = check_component_window [OF head] and R = Cons.IH [OF rest]
  have old: "v \<in> set ws2" if "v \<in> set ws \<or> load_window c tree name = Some v" for v
    using H that by (cases "load_window c tree name") auto
  have "sorted_wrt (\<lambda>n m. \<forall>v w. load_window c tree n = Some v \<longrightarrow> load_window c tree m = Some w \<longrightarrow> apart v w) (name # names)"
    unfolding sorted_wrt.simps using R old by blast
  moreover have "\<forall>m \<in> set (name # names). component_ok t c tree m
      \<and> (\<forall>w. load_window c tree m = Some w \<longrightarrow> (\<forall>v \<in> set ws. apart v w))"
    unfolding list.set ball_simps using H R old by blast
  ultimately show ?case by blast
qed simp

lemma admitted_components:
  assumes "admit_fit t data c soc = Inr ws"
  obtains tree selected where "fdt_nodes data = Some (Inr tree)" and "set selected = set (fc_components c)"
    and "foldE (check_component t c tree) selected [] = Inr ws"
proof -
  obtain r where r: "fdt_nodes data = Some r" using fdt_nodes_returns by blast
  with assms that show thesis
    by (cases r) (auto simp: admit_fit_def bindE_Inr_iff split: option.splits)
qed

section \<open>A FIT of two loaded components\<close>

text \<open>
  A 319 byte FIT: a kernel of one byte that expands to eight at address 100, entered there, and a
  device tree of two bytes right behind it at 108.
\<close>

definition load_fit :: bytes where
  "load_fit =
  [208, 13, 254, 237, 0, 0, 1, 63, 0, 0, 0, 56, 0, 0, 1, 24, 0, 0, 0, 40, 0, 0, 0, 17,
   0, 0, 0, 16, 0, 0, 0, 0, 0, 0, 0, 39, 0, 0, 0, 224, 0, 0, 0, 0, 0, 0, 0, 0,
   0, 0, 0, 0, 0, 0, 0, 0, 0, 0, 0, 1, 0, 0, 0, 0, 0, 0, 0, 1, 105, 109, 97, 103,
   101, 115, 0, 0, 0, 0, 0, 1, 107, 0, 0, 0, 0, 0, 0, 3, 0, 0, 0, 1, 0, 0, 0, 0,
   7, 0, 0, 0, 0, 0, 0, 3, 0, 0, 0, 4, 0, 0, 0, 16, 0, 0, 0, 100, 0, 0, 0, 3,
   0, 0, 0, 4, 0, 0, 0, 21, 0, 0, 0, 100, 0, 0, 0, 3, 0, 0, 0, 5, 0, 0, 0, 27,
   103, 122, 105, 112, 0, 0, 0, 0, 0, 0, 0, 2, 0, 0, 0, 1, 100, 0, 0, 0, 0, 0, 0, 3,
   0, 0, 0, 2, 0, 0, 0, 0, 9, 9, 0, 0, 0, 0, 0, 3, 0, 0, 0, 4, 0, 0, 0, 16,
   0, 0, 0, 108, 0, 0, 0, 2, 0, 0, 0, 2, 0, 0, 0, 1, 99, 111, 110, 102, 105, 103, 117, 114,
   97, 116, 105, 111, 110, 115, 0, 0, 0, 0, 0, 1, 99, 0, 0, 0, 0, 0, 0, 3, 0, 0, 0, 2,
   0, 0, 0, 5, 107, 0, 0, 0, 0, 0, 0, 3, 0, 0, 0, 2, 0, 0, 0, 12, 100, 0, 0, 0,
   0, 0, 0, 2, 0, 0, 0, 2, 0, 0, 0, 2, 0, 0, 0, 9, 100, 97, 116, 97, 0, 107, 101, 114,
   110, 101, 108, 0, 102, 100, 116, 0, 108, 111, 97, 100, 0, 101, 110, 116, 114, 121, 0, 99, 111, 109, 112, 114,
   101, 115, 115, 105, 111, 110, 0]"

definition load_tools :: fit_tools where
  "load_tools = \<lparr>ft_sha256_hex = bench_digest, ft_hash = (\<lambda>_ body. body),
     ft_gunzip = (\<lambda>body limit. if body = [7] \<and> 8 < limit then Some (8, True, False, False) else None)\<rparr>"

definition load_contract :: fit_contract where
  "load_contract = \<lparr>fc_sha256 = bench_digest load_fit, fc_size = 319, fc_configuration = ''c'', fc_soc = ''zynq'',
     fc_components = [''k'', ''d''], fc_ram_start = 100, fc_ram_end = 110, fc_expected_firmware = ''v1'',
     fc_expected_layout = ''a'', fc_expanded_sizes = [(''k'', 8)],
     fc_component_sha256 = [(''k'', bench_digest [7]), (''d'', bench_digest [9, 9])]\<rparr>"

definition load_header :: fdt_header where
  "load_header = \<lparr>fh_total = 319, fh_structure = 56, fh_strings = 280, fh_reserve = 40, fh_strings_size = 39,
     fh_structure_size = 224\<rparr>"

definition load_tree :: fdt where
  "load_tree = [(''/'', []), (''/images'', []),
     (''/images/k'', [(''data'', [7]), (''load'', [0, 0, 0, 100]), (''entry'', [0, 0, 0, 100]),
        (''compression'', [103, 122, 105, 112, 0])]),
     (''/images/d'', [(''data'', [9, 9]), (''load'', [0, 0, 0, 108])]),
     (''/configurations'', []), (''/configurations/c'', [(''kernel'', [107, 0]), (''fdt'', [100, 0])])]"

lemma load_chars: "char_of (112 :: nat) = CHR ''p''" "char_of (115 :: nat) = CHR ''s''"
  "char_of (121 :: nat) = CHR ''y''" "char_of (122 :: nat) = CHR ''z''"
  by code_simp+

lemmas load_eval = bench_eval load_chars load_fit_def load_header_def

lemma load_header_read: "fdt_header_of load_fit = Inr load_header"
  by (simp add: fdt_header_of_def fdt_field_def load_fit_def load_header_def slice_def be_nat_def checks_eval Let_def)

lemma load_fit_nodes: "fdt_nodes load_fit = Some (Inr load_tree)"
proof -
  have "fdt_loop load_fit load_header 280 56 [] [] = Some (Inr load_tree)"
    by (rule bench_token, simp, (simp add: load_eval; fail), (simp add: load_eval; fail)?,
        (simp add: load_eval; fail)?, (simp add: load_eval)?, (simp add: load_tree_def; fail)?)+
  then show ?thesis by (simp add: fdt_nodes_def load_header_read load_header_def)
qed

lemma load_fit_admitted: "validate_recovery_fit load_tools load_fit load_contract ''zynq'' = Inr ()"
proof -
  have "length load_fit = 319" by (simp add: load_fit_def)
  then show ?thesis
    by (simp add: validate_recovery_fit_def admit_fit_def load_contract_def load_tools_def load_fit_nodes checks_eval)
      (simp add: load_tree_def fdt_prop_def fdt_string_def check_component_def hash_nodes_def expanded_size_def
        check_address_def Let_def checks_eval ascii_bytes_def bench_chars load_chars be_nat_def insert_commute)
qed

end
