(* ===== verification/Recovery_Order.thy ===== *)
theory Recovery_Order
  imports Recovery_Journal
begin

text \<open>
  The order of the events of a recovery journal: which earlier events support each kind of event, that
  every procedure keeps the order however it ends, and the journals a session can reach.
\<close>

section \<open>Supported events\<close>

definition runtime_ok :: "return_evidence \<Rightarrow> bool" where
  "runtime_ok ev \<longleftrightarrow> re_network_ok ev \<and> re_iio_ok ev \<and> re_rf_inactive ev \<and> re_settings_ok ev"

text \<open>\<open>before\<close> holds the events recorded earlier.\<close>

fun supported :: "event set \<Rightarrow> event \<Rightarrow> bool" where
  "supported before (BackupVerified b ob) \<longleftrightarrow>
     BackupCandidate b \<in> before \<and> BootstrapReady ob \<in> before \<and> (\<forall>ev \<in> before. backup_verified ev = None)"
| "supported before (PlanReady b sha) \<longleftrightarrow> bl_sha256 b = sha \<and> (\<exists>b ob. BackupVerified b ob \<in> before)"
| "supported before (RamBootIntent sha) \<longleftrightarrow> (\<exists>b. PlanReady b sha \<in> before)"
| "supported before (RamBootVerified sha ob ev) \<longleftrightarrow>
     RamBootIntent sha \<in> before \<and> runtime_ok ev \<and> re_boot_source ev = source_ram"
| "supported before (EraseIntent d) \<longleftrightarrow> (\<exists>ob ev. RamBootVerified (dp_plan_sha256 d) ob ev \<in> before)"
| "supported before (EraseCompleted d) \<longleftrightarrow> EraseIntent d \<in> before"
| "supported before (ProgramIntent d) \<longleftrightarrow> EraseCompleted d \<in> before"
| "supported before (SectorVerified d) \<longleftrightarrow> ProgramIntent d \<in> before"
| "supported before (FlashVerified sha b) \<longleftrightarrow> (\<exists>ob ev. RamBootVerified sha ob ev \<in> before)"
| "supported before (AwaitingColdBoot sha) \<longleftrightarrow> (\<exists>b. FlashVerified sha b \<in> before)"
| "supported before (Recovered sha ev) \<longleftrightarrow> (\<exists>b. FlashVerified sha b \<in> before) \<and> runtime_ok ev
     \<and> re_boot_source ev = source_qspi \<and> re_reset_cause ev = power_on \<and> re_operator_power_off ev \<and> re_operator_sd_removed ev"
| "supported before _ \<longleftrightarrow> True"

definition ordered :: "event list \<Rightarrow> bool" where
  "ordered evs \<longleftrightarrow> (\<forall>pre ev post. evs = pre @ ev # post \<longrightarrow> supported (set pre) ev)"

lemma ordered_Nil [simp]: "ordered []"
  by (simp add: ordered_def)

lemma ordered_snoc [simp]: "ordered (evs @ [ev]) \<longleftrightarrow> ordered evs \<and> supported (set evs) ev"
proof
  assume o: "ordered (evs @ [ev])"
  have "supported (set pre) e" if "evs = pre @ e # post" for pre e post
    using o that unfolding ordered_def by (metis append.assoc append_Cons)
  then show "ordered evs \<and> supported (set evs) ev" using o by (auto simp: ordered_def)
next
  assume o: "ordered evs \<and> supported (set evs) ev"
  have "supported (set pre) e" if e: "evs @ [ev] = pre @ e # post" for pre e post
  proof (cases post rule: rev_cases)
    case Nil
    then show ?thesis using e o by simp
  next
    case (snoc post1 x)
    then have "evs = pre @ e # post1" using e by simp
    then show ?thesis using o by (auto simp: ordered_def)
  qed
  then show "ordered (evs @ [ev])" by (auto simp: ordered_def)
qed

lemma orderedD: "ordered evs \<Longrightarrow> ev \<in> set evs \<Longrightarrow> \<exists>pre post. evs = pre @ ev # post \<and> supported (set pre) ev"
  unfolding ordered_def by (metis split_list)

lemma ordered_plan_digest: "ordered evs \<Longrightarrow> PlanReady b sha \<in> set evs \<Longrightarrow> bl_sha256 b = sha"
  by (drule (1) orderedD) auto

lemma ordered_plan_backup: "ordered evs \<Longrightarrow> PlanReady b sha \<in> set evs \<Longrightarrow> \<exists>b ob. BackupVerified b ob \<in> set evs"
  by (drule (1) orderedD) fastforce

lemma ordered_backup_once:
  assumes o: "ordered evs" and a: "evs = pre @ BackupVerified b ob # post" "BackupVerified b1 ob1 \<in> set pre"
  shows False
  using o a by (force simp: ordered_def)

section \<open>Logged events\<close>

text \<open>The journal is ordered, holds the events \<open>X\<close> and, when \<open>none\<close>, no verified backup.\<close>

definition logged :: "bool \<Rightarrow> event set \<Rightarrow> assertion" where
  "logged none X B E F \<longleftrightarrow> ordered E \<and> X \<subseteq> set E \<and> (none \<longrightarrow> (\<forall>ev \<in> set E. backup_verified ev = None))"

abbreviation no_flash :: "'d \<Rightarrow> bytes" where
  "no_flash \<equiv> \<lambda>_. []"

definition journal :: "bool \<Rightarrow> event set \<Rightarrow> 'd world \<Rightarrow> bool" where
  "journal none X w \<longleftrightarrow> in_world no_flash (logged none X) w"

lemma journal_iff:
  "journal none X w \<longleftrightarrow> ordered (wd_events w) \<and> X \<subseteq> set (wd_events w)
     \<and> (none \<longrightarrow> (\<forall>ev \<in> set (wd_events w). backup_verified ev = None))"
  by (simp add: journal_def in_world_def logged_def)

lemma quiet_nothing: "quiet bk no_flash"
  by (simp add: quiet_def)

abbreviation any_journal :: "'d world \<Rightarrow> bool" where
  "any_journal \<equiv> journal False {}"

lemma log_calm: "calm c m \<Longrightarrow> triple (journal n X) m (\<lambda>_. journal n X) any_journal"
  unfolding journal_def by (erule triple_calm [OF _ quiet_nothing]) (auto simp: logged_def)

lemma log_dev: "triple (journal n X) (dev f) (\<lambda>_. journal n X) any_journal"
  unfolding journal_def by (rule triple_dev_any) (auto simp: logged_def)

lemma log_put: "triple (journal n X) (store_put c data) (\<lambda>_. journal n X) any_journal"
  unfolding journal_def by (rule triple_put [OF quiet_nothing]) (auto simp: logged_def)

lemma log_record:
  assumes "\<And>P. X \<subseteq> P \<Longrightarrow> (n \<Longrightarrow> \<forall>ev \<in> P. backup_verified ev = None) \<Longrightarrow> supported P ev"
    and "m \<Longrightarrow> n \<and> backup_verified ev = None"
  shows "triple (journal n X) (store_record c ev) (\<lambda>_. journal m (insert ev X)) any_journal"
  unfolding journal_def by (rule triple_record [OF quiet_nothing]) (use assms in \<open>auto simp: logged_def\<close>)

lemma log_guarded:
  assumes "triple (journal n X) m (\<lambda>x. journal m1 (Y x)) any_journal"
  shows "triple (journal n X) (guarded c name m) (\<lambda>x. journal m1 (Y x)) any_journal"
  using assms unfolding journal_def
  by (rule triple_guarded [OF quiet_nothing]) (auto simp: logged_def)

lemma log_interrupted:
  assumes "triple (journal n X) m Q any_journal"
  shows "triple (journal n X) (onError m (interrupted c)) Q any_journal"
proof (rule triple_onError [OF assms])
  fix e
  have "triple any_journal (store_record c (Interrupted (interruption_code e))) (\<lambda>_. journal False {Interrupted (interruption_code e)}) any_journal"
    by (rule log_record) simp_all
  then show "triple any_journal (interrupted c e) (\<lambda>_. any_journal) any_journal"
    unfolding interrupted_def by (rule triple_weaken) (auto simp: journal_iff)
qed

lemma log_drop: "triple (journal n Y) m Q E \<Longrightarrow> Y \<subseteq> X \<Longrightarrow> triple (journal n X) m Q E"
  by (erule triple_weaken) (auto simp: journal_iff)

lemma log_end: "(\<And>w. journal n X w \<Longrightarrow> any_journal w)"
  by (auto simp: journal_iff)

section \<open>What the journal says of the plan\<close>

lemma selected:
  "plan_ready ev = Some (b, sha) \<longleftrightarrow> ev = PlanReady b sha"
  "ram_boot_verified ev = Some (sha, ob) \<longleftrightarrow> (\<exists>rt. ev = RamBootVerified sha ob rt)"
  "flash_verified ev = Some sha \<longleftrightarrow> (\<exists>b. ev = FlashVerified sha b)"
  "backup_verified ev = Some (b, ob) \<longleftrightarrow> ev = BackupVerified b ob"
  by (cases ev; simp; blast?)+

lemma first_some_in: "first_some f xs = Some y \<Longrightarrow> \<exists>x \<in> set xs. f x = Some y"
  by (induction xs) (auto split: option.splits)

lemma log_latest:
  assumes "\<And>ev x. sel ev = Some x \<Longrightarrow> ev \<in> Y x"
  shows "triple (journal n X) (latest c sel) (\<lambda>x w. \<exists>ev. sel ev = Some x \<and> journal n (insert ev X) w) any_journal"
proof (rule tripleI)
  fix w w1 x
  assume w: "journal n X w" and r: "latest c sel w = (w1, Inr x)"
  obtain ev where "ev \<in> set (wd_events w)" "sel ev = Some x"
    using first_some_in [OF latest_facts [OF r]] by auto
  then show "\<exists>ev. sel ev = Some x \<and> journal n (insert ev X) w1"
    using w calmD(2) [OF calm_store(3) r] by (auto simp: journal_iff)
next
  fix w w1 e
  assume w: "journal n X w" and r: "latest c sel w = (w1, Inl e)"
  then show "any_journal w1" using calmD(2) [OF calm_store(3) r] by (auto simp: journal_iff)
qed

lemma current_plan_ready:
  assumes "current_plan c w = (w1, Inr p)"
  shows "\<exists>b sha. PlanReady b sha \<in> set (wd_events w) \<and> bl_sha256 b = plan_sha256 (rc_codec c) p"
proof -
  obtain b sha w2 w3 data where l: "latest c plan_ready w = (w2, Inr (b, sha))"
    and get: "store_get c b w2 = (w3, Inr data)" and canon: "ec_plan_bytes (rc_codec c) p = data"
    using assms by (auto simp: current_plan_def andThen_Inr)
  obtain ev where "ev \<in> set (wd_events w)" "plan_ready ev = Some (b, sha)"
    using first_some_in [OF latest_facts [OF l]] by auto
  then have "PlanReady b sha \<in> set (wd_events w)" by (simp add: selected)
  then show ?thesis using store_get_facts(1) [OF get] canon by (auto simp: plan_sha256_def)
qed

text \<open>The plan found is one the journal holds under its own digest, after a verified backup.\<close>

lemma log_current:
  "triple (journal n X) (current_plan c)
     (\<lambda>p w. \<exists>b b1 ob. journal n (insert (PlanReady b (plan_sha256 (rc_codec c) p)) (insert (BackupVerified b1 ob) X)) w) any_journal"
proof (rule tripleI)
  fix w w1 p
  assume w: "journal n X w" and r: "current_plan c w = (w1, Inr p)"
  obtain b sha where p: "PlanReady b sha \<in> set (wd_events w)" "bl_sha256 b = plan_sha256 (rc_codec c) p"
    using current_plan_ready [OF r] by blast
  have o: "ordered (wd_events w)" using w by (simp add: journal_iff)
  have "PlanReady b (plan_sha256 (rc_codec c) p) \<in> set (wd_events w)"
    using ordered_plan_digest [OF o p(1)] p by simp
  moreover obtain b1 ob where "BackupVerified b1 ob \<in> set (wd_events w)" using ordered_plan_backup [OF o p(1)] by blast
  ultimately show "\<exists>b b1 ob. journal n (insert (PlanReady b (plan_sha256 (rc_codec c) p)) (insert (BackupVerified b1 ob) X)) w1"
    using w calmD(2) [OF calm_current(1) r] by (auto simp: journal_iff)
next
  fix w w1 e
  assume "journal n X w" and r: "current_plan c w = (w1, Inl e)"
  then show "any_journal w1" using calmD(2) [OF calm_current(1) r] by (auto simp: journal_iff)
qed

lemma triple_ex: "(\<And>x. triple (P x) m Q E) \<Longrightarrow> triple (\<lambda>s. \<exists>x. P x s) m Q E"
  unfolding triple_def by metis

lemma triple_split: "(\<And>a b. z = (a, b) \<Longrightarrow> triple P (f a b) Q E) \<Longrightarrow> triple P (case z of (a, b) \<Rightarrow> f a b) Q E"
  by (cases z) simp

lemma triple_value:
  "triple P m Q E \<Longrightarrow> (\<And>s s1 x. m s = (s1, Inr x) \<Longrightarrow> V x) \<Longrightarrow> triple P m (\<lambda>x s. Q x s \<and> V x) E"
  unfolding triple_def by (fastforce split: prod.splits sum.splits)

section \<open>The procedures\<close>

text \<open>The guard of \<open>capture\<close>.\<close>

lemma log_events: "triple any_journal (store_events c) (\<lambda>evs w. any_journal w \<and> wd_events w = evs) any_journal"
  by (auto simp: triple_def store_events_def disk_def dev_def andThen_def bindS_def journal_iff split: prod.splits sum.splits)

lemma log_none:
  "triple (\<lambda>w. any_journal w \<and> wd_events w = evs) (refuse (list_ex (\<lambda>e. backup_verified e \<noteq> None) evs) x)
    (\<lambda>_. journal True {}) any_journal"
  by (rule triple_refuse) (auto simp: journal_iff list_ex_iff simp del: not_None_eq)

lemma log_put_value:
  "triple (journal n X) (store_put c data) (\<lambda>b w. journal n X w \<and> b = \<lparr>bl_sha256 = digest (rc_codec c) data, bl_size = length data\<rparr>)
     any_journal"
proof (rule triple_value [OF log_put])
  fix s s1 :: "'a world" and b
  assume "store_put c data s = (s1, Inr b)"
  then have "bl_sha256 b = digest (rc_codec c) data" "bl_size b = length data"
    using honest_store_put [of c] by (auto simp: honest_put_def)
  then show "b = \<lparr>bl_sha256 = digest (rc_codec c) data, bl_size = length data\<rparr>" by (cases b) simp
qed

text \<open>A record that only needs the events the assertion names.\<close>

lemma log_event:
  assumes "\<And>P. X \<subseteq> P \<Longrightarrow> supported P ev"
  shows "triple (journal False X) (store_record c ev) (\<lambda>_. journal False (insert ev X)) any_journal"
  by (rule log_record) (use assms in auto)

lemma log_capture: "triple any_journal (capture c pb) (\<lambda>_. any_journal) any_journal"
proof -
  have first: "triple (journal True X) (store_record c ev) (\<lambda>_. journal True (insert ev X)) any_journal"
    if "\<And>P. supported P ev" "backup_verified ev = None" for X ev
    by (rule log_record) (use that in auto)
  have last: "triple (journal True {BackupCandidate b, BootstrapReady ob}) (store_record c (BackupVerified b ob)) (\<lambda>_. any_journal) any_journal"
    for b ob
    by (rule triple_weaken [OF log_record [where m = False and n = True and X = "{BackupCandidate b, BootstrapReady ob}"]])
      (auto simp: journal_iff)
  have "triple any_journal (capture_body c pb) (\<lambda>_. any_journal) any_journal"
    unfolding capture_body_def
    apply (rule triple_andThen [OF log_events])
    apply (rule triple_andThen [OF log_none])
    apply (rule triple_andThen [OF log_dev])
    apply (rule triple_andThen [OF log_calm [of c]], (intro calm_intro; fail))
    apply (rule triple_andThen [OF first], simp, simp)
    apply (rule triple_andThen [OF log_calm [of c]], (intro calm_intro; fail))
    apply (rule triple_andThen [OF log_calm [of c]], (intro calm_intro; fail))
    apply (rule triple_andThen [OF log_put_value])
    apply (rule triple_pure)
    apply (rule triple_andThen [OF first], simp, simp)
    apply (rule triple_andThen [OF log_dev])
    apply (rule triple_andThen [OF log_calm [of c]], (intro calm_intro; fail))
    apply (rule triple_andThen [OF log_calm [of c]], (intro calm_intro; fail))
    apply (rule triple_andThen [OF log_put_value])
    apply (rule triple_pure)
    apply (rule triple_andThen [OF log_calm [of c]], (intro calm_intro; fail))
    apply (simp only:)
    apply (rule triple_andThen [OF last])
    apply (rule triple_ret, assumption)
    done
  then show ?thesis unfolding capture_def by (intro log_guarded)
qed

lemma log_save_plan:
  "triple (journal False (insert (BackupVerified b ob) X)) (save_plan c p) (\<lambda>_. any_journal) any_journal"
proof -
  have rec: "triple (journal False (insert (BackupVerified b ob) X)) (store_record c (PlanReady b1 (bl_sha256 b1))) (\<lambda>_. any_journal) any_journal"
    for b1 by (rule triple_weaken [OF log_event [where X = "{BackupVerified b ob}"]]) (auto simp: journal_iff)
  show ?thesis unfolding save_plan_def
    by (rule triple_andThen [OF log_put_value], rule triple_pure)
      (use rec [of "\<lparr>bl_sha256 = digest (rc_codec c) x, bl_size = length x\<rparr>" for x] in \<open>simp add: plan_sha256_def\<close>)
qed

text \<open>Planning stores blobs and records nothing.\<close>

definition steady :: "bool \<Rightarrow> event set \<Rightarrow> ('d world, 'a) action \<Rightarrow> bool" where
  "steady n X m \<longleftrightarrow> triple (journal n X) m (\<lambda>_. journal n X) any_journal"

named_theorems steady_intro

lemma steady_put [steady_intro]: "steady n X (store_put c data)"
  by (simp add: steady_def log_put)

lemma steady_calm: "calm c m \<Longrightarrow> steady n X m"
  by (simp add: steady_def log_calm)

lemma steady_basic [steady_intro]: "steady n X (ret x)" "steady n X (lift r)" "steady n X (refuse b e)"
  by (rule steady_calm, rule calm_intro)+

lemma steady_andThen [steady_intro]: "steady n X m \<Longrightarrow> (\<And>x. steady n X (f x)) \<Longrightarrow> steady n X (andThen m f)"
  unfolding steady_def by (rule triple_andThen)

lemma steady_foldA [steady_intro]: "(\<And>x a. steady n X (f x a)) \<Longrightarrow> steady n X (foldA f xs a)"
  by (induction xs arbitrary: a) (auto intro: steady_intro)

lemma steady_cases [steady_intro]:
  "(b \<Longrightarrow> steady n X m) \<Longrightarrow> (\<not> b \<Longrightarrow> steady n X m1) \<Longrightarrow> steady n X (if b then m else m1)"
  "(\<And>x. steady n X (g x)) \<Longrightarrow> steady n X (let y = v in g y)"
  "(\<And>x y. steady n X (h x y)) \<Longrightarrow> steady n X (case z of (x, y) \<Rightarrow> h x y)"
  by (auto split: prod.splits)

lemma steady_sector [steady_intro]:
  "steady n X (plan_sector e prof g (store_put c) kind r a b original expected start sectors)"
  unfolding plan_sector_def by (intro steady_intro)

lemma steady_repair [steady_intro]: "steady n X (plan_repair e prof g (store_put c) original x a)"
  by (cases x; cases a) (auto simp: plan_repair_def intro!: steady_intro)

lemma steady_build: "steady n X (build_plan e sid prof ob original boot fit pv history (store_put c))"
  unfolding build_plan_def by (intro steady_intro)

lemma log_make_plan: "triple any_journal (make_plan c boot fit pv history) (\<lambda>_. any_journal) any_journal"
proof -
  have lat: "triple any_journal (latest c backup_verified) (\<lambda>x. journal False {BackupVerified (fst x) (snd x)}) any_journal"
    by (rule triple_weaken [OF log_latest [where Y = "\<lambda>x. {ev. backup_verified ev = Some x}"]])
      (auto simp: selected)
  have build: "triple (journal False X) (build_plan e sid prof ob original boot fit pv history (store_put c))
      (\<lambda>_. journal False X) any_journal" for X e sid prof ob original
    using steady_build [of False X] by (simp add: steady_def) 
  have "triple any_journal (make_plan_body c boot fit pv history) (\<lambda>_. any_journal) any_journal"
    unfolding make_plan_body_def
    apply (rule triple_andThen [OF log_calm [of c]], (intro calm_intro; fail))
    apply (rule triple_andThen [OF log_calm [of c]], (intro calm_intro; fail))
    apply (rule triple_andThen [OF log_calm [of c]], (intro calm_intro; fail))
    apply (rule triple_andThen [OF log_put])
    apply (rule triple_andThen [OF log_calm [of c]], (intro calm_intro; fail))
    apply (rule triple_andThen [OF log_calm [of c]], (intro calm_intro; fail))
    apply (rule triple_andThen [OF lat])
    apply (rule triple_split)
    apply (rule triple_andThen [OF log_calm [of c]], (intro calm_intro; fail))
    apply (rule triple_andThen [OF build])
    apply (rule triple_andThen [OF log_save_plan])
    apply (rule triple_ret, assumption)
    done
  then show ?thesis unfolding make_plan_def by (intro log_guarded)
qed

lemma log_ram_test: "triple any_journal (ram_test c pr pb) (\<lambda>_. any_journal) any_journal"
proof -
  have ram: "triple (journal False (insert (PlanReady b (plan_sha256 (rc_codec c) p)) X)) (ram_session c p pr) (\<lambda>_. any_journal) any_journal"
    for b p X
  proof -
    let ?sha = "plan_sha256 (rc_codec c) p"
    have intent: "triple (journal False (insert (PlanReady b ?sha) X)) (store_record c (RamBootIntent ?sha))
        (\<lambda>_. journal False {RamBootIntent ?sha}) any_journal"
      by (rule triple_weaken [OF log_event [where X = "{PlanReady b ?sha}"]]) (auto simp: journal_iff)
    have check: "triple (journal False {RamBootIntent ?sha}) (runtime_check c ev p source_ram)
        (\<lambda>_ w. journal False {RamBootIntent ?sha} w \<and> runtime_ok ev \<and> re_boot_source ev = source_ram) any_journal" for ev
      by (rule triple_value [OF log_calm [of c]], intro calm_intro)
        (auto simp: runtime_check_def andThen_Inr Let_def runtime_ok_def)
    have verified: "triple (journal False {RamBootIntent ?sha}) (store_record c (RamBootVerified ?sha ob ev)) (\<lambda>_. any_journal) any_journal"
      if "runtime_ok ev" "re_boot_source ev = source_ram" for ob ev
      by (rule triple_weaken [OF log_event [where X = "{RamBootIntent ?sha}"]]) (use that in \<open>auto simp: journal_iff\<close>)
    have body: "triple (journal False {RamBootIntent ?sha})
         (andThen (store_get c (pt_payload (the (find (\<lambda>x. pt_kind x = Fit) (pn_patches p))))) (\<lambda>fit.
         andThen (dev (bk_ram_boot (rc_backend c) fit)) (\<lambda>ev.
         andThen (runtime_check c ev p source_ram) (\<lambda>_.
         andThen (dev pr) (\<lambda>_.
         andThen (dev (bk_return_to_sd (rc_backend c))) (\<lambda>_.
         andThen (fresh c p) (\<lambda>after. store_record c (RamBootVerified ?sha after ev)))))))) (\<lambda>_. journal False {}) any_journal"
      apply (rule triple_andThen [OF log_calm [of c]], (intro calm_intro; fail))
      apply (rule triple_andThen [OF log_dev])
      apply (rule triple_andThen [OF check])
      apply (rule triple_pure)
      apply (rule triple_andThen [OF log_dev])
      apply (rule triple_andThen [OF log_dev])
      apply (rule triple_andThen [OF log_calm [of c]], (intro calm_intro; fail))
      apply (rule verified; simp)
      done
    show ?thesis unfolding ram_session_def
      by (rule log_guarded [OF triple_andThen [OF intent log_interrupted [OF body]]])
  qed
  have "triple any_journal (ram_test_body c pr pb) (\<lambda>_. any_journal) any_journal"
    unfolding ram_test_body_def
    apply (rule triple_andThen [OF log_current])
    apply (rule triple_ex)+
    apply (rule triple_andThen [OF log_calm [of c]], (intro calm_intro; fail))
    apply (rule triple_andThen [OF log_dev])
    apply (rule triple_andThen [OF log_calm [of c]], (intro calm_intro; fail))
    apply (rule ram)
    done
  then show ?thesis unfolding ram_test_def by (intro log_guarded)
qed

lemma log_write_sector:
  assumes R: "R = RamBootVerified (plan_sha256 (rc_codec c) p) ob rt"
  shows "triple (journal False {R}) (write_sector c p current s expected) (\<lambda>_. journal False {R}) any_journal"
proof -
  define d where "d = \<lparr>dp_plan_sha256 = plan_sha256 (rc_codec c) p, dp_start = sc_start s, dp_size = sc_size s,
               dp_payload_sha256 = bl_sha256 (sc_after s)\<rparr>"
  have rec: "triple (journal False {R}) (store_record c (EraseIntent d)) (\<lambda>_. journal False {EraseIntent d, R}) any_journal"
    "triple (journal False {EraseIntent d, R}) (store_record c (EraseCompleted d)) (\<lambda>_. journal False {EraseCompleted d, EraseIntent d, R}) any_journal"
    "triple (journal False {EraseCompleted d, EraseIntent d, R}) (store_record c (ProgramIntent d))
       (\<lambda>_. journal False {ProgramIntent d, EraseCompleted d, EraseIntent d, R}) any_journal"
    "triple (journal False {ProgramIntent d, EraseCompleted d, EraseIntent d, R}) (store_record c (SectorVerified d))
       (\<lambda>_. journal False {SectorVerified d, ProgramIntent d, EraseCompleted d, EraseIntent d, R}) any_journal"
    by (rule log_event; use R in \<open>auto simp: d_def\<close>)+
  note calm = triple_andThen [OF log_calm [of c]]
  show ?thesis unfolding write_sector_def Let_def d_def [symmetric]
    by (rule calm, (intro calm_intro; fail), rule triple_andThen [OF log_dev], rule calm, (intro calm_intro; fail),
        rule calm, (intro calm_intro; fail), rule triple_andThen [OF rec(1)], rule triple_andThen [OF log_dev],
        rule triple_andThen [OF rec(2)], rule calm, (intro calm_intro; fail), rule calm, (intro calm_intro; fail),
        rule triple_andThen [OF rec(3)], rule triple_andThen [OF log_dev], rule calm, (intro calm_intro; fail),
        rule triple_andThen [OF rec(4)], rule triple_ret) (simp add: journal_iff)
qed

lemma log_execute: "triple any_journal (execute c confirmation) (\<lambda>_. any_journal) any_journal"
proof -
  note calm = triple_andThen [OF log_calm [of c]]
  have wp: "triple (journal False {R}) (write_plan c p current before) (\<lambda>_. any_journal) any_journal"
    if R: "R = RamBootVerified (plan_sha256 (rc_codec c) p) ob rt" for R p ob rt current before
  proof -
    let ?F = "FlashVerified (plan_sha256 (rc_codec c) p) (pn_expected p)"
    have fold: "triple (journal False {R}) (foldA (write_sector c p current) (pn_sectors p) before) (\<lambda>_. journal False {R}) any_journal"
      by (rule triple_foldA) (rule log_write_sector [OF R])
    have final: "triple (journal False {R}) (store_record c ?F) (\<lambda>_. journal False {?F, R}) any_journal"
      "triple (journal False {?F, R}) (store_record c (AwaitingColdBoot (plan_sha256 (rc_codec c) p)))
        (\<lambda>_. journal False {AwaitingColdBoot (plan_sha256 (rc_codec c) p), ?F, R}) any_journal"
      by (rule log_event; use R in auto)+
    have "triple (journal False {R}) (write_plan c p current before)
        (\<lambda>_. journal False {AwaitingColdBoot (plan_sha256 (rc_codec c) p), ?F, R}) any_journal"
      unfolding write_plan_def
      by (rule log_guarded, rule log_interrupted, rule triple_andThen [OF fold], rule calm, (intro calm_intro; fail),
          rule calm, (intro calm_intro; fail), rule calm, (intro calm_intro; fail), rule calm, (intro calm_intro; fail),
          rule triple_andThen [OF final(1)], rule final(2))
    then show ?thesis by (rule triple_weaken) (auto simp: journal_iff)
  qed
  have lat: "triple (journal n X) (latest c ram_boot_verified) (\<lambda>x w. \<exists>rt. journal False {RamBootVerified (fst x) (snd x) rt} w) any_journal"
    for n X
    by (rule triple_weaken [OF log_latest [where Y = "\<lambda>x. {ev. ram_boot_verified ev = Some x}"]])
      (auto simp: selected journal_iff)
  have "triple any_journal (execute_body c confirmation) (\<lambda>_. any_journal) any_journal"
    unfolding execute_body_def Let_def
  proof (rule triple_andThen [OF log_current], (rule triple_ex)+, rule calm, (intro calm_intro; fail), rule calm,
      (intro calm_intro; fail), rule triple_andThen [OF lat], rule triple_ex, rule triple_split)
    fix p :: plan and x and tested :: string and bound :: observation and rt
    assume "x = (tested, bound)"
    have stop: "triple (journal False {RamBootVerified tested bound rt}) (refuse (tested \<noteq> plan_sha256 (rc_codec c) p) e)
       (\<lambda>_ w. journal False {RamBootVerified tested bound rt} w \<and> tested = plan_sha256 (rc_codec c) p) any_journal" for e
      by (rule triple_refuse) (auto simp: journal_iff)
    show "triple (journal False {RamBootVerified (fst x) (snd x) rt})
        (andThen (refuse (tested \<noteq> plan_sha256 (rc_codec c) p)
            (rec_err ''ram_test_required'' ''RAM acceptance belongs to another plan'')) (\<lambda>_.
         andThen (fresh c p) (\<lambda>current.
         andThen (refuse (\<not> same_observation current bound)
           (rec_err ''plan_stale'' ''bootstrap epoch/evidence changed after RAM test'')) (\<lambda>_.
         andThen (store_get c (pn_current p)) (\<lambda>before. write_plan c p current before)))))
        (\<lambda>_. any_journal) any_journal"
      unfolding \<open>x = (tested, bound)\<close> fst_conv snd_conv
      by (rule triple_andThen [OF stop], rule triple_pure, rule calm, (intro calm_intro; fail), rule calm,
          (intro calm_intro; fail), rule calm, (intro calm_intro; fail), rule wp, simp)
  qed
  then show ?thesis unfolding execute_def by (intro log_guarded)
qed

lemma log_resume: "triple any_journal (resume c pb) (\<lambda>_. any_journal) any_journal"
proof -
  note calm = triple_andThen [OF log_calm [of c]]
  have save: "triple (journal False (insert P (insert (BackupVerified b ob) X))) (save_plan c q) (\<lambda>_. any_journal) any_journal"
    for P b ob X q by (rule log_drop [OF log_save_plan [of b ob X]]) auto
  have "triple any_journal (resume_body c pb) (\<lambda>_. any_journal) any_journal"
    unfolding resume_body_def Let_def
    by (rule triple_andThen [OF log_current], (rule triple_ex)+, rule triple_andThen [OF log_dev],
        rule calm, (intro calm_intro; fail), rule calm, (intro calm_intro; fail), rule calm, (intro calm_intro; fail),
        rule calm, (intro calm_intro; fail), rule calm, (intro calm_intro; fail), rule calm, (intro calm_intro; fail),
        rule calm, (intro calm_intro; fail), rule calm, (intro calm_intro; fail), rule triple_andThen [OF log_put],
        rule calm, (intro calm_intro; fail), rule triple_andThen [OF save], rule triple_ret)
  then show ?thesis unfolding resume_def by (intro log_guarded)
qed

lemma log_flash_verified:
  "triple (journal n X) (latest c flash_verified) (\<lambda>x w. \<exists>b. journal False {FlashVerified x b} w) any_journal"
  by (rule triple_weaken [OF log_latest [where Y = "\<lambda>x. {ev. flash_verified ev = Some x}"]])
    (auto simp: selected journal_iff)

lemma log_same_flash:
  "triple (journal False {FlashVerified x b}) (refuse (x \<noteq> sha) e) (\<lambda>_. journal False {FlashVerified sha b}) any_journal"
  by (rule triple_refuse) (auto simp: journal_iff)

lemma log_attest: "triple any_journal (attest c pb) (\<lambda>_. any_journal) any_journal"
proof -
  note calm = triple_andThen [OF log_calm [of c]]
  have radio: "triple (journal False {FlashVerified sha b}) (guarded c ''radio'' (
       andThen (dev pb) (\<lambda>_.
       andThen (dev (bk_attest_cold_boot (rc_backend c))) (\<lambda>ev.
       andThen (runtime_check c ev p source_qspi) (\<lambda>_.
       andThen (refuse (re_reset_cause ev \<noteq> power_on \<or> \<not> re_operator_power_off ev \<or> \<not> re_operator_sd_removed ev
           \<or> re_boot_epoch ev = on_boot_epoch (pn_observation p)) e) (\<lambda>_.
       andThen (store_record c (Recovered sha ev)) (\<lambda>_. ret ev))))))) (\<lambda>_. any_journal) any_journal" for sha b p e
  proof (rule log_guarded, rule triple_andThen [OF log_dev], rule triple_andThen [OF log_dev])
    fix ev :: return_evidence
    let ?J = "journal False {FlashVerified sha b}"
    let ?bad = "re_reset_cause ev \<noteq> power_on \<or> \<not> re_operator_power_off ev \<or> \<not> re_operator_sd_removed ev
           \<or> re_boot_epoch ev = on_boot_epoch (pn_observation p)"
    have check: "triple ?J (runtime_check c ev p source_qspi)
        (\<lambda>_ w. ?J w \<and> runtime_ok ev \<and> re_boot_source ev = source_qspi) any_journal"
      by (rule triple_value [OF log_calm [of c]], intro calm_intro)
        (auto simp: runtime_check_def andThen_Inr Let_def runtime_ok_def)
    have good: "triple ?J (refuse ?bad e) (\<lambda>_ w. ?J w \<and> \<not> ?bad) any_journal"
      by (rule triple_refuse) (auto simp: journal_iff)
    have rec: "triple ?J (store_record c (Recovered sha ev)) (\<lambda>_. any_journal) any_journal"
      if "runtime_ok ev \<and> re_boot_source ev = source_qspi" "\<not> ?bad"
      by (rule triple_weaken [OF log_event [where X = "{FlashVerified sha b}"]]) (use that in \<open>auto simp: journal_iff\<close>)
    show "triple ?J (andThen (runtime_check c ev p source_qspi) (\<lambda>_. andThen (refuse ?bad e) (\<lambda>_.
        andThen (store_record c (Recovered sha ev)) (\<lambda>_. ret ev)))) (\<lambda>_. any_journal) any_journal"
      by (rule triple_andThen [OF check], rule triple_pure, rule triple_andThen [OF good], rule triple_pure,
          rule triple_andThen [OF rec], assumption, assumption, rule triple_ret)
  qed
  have "triple any_journal (attest_body c pb) (\<lambda>_. any_journal) any_journal"
    unfolding attest_body_def Let_def
    by (rule triple_andThen [OF log_current], (rule triple_ex)+, rule calm, (intro calm_intro; fail),
        rule triple_andThen [OF log_flash_verified], rule triple_ex, rule triple_andThen [OF log_same_flash], rule radio)
  then show ?thesis unfolding attest_def by (intro log_guarded)
qed

lemma log_complete: "triple any_journal (complete_verified c) (\<lambda>_. any_journal) any_journal"
proof -
  note calm = triple_andThen [OF log_calm [of c]]
  have rec: "triple (journal False {FlashVerified sha b}) (store_record c (AwaitingColdBoot sha)) (\<lambda>_. any_journal) any_journal"
    for sha b by (rule triple_weaken [OF log_event [where X = "{FlashVerified sha b}"]]) (auto simp: journal_iff)
  have "triple any_journal (complete_verified_body c) (\<lambda>_. any_journal) any_journal"
    unfolding complete_verified_body_def Let_def
    by (rule calm, (intro calm_intro; fail), rule triple_andThen [OF log_current], (rule triple_ex)+,
        rule triple_andThen [OF log_flash_verified], rule triple_ex, rule triple_andThen [OF log_same_flash], rule rec)
  then show ?thesis unfolding complete_verified_def by (intro log_guarded)
qed

section \<open>Reachable worlds\<close>

text \<open>
  What can happen to a session: a procedure, with any operator callbacks and any ending, anything that
  happens to the device meanwhile, and an event of another kind recorded by the tools around it.
\<close>

inductive recovery_step :: "'d recovery \<Rightarrow> 'd world \<Rightarrow> 'd world \<Rightarrow> bool" for c where
  do_capture: "capture c pb w = (w1, r) \<Longrightarrow> recovery_step c w w1"
| do_plan: "make_plan c boot fit pv history w = (w1, r) \<Longrightarrow> recovery_step c w w1"
| do_ram_test: "ram_test c pr pb w = (w1, r) \<Longrightarrow> recovery_step c w w1"
| do_execute: "execute c confirmation w = (w1, r) \<Longrightarrow> recovery_step c w w1"
| do_resume: "resume c pb w = (w1, r) \<Longrightarrow> recovery_step c w w1"
| do_attest: "attest c pb w = (w1, r) \<Longrightarrow> recovery_step c w w1"
| do_complete: "complete_verified c w = (w1, r) \<Longrightarrow> recovery_step c w w1"
| device: "w1 = w\<lparr>wd_device := d\<rparr> \<Longrightarrow> recovery_step c w w1"
| other: "w1 = w\<lparr>wd_events := wd_events w @ [OtherEvent kind]\<rparr> \<Longrightarrow> recovery_step c w w1"

inductive reachable :: "'d recovery \<Rightarrow> 'd world \<Rightarrow> bool" for c where
  start: "wd_events w = [] \<Longrightarrow> reachable c w"
| step: "reachable c w \<Longrightarrow> recovery_step c w w1 \<Longrightarrow> reachable c w1"

lemma any_journal_ordered: "any_journal w \<longleftrightarrow> ordered (wd_events w)"
  by (simp add: journal_iff)

lemma triple_outcome: "triple P m (\<lambda>_. Q) Q \<Longrightarrow> P s \<Longrightarrow> m s = (s1, r) \<Longrightarrow> Q s1"
  unfolding triple_def by (cases r) fastforce+

lemma step_ordered: "recovery_step c w w1 \<Longrightarrow> ordered (wd_events w) \<Longrightarrow> ordered (wd_events w1)"
  unfolding any_journal_ordered [symmetric]
proof (induction rule: recovery_step.induct)
  case (device w1 w d)
  then show ?case by (simp add: journal_iff)
next
  case (other w1 w kind)
  then show ?case by (simp add: journal_iff)
qed (blast intro: triple_outcome [OF log_capture] triple_outcome [OF log_make_plan] triple_outcome [OF log_ram_test]
    triple_outcome [OF log_execute] triple_outcome [OF log_resume] triple_outcome [OF log_attest] triple_outcome [OF log_complete])+

lemma reachable_ordered: "reachable c w \<Longrightarrow> ordered (wd_events w)"
  by (induction rule: reachable.induct) (auto intro: step_ordered)

end
