(* ===== verification/Recovery_Properties.thy ===== *)
theory Recovery_Properties
  imports Recovery_Admission Recovery_Order
begin

text \<open>
  The properties of flash recovery, each applied to the session of \<open>Recovery_Bench\<close>.
\<close>

section \<open>The transport of the bench\<close>

lemma bench_quiet: "quiet bench_backend fst"
  by (simp add: quiet_def bench_backend_def)

lemma bench_truthful: "truthful bench_backend fst"
  by (simp add: truthful_def bench_backend_def)

lemma changed_only_overlay:
  "length p \<le> n \<Longrightarrow> changed_only a n fl (take (length fl) (overlay fl a p))"
  by (auto simp: changed_only_def overlay_def nth_append min_def split: if_splits)

lemma bench_confined: "confined bench_backend fst"
  unfolding confined_def by (auto simp: bench_backend_def intro!: changed_only_overlay)

lemma bench_device [simp]: "wd_device (bench_world fl staged evs) = (fl, staged)" "capacity bench_recovery = 132096"
  by (simp_all add: bench_world_def capacity_def)

lemma bench_hypotheses: "geometry_validate (pr_geometry (rc_profile bench_recovery)) = Inr ()"
    "collision_free (rc_codec bench_recovery)" "quiet (rc_backend bench_recovery) fst"
    "truthful (rc_backend bench_recovery) fst" "confined (rc_backend bench_recovery) fst"
  by (simp_all add: bench_geometry_ok bench_collision_free bench_quiet bench_truthful bench_confined)

section \<open>A successful execution\<close>

text \<open>
  C4: a recovery that reports success installed the image it was confirmed for. When \<open>execute\<close> returns,
  the flash holds, over its whole capacity, the image of the plan named by the journal and by the
  operator's confirmation: outside the three repaired regions it is the original backup, the boot
  region is the image with the historical digest, the FIT region starts with the pinned rollback FIT
  and the environment has its \<open>fit_size\<close>. The transport reads truthfully and changes the flash only
  when it erases or programs; SHA-256 has no collisions.
\<close>

theorem execute_installs_the_image:
  assumes "execute c confirmation w = (w1, Inr ())"
    and "geometry_validate (pr_geometry (rc_profile c)) = Inr ()" and "collision_free (rc_codec c)"
    and "quiet (rc_backend c) flash" and "truthful (rc_backend c) flash"
  shows "\<exists>p original boot fit. names_plan c w p
    \<and> confirmation = ''RECOVER '' @ se_session_id (rc_session c) @ '' '' @ plan_sha256 (rc_codec c) p
    \<and> bl_sha256 (pn_original p) = digest (rc_codec c) original
    \<and> digest (rc_codec c) fit = fc_sha256 (pr_rollback (rc_profile c))
    \<and> digest (rc_codec c) boot = pv_historical_boot_sha256 (pn_provenance p)
    \<and> bl_sha256 (pn_expected p) = digest (rc_codec c) (take (capacity c) (flash (wd_device w1)))
    \<and> repaired (rc_profile c) original boot fit (take (capacity c) (flash (wd_device w1)))"
proof -
  obtain p current where "names_plan c w p"
      "confirmation = ''RECOVER '' @ se_session_id (rc_session c) @ '' '' @ plan_sha256 (rc_codec c) p"
      and "plan_images (rc_codec c) (rc_profile c) p current (take (capacity c) (flash (wd_device w1)))"
    using execute_installs [OF assms] by blast
  then show ?thesis unfolding plan_images_def by blast
qed

theorem execute_installs_the_image_witness:
  "\<exists>p original boot fit. names_plan bench_recovery (bench_world bench_before [] bench_journal) p
    \<and> repaired bench_profile original boot fit (take 132096 bench_after)"
proof -
  let ?w = "bench_world bench_before [] bench_journal"
  have "execute bench_recovery (''RECOVER id '' @ bench_digest [1]) ?w = (bench_world bench_after bench_new bench_executed, Inr ())"
    by (rule bench_executes)
  from execute_installs_the_image [OF this bench_hypotheses(1-4)] show ?thesis
    by auto
qed

section \<open>Every execution\<close>

text \<open>
  C5: however an execution ends, it changed nothing it had not announced. Every byte that differs
  afterwards lies in a sector of the plan the journal named at the start, inside the boot, environment
  or FIT region and below the qualified write limit, and the journal holds an erase intent of that
  plan for exactly that sector, recorded by this execution. The transport may fail at any call, as long as \<open>erase\<close>
  and \<open>program\<close> stay inside the sector they are given and no other call changes the flash.
\<close>

theorem every_write_is_announced:
  assumes run: "execute c confirmation w = (w1, r)"
    and g: "geometry_validate (pr_geometry (rc_profile c)) = Inr ()" and inj: "collision_free (rc_codec c)"
    and q: "quiet (rc_backend c) flash" and k: "confined (rc_backend c) flash"
    and i: "i < length (flash (wd_device w))" "flash (wd_device w1) ! i \<noteq> flash (wd_device w) ! i"
  shows "\<exists>p d x rg new. names_plan c w p \<and> wd_events w1 = wd_events w @ new \<and> EraseIntent d \<in> set new
    \<and> dp_plan_sha256 d = plan_sha256 (rc_codec c) p \<and> dp_start d \<le> i \<and> i < dp_start d + dp_size d
    \<and> x \<in> set (pn_sectors p) \<and> sc_start x = dp_start d \<and> sc_size x = dp_size d
    \<and> dp_start d + dp_size d \<le> pr_write_limit (rc_profile c)
    \<and> rg \<in> set (ge_regions (pr_geometry (rc_profile c))) \<and> rg_name rg \<in> {''boot'', ''environment'', ''fit''}
    \<and> rg_start rg \<le> dp_start d \<and> dp_start d + dp_size d \<le> rg_end rg"
proof -
  have "in_world flash (tracked c flash w {}) w1"
    by (rule triple_outcome [OF triple_execute [OF q k g inj] _ run]) simp
  then obtain new where new: "wd_events w1 = wd_events w @ new" "journaled c w new i"
    using i by (auto simp: in_world_def tracked_def)
  then obtain d p where d: "EraseIntent d \<in> set new" "dp_start d \<le> i" "i < dp_start d + dp_size d"
    and p: "names_plan c w p" "justified c p" "dp_plan_sha256 d = plan_sha256 (rc_codec c) p"
      "(dp_start d, dp_size d) \<in> footprint ` set (pn_sectors p)"
    by (auto simp: journaled_def own_def)
  then obtain x where x: "x \<in> set (pn_sectors p)" "dp_start d = sc_start x" "dp_size d = sc_size x"
    by (auto simp: footprint_def)
  obtain rg img where "rg \<in> set (ge_regions (pr_geometry (rc_profile c)))" "rg_name rg \<in> repair_names"
    "sector_of (rc_codec c) (rc_profile c) rg img x"
    using p(2) x(1) by (auto simp: justified_def plan_images_def)
  then show ?thesis using new(1) d p x unfolding sector_of_def by (metis (no_types, lifting))
qed

lemma bench_named:
  "names_plan bench_recovery (bench_world bench_before staged bench_journal) bench_plan"
  "plan_images bench_codec bench_profile bench_plan bench_before bench_after"
proof -
  let ?w = "bench_world bench_before staged bench_journal"
  note cur = current_plan_facts [OF bench_current [of bench_before staged] bench_hypotheses(1,2)]
  show "names_plan bench_recovery ?w bench_plan" by (rule cur(1))
  obtain current img where pi: "plan_images bench_codec bench_profile bench_plan current img" using cur(3) by auto
  then have "current = bench_before" "img = bench_after" by (simp_all add: plan_images_def)
  then show "plan_images bench_codec bench_profile bench_plan bench_before bench_after" using pi by simp
qed

lemma bench_change: "\<exists>i < 132096. bench_after ! i \<noteq> bench_before ! i"
proof (rule ccontr)
  assume "\<not> ?thesis"
  then have "bench_after = bench_before" by (intro nth_equalityI) auto
  then show False by simp
qed

theorem every_write_is_announced_witness:
  "\<exists>d. EraseIntent d \<in> set bench_executed \<and> dp_plan_sha256 d = plan_sha256 bench_codec bench_plan
     \<and> dp_start d = sc_start bench_sector \<and> dp_size d = sc_size bench_sector \<and> dp_start d + dp_size d \<le> 132096"
proof -
  let ?w = "bench_world bench_before [] bench_journal"
  obtain i where i: "i < 132096" "bench_after ! i \<noteq> bench_before ! i" using bench_change by blast
  have "execute bench_recovery (''RECOVER id '' @ bench_digest [1]) ?w = (bench_world bench_after bench_new bench_executed, Inr ())"
    by (rule bench_executes)
  from every_write_is_announced [OF this bench_hypotheses(1-3,5), of i] i
  obtain p d x new where p: "names_plan bench_recovery ?w p" and d: "bench_executed = bench_journal @ new" "EraseIntent d \<in> set new"
    "dp_plan_sha256 d = plan_sha256 bench_codec p" "dp_start d + dp_size d \<le> 132096"
    and x: "x \<in> set (pn_sectors p)" "sc_start x = dp_start d" "sc_size x = dp_size d"
    by auto
  have "p = bench_plan" using names_plan_unique [OF bench_named(1)] p by blast
  moreover from this x(1) have "x = bench_sector" by (simp add: bench_plan_def)
  moreover from d(1,2) have "EraseIntent d \<in> set bench_executed" by (metis UnCI set_append)
  ultimately show ?thesis using d x by metis
qed

section \<open>Resuming\<close>

lemma dispatched_own:
  assumes "\<forall>ev \<in> set new. \<forall>d. dispatched ev = Some d \<longrightarrow> own c w d" and p: "names_plan c w p"
    and old: "\<forall>ev \<in> set (wd_events w). \<forall>d. dispatched ev = Some d \<longrightarrow> dp_plan_sha256 d \<noteq> plan_sha256 (rc_codec c) p"
    and s: "s \<in> set (dispatched_spans (plan_sha256 (rc_codec c) p) (wd_events w @ new))"
  shows "s \<in> footprint ` set (pn_sectors p)"
proof -
  obtain ev d where "ev \<in> set (wd_events w @ new)" "dispatched ev = Some d" "dp_plan_sha256 d = plan_sha256 (rc_codec c) p"
    and d: "s = (dp_start d, dp_size d)"
    using s by (fastforce simp: dispatched_spans_def plan_intents_def List.map_filter_def)
  then have "own c w d" using assms(1) old by auto
  then show ?thesis using names_plan_unique [OF p] d by (auto simp: own_def)
qed

text \<open>
  C6: an interrupted execution can always be reconciled. Whatever the transport did when a first
  execution of a plan was cut off, the two checks of \<open>resume\<close> hold afterwards: every footprint the
  journal dispatched for the plan is one of its sectors, and restoring those footprints gives back
  exactly the image the plan started from. The sectors \<open>resume\<close> would keep cover every byte that still
  differs from the image of the plan.
\<close>

theorem interrupted_execution_reconciles:
  assumes run: "execute c confirmation w = (w1, r)"
    and g: "geometry_validate (pr_geometry (rc_profile c)) = Inr ()" and inj: "collision_free (rc_codec c)"
    and q: "quiet (rc_backend c) flash" and k: "confined (rc_backend c) flash"
    and p: "names_plan c w p" and pi: "plan_images (rc_codec c) (rc_profile c) p before img"
    and now: "take (capacity c) (flash (wd_device w)) = before"
    and first: "\<forall>ev \<in> set (wd_events w). \<forall>d. dispatched ev = Some d \<longrightarrow> dp_plan_sha256 d \<noteq> plan_sha256 (rc_codec c) p"
  shows "let data = take (capacity c) (flash (wd_device w1));
             spans = dispatched_spans (plan_sha256 (rc_codec c) p) (wd_events w1) in
      list_all (\<lambda>x. x \<in> footprint ` set (pn_sectors p)) spans
      \<and> restore_spans spans before data = before
      \<and> (\<forall>i < capacity c. data ! i \<noteq> img ! i \<longrightarrow>
           (\<exists>x \<in> set (remaining_sectors (rc_codec c) data img (pn_sectors p)). covers x i))"
proof -
  define data where "data = take (capacity c) (flash (wd_device w1))"
  define spans where "spans = dispatched_spans (plan_sha256 (rc_codec c) p) (wd_events w1)"
  have "in_world flash (tracked c flash w {}) w1"
    by (rule triple_outcome [OF triple_execute [OF q k g inj] _ run]) simp
  then obtain new where new: "wd_events w1 = wd_events w @ new"
      "\<forall>ev \<in> set new. \<forall>d. dispatched ev = Some d \<longrightarrow> own c w d"
      "length (flash (wd_device w1)) = length (flash (wd_device w))"
    and j: "\<forall>i < length (flash (wd_device w1)). flash (wd_device w1) ! i \<noteq> flash (wd_device w) ! i \<longrightarrow> journaled c w new i"
    by (auto simp: in_world_def tracked_def)
  have cap: "length before = capacity c" "length img = capacity c" using pi by (simp_all add: plan_images_def capacity_def)
  then have len: "length data = capacity c" "capacity c \<le> length (flash (wd_device w1))"
    using now new(3) by (auto simp: data_def)
  have S: "s \<in> footprint ` set (pn_sectors p)" if "s \<in> set spans" for s
    using dispatched_own [OF new(2) p first] that new(1) by (simp add: spans_def)
  have inside: "\<forall>(a, n) \<in> set spans. a + n \<le> length data"
  proof safe
    fix a n assume "(a, n) \<in> set spans"
    then obtain x where x: "x \<in> set (pn_sectors p)" "a = sc_start x" "n = sc_size x" using S by (force simp: footprint_def)
    then obtain rg where "rg \<in> set (ge_regions (pr_geometry (rc_profile c)))" "sector_of (rc_codec c) (rc_profile c) rg img x"
      using pi by (auto simp: plan_images_def)
    then show "a + n \<le> length data" using sector_of_bounds [OF g] x len(1) by (simp add: capacity_def)
  qed
  have same: "data ! i = before ! i" if i: "i < length data" and out: "\<not> in_spans spans i" for i
  proof (rule ccontr)
    assume "data ! i \<noteq> before ! i"
    then have "flash (wd_device w1) ! i \<noteq> flash (wd_device w) ! i" using i now len(1) by (auto simp: data_def)
    then have "journaled c w new i" using j i len by simp
    then obtain d where d: "EraseIntent d \<in> set new" "own c w d" "dp_start d \<le> i" "i < dp_start d + dp_size d"
      by (auto simp: journaled_def)
    moreover have "dp_plan_sha256 d = plan_sha256 (rc_codec c) p" using d(2) names_plan_unique [OF p] by (auto simp: own_def)
    ultimately have "(dp_start d, dp_size d) \<in> set spans"
      by (force simp: spans_def new(1) dispatched_spans_def plan_intents_def List.map_filter_def)
    then show False using out d(3,4) by (auto simp: in_spans_def)
  qed
  have "restore_spans spans before data = before"
    using restore_spans_eq [OF _ inside, of before] cap(1) len(1) same by simp
  moreover have "\<exists>x \<in> set (remaining_sectors (rc_codec c) data img (pn_sectors p)). covers x i"
    if i: "i < capacity c" and d: "data ! i \<noteq> img ! i" for i
  proof -
    have "\<exists>x \<in> set (pn_sectors p). covers x i"
    proof (cases "in_spans spans i")
      case True
      then obtain s where s: "s \<in> set spans" "fst s \<le> i" "i < fst s + snd s" by (auto simp: in_spans_def)
      then obtain x where "x \<in> set (pn_sectors p)" "s = footprint x" using S by blast
      then show ?thesis using s by (auto simp: footprint_def covers_def)
    next
      case False
      then show ?thesis using same [of i] i d len(1) cap pi by (auto simp: plan_images_def)
    qed
    then obtain x where x: "x \<in> set (pn_sectors p)" "covers x i" by blast
    then have "slice (sc_start x) (sc_start x + sc_size x) data \<noteq> slice (sc_start x) (sc_start x + sc_size x) img"
      using slice_nth_eq [of "sc_start x" "sc_start x + sc_size x" data img i] i d len(1) cap(2) by (auto simp: covers_def)
    then show ?thesis using x by (force simp: remaining_sectors_def covers_def)
  qed
  moreover have "list_all (\<lambda>x. x \<in> footprint ` set (pn_sectors p)) spans" using S by (simp add: list_all_iff)
  ultimately show ?thesis unfolding data_def [symmetric] spans_def [symmetric] Let_def by blast
qed

theorem interrupted_execution_reconciles_witness:
  "restore_spans (dispatched_spans (bench_digest [1]) bench_executed) bench_before bench_after = bench_before"
proof -
  let ?w = "bench_world bench_before [] bench_journal"
  have "execute bench_recovery (''RECOVER id '' @ bench_digest [1]) ?w = (bench_world bench_after bench_new bench_executed, Inr ())"
    by (rule bench_executes)
  from interrupted_execution_reconciles [OF this bench_hypotheses(1-3,5) bench_named(1), of bench_before bench_after]
  show ?thesis using bench_named(2) by (simp add: Let_def) (simp add: bench_journal_def)
qed

section \<open>The journal\<close>

text \<open>
  C7: the journal of a session tells a lawful story. In every journal a session can reach, by any
  sequence of captures, plans, RAM tests, executions, resumptions and attestations, each ended at any
  point, with anything happening to the device in between: no sector is erased before the RAM boot of
  the same plan was verified with all services up; an erase completes, a sector is programmed and verified only after the
  event before it; a plan is ready only after the original backup was verified, which happens once;
  and \<open>recovered\<close> needs a verified flash and a cold boot from QSPI with the operator's two
  confirmations.
\<close>

theorem journal_is_lawful:
  assumes "reachable c w" and "wd_events w = before @ ev # after"
  shows "supported (set before) ev"
  using reachable_ordered [OF assms(1)] assms(2) by (auto simp: ordered_def)

text \<open>The whole session of the bench, from an empty journal.\<close>

lemma bench_reachable: "reachable bench_recovery (bench_world bench_after bench_new bench_executed)"
proof -
  have "reachable bench_recovery (bench_world bench_before [] [])" by (rule start) simp
  then have "reachable bench_recovery (bench_world bench_before [] (take 3 bench_journal))"
    using do_capture [OF bench_captures] by (rule step)
  then have "reachable bench_recovery (bench_world bench_before [] (take 4 bench_journal))"
    using do_plan [OF bench_plans] by (rule step)
  then have "reachable bench_recovery (bench_world bench_before [] bench_journal)"
    using do_ram_test [OF bench_tests] by (rule step)
  then show ?thesis using do_execute [OF bench_executes] by (rule step)
qed

theorem journal_is_lawful_witness: "supported (set bench_journal) (EraseIntent bench_dispatch)"
  by (rule journal_is_lawful [OF bench_reachable]) (simp add: bench_executed_def)

section \<open>FIT images\<close>

text \<open>
  C8: the device-tree parser always returns: on every byte string \<open>nodes\<close> ends its token loop with a
  tree or with an exception.
\<close>

theorem fit_parser_terminates: "\<exists>r. fdt_nodes data = Some r"
  by (rule fdt_nodes_returns)



end
