(* ===== verification/Counter_Utc.thy ===== *)
theory Counter_Utc
  imports Text
begin

text \<open>
  \<open>counter_utc.py\<close>: counter/UTC evidence. The SCANTIME wire records, the evidence models with their
  validators, the UTC interval of a sample counter, and the qualification of a whole capture. A
  Python \<open>Fraction\<close> is a \<open>rat\<close>; Pydantic's \<open>ValidationError\<close> is a \<open>ValueError\<close>; of a message built
  from several strings only the constant part is kept.
\<close>

section \<open>Wire records\<close>

definition UNKNOWN_AGE :: int where
  "UNKNOWN_AGE = 2 ^ 64 - 1"

record counter_observation =
  co_request :: int
  co_session :: int
  co_generation :: int
  co_boot_id :: string
  co_epoch :: int
  co_counter :: int
  co_device_before_ns :: int
  co_device_after_ns :: int
  co_sample_rate_hz :: int
  co_maximum_snapshot_age_ns :: int

definition utc_uint :: "int \<Rightarrow> bool" where
  "utc_uint n \<longleftrightarrow> 0 \<le> n \<and> n < 2 ^ 64"

definition counter_observation_validate :: "counter_observation \<Rightarrow> unit result" where
  "counter_observation_validate o1 = checks
     [(\<not> (0 < co_request o1 \<and> 0 < co_session o1 \<and> 0 < co_generation o1 \<and> 0 < co_epoch o1), ValueError ''positive''),
      (length (co_boot_id o1) \<noteq> 32 \<or> \<not> list_all lower_hex (co_boot_id o1), ValueError ''boot_id''),
      (\<not> (utc_uint (co_counter o1) \<and> utc_uint (co_device_before_ns o1) \<and> utc_uint (co_device_after_ns o1)
          \<and> utc_uint (co_maximum_snapshot_age_ns o1)), ValueError ''uint64''),
      (\<not> (520833 \<le> co_sample_rate_hz o1 \<and> co_sample_rate_hz o1 \<le> 61440000), ValueError ''sample_rate_hz''),
      (co_device_after_ns o1 < co_device_before_ns o1 \<or> hex_value (co_boot_id o1) = 0,
       ValueError ''invalid counter observation identity or clock interval'')]"

text \<open>\<open>bytes.hex()\<close>.\<close>

definition hex_char_lower :: "nat \<Rightarrow> char" where
  "hex_char_lower n = char_of (if n < 10 then 48 + n else 87 + n)"

definition hex_of_bytes :: "bytes \<Rightarrow> string" where
  "hex_of_bytes bs = concat (map (\<lambda>b. [hex_char_lower (unat b div 16), hex_char_lower (unat b mod 16)]) bs)"

definition scantime_header_fmt :: "field list" where
  "scantime_header_fmt = [FRaw 4, FU 2, FU 2, FU 4, FU 4]"

definition scantime_header :: "string \<Rightarrow> int \<Rightarrow> val list" where
  "scantime_header magic n = [VBytes (ascii_bytes magic), VInt 1, VInt n, VInt 255, VInt 1]"

definition counter_observation_unpack :: "bytes \<Rightarrow> counter_observation result" where
  "counter_observation_unpack wire =
     bindE (checks [(length wire \<noteq> 128, ValueError ''SCANTIME response size mismatch'')]) (\<lambda>_.
     bindE (struct_unpack_from scantime_header_fmt wire 0) (\<lambda>header.
     bindE (checks [(header \<noteq> scantime_header ''SPTA'' 128, ValueError ''SCANTIME response header mismatch'')]) (\<lambda>_.
     bindE (struct_unpack_from [FU 4] wire 124) (\<lambda>crc.
     bindE (checks [(crc32 (take 124 wire) \<noteq> int_at crc 0, ValueError ''SCANTIME response CRC mismatch'')]) (\<lambda>_.
     bindE (struct_unpack_from [FU 4] wire 92) (\<lambda>width.
     bindE (checks [(list_ex (\<lambda>b. b \<noteq> 0) (slice 104 124 wire) \<or> int_at width 0 \<noteq> 64,
                     ValueError ''SCANTIME response reserved fields or counter width'')]) (\<lambda>_.
     bindE (struct_unpack_from [FU 8, FU 8, FU 8] wire 16) (\<lambda>ids.
     bindE (struct_unpack_from [FU 8, FU 8, FU 8, FU 8, FU 4, FU 4, FU 8] wire 56) (\<lambda>vs.
     let o1 = \<lparr>co_request = int_at ids 0, co_session = int_at ids 1, co_generation = int_at ids 2,
               co_boot_id = hex_of_bytes (slice 40 56 wire), co_epoch = int_at vs 0, co_counter = int_at vs 1,
               co_device_before_ns = int_at vs 2, co_device_after_ns = int_at vs 3, co_sample_rate_hz = int_at vs 4,
               co_maximum_snapshot_age_ns = int_at vs 6\<rparr> in
     bindE (counter_observation_validate o1) (\<lambda>_. Inr o1))))))))))"

definition pack_query :: "int \<Rightarrow> int \<Rightarrow> int \<Rightarrow> bytes result" where
  "pack_query request sid generation =
     bindE (checks [(list_ex (\<lambda>x. \<not> (0 < x \<and> x < 2 ^ 64)) [request, sid, generation],
                     ValueError ''SCANTIME query identity must contain nonzero uint64 values'')]) (\<lambda>_.
     bindE (struct_pack (scantime_header_fmt @ [FU 8, FU 8, FU 8, FU 4])
              (scantime_header ''SPTQ'' 48 @ [VInt request, VInt sid, VInt generation, VInt 0])) (\<lambda>wire.
     bindE (struct_pack [FU 4] [VInt (crc32 wire)]) (\<lambda>crc. Inr (wire @ crc))))"

section \<open>Evidence\<close>

record host_clock =
  hk_monotonic_before_ns :: int
  hk_realtime_ns :: int
  hk_monotonic_after_ns :: int
  hk_source :: string
  hk_utc_error_bound_ns :: "int option"
  hk_reason :: string
  hk_tracking_csv :: "string option"

definition nonnegative :: "int option \<Rightarrow> bool" where
  "nonnegative x \<longleftrightarrow> (case x of None \<Rightarrow> True | Some n \<Rightarrow> 0 \<le> n)"

definition host_clock_validate :: "host_clock \<Rightarrow> unit result" where
  "host_clock_validate c = checks
     [(\<not> (utc_uint (hk_monotonic_before_ns c) \<and> utc_uint (hk_monotonic_after_ns c)), ValueError ''uint64''),
      (\<not> 0 < hk_realtime_ns c \<or> \<not> nonnegative (hk_utc_error_bound_ns c), ValueError ''bounds''),
      (hk_monotonic_after_ns c < hk_monotonic_before_ns c, ValueError ''host clock interval regressed'')]"

definition clock_offset :: "host_clock \<Rightarrow> int" where
  "clock_offset c = hk_realtime_ns c - (hk_monotonic_before_ns c + hk_monotonic_after_ns c) div 2"

record counter_anchor =
  an_observation :: counter_observation
  an_send_monotonic_ns :: int
  an_receive_monotonic_ns :: int
  an_clock_before :: host_clock
  an_clock_after :: host_clock

definition counter_anchor_validate :: "counter_anchor \<Rightarrow> unit result" where
  "counter_anchor_validate a =
     bindE (counter_observation_validate (an_observation a)) (\<lambda>_.
     bindE (host_clock_validate (an_clock_before a)) (\<lambda>_.
     bindE (host_clock_validate (an_clock_after a)) (\<lambda>_. checks
       [(\<not> (utc_uint (an_send_monotonic_ns a) \<and> utc_uint (an_receive_monotonic_ns a)), ValueError ''uint64''),
        (\<not> (hk_monotonic_after_ns (an_clock_before a) \<le> an_send_monotonic_ns a
            \<and> an_send_monotonic_ns a \<le> an_receive_monotonic_ns a
            \<and> an_receive_monotonic_ns a \<le> hk_monotonic_before_ns (an_clock_after a)),
         ValueError ''counter query is not bracketed by host clock evidence''),
        (co_device_after_ns (an_observation a) - co_device_before_ns (an_observation a)
           > an_receive_monotonic_ns a - an_send_monotonic_ns a + 1000000,
         ValueError ''device observation interval exceeds host transaction'')])))"

record timing_policy =
  tp_maximum_error_ns :: int
  tp_maximum_query_width_ns :: int
  tp_maximum_anchor_gap_ns :: int
  tp_maximum_clock_step_ns :: int
  tp_calibration_reference :: "string option"
  tp_calibration_radio_serial :: "string option"
  tp_calibration_boot_id :: "string option"
  tp_maximum_rate_error_ppm :: "int option"
  tp_maximum_snapshot_age_ns :: "int option"
  tp_maximum_acquisition_delay_ns :: "int option"

definition timing_policy_validate :: "timing_policy \<Rightarrow> unit result" where
  "timing_policy_validate p = checks
     [(tp_maximum_error_ns p \<noteq> 100000000 \<or> tp_maximum_query_width_ns p \<noteq> 50000000, ValueError ''literal''),
      (\<not> (0 < tp_maximum_anchor_gap_ns p \<and> 0 < tp_maximum_clock_step_ns p), ValueError ''positive''),
      (\<not> nonnegative (tp_maximum_rate_error_ppm p)
         \<or> (case tp_maximum_rate_error_ppm p of None \<Rightarrow> False | Some n \<Rightarrow> 1000000 \<le> n), ValueError ''ppm''),
      (\<not> (nonnegative (tp_maximum_snapshot_age_ns p) \<and> nonnegative (tp_maximum_acquisition_delay_ns p)),
       ValueError ''nonnegative'')]"

record utc_evidence =
  ue_session :: int
  ue_generation :: int
  ue_radio_serial :: string
  ue_policy :: timing_policy
  ue_anchors :: "counter_anchor list"
  ue_errors :: "string list"

definition utc_evidence_validate :: "utc_evidence \<Rightarrow> unit result" where
  "utc_evidence_validate e =
     bindE (checks [(\<not> (0 < ue_session e \<and> 0 < ue_generation e), ValueError ''positive'')]) (\<lambda>_.
     bindE (timing_policy_validate (ue_policy e)) (\<lambda>_.
     bindE (mapE counter_anchor_validate (ue_anchors e)) (\<lambda>_. Inr ())))"

section \<open>The interval of a counter\<close>

definition snapshot_age :: "utc_evidence \<Rightarrow> counter_anchor \<Rightarrow> int result" where
  "snapshot_age e a =
     (let age = co_maximum_snapshot_age_ns (an_observation a) in
      case (if age = UNKNOWN_AGE then tp_maximum_snapshot_age_ns (ue_policy e) else Some age) of
        None \<Rightarrow> Inl (ValueError ''counter snapshot age is not bounded'')
      | Some n \<Rightarrow> Inr n)"

definition anchor_clocks :: "counter_anchor \<Rightarrow> host_clock list" where
  "anchor_clocks a = [an_clock_before a, an_clock_after a]"

text \<open>\<open>int(c.utc_error_bound_ns or 0)\<close>.\<close>

definition clock_bound :: "host_clock \<Rightarrow> int" where
  "clock_bound c = (case hk_utc_error_bound_ns c of None \<Rightarrow> 0 | Some n \<Rightarrow> n)"

definition earliest_offset :: "counter_anchor \<Rightarrow> int" where
  "earliest_offset a =
     Min (set (map (\<lambda>c. hk_realtime_ns c - hk_monotonic_after_ns c - clock_bound c) (anchor_clocks a)))"

definition latest_offset :: "counter_anchor \<Rightarrow> int" where
  "latest_offset a =
     Max (set (map (\<lambda>c. hk_realtime_ns c - hk_monotonic_before_ns c + clock_bound c) (anchor_clocks a)))"

definition durations :: "int \<Rightarrow> int \<Rightarrow> int \<Rightarrow> rat list" where
  "durations delta rate ppm =
     map (\<lambda>sign. of_int (delta * 10 ^ 15) / of_int (rate * (1000000 + sign * ppm))) [-1, 1]"

definition anchor_interval ::
    "utc_evidence \<Rightarrow> int \<Rightarrow> int \<Rightarrow> int \<Rightarrow> counter_anchor \<Rightarrow> (int \<times> int) result" where
  "anchor_interval e ppm delay counter a =
     bindE (checks [(list_ex (\<lambda>c. hk_utc_error_bound_ns c = None) (anchor_clocks a),
                     ValueError ''host UTC source is unqualified'')]) (\<lambda>_.
     let ds = durations (counter - co_counter (an_observation a)) (co_sample_rate_hz (an_observation a)) ppm;
         lo = floor (Min (set ds)); hi = ceiling (Max (set ds)) in
     bindE (snapshot_age e a) (\<lambda>age. Inr
       (an_send_monotonic_ns a + earliest_offset a - age + lo - delay,
        an_receive_monotonic_ns a + latest_offset a + hi + delay)))"

definition utc_interval :: "utc_evidence \<Rightarrow> int \<Rightarrow> (int \<times> int) result" where
  "utc_interval e counter =
     (case (tp_maximum_rate_error_ppm (ue_policy e), tp_maximum_acquisition_delay_ns (ue_policy e), ue_anchors e) of
        (Some ppm, Some delay, a # anchors) \<Rightarrow>
          bindE (mapE (anchor_interval e ppm delay counter) (a # anchors)) (\<lambda>intervals.
          let earliest = Max (set (map fst intervals)); latest = Min (set (map snd intervals)) in
          if earliest > latest then Inl (ValueError ''counter/UTC observations have contradictory intervals'')
          else Inr (earliest, latest))
      | _ \<Rightarrow> Inl (ValueError ''sample clock/acquisition bounds or anchors are missing''))"

section \<open>Qualification of a capture\<close>

definition anchor_checks ::
    "utc_evidence \<Rightarrow> counter_observation \<Rightarrow> int \<Rightarrow> counter_anchor option \<Rightarrow> counter_anchor \<Rightarrow> (bool \<times> exn) list" where
  "anchor_checks e origin rate previous a =
     (let o1 = an_observation a in
      [((co_session o1, co_generation o1, co_sample_rate_hz o1) \<noteq> (ue_session e, ue_generation e, rate),
        ValueError ''counter observation does not bind this capture''),
       ((co_boot_id o1, co_epoch o1) \<noteq> (co_boot_id origin, co_epoch origin), ValueError ''counter clock epoch changed'')]
      @ (case previous of None \<Rightarrow> [] | Some previous1 \<Rightarrow>
          let p = an_observation previous1 in
          [(co_request o1 \<le> co_request p \<or> co_counter o1 \<le> co_counter p,
            ValueError ''counter observation is stale or regressed''),
           (co_device_before_ns o1 < co_device_after_ns p, ValueError ''device monotonic clock regressed''),
           (an_receive_monotonic_ns a - an_send_monotonic_ns previous1 > tp_maximum_anchor_gap_ns (ue_policy e),
            ValueError ''counter observation gap exceeded policy'')])
      @ [(an_receive_monotonic_ns a - an_send_monotonic_ns a > tp_maximum_query_width_ns (ue_policy e),
          ValueError ''counter query interval exceeded policy'')])"

fun check_anchors ::
    "utc_evidence \<Rightarrow> counter_observation \<Rightarrow> int \<Rightarrow> counter_anchor option \<Rightarrow> counter_anchor list \<Rightarrow> unit result" where
  "check_anchors e origin rate previous [] = Inr ()"
| "check_anchors e origin rate previous (a # anchors) =
     bindE (checks (anchor_checks e origin rate previous a)) (\<lambda>_.
     bindE (utc_interval e (co_counter (an_observation a))) (\<lambda>_.
       check_anchors e origin rate (Some a) anchors))"

definition clock_offsets :: "counter_anchor list \<Rightarrow> int list" where
  "clock_offsets anchors = concat (map (\<lambda>a. [clock_offset (an_clock_before a), clock_offset (an_clock_after a)]) anchors)"

definition policy_ppm :: "utc_evidence \<Rightarrow> int" where
  "policy_ppm e = (case tp_maximum_rate_error_ppm (ue_policy e) of None \<Rightarrow> 0 | Some n \<Rightarrow> n)"

definition capture_drift :: "int \<Rightarrow> int \<Rightarrow> int \<Rightarrow> int \<Rightarrow> int" where
  "capture_drift first final rate ppm =
     ceiling (of_int ((final - first) * 10 ^ 15 * ppm) / of_int (rate * 1000000 * (1000000 - ppm)) :: rat)"

definition capture_error :: "utc_evidence \<Rightarrow> int \<Rightarrow> int \<Rightarrow> int \<Rightarrow> int result" where
  "capture_error e first final rate =
     bindE (checks
       [(ue_errors e \<noteq> [], ValueError ''timing collection reported errors''),
        (\<not> (0 \<le> first \<and> first \<le> final \<and> final < 2 ^ 64), ValueError ''capture counter interval is invalid''),
        (tp_calibration_reference (ue_policy e) \<in> {None, Some []},
         ValueError ''hardware timing bounds lack a calibration reference''),
        (ue_anchors e = [], ValueError ''no counter observations'')]) (\<lambda>_.
     let origin = an_observation (hd (ue_anchors e)); offsets = clock_offsets (ue_anchors e) in
     bindE (checks
       [((tp_calibration_radio_serial (ue_policy e), tp_calibration_boot_id (ue_policy e))
           \<noteq> (Some (ue_radio_serial e), Some (co_boot_id origin)),
         ValueError ''hardware calibration does not bind this radio boot'')]) (\<lambda>_.
     bindE (check_anchors e origin rate None (ue_anchors e)) (\<lambda>_.
     let margin = tp_maximum_anchor_gap_ns (ue_policy e) * rate div 1000000000 in
     bindE (checks
       [(Max (set offsets) - Min (set offsets) > tp_maximum_clock_step_ns (ue_policy e),
         ValueError ''host realtime/monotonic mapping changed''),
        (\<bar>co_counter origin - first\<bar> > margin
           \<or> \<bar>co_counter (an_observation (last (ue_anchors e))) - final\<bar> > margin,
         ValueError ''counter anchors do not cover capture endpoints'')]) (\<lambda>_.
     bindE (utc_interval e first) (\<lambda>(lo, hi).
     bindE (utc_interval e final) (\<lambda>_.
     let worst = (hi - lo + 1) div 2 + capture_drift first final rate (policy_ppm e) in
     bindE (checks
       [(worst > tp_maximum_error_ns (ue_policy e), ValueError ''whole-capture UTC uncertainty exceeded policy'')]) (\<lambda>_.
     Inr worst)))))))"

text \<open>\<open>qualification\<close>: the exception is the second component of the answer.\<close>

definition qualification :: "utc_evidence \<Rightarrow> int \<Rightarrow> int \<Rightarrow> int \<Rightarrow> bool \<times> exn option \<times> int option" where
  "qualification e first final rate =
     (case capture_error e first final rate of
        Inr worst \<Rightarrow> (True, None, Some worst)
      | Inl err \<Rightarrow> (False, Some err, None))"

section \<open>What the evidence says when it is true\<close>

text \<open>
  The world the evidence is about: \<open>utc m\<close> is UTC at host-monotonic time \<open>m\<close>, \<open>conv k\<close> the UTC instant
  sample \<open>k\<close> was converted, \<open>air k\<close> the instant it arrived at the antenna; all in nanoseconds.
\<close>

definition clock_true :: "(real \<Rightarrow> real) \<Rightarrow> host_clock \<Rightarrow> real \<Rightarrow> bool" where
  "clock_true utc c m \<longleftrightarrow> of_int (hk_monotonic_before_ns c) \<le> m \<and> m \<le> of_int (hk_monotonic_after_ns c)
     \<and> \<bar>utc m - of_int (hk_realtime_ns c)\<bar> \<le> of_int (clock_bound c)"

text \<open>Between its two clock readings the host clock is slewed monotonically.\<close>

definition anchor_true :: "(real \<Rightarrow> real) \<Rightarrow> (int \<Rightarrow> real) \<Rightarrow> int \<Rightarrow> counter_anchor \<Rightarrow> bool" where
  "anchor_true utc conv age a \<longleftrightarrow>
     (\<exists>m0 m1 m. clock_true utc (an_clock_before a) m0 \<and> clock_true utc (an_clock_after a) m1
        \<and> of_int (an_send_monotonic_ns a) \<le> m \<and> m \<le> of_int (an_receive_monotonic_ns a)
        \<and> min (utc m0 - m0) (utc m1 - m1) \<le> utc m - m \<and> utc m - m \<le> max (utc m0 - m0) (utc m1 - m1)
        \<and> utc m - of_int age \<le> conv (co_counter (an_observation a)) \<and> conv (co_counter (an_observation a)) \<le> utc m)"

definition rate_true :: "(int \<Rightarrow> real) \<Rightarrow> int \<Rightarrow> int \<Rightarrow> bool" where
  "rate_true conv rate ppm \<longleftrightarrow>
     (\<forall>j k. \<exists>err. \<bar>err\<bar> \<le> of_int ppm \<and> conv k - conv j = of_int (k - j) * 10 ^ 15 / (of_int rate * (1000000 + err)))"

definition delay_true :: "(int \<Rightarrow> real) \<Rightarrow> (int \<Rightarrow> real) \<Rightarrow> int \<Rightarrow> bool" where
  "delay_true conv air delay \<longleftrightarrow> (\<forall>k. \<bar>air k - conv k\<bar> \<le> of_int delay)"

definition evidence_true :: "(real \<Rightarrow> real) \<Rightarrow> (int \<Rightarrow> real) \<Rightarrow> (int \<Rightarrow> real) \<Rightarrow> utc_evidence \<Rightarrow> bool" where
  "evidence_true utc conv air e \<longleftrightarrow>
     (\<forall>delay. tp_maximum_acquisition_delay_ns (ue_policy e) = Some delay \<longrightarrow> delay_true conv air delay)
     \<and> (\<forall>a \<in> set (ue_anchors e). (\<forall>age. snapshot_age e a = Inr age \<longrightarrow> anchor_true utc conv age a)
          \<and> (\<forall>ppm. tp_maximum_rate_error_ppm (ue_policy e) = Some ppm \<longrightarrow>
               rate_true conv (co_sample_rate_hz (an_observation a)) ppm))"

section \<open>Soundness of an interval\<close>

lemma duration_monotone:
  fixes x err ppm r :: real
  assumes "0 < r" and "0 \<le> ppm" and "ppm < 1000000" and "\<bar>err\<bar> \<le> ppm"
  shows "min (x / (r * (1000000 - ppm))) (x / (r * (1000000 + ppm))) \<le> x / (r * (1000000 + err))"
    and "x / (r * (1000000 + err)) \<le> max (x / (r * (1000000 - ppm))) (x / (r * (1000000 + ppm)))"
proof -
  have p: "0 < r * (1000000 - ppm)" "0 < r * (1000000 + err)" "0 < r * (1000000 + ppm)"
    using assms by (auto intro!: mult_pos_pos)
  have o: "r * (1000000 - ppm) \<le> r * (1000000 + err)" "r * (1000000 + err) \<le> r * (1000000 + ppm)"
    using assms by (auto intro!: mult_left_mono)
  show "min (x / (r * (1000000 - ppm))) (x / (r * (1000000 + ppm))) \<le> x / (r * (1000000 + err))"
  proof (cases "0 \<le> x")
    case True
    then have "x / (r * (1000000 + ppm)) \<le> x / (r * (1000000 + err))" using o(2) p by (intro divide_left_mono) auto
    then show ?thesis by simp
  next
    case False
    then have "x / (r * (1000000 - ppm)) \<le> x / (r * (1000000 + err))"
      using o(1) p by (intro divide_left_mono_neg) auto
    then show ?thesis by simp
  qed
  show "x / (r * (1000000 + err)) \<le> max (x / (r * (1000000 - ppm))) (x / (r * (1000000 + ppm)))"
  proof (cases "0 \<le> x")
    case True
    then have "x / (r * (1000000 + err)) \<le> x / (r * (1000000 - ppm))" using o(1) p by (intro divide_left_mono) auto
    then show ?thesis by simp
  next
    case False
    then have "x / (r * (1000000 + err)) \<le> x / (r * (1000000 + ppm))"
      using o(2) p by (intro divide_left_mono_neg) auto
    then show ?thesis by simp
  qed
qed

lemma floor_le_real: "(of_int (floor q) :: real) \<le> of_rat q"
  by (metis of_int_floor_le of_rat_floor)

lemma le_ceiling_real: "(of_rat q :: real) \<le> of_int (ceiling q)"
  by (metis le_of_int_ceiling of_rat_ceiling)

lemma of_rat_min: "(of_rat (min a b) :: real) = min (of_rat a) (of_rat b)"
  and of_rat_max: "(of_rat (max a b) :: real) = max (of_rat a) (of_rat b)"
  by (simp_all add: min_def max_def of_rat_less_eq)

lemma durations_sound:
  assumes rate: "rate_true conv rate ppm" and b: "0 < rate" "0 \<le> ppm" "ppm < 1000000"
  shows "of_int (floor (Min (set (durations (k - j) rate ppm)))) \<le> conv k - conv j"
    and "conv k - conv j \<le> of_int (ceiling (Max (set (durations (k - j) rate ppm))))"
proof -
  let ?X = "of_int (k - j) * 10 ^ 15 :: real" and ?r = "of_int rate :: real" and ?p = "of_int ppm :: real"
  let ?q = "\<lambda>e. of_int ((k - j) * 10 ^ 15) / of_int (rate * (1000000 + e * ppm)) :: rat"
  have D: "Min (set (durations (k - j) rate ppm)) = min (?q (-1)) (?q 1)"
    "Max (set (durations (k - j) rate ppm)) = max (?q (-1)) (?q 1)"
    by (simp_all add: durations_def)
  have R: "of_rat (?q (-1)) = ?X / (?r * (1000000 - ?p))" "of_rat (?q 1) = ?X / (?r * (1000000 + ?p))"
    by (simp_all add: of_rat_divide of_rat_mult of_rat_diff of_rat_add)
  obtain err where err: "\<bar>err\<bar> \<le> ?p" "conv k - conv j = ?X / (?r * (1000000 + err))"
    using rate by (auto simp: rate_true_def)
  have b': "0 < ?r" "0 \<le> ?p" "?p < 1000000" using b by simp_all
  note m = duration_monotone [OF b' err(1), of ?X]
  show "of_int (floor (Min (set (durations (k - j) rate ppm)))) \<le> conv k - conv j"
    using floor_le_real [of "min (?q (-1)) (?q 1)"] m(1) unfolding D of_rat_min R err(2) by linarith
  show "conv k - conv j \<le> of_int (ceiling (Max (set (durations (k - j) rate ppm))))"
    using le_ceiling_real [of "max (?q (-1)) (?q 1)"] m(2) unfolding D of_rat_max R err(2) by linarith
qed

lemma offsets_sound:
  assumes "anchor_true utc conv age a"
  obtains m where "of_int (an_send_monotonic_ns a + earliest_offset a) \<le> utc m"
    "utc m \<le> of_int (an_receive_monotonic_ns a + latest_offset a)"
    "utc m - of_int age \<le> conv (co_counter (an_observation a))" "conv (co_counter (an_observation a)) \<le> utc m"
proof -
  obtain m0 m1 m where c: "clock_true utc (an_clock_before a) m0" "clock_true utc (an_clock_after a) m1"
    and m: "of_int (an_send_monotonic_ns a) \<le> m" "m \<le> of_int (an_receive_monotonic_ns a)"
      "min (utc m0 - m0) (utc m1 - m1) \<le> utc m - m" "utc m - m \<le> max (utc m0 - m0) (utc m1 - m1)"
    and s: "utc m - of_int age \<le> conv (co_counter (an_observation a))" "conv (co_counter (an_observation a)) \<le> utc m"
    using assms unfolding anchor_true_def by blast
  have off: "of_int (earliest_offset a) \<le> utc x - x" "utc x - x \<le> of_int (latest_offset a)"
    if x: "clock_true utc clk x" and clk: "clk \<in> set (anchor_clocks a)" for clk x
  proof -
    have "earliest_offset a \<le> hk_realtime_ns clk - hk_monotonic_after_ns clk - clock_bound clk"
      "hk_realtime_ns clk - hk_monotonic_before_ns clk + clock_bound clk \<le> latest_offset a"
      using clk unfolding earliest_offset_def latest_offset_def by (auto intro: Min_le Max_ge)
    then have "of_int (earliest_offset a) \<le> (of_int (hk_realtime_ns clk - hk_monotonic_after_ns clk - clock_bound clk) :: real)"
      "(of_int (hk_realtime_ns clk - hk_monotonic_before_ns clk + clock_bound clk) :: real) \<le> of_int (latest_offset a)"
      by (simp_all only: of_int_le_iff)
    then show "of_int (earliest_offset a) \<le> utc x - x" "utc x - x \<le> of_int (latest_offset a)"
      using x by (auto simp: clock_true_def abs_le_iff)
  qed
  note o0 = off [OF c(1)] and o1 = off [OF c(2)]
  show ?thesis
    by (rule that [of m]) (use m s o0 o1 in \<open>auto simp: anchor_clocks_def\<close>)
qed

lemma anchor_interval_sound:
  assumes run: "anchor_interval e ppm delay k a = Inr (lo, hi)" and a: "a \<in> set (ue_anchors e)"
    and ok: "evidence_true utc conv air e" "tp_maximum_rate_error_ppm (ue_policy e) = Some ppm"
    and b: "0 \<le> ppm" "ppm < 1000000" "0 < co_sample_rate_hz (an_observation a)"
  shows "of_int lo \<le> conv k - of_int delay \<and> conv k + of_int delay \<le> of_int hi"
proof -
  let ?ds = "durations (k - co_counter (an_observation a)) (co_sample_rate_hz (an_observation a)) ppm"
  obtain age where age: "snapshot_age e a = Inr age"
    and lo: "lo = an_send_monotonic_ns a + earliest_offset a - age + floor (Min (set ?ds)) - delay"
    and hi: "hi = an_receive_monotonic_ns a + latest_offset a + ceiling (Max (set ?ds)) + delay"
    using run by (auto simp: anchor_interval_def bindE_Inr_iff Let_def)
  have T: "anchor_true utc conv age a" "rate_true conv (co_sample_rate_hz (an_observation a)) ppm"
    using ok a age by (auto simp: evidence_true_def)
  obtain m where m: "of_int (an_send_monotonic_ns a + earliest_offset a) \<le> utc m"
    "utc m \<le> of_int (an_receive_monotonic_ns a + latest_offset a)"
    "utc m - of_int age \<le> conv (co_counter (an_observation a))" "conv (co_counter (an_observation a)) \<le> utc m"
    using offsets_sound [OF T(1)] by blast
  note d = durations_sound [OF T(2) b(3,1,2), where k = k and j = "co_counter (an_observation a)"]
  show ?thesis using m d unfolding lo hi by simp
qed

lemma mapE_mem:
  shows "mapE f xs = Inr ys \<Longrightarrow> x \<in> set xs \<Longrightarrow> \<exists>y \<in> set ys. f x = Inr y"
    and "mapE f xs = Inr ys \<Longrightarrow> y \<in> set ys \<Longrightarrow> \<exists>x \<in> set xs. f x = Inr y"
proof -
  show "mapE f xs = Inr ys \<Longrightarrow> x \<in> set xs \<Longrightarrow> \<exists>y \<in> set ys. f x = Inr y"
    by (induction xs arbitrary: ys) (auto simp: bindE_Inr_iff)
  show "mapE f xs = Inr ys \<Longrightarrow> y \<in> set ys \<Longrightarrow> \<exists>x \<in> set xs. f x = Inr y"
    by (induction xs arbitrary: ys) (auto simp: bindE_Inr_iff)
qed

text \<open>The evidence is a validated model.\<close>

lemma evidence_bounds:
  assumes "utc_evidence_validate e = Inr ()"
  shows "tp_maximum_rate_error_ppm (ue_policy e) = Some ppm \<Longrightarrow> 0 \<le> ppm \<and> ppm < 1000000"
    and "tp_maximum_error_ns (ue_policy e) = 100000000"
    and "a \<in> set (ue_anchors e) \<Longrightarrow> 0 < co_sample_rate_hz (an_observation a)"
proof -
  obtain us where p: "timing_policy_validate (ue_policy e) = Inr ()"
    and m: "mapE counter_anchor_validate (ue_anchors e) = Inr us"
    using assms by (auto simp: utc_evidence_validate_def bindE_Inr_iff)
  show "tp_maximum_rate_error_ppm (ue_policy e) = Some ppm \<Longrightarrow> 0 \<le> ppm \<and> ppm < 1000000"
    "tp_maximum_error_ns (ue_policy e) = 100000000"
    using p by (auto simp: timing_policy_validate_def nonnegative_def)
  assume a: "a \<in> set (ue_anchors e)"
  then obtain u where "counter_anchor_validate a = Inr u" using mapE_mem(1) [OF m] by blast
  then have "counter_observation_validate (an_observation a) = Inr ()"
    by (simp add: counter_anchor_validate_def bindE_Inr_iff)
  then have "520833 \<le> co_sample_rate_hz (an_observation a)" by (simp add: counter_observation_validate_def)
  then show "0 < co_sample_rate_hz (an_observation a)" by simp
qed

lemma intervals_sound:
  assumes iv: "mapE (anchor_interval e ppm delay k) (ue_anchors e) = Inr intervals" and ne: "ue_anchors e \<noteq> []"
    and valid: "utc_evidence_validate e = Inr ()" and ok: "evidence_true utc conv air e"
    and ppm: "tp_maximum_rate_error_ppm (ue_policy e) = Some ppm"
  shows "of_int (Max (set (map fst intervals))) \<le> conv k - of_int delay"
    and "conv k + of_int delay \<le> of_int (Min (set (map snd intervals)))"
proof -
  have ne': "set intervals \<noteq> {}" using iv ne by (cases "ue_anchors e") (auto simp: bindE_Inr_iff)
  have S: "of_int (fst x) \<le> conv k - of_int delay \<and> conv k + of_int delay \<le> of_int (snd x)" if x: "x \<in> set intervals" for x
  proof -
    obtain a where a: "a \<in> set (ue_anchors e)" "anchor_interval e ppm delay k a = Inr (fst x, snd x)"
      using mapE_mem(2) [OF iv x] by auto
    then show ?thesis
      using anchor_interval_sound [OF a(2,1) ok ppm] evidence_bounds(1) [OF valid ppm] evidence_bounds(3) [OF valid a(1)] by blast
  qed
  have "Max (set (map fst intervals)) \<in> fst ` set intervals" "Min (set (map snd intervals)) \<in> snd ` set intervals"
    using ne' unfolding set_map by (auto intro!: Max_in Min_in)
  then show "of_int (Max (set (map fst intervals))) \<le> conv k - of_int delay"
    "conv k + of_int delay \<le> of_int (Min (set (map snd intervals)))"
    using S by auto
qed

lemma utc_interval_cases:
  assumes "utc_interval e k = r"
  shows "(\<exists>ppm delay intervals. tp_maximum_rate_error_ppm (ue_policy e) = Some ppm
      \<and> tp_maximum_acquisition_delay_ns (ue_policy e) = Some delay \<and> ue_anchors e \<noteq> []
      \<and> mapE (anchor_interval e ppm delay k) (ue_anchors e) = Inr intervals
      \<and> r = (if Max (set (map fst intervals)) > Min (set (map snd intervals))
             then Inl (ValueError ''counter/UTC observations have contradictory intervals'')
             else Inr (Max (set (map fst intervals)), Min (set (map snd intervals)))))
    \<or> (\<exists>ppm delay err. r = Inl err \<and> mapE (anchor_interval e ppm delay k) (ue_anchors e) = Inl err)
    \<or> r = Inl (ValueError ''sample clock/acquisition bounds or anchors are missing'')"
proof (cases "tp_maximum_rate_error_ppm (ue_policy e)")
  case (Some ppm)
  note ppm = this
  show ?thesis
  proof (cases "tp_maximum_acquisition_delay_ns (ue_policy e)")
    case (Some delay)
    note delay = this
    show ?thesis
    proof (cases "ue_anchors e")
      case (Cons a as)
      then show ?thesis using assms ppm delay
        by (cases "mapE (anchor_interval e ppm delay k) (ue_anchors e)")
          (auto simp: utc_interval_def Let_def simp del: mapE.simps set_map)
    qed (use assms ppm delay in \<open>auto simp: utc_interval_def\<close>)
  qed (use assms ppm in \<open>auto simp: utc_interval_def\<close>)
qed (use assms in \<open>auto simp: utc_interval_def\<close>)

lemma anchor_interval_errors:
  "anchor_interval e ppm delay k a = Inl err \<Longrightarrow>
     err \<noteq> ValueError ''counter/UTC observations have contradictory intervals''"
  by (auto simp: anchor_interval_def snapshot_age_def Let_def checks_eval split: if_splits option.splits)

lemma mapE_Inl: "mapE f xs = Inl err \<Longrightarrow> \<exists>x \<in> set xs. f x = Inl err"
proof (induction xs)
  case (Cons x xs)
  then show ?case by (cases "f x"; cases "mapE f xs") auto
qed simp

lemma utc_interval_sound:
  assumes run: "utc_interval e k = Inr (lo, hi)" and valid: "utc_evidence_validate e = Inr ()"
    and ok: "evidence_true utc conv air e"
  shows "\<exists>delay. tp_maximum_acquisition_delay_ns (ue_policy e) = Some delay \<and> delay_true conv air delay
    \<and> of_int lo \<le> conv k - of_int delay \<and> conv k + of_int delay \<le> of_int hi"
proof -
  obtain ppm delay intervals where f: "tp_maximum_rate_error_ppm (ue_policy e) = Some ppm"
      "tp_maximum_acquisition_delay_ns (ue_policy e) = Some delay" "ue_anchors e \<noteq> []"
      "mapE (anchor_interval e ppm delay k) (ue_anchors e) = Inr intervals"
    and r: "lo = Max (set (map fst intervals))" "hi = Min (set (map snd intervals))"
    using utc_interval_cases [OF run] by (auto split: if_splits simp del: set_map)
  show ?thesis using intervals_sound [OF f(4,3) valid ok f(1)] f(2) ok unfolding r by (auto simp: evidence_true_def)
qed

text \<open>True evidence is never contradictory.\<close>

lemma utc_interval_consistent:
  assumes valid: "utc_evidence_validate e = Inr ()" and ok: "evidence_true utc conv air e"
  shows "utc_interval e k \<noteq> Inl (ValueError ''counter/UTC observations have contradictory intervals'')"
proof
  assume r: "utc_interval e k = Inl (ValueError ''counter/UTC observations have contradictory intervals'')"
  have no: "mapE (anchor_interval e ppm delay k) (ue_anchors e) \<noteq> Inl (ValueError ''counter/UTC observations have contradictory intervals'')"
    for ppm delay using mapE_Inl anchor_interval_errors by metis
  then obtain ppm delay intervals where f: "tp_maximum_rate_error_ppm (ue_policy e) = Some ppm"
      "tp_maximum_acquisition_delay_ns (ue_policy e) = Some delay" "ue_anchors e \<noteq> []"
      "mapE (anchor_interval e ppm delay k) (ue_anchors e) = Inr intervals"
    and gt: "Max (set (map fst intervals)) > Min (set (map snd intervals))"
    using utc_interval_cases [OF r] by (auto split: if_splits simp del: set_map)
  have "0 \<le> \<bar>air k - conv k\<bar>" by simp
  also have "\<dots> \<le> of_int delay" using ok f(2) by (auto simp: evidence_true_def delay_true_def)
  finally have "of_int (Max (set (map fst intervals))) \<le> (of_int (Min (set (map snd intervals))) :: real)"
    using intervals_sound [OF f(4,3) valid ok f(1)] by linarith
  then show False using gt by simp
qed

section \<open>Soundness of a qualification\<close>

lemma drift_bound:
  fixes x r ppm err :: real
  assumes "0 < r" and "0 \<le> ppm" and "ppm < 1000000" and "\<bar>err\<bar> \<le> ppm" and "0 \<le> x"
  shows "\<bar>x * 10 ^ 15 / (r * (1000000 + err)) - x * 10 ^ 9 / r\<bar> \<le> x * 10 ^ 15 * ppm / (r * 1000000 * (1000000 - ppm))"
proof -
  have e: "0 < 1000000 + err" "0 < 1000000 - ppm" "1000000 - ppm \<le> 1000000 + err" using assms by auto
  have "10 ^ 6 / (1000000 + err) - 1 = - err / (1000000 + err)" using e(1) by (simp add: field_simps)
  moreover have "x * 10 ^ 15 / (r * (1000000 + err)) - x * 10 ^ 9 / r = (x * 10 ^ 15 / (r * 1000000)) * (10 ^ 6 / (1000000 + err) - 1)"
    by (simp add: right_diff_distrib mult.commute)
  ultimately have "x * 10 ^ 15 / (r * (1000000 + err)) - x * 10 ^ 9 / r = (x * 10 ^ 15 / (r * 1000000)) * (- err / (1000000 + err))"
    by (simp only:)
  then have "\<bar>x * 10 ^ 15 / (r * (1000000 + err)) - x * 10 ^ 9 / r\<bar> = (x * 10 ^ 15 / (r * 1000000)) * (\<bar>err\<bar> / (1000000 + err))"
    using assms(1,5) e by (simp add: abs_mult)
  also have "\<dots> \<le> (x * 10 ^ 15 / (r * 1000000)) * (ppm / (1000000 - ppm))"
    using assms e by (intro mult_left_mono frac_le) auto
  also have "\<dots> = x * 10 ^ 15 * ppm / (r * 1000000 * (1000000 - ppm))" by simp
  finally show ?thesis .
qed

lemma capture_error_facts:
  assumes "capture_error e first final rate = Inr worst"
  shows "\<exists>lo hi. utc_interval e first = Inr (lo, hi) \<and> worst = (hi - lo + 1) div 2 + capture_drift first final rate (policy_ppm e)
    \<and> worst \<le> tp_maximum_error_ns (ue_policy e) \<and> first \<le> final \<and> ue_anchors e \<noteq> []
    \<and> co_sample_rate_hz (an_observation (hd (ue_anchors e))) = rate"
proof -
  obtain lo hi u v where g: "first \<le> final" "ue_anchors e \<noteq> []"
    and c: "check_anchors e (an_observation (hd (ue_anchors e))) rate None (ue_anchors e) = Inr u"
    and i: "utc_interval e first = Inr (lo, hi)"
    and w: "worst = (hi - lo + 1) div 2 + capture_drift first final rate (policy_ppm e)" "worst \<le> tp_maximum_error_ns (ue_policy e)"
    using assms by (fastforce simp: capture_error_def bindE_Inr_iff Let_def)
  moreover have "co_sample_rate_hz (an_observation (hd (ue_anchors e))) = rate"
    using c g(2) by (cases "ue_anchors e") (auto simp: bindE_Inr_iff anchor_checks_def Let_def)
  ultimately show ?thesis by blast
qed

section \<open>Properties\<close>

text \<open>
  C11: the UTC interval of a sample is sound. When the recorded clock readings, snapshot ages, rate
  envelope and acquisition delay are true of the world, the evidence is never contradictory and the
  interval computed for any sample contains the instant the sample arrived at the antenna.
\<close>

theorem counter_interval_is_sound:
  assumes "utc_evidence_validate e = Inr ()" and "evidence_true utc conv air e"
  shows "utc_interval e k \<noteq> Inl (ValueError ''counter/UTC observations have contradictory intervals'') \<and>
    (\<forall>lo hi. utc_interval e k = Inr (lo, hi) \<longrightarrow> of_int lo \<le> air k \<and> air k \<le> of_int hi)"
proof (intro conjI allI impI)
  fix lo hi
  assume r: "utc_interval e k = Inr (lo, hi)"
  obtain delay where d: "\<bar>air k - conv k\<bar> \<le> of_int delay"
    "of_int lo \<le> conv k - of_int delay" "conv k + of_int delay \<le> of_int hi"
    using utc_interval_sound [OF r assms] by (auto simp: delay_true_def)
  then show "of_int lo \<le> air k" "air k \<le> of_int hi" by linarith+
qed (rule utc_interval_consistent [OF assms])

definition sample_observation_counter :: counter_observation where
  "sample_observation_counter = \<lparr>co_request = 1, co_session = 1, co_generation = 1,
     co_boot_id = ''0123456789abcdef0123456789abcdef'', co_epoch = 1, co_counter = 0, co_device_before_ns = 0,
     co_device_after_ns = 1, co_sample_rate_hz = 1000000, co_maximum_snapshot_age_ns = 500\<rparr>"

definition sample_clock :: "int \<Rightarrow> host_clock" where
  "sample_clock m = \<lparr>hk_monotonic_before_ns = m, hk_realtime_ns = 10 ^ 18 + m, hk_monotonic_after_ns = m + 10,
     hk_source = ''chrony'', hk_utc_error_bound_ns = Some 100, hk_reason = ''ok'', hk_tracking_csv = None\<rparr>"

definition sample_anchor_counter :: counter_anchor where
  "sample_anchor_counter = \<lparr>an_observation = sample_observation_counter, an_send_monotonic_ns = 2000,
     an_receive_monotonic_ns = 4000, an_clock_before = sample_clock 1000, an_clock_after = sample_clock 5000\<rparr>"

definition sample_evidence_utc :: utc_evidence where
  "sample_evidence_utc = \<lparr>ue_session = 1, ue_generation = 1, ue_radio_serial = ''r'',
     ue_policy = \<lparr>tp_maximum_error_ns = 100000000, tp_maximum_query_width_ns = 50000000,
       tp_maximum_anchor_gap_ns = 10000000000, tp_maximum_clock_step_ns = 1000000,
       tp_calibration_reference = Some ''lab'', tp_calibration_radio_serial = Some ''r'',
       tp_calibration_boot_id = Some ''0123456789abcdef0123456789abcdef'', tp_maximum_rate_error_ppm = Some 10,
       tp_maximum_snapshot_age_ns = None, tp_maximum_acquisition_delay_ns = Some 1000\<rparr>,
     ue_anchors = [sample_anchor_counter], ue_errors = []\<rparr>"

text \<open>A world in which it is true: a nominal sample clock and an acquisition delay of 200 ns.\<close>

definition sample_utc :: "real \<Rightarrow> real" where
  "sample_utc m = m + 10 ^ 18"

definition sample_conv :: "int \<Rightarrow> real" where
  "sample_conv k = 10 ^ 18 + 2900 + 1000 * of_int k"

definition sample_air :: "int \<Rightarrow> real" where
  "sample_air k = sample_conv k - 200"

lemma sample_utc_valid: "utc_evidence_validate sample_evidence_utc = Inr ()"
  by (simp add: utc_evidence_validate_def sample_evidence_utc_def sample_anchor_counter_def sample_observation_counter_def
      sample_clock_def timing_policy_validate_def counter_anchor_validate_def counter_observation_validate_def
      host_clock_validate_def nonnegative_def utc_uint_def lower_hex_def hex_value_def hex_digit_def checks_eval)

lemma sample_utc_true: "evidence_true sample_utc sample_conv sample_air sample_evidence_utc"
proof -
  have rate: "rate_true sample_conv 1000000 10"
    unfolding rate_true_def by (intro allI exI [of _ 0]) (simp add: sample_conv_def)
  have delay: "delay_true sample_conv sample_air 1000" by (simp add: delay_true_def sample_air_def)
  have anchor: "anchor_true sample_utc sample_conv 500 sample_anchor_counter"
    unfolding anchor_true_def
    by (intro exI [of _ 1000] exI [of _ 5000] exI [of _ 3000])
      (simp add: clock_true_def sample_anchor_counter_def sample_clock_def sample_utc_def sample_conv_def
        sample_observation_counter_def clock_bound_def)
  show ?thesis using rate delay anchor
    by (simp add: evidence_true_def sample_evidence_utc_def snapshot_age_def UNKNOWN_AGE_def)
      (simp add: sample_anchor_counter_def sample_observation_counter_def)
qed

lemma sample_utc_interval:
  "utc_interval sample_evidence_utc 0 = Inr (10 ^ 18 + 390, 10 ^ 18 + 5100)"
  by code_simp

theorem counter_interval_is_sound_witness:
  "utc_interval sample_evidence_utc 0 = Inr (10 ^ 18 + 390, 10 ^ 18 + 5100) \<and>
     10 ^ 18 + 390 \<le> sample_air 0 \<and> sample_air 0 \<le> 10 ^ 18 + 5100"
  using counter_interval_is_sound [OF sample_utc_valid sample_utc_true, of 0] sample_utc_interval by auto

lemma qualified_sample:
  assumes run: "capture_error e first final rate = Inr worst" and valid: "utc_evidence_validate e = Inr ()"
    and ok: "evidence_true utc conv air e" and k: "first \<le> k" "k \<le> final" and i: "utc_interval e first = Inr (lo, hi)"
  shows "\<bar>air k - ((of_int lo + of_int hi) / 2 + of_int (k - first) * 10 ^ 9 / of_int rate)\<bar> \<le> of_int worst"
proof -
  let ?r = "of_int rate :: real" and ?x = "of_int (k - first) :: real" and ?X = "of_int (final - first) :: real"
  have w: "worst = (hi - lo + 1) div 2 + capture_drift first final rate (policy_ppm e)"
    and ne: "ue_anchors e \<noteq> []" and rate: "co_sample_rate_hz (an_observation (hd (ue_anchors e))) = rate"
    using capture_error_facts [OF run] i by auto
  obtain ppm where ppm: "tp_maximum_rate_error_ppm (ue_policy e) = Some ppm" "policy_ppm e = ppm"
    using i by (auto simp: utc_interval_def policy_ppm_def split: option.splits)
  have a: "hd (ue_anchors e) \<in> set (ue_anchors e)" using ne by simp
  have p: "0 < ?r" "0 \<le> (of_int ppm :: real)" "(of_int ppm :: real) < 1000000"
    using evidence_bounds(1) [OF valid ppm(1)] evidence_bounds(3) [OF valid a] rate by simp_all
  obtain delay where d: "\<bar>air k - conv k\<bar> \<le> of_int delay" "of_int lo \<le> conv first - of_int delay"
    "conv first + of_int delay \<le> of_int hi"
    using utc_interval_sound [OF i valid ok] by (auto simp: delay_true_def)
  obtain err where err: "\<bar>err\<bar> \<le> of_int ppm" "conv k - conv first = ?x * 10 ^ 15 / (?r * (1000000 + err))"
    using ok a ppm(1) rate by (fastforce simp: evidence_true_def rate_true_def)
  have x: "0 \<le> ?x" "?x \<le> ?X" using k by simp_all
  let ?D = "\<lambda>y. y * 10 ^ 15 * of_int ppm / (?r * 1000000 * (1000000 - of_int ppm)) :: real"
  have "\<bar>conv k - conv first - ?x * 10 ^ 9 / ?r\<bar> \<le> ?D ?x" unfolding err(2) by (rule drift_bound [OF p err(1) x(1)])
  also have "\<dots> \<le> ?D ?X" using x(2) p by (intro divide_right_mono mult_right_mono) auto
  also have "\<dots> \<le> of_int (capture_drift first final rate ppm)"
    using le_ceiling_real [of "of_int ((final - first) * 10 ^ 15 * ppm) / of_int (rate * 1000000 * (1000000 - ppm))"]
    by (simp add: capture_drift_def of_rat_divide of_rat_mult of_rat_diff)
  finally have drift: "\<bar>conv k - conv first - ?x * 10 ^ 9 / ?r\<bar> \<le> of_int (capture_drift first final rate ppm)" .
  have "hi - lo \<le> 2 * ((hi - lo + 1) div 2)" by presburger
  then have "(of_int (hi - lo) :: real) \<le> of_int (2 * ((hi - lo + 1) div 2))" by (simp only: of_int_le_iff)
  then have half: "(of_int hi - of_int lo) / 2 \<le> (of_int ((hi - lo + 1) div 2) :: real)" by simp
  define q where "q = ?x * 10 ^ 9 / ?r"
  have "air k - conv k \<le> of_int delay" "conv k - air k \<le> of_int delay"
    "conv k - conv first - q \<le> of_int (capture_drift first final rate ppm)"
    "- (conv k - conv first - q) \<le> of_int (capture_drift first final rate ppm)"
    using d(1) drift unfolding q_def [symmetric] by linarith+
  moreover define h where "h = (of_int ((hi - lo + 1) div 2) :: real)"
  moreover have "(of_int worst :: real) = h + of_int (capture_drift first final rate ppm)" by (simp add: w ppm(2) h_def)
  ultimately have "air k - ((of_int lo + of_int hi) / 2 + q) \<le> of_int worst"
    "- (air k - ((of_int lo + of_int hi) / 2 + q)) \<le> of_int worst"
    using d(2,3) half [folded h_def] by argo+
  then show ?thesis unfolding q_def by (rule abs_leI)
qed

text \<open>
  C10: a qualified capture is placed in UTC within the policy. When \<open>qualification\<close> answers true with
  an error, and the recorded bounds are true of the world, the one affine map through the middle of
  the interval of the first sample, at the nominal rate, is off by at most that error for every sample
  of the capture, between observations included, and the error is at most 100 ms.
\<close>

theorem qualified_capture_is_within_policy:
  assumes "qualification e first final rate = (True, message, Some worst)"
    and "utc_evidence_validate e = Inr ()" and "evidence_true utc conv air e" and "first \<le> k" and "k \<le> final"
  shows "\<exists>lo hi. utc_interval e first = Inr (lo, hi) \<and> worst \<le> 100000000 \<and>
    \<bar>air k - ((of_int lo + of_int hi) / 2 + of_int (k - first) * 10 ^ 9 / of_int rate)\<bar> \<le> of_int worst"
proof -
  have run: "capture_error e first final rate = Inr worst"
    using assms(1) by (auto simp: qualification_def split: sum.splits)
  then obtain lo hi where i: "utc_interval e first = Inr (lo, hi)" and "worst \<le> tp_maximum_error_ns (ue_policy e)"
    using capture_error_facts by blast
  then show ?thesis using qualified_sample [OF run assms(2-5) i] evidence_bounds(2) [OF assms(2)] by auto
qed

lemma sample_utc_qualified: "qualification sample_evidence_utc 0 1000000 1000000 = (True, None, Some 12356)"
  by code_simp

theorem qualified_capture_is_within_policy_witness:
  "\<exists>lo hi. utc_interval sample_evidence_utc 0 = Inr (lo, hi) \<and>
     \<bar>sample_air 500 - ((of_int lo + of_int hi) / 2 + 500 * 10 ^ 9 / 1000000)\<bar> \<le> 12356"
  using qualified_capture_is_within_policy [OF sample_utc_qualified sample_utc_valid sample_utc_true, of 500] by auto

end
