(* ===== verification/Pilot_Snapshot.thy ===== *)
theory Pilot_Snapshot
  imports Text
begin

text \<open>
  \<open>hardware/pilot_iio.py\<close>, \<open>PilotSnapshot\<close>: the textual PIL1 record of a pilot capture, the checks of its
  decoder, the source coordinate of an exported sample and the gate that admits a complete capture. First
  the string operations these text records need.
\<close>

section \<open>Text fields\<close>

text \<open>\<open>text.isascii()\<close>, \<open>c.isspace()\<close> for ASCII characters and \<open>text.split()\<close>.\<close>

definition ascii_text :: "string \<Rightarrow> bool" where
  "ascii_text s \<longleftrightarrow> list_all (\<lambda>c. (of_char c :: nat) < 128) s"

definition py_space :: "char \<Rightarrow> bool" where
  "py_space c \<longleftrightarrow> (let n = (of_char c :: nat) in (9 \<le> n \<and> n \<le> 13) \<or> (28 \<le> n \<and> n \<le> 32))"

function split_fields :: "string \<Rightarrow> string list" where
  "split_fields [] = []"
| "split_fields (c # cs) =
     (if py_space c then split_fields cs
      else (c # takeWhile (\<lambda>x. \<not> py_space x) cs) # split_fields (dropWhile (\<lambda>x. \<not> py_space x) cs))"
  by pat_completeness auto

termination
  by (relation "measure length") (auto simp: le_imp_less_Suc length_dropWhile_le)

text \<open>\<open>[0-9]+\<close> and \<open>-?[0-9]+\<close> with \<open>int(field)\<close>; \<open>[0-9a-fA-F]{8}\<close> with \<open>int(word, 16)\<close>.\<close>

definition digit :: "char \<Rightarrow> bool" where
  "digit c \<longleftrightarrow> c \<in> set ''0123456789''"

definition decimal_value :: "string \<Rightarrow> int" where
  "decimal_value s = foldl (\<lambda>v c. 10 * v + (of_char c - 48)) 0 s"

definition signed_decimal :: "string \<Rightarrow> (bool \<times> string)" where
  "signed_decimal s = (case s of c # cs \<Rightarrow> if c = CHR ''-'' then (True, cs) else (False, s) | [] \<Rightarrow> (False, s))"

definition any_hex :: "char \<Rightarrow> bool" where
  "any_hex c \<longleftrightarrow> c \<in> set ''0123456789abcdefABCDEF''"

definition any_hex_digit :: "char \<Rightarrow> int" where
  "any_hex_digit c = (let n = of_char c in if 97 \<le> n then n - 87 else if 65 \<le> n then n - 55 else n - 48)"

definition hex_word :: "string \<Rightarrow> int" where
  "hex_word s = foldl (\<lambda>v c. 16 * v + any_hex_digit c) 0 s"

text \<open>\<open>_decimal\<close>.\<close>

definition decimal :: "string \<Rightarrow> int \<Rightarrow> bool \<Rightarrow> int result" where
  "decimal field maximum sign_ok =
     (let (negative, digits) = (if sign_ok then signed_decimal field else (False, field));
          v = (if negative then - decimal_value digits else decimal_value digits) in
      bindE (checks
        [(digits = [] \<or> \<not> list_all digit digits, ValueError ''PIL1 header requires decimal integers''),
         (\<not> ((if sign_ok then - maximum else 0) \<le> v \<and> v \<le> maximum),
          ValueError ''PIL1 header integer is out of range'')]) (\<lambda>_. Inr v))"

section \<open>PilotSnapshot\<close>

definition PILOT_OUTPUT_RATE_HZ :: int where
  "PILOT_OUTPUT_RATE_HZ = 2500000"

definition PILOT_CANONICAL_RATE_HZ :: int where
  "PILOT_CANONICAL_RATE_HZ = 15000000"

definition PILOT_SOURCE_RATES_HZ :: "int list" where
  "PILOT_SOURCE_RATES_HZ = [15000000, 30000000, 60000000]"

definition PILOT_DELAY_CANONICAL_SAMPLES :: int where
  "PILOT_DELAY_CANONICAL_SAMPLES = 269"

definition PILOT_FIFO_CAPACITY :: int where
  "PILOT_FIFO_CAPACITY = 32"

record pilot_snapshot =
  ps_raw :: string
  ps_source_rate :: int
  ps_generation :: int
  ps_recovery_failed :: bool
  ps_actual_rate :: int
  ps_dma_error :: int
  ps_words :: "int list"
  ps_first :: int
  ps_last :: int
  ps_admitted :: int
  ps_delivered :: int
  ps_unsupported :: int
  ps_fault_index :: int
  ps_accepted :: int
  ps_emitted :: int

text \<open>\<open>words[n] | (words[n + 1] << 32)\<close>.\<close>

definition word_pair :: "int list \<Rightarrow> nat \<Rightarrow> int" where
  "word_pair w n = w ! n OR push_bit 32 (w ! Suc n)"

definition pilot_word_checks :: "int list \<Rightarrow> int \<Rightarrow> unit result" where
  "pilot_word_checks w source =
     (let first = word_pair w 0; final = word_pair w 2; admitted = word_pair w 4; delivered = word_pair w 6;
          unsupported = word_pair w 8; accepted = word_pair w 12; emitted = word_pair w 14; queued = w ! 22 in
      checks
       ([(list_ex (\<lambda>x. x \<noteq> 0) (drop 23 w) \<or> drop_bit 16 (w ! 17) \<noteq> 0 \<or> extra (w ! 18) 0x7F \<or> extra (w ! 19) 0x1F,
          ValueError ''PIL1 reserved bits are nonzero''),
         (\<not> delivered \<le> admitted \<or> admitted - delivered \<noteq> queued,
          ValueError ''PIL1 admitted/delivered/queued accounting disagrees''),
         (\<not> (queued \<le> w ! 21 \<and> w ! 21 \<le> PILOT_FIFO_CAPACITY) \<or> drop_bit 8 (w ! 17) > 128,
          ValueError ''PIL1 FIFO count/high water is out of bounds''),
         (has (w ! 19) 2 \<noteq> (queued \<noteq> 0) \<or> has (w ! 19) 8 \<noteq> (admitted \<noteq> 0),
          ValueError ''PIL1 status disagrees with prefix/queue counters''),
         (has (w ! 19) 4 \<noteq> (w ! 18 \<noteq> 0), ValueError ''PIL1 status disagrees with capture faults''),
         ((has (w ! 19) 1 \<or> admitted \<noteq> 0) \<and> (\<not> has (w ! 19) 16 \<or> w ! 20 = 0),
          ValueError ''PIL1 active/prefix state lacks an armed visit'')] @
        (if admitted \<noteq> 0 then
          [(first < 538 \<or> first mod 6 \<noteq> 0 \<or> final \<noteq> first + 6 * (admitted - 1),
            ValueError ''PIL1 supported prefix index/phase/span is inconsistent''),
           ((final - PILOT_DELAY_CANONICAL_SAMPLES) * (source div PILOT_CANONICAL_RATE_HZ) > 2 ^ 64 - 1,
            ValueError ''PIL1 prefix exceeds the original source counter'')]
         else
          [(first \<noteq> 0 \<or> final \<noteq> 0, ValueError ''PIL1 empty prefix must have zero first/last indexes'')]) @
        [(emitted < admitted + unsupported \<or> accepted < emitted,
          ValueError ''PIL1 DDC counters cannot account for the exported prefix'')]))"

definition pilot_decode :: "string \<Rightarrow> pilot_snapshot result" where
  "pilot_decode text =
     (let fields = split_fields text in
      bindE (checks
        [(\<not> ascii_text text \<or> length text > 4096, ValueError ''PIL1 snapshot must be bounded ASCII text''),
         (length fields \<noteq> 34 \<or> take 2 fields \<noteq> [''PIL1'', ''00010000''],
          ValueError ''PIL1 snapshot envelope/version/word count is invalid'')]) (\<lambda>_.
      bindE (mapE (\<lambda>f. decimal f 0xFFFFFFFF False) (slice 2 7 fields)) (\<lambda>hs.
      bindE (decimal (fields ! 7) 4095 True) (\<lambda>dma_error.
      let source = hs ! 0; output = hs ! 1; generation = hs ! 2; recovery = hs ! 3; actual = hs ! 4 in
      bindE (checks
        [(source \<notin> set PILOT_SOURCE_RATES_HZ \<or> output \<noteq> PILOT_OUTPUT_RATE_HZ,
          ValueError ''PIL1 source/output rate is unsupported''),
         (generation = 0 \<or> recovery \<notin> {0, 1} \<or> dma_error > 0,
          ValueError ''PIL1 generation/recovery/DMA status is invalid''),
         (\<not> list_all (\<lambda>x. length x = 8 \<and> list_all any_hex x) (drop 8 fields),
          ValueError ''PIL1 payload requires exactly eight hex digits per word'')]) (\<lambda>_.
      let w = map hex_word (drop 8 fields) in
      bindE (pilot_word_checks w source) (\<lambda>_.
      Inr \<lparr>ps_raw = text, ps_source_rate = source, ps_generation = generation, ps_recovery_failed = (recovery \<noteq> 0),
           ps_actual_rate = actual, ps_dma_error = dma_error, ps_words = w, ps_first = word_pair w 0,
           ps_last = word_pair w 2, ps_admitted = word_pair w 4, ps_delivered = word_pair w 6,
           ps_unsupported = word_pair w 8, ps_fault_index = word_pair w 10, ps_accepted = word_pair w 12,
           ps_emitted = word_pair w 14\<rparr>))))))"

definition ps_active :: "pilot_snapshot \<Rightarrow> bool" where
  "ps_active p = has (ps_words p ! 19) 1"

definition ps_visit_id :: "pilot_snapshot \<Rightarrow> int" where
  "ps_visit_id p = ps_words p ! 20"

definition ps_capture_faults :: "pilot_snapshot \<Rightarrow> int" where
  "ps_capture_faults p = ps_words p ! 18"

definition ps_ddc_faults :: "pilot_snapshot \<Rightarrow> int" where
  "ps_ddc_faults p = (ps_words p ! 17) AND 0xFF"

definition ps_saturation_events :: "pilot_snapshot \<Rightarrow> int" where
  "ps_saturation_events p = ps_words p ! 16"

definition u64_count :: "int \<Rightarrow> string \<Rightarrow> bool \<times> exn" where
  "u64_count v name = (\<not> (0 \<le> v \<and> v \<le> 2 ^ 64 - 1), ValueError (name @ '' must be an unsigned 64-bit integer''))"

definition source_center :: "pilot_snapshot \<Rightarrow> int \<Rightarrow> int result" where
  "source_center p n =
     bindE (checks [u64_count n ''output_sample'',
                    (n \<ge> ps_delivered p, ValueError ''sample is outside the AXIS-delivered prefix'')]) (\<lambda>_.
     Inr ((ps_first p + 6 * n - PILOT_DELAY_CANONICAL_SAMPLES) * (ps_source_rate p div PILOT_CANONICAL_RATE_HZ)))"

definition require_complete_prefix :: "pilot_snapshot \<Rightarrow> int \<Rightarrow> int \<Rightarrow> int \<Rightarrow> int \<Rightarrow> unit result" where
  "require_complete_prefix p visit source samples received = checks
     [(\<not> (0 < visit \<and> visit \<le> 0xFFFFFFFF), ValueError ''expected_visit_id must be a nonzero u32''),
      (source \<notin> set PILOT_SOURCE_RATES_HZ, ValueError ''expected source rate is unsupported''),
      u64_count samples ''expected_samples'',
      u64_count received ''received_bytes'',
      (samples = 0, ValueError ''expected_samples must be positive''),
      (ps_visit_id p \<noteq> visit \<or> ps_source_rate p \<noteq> source,
       ValueError ''PIL1 snapshot does not match the expected visit/source rate''),
      (ps_actual_rate p \<noteq> ps_source_rate p, ValueError ''PIL1 actual PHY source rate changed''),
      (ps_active p \<or> ps_words p ! 22 \<noteq> 0, ValueError ''PIL1 capture is still active or draining''),
      (ps_recovery_failed p \<or> ps_dma_error p \<noteq> 0 \<or> ps_capture_faults p \<noteq> 0 \<or> ps_ddc_faults p \<noteq> 0,
       ValueError ''PIL1 capture has a hardware/DMA/recovery fault''),
      (ps_saturation_events p \<noteq> 0, ValueError ''PIL1 capture reports arithmetic saturation''),
      (ps_admitted p \<noteq> samples \<or> ps_delivered p \<noteq> samples,
       ValueError ''PIL1 finite capture sample count is incomplete''),
      (received \<noteq> samples * 4, ValueError ''IIO reader byte count does not match the PIL1 prefix''),
      (ps_emitted p \<noteq> ps_admitted p + ps_unsupported p, ValueError ''PIL1 DDC emitted unaccounted samples'')]"

section \<open>What a decoded snapshot guarantees\<close>

definition decoded_snapshot :: "pilot_snapshot \<Rightarrow> bool" where
  "decoded_snapshot p \<longleftrightarrow> pilot_decode (ps_raw p) = Inr p"

lemma pilot_decode_raw: "pilot_decode text = Inr p \<Longrightarrow> ps_raw p = text"
  by (auto simp: pilot_decode_def Let_def bindE_Inr_iff)

lemma pilot_decode_decoded: "pilot_decode text = Inr p \<Longrightarrow> decoded_snapshot p"
  by (simp add: decoded_snapshot_def pilot_decode_raw)

lemma pilot_decode_words:
  assumes "pilot_decode text = Inr p"
  shows "pilot_word_checks (ps_words p) (ps_source_rate p) = Inr ()"
    and "ps_source_rate p \<in> set PILOT_SOURCE_RATES_HZ"
    and "ps_first p = word_pair (ps_words p) 0" "ps_last p = word_pair (ps_words p) 2"
    and "ps_admitted p = word_pair (ps_words p) 4" "ps_delivered p = word_pair (ps_words p) 6"
  using assms by (auto simp: pilot_decode_def Let_def bindE_Inr_iff)

lemmas decoded_words = pilot_decode_words [OF decoded_snapshot_def [THEN iffD1]]

lemma word_checks_prefix:
  assumes "pilot_word_checks w source = Inr ()" and "word_pair w 4 \<noteq> 0"
  shows "538 \<le> word_pair w 0" "word_pair w 0 mod 6 = 0"
    and "word_pair w 2 = word_pair w 0 + 6 * (word_pair w 4 - 1)"
    and "(word_pair w 2 - 269) * (source div 15000000) < 2 ^ 64"
proof -
  note unfold = pilot_word_checks_def Let_def bindE_Inr_iff
    PILOT_DELAY_CANONICAL_SAMPLES_def PILOT_CANONICAL_RATE_HZ_def
  show "538 \<le> word_pair w 0" "word_pair w 0 mod 6 = 0"
    and s: "word_pair w 2 = word_pair w 0 + 6 * (word_pair w 4 - 1)"
    using assms by (simp_all add: unfold)
  have "\<not> 2 ^ 64 - 1 < (word_pair w 2 - 269) * (source div 15000000)"
    using assms(1) by (simp (no_asm_use) add: unfold assms(2)) blast
  then show "(word_pair w 2 - 269) * (source div 15000000) < 2 ^ 64" by linarith
qed

lemma word_checks_delivered: "pilot_word_checks w source = Inr () \<Longrightarrow> word_pair w 6 \<le> word_pair w 4"
  by (simp add: pilot_word_checks_def Let_def bindE_Inr_iff)

lemma decoded_prefix:
  assumes "decoded_snapshot p" and "0 < ps_delivered p"
  shows "538 \<le> ps_first p" "ps_first p mod 6 = 0" "ps_delivered p \<le> ps_admitted p"
    and "ps_last p = ps_first p + 6 * (ps_admitted p - 1)"
    and "(ps_last p - 269) * (ps_source_rate p div 15000000) < 2 ^ 64"
    and "ps_source_rate p \<in> {15000000, 30000000, 60000000}"
proof -
  note d = decoded_words [OF assms(1)]
  have le: "word_pair (ps_words p) 6 \<le> word_pair (ps_words p) 4" by (rule word_checks_delivered [OF d(1)])
  then have ne: "word_pair (ps_words p) 4 \<noteq> 0" using assms(2) d(6) by simp
  show "538 \<le> ps_first p" "ps_first p mod 6 = 0" "ps_delivered p \<le> ps_admitted p"
    "ps_last p = ps_first p + 6 * (ps_admitted p - 1)"
    "(ps_last p - 269) * (ps_source_rate p div 15000000) < 2 ^ 64"
    using word_checks_prefix [OF d(1) ne] le d by simp_all
  show "ps_source_rate p \<in> {15000000, 30000000, 60000000}" using d(2) by (simp add: PILOT_SOURCE_RATES_HZ_def)
qed

text \<open>
  Every exported sample of a decoded snapshot has a source coordinate that fits the 64-bit source counter,
  and consecutive samples are six canonical samples apart.
\<close>

lemma source_center_in_range:
  assumes "decoded_snapshot p" and "0 \<le> n" and "n < ps_delivered p" and "n < 2 ^ 64"
  shows "\<exists>c. source_center p n = Inr c \<and> c = (ps_first p + 6 * n - 269) * (ps_source_rate p div 15000000)
           \<and> 269 \<le> c \<and> c < 2 ^ 64"
proof -
  note d = decoded_prefix [OF assms(1)]
  let ?k = "ps_source_rate p div 15000000"
  have pos: "0 < ps_delivered p" using assms(2,3) by simp
  have k: "?k \<ge> 1" using d(6) [OF pos] by auto
  have top: "ps_first p + 6 * n - 269 \<le> ps_last p - 269" using d(3,4) [OF pos] assms(3) by simp
  have low: "269 \<le> ps_first p + 6 * n - 269" using d(1) [OF pos] assms(2) by simp
  let ?c = "(ps_first p + 6 * n - 269) * ?k"
  have "?c \<le> (ps_last p - 269) * ?k" by (rule mult_right_mono [OF top]) (use k in simp)
  then have high: "?c < 2 ^ 64" using d(5) [OF pos] by linarith
  have "(ps_first p + 6 * n - 269) * 1 \<le> ?c" by (rule mult_left_mono [OF k]) (use low in simp)
  then have "ps_first p + 6 * n - 269 \<le> ?c" by (simp only: mult_1_right)
  with low have least: "269 \<le> ?c" by (rule order_trans)
  have "source_center p n = Inr ?c"
    using assms(2-4)
    by (simp add: source_center_def u64_count_def checks_eval PILOT_DELAY_CANONICAL_SAMPLES_def
        PILOT_CANONICAL_RATE_HZ_def)
  with high least show ?thesis by blast
qed

end
