(* ===== verification/Pss_Records.thy ===== *)
theory Pss_Records
  imports Text
begin

text \<open>
  \<open>hardware/pss_iio.py\<close>, the records of the PSS correlator: fine timing packets, phase-map chunks,
  the reassembler of phase maps, the decoding of a native batch, and the coarse search over three maps.
  The IIO client that opens devices and reads buffers is not modelled; what it reads is an argument here.
\<close>

section \<open>Constants\<close>

definition PSS_PACKET_MAGIC :: int where
  "PSS_PACKET_MAGIC = 0x31535350"

definition PSS_PACKET_HEADER :: int where
  "PSS_PACKET_HEADER = 0x1A010001"

definition PSS_PACKET_BYTES :: nat where
  "PSS_PACKET_BYTES = 104"

definition PSS_TRACK_SCAN_BYTES :: nat where
  "PSS_TRACK_SCAN_BYTES = 128"

definition PSS_TRACK_VERSIONS :: "(int \<times> int) list" where
  "PSS_TRACK_VERSIONS = [(15, 0x00010002), (30, 0x00010003), (60, 0x00010003)]"

definition PSS_MAP_VERSIONS :: "(int \<times> int) list" where
  "PSS_MAP_VERSIONS = [(15, 0x00010001), (30, 0x00010002), (60, 0x00010004)]"

definition PSS_MAP_CAPABILITIES :: "(int \<times> int) list" where
  "PSS_MAP_CAPABILITIES = [(15, 0x3F), (30, 0x7F), (60, 0xFF)]"

definition PSS_MAP_SHARED_XFFT_VERSION :: int where
  "PSS_MAP_SHARED_XFFT_VERSION = 0x00010005"

definition PSS_MAP_BOUNDARY_STOP_VERSION :: int where
  "PSS_MAP_BOUNDARY_STOP_VERSION = 0x00010006"

definition PSS_MAP_CHUNK_MAGIC :: int where
  "PSS_MAP_CHUNK_MAGIC = 0x4B4E4843"

definition PSS_MAP_PHASE_BINS :: nat where
  "PSS_MAP_PHASE_BINS = 20000"

definition PSS_MAP_CHUNK_BINS :: nat where
  "PSS_MAP_CHUNK_BINS = 100"

definition PSS_MAP_CHUNKS :: nat where
  "PSS_MAP_CHUNKS = 200"

definition PSS_MAP_CHUNK_BYTES :: nat where
  "PSS_MAP_CHUNK_BYTES = 236"

definition PSS_MAP_SCAN_BYTES :: nat where
  "PSS_MAP_SCAN_BYTES = 256"

definition PSS_MAP_CANONICAL_SPAN :: int where
  "PSS_MAP_CANONICAL_SPAN = 1280000"

section \<open>Fine packets\<close>

text \<open>\<open>_s48\<close> and \<open>_u64\<close> join two 32-bit words.\<close>

definition s48 :: "int \<Rightarrow> int \<Rightarrow> int" where
  "s48 low high =
     (let value = low OR push_bit 32 (high AND 0xFFFF)
      in if has value (2 ^ 47) then value - 2 ^ 48 else value)"

definition u64_join :: "int \<Rightarrow> int \<Rightarrow> int" where
  "u64_join low high = low OR push_bit 32 high"

record fine_packet =
  fp_words :: "int list"
  fp_request_id :: int
  fp_center_index :: int
  fp_center_timestamp :: int
  fp_lag :: int
  fp_winner_timestamp :: int
  fp_coefficient_generation :: int
  fp_correlation_real :: int
  fp_correlation_imag :: int
  fp_sample_energy :: int
  fp_coefficient_energy :: int
  fp_saturation_events :: int

definition fine_fmt :: "field list" where
  "fine_fmt = replicate 26 (FU 4)"

definition fine_packet_of :: "int list \<Rightarrow> int \<Rightarrow> fine_packet" where
  "fine_packet_of w lag =
     \<lparr>fp_words = w, fp_request_id = w ! 2, fp_center_index = u64_join (w ! 3) (w ! 4),
      fp_center_timestamp = u64_join (w ! 5) (w ! 6), fp_lag = lag,
      fp_winner_timestamp = u64_join (w ! 8) (w ! 9), fp_coefficient_generation = w ! 10,
      fp_correlation_real = s48 (w ! 11) (w ! 12), fp_correlation_imag = s48 (w ! 13) (w ! 14),
      fp_sample_energy = s48 (w ! 15) (w ! 16), fp_coefficient_energy = s48 (w ! 17) (w ! 18),
      fp_saturation_events = w ! 19\<rparr>"

definition fine_packet_decode :: "bytes \<Rightarrow> int \<Rightarrow> fine_packet result" where
  "fine_packet_decode payload rate =
     bindE (checks
       [(rate \<notin> fst ` set PSS_TRACK_VERSIONS, ValueError ''PSS tracker rate must be 15, 30, or 60 MS/s''),
        (length payload \<noteq> PSS_PACKET_BYTES, ValueError ''fine packet size'')]) (\<lambda>_.
     bindE (struct_unpack fine_fmt payload) (\<lambda>vs.
     bindE (struct_unpack [FS 4] (slice 28 32 payload)) (\<lambda>ls.
     let w = map as_int vs; p = fine_packet_of w (int_at ls 0); maximum_lag = 30 * (rate div 15) in
     bindE (checks
       [(w ! 0 \<noteq> PSS_PACKET_MAGIC \<or> w ! 1 \<noteq> PSS_PACKET_HEADER,
         ValueError ''fine packet envelope does not match PSS ABI 1''),
        (w ! 2 = 0 \<or> w ! 10 = 0,
         ValueError ''fine packet request and coefficient generations must be nonzero''),
        (fp_center_index p \<noteq> fp_center_timestamp p, ValueError ''fine packet center index/timestamp disagree''),
        (\<not> (- maximum_lag \<le> fp_lag p \<and> fp_lag p \<le> maximum_lag),
         ValueError ''fine packet winning lag is outside the qualified aperture''),
        (fp_winner_timestamp p \<noteq> fp_center_timestamp p + fp_lag p,
         ValueError ''fine packet winner timestamp is inconsistent''),
        (w ! 19 \<noteq> 0, ValueError ''fine packet reports arithmetic saturation''),
        (fp_sample_energy p \<le> 0 \<or> fp_coefficient_energy p \<le> 0,
         ValueError ''fine packet energy must be positive'')]) (\<lambda>_. Inr p))))"

section \<open>Phase maps\<close>

record map_chunk =
  mc_abi :: int
  mc_generation :: int
  mc_index :: int
  mc_count :: int
  mc_start :: int
  mc_first_bin :: int
  mc_bins :: "int list"

definition map_chunk_decode :: "bytes \<Rightarrow> bool \<Rightarrow> bool \<Rightarrow> map_chunk result" where
  "map_chunk_decode payload shared stop =
     bindE (checks
       [(stop \<and> \<not> shared, ValueError ''boundary-stop chunk decoding requires explicit shared opt-in''),
        (length payload \<noteq> PSS_MAP_CHUNK_BYTES, ValueError ''phase-map chunk size'')]) (\<lambda>_.
     bindE (struct_unpack_from (replicate 9 (FU 4)) payload 0) (\<lambda>ms.
     bindE (struct_unpack_from (replicate 100 (FU 2)) payload 36) (\<lambda>bs.
     let m = map as_int ms; bins = map as_int bs in
     bindE (checks
       [(m ! 0 \<noteq> PSS_MAP_CHUNK_MAGIC, ValueError ''phase-map chunk magic is invalid''),
        (m ! 1 \<notin> snd ` set PSS_MAP_VERSIONS \<and>
         \<not> ((shared \<and> m ! 1 = PSS_MAP_SHARED_XFFT_VERSION) \<or> (stop \<and> m ! 1 = PSS_MAP_BOUNDARY_STOP_VERSION)),
         ValueError ''phase-map chunk ABI is unsupported''),
        (m ! 2 = 0, ValueError ''phase-map generation must be nonzero''),
        (m ! 4 \<noteq> int PSS_MAP_CHUNKS \<or> m ! 3 \<ge> m ! 4, ValueError ''phase-map chunk geometry is invalid''),
        (m ! 7 \<noteq> m ! 3 * int PSS_MAP_CHUNK_BINS \<or> m ! 8 \<noteq> int (length bins),
         ValueError ''phase-map chunk bin range is inconsistent'')]) (\<lambda>_.
     Inr \<lparr>mc_abi = m ! 1, mc_generation = m ! 2, mc_index = m ! 3, mc_count = m ! 4,
          mc_start = u64_join (m ! 5) (m ! 6), mc_first_bin = m ! 7, mc_bins = bins\<rparr>))))"

record phase_map =
  pm_abi :: int
  pm_generation :: int
  pm_start :: int
  pm_bins :: "int list"

definition source_start_index :: "phase_map \<Rightarrow> int \<Rightarrow> int result" where
  "source_start_index pm rate =
     bindE (checks [(rate \<notin> fst ` set PSS_MAP_VERSIONS, ValueError ''PSS map rate must be 15, 30, or 60 MS/s'')])
       (\<lambda>_. Inr (pm_start pm * (rate div 15)))"

text \<open>\<open>_map_contract\<close>: the ABI version and the capability word a map device must report.\<close>

definition map_contract :: "int \<Rightarrow> bool \<Rightarrow> bool \<Rightarrow> (int \<times> int) result" where
  "map_contract rate shared stop =
     (if stop then
        bindE (checks [(\<not> shared \<or> rate \<noteq> 15,
                        ValueError ''experimental boundary-stop ABI 1.6 requires shared 15 MS/s'')])
          (\<lambda>_. Inr (PSS_MAP_BOUNDARY_STOP_VERSION, 0x33F))
      else case map_of PSS_MAP_VERSIONS rate of
        None \<Rightarrow> Inl (ValueError ''PSS map rate must be 15, 30, or 60 MS/s'')
      | Some version \<Rightarrow>
          if shared then
            bindE (checks [(rate \<noteq> 15, ValueError ''experimental shared-XFFT ABI 1.5 only supports 15 MS/s'')])
              (\<lambda>_. Inr (PSS_MAP_SHARED_XFFT_VERSION, 0x13F))
          else Inr (version, the (map_of PSS_MAP_CAPABILITIES rate)))"

section \<open>PssMapReassembler\<close>

text \<open>
  The state is the list of chunks kept so far. \<open>add\<close> returns the state it leaves with its result; every
  refusal leaves the empty state.
\<close>

definition same_generation :: "map_chunk \<Rightarrow> map_chunk \<Rightarrow> bool" where
  "same_generation c first \<longleftrightarrow>
     mc_abi c = mc_abi first \<and> mc_generation c = mc_generation first \<and> mc_start c = mc_start first
     \<and> mc_count c = mc_count first"

definition map_add :: "map_chunk list \<Rightarrow> map_chunk \<Rightarrow> map_chunk list \<times> phase_map option result" where
  "map_add kept chunk =
     (if mc_index chunk = 0 \<and> kept \<noteq> [] then
        ([], Inl (ValueError ''phase-map restart discarded incomplete generation''))
      else if mc_index chunk \<noteq> int (length kept) then
        ([], Inl (ValueError ''phase-map chunks are missing, duplicated, or out of order''))
      else if kept \<noteq> [] \<and> \<not> same_generation chunk (hd kept) then
        ([], Inl (ValueError ''phase-map generation changed during reassembly''))
      else
        let chunks = kept @ [chunk] in
        if int (length chunks) \<noteq> mc_count chunk then (chunks, Inr None)
        else
          let first = hd chunks; bins = concat (map mc_bins chunks) in
          if length bins \<noteq> PSS_MAP_PHASE_BINS then
            ([], Inl (ValueError ''reassembled phase map has the wrong bin count''))
          else ([], Inr (Some \<lparr>pm_abi = mc_abi first, pm_generation = mc_generation first,
                              pm_start = mc_start first, pm_bins = bins\<rparr>)))"

text \<open>The loop of \<open>reassemble_maps\<close> and \<open>PssIioClient.read_maps\<close>: the first exception ends it.\<close>

fun add_all :: "map_chunk list \<Rightarrow> map_chunk list \<Rightarrow> map_chunk list \<times> phase_map list result" where
  "add_all kept [] = (kept, Inr [])"
| "add_all kept (c # cs) =
     (case map_add kept c of
        (k, Inl e) \<Rightarrow> (k, Inl e)
      | (k, Inr m) \<Rightarrow>
          (case add_all k cs of
             (k2, Inl e) \<Rightarrow> (k2, Inl e)
           | (k2, Inr ms) \<Rightarrow> (k2, Inr (case m of None \<Rightarrow> ms | Some x \<Rightarrow> x # ms))))"

definition reassemble_maps :: "map_chunk list \<Rightarrow> phase_map list result" where
  "reassemble_maps chunks =
     (case add_all [] chunks of
        (_, Inl e) \<Rightarrow> Inl e
      | (kept, Inr ms) \<Rightarrow>
          if kept \<noteq> [] then Inl (ValueError ''phase-map stream ended with an incomplete map'') else Inr ms)"

section \<open>Native batches\<close>

text \<open>\<open>_split_scans\<close> and \<open>_unpadded_scan\<close>.\<close>

definition rc_err :: "string \<Rightarrow> exn" where
  "rc_err m = RadioConfigurationError m"

definition scan_slots :: "nat \<Rightarrow> bytes \<Rightarrow> bytes list" where
  "scan_slots stride raw =
     map (\<lambda>i. slice (i * stride) (i * stride + stride) raw) [0 ..< (length raw + stride - 1) div stride]"

definition split_scans :: "bytes \<Rightarrow> nat \<Rightarrow> bytes list result" where
  "split_scans payload stride =
     bindE (checks [(payload = [] \<or> length payload mod stride \<noteq> 0, rc_err ''IIO refill returned partial scans'')])
       (\<lambda>_. Inr (scan_slots stride payload))"

definition unpadded_scan :: "bytes \<Rightarrow> nat \<Rightarrow> bytes result" where
  "unpadded_scan scan n =
     bindE (checks [(list_ex (\<lambda>b. b \<noteq> 0) (drop n scan), rc_err ''IIO transport padding is nonzero'')])
       (\<lambda>_. Inr (take n scan))"

record batch_attributes =
  ba_fault_flags :: "int option"
  ba_generation :: "int option"
  ba_raw :: "(string \<times> string) list"
  ba_errors :: "string list"

datatype decoded_scan = FineScan fine_packet | ChunkScan map_chunk

record batch_scan =
  bs_index :: nat
  bs_offset :: nat
  bs_count :: nat
  bs_decoded :: "decoded_scan option"
  bs_errors :: "string list"

record batch_receipt =
  br_stream :: string
  br_stream_id :: string
  br_batch_index :: int
  br_rate_msps :: int
  br_abi :: int
  br_requested :: int
  br_scan_bytes :: int
  br_buffer_bytes :: "int option"
  br_buffer_step :: "int option"
  br_refill_started :: bool
  br_refill_completed :: bool
  br_native_bytes :: "int option"
  br_observed_bytes :: "int option"
  br_raw :: "bytes option"
  br_before :: "batch_attributes option"
  br_after :: "batch_attributes option"
  br_expected_request :: "int option"
  br_remaining :: "int option"
  br_scans :: "batch_scan list"
  br_errors :: "string list"

definition raw_retention_complete :: "batch_receipt \<Rightarrow> bool" where
  "raw_retention_complete b \<longleftrightarrow>
     (case br_raw b of None \<Rightarrow> False | Some raw \<Rightarrow> br_observed_bytes b = Some (int (length raw)))"

definition receipt_complete :: "batch_receipt \<Rightarrow> bool" where
  "receipt_complete b \<longleftrightarrow>
     br_errors b = [] \<and> br_refill_completed b \<and> raw_retention_complete b
     \<and> br_observed_bytes b = Some (br_requested b * br_scan_bytes b)
     \<and> int (length (br_scans b)) = br_requested b
     \<and> list_all (\<lambda>(i, s). bs_index s = i \<and> int (bs_offset s) = int i * br_scan_bytes b
                     \<and> int (bs_count s) = br_scan_bytes b \<and> bs_decoded s \<noteq> None \<and> bs_errors s = [])
         (enumerate 0 (br_scans b))"

text \<open>
  \<open>_decode_batch_scans\<close>: every slot is decoded on its own; an exception of a slot becomes a diagnostic
  of that slot and the packet or chunk decoded before it is kept. The client's attributes are arguments.
\<close>

record batch_client =
  cl_rate :: int
  cl_shared :: bool
  cl_stop :: bool
  cl_map_abi :: int

definition fine_slot_errors :: "batch_attributes \<Rightarrow> int option \<Rightarrow> int option \<Rightarrow> nat \<Rightarrow> fine_packet \<Rightarrow> string list" where
  "fine_slot_errors before expected remaining i p =
     (if ba_generation before \<noteq> Some (fp_coefficient_generation p)
      then [''fine packet coefficient generation differs from before read''] else []) @
     (if expected \<noteq> Some (fp_request_id p - int i)
      then [''fine packet request sequence is discontinuous or wraps''] else []) @
     (case remaining of None \<Rightarrow> []
      | Some r \<Rightarrow> if int i \<ge> r then [''fine packet exceeds the finite schedule''] else [])"

definition slot_payload :: "nat \<Rightarrow> nat \<Rightarrow> bytes \<Rightarrow> bytes result" where
  "slot_payload stride n scan =
     bindE (checks [(length scan \<noteq> stride, ValueError ''truncated trailing scan'')]) (\<lambda>_. unpadded_scan scan n)"

definition decode_slot ::
  "batch_client \<Rightarrow> bool \<Rightarrow> batch_attributes \<Rightarrow> int option \<Rightarrow> int option \<Rightarrow> nat \<Rightarrow> bytes
     \<Rightarrow> decoded_scan option \<times> string list" where
  "decode_slot cl fine before expected remaining i scan =
     (if fine then
        case bindE (slot_payload PSS_TRACK_SCAN_BYTES PSS_PACKET_BYTES scan)
               (\<lambda>payload. fine_packet_decode payload (cl_rate cl)) of
          Inl e \<Rightarrow> (None, [''decode''])
        | Inr p \<Rightarrow> (Some (FineScan p), fine_slot_errors before expected remaining i p)
      else
        case bindE (slot_payload PSS_MAP_SCAN_BYTES PSS_MAP_CHUNK_BYTES scan)
               (\<lambda>payload. map_chunk_decode payload (cl_shared cl) (cl_stop cl)) of
          Inl e \<Rightarrow> (None, [''decode''])
        | Inr c \<Rightarrow> (Some (ChunkScan c),
            if mc_abi c \<noteq> cl_map_abi cl then [''map chunk ABI differs from the admitted context''] else []))"

definition decode_batch_scans ::
  "batch_client \<Rightarrow> bytes \<Rightarrow> bool \<Rightarrow> batch_attributes \<Rightarrow> int option \<Rightarrow> int option \<Rightarrow> batch_scan list" where
  "decode_batch_scans cl raw fine before expected remaining =
     (let stride = (if fine then PSS_TRACK_SCAN_BYTES else PSS_MAP_SCAN_BYTES) in
      map (\<lambda>(i, scan).
             let d = decode_slot cl fine before expected remaining i scan in
             \<lparr>bs_index = i, bs_offset = i * stride, bs_count = length scan,
              bs_decoded = fst d, bs_errors = snd d\<rparr>)
        (enumerate 0 (scan_slots stride raw)))"

section \<open>The coarse search\<close>

text \<open>
  \<open>analyze_phase_maps\<close>: the checks of the maps and of the drift hypotheses, and the
  search. \<open>max(range(n), key=f)\<close> is the first index of a maximum; a later hypothesis replaces an earlier
  one only with a larger score. The medians and frame periods of the winner are exact in double precision and
  are rationals here; the two ratios \<open>peak_to_median\<close> and \<open>robust_z\<close> are rounded and left out.
\<close>

definition argmax :: "int list \<Rightarrow> nat" where
  "argmax xs = foldl (\<lambda>best i. if xs ! i > xs ! best then i else best) 0 [0 ..< length xs]"

definition combined_scores :: "phase_map list \<Rightarrow> int \<Rightarrow> int list" where
  "combined_scores maps drift =
     map (\<lambda>phase. \<Sum>(tile, pm) \<leftarrow> enumerate 0 maps.
            pm_bins pm ! nat ((int phase + int tile * drift) mod int PSS_MAP_PHASE_BINS))
       [0 ..< PSS_MAP_PHASE_BINS]"

fun best_hypothesis :: "phase_map list \<Rightarrow> (int \<times> nat \<times> int) \<Rightarrow> int list \<Rightarrow> int \<times> nat \<times> int" where
  "best_hypothesis maps best [] = best"
| "best_hypothesis maps best (drift # ds) =
     (let combined = combined_scores maps drift; phase = argmax combined; score = combined ! phase in
      best_hypothesis maps (if score > snd (snd best) then (drift, phase, score) else best) ds)"

definition coarse_checks :: "phase_map list \<Rightarrow> int \<Rightarrow> int list \<Rightarrow> bool \<Rightarrow> bool \<Rightarrow> unit result" where
  "coarse_checks maps rate hypotheses shared stop =
     bindE (map_contract rate shared stop) (\<lambda>(expected_abi, _).
     bindE (checks
       [(length maps \<noteq> 3, ValueError ''exactly three complete phase maps are required''),
        (\<not> (1 \<le> length hypotheses \<and> length hypotheses \<le> 7)
         \<or> list_ex (\<lambda>v. \<not> (- int PSS_MAP_PHASE_BINS < v \<and> v < int PSS_MAP_PHASE_BINS)) hypotheses
         \<or> list_ex (\<lambda>(l, r). r \<le> l) (zip hypotheses (tl hypotheses)),
         ValueError ''drift bank must contain one through seven strictly increasing bounded integers'')]) (\<lambda>_.
     bindE (mapE (\<lambda>pm. checks
       [(pm_abi pm \<noteq> expected_abi, ValueError ''phase-map ABI does not match the selected sample rate''),
        (length (pm_bins pm) \<noteq> PSS_MAP_PHASE_BINS, ValueError ''phase map must contain exactly 20,000 bins''),
        (list_ex (\<lambda>v. \<not> (0 \<le> v \<and> v \<le> 0xFFFF)) (pm_bins pm),
         ValueError ''phase-map bins must be unsigned 16-bit integers'')]) maps) (\<lambda>_.
     bindE (mapE (\<lambda>(previous, current). checks
       [(pm_generation previous = 0 \<or> pm_generation previous = 0xFFFFFFFF
         \<or> pm_generation current \<noteq> pm_generation previous + 1
         \<or> pm_start current \<noteq> pm_start previous + PSS_MAP_CANONICAL_SPAN,
         ValueError ''phase-map generations or canonical start indexes are discontinuous'')])
       (zip maps (tl maps))) (\<lambda>_. Inr ()))))"

record coarse_estimate =
  ce_phase_bin :: nat
  ce_drift :: int
  ce_score :: int
  ce_median :: rat
  ce_deviation :: rat
  ce_candidate_canonical :: int
  ce_candidate_source :: int
  ce_period_canonical :: rat
  ce_period_source :: rat
  ce_reference_generation :: int
  ce_newest_generation :: int
  ce_reference_start :: int
  ce_newest_start :: int

text \<open>\<open>statistics.median\<close>.\<close>

definition median :: "rat list \<Rightarrow> rat" where
  "median xs =
     (let s = sort xs; h = length s div 2 in if odd (length s) then s ! h else (s ! (h - 1) + s ! h) / 2)"

definition analyze_phase_maps ::
  "phase_map list \<Rightarrow> int \<Rightarrow> int list \<Rightarrow> bool \<Rightarrow> bool \<Rightarrow> coarse_estimate result" where
  "analyze_phase_maps maps rate hypotheses shared stop =
     bindE (coarse_checks maps rate hypotheses shared stop) (\<lambda>_.
     case best_hypothesis maps (hd hypotheses, 0, -1) hypotheses of (drift, phase, score) \<Rightarrow>
     let candidate = pm_start (hd maps) + int phase; combined = map of_int (combined_scores maps drift);
         middle = median combined; period = of_nat PSS_MAP_PHASE_BINS + of_int drift / 64 in
     Inr \<lparr>ce_phase_bin = phase, ce_drift = drift, ce_score = score, ce_median = middle,
          ce_deviation = median (map (\<lambda>v. \<bar>v - middle\<bar>) combined),
          ce_candidate_canonical = candidate, ce_candidate_source = candidate * (rate div 15),
          ce_period_canonical = period, ce_period_source = period * of_int (rate div 15),
          ce_reference_generation = pm_generation (hd maps), ce_newest_generation = pm_generation (last maps),
          ce_reference_start = pm_start (hd maps), ce_newest_start = pm_start (last maps)\<rparr>)"

end
