(* ===== verification/Source_Support.thy ===== *)
theory Source_Support
  imports Pilot_Snapshot Pss_Records
begin

text \<open>
  \<open>hardware/source_support.py\<close>: which original ADC samples a pilot slice, a phase map or a fine search
  depends on, the evidence records that carry such a support, and the join of a record ledger with a
  comparison interval. Every constructor validates: a value exists when its \<open>_new\<close> or \<open>_validate\<close>
  returns.
\<close>

section \<open>Identities and intervals\<close>

text \<open>\<open>_integer\<close> and \<open>_identifier\<close>.\<close>

definition uint_guard :: "int \<Rightarrow> int \<Rightarrow> string \<Rightarrow> bool \<times> exn" where
  "uint_guard maximum v name = (\<not> (0 \<le> v \<and> v \<le> maximum), ValueError (name @ '' must be an unsigned integer''))"

definition U32 :: int where
  "U32 = 2 ^ 32 - 1"

definition U64 :: int where
  "U64 = 2 ^ 64 - 1"

definition ok_identifier :: "nat \<Rightarrow> string \<Rightarrow> bool" where
  "ok_identifier maximum s \<longleftrightarrow>
     ascii_text s \<and> 1 \<le> length s \<and> length s \<le> maximum \<and> list_all (\<lambda>c. 33 \<le> (of_char c :: nat) \<and> \<not> py_space c) s"

definition ident_guard :: "nat \<Rightarrow> string \<Rightarrow> string \<Rightarrow> bool \<times> exn" where
  "ident_guard maximum s name =
     (\<not> ok_identifier maximum s, ValueError (name @ '' must be a nonempty bounded ASCII identifier''))"

datatype processing_profile = PAIRED_15_V1 | PAIRED_15_STOP_V1

fun map_abi_version :: "processing_profile \<Rightarrow> int" where
  "map_abi_version PAIRED_15_STOP_V1 = 0x10006"
| "map_abi_version PAIRED_15_V1 = 0x10005"

record observation_identity =
  oi_serial :: string
  oi_boot_id :: string
  oi_session_id :: string
  oi_visit_id :: int
  oi_source_rate_hz :: int
  oi_profile :: processing_profile
  oi_frequency_plan_id :: string
  oi_fingerprint :: string

definition observation_validate :: "observation_identity \<Rightarrow> unit result" where
  "observation_validate o1 = checks
     [ident_guard 256 (oi_serial o1) ''serial'',
      ident_guard 256 (oi_boot_id o1) ''boot_id'',
      ident_guard 256 (oi_session_id o1) ''session_id'',
      ident_guard 256 (oi_frequency_plan_id o1) ''frequency_plan_id'',
      uint_guard U32 (oi_visit_id o1) ''visit_id'',
      (oi_visit_id o1 = 0, ValueError ''visit_id must be nonzero''),
      (oi_source_rate_hz o1 \<noteq> 15000000,
       ValueError ''only the explicit paired 15 MS/s shared-XFFT profile is supported''),
      (\<not> lower_digest (oi_fingerprint o1), ValueError ''processing_fingerprint must be a lowercase SHA256'')]"

record source_interval =
  si_start :: int
  si_stop :: int

definition interval_validate :: "source_interval \<Rightarrow> unit result" where
  "interval_validate i = checks
     [uint_guard U64 (si_start i) ''interval start'', uint_guard (2 ^ 64) (si_stop i) ''interval stop'',
      (si_start i \<ge> si_stop i, ValueError ''source interval must be nonempty and increasing'')]"

definition interval_new :: "int \<Rightarrow> int \<Rightarrow> source_interval result" where
  "interval_new start stop =
     (let i = \<lparr>si_start = start, si_stop = stop\<rparr> in bindE (interval_validate i) (\<lambda>_. Inr i))"

definition si_samples :: "source_interval \<Rightarrow> int" where
  "si_samples i = si_stop i - si_start i"

definition si_contains :: "source_interval \<Rightarrow> source_interval \<Rightarrow> bool" where
  "si_contains i j \<longleftrightarrow> si_start i \<le> si_start j \<and> si_stop j \<le> si_stop i"

definition si_intersection :: "source_interval \<Rightarrow> source_interval \<Rightarrow> source_interval option result" where
  "si_intersection i j =
     (let start = max (si_start i) (si_start j); stop = min (si_stop i) (si_stop j) in
      if start < stop then bindE (interval_new start stop) (\<lambda>k. Inr (Some k)) else Inr None)"

record source_lattice =
  sl_first :: int
  sl_step :: int
  sl_count :: int

definition sl_last :: "source_lattice \<Rightarrow> int" where
  "sl_last l = sl_first l + (sl_count l - 1) * sl_step l"

definition lattice_validate :: "source_lattice \<Rightarrow> unit result" where
  "lattice_validate l = checks
     [uint_guard U64 (sl_first l) ''first'', uint_guard U64 (sl_step l) ''step'', uint_guard U64 (sl_count l) ''count'',
      (sl_step l = 0 \<or> sl_count l = 0, ValueError ''lattice step/count must be positive''),
      uint_guard U64 (sl_last l) ''last lattice center'']"

definition lattice_new :: "int \<Rightarrow> int \<Rightarrow> int \<Rightarrow> source_lattice result" where
  "lattice_new first step count =
     (let l = \<lparr>sl_first = first, sl_step = step, sl_count = count\<rparr> in bindE (lattice_validate l) (\<lambda>_. Inr l))"

definition sl_bounds :: "source_lattice \<Rightarrow> source_interval result" where
  "sl_bounds l = interval_new (sl_first l) (sl_last l + 1)"

section \<open>Supports\<close>

definition PILOT_RADIUS :: int where
  "PILOT_RADIUS = 269"

record pilot_support =
  pl_observation :: observation_identity
  pl_output_start :: int
  pl_centers :: source_lattice
  pl_raw_inputs :: source_interval

definition pilot_support_validate :: "pilot_support \<Rightarrow> unit result" where
  "pilot_support_validate s =
     (let c = pl_centers s; newest = sl_first c + PILOT_RADIUS in
      bindE (checks
        [uint_guard U64 (pl_output_start s) ''pilot output start'',
         uint_guard (2 ^ 64) (pl_output_start s + sl_count c) ''pilot output stop'',
         (sl_step c \<noteq> 6 \<or> newest < 538 \<or> newest mod 6 \<noteq> 0,
          ValueError ''pilot center lattice violates the supported absolute decimation phase'')]) (\<lambda>_.
      bindE (interval_new (sl_first c - PILOT_RADIUS) (sl_last c + PILOT_RADIUS + 1)) (\<lambda>inputs.
      checks [(pl_raw_inputs s \<noteq> inputs, ValueError ''pilot raw-input support disagrees with its center lattice'')])))"

definition pilot_support_new ::
  "observation_identity \<Rightarrow> int \<Rightarrow> source_lattice \<Rightarrow> source_interval \<Rightarrow> pilot_support result" where
  "pilot_support_new o1 start centers inputs =
     (let s = \<lparr>pl_observation = o1, pl_output_start = start, pl_centers = centers, pl_raw_inputs = inputs\<rparr> in
      bindE (pilot_support_validate s) (\<lambda>_. Inr s))"

datatype envelope_kind = EXACT_BLOCK_ENVELOPE | CONSERVATIVE_BLOCK_ENVELOPE

definition MAP_SAMPLES :: int where
  "MAP_SAMPLES = 20000 * 64"

definition FFT_SAMPLES :: int where
  "FFT_SAMPLES = 512"

definition FFT_STRIDE :: int where
  "FFT_STRIDE = 447"

definition map_envelope :: "source_interval \<Rightarrow> int option \<Rightarrow> (source_interval \<times> envelope_kind) result" where
  "map_envelope starts origin =
     (case origin of
        None \<Rightarrow> bindE (interval_new (si_start starts - 446) (si_stop starts + 511))
                  (\<lambda>i. Inr (i, CONSERVATIVE_BLOCK_ENVELOPE))
      | Some n \<Rightarrow>
          bindE (checks
            [uint_guard U64 n ''FFT origin'',
             (n > si_start starts \<or> (si_start starts - n) mod 20000 \<noteq> 0,
              ValueError ''map start is inconsistent with the epoch-relative phase origin'')]) (\<lambda>_.
          let first_block = n + ((si_start starts - n) div FFT_STRIDE) * FFT_STRIDE;
              last_block = n + ((si_stop starts - 1 - n) div FFT_STRIDE) * FFT_STRIDE in
          bindE (interval_new first_block (last_block + FFT_SAMPLES)) (\<lambda>i. Inr (i, EXACT_BLOCK_ENVELOPE))))"

record map_support =
  ms_observation :: observation_identity
  ms_generation :: int
  ms_candidate_starts :: source_interval
  ms_ideal_inputs :: source_interval
  ms_processing_inputs :: source_interval
  ms_envelope_kind :: envelope_kind
  ms_fft_origin :: "int option"

definition map_support_validate :: "map_support \<Rightarrow> unit result" where
  "map_support_validate s =
     bindE (checks
       [uint_guard U32 (ms_generation s) ''map generation'',
        (ms_generation s = 0 \<or> si_samples (ms_candidate_starts s) \<noteq> MAP_SAMPLES,
         ValueError ''phase map generation or complete candidate span is invalid'')]) (\<lambda>_.
     bindE (map_envelope (ms_candidate_starts s) (ms_fft_origin s)) (\<lambda>(expected, kind).
     if ms_processing_inputs s \<noteq> expected \<or> ms_envelope_kind s \<noteq> kind
     then Inl (ValueError ''phase map support differs from its explicit processing geometry'')
     else
       bindE (interval_new (si_start (ms_candidate_starts s)) (si_stop (ms_candidate_starts s) + 65)) (\<lambda>ideal.
       checks [(ms_ideal_inputs s \<noteq> ideal,
                ValueError ''phase map support differs from its explicit processing geometry'')])))"

record fine_search_support =
  fs_observation :: observation_identity
  fs_request_id :: int
  fs_coefficient_generation :: int
  fs_center :: int
  fs_winner :: int
  fs_winner_inputs :: source_interval
  fs_capture_inputs :: source_interval

definition geometry_error :: exn where
  "geometry_error = ValueError ''fine search support differs from the admitted 15 MS/s geometry''"

definition fine_support_validate :: "fine_search_support \<Rightarrow> unit result" where
  "fine_support_validate s =
     bindE (checks
       [uint_guard U32 (fs_request_id s) ''request_id'',
        (fs_request_id s = 0, ValueError ''request_id must be nonzero''),
        uint_guard U32 (fs_coefficient_generation s) ''coefficient_generation'',
        (fs_coefficient_generation s = 0, ValueError ''coefficient_generation must be nonzero''),
        uint_guard U64 (fs_center s) ''fine center'',
        uint_guard U64 (fs_winner s) ''fine winner'',
        (\<bar>fs_winner s - fs_center s\<bar> > 30, geometry_error)]) (\<lambda>_.
     bindE (interval_new (fs_winner s) (fs_winner s + 66)) (\<lambda>winner.
     if fs_winner_inputs s \<noteq> winner then Inl geometry_error
     else bindE (interval_new (fs_center s - 32) (fs_center s + 98)) (\<lambda>capture.
     checks [(fs_capture_inputs s \<noteq> capture, geometry_error)])))"

definition pilot_slice_support ::
  "pilot_snapshot \<Rightarrow> observation_identity \<Rightarrow> int \<Rightarrow> int \<Rightarrow> int \<Rightarrow> int \<Rightarrow> pilot_support result" where
  "pilot_slice_support snapshot o1 expected received start stop =
     bindE (pilot_decode (ps_raw snapshot)) (\<lambda>again.
     bindE (checks [(again \<noteq> snapshot, ValueError ''pilot snapshot fields differ from its raw receipt'')]) (\<lambda>_.
     bindE (require_complete_prefix snapshot (oi_visit_id o1) (oi_source_rate_hz o1) expected received) (\<lambda>_.
     bindE (checks
       [uint_guard U64 start ''pilot slice start'', uint_guard U64 stop ''pilot slice stop'',
        (\<not> (start < stop \<and> stop \<le> ps_delivered snapshot),
         ValueError ''pilot slice is outside the complete received prefix'')]) (\<lambda>_.
     bindE (source_center snapshot start) (\<lambda>first.
     bindE (lattice_new first 6 (stop - start)) (\<lambda>centers.
     bindE (interval_new (sl_first centers - PILOT_RADIUS) (sl_last centers + PILOT_RADIUS + 1)) (\<lambda>inputs.
     pilot_support_new o1 start centers inputs)))))))"

definition map_support_of ::
  "phase_map \<Rightarrow> observation_identity \<Rightarrow> int option \<Rightarrow> map_support result" where
  "map_support_of pm o1 fft_origin =
     bindE (checks
       ([(pm_abi pm \<noteq> map_abi_version (oi_profile o1),
          ValueError ''phase map does not match the explicit shared-XFFT ABI profile''),
         uint_guard U32 (pm_generation pm) ''map generation'',
         (pm_generation pm = 0 \<or> length (pm_bins pm) \<noteq> 20000,
          ValueError ''phase map must have a generation and 20000 complete bins'')] @
        map (\<lambda>v. uint_guard 0xFFFF v ''map bin'') (pm_bins pm))) (\<lambda>_.
     bindE (interval_new (pm_start pm) (pm_start pm + MAP_SAMPLES)) (\<lambda>starts.
     bindE (interval_new (si_start starts) (si_stop starts + 65)) (\<lambda>ideal.
     bindE (map_envelope starts fft_origin) (\<lambda>(processing, kind).
     let s = \<lparr>ms_observation = o1, ms_generation = pm_generation pm, ms_candidate_starts = starts,
              ms_ideal_inputs = ideal, ms_processing_inputs = processing, ms_envelope_kind = kind,
              ms_fft_origin = fft_origin\<rparr> in
     bindE (map_support_validate s) (\<lambda>_. Inr s)))))"

definition fine_support :: "fine_packet \<Rightarrow> observation_identity \<Rightarrow> int \<Rightarrow> fine_search_support result" where
  "fine_support packet o1 coefficient_generation =
     bindE (checks
       ([(length (fp_words packet) \<noteq> 26, ValueError ''fine packet must contain exactly 26 words''),
         uint_guard U32 coefficient_generation ''coefficient generation''] @
        map (\<lambda>w. uint_guard U32 w ''fine packet word'') (fp_words packet))) (\<lambda>_.
     bindE (struct_pack (replicate (length (fp_words packet)) (FU 4)) (map VInt (fp_words packet))) (\<lambda>payload.
     bindE (fine_packet_decode payload 15) (\<lambda>decoded.
     bindE (checks
       [(decoded \<noteq> packet \<or> fp_coefficient_generation decoded \<noteq> coefficient_generation,
         ValueError ''fine packet differs from its raw words or expected coefficient generation'')]) (\<lambda>_.
     bindE (interval_new (fp_winner_timestamp packet) (fp_winner_timestamp packet + 66)) (\<lambda>winner.
     bindE (interval_new (fp_center_index packet - 32) (fp_center_index packet + 98)) (\<lambda>capture.
     let s = \<lparr>fs_observation = o1, fs_request_id = fp_request_id packet,
              fs_coefficient_generation = fp_coefficient_generation packet, fs_center = fp_center_index packet,
              fs_winner = fp_winner_timestamp packet, fs_winner_inputs = winner, fs_capture_inputs = capture\<rparr> in
     bindE (fine_support_validate s) (\<lambda>_. Inr s)))))))"

section \<open>Evidence records\<close>

datatype record_kind = PILOT | MAP | FINE

datatype record_state = COMPLETE | INCOMPLETE | UNOBSERVABLE

datatype detection_state = NOT_EVALUATED | TRIGGER | NO_TRIGGER

datatype support = PilotSupport pilot_support | MapSupport map_support | FineSupport fine_search_support

fun support_kind :: "support \<Rightarrow> record_kind" where
  "support_kind (PilotSupport s) = PILOT"
| "support_kind (MapSupport s) = MAP"
| "support_kind (FineSupport s) = FINE"

fun support_observation :: "support \<Rightarrow> observation_identity" where
  "support_observation (PilotSupport s) = pl_observation s"
| "support_observation (MapSupport s) = ms_observation s"
| "support_observation (FineSupport s) = fs_observation s"

record source_record =
  sr_observation :: observation_identity
  sr_record_id :: string
  sr_kind :: record_kind
  sr_state :: record_state
  sr_support :: "support option"
  sr_detection :: detection_state
  sr_reason :: "string option"

definition blank :: "string \<Rightarrow> bool" where
  "blank s \<longleftrightarrow> list_all py_space s"

definition source_record_validate :: "source_record \<Rightarrow> unit result" where
  "source_record_validate r = checks
     [ident_guard 256 (sr_record_id r) ''record_id'',
      (case sr_support r of None \<Rightarrow> False
       | Some s \<Rightarrow> support_kind s \<noteq> sr_kind r \<or> support_observation s \<noteq> sr_observation r,
       ValueError ''record support kind/observation identity disagrees''),
      (sr_state r = COMPLETE \<and> (sr_support r = None \<or> sr_reason r \<noteq> None),
       ValueError ''complete record requires support and no missing-evidence reason''),
      (sr_state r \<noteq> COMPLETE \<and> (case sr_reason r of None \<Rightarrow> True | Some x \<Rightarrow> blank x),
       ValueError ''incomplete/unobservable record requires an explicit reason'')]"

definition source_record_new ::
  "observation_identity \<Rightarrow> string \<Rightarrow> record_kind \<Rightarrow> record_state \<Rightarrow> support option \<Rightarrow> detection_state
     \<Rightarrow> string option \<Rightarrow> source_record result" where
  "source_record_new o1 rid kind state evidence detection reason =
     (let r = \<lparr>sr_observation = o1, sr_record_id = rid, sr_kind = kind, sr_state = state, sr_support = evidence,
              sr_detection = detection, sr_reason = reason\<rparr> in
      bindE (source_record_validate r) (\<lambda>_. Inr r))"

section \<open>The join\<close>

datatype join_state = INCLUDED | JOIN_INCOMPLETE | JOIN_UNOBSERVABLE

record record_join =
  rj_record :: source_record
  rj_state :: join_state
  rj_reason :: "string option"
  rj_selection :: "pilot_support option"

definition joined :: "source_record \<Rightarrow> join_state \<Rightarrow> string option \<Rightarrow> pilot_support option \<Rightarrow> record_join" where
  "joined r s reason selection = \<lparr>rj_record = r, rj_state = s, rj_reason = reason, rj_selection = selection\<rparr>"

definition close_join ::
  "source_record \<Rightarrow> source_interval \<Rightarrow> bool \<Rightarrow> source_interval \<Rightarrow> pilot_support option \<Rightarrow> record_join" where
  "close_join r available anchors_inside inputs selection =
     (if \<not> anchors_inside \<or> \<not> si_contains available inputs
      then joined r JOIN_UNOBSERVABLE (Some ''complete anchors or processing support lie outside bounds'') None
      else joined r INCLUDED None selection)"

definition join_pilot ::
  "observation_identity \<Rightarrow> source_interval \<Rightarrow> source_interval \<Rightarrow> source_record \<Rightarrow> pilot_support \<Rightarrow> record_join result" where
  "join_pilot o1 comparison available r s =
     (let c = pl_centers s in
      bindE (sl_bounds c) (\<lambda>bounds.
      if \<not> si_contains bounds comparison
      then Inr (joined r JOIN_UNOBSERVABLE (Some ''pilot center lattice does not bound comparison'') None)
      else
        let first = (si_start comparison - sl_first c + 5) div 6; stop = (si_stop comparison - sl_first c + 5) div 6 in
        if first \<ge> stop
        then Inr (joined r JOIN_UNOBSERVABLE (Some ''comparison contains no exported sample center'') None)
        else
          bindE (lattice_new (sl_first c + first * 6) 6 (stop - first)) (\<lambda>centers.
          bindE (interval_new (sl_first centers - PILOT_RADIUS) (sl_last centers + PILOT_RADIUS + 1)) (\<lambda>inputs.
          bindE (pilot_support_new o1 (pl_output_start s + first) centers inputs) (\<lambda>selection.
          Inr (close_join r available True inputs (Some selection)))))))"

definition join_one ::
  "observation_identity \<Rightarrow> source_interval \<Rightarrow> source_interval \<Rightarrow> source_record \<Rightarrow> record_join result" where
  "join_one o1 comparison available r =
     bindE (checks [(sr_observation r \<noteq> o1, ValueError ''cannot join different observation identities'')]) (\<lambda>_.
     case sr_state r of
       INCOMPLETE \<Rightarrow> Inr (joined r JOIN_INCOMPLETE (sr_reason r) None)
     | UNOBSERVABLE \<Rightarrow> Inr (joined r JOIN_UNOBSERVABLE (sr_reason r) None)
     | COMPLETE \<Rightarrow>
         (case sr_support r of
            None \<Rightarrow> Inl (ValueError ''complete record lacks recognized support'')
          | Some (PilotSupport s) \<Rightarrow> join_pilot o1 comparison available r s
          | Some (MapSupport s) \<Rightarrow>
              Inr (close_join r available (si_contains comparison (ms_candidate_starts s)) (ms_processing_inputs s) None)
          | Some (FineSupport s) \<Rightarrow>
              Inr (close_join r available (si_start comparison \<le> fs_winner s \<and> fs_winner s < si_stop comparison)
                     (fs_capture_inputs s) None)))"

definition join_source_interval ::
  "source_record list \<Rightarrow> observation_identity \<Rightarrow> source_interval \<Rightarrow> source_interval \<Rightarrow> record_join list result" where
  "join_source_interval records o1 comparison available =
     bindE (checks
       [(\<not> si_contains available comparison,
         ValueError ''comparison interval must lie within declared available inputs''),
        (\<not> (1 \<le> length records \<and> length records \<le> 4096),
         ValueError ''join requires a bounded nonempty record ledger''),
        (\<not> distinct (map sr_record_id records), ValueError ''record IDs must be unique'')]) (\<lambda>_.
     mapE (join_one o1 comparison available) records)"

end
