(* ===== verification/Fine_Schedule.thy ===== *)
theory Fine_Schedule
  imports Source_Support
begin

text \<open>
  \<open>hardware/fine_schedule.py\<close>: the finite schedule of fine searches, the ledger that accepts its results
  batch by batch, and the validation of one native batch against both. Messages of the diagnostics keep
  their fixed part.
\<close>

section \<open>The manifest\<close>

record fine_manifest =
  fm_observation :: observation_identity
  fm_schedule_id :: string
  fm_first_center :: int
  fm_period :: int
  fm_request_base :: int
  fm_count :: int
  fm_generation :: int

text \<open>\<open>_observation\<close>; both members of the profile enumeration are admitted.\<close>

definition schedule_observation :: "observation_identity \<Rightarrow> unit result" where
  "schedule_observation o1 = checks
     [(oi_profile o1 \<notin> {PAIRED_15_V1, PAIRED_15_STOP_V1} \<or> oi_source_rate_hz o1 \<noteq> 15000000,
       ValueError ''only the explicit paired 15 MS/s shared-XFFT profile is supported'')]"

definition index_checks :: "fine_manifest \<Rightarrow> int \<Rightarrow> unit result" where
  "index_checks m i = checks
     [uint_guard U32 i ''schedule index'',
      (i \<ge> fm_count m, ValueError ''schedule index lies outside the finite manifest'')]"

definition center_at :: "fine_manifest \<Rightarrow> int \<Rightarrow> int result" where
  "center_at m i = bindE (index_checks m i) (\<lambda>_. Inr (fm_first_center m + drop_bit 32 (i * fm_period m)))"

definition request_at :: "fine_manifest \<Rightarrow> int \<Rightarrow> int result" where
  "request_at m i = bindE (index_checks m i) (\<lambda>_. Inr (fm_request_base m + i))"

definition capture_at :: "fine_manifest \<Rightarrow> int \<Rightarrow> source_interval result" where
  "capture_at m i = bindE (center_at m i) (\<lambda>c. interval_new (c - 32) (c + 98))"

definition planned_anchor_separation :: "fine_manifest \<Rightarrow> int result" where
  "planned_anchor_separation m = bindE (center_at m (fm_count m - 1)) (\<lambda>c. Inr (c - fm_first_center m))"

definition manifest_validate :: "fine_manifest \<Rightarrow> unit result" where
  "manifest_validate m =
     bindE (schedule_observation (fm_observation m)) (\<lambda>_.
     bindE (checks
       [ident_guard 128 (fm_schedule_id m) ''schedule_id'',
        uint_guard U64 (fm_first_center m) ''first_center'',
        uint_guard U64 (fm_period m) ''period_q32_32'',
        uint_guard U32 (fm_request_base m) ''request_base'',
        (fm_request_base m = 0, ValueError ''request_base must be nonzero''),
        uint_guard U32 (fm_count m) ''count'',
        (fm_count m = 0, ValueError ''count must be nonzero''),
        uint_guard U32 (fm_generation m) ''coefficient_generation'',
        (fm_generation m = 0, ValueError ''coefficient_generation must be nonzero''),
        (drop_bit 32 (fm_period m) = 0,
         ValueError ''period must have a nonzero integer part, as required by the driver''),
        uint_guard U32 (fm_request_base m + fm_count m - 1) ''last request ID'']) (\<lambda>_.
     bindE (capture_at m 0) (\<lambda>_.
     bindE (capture_at m (fm_count m - 1)) (\<lambda>_.
     checks [uint_guard U64 (fm_first_center m + drop_bit 32 (fm_count m * fm_period m))
               ''kernel post-last center'']))))"

section \<open>The ledger\<close>

datatype ledger_state = LEDGER_ACTIVE | LEDGER_COMPLETE | LEDGER_FAILED

record fine_ledger =
  fl_manifest :: fine_manifest
  fl_accepted :: int
  fl_next_batch :: int
  fl_stream_id :: "string option"
  fl_state :: ledger_state
  fl_failure :: "string option"

definition ledger_validate :: "fine_ledger \<Rightarrow> unit result" where
  "ledger_validate l = checks
     [uint_guard (fm_count (fl_manifest l)) (fl_accepted l) ''accepted_count'',
      uint_guard (fm_count (fl_manifest l)) (fl_next_batch l) ''next_batch_index'',
      (case fl_stream_id l of None \<Rightarrow> False | Some s \<Rightarrow> \<not> ok_identifier 256 s,
       ValueError ''stream_id must be a nonempty bounded ASCII identifier''),
      ((fl_accepted l \<noteq> 0) \<noteq> (fl_next_batch l \<noteq> 0),
       ValueError ''accepted results and accepted batches must start together''),
      (fl_next_batch l > fl_accepted l, ValueError ''accepted batch count exceeds accepted result count''),
      (fl_accepted l \<noteq> 0 \<and> fl_stream_id l = None,
       ValueError ''an accepted prefix requires a bound stream identity''),
      (fl_state l = LEDGER_FAILED \<and>
         (case fl_failure l of None \<Rightarrow> True | Some f \<Rightarrow> \<not> (1 \<le> length f \<and> length f \<le> 256)),
       ValueError ''failed ledger requires a bounded explicit failure reason''),
      (fl_state l \<noteq> LEDGER_FAILED \<and> fl_failure l \<noteq> None,
       ValueError ''only failed ledgers have a failure reason''),
      (fl_state l = LEDGER_COMPLETE \<and> fl_accepted l \<noteq> fm_count (fl_manifest l),
       ValueError ''complete ledger must account for the entire finite schedule''),
      (fl_state l \<noteq> LEDGER_COMPLETE \<and> fl_accepted l = fm_count (fl_manifest l),
       ValueError ''a full accepted prefix must be complete'')]"

definition ledger_new ::
  "fine_manifest \<Rightarrow> int \<Rightarrow> int \<Rightarrow> string option \<Rightarrow> ledger_state \<Rightarrow> string option \<Rightarrow> fine_ledger result" where
  "ledger_new m accepted next_batch stream state failure =
     (let l = \<lparr>fl_manifest = m, fl_accepted = accepted, fl_next_batch = next_batch, fl_stream_id = stream,
              fl_state = state, fl_failure = failure\<rparr> in
      bindE (ledger_validate l) (\<lambda>_. Inr l))"

definition fresh_ledger :: "fine_manifest \<Rightarrow> fine_ledger" where
  "fresh_ledger m = \<lparr>fl_manifest = m, fl_accepted = 0, fl_next_batch = 0, fl_stream_id = None,
     fl_state = LEDGER_ACTIVE, fl_failure = None\<rparr>"

definition remaining_results :: "fine_ledger \<Rightarrow> int" where
  "remaining_results l = fm_count (fl_manifest l) - fl_accepted l"

definition validated_anchor_separation :: "fine_ledger \<Rightarrow> int option result" where
  "validated_anchor_separation l =
     (if fl_accepted l = 0 then Inr None
      else bindE (center_at (fl_manifest l) (fl_accepted l - 1))
             (\<lambda>c. Inr (Some (c - fm_first_center (fl_manifest l)))))"

section \<open>Python's int(text, 0)\<close>

text \<open>
  Surrounding C white space, one sign, a base prefix, digits with single underscores between them; a
  decimal numeral with a leading zero must be zero.
\<close>

definition c_space :: "char \<Rightarrow> bool" where
  "c_space c \<longleftrightarrow> (let n = (of_char c :: nat) in (9 \<le> n \<and> n \<le> 13) \<or> n = 32)"

definition c_strip :: "string \<Rightarrow> string" where
  "c_strip s = rev (dropWhile c_space (rev (dropWhile c_space s)))"

definition numeral_digit :: "char \<Rightarrow> int" where
  "numeral_digit c =
     (let n = of_char c in
      if 48 \<le> n \<and> n \<le> 57 then n - 48
      else if 97 \<le> n \<and> n \<le> 122 then n - 87
      else if 65 \<le> n \<and> n \<le> 90 then n - 55 else 37)"

fun numeral_value :: "int \<Rightarrow> bool \<Rightarrow> int \<Rightarrow> string \<Rightarrow> int option" where
  "numeral_value base after_digit v [] = (if after_digit then Some v else None)"
| "numeral_value base after_digit v (c # cs) =
     (if c = CHR ''_'' then if after_digit then numeral_value base False v cs else None
      else if numeral_digit c < base then numeral_value base True (base * v + numeral_digit c) cs else None)"

definition prefixed :: "string \<Rightarrow> string" where
  "prefixed s = (case s of c # cs \<Rightarrow> if c = CHR ''_'' then cs else s | [] \<Rightarrow> s)"

definition plain_numeral :: "string \<Rightarrow> int option" where
  "plain_numeral s =
     (case numeral_value 10 False 0 s of None \<Rightarrow> None
      | Some v \<Rightarrow> if hd s = CHR ''0'' \<and> v \<noteq> 0 then None else Some v)"

definition unsigned_numeral :: "string \<Rightarrow> int option" where
  "unsigned_numeral s =
     (let p = take 2 s; r = prefixed (drop 2 s) in
      if p \<in> {''0x'', ''0X''} then numeral_value 16 False 0 r
      else if p \<in> {''0o'', ''0O''} then numeral_value 8 False 0 r
      else if p \<in> {''0b'', ''0B''} then numeral_value 2 False 0 r
      else plain_numeral s)"

definition py_int :: "string \<Rightarrow> int option" where
  "py_int text =
     (let s = c_strip text in
      if take 1 s = ''-'' then map_option uminus (unsigned_numeral (drop 1 s))
      else if take 1 s = ''+'' then unsigned_numeral (drop 1 s)
      else unsigned_numeral s)"

section \<open>Diagnostics of one batch\<close>

definition note_if :: "bool \<Rightarrow> string \<Rightarrow> string list" where
  "note_if b text = (if b then [text] else [])"

fun raw_attribute_errors :: "(string \<times> int) list \<Rightarrow> string list \<Rightarrow> (string \<times> string) list \<Rightarrow> string list" where
  "raw_attribute_errors expected seen [] =
     note_if (set seen \<noteq> fst ` set expected) ''raw attributes do not include both required fields''"
| "raw_attribute_errors expected seen ((name, raw) # rest) =
     (if name \<notin> fst ` set expected \<or> name \<in> set seen \<or> length raw > 128 then
        ''raw attribute pair has invalid names, bounds or duplicates'' # raw_attribute_errors expected seen rest
      else
        (case py_int raw of
           None \<Rightarrow> [''raw attribute is not a numeric value'']
         | Some value \<Rightarrow> note_if (map_of expected name \<noteq> Some value)
                            ''raw attribute contradicts the required health/generation'') @
        raw_attribute_errors expected (name # seen) rest)"

definition attribute_errors :: "batch_attributes option \<Rightarrow> int \<Rightarrow> string list" where
  "attribute_errors attributes generation =
     (case attributes of None \<Rightarrow> [''attributes unavailable'']
      | Some a \<Rightarrow>
          note_if (ba_errors a \<noteq> []) ''attribute read error tuple is malformed or reports errors; see receipt'' @
          note_if (ba_fault_flags a \<noteq> Some 0) ''driver fault flags are unavailable or nonzero'' @
          note_if (ba_generation a \<noteq> Some generation) ''active coefficient generation is unavailable or mismatched'' @
          (if length (ba_raw a) \<noteq> 2 then [''raw attribute pair is unavailable or malformed'']
           else raw_attribute_errors
                  [(''fault_flags'', 0), (''active_coefficient_generation'', generation)] [] (ba_raw a)))"

definition MAX_SCANS :: nat where
  "MAX_SCANS = 4096"

definition batch_bounded :: "batch_receipt \<Rightarrow> bool" where
  "batch_bounded b \<longleftrightarrow>
     1 \<le> br_requested b \<and> br_requested b \<le> int MAX_SCANS \<and> length (br_scans b) \<le> MAX_SCANS
     \<and> (case br_raw b of None \<Rightarrow> True | Some raw \<Rightarrow> length raw \<le> MAX_SCANS * PSS_TRACK_SCAN_BYTES)"

definition size_errors :: "fine_ledger \<Rightarrow> batch_receipt \<Rightarrow> string list" where
  "size_errors l b =
     (let n = br_requested b * int PSS_TRACK_SCAN_BYTES in
      note_if (br_requested b > remaining_results l) ''batch exceeds the finite schedule remainder'' @
      note_if (br_buffer_bytes b \<noteq> Some n) ''native buffer byte length is unavailable or mismatched'' @
      note_if (br_native_bytes b \<noteq> None \<and> br_native_bytes b \<noteq> Some n)
        ''available native refill byte count is invalid'' @
      note_if (br_observed_bytes b \<noteq> Some n \<or> (case br_raw b of None \<Rightarrow> True | Some raw \<Rightarrow> int (length raw) \<noteq> n))
        ''retained raw payload is missing, truncated or not the complete native batch'' @
      note_if (int (length (br_scans b)) \<noteq> br_requested b)
        ''native decoded scan coverage is incomplete or oversized'')"

definition expected_request_errors :: "fine_ledger \<Rightarrow> batch_receipt \<Rightarrow> string list result" where
  "expected_request_errors l b =
     (let text = ''native expected request differs from the finite ledger'' in
      case br_expected_request b of None \<Rightarrow> Inr [text]
      | Some r \<Rightarrow> bindE (request_at (fl_manifest l) (fl_accepted l)) (\<lambda>e. Inr (note_if (r \<noteq> e) text)))"

definition batch_errors :: "fine_ledger \<Rightarrow> batch_receipt \<Rightarrow> (string list \<times> bool) result" where
  "batch_errors l b =
     bindE (expected_request_errors l b) (\<lambda>request_errors.
     let errors =
       note_if (\<not> batch_bounded b) ''batch exceeds the bounded fine receipt shape; scan traversal omitted'' @
       note_if (br_stream b \<noteq> ''fine'' \<or> br_rate_msps b \<noteq> 15) ''batch is not a fine 15 MS/s observation'' @
       note_if (br_abi b \<noteq> 0x10002) ''batch ABI does not match the admitted fine tracker'' @
       note_if (\<not> ok_identifier 256 (br_stream_id b)) ''batch stream identity is invalid'' @
       note_if (fl_stream_id l \<noteq> None \<and> fl_stream_id l \<noteq> Some (br_stream_id b)) ''batch stream identity changed'' @
       note_if (br_batch_index b \<noteq> fl_next_batch l) ''batch ordinal is duplicate, missing or out of order'' @
       request_errors @
       note_if (br_remaining b \<noteq> Some (remaining_results l)) ''native remaining count differs from the finite ledger'' @
       note_if (\<not> br_refill_started b \<or> \<not> br_refill_completed b) ''native refill did not start and complete'' @
       note_if (br_errors b \<noteq> []) ''native batch error tuple is malformed or reports errors; see receipt'' @
       note_if (br_scan_bytes b \<noteq> int PSS_TRACK_SCAN_BYTES \<or> br_buffer_step b \<noteq> Some (int PSS_TRACK_SCAN_BYTES))
         ''fine scan stride or native step is invalid''
     in Inr (if batch_bounded b then (errors @ size_errors l b, True) else (errors, False)))"

section \<open>The rows of one batch\<close>

record fine_row =
  fw_index :: nat
  fw_ordinal :: int
  fw_request :: "int option"
  fw_center :: "int option"
  fw_packet :: "fine_packet option"
  fw_support :: "fine_search_support option"
  fw_label :: detection_state
  fw_errors :: "string list"

text \<open>
  The \<open>try\<close> around decoding: the packet is assigned before its support is computed, so a packet whose
  support is refused is kept. Only \<open>ValueError\<close> is caught.
\<close>

definition slot_packet ::
  "observation_identity \<Rightarrow> bytes \<Rightarrow> (fine_packet option \<times> fine_search_support option \<times> string list) result" where
  "slot_packet o1 chunk =
     (if length chunk \<noteq> PSS_TRACK_SCAN_BYTES then Inr (None, None, [''raw scan is missing or truncated''])
      else if list_ex (\<lambda>b. b \<noteq> 0) (drop PSS_PACKET_BYTES chunk) then
        Inr (None, None, [''raw scan has nonzero IIO padding''])
      else
        case fine_packet_decode (take PSS_PACKET_BYTES chunk) 15 of
          Inl (ValueError m) \<Rightarrow> Inr (None, None, [''raw scan decode/support''])
        | Inl e \<Rightarrow> Inl e
        | Inr p \<Rightarrow>
            (case fine_support p o1 (fp_coefficient_generation p) of
               Inl (ValueError m) \<Rightarrow> Inr (Some p, None, [''raw scan decode/support''])
             | Inl e \<Rightarrow> Inl e
             | Inr s \<Rightarrow> Inr (Some p, Some s, [])))"

definition supplied_errors :: "batch_receipt \<Rightarrow> nat \<Rightarrow> bytes \<Rightarrow> fine_packet option \<Rightarrow> string list" where
  "supplied_errors b i chunk packet =
     (if i < length (br_scans b) then
        let s = br_scans b ! i in
        note_if (bs_index s \<noteq> i \<or> bs_offset s \<noteq> i * PSS_TRACK_SCAN_BYTES \<or> bs_count s \<noteq> length chunk)
          ''native scan byte range contradicts its retained raw slot'' @
        note_if (bs_errors s \<noteq> []) ''native scan error tuple is malformed or nonempty; see receipt'' @
        note_if (packet = None \<or> bs_decoded s \<noteq> map_option FineScan packet)
          ''native decoded packet is absent or contradicts retained raw''
      else [''native scan diagnostic is missing or malformed''])"

definition packet_errors :: "fine_manifest \<Rightarrow> int option \<Rightarrow> int option \<Rightarrow> fine_packet option \<Rightarrow> string list" where
  "packet_errors m request center packet =
     (case packet of None \<Rightarrow> []
      | Some p \<Rightarrow>
          note_if (request \<noteq> Some (fp_request_id p)) ''packet request ID differs from its scheduled ordinal'' @
          note_if (center \<noteq> Some (fp_center_index p)) ''packet center differs from the exact Q32 scheduled center'' @
          note_if (fp_coefficient_generation p \<noteq> fm_generation m)
            ''packet coefficient generation differs from the manifest'')"

definition scheduled :: "(int \<Rightarrow> int result) \<Rightarrow> fine_manifest \<Rightarrow> int \<Rightarrow> int option result" where
  "scheduled f m ordinal =
     (if ordinal < fm_count m then bindE (f ordinal) (\<lambda>x. Inr (Some x)) else Inr None)"

definition fine_row_of ::
  "fine_ledger \<Rightarrow> batch_receipt \<Rightarrow> observation_identity \<Rightarrow> detection_state list option \<Rightarrow> bytes \<Rightarrow> nat \<Rightarrow> fine_row result" where
  "fine_row_of l b o1 detections raw i =
     (let m = fl_manifest l; ordinal = fl_accepted l + int i; offset = i * PSS_TRACK_SCAN_BYTES;
          chunk = slice offset (offset + PSS_TRACK_SCAN_BYTES) raw in
      bindE (scheduled (request_at m) m ordinal) (\<lambda>request.
      bindE (scheduled (center_at m) m ordinal) (\<lambda>center.
      bindE (slot_packet o1 chunk) (\<lambda>(packet, evidence, decode_errors).
      Inr \<lparr>fw_index = i, fw_ordinal = ordinal, fw_request = request, fw_center = center, fw_packet = packet,
           fw_support = evidence,
           fw_label = (case detections of None \<Rightarrow> NOT_EVALUATED
                       | Some ds \<Rightarrow> if i < length ds then ds ! i else NOT_EVALUATED),
           fw_errors = decode_errors @ supplied_errors b i chunk packet @ packet_errors m request center packet\<rparr>))))"

definition row_count :: "batch_receipt \<Rightarrow> bytes \<Rightarrow> nat" where
  "row_count b raw =
     max (nat (br_requested b)) (max (length (br_scans b)) ((length raw + PSS_TRACK_SCAN_BYTES - 1) div PSS_TRACK_SCAN_BYTES))"

section \<open>validate_fine_batch\<close>

record fine_scheduled_scan =
  fss_index :: "nat option"
  fss_ordinal :: "int option"
  fss_request :: "int option"
  fss_center :: "int option"
  fss_packet :: "fine_packet option"
  fss_record :: source_record
  fss_errors :: "string list"

record fine_batch_result =
  fr_before :: fine_ledger
  fr_after :: fine_ledger
  fr_batch :: batch_receipt
  fr_observation :: observation_identity
  fr_detections :: "detection_state list option"
  fr_scans :: "fine_scheduled_scan list"
  fr_errors :: "string list"

definition fr_accepted :: "fine_batch_result \<Rightarrow> bool" where
  "fr_accepted r \<longleftrightarrow> fl_state (fr_after r) \<noteq> LEDGER_FAILED"

definition source_records :: "fine_batch_result \<Rightarrow> source_record list" where
  "source_records r = map fss_record (fr_scans r)"

text \<open>\<open>str(n)\<close> of a natural number.\<close>

fun decimal_text :: "nat \<Rightarrow> string" where
  "decimal_text n =
     (if n < 10 then [char_of (48 + n)] else decimal_text (n div 10) @ [char_of (48 + n mod 10)])"

declare decimal_text.simps [simp del]

definition record_prefix :: "fine_ledger \<Rightarrow> string" where
  "record_prefix l =
     fm_schedule_id (fl_manifest l) @ '':batch'' @ decimal_text (nat (fl_next_batch l)) @ '':''"

definition scan_of_row :: "fine_ledger \<Rightarrow> observation_identity \<Rightarrow> bool \<Rightarrow> fine_row \<Rightarrow> fine_scheduled_scan result" where
  "scan_of_row l o1 failed w =
     bindE (source_record_new o1 (record_prefix l @ ''scan'' @ decimal_text (fw_index w)) FINE
              (if failed then INCOMPLETE else COMPLETE) (map_option FineSupport (fw_support w)) (fw_label w)
              (if failed then Some ''whole native batch failed; see retained result'' else None)) (\<lambda>r.
     Inr \<lparr>fss_index = Some (fw_index w), fss_ordinal = Some (fw_ordinal w), fss_request = fw_request w,
          fss_center = fw_center w, fss_packet = fw_packet w, fss_record = r, fss_errors = fw_errors w\<rparr>)"

definition unexpanded_scan :: "fine_ledger \<Rightarrow> observation_identity \<Rightarrow> string list \<Rightarrow> fine_scheduled_scan result" where
  "unexpanded_scan l o1 errors =
     bindE (source_record_new o1 (record_prefix l @ ''unexpanded'') FINE INCOMPLETE None NOT_EVALUATED
              (Some ''invalid bounded envelope; per-slot observations unavailable'')) (\<lambda>r.
     Inr \<lparr>fss_index = None, fss_ordinal = None, fss_request = None, fss_center = None, fss_packet = None,
          fss_record = r, fss_errors = errors\<rparr>)"

definition successor :: "fine_ledger \<Rightarrow> batch_receipt \<Rightarrow> bool \<Rightarrow> nat \<Rightarrow> fine_ledger result" where
  "successor l b failed rows =
     (if failed then
        ledger_new (fl_manifest l) (fl_accepted l) (fl_next_batch l) (fl_stream_id l) LEDGER_FAILED
          (Some ''fine batch validation failed; retain its batch result'')
      else
        ledger_new (fl_manifest l) (fl_accepted l + int rows) (fl_next_batch l + 1) (Some (br_stream_id b))
          (if int rows = remaining_results l then LEDGER_COMPLETE else LEDGER_ACTIVE) None)"

definition envelope_errors ::
  "fine_ledger \<Rightarrow> batch_receipt \<Rightarrow> observation_identity \<Rightarrow> detection_state list option \<Rightarrow> string list" where
  "envelope_errors l b o1 detections =
     note_if (o1 \<noteq> fm_observation (fl_manifest l)) ''observation identity differs from the schedule manifest'' @
     attribute_errors (br_before b) (fm_generation (fl_manifest l)) @
     attribute_errors (br_after b) (fm_generation (fl_manifest l)) @
     note_if (case detections of None \<Rightarrow> False | Some ds \<Rightarrow> int (length ds) \<noteq> br_requested b)
       ''detection labels do not cover exactly the requested native slots''"

definition validate_fine_batch ::
  "fine_ledger \<Rightarrow> batch_receipt \<Rightarrow> observation_identity \<Rightarrow> detection_state list option \<Rightarrow> fine_batch_result result" where
  "validate_fine_batch l b o1 detections =
     bindE (checks [(fl_state l \<noteq> LEDGER_ACTIVE,
                     ValueError ''failed or completed fine ledger cannot accept another batch'')]) (\<lambda>_.
     bindE (schedule_observation o1) (\<lambda>_.
     bindE (checks [(case detections of None \<Rightarrow> False | Some ds \<Rightarrow> length ds > MAX_SCANS,
                     ValueError ''detections must be a bounded tuple of explicit DetectionState values'')]) (\<lambda>_.
     bindE (batch_errors l b) (\<lambda>(native_errors, bounded).
     let raw = (case br_raw b of None \<Rightarrow> [] | Some bs \<Rightarrow> bs) in
     bindE (if bounded then mapE (fine_row_of l b o1 detections raw) [0 ..< row_count b raw] else Inr []) (\<lambda>rows.
     let errors = native_errors @ envelope_errors l b o1 detections @
           note_if (list_ex (\<lambda>w. fw_errors w \<noteq> []) rows)
             ''one or more native slots failed exact fine-schedule validation'';
         failed = (errors \<noteq> []) in
     bindE (successor l b failed (length rows)) (\<lambda>after.
     bindE (mapE (scan_of_row l o1 failed) rows) (\<lambda>scans.
     bindE (if scans = [] then bindE (unexpanded_scan l o1 errors) (\<lambda>s. Inr [s]) else Inr scans) (\<lambda>scans.
     Inr \<lparr>fr_before = l, fr_after = after, fr_batch = b, fr_observation = o1, fr_detections = detections,
          fr_scans = scans, fr_errors = errors\<rparr>))))))))"

end
