(* ===== verification/Source_Facts.thy ===== *)
theory Source_Facts
  imports Source_Support
begin

text \<open>
  Lemmas about source supports: what the constructors guarantee, that the join of valid records never
  raises, which sample centers a pilot selection holds, and that detections play no part in it.
\<close>

section \<open>Constructors\<close>

lemma interval_new_Inr [simp]:
  "interval_new a b = Inr i \<longleftrightarrow> 0 \<le> a \<and> a < b \<and> b \<le> 2 ^ 64 \<and> i = \<lparr>si_start = a, si_stop = b\<rparr>"
  by (auto simp: interval_new_def interval_validate_def uint_guard_def U64_def Let_def bindE_Inr_iff)

lemma lattice_validate_ok:
  "lattice_validate l = Inr () \<longleftrightarrow>
     0 \<le> sl_first l \<and> 0 < sl_step l \<and> 0 < sl_count l \<and> sl_step l < 2 ^ 64 \<and> sl_count l < 2 ^ 64 \<and> sl_last l < 2 ^ 64"
proof
  assume "lattice_validate l = Inr ()"
  then show "0 \<le> sl_first l \<and> 0 < sl_step l \<and> 0 < sl_count l \<and> sl_step l < 2 ^ 64 \<and> sl_count l < 2 ^ 64
      \<and> sl_last l < 2 ^ 64"
    by (auto simp: lattice_validate_def uint_guard_def U64_def)
next
  assume a: "0 \<le> sl_first l \<and> 0 < sl_step l \<and> 0 < sl_count l \<and> sl_step l < 2 ^ 64 \<and> sl_count l < 2 ^ 64
      \<and> sl_last l < 2 ^ 64"
  then have "sl_first l \<le> sl_last l" by (simp add: sl_last_def)
  with a show "lattice_validate l = Inr ()"
    by (auto simp: lattice_validate_def uint_guard_def U64_def)
qed

lemma lattice_new_Inr:
  "lattice_new f s n = Inr l \<longleftrightarrow>
     l = \<lparr>sl_first = f, sl_step = s, sl_count = n\<rparr> \<and> lattice_validate l = Inr ()"
  by (auto simp: lattice_new_def Let_def bindE_Inr_iff)

lemma pilot_support_ok:
  "pilot_support_validate s = Inr () \<longleftrightarrow>
     0 \<le> pl_output_start s \<and> pl_output_start s < 2 ^ 64 \<and> 0 \<le> pl_output_start s + sl_count (pl_centers s)
     \<and> pl_output_start s + sl_count (pl_centers s) \<le> 2 ^ 64
     \<and> sl_step (pl_centers s) = 6 \<and> 269 \<le> sl_first (pl_centers s) \<and> (sl_first (pl_centers s) + 269) mod 6 = 0
     \<and> sl_first (pl_centers s) - 269 < sl_last (pl_centers s) + 270 \<and> sl_last (pl_centers s) + 270 \<le> 2 ^ 64
     \<and> pl_raw_inputs s = \<lparr>si_start = sl_first (pl_centers s) - 269, si_stop = sl_last (pl_centers s) + 270\<rparr>"
  by (auto simp: pilot_support_validate_def Let_def bindE_Inr_iff uint_guard_def PILOT_RADIUS_def U64_def)

text \<open>A valid pilot support: its lattice was constructed and so was it.\<close>

definition valid_pilot :: "pilot_support \<Rightarrow> bool" where
  "valid_pilot s \<longleftrightarrow> lattice_validate (pl_centers s) = Inr () \<and> pilot_support_validate s = Inr ()"

definition valid_interval :: "source_interval \<Rightarrow> bool" where
  "valid_interval i \<longleftrightarrow> interval_validate i = Inr ()"

lemma valid_interval_iff: "valid_interval i \<longleftrightarrow> 0 \<le> si_start i \<and> si_start i < si_stop i \<and> si_stop i \<le> 2 ^ 64"
  by (auto simp: valid_interval_def interval_validate_def uint_guard_def U64_def)

section \<open>Lattices and selections\<close>

text \<open>The set of sample centers a lattice stands for.\<close>

definition lattice_centers :: "source_lattice \<Rightarrow> int set" where
  "lattice_centers l = (\<lambda>k. sl_first l + k * sl_step l) ` {0 ..< sl_count l}"

lemma ceil6: "(d + 5) div 6 \<le> (k :: int) \<longleftrightarrow> d \<le> 6 * k"
  by presburger

lemma selection_exact:
  fixes f n a b :: int
  assumes "f \<le> a" and "b \<le> f + (n - 1) * 6 + 1"
  defines "lo \<equiv> (a - f + 5) div 6" and "hi \<equiv> (b - f + 5) div 6"
  shows "(\<lambda>k. f + lo * 6 + k * 6) ` {0 ..< hi - lo} = {x \<in> (\<lambda>k. f + k * 6) ` {0 ..< n}. a \<le> x \<and> x < b}"
    and "0 \<le> lo" and "hi \<le> n"
proof -
  show lo: "0 \<le> lo" using assms(1) by (simp add: lo_def pos_imp_zdiv_nonneg_iff)
  show hi: "hi \<le> n" using assms(2) by (simp add: hi_def ceil6)
  have l: "lo \<le> k \<longleftrightarrow> a \<le> f + k * 6" for k by (auto simp: lo_def ceil6)
  have h: "k < hi \<longleftrightarrow> f + k * 6 < b" for k
    using ceil6 [of "b - f" k] by (auto simp: hi_def not_le [symmetric])
  show "(\<lambda>k. f + lo * 6 + k * 6) ` {0 ..< hi - lo} = {x \<in> (\<lambda>k. f + k * 6) ` {0 ..< n}. a \<le> x \<and> x < b}"
  proof (intro set_eqI iffI)
    fix x assume "x \<in> (\<lambda>k. f + lo * 6 + k * 6) ` {0 ..< hi - lo}"
    then obtain k where k: "0 \<le> k" "k < hi - lo" "x = f + (lo + k) * 6" by (auto simp: algebra_simps)
    then have "a \<le> x" "x < b" using l [of "lo + k"] h [of "lo + k"] by simp_all
    moreover have "lo + k \<in> {0 ..< n}" using k lo hi by simp
    ultimately show "x \<in> {x \<in> (\<lambda>k. f + k * 6) ` {0 ..< n}. a \<le> x \<and> x < b}" using k(3) by blast
  next
    fix x assume "x \<in> {x \<in> (\<lambda>k. f + k * 6) ` {0 ..< n}. a \<le> x \<and> x < b}"
    then obtain k where k: "x = f + k * 6" "a \<le> x" "x < b" by auto
    then have "lo \<le> k" "k < hi" using l h by simp_all
    then have "k - lo \<in> {0 ..< hi - lo}" "x = f + lo * 6 + (k - lo) * 6" using k(1) by simp_all
    then show "x \<in> (\<lambda>k. f + lo * 6 + k * 6) ` {0 ..< hi - lo}" by blast
  qed
qed

text \<open>What an included record must satisfy.\<close>

definition selects :: "source_interval \<Rightarrow> source_interval \<Rightarrow> pilot_support \<Rightarrow> pilot_support \<Rightarrow> bool" where
  "selects comparison available s sel \<longleftrightarrow>
     lattice_centers (pl_centers sel) =
       {x \<in> lattice_centers (pl_centers s). si_start comparison \<le> x \<and> x < si_stop comparison}
     \<and> lattice_centers (pl_centers sel) \<noteq> {}
     \<and> sl_first (pl_centers sel) - sl_first (pl_centers s) = 6 * (pl_output_start sel - pl_output_start s)
     \<and> si_contains available (pl_raw_inputs sel)"

definition covered :: "source_interval \<Rightarrow> source_interval \<Rightarrow> record_join \<Rightarrow> bool" where
  "covered comparison available j \<longleftrightarrow>
     (case sr_support (rj_record j) of
        None \<Rightarrow> False
      | Some (PilotSupport s) \<Rightarrow>
          (case rj_selection j of None \<Rightarrow> False | Some sel \<Rightarrow> selects comparison available s sel)
      | Some (MapSupport s) \<Rightarrow>
          si_contains comparison (ms_candidate_starts s) \<and> si_contains available (ms_processing_inputs s)
      | Some (FineSupport s) \<Rightarrow>
          si_start comparison \<le> fs_winner s \<and> fs_winner s < si_stop comparison
          \<and> si_contains available (fs_capture_inputs s))"

definition join_correct :: "source_interval \<Rightarrow> source_interval \<Rightarrow> source_record \<Rightarrow> record_join \<Rightarrow> bool" where
  "join_correct comparison available r j \<longleftrightarrow>
     rj_record j = r
     \<and> (sr_state r = INCOMPLETE \<longrightarrow> rj_state j = JOIN_INCOMPLETE \<and> rj_reason j = sr_reason r)
     \<and> (sr_state r = UNOBSERVABLE \<longrightarrow> rj_state j = JOIN_UNOBSERVABLE \<and> rj_reason j = sr_reason r)
     \<and> (sr_state r = COMPLETE \<longrightarrow> rj_state j \<noteq> JOIN_INCOMPLETE)
     \<and> (rj_state j = INCLUDED \<longrightarrow> sr_state r = COMPLETE \<and> covered comparison available j)
     \<and> (rj_state j \<noteq> INCLUDED \<longrightarrow> rj_selection j = None \<and> rj_reason j \<noteq> None)"

lemma join_pilot_correct:
  assumes "valid_pilot s" and "valid_interval comparison" and "sr_support r = Some (PilotSupport s)"
    and "sr_state r = COMPLETE"
  shows "\<exists>j. join_pilot o1 comparison available r s = Inr j \<and> join_correct comparison available r j"
proof -
  let ?c = "pl_centers s"
  let ?a = "si_start comparison" let ?b = "si_stop comparison"
  have v: "lattice_validate ?c = Inr ()" "pilot_support_validate s = Inr ()" using assms(1) by (simp_all add: valid_pilot_def)
  note lat = v(1) [unfolded lattice_validate_ok] and sup = v(2) [unfolded pilot_support_ok]
  have last: "sl_last ?c = sl_first ?c + (sl_count ?c - 1) * 6" using sup by (simp add: sl_last_def)
  define bounds where "bounds = \<lparr>si_start = sl_first ?c, si_stop = sl_last ?c + 1\<rparr>"
  have b: "sl_bounds ?c = Inr bounds"
    using lat last by (simp add: sl_bounds_def bounds_def)
  define lo where "lo = (?a - sl_first ?c + 5) div 6"
  define hi where "hi = (?b - sl_first ?c + 5) div 6"
  show ?thesis
  proof (cases "\<not> si_contains bounds comparison \<or> hi \<le> lo")
    case True
    then show ?thesis
      using assms(3,4) b
      by (auto simp: join_pilot_def Let_def lo_def [symmetric] hi_def [symmetric] joined_def join_correct_def)
  next
    case False
    then have in1: "sl_first ?c \<le> ?a" and in2: "?b \<le> sl_first ?c + (sl_count ?c - 1) * 6 + 1"
      and ne: "lo < hi"
      using last by (simp_all add: si_contains_def bounds_def)
    note sel = selection_exact [OF in1 in2, folded lo_def hi_def]
    define centers where "centers = \<lparr>sl_first = sl_first ?c + lo * 6, sl_step = 6, sl_count = hi - lo\<rparr>"
    have last2: "sl_last centers = sl_first ?c + (hi - 1) * 6" by (simp add: centers_def sl_last_def algebra_simps)
    have le: "sl_last centers \<le> sl_last ?c" using sel(3) by (simp add: last2 last)
    have lc: "lattice_new (sl_first ?c + lo * 6) 6 (hi - lo) = Inr centers"
      using lat sel(2,3) ne le by (simp add: lattice_new_Inr lattice_validate_ok centers_def)
    define inputs where "inputs = \<lparr>si_start = sl_first centers - 269, si_stop = sl_last centers + 270\<rparr>"
    have fl: "sl_first centers \<le> sl_last centers" using ne by (simp add: last2) (simp add: centers_def)
    have ic: "interval_new (sl_first centers - PILOT_RADIUS) (sl_last centers + PILOT_RADIUS + 1) = Inr inputs"
      using sup sel(2) le fl by (simp add: PILOT_RADIUS_def inputs_def) (simp add: centers_def)
    define p where "p = \<lparr>pl_observation = o1, pl_output_start = pl_output_start s + lo,
                          pl_centers = centers, pl_raw_inputs = inputs\<rparr>"
    have phase: "(sl_first centers + 269) mod 6 = 0"
    proof -
      have "(sl_first ?c + 269 + lo * 6) mod 6 = 0" using sup by (simp only: mod_mult_self1)
      then show ?thesis by (simp add: centers_def algebra_simps)
    qed
    have "pilot_support_validate p = Inr ()"
      unfolding pilot_support_ok p_def inputs_def
      using sup sel(2,3) le fl phase ne by (simp add: centers_def)
    then have pc: "pilot_support_new o1 (pl_output_start s + lo) centers inputs = Inr p"
      by (simp add: pilot_support_new_def Let_def p_def)
    have run: "join_pilot o1 comparison available r s = Inr (close_join r available True inputs (Some p))"
      using b False lc ic pc
      by (simp add: join_pilot_def Let_def lo_def [symmetric] hi_def [symmetric] del: interval_new_Inr)
    have "lattice_centers centers = {x \<in> lattice_centers ?c. ?a \<le> x \<and> x < ?b}"
      using sel(1) sup by (simp add: lattice_centers_def centers_def)
    moreover have "lattice_centers centers \<noteq> {}" using ne by (simp add: lattice_centers_def centers_def)
    ultimately have "selects comparison available s p" if "si_contains available inputs"
      using that by (simp add: selects_def p_def) (simp add: centers_def)
    then show ?thesis
      using run assms(3,4)
      by (auto simp: close_join_def joined_def join_correct_def covered_def)
  qed
qed

section \<open>The join of a ledger\<close>

definition valid_record :: "source_record \<Rightarrow> bool" where
  "valid_record r \<longleftrightarrow> source_record_validate r = Inr ()
     \<and> (case sr_support r of Some (PilotSupport s) \<Rightarrow> valid_pilot s | _ \<Rightarrow> True)"

lemma valid_record_facts:
  assumes "valid_record r"
  shows "sr_state r = COMPLETE \<longleftrightarrow> sr_reason r = None" and "sr_state r = COMPLETE \<longrightarrow> sr_support r \<noteq> None"
  using assms by (auto simp: valid_record_def source_record_validate_def split: option.splits)

lemma close_join_correct:
  assumes "sr_state r = COMPLETE"
    and "inside \<Longrightarrow> si_contains available inputs \<Longrightarrow> covered comparison available (joined r INCLUDED None sel)"
  shows "join_correct comparison available r (close_join r available inside inputs sel)"
  using assms by (auto simp: join_correct_def close_join_def joined_def)

lemma join_one_correct:
  assumes "valid_record r" and "valid_interval comparison" and "sr_observation r = o1"
  shows "\<exists>j. join_one o1 comparison available r = Inr j \<and> join_correct comparison available r j"
proof (cases "sr_state r")
  case COMPLETE
  then obtain s where s: "sr_support r = Some s" using valid_record_facts [OF assms(1)] by auto
  show ?thesis
  proof (cases s)
    case (PilotSupport p)
    then have "valid_pilot p" using assms(1) s by (simp add: valid_record_def)
    from join_pilot_correct [OF this assms(2)] show ?thesis
      using s COMPLETE PilotSupport assms(3) by (simp add: join_one_def checks_eval)
  next
    case (MapSupport m)
    then show ?thesis using s COMPLETE assms(3)
      by (auto simp: join_one_def checks_eval covered_def joined_def intro!: close_join_correct)
  next
    case (FineSupport f)
    then show ?thesis using s COMPLETE assms(3)
      by (auto simp: join_one_def checks_eval covered_def joined_def intro!: close_join_correct)
  qed
qed (use assms valid_record_facts [OF assms(1)] in
     \<open>auto simp: join_one_def checks_eval joined_def join_correct_def\<close>)

lemma mapE_progress:
  assumes "\<And>x. x \<in> set xs \<Longrightarrow> \<exists>y. f x = Inr y \<and> P x y"
  shows "\<exists>ys. mapE f xs = Inr ys \<and> list_all2 P xs ys"
  using assms by (induction xs) fastforce+

lemma join_progress:
  assumes "\<forall>r \<in> set records. valid_record r \<and> sr_observation r = o1" and "valid_interval comparison"
    and "si_contains available comparison" and "1 \<le> length records" "length records \<le> 4096"
    and "distinct (map sr_record_id records)"
  shows "\<exists>js. join_source_interval records o1 comparison available = Inr js
    \<and> list_all2 (join_correct comparison available) records js"
  using mapE_progress [of records "join_one o1 comparison available" "join_correct comparison available"]
    join_one_correct assms
  by (auto simp: join_source_interval_def checks_eval)

section \<open>Detections play no part\<close>

definition unlabelled :: "source_record \<Rightarrow> source_record" where
  "unlabelled r = r\<lparr>sr_detection := NOT_EVALUATED\<rparr>"

definition unlabelled_join :: "record_join \<Rightarrow> record_join" where
  "unlabelled_join j = j\<lparr>rj_record := unlabelled (rj_record j)\<rparr>"

lemma unlabelled_fields [simp]:
  "sr_observation (unlabelled r) = sr_observation r" "sr_state (unlabelled r) = sr_state r"
  "sr_support (unlabelled r) = sr_support r" "sr_reason (unlabelled r) = sr_reason r"
  "sr_record_id (unlabelled r) = sr_record_id r"
  by (simp_all add: unlabelled_def)

lemma unlabelled_joined [simp]:
  "joined (unlabelled r) s reason sel = unlabelled_join (joined r s reason sel)"
  "close_join (unlabelled r) a i n sel = unlabelled_join (close_join r a i n sel)"
  by (simp_all add: joined_def unlabelled_join_def close_join_def)

lemma map_sum_bindE: "map_sum id g (bindE m f) = bindE m (\<lambda>x. map_sum id g (f x))"
  by (cases m) simp_all

lemma join_one_unlabelled:
  "join_one o1 comparison available (unlabelled r) =
     map_sum id unlabelled_join (join_one o1 comparison available r)"
  by (auto simp: join_one_def join_pilot_def map_sum_bindE Let_def
      split: record_state.split option.split support.split intro!: arg_cong [where f = "bindE _"] ext)

lemma mapE_map_sum: "mapE (\<lambda>x. map_sum id g (f x)) xs = map_sum id (map g) (mapE f xs)"
proof (induction xs)
  case (Cons x xs)
  then show ?case by (cases "f x"; cases "mapE f xs") simp_all
qed simp

lemma join_unlabelled:
  "join_source_interval (map unlabelled records) o1 comparison available =
     map_sum id (map unlabelled_join) (join_source_interval records o1 comparison available)"
  by (simp add: join_source_interval_def mapE_map join_one_unlabelled mapE_map_sum map_sum_bindE o_def)

end
