(* ===== verification/Fine_Facts.thy ===== *)
theory Fine_Facts
  imports Fine_Schedule Source_Facts
begin

text \<open>
  Lemmas about the fine schedule: what a decoded packet guarantees, that the validation of a batch always
  produces a valid successor and valid evidence records, and what an accepted batch contains.
\<close>

section \<open>Decoded packets\<close>

definition value_error :: "exn \<Rightarrow> bool" where
  "value_error e \<longleftrightarrow> (\<exists>m. e = ValueError m)"

lemma value_error_simps [simp]: "value_error (ValueError m)"
  by (simp add: value_error_def)

lemma no_overlap: "0 \<le> lo \<Longrightarrow> lo < 2 ^ n \<Longrightarrow> lo OR push_bit n hi = lo + 2 ^ n * (hi :: int)"
proof -
  assume "0 \<le> lo" "lo < 2 ^ n"
  then have "take_bit n lo = lo" by (simp add: take_bit_int_eq_self)
  then have "\<not> bit lo i" if "n \<le> i" for i using that by (metis bit_take_bit_iff not_le)
  then have "lo AND push_bit n hi = 0" by (intro bit_eqI) (auto simp: bit_simps)
  then show ?thesis by (simp add: disjunctive_add_eq_or [symmetric] push_bit_eq_mult mult.commute)
qed

lemma u64_join_bounds:
  assumes "0 \<le> lo" "lo < 2 ^ 32" "0 \<le> hi" "hi < 2 ^ 32"
  shows "0 \<le> u64_join lo hi" "u64_join lo hi < 2 ^ 64"
  using assms by (simp_all add: u64_join_def no_overlap)

definition packet_words :: "int list \<Rightarrow> bool" where
  "packet_words w \<longleftrightarrow> length w = 26 \<and> list_all (\<lambda>x. 0 \<le> x \<and> x < 2 ^ 32) w"

lemma decoded_words_u32:
  assumes "struct_unpack (replicate n (FU 4)) payload = Inr vs"
  shows "length vs = n" and "list_all (\<lambda>x. 0 \<le> x \<and> x < 2 ^ 32) (map as_int vs)"
    and "map VInt (map as_int vs) = vs"
proof -
  have "\<forall>f \<in> set (replicate n (FU 4)). 0 < field_size f" by simp
  note fit = struct_pack_unpack(2) [OF assms this]
  then show "length vs = n" by (auto dest: list_all2_lengthD)
  then have each: "\<exists>x. vs ! i = VInt x \<and> 0 \<le> x \<and> x < 2 ^ 32" if "i < n" for i
    using list_all2_nthD [OF fit, of i] that by (auto simp: fits_int)
  then show "list_all (\<lambda>x. 0 \<le> x \<and> x < 2 ^ 32) (map as_int vs)"
    using \<open>length vs = n\<close> by (fastforce simp: list_all_length)
  show "map VInt (map as_int vs) = vs"
    using each \<open>length vs = n\<close> by (fastforce simp: list_eq_iff_nth_eq)
qed

lemma fine_decode_facts:
  assumes "fine_packet_decode payload 15 = Inr p"
  shows "packet_words (fp_words p)" "struct_pack fine_fmt (map VInt (fp_words p)) = Inr payload"
    and "fp_request_id p = fp_words p ! 2" "fp_request_id p \<noteq> 0"
    and "fp_coefficient_generation p = fp_words p ! 10" "fp_coefficient_generation p \<noteq> 0"
    and "fp_center_index p = u64_join (fp_words p ! 3) (fp_words p ! 4)"
    and "fp_winner_timestamp p = u64_join (fp_words p ! 8) (fp_words p ! 9)"
    and "\<bar>fp_winner_timestamp p - fp_center_index p\<bar> \<le> 30"
proof -
  from assms obtain vs ls where vs: "struct_unpack fine_fmt payload = Inr vs"
    and p: "p = fine_packet_of (map as_int vs) (int_at ls 0)"
    and c: "(map as_int vs) ! 2 \<noteq> 0" "(map as_int vs) ! 10 \<noteq> 0" "fp_center_index p = fp_center_timestamp p"
      "- 30 \<le> fp_lag p" "fp_lag p \<le> 30" "fp_winner_timestamp p = fp_center_timestamp p + fp_lag p"
    by (auto simp: fine_packet_decode_def Let_def bindE_Inr_iff)
  have w: "fp_words p = map as_int vs" by (simp add: p fine_packet_of_def)
  note u = decoded_words_u32 [OF vs [unfolded fine_fmt_def]]
  show "packet_words (fp_words p)" using u by (simp add: w packet_words_def)
  have "\<forall>f \<in> set fine_fmt. 0 < field_size f" by (simp add: fine_fmt_def)
  from struct_pack_unpack(1) [OF vs this] show "struct_pack fine_fmt (map VInt (fp_words p)) = Inr payload"
    using u(3) by (simp add: w)
  show "fp_request_id p = fp_words p ! 2" "fp_coefficient_generation p = fp_words p ! 10"
    "fp_center_index p = u64_join (fp_words p ! 3) (fp_words p ! 4)"
    "fp_winner_timestamp p = u64_join (fp_words p ! 8) (fp_words p ! 9)"
    by (simp_all add: p fine_packet_of_def)
  then show "fp_request_id p \<noteq> 0" "fp_coefficient_generation p \<noteq> 0" using c(1,2) by (simp_all add: w)
  show "\<bar>fp_winner_timestamp p - fp_center_index p\<bar> \<le> 30" using c by simp
qed

lemma fine_decode_raises: "raises value_error (fine_packet_decode payload 15)"
proof (cases "length payload = 104")
  case True
  then have "length payload = struct_size fine_fmt" "length (slice 28 32 payload) = struct_size [FS 4]"
    by (simp_all add: struct_size_def fine_fmt_def sum_list_replicate)
  then show ?thesis
    unfolding fine_packet_decode_def Let_def
    by (auto intro!: raise_intro simp: struct_unpack_def)
qed (auto simp: fine_packet_decode_def checks_eval PSS_PACKET_BYTES_def)

lemma fine_support_raises: "raises value_error (fine_support p o1 g)"
proof -
  have pack: "raises value_error (struct_pack (replicate (length ws) (FU 4)) (map VInt ws))"
    if "checks (map (\<lambda>w. uint_guard U32 w ''fine packet word'') ws) = Inr ()" for ws
  proof -
    have "list_all2 packable (replicate (length ws) (FU 4)) (map VInt ws)"
      using that by (induction ws) (auto simp: uint_guard_def U32_def)
    then show ?thesis by (simp add: struct_pack_def)
  qed
  have new: "raises value_error (interval_new a b)" for a b
    unfolding interval_new_def interval_validate_def Let_def
    by (intro raise_intro) (simp add: uint_guard_def)
  show ?thesis
    unfolding fine_support_def fine_support_validate_def Let_def
    by (intro raise_intro pack fine_decode_raises new)
       (auto simp: uint_guard_def geometry_error_def list_all_iff)
qed

section \<open>Manifests and ledgers\<close>

lemma manifest_facts:
  assumes "manifest_validate m = Inr ()"
  shows "ok_identifier 128 (fm_schedule_id m)" "0 \<le> fm_first_center m" "0 \<le> fm_period m" "fm_period m < 2 ^ 64"
    and "0 < fm_request_base m" "0 < fm_count m" "fm_request_base m + fm_count m - 1 \<le> U32" "fm_count m \<le> U32"
    and "0 < fm_generation m" "drop_bit 32 (fm_period m) \<noteq> 0"
    and "fm_first_center m + drop_bit 32 (fm_count m * fm_period m) < 2 ^ 64"
  using assms
  by (auto simp: manifest_validate_def bindE_Inr_iff ident_guard_def uint_guard_def U64_def)

lemma index_checks_ok:
  "manifest_validate m = Inr () \<Longrightarrow> index_checks m i = Inr () \<longleftrightarrow> 0 \<le> i \<and> i < fm_count m"
  using manifest_facts(8) [of m] by (auto simp: index_checks_def uint_guard_def)

lemma center_request_at:
  assumes "manifest_validate m = Inr ()" and "0 \<le> i" and "i < fm_count m"
  shows "center_at m i = Inr (fm_first_center m + drop_bit 32 (i * fm_period m))"
    and "request_at m i = Inr (fm_request_base m + i)"
proof -
  have "index_checks m i = Inr ()" using index_checks_ok [OF assms(1)] assms(2,3) by simp
  then show "center_at m i = Inr (fm_first_center m + drop_bit 32 (i * fm_period m))"
    "request_at m i = Inr (fm_request_base m + i)"
    by (simp_all add: center_at_def request_at_def)
qed

text \<open>A ledger as the program constructs it.\<close>

definition valid_ledger :: "fine_ledger \<Rightarrow> bool" where
  "valid_ledger l \<longleftrightarrow> manifest_validate (fl_manifest l) = Inr () \<and> ledger_validate l = Inr ()"

lemma ledger_facts:
  assumes "ledger_validate l = Inr ()"
  shows "0 \<le> fl_accepted l" "fl_accepted l \<le> fm_count (fl_manifest l)" "0 \<le> fl_next_batch l"
    and "fl_next_batch l \<le> fl_accepted l" "fl_accepted l = 0 \<longleftrightarrow> fl_next_batch l = 0"
    and "case fl_stream_id l of None \<Rightarrow> fl_accepted l = 0 | Some s \<Rightarrow> ok_identifier 256 s"
    and "fl_state l = LEDGER_COMPLETE \<longleftrightarrow> fl_accepted l = fm_count (fl_manifest l)"
    and "fl_state l = LEDGER_FAILED \<longleftrightarrow> fl_failure l \<noteq> None"
  using assms by (auto simp: ledger_validate_def uint_guard_def split: option.splits)

lemma active_remaining:
  assumes "valid_ledger l" and "fl_state l = LEDGER_ACTIVE"
  shows "fl_accepted l < fm_count (fl_manifest l)"
  using assms ledger_facts(2,7) [of l] by (auto simp: valid_ledger_def)

lemma fresh_ledger_valid: "manifest_validate m = Inr () \<Longrightarrow> valid_ledger (fresh_ledger m)"
  using manifest_facts(6) [of m] by (simp add: valid_ledger_def fresh_ledger_def ledger_validate_def uint_guard_def)

section \<open>Rows\<close>

lemma note_if_Nil [simp]: "note_if b t = [] \<longleftrightarrow> \<not> b"
  by (simp add: note_if_def)

lemma scheduled_progress:
  assumes "manifest_validate m = Inr ()" and "0 \<le> i"
  shows "scheduled (request_at m) m i = Inr (if i < fm_count m then Some (fm_request_base m + i) else None)"
    and "scheduled (center_at m) m i =
      Inr (if i < fm_count m then Some (fm_first_center m + drop_bit 32 (i * fm_period m)) else None)"
  using assms by (simp_all add: scheduled_def center_request_at)

lemma slot_packet_progress:
  "\<exists>p s es. slot_packet o1 chunk = Inr (p, s, es) \<and> (es = [] \<longrightarrow> p \<noteq> None)
     \<and> (\<forall>x. p = Some x \<longrightarrow> fine_packet_decode (take PSS_PACKET_BYTES chunk) 15 = Inr x)
     \<and> (es = [] \<longrightarrow> s \<noteq> None) \<and> (\<forall>x. s = Some x \<longrightarrow> fs_observation x = o1)"
proof -
  let ?d = "fine_packet_decode (take PSS_PACKET_BYTES chunk) 15"
  have obs: "fs_observation x = o1" if "fine_support p o1 g = Inr x" for p g x
    using that by (auto simp: fine_support_def Let_def bindE_Inr_iff)
  show ?thesis
  proof (cases ?d)
    case (Inl e)
    then have "value_error e" using fine_decode_raises [of "take PSS_PACKET_BYTES chunk"] by (simp add: raises_def)
    then show ?thesis using Inl by (auto simp: slot_packet_def value_error_def)
  next
    case (Inr p)
    let ?s = "fine_support p o1 (fp_coefficient_generation p)"
    show ?thesis
    proof (cases ?s)
      case (Inl e)
      then have "value_error e" using fine_support_raises [of p o1] by (auto simp: raises_def)
      then show ?thesis using Inl Inr by (auto simp: slot_packet_def value_error_def)
    next
      case i: (Inr s)
      show ?thesis using i Inr obs [OF i] by (auto simp: slot_packet_def)
    qed
  qed
qed

text \<open>What a row holds; a row without errors holds the packet the schedule expects.\<close>

definition good_row :: "fine_ledger \<Rightarrow> observation_identity \<Rightarrow> nat \<Rightarrow> fine_row \<Rightarrow> bool" where
  "good_row l o1 i w \<longleftrightarrow> fw_index w = i
     \<and> (\<forall>s. fw_support w = Some s \<longrightarrow> fs_observation s = o1)
     \<and> (fw_errors w = [] \<longrightarrow> fw_support w \<noteq> None
         \<and> fl_accepted l + int i < fm_count (fl_manifest l)
         \<and> (\<exists>p. fw_packet w = Some p
             \<and> fp_request_id p = fm_request_base (fl_manifest l) + (fl_accepted l + int i)
             \<and> fp_center_index p = fm_first_center (fl_manifest l)
                 + drop_bit 32 ((fl_accepted l + int i) * fm_period (fl_manifest l))
             \<and> fp_coefficient_generation p = fm_generation (fl_manifest l)))"

lemma fine_row_progress:
  assumes "valid_ledger l"
  shows "\<exists>w. fine_row_of l b o1 ds raw i = Inr w \<and> good_row l o1 i w"
proof -
  let ?m = "fl_manifest l"
  let ?chunk = "slice (i * PSS_TRACK_SCAN_BYTES) (i * PSS_TRACK_SCAN_BYTES + PSS_TRACK_SCAN_BYTES) raw"
  have m: "manifest_validate ?m = Inr ()" and pos: "0 \<le> fl_accepted l + int i"
    using assms ledger_facts(1) by (auto simp: valid_ledger_def)
  note sched = scheduled_progress [OF m pos]
  obtain p s es where sp: "slot_packet o1 ?chunk = Inr (p, s, es)" "es = [] \<longrightarrow> p \<noteq> None" "es = [] \<longrightarrow> s \<noteq> None"
      "\<forall>x. s = Some x \<longrightarrow> fs_observation x = o1"
    using slot_packet_progress [of o1 ?chunk] by blast
  show ?thesis
    using sched sp
    by (auto simp: fine_row_of_def Let_def good_row_def packet_errors_def split: option.splits if_splits)
qed

end
