(* ===== verification/Fine_Ledger.thy ===== *)
theory Fine_Ledger
  imports Fine_Facts
begin

text \<open>
  The ledger of a fine schedule over whole batches: every validation of an active valid ledger returns a
  result whose successor and evidence records are valid, and what a run of batches has accepted.
\<close>

section \<open>Record identifiers\<close>

definition ok_char :: "char \<Rightarrow> bool" where
  "ok_char c \<longleftrightarrow> 33 \<le> (of_char c :: nat) \<and> (of_char c :: nat) < 128"

lemma ok_identifier_iff:
  "ok_identifier n s \<longleftrightarrow> list_all ok_char s \<and> 1 \<le> length s \<and> length s \<le> n"
  by (auto simp: ok_identifier_def ascii_text_def ok_char_def py_space_def Let_def list_all_iff)

lemma decimal_text_ok: "list_all ok_char (decimal_text n)" "decimal_text n \<noteq> []"
proof -
  have digit: "ok_char (char_of (48 + m))" if "m < 10" for m :: nat
    using that by (simp add: ok_char_def)
  show "list_all ok_char (decimal_text n)" "decimal_text n \<noteq> []"
    by (induction n rule: decimal_text.induct; subst decimal_text.simps; simp add: digit)+
qed

lemma length_decimal_text: "n < 10 ^ Suc k \<Longrightarrow> length (decimal_text n) \<le> Suc k"
proof (induction k arbitrary: n)
  case (Suc k)
  show ?case
  proof (cases "n < 10")
    case False
    have "n div 10 < 10 ^ Suc k" using Suc.prems by (simp add: less_mult_imp_div_less)
    then show ?thesis using Suc.IH False by (subst decimal_text.simps) simp
  qed (subst decimal_text.simps, simp)
qed (subst decimal_text.simps, simp)

lemma record_ids_ok:
  assumes "valid_ledger l" and "i < 10000"
  shows "ok_identifier 256 (record_prefix l @ ''scan'' @ decimal_text i)"
    and "ok_identifier 256 (record_prefix l @ ''unexpanded'')"
proof -
  note m = manifest_facts [of "fl_manifest l"]
  have v: "manifest_validate (fl_manifest l) = Inr ()" "ledger_validate l = Inr ()"
    using assms(1) by (simp_all add: valid_ledger_def)
  have "fl_next_batch l \<le> U32" using ledger_facts(2,4) [OF v(2)] m(8) [OF v(1)] by linarith
  then have "nat (fl_next_batch l) < 10 ^ Suc 9" by (simp add: U32_def)
  then have n: "length (decimal_text (nat (fl_next_batch l))) \<le> Suc 9" by (rule length_decimal_text)
  have i: "length (decimal_text i) \<le> Suc 3" by (rule length_decimal_text) (use assms(2) in simp)
  have base: "list_all ok_char '':batchscanunexpanded''" by (simp add: ok_char_def)
  have id: "list_all ok_char (fm_schedule_id (fl_manifest l))" "length (fm_schedule_id (fl_manifest l)) \<le> 128"
    using m(1) [OF v(1)] by (simp_all add: ok_identifier_iff)
  show "ok_identifier 256 (record_prefix l @ ''scan'' @ decimal_text i)"
    using n i base id decimal_text_ok by (simp add: ok_identifier_iff record_prefix_def)
  show "ok_identifier 256 (record_prefix l @ ''unexpanded'')"
    using n base id decimal_text_ok by (simp add: ok_identifier_iff record_prefix_def)
qed

section \<open>The envelope of a batch\<close>

definition full_batch :: "fine_ledger \<Rightarrow> batch_receipt \<Rightarrow> bool" where
  "full_batch l b \<longleftrightarrow> batch_bounded b \<and> ok_identifier 256 (br_stream_id b)
     \<and> (fl_stream_id l = None \<or> fl_stream_id l = Some (br_stream_id b))
     \<and> br_requested b \<le> remaining_results l \<and> int (length (br_scans b)) = br_requested b
     \<and> (\<exists>raw. br_raw b = Some raw \<and> int (length raw) = br_requested b * 128)"

lemma batch_errors_progress:
  assumes "valid_ledger l" and "fl_state l = LEDGER_ACTIVE"
  shows "\<exists>es. batch_errors l b = Inr (es, batch_bounded b) \<and> (es = [] \<longrightarrow> full_batch l b)"
proof -
  have v: "manifest_validate (fl_manifest l) = Inr ()" "0 \<le> fl_accepted l"
    using assms(1) ledger_facts(1) by (auto simp: valid_ledger_def)
  obtain rs where r: "expected_request_errors l b = Inr rs"
    using center_request_at(2) [OF v active_remaining [OF assms]]
    by (cases "br_expected_request b") (simp_all add: expected_request_errors_def Let_def)
  have size: "size_errors l b = [] \<Longrightarrow> br_requested b \<le> remaining_results l
      \<and> int (length (br_scans b)) = br_requested b
      \<and> (\<exists>raw. br_raw b = Some raw \<and> int (length raw) = br_requested b * 128)"
    by (auto simp: size_errors_def Let_def PSS_TRACK_SCAN_BYTES_def split: option.splits)
  show ?thesis
    using r size by (auto simp: batch_errors_def Let_def full_batch_def)
qed

lemma full_batch_rows:
  assumes "full_batch l b" and "br_raw b = Some raw"
  shows "int (row_count b raw) = br_requested b" "0 < row_count b raw"
proof -
  have n: "1 \<le> br_requested b" "length (br_scans b) = nat (br_requested b)" "length raw = nat (br_requested b) * 128"
    using assms by (auto simp: full_batch_def batch_bounded_def)
  then have "row_count b raw = nat (br_requested b)"
    by (simp add: row_count_def PSS_TRACK_SCAN_BYTES_def)
  then show "int (row_count b raw) = br_requested b" "0 < row_count b raw" using n(1) by simp_all
qed

lemma row_count_bound:
  assumes "batch_bounded b"
  shows "row_count b (case br_raw b of None \<Rightarrow> [] | Some bs \<Rightarrow> bs) \<le> 4096"
proof -
  have "length (case br_raw b of None \<Rightarrow> [] | Some bs \<Rightarrow> bs) \<le> 4096 * 128"
    using assms by (auto simp: batch_bounded_def MAX_SCANS_def PSS_TRACK_SCAN_BYTES_def split: option.splits)
  then have "(127 + length (case br_raw b of None \<Rightarrow> [] | Some bs \<Rightarrow> bs)) div 128 \<le> 4096" by linarith
  then show ?thesis
    using assms
    by (simp add: row_count_def batch_bounded_def MAX_SCANS_def PSS_TRACK_SCAN_BYTES_def nat_le_iff add.commute)
qed

section \<open>Successors and records\<close>

lemma successor_failed:
  assumes "valid_ledger l" and "fl_state l = LEDGER_ACTIVE"
  shows "\<exists>l2. successor l b True n = Inr l2 \<and> valid_ledger l2 \<and> fl_manifest l2 = fl_manifest l
    \<and> fl_accepted l2 = fl_accepted l \<and> fl_next_batch l2 = fl_next_batch l \<and> fl_state l2 = LEDGER_FAILED
    \<and> fl_stream_id l2 = fl_stream_id l"
proof -
  have v: "ledger_validate l = Inr ()" "manifest_validate (fl_manifest l) = Inr ()"
    using assms(1) by (simp_all add: valid_ledger_def)
  define l2 where "l2 = \<lparr>fl_manifest = fl_manifest l, fl_accepted = fl_accepted l,
    fl_next_batch = fl_next_batch l, fl_stream_id = fl_stream_id l, fl_state = LEDGER_FAILED,
    fl_failure = Some ''fine batch validation failed; retain its batch result''\<rparr>"
  have "ledger_validate l2 = Inr ()"
    using ledger_facts [OF v(1)] assms(2) active_remaining [OF assms]
    by (auto simp: l2_def ledger_validate_def uint_guard_def split: option.splits)
  then show ?thesis
    using v by (simp add: successor_def ledger_new_def Let_def valid_ledger_def l2_def)
qed

lemma successor_accepted:
  assumes "valid_ledger l" and "fl_state l = LEDGER_ACTIVE"
    and "0 < n" "int n \<le> remaining_results l" "ok_identifier 256 (br_stream_id b)"
  shows "\<exists>l2. successor l b False n = Inr l2 \<and> valid_ledger l2 \<and> fl_manifest l2 = fl_manifest l
    \<and> fl_accepted l2 = fl_accepted l + int n \<and> fl_next_batch l2 = fl_next_batch l + 1
    \<and> fl_state l2 \<noteq> LEDGER_FAILED \<and> fl_stream_id l2 = Some (br_stream_id b)"
proof -
  have v: "ledger_validate l = Inr ()" "manifest_validate (fl_manifest l) = Inr ()"
    using assms(1) by (simp_all add: valid_ledger_def)
  define l2 where "l2 = \<lparr>fl_manifest = fl_manifest l, fl_accepted = fl_accepted l + int n,
    fl_next_batch = fl_next_batch l + 1, fl_stream_id = Some (br_stream_id b),
    fl_state = (if int n = remaining_results l then LEDGER_COMPLETE else LEDGER_ACTIVE), fl_failure = None\<rparr>"
  have "ledger_validate l2 = Inr ()"
    using ledger_facts [OF v(1)] assms(3-5)
    by (auto simp: l2_def ledger_validate_def uint_guard_def remaining_results_def)
  then show ?thesis
    using v by (simp add: successor_def ledger_new_def Let_def valid_ledger_def l2_def)
qed

lemma scan_of_row_progress:
  assumes "valid_ledger l" and "good_row l o1 i w" and "i < 10000"
    and "failed \<or> fw_errors w = []"
  shows "\<exists>s. scan_of_row l o1 failed w = Inr s \<and> source_record_validate (fss_record s) = Inr ()
    \<and> fss_packet s = fw_packet w \<and> fss_errors s = fw_errors w
    \<and> sr_state (fss_record s) = (if failed then INCOMPLETE else COMPLETE)"
proof -
  have "fw_index w = i" "\<forall>s. fw_support w = Some s \<longrightarrow> fs_observation s = o1"
    "\<not> failed \<longrightarrow> fw_support w \<noteq> None"
    using assms(2,4) by (auto simp: good_row_def)
  moreover have "\<not> blank ''whole native batch failed; see retained result''"
    by (simp add: blank_def py_space_def)
  ultimately show ?thesis
    using record_ids_ok(1) [OF assms(1,3)]
    by (cases "fw_support w")
       (auto simp: scan_of_row_def source_record_new_def Let_def source_record_validate_def ident_guard_def checks_eval)
qed

lemma unexpanded_progress:
  assumes "valid_ledger l"
  shows "\<exists>s. unexpanded_scan l o1 es = Inr s \<and> source_record_validate (fss_record s) = Inr ()
    \<and> sr_state (fss_record s) = INCOMPLETE"
proof -
  have "\<not> blank ''invalid bounded envelope; per-slot observations unavailable''"
    by (simp add: blank_def py_space_def)
  then show ?thesis
    using record_ids_ok(2) [OF assms, of 0]
    by (auto simp: unexpanded_scan_def source_record_new_def Let_def source_record_validate_def ident_guard_def
        checks_eval)
qed

section \<open>One batch\<close>

text \<open>The packet the schedule expects at an ordinal, and a run of them.\<close>

definition scheduled_packet :: "fine_manifest \<Rightarrow> int \<Rightarrow> fine_packet \<Rightarrow> bool" where
  "scheduled_packet m i p \<longleftrightarrow> i < fm_count m \<and> fp_request_id p = fm_request_base m + i
     \<and> fp_center_index p = fm_first_center m + drop_bit 32 (i * fm_period m)
     \<and> fp_coefficient_generation p = fm_generation m"

fun scheduled_packets :: "fine_manifest \<Rightarrow> int \<Rightarrow> fine_packet list \<Rightarrow> bool" where
  "scheduled_packets m k [] \<longleftrightarrow> True"
| "scheduled_packets m k (p # ps) \<longleftrightarrow> scheduled_packet m k p \<and> scheduled_packets m (k + 1) ps"

definition accepted_packets :: "fine_batch_result \<Rightarrow> fine_packet list" where
  "accepted_packets r = (if fr_accepted r then map (\<lambda>s. the (fss_packet s)) (fr_scans r) else [])"

lemma scheduled_packets_append:
  "scheduled_packets m k (ps @ qs) \<longleftrightarrow> scheduled_packets m k ps \<and> scheduled_packets m (k + int (length ps)) qs"
  by (induction ps arbitrary: k) (auto simp: algebra_simps)

lemma scheduled_packets_nth:
  "scheduled_packets m k ps \<longleftrightarrow> (\<forall>i < length ps. scheduled_packet m (k + int i) (ps ! i))"
  by (induction ps arbitrary: k) (auto simp: All_less_Suc2 algebra_simps)

text \<open>What a validation returns.\<close>

definition batch_outcome :: "fine_ledger \<Rightarrow> batch_receipt \<Rightarrow> fine_batch_result \<Rightarrow> bool" where
  "batch_outcome l b r \<longleftrightarrow>
     valid_ledger (fr_after r) \<and> fl_manifest (fr_after r) = fl_manifest l
     \<and> (\<forall>s \<in> set (fr_scans r). source_record_validate (fss_record s) = Inr ()
          \<and> sr_state (fss_record s) = (if fr_accepted r then COMPLETE else INCOMPLETE))
     \<and> (fr_accepted r \<longleftrightarrow> fr_errors r = [])
     \<and> fl_accepted (fr_after r) = fl_accepted l + int (length (accepted_packets r))
     \<and> scheduled_packets (fl_manifest l) (fl_accepted l) (accepted_packets r)
     \<and> fl_next_batch (fr_after r) = fl_next_batch l + (if fr_accepted r then 1 else 0)
     \<and> (fr_accepted r \<longrightarrow> fl_stream_id (fr_after r) = Some (br_stream_id b)
          \<and> (fl_stream_id l = None \<or> fl_stream_id l = Some (br_stream_id b)))
     \<and> (\<not> fr_accepted r \<longrightarrow> fl_stream_id (fr_after r) = fl_stream_id l)"

lemma list_all2_progress:
  assumes "list_all2 P xs ys" and "\<And>x y. x \<in> set xs \<Longrightarrow> P x y \<Longrightarrow> \<exists>z. f y = Inr z \<and> Q y z"
  shows "\<exists>zs. mapE f ys = Inr zs \<and> list_all2 Q ys zs"
  using assms by (induction rule: list_all2_induct) fastforce+

lemma rows_progress:
  assumes "valid_ledger l" and "n \<le> 4096"
  shows "\<exists>ws. mapE (fine_row_of l b o1 ds raw) [0 ..< n] = Inr ws \<and> list_all2 (good_row l o1) [0 ..< n] ws"
  by (rule mapE_progress) (rule fine_row_progress [OF assms(1)])

lemma scans_progress:
  assumes "valid_ledger l" and "n \<le> 4096" and "list_all2 (good_row l o1) [0 ..< n] ws"
    and "failed \<or> \<not> list_ex (\<lambda>w. fw_errors w \<noteq> []) ws"
  shows "\<exists>ss. mapE (scan_of_row l o1 failed) ws = Inr ss
    \<and> list_all2 (\<lambda>w s. source_record_validate (fss_record s) = Inr () \<and> fss_packet s = fw_packet w
         \<and> sr_state (fss_record s) = (if failed then INCOMPLETE else COMPLETE)) ws ss"
proof (rule list_all2_progress)
  show "list_all2 (\<lambda>i w. good_row l o1 i w \<and> (failed \<or> fw_errors w = [])) [0 ..< n] ws"
    using assms(3,4) by (auto simp: list_all2_conv_all_nth list_ex_iff)
  fix i w
  assume "i \<in> set [0 ..< n]" and g: "good_row l o1 i w \<and> (failed \<or> fw_errors w = [])"
  then have "i < 10000" using assms(2) by simp
  from scan_of_row_progress [OF assms(1) _ this] g
  show "\<exists>s. scan_of_row l o1 failed w = Inr s \<and> source_record_validate (fss_record s) = Inr ()
      \<and> fss_packet s = fw_packet w \<and> sr_state (fss_record s) = (if failed then INCOMPLETE else COMPLETE)"
    by blast
qed

lemma rows_scheduled:
  assumes "list_all2 (good_row l o1) [0 ..< n] ws" and "\<not> list_ex (\<lambda>w. fw_errors w \<noteq> []) ws"
  shows "scheduled_packets (fl_manifest l) (fl_accepted l) (map (\<lambda>w. the (fw_packet w)) ws)"
  unfolding scheduled_packets_nth
proof (intro allI impI)
  fix i assume "i < length (map (\<lambda>w. the (fw_packet w)) ws)"
  then have i: "i < length ws" by simp
  then have "good_row l o1 i (ws ! i)" "fw_errors (ws ! i) = []"
    using assms by (auto simp: list_all2_conv_all_nth list_ex_length)
  then show "scheduled_packet (fl_manifest l) (fl_accepted l + int i) (map (\<lambda>w. the (fw_packet w)) ws ! i)"
    using i by (auto simp: good_row_def scheduled_packet_def)
qed

lemma same_packets:
  "list_all2 (\<lambda>w s. P w s \<and> fss_packet s = fw_packet w \<and> Q w s) ws ss \<Longrightarrow>
     map (\<lambda>s. the (fss_packet s)) ss = map (\<lambda>w. the (fw_packet w)) ws"
  by (induction rule: list_all2_induct) auto

text \<open>The validation once its three argument checks have passed.\<close>

definition guards_pass :: "fine_ledger \<Rightarrow> observation_identity \<Rightarrow> detection_state list option \<Rightarrow> bool" where
  "guards_pass l o1 ds \<longleftrightarrow> fl_state l = LEDGER_ACTIVE \<and> oi_source_rate_hz o1 = 15000000
     \<and> (case ds of None \<Rightarrow> True | Some xs \<Rightarrow> length xs \<le> MAX_SCANS)"

lemma schedule_observation_iff: "schedule_observation o1 = Inr () \<longleftrightarrow> oi_source_rate_hz o1 = 15000000"
  by (cases "oi_profile o1") (simp_all add: schedule_observation_def)

lemma validate_guards:
  "\<not> guards_pass l o1 ds \<Longrightarrow> \<exists>e. validate_fine_batch l b o1 ds = Inl (ValueError e)"
  by (auto simp: guards_pass_def validate_fine_batch_def schedule_observation_def checks_eval split: option.splits)

definition batch_rows ::
  "fine_ledger \<Rightarrow> batch_receipt \<Rightarrow> observation_identity \<Rightarrow> detection_state list option \<Rightarrow> fine_row list result" where
  "batch_rows l b o1 ds =
     (let raw = (case br_raw b of None \<Rightarrow> [] | Some bs \<Rightarrow> bs) in
      if batch_bounded b then mapE (fine_row_of l b o1 ds raw) [0 ..< row_count b raw] else Inr [])"

definition all_errors ::
  "fine_ledger \<Rightarrow> batch_receipt \<Rightarrow> observation_identity \<Rightarrow> detection_state list option \<Rightarrow> string list \<Rightarrow> fine_row list
     \<Rightarrow> string list" where
  "all_errors l b o1 ds native rows = native @ envelope_errors l b o1 ds @
     note_if (list_ex (\<lambda>w. fw_errors w \<noteq> []) rows) ''one or more native slots failed exact fine-schedule validation''"

lemma validate_steps:
  assumes "guards_pass l o1 ds" and "batch_errors l b = Inr (native, batch_bounded b)"
    and "batch_rows l b o1 ds = Inr ws"
    and "es = all_errors l b o1 ds native ws" and "successor l b (es \<noteq> []) (length ws) = Inr l2"
    and "mapE (scan_of_row l o1 (es \<noteq> [])) ws = Inr ss"
    and "(if ss = [] then bindE (unexpanded_scan l o1 es) (\<lambda>s. Inr [s]) else Inr ss) = Inr ss2"
  shows "validate_fine_batch l b o1 ds = Inr \<lparr>fr_before = l, fr_after = l2, fr_batch = b, fr_observation = o1,
    fr_detections = ds, fr_scans = ss2, fr_errors = es\<rparr>"
proof -
  have g: "fl_state l = LEDGER_ACTIVE" "schedule_observation o1 = Inr ()"
    "(case ds of None \<Rightarrow> False | Some xs \<Rightarrow> length xs > MAX_SCANS) = False"
    using assms(1) by (auto simp: guards_pass_def schedule_observation_iff split: option.splits)
  show ?thesis
    unfolding validate_fine_batch_def g(2)
    using g(1,3) assms(2,3,5-7)
    by (simp add: checks_eval batch_rows_def Let_def all_errors_def [symmetric] assms(4) [symmetric] split: if_splits)
qed

lemma batch_rows_progress:
  assumes "valid_ledger l"
  shows "\<exists>n ws. batch_rows l b o1 ds = Inr ws \<and> list_all2 (good_row l o1) [0 ..< n] ws \<and> n \<le> 4096
    \<and> (full_batch l b \<longrightarrow> int n = br_requested b \<and> 0 < n)"
proof (cases "batch_bounded b")
  case True
  let ?raw = "case br_raw b of None \<Rightarrow> [] | Some bs \<Rightarrow> bs"
  have n: "row_count b ?raw \<le> 4096" by (rule row_count_bound [OF True])
  have f: "int (row_count b ?raw) = br_requested b \<and> 0 < row_count b ?raw" if full: "full_batch l b"
  proof -
    obtain raw where "br_raw b = Some raw" using full by (auto simp: full_batch_def)
    with full_batch_rows [OF full this] show ?thesis by simp
  qed
  show ?thesis
    using rows_progress [OF assms n, of b o1 ds ?raw] n f True by (auto simp: batch_rows_def Let_def)
next
  case False
  then show ?thesis by (intro exI [of _ 0] exI [of _ "[]"]) (simp add: batch_rows_def full_batch_def)
qed

lemma validate_progress:
  assumes "valid_ledger l" and "guards_pass l o1 ds"
  shows "\<exists>r. validate_fine_batch l b o1 ds = Inr r \<and> batch_outcome l b r"
proof -
  have active: "fl_state l = LEDGER_ACTIVE" using assms(2) by (simp add: guards_pass_def)
  obtain native where native: "batch_errors l b = Inr (native, batch_bounded b)" "native = [] \<longrightarrow> full_batch l b"
    using batch_errors_progress [OF assms(1) active] by blast
  obtain n ws where ws: "batch_rows l b o1 ds = Inr ws" "list_all2 (good_row l o1) [0 ..< n] ws" "n \<le> 4096"
      "full_batch l b \<longrightarrow> int n = br_requested b \<and> 0 < n"
    using batch_rows_progress [OF assms(1)] by blast
  have len: "length ws = n" using ws(2) by (auto dest: list_all2_lengthD)
  define es where "es = all_errors l b o1 ds native ws"
  have rows_ok: "es \<noteq> [] \<or> \<not> list_ex (\<lambda>w. fw_errors w \<noteq> []) ws" by (auto simp: es_def all_errors_def)
  obtain ss where ss: "mapE (scan_of_row l o1 (es \<noteq> [])) ws = Inr ss"
    and rel: "list_all2 (\<lambda>w s. source_record_validate (fss_record s) = Inr () \<and> fss_packet s = fw_packet w
         \<and> sr_state (fss_record s) = (if es \<noteq> [] then INCOMPLETE else COMPLETE)) ws ss"
    using scans_progress [OF assms(1) ws(3,2) rows_ok] by blast
  have recs: "\<forall>s \<in> set ss. source_record_validate (fss_record s) = Inr ()
      \<and> sr_state (fss_record s) = (if es \<noteq> [] then INCOMPLETE else COMPLETE)"
    using rel by (auto simp: list_all2_conv_all_nth in_set_conv_nth)
  note steps = validate_steps [OF assms(2) native(1) ws(1) es_def]
  show ?thesis
  proof (cases "es = []")
    case False
    obtain l2 where l2: "successor l b True (length ws) = Inr l2" "valid_ledger l2" "fl_manifest l2 = fl_manifest l"
        "fl_accepted l2 = fl_accepted l" "fl_next_batch l2 = fl_next_batch l" "fl_state l2 = LEDGER_FAILED"
        "fl_stream_id l2 = fl_stream_id l"
      using successor_failed [OF assms(1) active] by blast
    obtain u where u: "unexpanded_scan l o1 es = Inr u" "source_record_validate (fss_record u) = Inr ()"
        "sr_state (fss_record u) = INCOMPLETE"
      using unexpanded_progress [OF assms(1)] by blast
    have "(if ss = [] then bindE (unexpanded_scan l o1 es) (\<lambda>s. Inr [s]) else Inr ss) = Inr (if ss = [] then [u] else ss)"
      using u(1) by simp
    from steps [OF _ ss this] l2(1) False
    show ?thesis
      using l2 u recs False by (auto simp: batch_outcome_def fr_accepted_def accepted_packets_def)
  next
    case True
    then have full: "full_batch l b" and clean: "\<not> list_ex (\<lambda>w. fw_errors w \<noteq> []) ws"
      using native(2) by (auto simp: es_def all_errors_def)
    then have n: "0 < n" "int n \<le> remaining_results l" "ok_identifier 256 (br_stream_id b)"
        "fl_stream_id l = None \<or> fl_stream_id l = Some (br_stream_id b)"
      using ws(4) by (auto simp: full_batch_def)
    obtain l2 where l2: "successor l b False n = Inr l2" "valid_ledger l2" "fl_manifest l2 = fl_manifest l"
        "fl_accepted l2 = fl_accepted l + int n" "fl_next_batch l2 = fl_next_batch l + 1"
        "fl_state l2 \<noteq> LEDGER_FAILED" "fl_stream_id l2 = Some (br_stream_id b)"
      using successor_accepted [OF assms(1) active n(1-3)] by blast
    have lens: "length ss = n" using rel len by (auto dest: list_all2_lengthD)
    then have "ss \<noteq> []" using n(1) by auto
    then have "(if ss = [] then bindE (unexpanded_scan l o1 es) (\<lambda>s. Inr [s]) else Inr ss) = Inr ss" by simp
    note run = steps [OF _ ss this, of l2]
    have "map (\<lambda>s. the (fss_packet s)) ss = map (\<lambda>w. the (fw_packet w)) ws" by (rule same_packets [OF rel])
    then have "scheduled_packets (fl_manifest l) (fl_accepted l) (map (\<lambda>s. the (fss_packet s)) ss)"
      using rows_scheduled [OF ws(2) clean] by simp
    then show ?thesis
      using run l2 True recs n(4) len lens
      by (auto simp: batch_outcome_def fr_accepted_def accepted_packets_def)
  qed
qed

section \<open>Runs of batches\<close>

text \<open>
  One call of the validation, as the owner of the ledger uses it: the successor is adopted, and a call that
  raises leaves the ledger as it was.
\<close>

type_synonym batch_input = "batch_receipt \<times> observation_identity \<times> detection_state list option"

definition ledger_step :: "fine_ledger \<Rightarrow> batch_input \<Rightarrow> fine_ledger \<times> fine_batch_result result" where
  "ledger_step l input =
     (case input of (b, o1, ds) \<Rightarrow>
        (case validate_fine_batch l b o1 ds of Inl e \<Rightarrow> (l, Inl e) | Inr r \<Rightarrow> (fr_after r, Inr r)))"

definition packets_of :: "fine_batch_result result \<Rightarrow> fine_packet list" where
  "packets_of out = (case out of Inl e \<Rightarrow> [] | Inr r \<Rightarrow> accepted_packets r)"

definition accepted_batches :: "fine_batch_result result list \<Rightarrow> nat" where
  "accepted_batches outs = length (filter (\<lambda>out. case out of Inl e \<Rightarrow> False | Inr r \<Rightarrow> fr_accepted r) outs)"

lemma ledger_step_cases:
  assumes "valid_ledger l"
  shows "(\<exists>e. ledger_step l (b, o1, ds) = (l, Inl e)) \<or>
    (\<exists>r. ledger_step l (b, o1, ds) = (fr_after r, Inr r) \<and> batch_outcome l b r)"
  using validate_progress [OF assms, of o1 ds b] validate_guards [of l o1 ds b]
  by (cases "guards_pass l o1 ds") (auto simp: ledger_step_def)

lemma ledger_step_valid: "valid_ledger l \<Longrightarrow> valid_ledger (fst (ledger_step l i))"
proof -
  assume v: "valid_ledger l"
  obtain b o1 ds where i: "i = (b, o1, ds)" by (cases i)
  from ledger_step_cases [OF v, of b o1 ds] v show ?thesis by (auto simp: i batch_outcome_def)
qed

interpretation fine_ledgers: state_machine ledger_step valid_ledger
  by unfold_locales (rule ledger_step_valid)

lemma ledger_run:
  assumes "valid_ledger l" and "run ledger_step l inputs = (l2, outs)"
  shows "fl_manifest l2 = fl_manifest l
    \<and> fl_accepted l2 = fl_accepted l + int (length (concat (map packets_of outs)))
    \<and> scheduled_packets (fl_manifest l) (fl_accepted l) (concat (map packets_of outs))
    \<and> fl_next_batch l2 = fl_next_batch l + int (accepted_batches outs)"
  using assms
proof (induction inputs arbitrary: l outs)
  case Nil
  then show ?case by (simp add: accepted_batches_def)
next
  case (Cons i inputs)
  obtain b o1 ds where i: "i = (b, o1, ds)" by (cases i)
  from ledger_step_cases [OF Cons.prems(1), of b o1 ds] show ?case
  proof (elim disjE exE conjE)
    fix e assume s: "ledger_step l (b, o1, ds) = (l, Inl e)"
    obtain os where "run ledger_step l inputs = (l2, os)" "outs = Inl e # os"
      using Cons.prems(2) s by (auto simp: i split: prod.splits)
    with Cons.IH [OF Cons.prems(1) this(1)] show ?thesis
      by (simp add: packets_of_def accepted_batches_def)
  next
    fix r assume s: "ledger_step l (b, o1, ds) = (fr_after r, Inr r)" and o: "batch_outcome l b r"
    obtain os where os: "run ledger_step (fr_after r) inputs = (l2, os)" "outs = Inr r # os"
      using Cons.prems(2) s by (auto simp: i split: prod.splits)
    have "valid_ledger (fr_after r)" using o by (simp add: batch_outcome_def)
    from Cons.IH [OF this os(1)] o os(2) show ?thesis
      by (auto simp: batch_outcome_def packets_of_def accepted_batches_def scheduled_packets_append)
  qed
qed

end
