(* ===== verification/Pss_Maps.thy ===== *)
theory Pss_Maps
  imports Pss_Records
begin

text \<open>
  Lemmas about phase maps: what a decoded chunk guarantees, the exact streams the reassembler accepts,
  the invariant of its state, and the optimality of the coarse search.
\<close>

section \<open>Decoded chunks\<close>

text \<open>The shape every decoded chunk has; the reassembler relies on nothing else.\<close>

definition chunk_shape :: "map_chunk \<Rightarrow> bool" where
  "chunk_shape c \<longleftrightarrow> mc_count c = 200 \<and> length (mc_bins c) = 100"

lemma decoded_chunk_shape:
  assumes "map_chunk_decode payload shared stop = Inr c"
  shows "chunk_shape c" "mc_index c < 200" "mc_first_bin c = 100 * mc_index c"
  using assms
  by (auto simp: chunk_shape_def map_chunk_decode_def bindE_Inr_iff Let_def checks_eval
      struct_unpack_from_def PSS_MAP_CHUNKS_def PSS_MAP_CHUNK_BINS_def split: if_splits)

section \<open>Generations\<close>

text \<open>A run of chunks that starts a generation, and a complete one with the map it stands for.\<close>

definition chunk_identity :: "map_chunk \<Rightarrow> int \<times> int \<times> int \<times> int" where
  "chunk_identity c = (mc_abi c, mc_generation c, mc_start c, mc_count c)"

lemma same_generation_iff: "same_generation c d \<longleftrightarrow> chunk_identity c = chunk_identity d"
  by (auto simp: same_generation_def chunk_identity_def)

definition generation_prefix :: "map_chunk list \<Rightarrow> bool" where
  "generation_prefix cs \<longleftrightarrow>
     (\<forall>i < length cs. mc_index (cs ! i) = int i \<and> chunk_identity (cs ! i) = chunk_identity (hd cs))"

definition complete_generation :: "map_chunk list \<Rightarrow> bool" where
  "complete_generation cs \<longleftrightarrow> length cs = 200 \<and> generation_prefix cs"

definition generation_map :: "map_chunk list \<Rightarrow> phase_map" where
  "generation_map cs =
     \<lparr>pm_abi = mc_abi (hd cs), pm_generation = mc_generation (hd cs), pm_start = mc_start (hd cs),
      pm_bins = concat (map mc_bins cs)\<rparr>"

definition continues :: "map_chunk list \<Rightarrow> map_chunk \<Rightarrow> bool" where
  "continues kept c \<longleftrightarrow> mc_index c = int (length kept) \<and> (kept \<noteq> [] \<longrightarrow> same_generation c (hd kept))"

lemma generation_prefix_Nil [simp]: "generation_prefix []"
  by (simp add: generation_prefix_def)

lemma generation_prefix_snoc:
  "generation_prefix (kept @ [c]) \<longleftrightarrow> generation_prefix kept \<and> continues kept c"
  by (cases "kept = []")
     (auto simp: generation_prefix_def continues_def same_generation_iff All_less_Suc nth_append)

lemma generation_prefix_take:
  "generation_prefix (kept @ rest) \<Longrightarrow> generation_prefix kept"
  by (induction rest rule: rev_induct) (auto simp: generation_prefix_snoc simp flip: append_assoc)

lemma length_bins:
  "\<forall>c \<in> set cs. chunk_shape c \<Longrightarrow> length (concat (map mc_bins cs)) = 100 * length cs"
  by (induction cs) (auto simp: chunk_shape_def)

text \<open>What \<open>add\<close> does with a chunk, given the start of a generation.\<close>

lemma map_add_refused: "\<not> continues kept c \<Longrightarrow> \<exists>m. map_add kept c = ([], Inl (ValueError m))"
  by (auto simp: map_add_def continues_def)

lemma map_add_continues:
  assumes "continues kept c" and "\<forall>x \<in> set (kept @ [c]). chunk_shape x"
  shows "map_add kept c =
    (if length kept = 199 then ([], Inr (Some (generation_map (kept @ [c])))) else (kept @ [c], Inr None))"
proof -
  have n: "mc_count c = 200" using assms(2) by (simp add: chunk_shape_def)
  have b: "length (concat (map mc_bins (kept @ [c]))) = 100 * length (kept @ [c])"
    by (rule length_bins) (use assms(2) in simp)
  show ?thesis
    using assms(1) n b
    by (auto simp: map_add_def continues_def Let_def generation_map_def PSS_MAP_PHASE_BINS_def)
qed

section \<open>The streams the reassembler accepts\<close>

lemma add_all_sound:
  assumes "add_all kept cs = ([], Inr ms)" and "generation_prefix kept" and "length kept < 200"
    and "\<forall>c \<in> set (kept @ cs). chunk_shape c"
  shows "\<exists>gs. kept @ cs = concat gs \<and> (\<forall>g \<in> set gs. complete_generation g) \<and> ms = map generation_map gs"
  using assms
proof (induction cs arbitrary: kept ms)
  case (Cons c cs)
  have con: "continues kept c"
    using Cons.prems(1) map_add_refused [of kept c] by (auto split: prod.splits sum.splits)
  have pre: "generation_prefix (kept @ [c])" using con Cons.prems(2) by (simp add: generation_prefix_snoc)
  have dec: "\<forall>x \<in> set (kept @ [c]). chunk_shape x" using Cons.prems(4) by auto
  show ?case
  proof (cases "length kept = 199")
    case full: True
    then obtain ms2 where r: "add_all [] cs = ([], Inr ms2)" and ms: "ms = generation_map (kept @ [c]) # ms2"
      using Cons.prems(1) map_add_continues [OF con dec] by (auto split: prod.splits sum.splits)
    obtain gs where gs: "cs = concat gs" "\<forall>g \<in> set gs. complete_generation g" "ms2 = map generation_map gs"
      using Cons.IH [OF r] Cons.prems(4) by auto
    have "complete_generation (kept @ [c])" using full pre by (simp add: complete_generation_def)
    then show ?thesis using gs ms by (intro exI [of _ "(kept @ [c]) # gs"]) auto
  next
    case False
    then have r: "add_all (kept @ [c]) cs = ([], Inr ms)"
      using Cons.prems(1) map_add_continues [OF con dec] by (auto split: prod.splits sum.splits)
    show ?thesis using Cons.IH [OF r pre] False Cons.prems(3,4) by auto
  qed
qed (auto intro: exI [of _ "[]"])

lemma add_all_complete:
  assumes "kept @ cs = concat gs" and "\<forall>g \<in> set gs. complete_generation g" and "length kept < 200"
    and "\<forall>c \<in> set (kept @ cs). chunk_shape c"
  shows "add_all kept cs = ([], Inr (map generation_map gs))"
  using assms
proof (induction cs arbitrary: kept gs)
  case Nil
  have "gs = []"
  proof (cases gs)
    case (Cons g gs2)
    then have "length g = 200" using Nil.prems(2) by (simp add: complete_generation_def)
    moreover have "length g \<le> length kept" using Nil.prems(1) Cons by simp
    ultimately show ?thesis using Nil.prems(3) by simp
  qed simp
  then show ?case using Nil by simp
next
  case (Cons c cs)
  obtain g gs2 where gs: "gs = g # gs2" using Cons.prems(1) by (cases gs) auto
  have g: "length g = 200" "generation_prefix g"
    using Cons.prems(2) gs by (simp_all add: complete_generation_def)
  have cat: "(kept @ [c]) @ cs = g @ concat gs2" using Cons.prems(1) gs by simp
  have "length (kept @ [c]) \<le> length g" using g Cons.prems(3) by simp
  then obtain rest where rest: "g = (kept @ [c]) @ rest" and tail: "cs = rest @ concat gs2"
    by (metis append_eq_append_conv_if cat append_take_drop_id)
  have pre: "generation_prefix (kept @ [c])" using g(2) rest generation_prefix_take by blast
  then have con: "continues kept c" by (simp add: generation_prefix_snoc)
  have dec: "\<forall>x \<in> set (kept @ [c]). chunk_shape x" using Cons.prems(4) by auto
  show ?case
  proof (cases "length kept = 199")
    case True
    then have "rest = []" using g rest by (cases rest) auto
    then have "add_all [] cs = ([], Inr (map generation_map gs2))"
      using Cons.IH [of "[]" gs2] tail Cons.prems gs by auto
    then show ?thesis using map_add_continues [OF con dec] True rest \<open>rest = []\<close> gs by simp
  next
    case False
    have "add_all (kept @ [c]) cs = ([], Inr (map generation_map gs))"
      by (rule Cons.IH) (use Cons.prems False in auto)
    then show ?thesis using map_add_continues [OF con dec] False by simp
  qed
qed

lemma reassemble_maps_exact:
  assumes "\<forall>c \<in> set cs. chunk_shape c"
  shows "reassemble_maps cs = Inr ms \<longleftrightarrow>
    (\<exists>gs. cs = concat gs \<and> (\<forall>g \<in> set gs. complete_generation g) \<and> ms = map generation_map gs)"
proof
  assume "reassemble_maps cs = Inr ms"
  then have "add_all [] cs = ([], Inr ms)"
    by (auto simp: reassemble_maps_def split: prod.splits sum.splits if_splits)
  from add_all_sound [OF this] assms
  show "\<exists>gs. cs = concat gs \<and> (\<forall>g \<in> set gs. complete_generation g) \<and> ms = map generation_map gs" by simp
next
  assume "\<exists>gs. cs = concat gs \<and> (\<forall>g \<in> set gs. complete_generation g) \<and> ms = map generation_map gs"
  then obtain gs where "[] @ cs = concat gs" "\<forall>g \<in> set gs. complete_generation g" "ms = map generation_map gs"
    by auto
  then show "reassemble_maps cs = Inr ms"
    using add_all_complete [of "[]" cs gs] assms by (simp add: reassemble_maps_def)
qed

section \<open>The invariant of the reassembler\<close>

lemma map_add_state: "fst (map_add kept c) = [] \<or> fst (map_add kept c) = kept @ [c]"
  by (auto simp: map_add_def Let_def)

lemma map_add_keeps: "generation_prefix kept \<Longrightarrow> generation_prefix (fst (map_add kept c))"
  using map_add_state [of kept c] map_add_refused [of kept c]
  by (cases "continues kept c") (auto simp: generation_prefix_snoc)

interpretation map_chunks: state_machine map_add generation_prefix
  by unfold_locales (rule map_add_keeps)

section \<open>The coarse search\<close>

lemma argmax_upto:
  fixes xs :: "int list"
  assumes "xs \<noteq> []" and "n \<le> length xs"
  shows "let b = foldl (\<lambda>best i. if xs ! i > xs ! best then i else best) 0 [0 ..< n]
    in b < length xs \<and> (\<forall>i < n. xs ! i \<le> xs ! b) \<and> (\<forall>i < b. xs ! i < xs ! b) \<and> b \<le> n - 1"
  using assms(2)
proof (induction n)
  case 0
  then show ?case using assms(1) by simp
next
  case (Suc n)
  define b where "b = foldl (\<lambda>best i. if xs ! i > xs ! best then i else best) 0 [0 ..< n]"
  have ih: "b < length xs" "\<forall>i < n. xs ! i \<le> xs ! b" "\<forall>i < b. xs ! i < xs ! b" "b \<le> n - 1"
    using Suc by (simp_all add: b_def Let_def)
  have step: "foldl (\<lambda>best i. if xs ! i > xs ! best then i else best) 0 [0 ..< Suc n]
      = (if xs ! n > xs ! b then n else b)" by (simp add: b_def)
  have "xs ! i < xs ! n" if "xs ! b < xs ! n" "i < n" for i
    using ih(2) that by (meson le_less_trans)
  then show ?case unfolding Let_def step
    using ih Suc.prems by (auto simp: less_Suc_eq not_less order.strict_implies_order)
qed

lemma argmax_first:
  assumes "xs \<noteq> []"
  shows "argmax xs < length xs" "\<And>i. i < length xs \<Longrightarrow> xs ! i \<le> xs ! argmax xs"
    "\<And>i. i < argmax xs \<Longrightarrow> xs ! i < xs ! argmax xs"
  using argmax_upto [OF assms, of "length xs"] by (simp_all add: argmax_def Let_def)

lemma length_combined [simp]: "length (combined_scores maps drift) = 20000"
  by (simp add: combined_scores_def PSS_MAP_PHASE_BINS_def)

lemma combined_nonempty [simp]: "combined_scores maps drift \<noteq> []"
  using length_combined [of maps drift] by (metis list.size(3) zero_neq_numeral)

text \<open>
  A candidate is a hypothesis with the first phase of its maximum. The search returns a candidate of
  the largest score.
\<close>

definition candidate_of :: "phase_map list \<Rightarrow> int \<Rightarrow> int \<times> nat \<times> int" where
  "candidate_of maps drift =
     (drift, argmax (combined_scores maps drift), combined_scores maps drift ! argmax (combined_scores maps drift))"

lemma best_hypothesis_fold:
  "best_hypothesis maps best ds =
     foldl (\<lambda>b d. if snd (snd (candidate_of maps d)) > snd (snd b) then candidate_of maps d else b) best ds"
  by (induction maps best ds rule: best_hypothesis.induct) (simp_all add: candidate_of_def Let_def)

lemma best_hypothesis_dominates:
  "snd (snd best) \<le> snd (snd (best_hypothesis maps best ds)) \<and>
   (\<forall>d \<in> set ds. snd (snd (candidate_of maps d)) \<le> snd (snd (best_hypothesis maps best ds))) \<and>
   (best_hypothesis maps best ds = best \<or> best_hypothesis maps best ds \<in> candidate_of maps ` set ds)"
  unfolding best_hypothesis_fold
  by (induction ds rule: rev_induct) auto

lemma combined_nonneg:
  assumes "\<forall>pm \<in> set maps. length (pm_bins pm) = 20000 \<and> (\<forall>v \<in> set (pm_bins pm). 0 \<le> v)" and "q < 20000"
  shows "0 \<le> combined_scores maps d ! q"
proof -
  have "0 \<le> pm_bins pm ! nat ((int q + int t * d) mod 20000)" if "pm \<in> set maps" for pm t
  proof -
    have "nat ((int q + int t * d) mod 20000) < 20000" by (simp add: nat_less_iff)
    then show ?thesis using assms(1) that by auto
  qed
  then show ?thesis using assms(2)
    by (auto simp: combined_scores_def PSS_MAP_PHASE_BINS_def in_set_enumerate_eq intro!: sum_list_nonneg)
qed

lemma coarse_search_optimal:
  assumes "\<forall>pm \<in> set maps. length (pm_bins pm) = 20000 \<and> (\<forall>v \<in> set (pm_bins pm). 0 \<le> v)"
    and "hypotheses \<noteq> []"
    and "best_hypothesis maps (hd hypotheses, 0, -1) hypotheses = (drift, phase, score)"
  shows "drift \<in> set hypotheses" "phase < 20000" "score = combined_scores maps drift ! phase"
    and "\<And>d q. d \<in> set hypotheses \<Longrightarrow> q < 20000 \<Longrightarrow> combined_scores maps d ! q \<le> score"
    and "\<And>q. q < phase \<Longrightarrow> combined_scores maps drift ! q < score"
proof -
  have top: "combined_scores maps d ! q \<le> snd (snd (candidate_of maps d))" if "q < 20000" for d q
    using that argmax_first(2) [of "combined_scores maps d" q] by (simp add: candidate_of_def)
  note dom = best_hypothesis_dominates [of "(hd hypotheses, 0, -1)" maps hypotheses]
  show le: "combined_scores maps d ! q \<le> score" if "d \<in> set hypotheses" "q < 20000" for d q
    using top [OF that(2), of d] dom assms(3) that(1) by fastforce
  have "0 \<le> combined_scores maps (hd hypotheses) ! 0" by (rule combined_nonneg [OF assms(1)]) simp
  with le [of "hd hypotheses" 0] have "0 \<le> score" using assms(2) by simp
  then have c: "(drift, phase, score) \<in> candidate_of maps ` set hypotheses" using dom assms(3) by auto
  then show "drift \<in> set hypotheses" "phase < 20000" "score = combined_scores maps drift ! phase"
    using argmax_first(1) [of "combined_scores maps drift"] by (auto simp: candidate_of_def)
  show "combined_scores maps drift ! q < score" if "q < phase" for q
    using c that argmax_first(3) [of "combined_scores maps drift" q] by (auto simp: candidate_of_def)
qed

end
