(* ===== verification/Pss_Properties.thy ===== *)
theory Pss_Properties
  imports Fine_Ledger Pss_Maps
begin

text \<open>
  The properties of the PSS evidence path: the fine schedule and its ledger, the join of evidence with a
  comparison interval, and the reassembly of phase maps, each applied to concrete values.
\<close>

section \<open>The schedule of the kernel\<close>

text \<open>
  The tracker driver advances a 64-bit center and a 32-bit fraction by a Q32.32 period; the fraction
  carries into the center when its unsigned sum wraps.
\<close>

definition kernel_advance :: "int \<Rightarrow> 64 word \<times> 32 word \<Rightarrow> 64 word \<times> 32 word" where
  "kernel_advance period s =
     (case s of (center, fraction) \<Rightarrow>
        let sum = fraction + word_of_int period in
        (center + word_of_int (drop_bit 32 period) + (if sum < fraction then 1 else 0), sum))"

lemma carry_split:
  fixes t p n :: int
  assumes "0 < n"
  shows "(t + p) div n = t div n + p div n + (if n \<le> t mod n + p mod n then 1 else 0)"
    and "(t + p) mod n < t mod n \<longleftrightarrow> n \<le> t mod n + p mod n"
proof -
  define a b where "a = t mod n" and "b = p mod n"
  have r: "0 \<le> a" "a < n" "0 \<le> b" "b < n" using assms by (simp_all add: a_def b_def)
  have dm: "(a + b) div n = (if n \<le> a + b then 1 else 0) \<and> (a + b) mod n = (if n \<le> a + b then a + b - n else a + b)"
  proof (cases "n \<le> a + b")
    case True
    have "(a + b - n) div n = 0" by (rule div_pos_pos_trivial) (use True r in simp_all)
    moreover have "(a + b - n) mod n = a + b - n" by (rule mod_pos_pos_trivial) (use True r in simp_all)
    ultimately show ?thesis
      using True by (simp only: div_pos_geq [OF assms True] mod_pos_geq [OF assms True]) simp
  next
    case False
    then show ?thesis using r by simp
  qed
  note d = dm [THEN conjunct1] and m = dm [THEN conjunct2]
  show "(t + p) div n = t div n + p div n + (if n \<le> t mod n + p mod n then 1 else 0)"
    using d by (simp add: div_add1_eq [of t p n] a_def b_def)
  have "(t + p) mod n = (a + b) mod n" by (simp add: a_def b_def mod_add_eq)
  then show "(t + p) mod n < t mod n \<longleftrightarrow> n \<le> t mod n + p mod n"
    using m r by (auto simp: a_def [symmetric] b_def [symmetric])
qed

lemma word_carry:
  "(word_of_int t + word_of_int p :: 32 word) < word_of_int t \<longleftrightarrow> 2 ^ 32 \<le> t mod 2 ^ 32 + p mod 2 ^ 32"
  using carry_split(2) [of "2 ^ 32" t p]
  by (simp add: word_less_def uint_word_of_int flip: of_int_add)

lemma uint_u64: "0 \<le> x \<Longrightarrow> x < 2 ^ 64 \<Longrightarrow> uint (word_of_int x :: 64 word) = x"
  by (simp add: uint_word_of_int)

lemma kernel_step:
  "kernel_advance period (word_of_int c, word_of_int t) =
     (word_of_int (c + drop_bit 32 period + (if 2 ^ 32 \<le> t mod 2 ^ 32 + period mod 2 ^ 32 then 1 else 0)),
      word_of_int (t + period))"
  by (simp only: kernel_advance_def prod.case Let_def word_carry) simp

text \<open>After \<open>n\<close> steps the two registers hold \<open>first * 2 ^ 32 + n * period\<close>, as long as the center does not wrap.\<close>

lemma kernel_registers:
  assumes "0 \<le> first" and "0 \<le> period" and "first + drop_bit 32 (int n * period) < 2 ^ 64"
  shows "(kernel_advance period ^^ n) (word_of_int first, 0) =
    (word_of_int (first + drop_bit 32 (int n * period)), word_of_int (int n * period))"
  using assms(3)
proof (induction n)
  case (Suc n)
  let ?t = "int n * period"
  have mono: "drop_bit 32 ?t \<le> drop_bit 32 (int (Suc n) * period)"
    using assms(2) by (simp add: drop_bit_eq_div zdiv_mono1 mult_right_mono)
  then have ih: "(kernel_advance period ^^ n) (word_of_int first, 0) =
      (word_of_int (first + drop_bit 32 ?t), word_of_int ?t)" using Suc by simp
  have step: "int (Suc n) * period = ?t + period" by (simp add: algebra_simps)
  have "first + drop_bit 32 (int (Suc n) * period) =
      first + drop_bit 32 ?t + drop_bit 32 period + (if 2 ^ 32 \<le> ?t mod 2 ^ 32 + period mod 2 ^ 32 then 1 else 0)"
    using carry_split(1) [of "2 ^ 32" ?t period] by (simp only: step drop_bit_eq_div) simp
  then have "(word_of_int (first + drop_bit 32 (int (Suc n) * period)) :: 64 word, word_of_int (int (Suc n) * period) :: 32 word)
      = kernel_advance period (word_of_int (first + drop_bit 32 ?t), word_of_int ?t)"
    by (simp only: kernel_step step)
  then show ?case using ih by simp
qed simp

section \<open>A concrete schedule\<close>

definition sample_identity :: observation_identity where
  "sample_identity = \<lparr>oi_serial = ''s'', oi_boot_id = ''b'', oi_session_id = ''r'', oi_visit_id = 1,
     oi_source_rate_hz = 15000000, oi_profile = PAIRED_15_V1, oi_frequency_plan_id = ''f'',
     oi_fingerprint = replicate 64 (CHR ''0'')\<rparr>"

definition sample_manifest :: fine_manifest where
  "sample_manifest = \<lparr>fm_observation = sample_identity, fm_schedule_id = ''plan'', fm_first_center = 100,
     fm_period = 2 ^ 33 + 2 ^ 31, fm_request_base = 7, fm_count = 3, fm_generation = 5\<rparr>"

definition sample_words :: "int list" where
  "sample_words = [PSS_PACKET_MAGIC, PSS_PACKET_HEADER, 7, 100, 0, 100, 0, 0, 100, 0, 5, 0, 0, 0, 0, 1, 0, 1, 0] @ replicate 7 0"

definition sample_payload :: bytes where
  "sample_payload =
    [80, 83, 83, 49, 1, 0, 1, 26, 7, 0, 0, 0, 100, 0, 0, 0, 0, 0, 0, 0, 100, 0, 0, 0, 0, 0, 0, 0, 0, 0,
     0, 0, 100, 0, 0, 0, 0, 0, 0, 0, 5, 0, 0, 0, 0, 0, 0, 0, 0, 0, 0, 0, 0, 0, 0, 0, 0, 0, 0, 0, 1, 0, 0,
     0, 0, 0, 0, 0, 1, 0, 0, 0, 0, 0, 0, 0, 0, 0, 0, 0, 0, 0, 0, 0, 0, 0, 0, 0, 0, 0, 0, 0, 0, 0, 0, 0,
     0, 0, 0, 0, 0, 0, 0, 0]"

definition sample_packet :: fine_packet where
  "sample_packet = \<lparr>fp_words = sample_words, fp_request_id = 7, fp_center_index = 100, fp_center_timestamp = 100,
     fp_lag = 0, fp_winner_timestamp = 100, fp_coefficient_generation = 5, fp_correlation_real = 0,
     fp_correlation_imag = 0, fp_sample_energy = 1, fp_coefficient_energy = 1, fp_saturation_events = 0\<rparr>"

definition sample_scan :: batch_scan where
  "sample_scan = \<lparr>bs_index = 0, bs_offset = 0, bs_count = 128, bs_decoded = Some (FineScan sample_packet), bs_errors = []\<rparr>"

definition sample_attributes :: batch_attributes where
  "sample_attributes = \<lparr>ba_fault_flags = Some 0, ba_generation = Some 5,
     ba_raw = [(''fault_flags'', ''0x0''), (''active_coefficient_generation'', ''5'')], ba_errors = []\<rparr>"

definition sample_client :: batch_client where
  "sample_client = \<lparr>cl_rate = 15, cl_shared = True, cl_stop = False, cl_map_abi = 0x10005\<rparr>"

definition sample_raw :: bytes where
  "sample_raw = sample_payload @ replicate 24 0"

definition sample_receipt :: batch_receipt where
  "sample_receipt = \<lparr>br_stream = ''fine'', br_stream_id = ''stream'', br_batch_index = 0, br_rate_msps = 15,
     br_abi = 0x10002, br_requested = 1, br_scan_bytes = 128, br_buffer_bytes = Some 128, br_buffer_step = Some 128,
     br_refill_started = True, br_refill_completed = True, br_native_bytes = None, br_observed_bytes = Some 128,
     br_raw = Some sample_raw, br_before = Some sample_attributes, br_after = Some sample_attributes,
     br_expected_request = Some 7, br_remaining = Some 3,
     br_scans = [sample_scan], br_errors = []\<rparr>"

lemma sample_manifest_valid: "manifest_validate sample_manifest = Inr ()"
  by code_simp

lemma sample_decodes: "fine_packet_decode sample_payload 15 = Inr sample_packet"
  by code_simp

text \<open>The receipt is the one the client's decoder makes of the raw bytes.\<close>

lemma sample_scans:
  "decode_batch_scans sample_client sample_raw True sample_attributes (Some 7) (Some 3) = [sample_scan]"
  by code_simp

lemma sample_raw_length: "length sample_raw = 128"
  by code_simp

lemma sample_attributes_clean: "attribute_errors (Some sample_attributes) 5 = []"
  by code_simp

lemma sample_stream_ok: "ok_identifier 256 ''stream''"
  by code_simp

definition sample_search :: fine_search_support where
  "sample_search = \<lparr>fs_observation = sample_identity, fs_request_id = 7, fs_coefficient_generation = 5,
     fs_center = 100, fs_winner = 100, fs_winner_inputs = \<lparr>si_start = 100, si_stop = 166\<rparr>,
     fs_capture_inputs = \<lparr>si_start = 68, si_stop = 198\<rparr>\<rparr>"

lemma sample_slot: "slot_packet sample_identity sample_raw = Inr (Some sample_packet, Some sample_search, [])"
  by code_simp

lemma sample_native: "batch_errors (fresh_ledger sample_manifest) sample_receipt = Inr ([], batch_bounded sample_receipt)"
proof -
  have "request_at sample_manifest 0 = Inr 7" by code_simp
  then show ?thesis
    by (simp add: batch_errors_def expected_request_errors_def size_errors_def batch_bounded_def sample_receipt_def
        fresh_ledger_def remaining_results_def sample_raw_length sample_stream_ok MAX_SCANS_def note_if_def
        PSS_TRACK_SCAN_BYTES_def Let_def sample_manifest_def)
qed

lemma sample_row:
  "\<exists>w. batch_rows (fresh_ledger sample_manifest) sample_receipt sample_identity None = Inr [w] \<and> fw_errors w = []"
proof -
  have "request_at sample_manifest 0 = Inr 7" "center_at sample_manifest 0 = Inr 100" by code_simp+
  moreover have "slice 0 128 sample_raw = sample_raw" by (simp add: slice_def sample_raw_length)
  moreover have "row_count sample_receipt sample_raw = 1"
    by (simp add: row_count_def sample_receipt_def sample_raw_length PSS_TRACK_SCAN_BYTES_def)
  moreover have "batch_bounded sample_receipt"
    by (simp add: batch_bounded_def sample_receipt_def sample_raw_length MAX_SCANS_def PSS_TRACK_SCAN_BYTES_def)
  moreover have "br_raw sample_receipt = Some sample_raw" "br_scans sample_receipt = [sample_scan]"
    by (simp_all add: sample_receipt_def)
  ultimately show ?thesis
    by (simp add: batch_rows_def fine_row_of_def scheduled_def fresh_ledger_def Let_def sample_slot sample_raw_length
        PSS_TRACK_SCAN_BYTES_def supplied_errors_def sample_scan_def packet_errors_def note_if_def)
       (simp add: sample_manifest_def sample_packet_def)
qed

lemma sample_batch_accepted:
  "\<exists>r. validate_fine_batch (fresh_ledger sample_manifest) sample_receipt sample_identity None = Inr r \<and> fr_errors r = []
     \<and> length (fr_scans r) = 1"
proof -
  let ?l = "fresh_ledger sample_manifest"
  have v: "valid_ledger ?l" by (rule fresh_ledger_valid [OF sample_manifest_valid])
  have g: "guards_pass ?l sample_identity None"
    by (simp add: guards_pass_def fresh_ledger_def sample_identity_def)
  obtain w where w: "batch_rows ?l sample_receipt sample_identity None = Inr [w]" "fw_errors w = []"
    using sample_row by blast
  have clean: "all_errors ?l sample_receipt sample_identity None [] [w] = []"
    using w(2) sample_attributes_clean
    by (simp add: all_errors_def envelope_errors_def fresh_ledger_def sample_manifest_def sample_receipt_def note_if_def)
  obtain l2 where l2: "successor ?l sample_receipt False (length [w]) = Inr l2"
    using successor_accepted [OF v _ _ _, of 1 sample_receipt] sample_stream_ok
    by (auto simp: fresh_ledger_def remaining_results_def sample_manifest_def sample_receipt_def)
  obtain s where "scan_of_row ?l sample_identity False w = Inr s"
  proof -
    obtain n ws where "batch_rows ?l sample_receipt sample_identity None = Inr ws"
        "list_all2 (good_row ?l sample_identity) [0 ..< n] ws" "n \<le> 4096"
      using batch_rows_progress [OF v] by blast
    then have "good_row ?l sample_identity 0 w" using w(1) by (auto simp: list_all2_Cons2 upt_eq_Cons_conv)
    from scan_of_row_progress [OF v this, of False] w(2) that show ?thesis by auto
  qed
  then have "mapE (scan_of_row ?l sample_identity False) [w] = Inr [s]" by simp
  from validate_steps [OF g sample_native w(1) clean [symmetric] _ _ , of l2 "[s]" "[s]"] l2 this
  show ?thesis by simp
qed

section \<open>Properties of the fine schedule\<close>

text \<open>
  C16: the center the manifest computes for an ordinal, without iterating, is the center the driver reaches
  after that many advances of its 64-bit center and 32-bit fraction registers: the closed form rounds each
  center exactly as the carry does, and no admitted schedule wraps a register, the advance after the last
  center included.
\<close>

theorem schedule_matches_the_kernel:
  assumes "manifest_validate m = Inr ()" and "n < nat (fm_count m)"
  shows "center_at m (int n) =
      Inr (uint (fst ((kernel_advance (fm_period m) ^^ n) (word_of_int (fm_first_center m), 0))))
    \<and> uint (fst ((kernel_advance (fm_period m) ^^ nat (fm_count m)) (word_of_int (fm_first_center m), 0)))
      = fm_first_center m + drop_bit 32 (fm_count m * fm_period m)"
proof -
  note m = manifest_facts [OF assms(1)]
  have reach: "uint (fst ((kernel_advance (fm_period m) ^^ k) (word_of_int (fm_first_center m), 0)))
      = fm_first_center m + drop_bit 32 (int k * fm_period m)" if k: "int k \<le> fm_count m" for k
  proof -
    have mono: "drop_bit 32 (int k * fm_period m) \<le> drop_bit 32 (fm_count m * fm_period m)"
      using k m(3) by (simp add: drop_bit_eq_div zdiv_mono1 mult_right_mono)
    then have top: "fm_first_center m + drop_bit 32 (int k * fm_period m) < 2 ^ 64" using m(11) by linarith
    have "0 \<le> drop_bit 32 (int k * fm_period m)" using m(3) by simp
    then show ?thesis
      using top m(2) by (simp only: kernel_registers [OF m(2,3) top] fst_conv) (intro uint_u64; linarith)
  qed
  have "center_at m (int n) =
      Inr (uint (fst ((kernel_advance (fm_period m) ^^ n) (word_of_int (fm_first_center m), 0))))"
    using reach [of n] center_request_at(1) [OF assms(1), of "int n"] assms(2) by simp
  moreover have "uint (fst ((kernel_advance (fm_period m) ^^ nat (fm_count m)) (word_of_int (fm_first_center m), 0)))
      = fm_first_center m + drop_bit 32 (fm_count m * fm_period m)"
    using reach [of "nat (fm_count m)"] m(6) by simp
  ultimately show ?thesis by blast
qed

lemma schedule_matches_the_kernel_witness:
  "center_at sample_manifest 2 = Inr (uint (fst ((kernel_advance (2 ^ 33 + 2 ^ 31) ^^ 2) (100, 0)))) \<and>
   center_at sample_manifest 2 = Inr 105"
proof -
  have "2 < nat (fm_count sample_manifest)" by (simp add: sample_manifest_def)
  from schedule_matches_the_kernel [OF sample_manifest_valid this]
  have "center_at sample_manifest 2 = Inr (uint (fst ((kernel_advance (2 ^ 33 + 2 ^ 31) ^^ 2) (100, 0))))"
    by (simp add: sample_manifest_def)
  moreover have "center_at sample_manifest 2 = Inr 105" by code_simp
  ultimately show ?thesis by blast
qed

text \<open>
  C13: on a ledger and an observation the program has constructed, the validation of a batch raises nothing
  whatever the receipt holds, although it constructs a successor ledger and one evidence record per slot,
  each with its own validator: the successor is a valid ledger of the same manifest and every record a
  valid record, complete when the batch is accepted and incomplete when it is not.
\<close>

theorem fine_validation_is_well_typed:
  assumes "manifest_validate (fl_manifest l) = Inr ()" and "ledger_validate l = Inr ()"
    and "fl_state l = LEDGER_ACTIVE" and "observation_validate o1 = Inr ()"
    and "case detections of None \<Rightarrow> True | Some ds \<Rightarrow> length ds \<le> 4096"
  shows "\<exists>r. validate_fine_batch l b o1 detections = Inr r \<and> ledger_validate (fr_after r) = Inr ()
    \<and> fl_manifest (fr_after r) = fl_manifest l \<and> source_records r \<noteq> []
    \<and> (\<forall>x \<in> set (source_records r). source_record_validate x = Inr ()
         \<and> sr_state x = (if fr_accepted r then COMPLETE else INCOMPLETE))"
proof -
  have v: "valid_ledger l" using assms(1,2) by (simp add: valid_ledger_def)
  have "oi_source_rate_hz o1 = 15000000" using assms(4) by (simp add: observation_validate_def)
  then have g: "guards_pass l o1 detections" using assms(3,5) by (simp add: guards_pass_def MAX_SCANS_def split: option.splits)
  from validate_progress [OF v g, of b] obtain r
    where r: "validate_fine_batch l b o1 detections = Inr r" "batch_outcome l b r" by blast
  have "fr_scans r \<noteq> []" using r(1) by (auto simp: validate_fine_batch_def bindE_Inr_iff Let_def split: if_splits)
  then show ?thesis using r by (auto simp: batch_outcome_def source_records_def valid_ledger_def)
qed

lemma fine_validation_is_well_typed_witness:
  "\<exists>r. validate_fine_batch (fresh_ledger sample_manifest) (sample_receipt\<lparr>br_raw := None\<rparr>) sample_identity None = Inr r
     \<and> ledger_validate (fr_after r) = Inr ()"
proof -
  have "ledger_validate (fresh_ledger sample_manifest) = Inr ()" "observation_validate sample_identity = Inr ()"
    by code_simp+
  then show ?thesis
    using fine_validation_is_well_typed [of "fresh_ledger sample_manifest" sample_identity None
        "sample_receipt\<lparr>br_raw := None\<rparr>"] sample_manifest_valid
    by (auto simp: fresh_ledger_def)
qed

text \<open>
  C12: whatever batches a ledger is offered, in whatever order and however often, the packets of the batches
  it accepted are the packets of the schedule from its first ordinal on, each exactly once: packet \<open>i\<close> has
  the request, the center and the coefficient generation of ordinal \<open>i\<close>. The ledger counts these packets
  and batches, and is complete exactly when the whole schedule has been accepted.
\<close>

theorem fine_ledger_accounts_for_the_schedule:
  assumes "manifest_validate m = Inr ()" and "run ledger_step (fresh_ledger m) inputs = (l, outs)"
  shows "valid_ledger l \<and> fl_manifest l = m
    \<and> (\<forall>i < length (concat (map packets_of outs)). scheduled_packet m (int i) (concat (map packets_of outs) ! i))
    \<and> fl_accepted l = int (length (concat (map packets_of outs)))
    \<and> fl_next_batch l = int (accepted_batches outs)
    \<and> (fl_state l = LEDGER_COMPLETE \<longleftrightarrow> int (length (concat (map packets_of outs))) = fm_count m)"
proof -
  have fresh: "valid_ledger (fresh_ledger m)" by (rule fresh_ledger_valid [OF assms(1)])
  have v: "valid_ledger l" using fine_ledgers.inv_run [OF fresh, of inputs] assms(2) by simp
  note r = ledger_run [OF fresh assms(2)]
  have "fl_state l = LEDGER_COMPLETE \<longleftrightarrow> fl_accepted l = fm_count (fl_manifest l)"
    using v ledger_facts(7) by (simp add: valid_ledger_def)
  then show ?thesis
    using v r by (simp add: fresh_ledger_def scheduled_packets_nth)
qed

lemma fine_ledger_accounts_for_the_schedule_witness:
  "\<exists>l outs. run ledger_step (fresh_ledger sample_manifest) [(sample_receipt, sample_identity, None)] = (l, outs)
     \<and> fl_accepted l = 1 \<and> fl_state l \<noteq> LEDGER_COMPLETE
     \<and> scheduled_packet sample_manifest 0 (concat (map packets_of outs) ! 0)"
proof -
  let ?l = "fresh_ledger sample_manifest"
  obtain r where r: "validate_fine_batch ?l sample_receipt sample_identity None = Inr r" "fr_errors r = []"
      "length (fr_scans r) = 1" using sample_batch_accepted by blast
  have "batch_outcome ?l sample_receipt r"
    using validate_progress [OF fresh_ledger_valid [OF sample_manifest_valid], of sample_identity None sample_receipt] r(1)
    by (auto simp: guards_pass_def fresh_ledger_def sample_identity_def)
  then have one: "length (accepted_packets r) = 1" using r(2,3) by (auto simp: batch_outcome_def accepted_packets_def)
  have run: "run ledger_step ?l [(sample_receipt, sample_identity, None)] = (fr_after r, [Inr r])"
    by (simp add: ledger_step_def r(1))
  have "concat (map packets_of [Inr r]) = accepted_packets r" by (simp add: packets_of_def)
  with fine_ledger_accounts_for_the_schedule [OF sample_manifest_valid run] one
  have "fl_accepted (fr_after r) = 1" "fl_state (fr_after r) \<noteq> LEDGER_COMPLETE"
    "scheduled_packet sample_manifest 0 (concat (map packets_of [Inr r]) ! 0)"
    by (auto simp: sample_manifest_def)
  then show ?thesis using run by blast
qed

section \<open>The join of evidence\<close>

text \<open>
  C14: joining a ledger of valid records of one observation with a comparison interval raises nothing and
  classifies every record in order. A record that is missing or incomplete keeps its state and reason.
  A record is included only when its anchors lie inside the comparison and every sample it depends on inside the
  available inputs; of a pilot slice exactly the exported sample centers inside the comparison are
  selected, none missing and none added, with the matching output positions. The detections of the
  records do not enter: with the labels erased the result is the same.
\<close>

theorem source_join_is_exact:
  assumes "\<forall>r \<in> set records. valid_record r \<and> sr_observation r = o1" and "interval_validate comparison = Inr ()"
    and "si_contains available comparison" and "1 \<le> length records" "length records \<le> 4096"
    and "distinct (map sr_record_id records)"
  shows "\<exists>js. join_source_interval records o1 comparison available = Inr js
      \<and> list_all2 (join_correct comparison available) records js
      \<and> join_source_interval (map unlabelled records) o1 comparison available = Inr (map unlabelled_join js)"
  using join_progress [of records o1 comparison available] join_unlabelled [of records o1 comparison available] assms
  by (auto simp: valid_interval_def)

definition sample_pilot :: pilot_support where
  "sample_pilot = \<lparr>pl_observation = sample_identity, pl_output_start = 0,
     pl_centers = \<lparr>sl_first = 271, sl_step = 6, sl_count = 100\<rparr>,
     pl_raw_inputs = \<lparr>si_start = 2, si_stop = 1135\<rparr>\<rparr>"

definition sample_records :: "source_record list" where
  "sample_records =
    [\<lparr>sr_observation = sample_identity, sr_record_id = ''p'', sr_kind = PILOT, sr_state = COMPLETE,
      sr_support = Some (PilotSupport sample_pilot), sr_detection = TRIGGER, sr_reason = None\<rparr>,
     \<lparr>sr_observation = sample_identity, sr_record_id = ''f'', sr_kind = FINE, sr_state = INCOMPLETE,
      sr_support = None, sr_detection = NOT_EVALUATED, sr_reason = Some ''lost''\<rparr>]"

lemma source_join_is_exact_witness:
  "\<exists>js. join_source_interval sample_records sample_identity \<lparr>si_start = 300, si_stop = 400\<rparr>
      \<lparr>si_start = 0, si_stop = 2000\<rparr> = Inr js
    \<and> list_all2 (join_correct \<lparr>si_start = 300, si_stop = 400\<rparr> \<lparr>si_start = 0, si_stop = 2000\<rparr>) sample_records js
    \<and> map rj_state js = [INCLUDED, JOIN_INCOMPLETE]"
proof -
  have "\<forall>r \<in> set sample_records. valid_record r \<and> sr_observation r = sample_identity"
    "interval_validate \<lparr>si_start = 300, si_stop = 400\<rparr> = Inr ()"
    "si_contains \<lparr>si_start = 0, si_stop = 2000\<rparr> \<lparr>si_start = 300, si_stop = 400\<rparr>"
    "1 \<le> length sample_records" "length sample_records \<le> 4096" "distinct (map sr_record_id sample_records)"
    by code_simp+
  from source_join_is_exact [OF this] obtain js
    where "join_source_interval sample_records sample_identity \<lparr>si_start = 300, si_stop = 400\<rparr>
        \<lparr>si_start = 0, si_stop = 2000\<rparr> = Inr js"
      "list_all2 (join_correct \<lparr>si_start = 300, si_stop = 400\<rparr> \<lparr>si_start = 0, si_stop = 2000\<rparr>) sample_records js" by blast
  moreover have "(case join_source_interval sample_records sample_identity \<lparr>si_start = 300, si_stop = 400\<rparr>
      \<lparr>si_start = 0, si_stop = 2000\<rparr> of Inl e \<Rightarrow> False | Inr js \<Rightarrow> map rj_state js = [INCLUDED, JOIN_INCOMPLETE])"
    by code_simp
  ultimately show ?thesis by auto
qed

section \<open>Phase maps\<close>

text \<open>
  C15: the reassembler returns maps for a stream of chunks exactly when the stream is a concatenation of
  complete generations, each of 200 chunks in order that agree on ABI version, generation and start; the maps
  are those generations with their bins concatenated. Every other stream of decoded chunks (a missing, repeated,
  reordered or interleaved chunk, a partial generation at the end) is refused, and whatever chunks a
  reassembler is given, what it keeps is the start of one generation.
\<close>

theorem phase_maps_are_whole_generations:
  assumes "\<forall>c \<in> set chunks. chunk_shape c"
  shows "(reassemble_maps chunks = Inr maps \<longleftrightarrow>
      (\<exists>gs. chunks = concat gs \<and> (\<forall>g \<in> set gs. complete_generation g) \<and> maps = map generation_map gs))
    \<and> generation_prefix (fst (run map_add [] anything))"
  using reassemble_maps_exact [OF assms] map_chunks.inv_run [of "[]" anything] by simp_all

definition sample_generation :: "map_chunk list" where
  "sample_generation = map (\<lambda>i. \<lparr>mc_abi = 0x10005, mc_generation = 1, mc_index = int i, mc_count = 200,
     mc_start = 40, mc_first_bin = 100 * int i, mc_bins = replicate 100 (int i)\<rparr>) [0 ..< 200]"

lemma phase_maps_are_whole_generations_witness:
  "reassemble_maps (sample_generation @ sample_generation) =
     Inr [generation_map sample_generation, generation_map sample_generation]"
proof -
  have shape: "\<forall>c \<in> set (sample_generation @ sample_generation). chunk_shape c"
    by (auto simp: sample_generation_def chunk_shape_def)
  have "complete_generation sample_generation"
    by (simp add: complete_generation_def generation_prefix_def sample_generation_def chunk_identity_def hd_map)
  then show ?thesis
    by (subst phase_maps_are_whole_generations [OF shape, THEN conjunct1])
       (auto intro!: exI [of _ "[sample_generation, sample_generation]"])
qed

end
