(* ===== verification/Scan_Records.thy ===== *)
theory Scan_Records
  imports Text
begin

text \<open>
  \<open>adaptive_scan.py\<close>: the six records of an adaptive scan. Each is a 16 byte header (magic, version, size,
  features, flags), a body and a CRC-32 of all before it. The source fills a zeroed buffer field by field at
  contiguous offsets; the model concatenates. Reserved bytes are raw fields that must be zero.
\<close>

section \<open>Constants and frames\<close>

definition sp_err :: "string \<Rightarrow> exn" where
  "sp_err m = ScanProtocolError m"

definition SCAN_FEATURES :: int where
  "SCAN_FEATURES = 0xFF"

definition SUPPORTED_RATES :: "int list" where
  "SUPPORTED_RATES = [2500000, 10000000, 15000000, 20000000, 30000000]"

definition VARIABLE_DWELL_RATES :: "int list" where
  "VARIABLE_DWELL_RATES = [1250000, 2500000, 5000000, 7500000, 10000000]"

definition MINIMUM_RUNTIME_RATE :: int where
  "MINIMUM_RUNTIME_RATE = 520833"

definition MAXIMUM_RUNTIME_RATE :: int where
  "MAXIMUM_RUNTIME_RATE = 61440000"

definition rate_valid :: "int \<Rightarrow> int \<Rightarrow> bool" where
  "rate_valid rate version \<longleftrightarrow>
     (version = 1 \<and> rate \<in> set SUPPORTED_RATES)
     \<or> (version = 2 \<and> MINIMUM_RUNTIME_RATE \<le> rate \<and> rate \<le> MAXIMUM_RUNTIME_RATE)
     \<or> (version = 3 \<and> rate \<in> set VARIABLE_DWELL_RATES)"

definition scan_versions :: "int list" where
  "scan_versions = [1, 2, 3]"

definition scan_header_fmt :: "field list" where
  "scan_header_fmt = [FRaw 4, FU 2, FU 2, FU 4, FU 4]"

text \<open>\<open>_header\<close> and \<open>_finish\<close>: the packet around a body.\<close>

definition scan_seal :: "string \<Rightarrow> int \<Rightarrow> int \<Rightarrow> bytes \<Rightarrow> bytes result" where
  "scan_seal magic version flags body =
     bindE (struct_pack scan_header_fmt
              [VBytes (ascii_bytes magic), VInt version, VInt (int (length body) + 20), VInt SCAN_FEATURES, VInt flags])
       (\<lambda>h. Inr ((h @ body) @ le_bytes 4 (crc32 (h @ body))))"

text \<open>\<open>_check\<close>.\<close>

definition scan_check :: "string \<Rightarrow> nat \<Rightarrow> int list \<Rightarrow> int \<Rightarrow> bytes \<Rightarrow> unit result" where
  "scan_check magic n versions flags raw =
     bindE (checks [(length raw \<noteq> n, sp_err ''record size must be exact'')]) (\<lambda>_.
     bindE (struct_unpack_from scan_header_fmt raw 0) (\<lambda>h.
     bindE (checks
       [(bytes_at h 0 \<noteq> ascii_bytes magic \<or> int_at h 1 \<notin> set versions \<or> int_at h 2 \<noteq> int n,
         sp_err ''unknown record magic, version, or encoded size''),
        (int_at h 3 \<noteq> SCAN_FEATURES \<or> int_at h 4 \<noteq> flags, sp_err ''feature or flag mask is not exact'')]) (\<lambda>_.
     bindE (struct_unpack_from [FU 4] raw (n - 4)) (\<lambda>c.
     checks [(int_at c 0 \<noteq> crc32 (take (n - 4) raw), sp_err ''record CRC mismatch'')]))))"

text \<open>\<open>struct.unpack_from("<H", packet, 4)[0]\<close> and \<open>struct.unpack_from("<I", packet, 12)[0]\<close>.\<close>

definition header_version :: "bytes \<Rightarrow> int" where
  "header_version raw = le_value (slice 4 6 raw)"

definition header_flags :: "bytes \<Rightarrow> int" where
  "header_flags raw = le_value (slice 12 16 raw)"

text \<open>\<open>_require_zero\<close> on a raw field, and \<open>_digest\<close>.\<close>

definition zero_field :: "val list \<Rightarrow> nat \<Rightarrow> bool \<times> exn" where
  "zero_field vs i = (list_ex (\<lambda>b. b \<noteq> 0) (bytes_at vs i), sp_err ''reserved bytes must be zero'')"

definition digest_guard :: "bytes \<Rightarrow> bool \<times> exn" where
  "digest_guard d =
     (length d \<noteq> 32 \<or> \<not> list_ex (\<lambda>b. b \<noteq> 0) d, sp_err ''analysis digest must contain 32 nonzero-bound bytes'')"

text \<open>The shape of every \<open>pack\<close>.\<close>

definition scan_pack ::
  "string \<Rightarrow> field list \<Rightarrow> ('a \<Rightarrow> val list) \<Rightarrow> ('a \<Rightarrow> unit result) \<Rightarrow> ('a \<Rightarrow> int) \<Rightarrow> ('a \<Rightarrow> int) \<Rightarrow> 'a \<Rightarrow> bytes result" where
  "scan_pack magic fmt fields validate version flags x =
     bindE (validate x) (\<lambda>_. bindE (struct_pack fmt (fields x)) (scan_seal magic (version x) (flags x)))"

text \<open>
  The shape of every \<open>unpack\<close>: the frame, the values, the guards on the raw values, the record (an unknown
  enumeration value raises here) and what closes it: \<open>result.validate()\<close>, or \<open>if result.pack() != packet: raise\<close>.
\<close>

definition scan_unpack ::
  "string \<Rightarrow> field list \<Rightarrow> int list \<Rightarrow> (bytes \<Rightarrow> int) \<Rightarrow> (val list \<Rightarrow> (bool \<times> exn) list)
   \<Rightarrow> (int \<Rightarrow> val list \<Rightarrow> 'a result) \<Rightarrow> (bytes \<Rightarrow> 'a \<Rightarrow> 'a result) \<Rightarrow> bytes \<Rightarrow> 'a result" where
  "scan_unpack magic fmt versions flags guards build finish raw =
     bindE (scan_check magic (struct_size fmt + 20) versions (flags raw) raw) (\<lambda>_.
     bindE (struct_unpack_from fmt raw 16) (\<lambda>vs.
     bindE (checks (guards vs)) (\<lambda>_.
     bindE (build (header_version raw) vs) (finish raw))))"

definition validated :: "('a \<Rightarrow> unit result) \<Rightarrow> bytes \<Rightarrow> 'a \<Rightarrow> 'a result" where
  "validated validate raw x = bindE (validate x) (\<lambda>_. Inr x)"

definition canonical :: "('a \<Rightarrow> bytes result) \<Rightarrow> string \<Rightarrow> bytes \<Rightarrow> 'a \<Rightarrow> 'a result" where
  "canonical pack message raw x =
     bindE (pack x) (\<lambda>p. if p \<noteq> raw then Inl (sp_err message) else Inr x)"

section \<open>Enumerations\<close>

datatype scan_outcome = OUTCOME_UNKNOWN | OUTCOME_ACTIVE | OUTCOME_QUIET

fun outcome_value :: "scan_outcome \<Rightarrow> int" where
  "outcome_value OUTCOME_UNKNOWN = 0" | "outcome_value OUTCOME_ACTIVE = 1" | "outcome_value OUTCOME_QUIET = 2"

datatype visit_result = ADMITTED | VISIT_COMPLETE | SKIP_CAPACITY | SKIP_AGE | INVALID_GAP | VISIT_CANCELLED

fun visit_result_value :: "visit_result \<Rightarrow> int" where
  "visit_result_value ADMITTED = 0" | "visit_result_value VISIT_COMPLETE = 1" | "visit_result_value SKIP_CAPACITY = 2"
| "visit_result_value SKIP_AGE = 3" | "visit_result_value INVALID_GAP = 4" | "visit_result_value VISIT_CANCELLED = 5"

datatype feedback_result = FB_ACCEPTED | FB_DUPLICATE | FB_EXPIRED | FB_WRONG_SESSION | FB_REJECTED | FB_SUPERSEDED
  | FB_MAILBOX_FULL | FB_APPLIED | FB_CANCELLED

fun feedback_value :: "feedback_result \<Rightarrow> int" where
  "feedback_value FB_ACCEPTED = 0" | "feedback_value FB_DUPLICATE = 1" | "feedback_value FB_EXPIRED = 2"
| "feedback_value FB_WRONG_SESSION = 3" | "feedback_value FB_REJECTED = 4" | "feedback_value FB_SUPERSEDED = 5"
| "feedback_value FB_MAILBOX_FULL = 6" | "feedback_value FB_APPLIED = 7" | "feedback_value FB_CANCELLED = 8"

datatype terminal_state = TS_COMPLETED | TS_CANCELLED | TS_FAILED

fun terminal_value :: "terminal_state \<Rightarrow> int" where
  "terminal_value TS_COMPLETED = 1" | "terminal_value TS_CANCELLED = 2" | "terminal_value TS_FAILED = 3"

text \<open>\<open>Enum(value)\<close>: the member with the value, or an error.\<close>

definition member_of :: "('e \<Rightarrow> int) \<Rightarrow> 'e list \<Rightarrow> string \<Rightarrow> int \<Rightarrow> 'e result" where
  "member_of value members message n =
     (case filter (\<lambda>e. value e = n) members of [] \<Rightarrow> Inl (sp_err message) | e # _ \<Rightarrow> Inr e)"

definition all_outcomes :: "scan_outcome list" where
  "all_outcomes = [OUTCOME_UNKNOWN, OUTCOME_ACTIVE, OUTCOME_QUIET]"

definition all_visit_results :: "visit_result list" where
  "all_visit_results = [ADMITTED, VISIT_COMPLETE, SKIP_CAPACITY, SKIP_AGE, INVALID_GAP, VISIT_CANCELLED]"

definition all_feedback_results :: "feedback_result list" where
  "all_feedback_results = [FB_ACCEPTED, FB_DUPLICATE, FB_EXPIRED, FB_WRONG_SESSION, FB_REJECTED, FB_SUPERSEDED,
     FB_MAILBOX_FULL, FB_APPLIED, FB_CANCELLED]"

definition all_terminal_states :: "terminal_state list" where
  "all_terminal_states = [TS_COMPLETED, TS_CANCELLED, TS_FAILED]"

section \<open>Capabilities\<close>

record scan_caps =
  sc_rate_mask :: int
  sc_rx_mask :: int
  sc_formats :: int
  sc_maximum_targets :: int
  sc_maximum_fastlock_profiles :: int
  sc_minimum_dwell_ms :: int
  sc_maximum_dwell_ms :: int
  sc_maximum_duration_ms :: int
  sc_maximum_queue_bytes :: int
  sc_maximum_queue_age_ms :: int
  sc_feedback_capacity :: int
  sc_maximum_feedback_age_ms :: int
  sc_maximum_application_delay_ms :: int
  sc_maximum_analog_bandwidth_hz :: int
  sc_source_counter_bits :: int
  sc_protocol_version :: int
  sc_rate_mode :: int
  sc_minimum_rate_hz :: int
  sc_maximum_rate_hz :: int

definition default_caps :: scan_caps where
  "default_caps = \<lparr>sc_rate_mask = 0x0F, sc_rx_mask = 1, sc_formats = 1, sc_maximum_targets = 8,
     sc_maximum_fastlock_profiles = 8, sc_minimum_dwell_ms = 20, sc_maximum_dwell_ms = 240,
     sc_maximum_duration_ms = 300000, sc_maximum_queue_bytes = 200000000, sc_maximum_queue_age_ms = 10000,
     sc_feedback_capacity = 64, sc_maximum_feedback_age_ms = 10000, sc_maximum_application_delay_ms = 10000,
     sc_maximum_analog_bandwidth_hz = 56000000, sc_source_counter_bits = 64, sc_protocol_version = 1,
     sc_rate_mode = 0, sc_minimum_rate_hz = 0, sc_maximum_rate_hz = 0\<rparr>"

definition required_caps :: "int \<Rightarrow> scan_caps" where
  "required_caps version =
     (if version = 3
      then default_caps\<lparr>sc_rate_mask := 0x71, sc_rx_mask := 3, sc_minimum_dwell_ms := 120, sc_maximum_dwell_ms := 360\<rparr>
      else default_caps)"

definition caps_validate :: "scan_caps \<Rightarrow> unit result" where
  "caps_validate c =
     (let r = required_caps (sc_protocol_version c);
          legacy = sc_protocol_version c = 1 \<and> sc_rate_mode c = 0 \<and> sc_minimum_rate_hz c = 0 \<and> sc_maximum_rate_hz c = 0;
          runtime = sc_protocol_version c = 2 \<and> sc_rate_mode c = 1 \<and> MINIMUM_RUNTIME_RATE \<le> sc_minimum_rate_hz c
            \<and> sc_minimum_rate_hz c \<le> sc_maximum_rate_hz c \<and> sc_maximum_rate_hz c \<le> MAXIMUM_RUNTIME_RATE;
          variable = sc_protocol_version c = 3 \<and> sc_rate_mode c = 2 \<and> sc_minimum_rate_hz c = 0 \<and> sc_maximum_rate_hz c = 0
      in checks
       [(\<not> (legacy \<or> runtime \<or> variable), sp_err ''unsupported runtime rate capability''),
        (lacks (sc_rate_mask c) (sc_rate_mask r) \<or> lacks (sc_rx_mask c) (sc_rx_mask r)
         \<or> sc_formats c \<noteq> sc_formats r \<or> sc_maximum_targets c \<noteq> sc_maximum_targets r
         \<or> sc_maximum_fastlock_profiles c \<noteq> sc_maximum_fastlock_profiles r
         \<or> sc_minimum_dwell_ms c \<noteq> sc_minimum_dwell_ms r \<or> sc_maximum_dwell_ms c \<noteq> sc_maximum_dwell_ms r
         \<or> sc_maximum_duration_ms c \<noteq> sc_maximum_duration_ms r
         \<or> sc_maximum_queue_bytes c \<noteq> sc_maximum_queue_bytes r
         \<or> sc_maximum_queue_age_ms c \<noteq> sc_maximum_queue_age_ms r
         \<or> sc_feedback_capacity c \<noteq> sc_feedback_capacity r
         \<or> sc_maximum_feedback_age_ms c \<noteq> sc_maximum_feedback_age_ms r
         \<or> sc_maximum_application_delay_ms c \<noteq> sc_maximum_application_delay_ms r
         \<or> sc_maximum_analog_bandwidth_hz c \<noteq> sc_maximum_analog_bandwidth_hz r
         \<or> sc_source_counter_bits c \<noteq> sc_source_counter_bits r,
         sp_err ''capabilities are incompatible with feature-103 v1'')])"

definition caps_fmt :: "field list" where
  "caps_fmt =
     [FU 4, FU 4, FU 4, FU 4, FU 4, FU 4, FU 4, FU 4, FU 8, FU 4, FU 4, FU 4, FU 4, FU 4, FU 4, FU 4, FU 4,
      FU 4]"

definition caps_fields :: "scan_caps \<Rightarrow> val list" where
  "caps_fields c = map VInt
     [sc_rate_mask c, sc_rx_mask c, sc_formats c, sc_maximum_targets c, sc_maximum_fastlock_profiles c,
      sc_minimum_dwell_ms c, sc_maximum_dwell_ms c, sc_maximum_duration_ms c, sc_maximum_queue_bytes c,
      sc_maximum_queue_age_ms c, sc_feedback_capacity c, sc_maximum_feedback_age_ms c,
      sc_maximum_application_delay_ms c, sc_maximum_analog_bandwidth_hz c, sc_source_counter_bits c,
      sc_rate_mode c, sc_minimum_rate_hz c, sc_maximum_rate_hz c]"

definition caps_build :: "int \<Rightarrow> val list \<Rightarrow> scan_caps" where
  "caps_build version vs =
     \<lparr>sc_rate_mask = int_at vs 0, sc_rx_mask = int_at vs 1, sc_formats = int_at vs 2, sc_maximum_targets = int_at vs 3,
      sc_maximum_fastlock_profiles = int_at vs 4, sc_minimum_dwell_ms = int_at vs 5, sc_maximum_dwell_ms = int_at vs 6,
      sc_maximum_duration_ms = int_at vs 7, sc_maximum_queue_bytes = int_at vs 8, sc_maximum_queue_age_ms = int_at vs 9,
      sc_feedback_capacity = int_at vs 10, sc_maximum_feedback_age_ms = int_at vs 11,
      sc_maximum_application_delay_ms = int_at vs 12, sc_maximum_analog_bandwidth_hz = int_at vs 13,
      sc_source_counter_bits = int_at vs 14, sc_protocol_version = version, sc_rate_mode = int_at vs 15,
      sc_minimum_rate_hz = int_at vs 16, sc_maximum_rate_hz = int_at vs 17\<rparr>"

definition caps_pack :: "scan_caps \<Rightarrow> bytes result" where
  "caps_pack = scan_pack ''SPCP'' caps_fmt caps_fields caps_validate sc_protocol_version (\<lambda>_. 0)"

definition caps_unpack :: "bytes \<Rightarrow> scan_caps result" where
  "caps_unpack =
     scan_unpack ''SPCP'' caps_fmt scan_versions (\<lambda>_. 0) (\<lambda>_. []) (\<lambda>version vs. Inr (caps_build version vs))
       (validated caps_validate)"

section \<open>Session set-up\<close>

record scan_target =
  st_channel :: int
  st_profile :: int
  st_frequency_hz :: int
  st_baseline_weight :: int
  st_profile_crc32 :: int

definition target_checks :: "scan_target \<Rightarrow> (bool \<times> exn) list" where
  "target_checks t =
     [(\<not> (0 \<le> st_channel t \<and> st_channel t \<le> 0xFFFFFFFF), sp_err ''channel is outside uint32''),
      (\<not> (0 \<le> st_profile t \<and> st_profile t < 8), sp_err ''fastlock profile is outside 0..7''),
      (\<not> (70000000 \<le> st_frequency_hz t \<and> st_frequency_hz t \<le> 6000000000), sp_err ''frequency is outside AD9361 range''),
      (\<not> (1 \<le> st_baseline_weight t \<and> st_baseline_weight t \<le> 1024), sp_err ''baseline weight is outside 1..1024''),
      (\<not> (0 \<le> st_profile_crc32 t \<and> st_profile_crc32 t \<le> 0xFFFFFFFF), sp_err ''profile CRC is outside uint32'')]"

record scan_setup =
  ss_session :: int
  ss_generation :: int
  ss_seed :: int
  ss_source_rate_hz :: int
  ss_analog_bandwidth_hz :: int
  ss_duration_ms :: int
  ss_dwell_ms :: int
  ss_transition_budget_ms :: int
  ss_maximum_revisit_ms :: int
  ss_feedback_age_ms :: int
  ss_application_delay_ms :: int
  ss_decay_ms :: int
  ss_maximum_boost :: int
  ss_maximum_queue_bytes :: int
  ss_maximum_queue_age_ms :: int
  ss_maximum_queue_visits :: int
  ss_analysis_digest :: bytes
  ss_targets :: "scan_target list"
  ss_rx_mask :: int
  ss_format :: int
  ss_flags :: int
  ss_protocol_version :: int

definition within_range :: "int \<Rightarrow> int \<Rightarrow> int \<Rightarrow> bool" where
  "within_range lo v hi \<longleftrightarrow> lo \<le> v \<and> v \<le> hi"

definition setup_limits :: "scan_setup \<Rightarrow> (bool \<times> exn) list" where
  "setup_limits s =
     [(ss_session s = 0 \<or> ss_generation s = 0 \<or> ss_seed s = 0, sp_err ''session, generation, and seed must be nonzero''),
      (\<not> rate_valid (ss_source_rate_hz s) (ss_protocol_version s), sp_err ''rate is not admitted for the version''),
      (\<not> within_range 200000 (ss_analog_bandwidth_hz s) 56000000, sp_err ''analog bandwidth is outside the admitted range''),
      (\<not> within_range 1 (ss_duration_ms s) 300000, sp_err ''duration is outside 1..300000 ms''),
      (ss_protocol_version s = 3 \<and> ss_dwell_ms s \<notin> {120, 240, 360}, sp_err ''active base dwell must be 120, 240, or 360 ms''),
      (ss_protocol_version s \<noteq> 3 \<and> \<not> within_range 20 (ss_dwell_ms s) 240, sp_err ''dwell is outside 20..240 ms''),
      (\<not> within_range 1 (ss_transition_budget_ms s) 100, sp_err ''transition budget is outside 1..100 ms''),
      (\<not> within_range 1 (ss_maximum_revisit_ms s) 10000, sp_err ''maximum revisit is outside range''),
      (\<not> within_range 1 (ss_feedback_age_ms s) 10000, sp_err ''feedback age is outside range''),
      (\<not> within_range 1 (ss_application_delay_ms s) 10000, sp_err ''application delay is outside range''),
      (\<not> within_range 1 (ss_decay_ms s) 60000 \<or> \<not> within_range 1 (ss_maximum_boost s) 16,
       sp_err ''decay or maximum boost is outside range''),
      (\<not> within_range 1 (ss_maximum_queue_bytes s) 200000000, sp_err ''queue byte limit is outside range''),
      (\<not> within_range 1 (ss_maximum_queue_age_ms s) 10000, sp_err ''queue age is outside range''),
      (\<not> within_range 1 (ss_maximum_queue_visits s) 64, sp_err ''queue visit limit is outside range''),
      (ss_rx_mask s \<notin> {1, 3} \<or> ss_format s \<noteq> 1 \<or> ss_flags s \<noteq> 1, sp_err ''RX, format, or setup flags are not exact''),
      digest_guard (ss_analysis_digest s),
      (\<not> (1 \<le> length (ss_targets s) \<and> length (ss_targets s) \<le> 8), sp_err ''target count is outside 1..8'')]"

definition setup_validate :: "scan_setup \<Rightarrow> unit result" where
  "setup_validate s =
     (let slot = ss_dwell_ms s + ss_transition_budget_ms s in
      checks
       (setup_limits s @ concat (map target_checks (ss_targets s)) @
        [(\<not> distinct (map st_channel (ss_targets s)), sp_err ''channel identifiers must be unique''),
         (\<not> distinct (map st_profile (ss_targets s)), sp_err ''fastlock profiles must be unique''),
         (slot * int (length (ss_targets s)) > ss_maximum_revisit_ms s, sp_err ''maximum revisit cannot cover every target''),
         (slot > ss_application_delay_ms s \<or> slot > ss_duration_ms s,
          sp_err ''application or session window is unschedulable'')]))"

definition target_fmt :: "field list" where
  "target_fmt = [FU 4, FU 4, FU 8, FU 4, FU 4]"

definition target_fields :: "scan_target \<Rightarrow> val list" where
  "target_fields t = map VInt [st_channel t, st_profile t, st_frequency_hz t, st_baseline_weight t, st_profile_crc32 t]"

definition target_build :: "val list \<Rightarrow> scan_target" where
  "target_build vs = \<lparr>st_channel = int_at vs 0, st_profile = int_at vs 1, st_frequency_hz = int_at vs 2,
     st_baseline_weight = int_at vs 3, st_profile_crc32 = int_at vs 4\<rparr>"

text \<open>The target table: eight entries of 24 bytes, the unused ones zero. A validated target always packs.\<close>

definition targets_bytes :: "scan_target list \<Rightarrow> bytes" where
  "targets_bytes ts =
     concat (map (\<lambda>t. struct_bytes target_fmt (target_fields t)) ts) @ replicate (192 - 24 * length ts) 0"

definition targets_read :: "nat \<Rightarrow> bytes \<Rightarrow> scan_target list" where
  "targets_read n area = map (\<lambda>i. target_build (struct_values target_fmt (slice (i * 24) (i * 24 + 24) area))) [0 ..< n]"

definition setup_fmt :: "field list" where
  "setup_fmt =
     [FU 8, FU 8, FU 8, FU 4, FU 4, FU 4, FU 4, FU 4, FU 4, FU 4, FU 4, FU 4, FU 4, FU 8, FU 4, FU 4, FU 4,
      FU 4, FU 4, FRaw 4, FRaw 32, FRaw 192, FRaw 12]"

definition setup_fields :: "scan_setup \<Rightarrow> val list" where
  "setup_fields s = map VInt
     [ss_session s, ss_generation s, ss_seed s, ss_source_rate_hz s, ss_analog_bandwidth_hz s, ss_duration_ms s,
      ss_dwell_ms s, ss_transition_budget_ms s, ss_maximum_revisit_ms s, ss_feedback_age_ms s,
      ss_application_delay_ms s, ss_decay_ms s, ss_maximum_boost s, ss_maximum_queue_bytes s,
      ss_maximum_queue_age_ms s, ss_maximum_queue_visits s, int (length (ss_targets s)), ss_rx_mask s, ss_format s] @
     [VBytes (replicate 4 0), VBytes (ss_analysis_digest s), VBytes (targets_bytes (ss_targets s)), VBytes (replicate 12 0)]"

definition setup_build :: "int \<Rightarrow> val list \<Rightarrow> scan_setup" where
  "setup_build version vs =
     \<lparr>ss_session = int_at vs 0, ss_generation = int_at vs 1, ss_seed = int_at vs 2, ss_source_rate_hz = int_at vs 3,
      ss_analog_bandwidth_hz = int_at vs 4, ss_duration_ms = int_at vs 5, ss_dwell_ms = int_at vs 6,
      ss_transition_budget_ms = int_at vs 7, ss_maximum_revisit_ms = int_at vs 8, ss_feedback_age_ms = int_at vs 9,
      ss_application_delay_ms = int_at vs 10, ss_decay_ms = int_at vs 11, ss_maximum_boost = int_at vs 12,
      ss_maximum_queue_bytes = int_at vs 13, ss_maximum_queue_age_ms = int_at vs 14,
      ss_maximum_queue_visits = int_at vs 15, ss_analysis_digest = bytes_at vs 20,
      ss_targets = targets_read (nat (int_at vs 16)) (bytes_at vs 21), ss_rx_mask = int_at vs 17,
      ss_format = int_at vs 18, ss_flags = 1, ss_protocol_version = version\<rparr>"

definition setup_guards :: "val list \<Rightarrow> (bool \<times> exn) list" where
  "setup_guards vs =
     [zero_field vs 19, zero_field vs 22,
      (\<not> (1 \<le> int_at vs 16 \<and> int_at vs 16 \<le> 8), sp_err ''target count is outside 1..8''),
      (list_ex (\<lambda>b. b \<noteq> 0) (drop (nat (int_at vs 16) * 24) (bytes_at vs 21)), sp_err ''reserved bytes must be zero'')]"

definition setup_pack :: "scan_setup \<Rightarrow> bytes result" where
  "setup_pack = scan_pack ''SPSQ'' setup_fmt setup_fields setup_validate ss_protocol_version ss_flags"

definition setup_unpack :: "bytes \<Rightarrow> scan_setup result" where
  "setup_unpack =
     scan_unpack ''SPSQ'' setup_fmt scan_versions (\<lambda>_. 1) setup_guards (\<lambda>version vs. Inr (setup_build version vs))
       (validated setup_validate)"

end
