(* ===== verification/Scan_Reports.thy ===== *)
theory Scan_Reports
  imports Scan_Records
begin

text \<open>
  \<open>adaptive_scan.py\<close>, continued: what the endpoint and the analysis exchange while a scan runs. A feedback names a
  visit and its outcome, a visit reports one dwell, an acknowledgement says what a feedback changed, and a terminal
  closes the stream with its accounts. Their \<open>unpack\<close> packs what it built and compares with the packet.
\<close>

section \<open>Feedback\<close>

record scan_feedback =
  sf_session :: int
  sf_generation :: int
  sf_sequence :: int
  sf_visit :: int
  sf_valid_start :: int
  sf_valid_end :: int
  sf_target :: int
  sf_outcome :: scan_outcome
  sf_analysis_digest :: bytes

definition feedback_guard :: "scan_feedback \<Rightarrow> unit result" where
  "feedback_guard f =
     checks [(sf_session f = 0 \<or> sf_generation f = 0 \<or> sf_sequence f = 0 \<or> sf_valid_start f \<ge> sf_valid_end f
       \<or> \<not> (0 \<le> sf_target f \<and> sf_target f < 8), sp_err ''feedback identity or interval is invalid'')]"

definition feedback_numbers :: "scan_feedback \<Rightarrow> val list" where
  "feedback_numbers f = map VInt
     [sf_session f, sf_generation f, sf_sequence f, sf_visit f, sf_valid_start f, sf_valid_end f, sf_target f,
      outcome_value (sf_outcome f)]"

definition feedback_number_fmt :: "field list" where
  "feedback_number_fmt =
     [FU 8, FU 8, FU 8, FU 8, FU 8, FU 8, FU 4, FU 4]"

text \<open>The digest is checked only after the numbers are packed.\<close>

definition feedback_pack :: "scan_feedback \<Rightarrow> bytes result" where
  "feedback_pack f =
     bindE (feedback_guard f) (\<lambda>_.
     bindE (struct_pack feedback_number_fmt (feedback_numbers f)) (\<lambda>numbers.
     bindE (checks [digest_guard (sf_analysis_digest f)]) (\<lambda>_.
     scan_seal ''SPFB'' 1 0 (numbers @ sf_analysis_digest f @ replicate 4 0))))"

definition feedback_fmt :: "field list" where
  "feedback_fmt = feedback_number_fmt @ [FRaw 32, FRaw 4]"

definition feedback_build :: "int \<Rightarrow> val list \<Rightarrow> scan_feedback result" where
  "feedback_build version vs =
     bindE (member_of outcome_value all_outcomes ''feedback outcome is unknown'' (int_at vs 7)) (\<lambda>outcome.
     Inr \<lparr>sf_session = int_at vs 0, sf_generation = int_at vs 1, sf_sequence = int_at vs 2, sf_visit = int_at vs 3,
          sf_valid_start = int_at vs 4, sf_valid_end = int_at vs 5, sf_target = int_at vs 6, sf_outcome = outcome,
          sf_analysis_digest = bytes_at vs 8\<rparr>)"

definition feedback_unpack :: "bytes \<Rightarrow> scan_feedback result" where
  "feedback_unpack =
     scan_unpack ''SPFB'' feedback_fmt [1] (\<lambda>_. 0) (\<lambda>vs. [zero_field vs 9]) feedback_build
       (canonical feedback_pack ''feedback is not canonical'')"

section \<open>Visits\<close>

record scan_visit =
  sv_session :: int
  sv_generation :: int
  sv_visit :: int
  sv_selection_counter :: int
  sv_transition_before :: int
  sv_transition_after :: int
  sv_valid_start :: int
  sv_valid_end :: int
  sv_frequency_hz :: int
  sv_iq_bytes :: int
  sv_missing_samples_before :: int
  sv_analog_bandwidth_hz :: int
  sv_source_rate_hz :: int
  sv_target :: int
  sv_profile :: int
  sv_result :: visit_result
  sv_eligible_mask :: int
  sv_effective_weight :: int
  sv_profile_crc32 :: int
  sv_flags :: int
  sv_protocol_version :: int
  sv_gain_counter :: int
  sv_gain_read_duration_ns :: int
  sv_rx1_gain_index :: int
  sv_rx2_gain_index :: int
  sv_gain_valid :: bool

definition visit_gain_bad :: "scan_visit \<Rightarrow> bool" where
  "visit_gain_bad v \<longleftrightarrow>
     (if sv_gain_valid v
      then sv_protocol_version v \<noteq> 3 \<or> sv_gain_counter v < sv_valid_end v
           \<or> \<not> within_range 0 (sv_rx1_gain_index v) 0x7F \<or> \<not> within_range 0 (sv_rx2_gain_index v) 0x7F
           \<or> \<not> within_range 0 (sv_gain_read_duration_ns v) 0xFFFFFFFF
      else sv_gain_counter v \<noteq> 0 \<or> sv_gain_read_duration_ns v \<noteq> 0 \<or> sv_rx1_gain_index v \<noteq> 0
           \<or> sv_rx2_gain_index v \<noteq> 0)"

definition visit_guard :: "scan_visit \<Rightarrow> unit result" where
  "visit_guard v =
     (let samples = sv_valid_end v - sv_valid_start v in
      checks [(sv_session v = 0 \<or> sv_generation v = 0
        \<or> \<not> (sv_transition_before v \<le> sv_transition_after v \<and> sv_transition_after v \<le> sv_valid_start v)
        \<or> samples < 0 \<or> \<not> within_range 70000000 (sv_frequency_hz v) 6000000000
        \<or> \<not> rate_valid (sv_source_rate_hz v) (sv_protocol_version v)
        \<or> \<not> within_range 200000 (sv_analog_bandwidth_hz v) 56000000
        \<or> \<not> (0 \<le> sv_target v \<and> sv_target v < 8) \<or> \<not> (0 \<le> sv_profile v \<and> sv_profile v < 8)
        \<or> extra (sv_eligible_mask v) 0xFF \<or> \<not> has (sv_flags v) 1 \<or> extra (sv_flags v) 3
        \<or> visit_gain_bad v
        \<or> (sv_result v = VISIT_COMPLETE) \<noteq> (sv_iq_bytes v \<noteq> 0)
        \<or> sv_result v = VISIT_COMPLETE \<and> sv_iq_bytes v \<noteq> samples * 4 \<and> sv_iq_bytes v \<noteq> samples * 8,
        sp_err ''visit record is inconsistent'')])"

definition visit_fmt :: "field list" where
  "visit_fmt =
     [FU 8, FU 8, FU 8, FU 8, FU 8, FU 8, FU 8, FU 8, FU 8, FU 8, FU 8, FU 4, FU 4, FU 4, FU 4, FU 4, FU 4,
      FU 4, FU 4, FU 4, FU 8, FU 1, FU 1, FU 1, FU 1, FU 4]"

definition visit_fields :: "scan_visit \<Rightarrow> val list" where
  "visit_fields v = map VInt
     [sv_session v, sv_generation v, sv_visit v, sv_selection_counter v, sv_transition_before v,
      sv_transition_after v, sv_valid_start v, sv_valid_end v, sv_frequency_hz v, sv_iq_bytes v,
      sv_missing_samples_before v, sv_analog_bandwidth_hz v, sv_source_rate_hz v, sv_target v, sv_profile v,
      visit_result_value (sv_result v), sv_eligible_mask v, sv_effective_weight v, sv_profile_crc32 v, sv_flags v,
      sv_gain_counter v, sv_rx1_gain_index v, sv_rx2_gain_index v, of_bool (sv_gain_valid v), 0,
      sv_gain_read_duration_ns v]"

definition visit_build :: "int \<Rightarrow> val list \<Rightarrow> scan_visit result" where
  "visit_build version vs =
     bindE (member_of visit_result_value all_visit_results ''visit result is unknown'' (int_at vs 15)) (\<lambda>kind.
     Inr \<lparr>sv_session = int_at vs 0, sv_generation = int_at vs 1, sv_visit = int_at vs 2,
          sv_selection_counter = int_at vs 3, sv_transition_before = int_at vs 4, sv_transition_after = int_at vs 5,
          sv_valid_start = int_at vs 6, sv_valid_end = int_at vs 7, sv_frequency_hz = int_at vs 8,
          sv_iq_bytes = int_at vs 9, sv_missing_samples_before = int_at vs 10,
          sv_analog_bandwidth_hz = int_at vs 11, sv_source_rate_hz = int_at vs 12, sv_target = int_at vs 13,
          sv_profile = int_at vs 14, sv_result = kind, sv_eligible_mask = int_at vs 16,
          sv_effective_weight = int_at vs 17, sv_profile_crc32 = int_at vs 18, sv_flags = int_at vs 19,
          sv_protocol_version = version, sv_gain_counter = int_at vs 20, sv_gain_read_duration_ns = int_at vs 25,
          sv_rx1_gain_index = int_at vs 21, sv_rx2_gain_index = int_at vs 22, sv_gain_valid = int_at vs 23 \<noteq> 0\<rparr>)"

definition visit_pack :: "scan_visit \<Rightarrow> bytes result" where
  "visit_pack = scan_pack ''SPVR'' visit_fmt visit_fields visit_guard sv_protocol_version sv_flags"

definition visit_value_guards :: "val list \<Rightarrow> (bool \<times> exn) list" where
  "visit_value_guards vs =
     [(int_at vs 24 \<noteq> 0 \<or> int_at vs 23 \<notin> {0, 1}, sp_err ''gain observation is not canonical'')]"

definition visit_unpack :: "bytes \<Rightarrow> scan_visit result" where
  "visit_unpack raw =
     bindE (checks [(length raw \<noteq> 160, sp_err ''visit size is not exact'')]) (\<lambda>_.
     scan_unpack ''SPVR'' visit_fmt scan_versions header_flags visit_value_guards visit_build
       (canonical visit_pack ''visit is not canonical'') raw)"

section \<open>Acknowledgements\<close>

record scan_ack =
  sa_sequence :: int
  sa_source_visit :: int
  sa_first_visit :: int
  sa_received_counter :: int
  sa_application_counter :: int
  sa_target :: int
  sa_result :: feedback_result
  sa_old_boost :: int
  sa_new_boost :: int

definition ack_guard :: "scan_ack \<Rightarrow> unit result" where
  "ack_guard a =
     checks [(sa_sequence a = 0 \<or> \<not> (0 \<le> sa_target a \<and> sa_target a < 8)
       \<or> (sa_result a = FB_APPLIED) \<noteq> (sa_first_visit a \<noteq> 0xFFFFFFFFFFFFFFFF),
       sp_err ''feedback acknowledgement is inconsistent'')]"

definition ack_fmt :: "field list" where
  "ack_fmt =
     [FU 8, FU 8, FU 8, FU 8, FU 8, FU 4, FU 4, FU 4, FU 4, FRaw 20]"

definition ack_fields :: "scan_ack \<Rightarrow> val list" where
  "ack_fields a = map VInt
     [sa_sequence a, sa_source_visit a, sa_first_visit a, sa_received_counter a, sa_application_counter a,
      sa_target a, feedback_value (sa_result a), sa_old_boost a, sa_new_boost a] @ [VBytes (replicate 20 0)]"

definition ack_build :: "int \<Rightarrow> val list \<Rightarrow> scan_ack result" where
  "ack_build version vs =
     bindE (member_of feedback_value all_feedback_results ''feedback result is unknown'' (int_at vs 6)) (\<lambda>kind.
     Inr \<lparr>sa_sequence = int_at vs 0, sa_source_visit = int_at vs 1, sa_first_visit = int_at vs 2,
          sa_received_counter = int_at vs 3, sa_application_counter = int_at vs 4, sa_target = int_at vs 5,
          sa_result = kind, sa_old_boost = int_at vs 7, sa_new_boost = int_at vs 8\<rparr>)"

definition ack_pack :: "scan_ack \<Rightarrow> bytes result" where
  "ack_pack = scan_pack ''SPFA'' ack_fmt ack_fields ack_guard (\<lambda>_. 1) (\<lambda>_. 0)"

definition ack_unpack :: "bytes \<Rightarrow> scan_ack result" where
  "ack_unpack =
     scan_unpack ''SPFA'' ack_fmt [1] (\<lambda>_. 0) (\<lambda>vs. [zero_field vs 9]) ack_build
       (canonical ack_pack ''acknowledgement is not canonical'')"

section \<open>Terminals\<close>

record scan_terminal =
  sx_session :: int
  sx_generation :: int
  sx_final_counter :: int
  sx_restore_before :: int
  sx_restore_after :: int
  sx_planned :: int
  sx_delivered :: int
  sx_skipped :: int
  sx_invalid :: int
  sx_cancelled :: int
  sx_iq_bytes :: int
  sx_state :: terminal_state
  sx_reason :: int
  sx_error :: int
  sx_flags :: int

definition terminal_guard :: "scan_terminal \<Rightarrow> unit result" where
  "terminal_guard t =
     checks [(sx_session t = 0 \<or> sx_generation t = 0 \<or> sx_restore_before t > sx_restore_after t
       \<or> sx_delivered t + sx_skipped t + sx_invalid t + sx_cancelled t \<noteq> sx_planned t
       \<or> sx_state t = TS_COMPLETED \<and> sx_error t \<noteq> 0
       \<or> sx_state t = TS_COMPLETED \<and> sx_restore_before t < sx_final_counter t
       \<or> sx_state t = TS_FAILED \<and> sx_error t \<ge> 0
       \<or> sx_flags t \<noteq> 1 \<or> \<not> in_sint 32 (sx_error t),
       sp_err ''terminal record is inconsistent'')]"

definition terminal_fmt :: "field list" where
  "terminal_fmt =
     [FU 8, FU 8, FU 8, FU 8, FU 8, FU 8, FU 8, FU 8, FU 8, FU 8, FU 8, FU 4, FU 4, FS 4, FU 4, FRaw 4]"

definition terminal_fields :: "scan_terminal \<Rightarrow> val list" where
  "terminal_fields t = map VInt
     [sx_session t, sx_generation t, sx_final_counter t, sx_restore_before t, sx_restore_after t, sx_planned t,
      sx_delivered t, sx_skipped t, sx_invalid t, sx_cancelled t, sx_iq_bytes t, terminal_value (sx_state t),
      sx_reason t, sx_error t, sx_flags t] @ [VBytes (replicate 4 0)]"

definition terminal_build :: "int \<Rightarrow> val list \<Rightarrow> scan_terminal result" where
  "terminal_build version vs =
     bindE (member_of terminal_value all_terminal_states ''terminal state is unknown'' (int_at vs 11)) (\<lambda>state.
     Inr \<lparr>sx_session = int_at vs 0, sx_generation = int_at vs 1, sx_final_counter = int_at vs 2,
          sx_restore_before = int_at vs 3, sx_restore_after = int_at vs 4, sx_planned = int_at vs 5,
          sx_delivered = int_at vs 6, sx_skipped = int_at vs 7, sx_invalid = int_at vs 8, sx_cancelled = int_at vs 9,
          sx_iq_bytes = int_at vs 10, sx_state = state, sx_reason = int_at vs 12, sx_error = int_at vs 13,
          sx_flags = int_at vs 14\<rparr>)"

definition terminal_pack :: "scan_terminal \<Rightarrow> bytes result" where
  "terminal_pack = scan_pack ''SPFT'' terminal_fmt terminal_fields terminal_guard (\<lambda>_. 1) sx_flags"

definition terminal_unpack :: "bytes \<Rightarrow> scan_terminal result" where
  "terminal_unpack raw =
     bindE (checks [(length raw \<noteq> 128, sp_err ''terminal size is not exact'')]) (\<lambda>_.
     scan_unpack ''SPFT'' terminal_fmt [1] header_flags (\<lambda>vs. [zero_field vs 15]) terminal_build
       (canonical terminal_pack ''terminal is not canonical'') raw)"

section \<open>Corruptions\<close>

text \<open>\<open>corruptions\<close>: the packet with the top bit of one byte flipped, for every byte.\<close>

definition corruptions :: "bytes \<Rightarrow> bytes list" where
  "corruptions record = map (\<lambda>i. record[i := record ! i XOR 0x80]) [0 ..< length record]"

end
