(* ===== verification/Scan_Facts.thy ===== *)
theory Scan_Facts
  imports Scan_Reports
begin

text \<open>
  The frame around a body and the contract of the six record types: a locale over a packer and an unpacker of
  the common shape, shown to be a \<open>wire_codec\<close>, and its interpretation on each record. The last section is the error
  detection of the CRC: it is injective in every byte, so a packet with one byte changed never passes the frame check.
\<close>

section \<open>Frames\<close>

definition header_values :: "string \<Rightarrow> int \<Rightarrow> int \<Rightarrow> int \<Rightarrow> val list" where
  "header_values magic version n flags =
     [VBytes (ascii_bytes magic), VInt version, VInt n, VInt SCAN_FEATURES, VInt flags]"

lemma header_size [simp]: "struct_size scan_header_fmt = 16"
  by (simp add: scan_header_fmt_def struct_size_def)

lemma header_fits:
  "length magic = 4 \<Longrightarrow> list_all2 fits scan_header_fmt (header_values magic v n f) \<longleftrightarrow>
     in_uint 16 v \<and> in_uint 16 n \<and> in_uint 32 f"
  by (simp add: scan_header_fmt_def header_values_def ascii_bytes_def SCAN_FEATURES_def in_uint_def)

lemma header_packable:
  "length magic = 4 \<Longrightarrow> list_all2 packable scan_header_fmt (header_values magic v n f) \<longleftrightarrow>
     in_uint 16 v \<and> in_uint 16 n \<and> in_uint 32 f"
  by (simp add: scan_header_fmt_def header_values_def ascii_bytes_def SCAN_FEATURES_def in_uint_def)

lemma scan_seal_Inr:
  assumes "length magic = 4"
  shows "scan_seal magic v f body = Inr raw \<longleftrightarrow>
     in_uint 16 v \<and> in_uint 16 (int (length body) + 20) \<and> in_uint 32 f \<and>
     (let p = struct_bytes scan_header_fmt (header_values magic v (int (length body) + 20) f) @ body
      in raw = p @ le_bytes 4 (crc32 p))"
  using header_packable [OF assms]
  by (auto simp: scan_seal_def bindE_Inr_iff struct_pack_Inr Let_def header_values_def)

text \<open>What an accepted frame says of the bytes, in one equivalence.\<close>

lemma slice_fields:
  assumes "16 \<le> length raw"
  shows "struct_values scan_header_fmt raw =
     [VBytes (take 4 raw), VInt (header_version raw), VInt (le_value (slice 6 8 raw)),
      VInt (le_value (slice 8 12 raw)), VInt (header_flags raw)]"
  using assms
  by (simp add: scan_header_fmt_def header_version_def header_flags_def slice_def)

lemma crc_read:
  "length raw = n \<Longrightarrow> 4 \<le> n \<Longrightarrow> struct_unpack_from [FU 4] raw (n - 4) = Inr [VInt (le_value (drop (n - 4) raw))]"
  by (simp add: struct_unpack_from_def struct_size_def)

lemma scan_check_Inr:
  assumes "20 \<le> n"
  shows "scan_check magic n versions flags raw = Inr () \<longleftrightarrow>
     length raw = n \<and> take 4 raw = ascii_bytes magic \<and> header_version raw \<in> set versions \<and>
     le_value (slice 6 8 raw) = int n \<and> le_value (slice 8 12 raw) = SCAN_FEATURES \<and> header_flags raw = flags \<and>
     le_value (drop (n - 4) raw) = crc32 (take (n - 4) raw)"
proof (cases "length raw = n")
  case True
  then have "struct_unpack_from scan_header_fmt raw 0 = Inr (struct_values scan_header_fmt raw)"
    using assms by (simp add: struct_unpack_from_def)
  with True assms show ?thesis
    by (auto simp: scan_check_def slice_fields crc_read val_access bindE_Inr_iff)
qed (simp add: scan_check_def bindE_Inr_iff)

lemma scan_check_error:
  assumes "20 \<le> n" and "scan_check magic n versions flags raw \<noteq> Inr ()"
  shows "\<exists>m. scan_check magic n versions flags raw = Inl (ScanProtocolError m)"
proof (cases "length raw = n")
  case True
  then have "struct_unpack_from scan_header_fmt raw 0 = Inr (struct_values scan_header_fmt raw)"
    using assms by (simp add: struct_unpack_from_def)
  with True assms show ?thesis
    by (auto simp: scan_check_def crc_read checks_eval sp_err_def split: if_splits)
qed (simp add: scan_check_def sp_err_def checks_eval)

text \<open>The frame around a body passes the check, and the header and the body are read back from it.\<close>

lemma seal_check:
  assumes magic: "length magic = 4" and sealed: "scan_seal magic v f body = Inr raw" and version: "v \<in> set versions"
  shows "scan_check magic (length body + 20) versions f raw = Inr ()"
    and "header_version raw = v" and "header_flags raw = f" and "length raw = length body + 20"
    and "raw = take 16 raw @ body @ drop (length body + 16) raw" and "length (take 16 raw) = 16"
proof -
  let ?n = "int (length body) + 20"
  let ?h = "struct_bytes scan_header_fmt (header_values magic v ?n f)"
  from sealed have bounds: "in_uint 16 v \<and> in_uint 16 ?n \<and> in_uint 32 f"
    and raw: "raw = (?h @ body) @ le_bytes 4 (crc32 (?h @ body))"
    by (simp_all add: scan_seal_Inr [OF magic] Let_def)
  have h: "length ?h = 16"
    by (subst length_struct_bytes) (simp_all add: scan_header_fmt_def header_values_def struct_size_def)
  from bounds magic have fit: "list_all2 fits scan_header_fmt (header_values magic v ?n f)"
    by (simp add: header_fits)
  have "struct_values scan_header_fmt raw = header_values magic v ?n f"
    unfolding raw append_assoc by (rule struct_round_trip [OF fit])
  moreover from h raw show len: "length raw = length body + 20" by simp
  ultimately have H: "take 4 raw = ascii_bytes magic" "header_version raw = v"
      "le_value (slice 6 8 raw) = ?n" "le_value (slice 8 12 raw) = SCAN_FEATURES" "header_flags raw = f"
    by (simp_all add: slice_fields header_values_def)
  then show "header_version raw = v" and "header_flags raw = f" by simp_all
  have "take (length body + 16) raw = ?h @ body" and "drop (length body + 16) raw = le_bytes 4 (crc32 (?h @ body))"
    using h raw by simp_all
  then have "le_value (drop (length body + 16) raw) = crc32 (take (length body + 16) raw)"
    using crc32_bounds [of "?h @ body"] by (simp add: le_value_le_bytes)
  with H len version show "scan_check magic (length body + 20) versions f raw = Inr ()"
    by (simp add: scan_check_Inr add.commute)
  show "raw = take 16 raw @ body @ drop (length body + 16) raw" and "length (take 16 raw) = 16"
    using h raw by simp_all
qed

text \<open>A packet that passes the check is the frame around its body.\<close>

lemma check_seal:
  assumes magic: "length magic = 4" and n: "20 \<le> n"
    and ok: "scan_check magic n versions f raw = Inr ()"
  shows "scan_seal magic (header_version raw) f (slice 16 (n - 4) raw) = Inr raw"
proof -
  note C = ok [unfolded scan_check_Inr [OF n]]
  let ?body = "slice 16 (n - 4) raw"
  from C n have len: "int (length ?body) + 20 = int n" by auto
  have "struct_unpack scan_header_fmt (take 16 raw) = Inr (header_values magic (header_version raw) (int n) f)"
  proof -
    from C n have "struct_values scan_header_fmt (take 16 raw) = struct_values scan_header_fmt raw"
      using struct_values_take [of scan_header_fmt raw] by simp
    with C n show ?thesis by (auto simp: struct_unpack_def header_values_def slice_fields)
  qed
  from struct_unpackD [OF this]
  have fit: "list_all2 packable scan_header_fmt (header_values magic (header_version raw) (int n) f)"
    and h: "struct_bytes scan_header_fmt (header_values magic (header_version raw) (int n) f) = take 16 raw"
    by (simp_all add: scan_header_fmt_def)
  have body: "take 16 raw @ ?body = take (n - 4) raw"
    using C n slice_append_slice [of 0 16 "n - 4" raw] by (simp add: slice_def)
  have "le_bytes 4 (crc32 (take (n - 4) raw)) = drop (n - 4) raw"
    using C n le_bytes_le_value [of 4 "drop (n - 4) raw"] by auto
  with h body len fit show ?thesis
    by (simp add: scan_seal_Inr [OF magic] header_packable [OF magic] Let_def)
qed

section \<open>The contract of a record type\<close>

text \<open>
  A record type of a scan: its magic, its layout, what it lists (\<open>fields\<close>), reads (\<open>build\<close>), checks before packing
  (\<open>validate\<close>) and after unpacking (\<open>finish\<close>). \<open>pack\<close> is the record's own packer, which agrees with the common shape
  where it succeeds. The packet of a record decodes to it, and a decoded packet is the packet of what it decodes to.
\<close>

locale scan_layout =
  fixes magic :: string
    and fmt :: "field list"
    and versions :: "int list"
    and fields :: "'a \<Rightarrow> val list"
    and version :: "'a \<Rightarrow> int"
    and flags :: "'a \<Rightarrow> int"
    and expected :: "bytes \<Rightarrow> int"
    and guards :: "val list \<Rightarrow> (bool \<times> exn) list"
    and build :: "int \<Rightarrow> val list \<Rightarrow> 'a result"
    and validate :: "'a \<Rightarrow> unit result"
    and pack :: "'a \<Rightarrow> bytes result"
    and finish :: "bytes \<Rightarrow> 'a \<Rightarrow> 'a result"
  assumes magic_length: "length magic = 4"
    and pack_shape: "pack x = Inr raw \<longleftrightarrow> scan_pack magic fmt fields validate version flags x = Inr raw"
    and version_known: "validate x = Inr () \<Longrightarrow> version x \<in> set versions"
    and flags_expected: "validate x = Inr () \<Longrightarrow> header_flags raw = flags x \<Longrightarrow> expected raw = flags x"
    and values_fit: "validate x = Inr () \<Longrightarrow> list_all2 packable fmt (fields x) \<Longrightarrow> list_all2 fits fmt (fields x)"
    and guards_values: "validate x = Inr () \<Longrightarrow> checks (guards (fields x)) = Inr ()"
    and build_values: "validate x = Inr () \<Longrightarrow> build (version x) (fields x) = Inr x"
    and finish_pack: "pack x = Inr raw \<Longrightarrow> finish raw x = Inr x"
    and finish_sound:
      "scan_check magic (struct_size fmt + 20) versions (expected raw) raw = Inr () \<Longrightarrow>
       struct_unpack_from fmt raw 16 = Inr vs \<Longrightarrow> checks (guards vs) = Inr () \<Longrightarrow>
       build (header_version raw) vs = Inr x \<Longrightarrow> finish raw x = Inr y \<Longrightarrow> y = x \<and> pack x = Inr raw"
begin

lemma unpack_pack:
  assumes "pack x = Inr raw"
  shows "scan_unpack magic fmt versions expected guards build finish raw = Inr x"
proof -
  from assms have valid: "validate x = Inr ()" and packable: "list_all2 packable fmt (fields x)"
    and sealed: "scan_seal magic (version x) (flags x) (struct_bytes fmt (fields x)) = Inr raw"
    by (auto simp: pack_shape scan_pack_def bindE_Inr_iff struct_pack_Inr)
  note S = seal_check [OF magic_length sealed version_known [OF valid]]
  have size: "length (struct_bytes fmt (fields x)) = struct_size fmt"
    using packable by (simp add: length_struct_bytes list_all2_lengthD)
  have "struct_unpack_from fmt (take 16 raw @ struct_bytes fmt (fields x) @ drop (struct_size fmt + 16) raw) 16
      = Inr (fields x)"
    by (rule struct_unpack_from_append [OF values_fit [OF valid packable]]) (use S(6) in simp)
  with S(5) size have vs: "struct_unpack_from fmt raw 16 = Inr (fields x)" by simp
  with S size show ?thesis
    by (simp add: scan_unpack_def flags_expected [OF valid] guards_values [OF valid] build_values [OF valid]
        finish_pack [OF assms])
qed

lemma pack_unpack:
  "scan_unpack magic fmt versions expected guards build finish raw = Inr x \<Longrightarrow> pack x = Inr raw"
  unfolding scan_unpack_def bindE_Inr_iff using finish_sound by auto

lemma iff: "pack x = Inr raw \<longleftrightarrow> scan_unpack magic fmt versions expected guards build finish raw = Inr x"
  using unpack_pack pack_unpack by blast

lemma pack_length: "pack x = Inr raw \<Longrightarrow> length raw = struct_size fmt + 20"
proof -
  assume "pack x = Inr raw"
  then have valid: "validate x = Inr ()" and packable: "list_all2 packable fmt (fields x)"
    and sealed: "scan_seal magic (version x) (flags x) (struct_bytes fmt (fields x)) = Inr raw"
    by (auto simp: pack_shape scan_pack_def bindE_Inr_iff struct_pack_Inr)
  from seal_check(4) [OF magic_length sealed version_known [OF valid]] packable
  show ?thesis by (simp add: length_struct_bytes list_all2_lengthD)
qed

end

sublocale scan_layout \<subseteq> wire_codec pack "scan_unpack magic fmt versions expected guards build finish" "\<lambda>_. True"
  by unfold_locales (auto intro: unpack_pack pack_unpack)

text \<open>The two ways of closing an \<open>unpack\<close>.\<close>

lemma canonical_finish:
  "pack x = Inr raw \<Longrightarrow> canonical pack m raw x = Inr x"
  "canonical pack m raw x = Inr y \<Longrightarrow> y = x \<and> pack x = Inr raw"
  by (auto simp: canonical_def bindE_Inr_iff split: if_splits)

lemma validated_finish:
  assumes magic: "length magic = 4" and positive: "list_all (\<lambda>f. 0 < field_size f) fmt"
    and check: "scan_check magic (struct_size fmt + 20) versions (expected raw) raw = Inr ()"
    and vs: "struct_unpack_from fmt raw 16 = Inr vs"
    and listing: "validate x = Inr () \<Longrightarrow> listing x = shape_at fmt vs 0"
    and version: "version x = header_version raw" and flags: "validate x = Inr () \<Longrightarrow> flags x = expected raw"
    and finish: "validated validate raw x = Inr y"
  shows "y = x \<and> scan_pack magic fmt listing validate version flags x = Inr raw"
proof -
  from finish have valid: "validate x = Inr ()" and y: "y = x" by (auto simp: validated_def)
  from vs have U: "struct_unpack fmt (slice 16 (16 + struct_size fmt) raw) = Inr vs"
    by (simp add: struct_unpack_from_Inr)
  note D = struct_unpackD [OF this positive]
  have "listing x = vs" using listing [OF valid] D(1) by simp
  with D have "struct_pack fmt (listing x) = Inr (slice 16 (16 + struct_size fmt) raw)"
    by (simp add: struct_pack_Inr)
  moreover have "scan_seal magic (version x) (flags x) (slice 16 (16 + struct_size fmt) raw) = Inr raw"
    using check_seal [OF magic _ check] version flags [OF valid] by (simp add: add.commute)
  ultimately show ?thesis using valid y by (simp add: scan_pack_def)
qed

section \<open>Capabilities and set-up\<close>

interpretation scan_caps: scan_layout "''SPCP''" caps_fmt scan_versions caps_fields sc_protocol_version "\<lambda>_. 0" "\<lambda>_. 0"
  "\<lambda>_. []" "\<lambda>version vs. Inr (caps_build version vs)" caps_validate caps_pack "validated caps_validate"
proof unfold_locales
  fix x raw vs y
  show "caps_validate x = Inr () \<Longrightarrow> sc_protocol_version x \<in> set scan_versions"
    by (auto simp: caps_validate_def Let_def scan_versions_def)
  show "validated caps_validate raw x = Inr y \<Longrightarrow> y = x \<and> caps_pack x = Inr raw"
    if "scan_check ''SPCP'' (struct_size caps_fmt + 20) scan_versions 0 raw = Inr ()"
      and "struct_unpack_from caps_fmt raw 16 = Inr vs" and "Inr (caps_build (header_version raw) vs) = Inr x"
    unfolding caps_pack_def using that
    by (intro validated_finish [where expected = "\<lambda>_. 0" and vs = vs])
      (auto simp: caps_fmt_def caps_build_def caps_fields_def numeral_eq_Suc)
qed (simp_all add: caps_pack_def scan_pack_def bindE_Inr_iff validated_def caps_fields_def caps_fmt_def caps_build_def
      val_access numeral_eq_Suc)

text \<open>The target table.\<close>

lemma target_size [simp]: "struct_size target_fmt = 24"
  by (simp add: target_fmt_def struct_size_def)

lemma target_fits:
  "checks (target_checks t) = Inr () \<Longrightarrow> list_all2 fits target_fmt (target_fields t)"
  by (simp add: target_checks_def target_fmt_def target_fields_def)

lemma target_length [simp]: "length (struct_bytes target_fmt (target_fields t)) = 24"
  by (subst length_struct_bytes) (simp_all add: target_fmt_def target_fields_def struct_size_def)

lemma target_build_fields [simp]: "target_build (target_fields t) = t"
  by (simp add: target_build_def target_fields_def val_access)

lemma target_fields_build:
  "length bs = 24 \<Longrightarrow> struct_bytes target_fmt (target_fields (target_build (struct_values target_fmt bs))) = bs"
proof -
  assume "length bs = 24"
  then have "struct_unpack target_fmt bs = Inr (struct_values target_fmt bs)" by (simp add: struct_unpack_def)
  note D = struct_unpackD [OF this]
  have "target_fields (target_build vs) = shape_at target_fmt vs 0" for vs
    by (simp add: target_fmt_def target_fields_def target_build_def numeral_eq_Suc)
  with D(1,4) show ?thesis by (simp add: target_fmt_def)
qed

lemma targets_length [simp]: "length ts \<le> 8 \<Longrightarrow> length (targets_bytes ts) = 192"
  using concat_uniform_length [of "map (\<lambda>t. struct_bytes target_fmt (target_fields t)) ts" 24]
  by (simp add: targets_bytes_def)

lemma targets_read_bytes:
  assumes "\<forall>t \<in> set ts. checks (target_checks t) = Inr ()"
  shows "targets_read (length ts) (targets_bytes ts) = ts"
proof (rule nth_equalityI)
  fix i
  assume "i < length (targets_read (length ts) (targets_bytes ts))"
  then have i: "i < length ts" by (simp add: targets_read_def)
  let ?entries = "map (\<lambda>t. struct_bytes target_fmt (target_fields t)) ts"
  have uniform: "\<forall>b \<in> set ?entries. length b = 24" by auto
  from i have "i * 24 + 24 \<le> length (concat ?entries)"
    using concat_uniform_length [OF uniform] by simp
  then have "slice (i * 24) (i * 24 + 24) (targets_bytes ts) = slice (i * 24) (Suc i * 24) (concat ?entries)"
    by (simp add: targets_bytes_def slice_append_left add.commute)
  also have "\<dots> = struct_bytes target_fmt (target_fields (ts ! i))"
    using slice_concat_uniform [OF uniform, of i] i by simp
  finally show "targets_read (length ts) (targets_bytes ts) ! i = ts ! i"
    using i assms by (simp add: targets_read_def struct_round_trip0 target_fits)
qed (simp add: targets_read_def)

lemma targets_bytes_read:
  assumes "length area = 192" and "n \<le> 8" and zero: "\<not> list_ex (\<lambda>b. b \<noteq> 0) (drop (n * 24) area)"
  shows "targets_bytes (targets_read n area) = area" and "length (targets_read n area) = n"
proof -
  show "length (targets_read n area) = n" by (simp add: targets_read_def)
  have entry: "struct_bytes target_fmt (target_fields (target_build (struct_values target_fmt
      (slice (i * 24) (i * 24 + 24) area)))) = slice (0 + i * 24) (0 + Suc i * 24) area" if "i < n" for i
  proof -
    from that assms have "length (slice (i * 24) (i * 24 + 24) area) = 24" by simp
    from target_fields_build [OF this] show ?thesis by (simp add: add.commute)
  qed
  from zero have "drop (n * 24) area = replicate (192 - 24 * n) 0"
    using assms(1) by (intro replicate_eqI) (auto simp: list_ex_iff)
  moreover have "map (\<lambda>t. struct_bytes target_fmt (target_fields t)) (targets_read n area)
      = map (\<lambda>i. slice (0 + i * 24) (0 + Suc i * 24) area) [0 ..< n]"
    unfolding targets_read_def map_map by (rule map_cong [OF refl]) (use entry in simp)
  moreover have "concat (map (\<lambda>i. slice (0 + i * 24) (0 + Suc i * 24) area) [0 ..< n]) = slice 0 (0 + n * 24) area"
    by (rule concat_slices) (use assms in simp)
  moreover have "length (targets_read n area) = n" by (simp add: targets_read_def)
  ultimately have "targets_bytes (targets_read n area) = slice 0 (0 + n * 24) area @ drop (n * 24) area"
    by (simp only: targets_bytes_def)
  also have "\<dots> = take (n * 24) area @ drop (n * 24) area" by (simp add: slice_def)
  finally have "targets_bytes (targets_read n area) = take (n * 24) area @ drop (n * 24) area" .
  then show "targets_bytes (targets_read n area) = area" by simp
qed

lemma zero_field_bytes: "\<not> list_ex (\<lambda>b. b \<noteq> 0) bs \<longleftrightarrow> bs = replicate (length bs) (0 :: byte)"
  by (auto simp: list_ex_iff intro!: replicate_eqI) (metis in_set_replicate)

lemma zero_replicate [simp]: "\<not> list_ex (\<lambda>b. b \<noteq> 0) (replicate n (0 :: byte))"
  by (simp add: list_ex_iff)

lemma setup_known:
  assumes "setup_validate s = Inr ()"
  shows "ss_protocol_version s \<in> set scan_versions" and "ss_flags s = 1" and "ss_format s = 1"
    and "length (ss_analysis_digest s) = 32" and "1 \<le> length (ss_targets s)" and "length (ss_targets s) \<le> 8"
    and "\<forall>t \<in> set (ss_targets s). checks (target_checks t) = Inr ()"
proof -
  from assms have L: "checks (setup_limits s) = Inr ()"
    and T: "checks (concat (map target_checks (ss_targets s))) = Inr ()"
    by (auto simp: setup_validate_def Let_def bindE_Inr_iff)
  from L show "ss_protocol_version s \<in> set scan_versions" and "ss_flags s = 1" and "ss_format s = 1"
    and "length (ss_analysis_digest s) = 32" and "1 \<le> length (ss_targets s)" and "length (ss_targets s) \<le> 8"
    by (auto simp: setup_limits_def rate_valid_def scan_versions_def digest_guard_def)
  from T show "\<forall>t \<in> set (ss_targets s). checks (target_checks t) = Inr ()"
    by (auto simp: checks_ok_iff)
qed

lemma setup_shape:
  assumes fits: "list_all2 fits setup_fmt vs" and ok: "checks (setup_guards vs) = Inr ()"
  shows "setup_fields (setup_build version vs) = shape_at setup_fmt vs 0"
proof -
  from fits have lens: "length (bytes_at vs 19) = 4" "length (bytes_at vs 21) = 192" "length (bytes_at vs 22) = 12"
    by (auto simp: setup_fmt_def numeral_eq_Suc fits_shape val_access)
  from ok have n: "1 \<le> int_at vs 16" "int_at vs 16 \<le> 8" and z: "bytes_at vs 19 = replicate 4 0" "bytes_at vs 22 = replicate 12 0"
    and area: "\<not> list_ex (\<lambda>b. b \<noteq> 0) (drop (nat (int_at vs 16) * 24) (bytes_at vs 21))"
    using lens zero_field_bytes [of "bytes_at vs 19"] zero_field_bytes [of "bytes_at vs 22"]
    by (simp_all add: setup_guards_def zero_field_def)
  from n have "nat (int_at vs 16) \<le> 8" by simp
  note T = targets_bytes_read [OF lens(2) this area]
  from T n have count: "int (length (targets_read (nat (int_at vs 16)) (bytes_at vs 21))) = int_at vs 16"
    by simp
  show ?thesis
    using z T(1) count
    by (simp add: setup_fields_def setup_build_def setup_fmt_def numeral_eq_Suc)
qed

lemma setup_finish:
  assumes check: "scan_check ''SPSQ'' (struct_size setup_fmt + 20) scan_versions 1 raw = Inr ()"
    and vs: "struct_unpack_from setup_fmt raw 16 = Inr vs" and ok: "checks (setup_guards vs) = Inr ()"
    and finish: "validated setup_validate raw (setup_build (header_version raw) vs) = Inr y"
  shows "y = setup_build (header_version raw) vs \<and> setup_pack (setup_build (header_version raw) vs) = Inr raw"
  unfolding setup_pack_def
proof (rule validated_finish [where expected = "\<lambda>_. 1" and vs = vs])
  show positive: "list_all (\<lambda>f. 0 < field_size f) setup_fmt" by (simp add: setup_fmt_def numeral_eq_Suc)
  from vs have "struct_unpack setup_fmt (slice 16 (16 + struct_size setup_fmt) raw) = Inr vs"
    by (simp add: struct_unpack_from_Inr)
  from struct_unpackD(2) [OF this positive] ok
  show "setup_fields (setup_build (header_version raw) vs) = shape_at setup_fmt vs 0" by (rule setup_shape)
qed (use check vs finish in \<open>simp_all add: setup_known setup_build_def\<close>)

interpretation scan_setup: scan_layout "''SPSQ''" setup_fmt scan_versions setup_fields ss_protocol_version ss_flags
  "\<lambda>_. 1" setup_guards "\<lambda>version vs. Inr (setup_build version vs)" setup_validate setup_pack "validated setup_validate"
proof unfold_locales
  fix x raw vs y
  assume valid: "setup_validate x = Inr ()"
  note K = setup_known [OF valid]
  show "list_all2 packable setup_fmt (setup_fields x) \<Longrightarrow> list_all2 fits setup_fmt (setup_fields x)"
    using K by (simp add: setup_fields_def setup_fmt_def)
  from K(5,6) have "drop (length (ss_targets x) * 24) (targets_bytes (ss_targets x)) =
      replicate (192 - 24 * length (ss_targets x)) 0"
    using concat_uniform_length [of "map (\<lambda>t. struct_bytes target_fmt (target_fields t)) (ss_targets x)" 24]
    by (simp add: targets_bytes_def)
  with K show "checks (setup_guards (setup_fields x)) = Inr ()"
    by (simp add: setup_guards_def setup_fields_def zero_field_def val_access list_ex_iff del: drop_append)
  show "Inr (setup_build (ss_protocol_version x) (setup_fields x)) = Inr x"
    using K targets_read_bytes [OF K(7)]
    by (simp add: setup_build_def setup_fields_def val_access)
next
  fix x raw vs y
  show "scan_check ''SPSQ'' (struct_size setup_fmt + 20) scan_versions 1 raw = Inr () \<Longrightarrow>
      struct_unpack_from setup_fmt raw 16 = Inr vs \<Longrightarrow> checks (setup_guards vs) = Inr () \<Longrightarrow>
      Inr (setup_build (header_version raw) vs) = Inr x \<Longrightarrow> validated setup_validate raw x = Inr y \<Longrightarrow>
      y = x \<and> setup_pack x = Inr raw"
    using setup_finish by blast
qed (simp_all add: setup_known setup_pack_def validated_def scan_pack_def bindE_Inr_iff)

section \<open>Reports\<close>

lemma member_of_outcome [simp]: "member_of outcome_value all_outcomes m (outcome_value e) = Inr e"
  by (cases e) (simp_all add: member_of_def all_outcomes_def)

lemma member_of_visit_result [simp]: "member_of visit_result_value all_visit_results m (visit_result_value e) = Inr e"
  by (cases e) (simp_all add: member_of_def all_visit_results_def)

lemma member_of_feedback [simp]: "member_of feedback_value all_feedback_results m (feedback_value e) = Inr e"
  by (cases e) (simp_all add: member_of_def all_feedback_results_def)

lemma member_of_terminal [simp]: "member_of terminal_value all_terminal_states m (terminal_value e) = Inr e"
  by (cases e) (simp_all add: member_of_def all_terminal_states_def)

text \<open>Feedback: the packer checks the digest last; where it succeeds it is the common shape.\<close>

definition feedback_fields :: "scan_feedback \<Rightarrow> val list" where
  "feedback_fields f = feedback_numbers f @ [VBytes (sf_analysis_digest f), VBytes (replicate 4 0)]"

definition feedback_validate :: "scan_feedback \<Rightarrow> unit result" where
  "feedback_validate f = bindE (feedback_guard f) (\<lambda>_. checks [digest_guard (sf_analysis_digest f)])"

lemma feedback_bytes:
  "length d = 32 \<Longrightarrow> length ns = 8 \<Longrightarrow>
     struct_bytes feedback_fmt (ns @ [VBytes d, VBytes (replicate 4 0)])
      = struct_bytes feedback_number_fmt ns @ d @ replicate 4 0"
  by (auto simp: feedback_fmt_def feedback_number_fmt_def numeral_eq_Suc length_Suc_conv)

lemma feedback_pack_shape:
  "feedback_pack x = Inr raw \<longleftrightarrow>
     scan_pack ''SPFB'' feedback_fmt feedback_fields feedback_validate (\<lambda>_. 1) (\<lambda>_. 0) x = Inr raw"
proof (cases "length (sf_analysis_digest x) = 32")
  case True
  have "list_all2 packable feedback_fmt (feedback_fields x) \<longleftrightarrow> list_all2 packable feedback_number_fmt (feedback_numbers x)"
    by (simp add: feedback_fmt_def feedback_fields_def feedback_number_fmt_def feedback_numbers_def numeral_eq_Suc)
  moreover have "struct_bytes feedback_fmt (feedback_fields x)
      = struct_bytes feedback_number_fmt (feedback_numbers x) @ sf_analysis_digest x @ replicate 4 0"
    unfolding feedback_fields_def by (rule feedback_bytes [OF True]) (simp add: feedback_numbers_def)
  ultimately show ?thesis
    by (auto simp: feedback_pack_def scan_pack_def feedback_validate_def bindE_Inr_iff struct_pack_Inr)
qed (simp_all add: feedback_pack_def scan_pack_def feedback_validate_def bindE_Inr_iff digest_guard_def)

interpretation scan_feedback: scan_layout "''SPFB''" feedback_fmt "[1]" feedback_fields "\<lambda>_. 1" "\<lambda>_. 0" "\<lambda>_. 0"
  "\<lambda>vs. [zero_field vs 9]" feedback_build feedback_validate feedback_pack
  "canonical feedback_pack ''feedback is not canonical''"
proof (unfold_locales, goal_cases)
  case 2
  show ?case by (rule feedback_pack_shape)
next
  case (8 x raw)
  then show ?case by (rule canonical_finish)
next
  case (9 raw vs x y)
  from 9(5) show ?case by (rule canonical_finish(2))
qed (simp_all add: feedback_fmt_def feedback_fields_def feedback_number_fmt_def feedback_numbers_def feedback_build_def
    feedback_validate_def digest_guard_def zero_field_def val_access bindE_Inr_iff)

interpretation scan_ack: scan_layout "''SPFA''" ack_fmt "[1]" ack_fields "\<lambda>_. 1" "\<lambda>_. 0" "\<lambda>_. 0"
  "\<lambda>vs. [zero_field vs 9]" ack_build ack_guard ack_pack "canonical ack_pack ''acknowledgement is not canonical''"
proof (unfold_locales, goal_cases)
  case (8 x raw)
  then show ?case by (rule canonical_finish)
next
  case (9 raw vs x y)
  from 9(5) show ?case by (rule canonical_finish(2))
qed (simp_all add: ack_fmt_def ack_fields_def ack_build_def ack_pack_def zero_field_def val_access)

interpretation scan_terminal: scan_layout "''SPFT''" terminal_fmt "[1]" terminal_fields "\<lambda>_. 1" sx_flags header_flags
  "\<lambda>vs. [zero_field vs 15]" terminal_build terminal_guard terminal_pack
  "canonical terminal_pack ''terminal is not canonical''"
proof (unfold_locales, goal_cases)
  case (8 x raw)
  then show ?case by (rule canonical_finish)
next
  case (9 raw vs x y)
  from 9(5) show ?case by (rule canonical_finish(2))
qed (simp_all add: terminal_fmt_def terminal_fields_def terminal_build_def terminal_pack_def zero_field_def val_access)

interpretation scan_visit: scan_layout "''SPVR''" visit_fmt scan_versions visit_fields sv_protocol_version sv_flags
  header_flags visit_value_guards visit_build visit_guard visit_pack "canonical visit_pack ''visit is not canonical''"
proof (unfold_locales, goal_cases)
  case (3 x)
  then show ?case by (auto simp: visit_guard_def Let_def rate_valid_def scan_versions_def)
next
  case (8 x raw)
  then show ?case by (rule canonical_finish)
next
  case (9 raw vs x y)
  from 9(5) show ?case by (rule canonical_finish(2))
qed (simp_all add: visit_fmt_def visit_fields_def visit_build_def visit_pack_def visit_value_guards_def val_access)

text \<open>The six contracts, in the names of the code.\<close>

lemma visit_size: "visit_pack v = Inr raw \<Longrightarrow> length raw = 160"
  using scan_visit.pack_length [of v raw] by (simp add: visit_fmt_def struct_size_def)

lemma terminal_size: "terminal_pack t = Inr raw \<Longrightarrow> length raw = 128"
  using scan_terminal.pack_length [of t raw] by (simp add: terminal_fmt_def struct_size_def)

lemma visit_codec: "visit_pack v = Inr raw \<longleftrightarrow> visit_unpack raw = Inr v"
  using visit_size [of v raw]
  by (auto simp: visit_unpack_def bindE_Inr_iff scan_visit.iff)

lemma terminal_codec: "terminal_pack t = Inr raw \<longleftrightarrow> terminal_unpack raw = Inr t"
  using terminal_size [of t raw]
  by (auto simp: terminal_unpack_def bindE_Inr_iff scan_terminal.iff)

lemma caps_codec: "caps_pack c = Inr raw \<longleftrightarrow> caps_unpack raw = Inr c"
  unfolding caps_unpack_def by (rule scan_caps.iff)

lemma setup_codec: "setup_pack s = Inr raw \<longleftrightarrow> setup_unpack raw = Inr s"
  unfolding setup_unpack_def by (rule scan_setup.iff)

lemma feedback_codec: "feedback_pack f = Inr raw \<longleftrightarrow> feedback_unpack raw = Inr f"
  unfolding feedback_unpack_def by (rule scan_feedback.iff)

lemma ack_codec: "ack_pack a = Inr raw \<longleftrightarrow> ack_unpack raw = Inr a"
  unfolding ack_unpack_def by (rule scan_ack.iff)

section \<open>Error detection\<close>

text \<open>
  One step of the CRC register is a bijection: the top bit of the new register says whether the polynomial was
  added. So it is injective in the register and in the byte, and two messages that differ in one byte have
  different CRCs.
\<close>

lemma xor_left_cancel: "(a :: 'a :: len word) XOR x = a XOR y \<longleftrightarrow> x = y"
  by (metis xor.left_neutral xor.assoc xor_self_eq)

lemma xor_right_cancel: "(x :: 'a :: len word) XOR a = y XOR a \<longleftrightarrow> x = y"
  by (metis xor_left_cancel xor.commute)

lemma crc_bit_inj: "crc_bit a = crc_bit b \<Longrightarrow> a = b"
proof -
  assume eq: "crc_bit a = crc_bit b"
  have top: "bit (crc_bit c) 31 \<longleftrightarrow> bit c 0" for c
    using bit_imp_le_length [of c 32] by (auto simp: crc_bit_def bit_simps)
  have low: "bit a 0 = bit b 0" using eq top by metis
  with eq have "drop_bit 1 a = drop_bit 1 b"
    by (auto simp: crc_bit_def xor_right_cancel split: if_splits)
  then have rest: "bit a (Suc n) = bit b (Suc n)" for n
    by (metis bit_drop_bit_eq comp_apply plus_1_eq_Suc)
  show "a = b"
  proof (rule bit_word_eqI)
    fix n
    show "bit a n = bit b n" using low rest by (cases n) simp_all
  qed
qed

lemma crc_byte_inj: "crc_byte a x = crc_byte b y \<longleftrightarrow> a XOR ucast x = b XOR ucast y"
  unfolding crc_byte_def using crc_bit_inj by metis

lemma crc_fold_inj: "foldl crc_byte a bs = foldl crc_byte b bs \<longleftrightarrow> a = b"
  by (induction bs arbitrary: a b) (simp_all add: crc_byte_inj xor_right_cancel)

lemma byte_extend_inj: "(ucast (x :: byte) :: 32 word) = ucast y \<longleftrightarrow> x = y"
proof
  assume "(ucast x :: 32 word) = ucast y"
  then have "uint (ucast x :: 32 word) = uint (ucast y :: 32 word)" by simp
  moreover have "take_bit 32 (uint b) = uint b" for b :: byte
    using uint_byte_bounds [of b] by (intro take_bit_int_eq_self) simp_all
  ultimately show "x = y" by (simp add: unsigned_ucast_eq word_uint_eq_iff)
qed simp

lemma crc_detects:
  assumes "x \<noteq> y"
  shows "crc32 (pre @ x # post) \<noteq> crc32 (pre @ y # post)"
proof
  assume "crc32 (pre @ x # post) = crc32 (pre @ y # post)"
  then have "foldl crc_byte (NOT 0) (pre @ x # post) = foldl crc_byte (NOT 0) (pre @ y # post)"
    unfolding crc32_def by (metis bit.double_compl unsigned_word_eqI word_eq_iff_unsigned)
  then have "(ucast x :: 32 word) = ucast y"
    by (simp add: crc_fold_inj crc_byte_inj xor_left_cancel)
  with assms show False by (simp add: byte_extend_inj)
qed

text \<open>A packet that passes a frame check no longer passes any when one of its bytes is changed.\<close>

lemma check_detects:
  assumes n: "20 \<le> n" and ok: "scan_check magic n versions flags raw = Inr ()"
    and i: "i < n" and other: "x \<noteq> raw ! i"
  shows "scan_check magic n versions flags' (raw[i := x]) \<noteq> Inr ()"
proof
  assume ok': "scan_check magic n versions flags' (raw[i := x]) = Inr ()"
  note A = ok [unfolded scan_check_Inr [OF n]] and B = ok' [unfolded scan_check_Inr [OF n]]
  from A have len: "length raw = n" by simp
  show False
  proof (cases "i < n - 4")
    case True
    then have post: "drop (n - 4) (raw[i := x]) = drop (n - 4) raw" by simp
    from True len have "i < length (take (n - 4) raw)" by simp
    from id_take_nth_drop [OF this] True
    have "take (n - 4) raw = take i raw @ raw ! i # drop (Suc i) (take (n - 4) raw)" by (simp add: min_def)
    moreover have "take (n - 4) (raw[i := x]) = take i raw @ x # drop (Suc i) (take (n - 4) raw)"
      using True len by (subst take_update_swap, subst upd_conv_take_nth_drop) (auto simp: min_def)
    ultimately have "crc32 (take (n - 4) (raw[i := x])) \<noteq> crc32 (take (n - 4) raw)"
      using other crc_detects by metis
    with A B post show False by simp
  next
    case False
    then have pre: "take (n - 4) (raw[i := x]) = take (n - 4) raw" by simp
    with A B have "le_value (drop (n - 4) (raw[i := x])) = le_value (drop (n - 4) raw)" by simp
    then have "drop (n - 4) (raw[i := x]) = drop (n - 4) raw"
      by (metis le_bytes_le_value length_drop length_list_update)
    with False i len have "raw[i := x] = raw"
      by (metis append_take_drop_id pre)
    with i len other show False by (metis nth_list_update_eq)
  qed
qed

lemma flip_changes: "(b :: byte) XOR 0x80 \<noteq> b"
proof
  assume "b XOR 0x80 = b"
  then have "b XOR 0x80 = b XOR 0" by simp
  then show False by (simp only: xor_left_cancel) simp
qed

context scan_layout
begin

lemma corruption_rejected:
  assumes "pack x = Inr raw" and "c \<in> set (corruptions raw)"
  shows "\<exists>m. scan_unpack magic fmt versions expected guards build finish c = Inl (ScanProtocolError m)"
proof -
  from unpack_pack [OF assms(1)]
  have ok: "scan_check magic (struct_size fmt + 20) versions (expected raw) raw = Inr ()"
    by (auto simp: scan_unpack_def bindE_Inr_iff)
  from assms(2) obtain i where i: "i < length raw" and c: "c = raw[i := raw ! i XOR 0x80]"
    by (auto simp: corruptions_def)
  have "scan_check magic (struct_size fmt + 20) versions (expected c) c \<noteq> Inr ()"
    unfolding c using i pack_length [OF assms(1)] by (intro check_detects [OF _ ok]) (simp_all add: flip_changes)
  from scan_check_error [OF _ this] obtain m
    where "scan_check magic (struct_size fmt + 20) versions (expected c) c = Inl (ScanProtocolError m)" by auto
  then show ?thesis by (simp add: scan_unpack_def)
qed

end

end
