(* ===== verification/Scan_Client.thy ===== *)
theory Scan_Client
  imports Scan_Facts Effects Counter_Utc
begin

text \<open>
  \<open>adaptive_scan_client.py\<close>: the iiOD client of an adaptive scan. A socket is what will still arrive on it: \<open>Data\<close>
  segments, which \<open>recv\<close> may hand over in parts, and \<open>Fault\<close>s, where \<open>recv\<close> raises. A command that opens its own
  connection is a function of \<open>server\<close>, the arrivals that answer a request: the source closes such a connection in a
  \<open>finally\<close>, so nothing of it is left. The session keeps its stream's socket; its generator \<open>visits\<close> is a loop that a
  consumer resumes a number of times and may then drop.
\<close>

section \<open>Sockets\<close>

definition st_err :: "string \<Rightarrow> exn" where
  "st_err m = ScanTransportError m"

datatype arrival = Data bytes | Fault exn

text \<open>\<open>recv(n)\<close>: at most \<open>n\<close> bytes of the next segment; nothing once the peer has closed.\<close>

fun recv :: "nat \<Rightarrow> arrival list \<Rightarrow> (arrival list, bytes) effect" where
  "recv n [] = ([], Inr [])"
| "recv n (Fault e # rest) = (rest, Inl e)"
| "recv n (Data [] # rest) = recv n rest"
| "recv n (Data (b # bs) # rest) = (Data (drop n (b # bs)) # rest, Inr (take n (b # bs)))"

text \<open>\<open>_line\<close>: up to 31 bytes of \<open>b"-0123456789"\<close>, then a line feed.\<close>

definition line_byte :: "byte \<Rightarrow> bool" where
  "line_byte b \<longleftrightarrow> b \<in> set (ascii_bytes ''-0123456789'')"

function scan_line :: "bytes \<Rightarrow> arrival list \<Rightarrow> (arrival list, bytes) effect" where
  "scan_line result c =
     (case recv 1 c of
        (c, Inl e) \<Rightarrow> (c, Inl e)
      | (c, Inr []) \<Rightarrow> (c, Inl (st_err ''iiOD closed before the response line''))
      | (c, Inr (b # _)) \<Rightarrow>
          if b = 10 then (c, Inr result)
          else if 31 \<le> length result \<or> \<not> line_byte b then (c, Inl (st_err ''iiOD returned a malformed integer line''))
          else scan_line (result @ [b]) c)"
  by pat_completeness auto
termination by (relation "measure (\<lambda>(result, c). 32 - length result)") auto

text \<open>\<open>int(line)\<close> on such a line: an optional sign and at least one digit.\<close>

definition digit :: "byte \<Rightarrow> bool" where
  "digit b \<longleftrightarrow> 48 \<le> uint b \<and> uint b \<le> 57"

definition digits_value :: "bytes \<Rightarrow> int" where
  "digits_value bs = foldl (\<lambda>v b. 10 * v + (uint b - 48)) 0 bs"

definition parse_int :: "bytes \<Rightarrow> int option" where
  "parse_int bs =
     (let negative = bs \<noteq> [] \<and> hd bs = 0x2D; body = if negative then tl bs else bs in
      if body = [] \<or> \<not> list_all digit body then None
      else Some (if negative then - digits_value body else digits_value body))"

definition scan_integer :: "arrival list \<Rightarrow> (arrival list, int) effect" where
  "scan_integer c =
     bindS (scan_line [] c) (\<lambda>c line.
       (c, case parse_int line of None \<Rightarrow> Inl (st_err ''iiOD returned an empty integer line'') | Some n \<Rightarrow> Inr n))"

text \<open>\<open>_exact\<close>.\<close>

function scan_exact :: "nat \<Rightarrow> bytes \<Rightarrow> arrival list \<Rightarrow> (arrival list, bytes) effect" where
  "scan_exact n result c =
     (if n \<le> length result then (c, Inr result)
      else case recv (n - length result) c of
        (c, Inl e) \<Rightarrow> (c, Inl e)
      | (c, Inr []) \<Rightarrow> (c, Inl (st_err ''iiOD closed inside a binary record''))
      | (c, Inr (b # bs)) \<Rightarrow> scan_exact n (result @ b # bs) c)"
  by pat_completeness auto
termination by (relation "measure (\<lambda>(n, result, c). n - length result)") auto

declare scan_line.simps [simp del] scan_exact.simps [simp del]

definition require_success :: "int \<Rightarrow> int result" where
  "require_success v = (if v < 0 then Inl (st_err ''command failed'') else Inr v)"

definition success_integer :: "arrival list \<Rightarrow> (arrival list, int) effect" where
  "success_integer c = bindS (scan_integer c) (\<lambda>c v. (c, require_success v))"

section \<open>Commands\<close>

fun dec_text :: "nat \<Rightarrow> string" where
  "dec_text n = (if n < 10 then [char_of (48 + n)] else dec_text (n div 10) @ [char_of (48 + n mod 10)])"

declare dec_text.simps [simp del]

definition command :: "string list \<Rightarrow> bytes" where
  "command ws = ascii_bytes (concat (tl (concat (map (\<lambda>w. ['' '', w]) ws)))) @ [10]"

text \<open>The constructor of a client.\<close>

definition client_endpoint :: "string \<Rightarrow> int \<Rightarrow> rat \<Rightarrow> unit result" where
  "client_endpoint host port timeout =
     checks [(host = [] \<or> \<not> (1 \<le> port \<and> port \<le> 65535) \<or> timeout \<le> 0,
       ValueError ''adaptive scan endpoint is invalid'')]"

type_synonym server = "bytes \<Rightarrow> arrival list"

text \<open>A command on a connection of its own: it is sent, \<open>body\<close> reads the answer, the connection is closed.\<close>

definition ask :: "server \<Rightarrow> bytes \<Rightarrow> (arrival list \<Rightarrow> (arrival list, 'a) effect) \<Rightarrow> 'a result" where
  "ask server request body = snd (body (server request))"

text \<open>A record of a known size, announced by its length.\<close>

definition sized_record :: "int \<Rightarrow> int \<Rightarrow> (bytes \<Rightarrow> 'a result) \<Rightarrow> arrival list \<Rightarrow> (arrival list, 'a) effect" where
  "sized_record expected announced unpack c =
     (if announced \<noteq> expected then (c, Inl (st_err ''the wrong record size''))
      else bindS (scan_exact (nat announced) [] c) (\<lambda>c raw. (c, unpack raw)))"

definition capabilities :: "server \<Rightarrow> scan_caps result" where
  "capabilities server =
     ask server (command [''SCANCAPS'', ''96'']) (\<lambda>c.
       bindS (success_integer c) (\<lambda>c n. sized_record 96 n caps_unpack c))"

definition version_checked :: "int \<Rightarrow> bytes \<Rightarrow> scan_caps result" where
  "version_checked version raw =
     bindE (caps_unpack raw) (\<lambda>caps.
       if sc_protocol_version caps \<noteq> version then Inl (st_err ''not the capabilities asked for'') else Inr caps)"

text \<open>\<open>errno.ENOSYS\<close> is 38, \<open>EINVAL\<close> 22: an old server, which is asked again for its first-version record.\<close>

definition runtime_capabilities :: "server \<Rightarrow> scan_caps result" where
  "runtime_capabilities server =
     bindE (ask server (command [''SCANCAPS2'', ''96'']) (\<lambda>c.
       bindS (scan_integer c) (\<lambda>c n.
         if n = -38 \<or> n = -22 then (c, Inr None)
         else bindS (c, require_success n) (\<lambda>c n.
              bindS (sized_record 96 n (version_checked 2) c) (\<lambda>c caps. (c, Inr (Some caps)))))))
       (\<lambda>answer. case answer of Some caps \<Rightarrow> Inr caps | None \<Rightarrow> capabilities server)"

definition variable_dwell_capabilities :: "server \<Rightarrow> scan_caps result" where
  "variable_dwell_capabilities server =
     ask server (command [''SCANCAPS3'', ''96'']) (\<lambda>c.
       bindS (success_integer c) (\<lambda>c n. sized_record 96 n (version_checked 3) c))"

text \<open>\<open>EINVAL\<close>, \<open>ENOSYS\<close> and \<open>EOPNOTSUPP\<close> (95) mean that the server has no counter time.\<close>

definition supports_counter_time :: "server \<Rightarrow> bool result" where
  "supports_counter_time server =
     ask server (command [''SCANTIMECAPS'']) (\<lambda>c.
       bindS (scan_integer c) (\<lambda>c n.
         (c, if n \<in> {-22, -38, -95} then Inr False
             else if n \<noteq> 1 then Inl (st_err ''unsupported counter-time protocol'') else Inr True)))"

text \<open>\<open>EAGAIN\<close> (11), \<open>ENODATA\<close> (61) and \<open>ESHUTDOWN\<close> (108) mean that there is no observation now.\<close>

definition counter_time :: "server \<Rightarrow> string \<Rightarrow> scan_setup \<Rightarrow> int \<Rightarrow> counter_observation option result" where
  "counter_time server device setup request =
     bindE (pack_query request (ss_session setup) (ss_generation setup)) (\<lambda>query.
     ask server (command [''SCANTIME'', device, ''48''] @ query) (\<lambda>c.
       bindS (scan_integer c) (\<lambda>c n.
         if n \<in> {-11, -61, -108} then (c, Inr None)
         else bindS (c, require_success n) (\<lambda>c n.
           bindS (sized_record 128 n counter_observation_unpack c) (\<lambda>c found.
             (c, if co_request found \<noteq> request \<or> co_session found \<noteq> ss_session setup
                   \<or> co_generation found \<noteq> ss_generation setup \<or> co_sample_rate_hz found \<noteq> ss_source_rate_hz setup
                 then Inl (st_err ''SCANTIME returned stale identity or rate'') else Inr (Some found)))))))"

definition submit_feedback :: "server \<Rightarrow> string \<Rightarrow> scan_feedback \<Rightarrow> feedback_result result" where
  "submit_feedback server device feedback =
     bindE (feedback_pack feedback) (\<lambda>wire.
     ask server (command [''SCANFEEDBACK'', device, ''112''] @ wire) (\<lambda>c.
       bindS (success_integer c) (\<lambda>c n.
         (c, case filter (\<lambda>r. feedback_value r = n) all_feedback_results of
               [] \<Rightarrow> Inl (st_err ''unknown feedback receipt'') | r # _ \<Rightarrow> Inr r))))"

definition try_take_ack :: "server \<Rightarrow> string \<Rightarrow> scan_ack option result" where
  "try_take_ack server device =
     ask server (command [''SCANACK'', device, ''96'']) (\<lambda>c.
       bindS (scan_integer c) (\<lambda>c n.
         if n = -11 then (c, Inr None)
         else bindS (c, require_success n) (\<lambda>c n.
              bindS (sized_record 96 n ack_unpack c) (\<lambda>c ack. (c, Inr (Some ack))))))"

definition take_ack :: "server \<Rightarrow> string \<Rightarrow> scan_ack result" where
  "take_ack server device =
     bindE (try_take_ack server device) (\<lambda>ack.
       case ack of None \<Rightarrow> Inl (st_err ''SCANACK has no ready acknowledgement'') | Some a \<Rightarrow> Inr a)"

text \<open>
  \<open>diagnostics\<close>. \<open>loads\<close> is \<open>json.loads\<close>; \<open>identity\<close> gives the schema, session and generation of a document that is
  a dictionary with the three entries.
\<close>

record 'doc json_reader =
  jr_loads :: "bytes \<Rightarrow> 'doc result"
  jr_identity :: "'doc \<Rightarrow> (string \<times> int \<times> int) option"

definition diagnostics :: "server \<Rightarrow> 'doc json_reader \<Rightarrow> string \<Rightarrow> scan_setup \<Rightarrow> 'doc result" where
  "diagnostics server reader device setup =
     bindE (struct_pack [FU 8, FU 8] [VInt (ss_session setup), VInt (ss_generation setup)]) (\<lambda>names.
     ask server (command [''SCANDIAG'', device, ''16''] @ names) (\<lambda>c.
       bindS (success_integer c) (\<lambda>c n.
         if \<not> (0 < n \<and> n \<le> 32768) then (c, Inl (st_err ''SCANDIAG response exceeds its bounded schema''))
         else bindS (scan_exact (nat n) [] c) (\<lambda>c raw.
           (c, bindE (jr_loads reader raw) (\<lambda>doc.
             if jr_identity reader doc \<noteq> Some (''spf.scan-diagnostics/v1'', ss_session setup, ss_generation setup)
             then Inl (st_err ''SCANDIAG returned stale or unknown diagnostics'') else Inr doc))))))"

end
