(* ===== verification/Scan_Session.thy ===== *)
theory Scan_Session
  imports Scan_Client
begin

text \<open>
  \<open>AdaptiveScanSession\<close> and \<open>AdaptiveScanClient.start\<close>: the stream of one scan. The generator \<open>visits\<close> is resumed a
  number of times; each resumption is one turn of its loop, and when it leaves the loop, by its end, by an exception or
  because the consumer drops it, its \<open>finally\<close> runs.
\<close>

section \<open>State\<close>

datatype 'doc failure_diagnostics = Document 'doc | Unavailable exn

record 'doc scan_session =
  sn_inbox :: "arrival list"
  sn_sent :: bytes
  sn_connected :: bool
  sn_device :: string
  sn_setup :: scan_setup
  sn_terminal :: "scan_terminal option"
  sn_failure :: "'doc failure_diagnostics option"
  sn_iterated :: bool
  sn_closed :: bool
  sn_visit_count :: int
  sn_last_visit :: "int option"
  sn_last_valid_end :: "int option"
  sn_iq_bytes :: int
  sn_delivered :: int
  sn_skipped :: int
  sn_invalid :: int
  sn_cancelled :: int

definition session_new :: "arrival list \<Rightarrow> bytes \<Rightarrow> string \<Rightarrow> scan_setup \<Rightarrow> 'doc scan_session" where
  "session_new inbox sent device setup = \<lparr>sn_inbox = inbox, sn_sent = sent, sn_connected = True, sn_device = device,
     sn_setup = setup, sn_terminal = None, sn_failure = None, sn_iterated = False, sn_closed = False,
     sn_visit_count = 0, sn_last_visit = None, sn_last_valid_end = None, sn_iq_bytes = 0, sn_delivered = 0,
     sn_skipped = 0, sn_invalid = 0, sn_cancelled = 0\<rparr>"

text \<open>
  \<open>start\<close>: the connection is opened once the request is known to be valid; its arrivals are \<open>inbox\<close>. An error after
  that closes it and leaves no session.
\<close>

definition open_request :: "string \<Rightarrow> int \<Rightarrow> string \<Rightarrow> bytes \<Rightarrow> bytes" where
  "open_request device samples scan_mask request =
     command [''OPENM'', device, dec_text (nat samples), scan_mask, dec_text (length request)] @ request"

definition rx_scan_mask :: "int \<Rightarrow> string option" where
  "rx_scan_mask rx = map_of [(1, ''00000003''), (3, ''0000000f'')] rx"

definition start_mask :: "scan_setup \<Rightarrow> int \<Rightarrow> string option \<Rightarrow> string result" where
  "start_mask setup samples_per_block scan_mask =
     (if samples_per_block \<le> 0 \<or> samples_per_block mod 2 \<noteq> 0
      then Inl (ValueError ''samples_per_block must be positive and even'')
      else case rx_scan_mask (ss_rx_mask setup) of
        None \<Rightarrow> Inl (ValueError ''feature-103 supports RX1 or shared-LO RX1+RX2 only'')
      | Some expected \<Rightarrow>
          if scan_mask \<noteq> None \<and> scan_mask \<noteq> Some expected
          then Inl (ValueError ''IIO scan mask disagrees with adaptive-scan RX selection'')
          else Inr expected)"

definition scan_start :: "arrival list \<Rightarrow> scan_setup \<Rightarrow> string \<Rightarrow> int \<Rightarrow> string option \<Rightarrow> 'doc scan_session result" where
  "scan_start inbox setup device samples_per_block scan_mask =
     bindE (start_mask setup samples_per_block scan_mask) (\<lambda>mask.
     bindE (setup_pack setup) (\<lambda>request.
     case success_integer inbox of
       (c, Inl e) \<Rightarrow> Inl e
     | (c, Inr _) \<Rightarrow>
         Inr (session_new c (open_request device samples_per_block mask request @ command [''READSCAN'', device])
                device setup)))"

section \<open>Records of the stream\<close>

definition bit_count :: "int \<Rightarrow> int" where
  "bit_count m = int (length (filter (bit m) [0 ..< 32]))"

text \<open>The guards of \<open>_validate_visit\<close>. A decoded visit has a target below 8, so the index is not negative.\<close>

definition visit_target :: "scan_setup \<Rightarrow> scan_visit \<Rightarrow> scan_target" where
  "visit_target setup v = ss_targets setup ! nat (sv_target v)"

definition visit_checks :: "'doc scan_session \<Rightarrow> scan_visit \<Rightarrow> (bool \<times> exn) list" where
  "visit_checks s v =
     (let setup = sn_setup s in
      [(sv_session v \<noteq> ss_session setup \<or> sv_generation v \<noteq> ss_generation setup, st_err ''visit identity changed''),
       (sv_protocol_version v \<noteq> ss_protocol_version setup, st_err ''visit protocol version changed''),
       (sv_target v \<ge> int (length (ss_targets setup)), st_err ''visit target is outside the setup whitelist''),
       (sv_frequency_hz v \<noteq> st_frequency_hz (visit_target setup v) \<or> sv_profile v \<noteq> st_profile (visit_target setup v),
         st_err ''visit target metadata changed from setup''),
       (sv_profile_crc32 v = 0, st_err ''visit Fast Lock CRC is zero''),
       (sv_source_rate_hz v \<noteq> ss_source_rate_hz setup \<or> sv_analog_bandwidth_hz v \<noteq> ss_analog_bandwidth_hz setup,
         st_err ''visit rate or analog bandwidth changed''),
       (sv_result v = VISIT_COMPLETE \<and>
          sv_iq_bytes v \<noteq> (sv_valid_end v - sv_valid_start v) * 4 * bit_count (ss_rx_mask setup),
         st_err ''visit IQ geometry disagrees with setup RX mask''),
       (sv_visit v \<noteq> (case sn_last_visit s of None \<Rightarrow> 0 | Some n \<Rightarrow> n + 1), st_err ''visit sequence is not contiguous''),
       (case sn_last_valid_end s of None \<Rightarrow> False | Some e \<Rightarrow> sv_transition_before v < e,
         st_err ''visit source intervals overlap or regress''),
       (sv_result v = ADMITTED, st_err ''non-terminal admitted visit escaped the provider'')])"

definition count_visit :: "scan_visit \<Rightarrow> 'doc scan_session \<Rightarrow> 'doc scan_session" where
  "count_visit v s =
     (let s = s\<lparr>sn_last_visit := Some (sv_visit v), sn_last_valid_end := Some (sv_valid_end v),
                sn_visit_count := sn_visit_count s + 1, sn_iq_bytes := sn_iq_bytes s + sv_iq_bytes v\<rparr> in
      case sv_result v of
        VISIT_COMPLETE \<Rightarrow> s\<lparr>sn_delivered := sn_delivered s + 1\<rparr>
      | SKIP_CAPACITY \<Rightarrow> s\<lparr>sn_skipped := sn_skipped s + 1\<rparr>
      | SKIP_AGE \<Rightarrow> s\<lparr>sn_skipped := sn_skipped s + 1\<rparr>
      | INVALID_GAP \<Rightarrow> s\<lparr>sn_invalid := sn_invalid s + 1\<rparr>
      | VISIT_CANCELLED \<Rightarrow> s\<lparr>sn_cancelled := sn_cancelled s + 1\<rparr>
      | ADMITTED \<Rightarrow> s)"

definition validate_visit :: "'doc scan_session \<Rightarrow> scan_visit \<Rightarrow> ('doc scan_session, unit) effect" where
  "validate_visit s v =
     (case checks (visit_checks s v) of Inl e \<Rightarrow> (s, Inl e) | Inr _ \<Rightarrow> (count_visit v s, Inr ()))"

definition terminal_checks :: "'doc scan_session \<Rightarrow> scan_terminal \<Rightarrow> (bool \<times> exn) list" where
  "terminal_checks s t =
     [(sx_session t \<noteq> ss_session (sn_setup s) \<or> sx_generation t \<noteq> ss_generation (sn_setup s),
        st_err ''terminal identity changed''),
      (sx_planned t \<noteq> sn_visit_count s \<or> sx_delivered t \<noteq> sn_delivered s \<or> sx_skipped t \<noteq> sn_skipped s
       \<or> sx_invalid t \<noteq> sn_invalid s \<or> sx_cancelled t \<noteq> sn_cancelled s \<or> sx_iq_bytes t \<noteq> sn_iq_bytes s,
        st_err ''terminal accounting disagrees with the stream''),
      (case sn_last_valid_end s of None \<Rightarrow> False | Some e \<Rightarrow> sx_final_counter t < e,
        st_err ''terminal source counter regressed'')]"

section \<open>The generator\<close>

text \<open>\<open>_capture_failure_diagnostics\<close>: kept once, and never instead of the error it explains.\<close>

definition capture_diagnostics :: "server \<Rightarrow> 'doc json_reader \<Rightarrow> 'doc scan_session \<Rightarrow> 'doc scan_session" where
  "capture_diagnostics server reader s =
     (if sn_failure s \<noteq> None then s
      else s\<lparr>sn_failure := Some (case diagnostics server reader (sn_device s) (sn_setup s) of
               Inl e \<Rightarrow> Unavailable e | Inr doc \<Rightarrow> Document doc)\<rparr>)"

text \<open>Reading from the stream's socket.\<close>

definition on_inbox :: "(arrival list \<Rightarrow> (arrival list, 'a) effect) \<Rightarrow> 'doc scan_session \<Rightarrow> ('doc scan_session, 'a) effect" where
  "on_inbox f s = (case f (sn_inbox s) of (c, r) \<Rightarrow> (s\<lparr>sn_inbox := c\<rparr>, r))"

definition read_visit :: "'doc scan_session \<Rightarrow> ('doc scan_session, (scan_visit \<times> bytes) option) effect" where
  "read_visit s =
     bindS (on_inbox (scan_exact 160 []) s) (\<lambda>s raw.
     bindS (s, visit_unpack raw) (\<lambda>s v.
     bindS (validate_visit s v) (\<lambda>s _.
     bindS (on_inbox success_integer s) (\<lambda>s n.
     if n \<noteq> sv_iq_bytes v then (s, Inl (st_err ''visit IQ length disagrees with record''))
     else bindS (on_inbox (scan_exact (nat n) []) s) (\<lambda>s iq. (s, Inr (Some (v, iq))))))))"

definition read_terminal ::
  "server \<Rightarrow> 'doc json_reader \<Rightarrow> 'doc scan_session \<Rightarrow> ('doc scan_session, (scan_visit \<times> bytes) option) effect" where
  "read_terminal server reader s =
     bindS (on_inbox (scan_exact 128 []) s) (\<lambda>s raw.
     bindS (s, terminal_unpack raw) (\<lambda>s t.
     bindS (on_inbox success_integer s) (\<lambda>s n.
     if n \<noteq> 0 then (s, Inl (st_err ''terminal record unexpectedly has IQ''))
     else bindS (s, checks (terminal_checks s t)) (\<lambda>s _.
       let s = s\<lparr>sn_terminal := Some t\<rparr> in
       (if sx_error t \<noteq> 0 then capture_diagnostics server reader s else s, Inr None)))))"

text \<open>One turn of the loop: a visit to yield, \<open>None\<close> when the stream has ended, or an exception.\<close>

definition visits_turn ::
  "server \<Rightarrow> 'doc json_reader \<Rightarrow> 'doc scan_session \<Rightarrow> ('doc scan_session, (scan_visit \<times> bytes) option) effect" where
  "visits_turn server reader s =
     bindS (on_inbox success_integer s) (\<lambda>s n.
     if n = 160 then read_visit s
     else if n = 128 then read_terminal server reader s
     else (s, Inl (st_err ''READSCAN returned an unknown record size'')))"

definition visits_finally :: "server \<Rightarrow> 'doc json_reader \<Rightarrow> 'doc scan_session \<Rightarrow> 'doc scan_session" where
  "visits_finally server reader s =
     (if sn_terminal s = None
      then (capture_diagnostics server reader s)\<lparr>sn_connected := False, sn_closed := True\<rparr> else s)"

datatype scan_exit = Dropped | Finished | Raised exn

fun visits_loop ::
  "server \<Rightarrow> 'doc json_reader \<Rightarrow> nat \<Rightarrow> 'doc scan_session
   \<Rightarrow> 'doc scan_session \<times> (scan_visit \<times> bytes) list \<times> scan_exit" where
  "visits_loop server reader 0 s = (visits_finally server reader s, [], Dropped)"
| "visits_loop server reader (Suc k) s =
     (case visits_turn server reader s of
        (s, Inl e) \<Rightarrow> (visits_finally server reader s, [], Raised e)
      | (s, Inr None) \<Rightarrow> (visits_finally server reader s, [], Finished)
      | (s, Inr (Some v)) \<Rightarrow> (case visits_loop server reader k s of (s, vs, x) \<Rightarrow> (s, v # vs, x)))"

text \<open>
  \<open>for visit in session.visits()\<close> by a consumer that asks at most \<open>k\<close> times. A generator that is never asked does not
  run at all.
\<close>

definition visits ::
  "server \<Rightarrow> 'doc json_reader \<Rightarrow> nat \<Rightarrow> 'doc scan_session
   \<Rightarrow> 'doc scan_session \<times> (scan_visit \<times> bytes) list \<times> scan_exit" where
  "visits server reader k s =
     (if k = 0 then (s, [], Dropped)
      else if sn_iterated s \<or> sn_closed s then (s, [], Raised (st_err ''adaptive scan stream is single-use''))
      else visits_loop server reader k (s\<lparr>sn_iterated := True\<rparr>))"

section \<open>The session's other methods\<close>

definition session_feedback :: "server \<Rightarrow> 'doc scan_session \<Rightarrow> scan_feedback \<Rightarrow> feedback_result result" where
  "session_feedback server s f =
     (if sn_closed s then Inl (st_err ''adaptive scan session is no longer active'')
      else submit_feedback server (sn_device s) f)"

definition session_try_take_ack :: "server \<Rightarrow> 'doc scan_session \<Rightarrow> scan_ack option result" where
  "session_try_take_ack server s = try_take_ack server (sn_device s)"

definition session_take_ack :: "server \<Rightarrow> 'doc scan_session \<Rightarrow> scan_ack result" where
  "session_take_ack server s = take_ack server (sn_device s)"

definition session_close :: "'doc scan_session \<Rightarrow> ('doc scan_session, unit) effect" where
  "session_close s =
     (if sn_closed s then (s, Inr ())
      else case (if sn_terminal s = None then (s, Inr 0)
                 else on_inbox success_integer (s\<lparr>sn_sent := sn_sent s @ command [''CLOSE'', sn_device s]\<rparr>)) of
        (s, r) \<Rightarrow> (s\<lparr>sn_connected := False, sn_closed := True\<rparr>, bindE r (\<lambda>_. Inr ())))"

end
