(* ===== verification/Scan_Stream_Facts.thy ===== *)
theory Scan_Stream_Facts
  imports Scan_Session
begin

text \<open>
  Facts about the scan stream. What a reader takes from a socket depends on the bytes that arrive, not on how they are
  cut; every reader of the stream is one for the encoding it expects. The second part is the ledger of a session: what
  its counters say of the visits it has passed on.
\<close>

section \<open>Readers\<close>

primrec arrived :: "arrival list \<Rightarrow> bytes" where
  "arrived [] = []"
| "arrived (a # rest) = (case a of Data bs \<Rightarrow> bs | Fault _ \<Rightarrow> []) @ arrived rest"

definition clean :: "arrival list \<Rightarrow> bool" where
  "clean c \<longleftrightarrow> (\<forall>e. Fault e \<notin> set c)"

lemma clean_simps [simp]: "clean []" "clean (Data bs # c) \<longleftrightarrow> clean c" "\<not> clean (Fault e # c)"
  by (auto simp: clean_def)

lemma recv_clean:
  assumes "clean c" and "0 < n"
  obtains c' chunk where "recv n c = (c', Inr chunk)" "clean c'" "chunk @ arrived c' = arrived c" "length chunk \<le> n"
    "chunk = [] \<longleftrightarrow> arrived c = []"
proof -
  have "\<exists>c' chunk. recv n c = (c', Inr chunk) \<and> clean c' \<and> chunk @ arrived c' = arrived c \<and> length chunk \<le> n
      \<and> (chunk = [] \<longleftrightarrow> arrived c = [])"
    using assms
  proof (induction n c rule: recv.induct)
    case (4 n b bs rest)
    have "take n (b # bs) @ drop n (b # bs) @ arrived rest = b # bs @ arrived rest"
      by (metis append_Cons append_assoc append_take_drop_id)
    with 4 show ?case by auto
  qed auto
  with that show thesis by blast
qed

text \<open>\<open>takes f bs x\<close>: however the bytes \<open>bs\<close> arrive, \<open>f\<close> reads them, no more, and returns \<open>x\<close>.\<close>

definition takes :: "(arrival list \<Rightarrow> (arrival list, 'a) effect) \<Rightarrow> bytes \<Rightarrow> 'a \<Rightarrow> bool" where
  "takes f bs x \<longleftrightarrow>
     (\<forall>c rest. clean c \<longrightarrow> arrived c = bs @ rest \<longrightarrow> (\<exists>c'. f c = (c', Inr x) \<and> clean c' \<and> arrived c' = rest))"

lemma takesE:
  assumes "takes f bs x" and "clean c" and "arrived c = bs @ rest"
  obtains c' where "f c = (c', Inr x)" "clean c'" "arrived c' = rest"
  using assms unfolding takes_def by blast

lemma takes_line:
  assumes "list_all line_byte ds" and "length acc + length ds \<le> 31"
  shows "takes (scan_line acc) (ds @ [10]) (acc @ ds)"
  unfolding takes_def
proof (intro allI impI)
  fix c rest
  assume "clean c" and "arrived c = (ds @ [10]) @ rest"
  with assms show "\<exists>c'. scan_line acc c = (c', Inr (acc @ ds)) \<and> clean c' \<and> arrived c' = rest"
  proof (induction ds arbitrary: acc c)
    case Nil
    obtain c' chunk where R: "recv 1 c = (c', Inr chunk)" "clean c'" "chunk @ arrived c' = arrived c" "length chunk \<le> 1"
        "chunk = [] \<longleftrightarrow> arrived c = []"
      by (rule recv_clean [OF Nil.prems(3) zero_less_one])
    with Nil.prems(4) have "chunk = [10]" and "arrived c' = rest" by (cases chunk; simp)+
    with R show ?case by (subst scan_line.simps) simp
  next
    case (Cons d ds)
    obtain c' chunk where R: "recv 1 c = (c', Inr chunk)" "clean c'" "chunk @ arrived c' = arrived c" "length chunk \<le> 1"
        "chunk = [] \<longleftrightarrow> arrived c = []"
      by (rule recv_clean [OF Cons.prems(3) zero_less_one])
    with Cons.prems(4) have chunk: "chunk = [d]" and rest: "arrived c' = (ds @ [10]) @ rest" by (cases chunk; simp)+
    have "d \<noteq> 10" using Cons.prems(1) by (auto simp: line_byte_def ascii_bytes_def)
    moreover obtain c2 where "scan_line (acc @ [d]) c' = (c2, Inr ((acc @ [d]) @ ds))" "clean c2" "arrived c2 = rest"
      using Cons.IH [OF _ _ R(2) rest, of "acc @ [d]"] Cons.prems by auto
    ultimately show ?case using R(1) chunk Cons.prems by (subst scan_line.simps) simp
  qed
qed

lemma takes_exact_from:
  assumes "clean c" and "length acc \<le> n" and "n - length acc \<le> length (arrived c)"
  shows "\<exists>c'. scan_exact n acc c = (c', Inr (acc @ take (n - length acc) (arrived c))) \<and> clean c'
     \<and> arrived c' = drop (n - length acc) (arrived c)"
  using assms
proof (induction n acc c rule: scan_exact.induct)
  case (1 n acc c)
  show ?case
  proof (cases "n \<le> length acc")
    case True
    with 1 show ?thesis by (subst scan_exact.simps) simp
  next
    case False
    then obtain c' chunk where R: "recv (n - length acc) c = (c', Inr chunk)" "clean c'"
        "chunk @ arrived c' = arrived c" "length chunk \<le> n - length acc" "chunk = [] \<longleftrightarrow> arrived c = []"
      using recv_clean [OF 1(2)] by (metis zero_less_diff not_le)
    from False 1(4) R(5) have ne: "chunk \<noteq> []" by auto
    then obtain b bs where chunk: "chunk = b # bs" by (cases chunk) simp_all
    have "length chunk + length (arrived c') = length (arrived c)" using R(3) by (metis length_append)
    then have "n - length (acc @ chunk) \<le> length (arrived c')" and "length (acc @ chunk) \<le> n"
      using R(4) 1(4) False by simp_all
    then have "\<exists>c2. scan_exact n (acc @ chunk) c' = (c2, Inr ((acc @ chunk) @ take (n - length (acc @ chunk)) (arrived c')))
        \<and> clean c2 \<and> arrived c2 = drop (n - length (acc @ chunk)) (arrived c')"
      using 1(1) [OF False R(1) [unfolded chunk, symmetric] refl refl R(2)] unfolding chunk by blast
    then obtain c2 where "scan_exact n (acc @ chunk) c' = (c2, Inr ((acc @ chunk) @ take (n - length (acc @ chunk)) (arrived c')))"
        "clean c2" "arrived c2 = drop (n - length (acc @ chunk)) (arrived c')" by blast
    moreover have "take (n - length acc) (arrived c) = chunk @ take (n - length (acc @ chunk)) (arrived c')"
      and "drop (n - length acc) (arrived c) = drop (n - length (acc @ chunk)) (arrived c')"
      unfolding R(3) [symmetric] using R(4) by simp_all
    ultimately show ?thesis using False R(1) chunk by (subst scan_exact.simps) simp
  qed
qed

lemma takes_exact: "takes (scan_exact (length bs) []) bs bs"
  unfolding takes_def using takes_exact_from [of _ "[]" "length bs"] by fastforce

section \<open>Decimal lines\<close>

definition dec_line :: "nat \<Rightarrow> bytes" where
  "dec_line n = ascii_bytes (dec_text n) @ [10]"

lemma dec_digit: "d < 10 \<Longrightarrow> uint (of_char (char_of (48 + d :: nat)) :: byte) = 48 + int d"
proof -
  assume d: "d < 10"
  have "(of_char (char_of (48 + d)) :: byte) = of_nat (of_char (char_of (48 + d)))"
    by (rule of_nat_of_char [symmetric])
  also have "\<dots> = of_nat (48 + d)" using d by (simp only: of_char_of) simp
  finally show ?thesis using d by (simp only: uint_nat unat_of_nat) simp
qed

lemma digits_value_append: "digits_value (bs @ [b]) = 10 * digits_value bs + (uint b - 48)"
  by (simp add: digits_value_def)

lemma dec_text_digits:
  "digits_value (ascii_bytes (dec_text n)) = int n \<and> list_all digit (ascii_bytes (dec_text n)) \<and> dec_text n \<noteq> []"
proof (induction n rule: dec_text.induct)
  case (1 n)
  show ?case
  proof (cases "n < 10")
    case True
    then show ?thesis
      by (subst (1 2 3) dec_text.simps) (simp add: ascii_bytes_def digits_value_def digit_def dec_digit)
  next
    case False
    have "n mod 10 < 10" by simp
    note d = dec_digit [OF this]
    from False 1 have IH: "digits_value (ascii_bytes (dec_text (n div 10))) = int (n div 10)"
        "list_all digit (ascii_bytes (dec_text (n div 10)))" by simp_all
    have "ascii_bytes (dec_text n) = ascii_bytes (dec_text (n div 10)) @ [of_char (char_of (48 + n mod 10))]"
      using False by (subst dec_text.simps) (simp add: ascii_bytes_def)
    moreover have "digit (of_char (char_of (48 + n mod 10)))" and "10 * int (n div 10) + int (n mod 10) = int n"
      using d by (simp add: digit_def) presburger
    ultimately show ?thesis using IH d by (auto simp: digits_value_append ascii_bytes_def)
  qed
qed

lemma dec_text_length: "n < 10 ^ k \<Longrightarrow> 0 < k \<Longrightarrow> length (dec_text n) \<le> k"
proof (induction k arbitrary: n)
  case (Suc k)
  show ?case
  proof (cases "n < 10")
    case True
    then show ?thesis by (subst dec_text.simps) simp
  next
    case False
    with Suc.prems have "0 < k" by (cases k) simp_all
    moreover from Suc.prems have "n div 10 < 10 ^ k" by (simp add: less_mult_imp_div_less mult.commute)
    ultimately have "length (dec_text (n div 10)) \<le> k" by (rule Suc.IH [rotated])
    with False show ?thesis by (subst dec_text.simps) simp
  qed
qed simp

lemma digit_line_byte: "digit b \<Longrightarrow> line_byte b \<and> b \<noteq> 0x2D"
proof -
  assume d: "digit b"
  then have "uint b \<in> {48, 49, 50, 51, 52, 53, 54, 55, 56, 57}" unfolding digit_def by simp presburger
  then have "b \<in> {48, 49, 50, 51, 52, 53, 54, 55, 56, 57}"
    by (auto simp: word_uint_eq_iff)
  then show ?thesis by (auto simp: line_byte_def ascii_bytes_def)
qed

lemma parse_dec: "parse_int (ascii_bytes (dec_text n)) = Some (int n)"
proof -
  note D = dec_text_digits [of n]
  then obtain b bs where t: "ascii_bytes (dec_text n) = b # bs" by (cases "dec_text n") (auto simp: ascii_bytes_def)
  with D have "b \<noteq> 0x2D" using digit_line_byte [of b] by simp
  with D t show ?thesis by (simp add: parse_int_def)
qed

lemma takes_integer:
  assumes "n < 10 ^ 31"
  shows "takes success_integer (dec_line n) (int n)"
  unfolding takes_def
proof (intro allI impI)
  fix c rest
  assume c: "clean c" "arrived c = dec_line n @ rest"
  have "list_all line_byte (ascii_bytes (dec_text n))"
    using dec_text_digits [of n] digit_line_byte by (auto simp: list_all_iff)
  moreover have "length (ascii_bytes (dec_text n)) \<le> 31"
    using dec_text_length [OF assms] by (simp add: ascii_bytes_def)
  ultimately have "takes (scan_line []) (dec_line n) (ascii_bytes (dec_text n))"
    unfolding dec_line_def using takes_line [of "ascii_bytes (dec_text n)" "[]"] by simp
  from takesE [OF this c] obtain c' where "scan_line [] c = (c', Inr (ascii_bytes (dec_text n)))" "clean c'" "arrived c' = rest"
    by blast
  then show "\<exists>c'. success_integer c = (c', Inr (int n)) \<and> clean c' \<and> arrived c' = rest"
    by (simp add: success_integer_def scan_integer_def parse_dec require_success_def)
qed

end
