(* ===== verification/Scan_Ledger.thy ===== *)
theory Scan_Ledger
  imports Scan_Stream_Facts
begin

text \<open>
  What a scan session promises: a specification of its visits and terminal that mentions no counter of the code, the
  wire form of such a stream, and the lemmas that one turn of the generator reads one element of it and keeps the
  session's counters equal to what they count.
\<close>

section \<open>An honest scan\<close>

type_synonym scan_item = "scan_visit \<times> bytes"

definition visit_of :: "scan_setup \<Rightarrow> scan_visit \<Rightarrow> bool" where
  "visit_of setup v \<longleftrightarrow>
     sv_session v = ss_session setup \<and> sv_generation v = ss_generation setup
     \<and> sv_protocol_version v = ss_protocol_version setup \<and> sv_target v < int (length (ss_targets setup))
     \<and> sv_frequency_hz v = st_frequency_hz (visit_target setup v) \<and> sv_profile v = st_profile (visit_target setup v)
     \<and> sv_profile_crc32 v \<noteq> 0 \<and> sv_source_rate_hz v = ss_source_rate_hz setup
     \<and> sv_analog_bandwidth_hz v = ss_analog_bandwidth_hz setup
     \<and> (sv_result v = VISIT_COMPLETE \<longrightarrow>
          sv_iq_bytes v = (sv_valid_end v - sv_valid_start v) * 4 * bit_count (ss_rx_mask setup))
     \<and> sv_result v \<noteq> ADMITTED"

text \<open>Visits of the set-up, numbered from zero, in the order of the source counter, each with its IQ bytes.\<close>

definition lawful_visits :: "scan_setup \<Rightarrow> scan_item list \<Rightarrow> bool" where
  "lawful_visits setup vs \<longleftrightarrow>
     (\<forall>i < length vs. visit_of setup (fst (vs ! i)) \<and> sv_visit (fst (vs ! i)) = int i
        \<and> int (length (snd (vs ! i))) = sv_iq_bytes (fst (vs ! i)))
     \<and> (\<forall>i. Suc i < length vs \<longrightarrow> sv_valid_end (fst (vs ! i)) \<le> sv_transition_before (fst (vs ! Suc i)))"

definition tally :: "visit_result set \<Rightarrow> scan_item list \<Rightarrow> int" where
  "tally R vs = int (length (filter (\<lambda>v. sv_result (fst v) \<in> R) vs))"

definition closing_terminal :: "scan_setup \<Rightarrow> scan_item list \<Rightarrow> scan_terminal \<Rightarrow> bool" where
  "closing_terminal setup vs t \<longleftrightarrow>
     sx_session t = ss_session setup \<and> sx_generation t = ss_generation setup \<and> sx_planned t = int (length vs)
     \<and> sx_delivered t = tally {VISIT_COMPLETE} vs \<and> sx_skipped t = tally {SKIP_CAPACITY, SKIP_AGE} vs
     \<and> sx_invalid t = tally {INVALID_GAP} vs \<and> sx_cancelled t = tally {VISIT_CANCELLED} vs
     \<and> sx_iq_bytes t = sum_list (map (\<lambda>v. int (length (snd v))) vs)
     \<and> (vs \<noteq> [] \<longrightarrow> sv_valid_end (fst (last vs)) \<le> sx_final_counter t)"

lemma lawful_append:
  "lawful_visits setup (vs @ [(v, iq)]) \<longleftrightarrow>
     lawful_visits setup vs \<and> visit_of setup v \<and> sv_visit v = int (length vs) \<and> int (length iq) = sv_iq_bytes v
     \<and> (vs \<noteq> [] \<longrightarrow> sv_valid_end (fst (last vs)) \<le> sv_transition_before v)"
proof -
  have "(\<forall>i. Suc i < length (vs @ [(v, iq)]) \<longrightarrow>
      sv_valid_end (fst ((vs @ [(v, iq)]) ! i)) \<le> sv_transition_before (fst ((vs @ [(v, iq)]) ! Suc i))) \<longleftrightarrow>
    (\<forall>i. Suc i < length vs \<longrightarrow> sv_valid_end (fst (vs ! i)) \<le> sv_transition_before (fst (vs ! Suc i)))
    \<and> (vs \<noteq> [] \<longrightarrow> sv_valid_end (fst (last vs)) \<le> sv_transition_before v)"
  proof (cases "vs = []")
    case False
    then have split: "Suc i < length (vs @ [(v, iq)]) \<longleftrightarrow> Suc i < length vs \<or> i = length vs - 1" for i by auto
    from False show ?thesis unfolding split by (auto simp: nth_append last_conv_nth)
  qed simp
  then show ?thesis by (auto simp: lawful_visits_def nth_append less_Suc_eq)
qed

lemma lawful_prefix: "lawful_visits setup (vs @ ws) \<Longrightarrow> lawful_visits setup vs"
proof (induction ws rule: rev_induct)
  case (snoc w ws)
  then show ?case using lawful_append [of "setup" "vs @ ws" "fst w" "snd w"] by simp
qed simp

text \<open>The wire form of a stream.\<close>

definition visit_wire :: "scan_item \<Rightarrow> bytes result" where
  "visit_wire v = bindE (visit_pack (fst v)) (\<lambda>raw. Inr (dec_line 160 @ raw @ dec_line (length (snd v)) @ snd v))"

definition stream_wire :: "scan_item list \<Rightarrow> scan_terminal \<Rightarrow> bytes result" where
  "stream_wire vs t =
     bindE (mapE visit_wire vs) (\<lambda>wires. bindE (terminal_pack t) (\<lambda>raw.
       Inr (concat wires @ dec_line 128 @ raw @ dec_line 0)))"

section \<open>The counters of a session\<close>

definition ledger :: "scan_setup \<Rightarrow> 'doc scan_session \<Rightarrow> scan_item list \<Rightarrow> bool" where
  "ledger setup s vs \<longleftrightarrow>
     sn_setup s = setup \<and> sn_visit_count s = int (length vs)
     \<and> sn_last_visit s = (if vs = [] then None else Some (int (length vs) - 1))
     \<and> sn_last_valid_end s = (if vs = [] then None else Some (sv_valid_end (fst (last vs))))
     \<and> sn_iq_bytes s = sum_list (map (\<lambda>v. int (length (snd v))) vs)
     \<and> sn_delivered s = tally {VISIT_COMPLETE} vs \<and> sn_skipped s = tally {SKIP_CAPACITY, SKIP_AGE} vs
     \<and> sn_invalid s = tally {INVALID_GAP} vs \<and> sn_cancelled s = tally {VISIT_CANCELLED} vs"

lemma ledger_new: "ledger setup (session_new inbox sent device setup) []"
  by (simp add: ledger_def session_new_def tally_def)

lemma session_new_fields [simp]:
  "sn_inbox (session_new inbox sent device setup) = inbox" "sn_terminal (session_new inbox sent device setup) = None"
  "sn_closed (session_new inbox sent device setup) = False" "sn_connected (session_new inbox sent device setup) = True"
  "sn_iterated (session_new inbox sent device setup) = False"
  by (simp_all add: session_new_def)

lemma ledger_inbox [simp]: "ledger setup (s\<lparr>sn_inbox := c\<rparr>) vs \<longleftrightarrow> ledger setup s vs"
  by (simp add: ledger_def)

lemma ledger_iterated [simp]: "ledger setup (s\<lparr>sn_iterated := b\<rparr>) vs \<longleftrightarrow> ledger setup s vs"
  by (simp add: ledger_def)

lemma ledger_visit_checks:
  "ledger setup s vs \<Longrightarrow> checks (visit_checks s v) = Inr () \<longleftrightarrow>
     visit_of setup v \<and> sv_visit v = int (length vs)
     \<and> (vs \<noteq> [] \<longrightarrow> sv_valid_end (fst (last vs)) \<le> sv_transition_before v)"
  by (auto simp: ledger_def visit_checks_def visit_of_def Let_def not_less)

lemma ledger_count:
  assumes "ledger setup s vs" and "sv_visit v = int (length vs)" and "sv_result v \<noteq> ADMITTED"
    and "int (length iq) = sv_iq_bytes v"
  shows "ledger setup (count_visit v s) (vs @ [(v, iq)])"
  using assms by (cases "sv_result v") (simp_all add: ledger_def count_visit_def Let_def tally_def)

lemma ledger_terminal_checks:
  "ledger setup s vs \<Longrightarrow> checks (terminal_checks s t) = Inr () \<longleftrightarrow> closing_terminal setup vs t"
  by (auto simp: ledger_def terminal_checks_def closing_terminal_def not_less)

lemma count_visit_keeps [simp]:
  "sn_inbox (count_visit v s) = sn_inbox s" "sn_terminal (count_visit v s) = sn_terminal s"
  "sn_closed (count_visit v s) = sn_closed s" "sn_failure (count_visit v s) = sn_failure s"
  "sn_connected (count_visit v s) = sn_connected s"
  by (cases "sv_result v"; simp add: count_visit_def Let_def)+

lemma capture_keeps [simp]:
  "sn_inbox (capture_diagnostics server reader s) = sn_inbox s"
  "sn_terminal (capture_diagnostics server reader s) = sn_terminal s"
  "sn_closed (capture_diagnostics server reader s) = sn_closed s"
  "sn_connected (capture_diagnostics server reader s) = sn_connected s"
  "ledger setup (capture_diagnostics server reader s) vs = ledger setup s vs"
  by (simp_all add: capture_diagnostics_def ledger_def)

section \<open>One turn, given the bytes\<close>

lemma on_inbox_takes:
  assumes "takes f bs x" and "clean (sn_inbox s)" and "arrived (sn_inbox s) = bs @ rest"
  obtains c where "on_inbox f s = (s\<lparr>sn_inbox := c\<rparr>, Inr x)" "clean c" "arrived c = rest"
  using takesE [OF assms] by (metis on_inbox_def case_prod_conv)

lemma visit_iq_bound: "visit_pack v = Inr raw \<Longrightarrow> 0 \<le> sv_iq_bytes v \<and> sv_iq_bytes v < 10 ^ 31"
  by (auto simp: visit_pack_def scan_pack_def bindE_Inr_iff struct_pack_Inr visit_fmt_def visit_fields_def)

lemma turn_visit:
  assumes pack: "visit_pack v = Inr raw" and iq: "int (length iq) = sv_iq_bytes v"
    and clean: "clean (sn_inbox s)"
    and bytes: "arrived (sn_inbox s) = dec_line 160 @ raw @ dec_line (length iq) @ iq @ rest"
    and ok: "checks (visit_checks s v) = Inr ()"
  obtains c where "visits_turn server reader s = ((count_visit v s)\<lparr>sn_inbox := c\<rparr>, Inr (Some (v, iq)))"
    and "clean c" and "arrived c = rest"
proof -
  have len: "length raw = 160" by (rule visit_size [OF pack])
  have dec: "visit_unpack raw = Inr v" using pack by (simp add: visit_codec)
  have small: "length iq < 10 ^ 31" using visit_iq_bound [OF pack] iq by simp
  obtain c1 where 1: "on_inbox success_integer s = (s\<lparr>sn_inbox := c1\<rparr>, Inr (int 160))" "clean c1"
      "arrived c1 = raw @ dec_line (length iq) @ iq @ rest"
    by (rule on_inbox_takes [OF takes_integer [of 160] clean bytes]) simp_all
  have "takes (scan_exact 160 []) raw raw" using takes_exact [of raw] len by simp
  then obtain c2 where 2: "on_inbox (scan_exact 160 []) (s\<lparr>sn_inbox := c1\<rparr>) = (s\<lparr>sn_inbox := c2\<rparr>, Inr raw)" "clean c2"
      "arrived c2 = dec_line (length iq) @ iq @ rest"
    using on_inbox_takes [of "scan_exact 160 []" raw raw "s\<lparr>sn_inbox := c1\<rparr>"] 1(2,3) by auto
  have ok2: "checks (visit_checks (s\<lparr>sn_inbox := c2\<rparr>) v) = Inr ()"
    using ok by (simp add: visit_checks_def)
  let ?s = "count_visit v (s\<lparr>sn_inbox := c2\<rparr>)"
  obtain c3 where 3: "on_inbox success_integer ?s = (?s\<lparr>sn_inbox := c3\<rparr>, Inr (int (length iq)))" "clean c3"
      "arrived c3 = iq @ rest"
    using on_inbox_takes [OF takes_integer [OF small], of ?s] 2(2,3) by auto
  obtain c4 where 4: "on_inbox (scan_exact (length iq) []) (?s\<lparr>sn_inbox := c3\<rparr>) = (?s\<lparr>sn_inbox := c4\<rparr>, Inr iq)" "clean c4"
      "arrived c4 = rest"
    using on_inbox_takes [OF takes_exact [of iq], of "?s\<lparr>sn_inbox := c3\<rparr>"] 3(2,3) by auto
  have "?s\<lparr>sn_inbox := c4\<rparr> = (count_visit v s)\<lparr>sn_inbox := c4\<rparr>"
    by (cases "sv_result v") (simp_all add: count_visit_def Let_def)
  then have "visits_turn server reader s = ((count_visit v s)\<lparr>sn_inbox := c4\<rparr>, Inr (Some (v, iq)))"
    using 1(1) 2(1) 3(1) 4(1) dec ok2 by (simp add: visits_turn_def read_visit_def validate_visit_def iq [symmetric])
  with 4 that show thesis by blast
qed

lemma turn_terminal:
  assumes pack: "terminal_pack t = Inr raw" and clean: "clean (sn_inbox s)"
    and bytes: "arrived (sn_inbox s) = dec_line 128 @ raw @ dec_line 0 @ rest"
    and ok: "checks (terminal_checks s t) = Inr ()"
  obtains s' where "visits_turn server reader s = (s', Inr None)" and "sn_terminal s' = Some t"
    and "arrived (sn_inbox s') = rest" and "sn_closed s' = sn_closed s" and "sn_connected s' = sn_connected s"
proof -
  have len: "length raw = 128" by (rule terminal_size [OF pack])
  have dec: "terminal_unpack raw = Inr t" using pack by (simp add: terminal_codec)
  obtain c1 where 1: "on_inbox success_integer s = (s\<lparr>sn_inbox := c1\<rparr>, Inr (int 128))" "clean c1"
      "arrived c1 = raw @ dec_line 0 @ rest"
    by (rule on_inbox_takes [OF takes_integer [of 128] clean bytes]) simp_all
  have "takes (scan_exact 128 []) raw raw" using takes_exact [of raw] len by simp
  then obtain c2 where 2: "on_inbox (scan_exact 128 []) (s\<lparr>sn_inbox := c1\<rparr>) = (s\<lparr>sn_inbox := c2\<rparr>, Inr raw)" "clean c2"
      "arrived c2 = dec_line 0 @ rest"
    using on_inbox_takes [of "scan_exact 128 []" raw raw "s\<lparr>sn_inbox := c1\<rparr>"] 1(2,3) by auto
  obtain c3 where 3: "on_inbox success_integer (s\<lparr>sn_inbox := c2\<rparr>) = (s\<lparr>sn_inbox := c3\<rparr>, Inr (int 0))" "clean c3"
      "arrived c3 = rest"
    using on_inbox_takes [OF takes_integer [of 0], of "s\<lparr>sn_inbox := c2\<rparr>"] 2(2,3) by auto
  have ok3: "checks (terminal_checks (s\<lparr>sn_inbox := c3\<rparr>) t) = Inr ()"
    using ok by (simp add: terminal_checks_def)
  let ?s = "s\<lparr>sn_inbox := c3, sn_terminal := Some t\<rparr>"
  have "visits_turn server reader s = (if sx_error t \<noteq> 0 then capture_diagnostics server reader ?s else ?s, Inr None)"
    using 1(1) 2(1) 3(1) dec ok3 by (simp add: visits_turn_def read_terminal_def Let_def)
  with 3 that show thesis by (cases "sx_error t = 0") simp_all
qed

text \<open>A whole stream, from any point of it.\<close>

lemma loop_delivers:
  fixes s :: "'doc scan_session"
  assumes "ledger setup s done_visits" and "lawful_visits setup (done_visits @ vs)"
    and "closing_terminal setup (done_visits @ vs) t" and "stream_wire vs t = Inr bytes"
    and "clean (sn_inbox s)" and "arrived (sn_inbox s) = bytes @ rest" and "length vs < k"
  shows "\<exists>s'. visits_loop server reader k s = (s', vs, Finished) \<and> sn_terminal s' = Some t
     \<and> arrived (sn_inbox s') = rest \<and> sn_closed s' = sn_closed s \<and> sn_connected s' = sn_connected s"
  using assms
proof (induction vs arbitrary: s done_visits bytes k)
  case Nil
  then obtain raw where raw: "terminal_pack t = Inr raw" "bytes = dec_line 128 @ raw @ dec_line 0"
    by (auto simp: stream_wire_def bindE_Inr_iff)
  have ok: "checks (terminal_checks s t) = Inr ()"
    using ledger_terminal_checks [OF Nil.prems(1)] Nil.prems(3) by simp
  obtain s' where "visits_turn server reader s = (s', Inr None)" "sn_terminal s' = Some t" "arrived (sn_inbox s') = rest"
      "sn_closed s' = sn_closed s" "sn_connected s' = sn_connected s"
    by (rule turn_terminal [OF raw(1) Nil.prems(5) _ ok, of rest]) (use Nil.prems(6) raw(2) in simp_all)
  with Nil.prems(7) show ?case by (cases k) (simp_all add: visits_finally_def)
next
  case (Cons item vs)
  obtain v iq where item: "item = (v, iq)" by (cases item)
  from Cons.prems(4) item obtain raw bytes' where raw: "visit_pack v = Inr raw" and tl: "stream_wire vs t = Inr bytes'"
    and bytes: "bytes = (dec_line 160 @ raw @ dec_line (length iq) @ iq) @ bytes'"
    by (auto simp: stream_wire_def visit_wire_def bindE_Inr_iff)
  have "lawful_visits setup (done_visits @ [(v, iq)])"
    using Cons.prems(2) item lawful_prefix [of "setup" "done_visits @ [(v, iq)]" vs] by simp
  then have L: "visit_of setup v" "sv_visit v = int (length done_visits)" "int (length iq) = sv_iq_bytes v"
      "done_visits \<noteq> [] \<longrightarrow> sv_valid_end (fst (last done_visits)) \<le> sv_transition_before v"
    by (simp_all add: lawful_append)
  then have ok: "checks (visit_checks s v) = Inr ()"
    using ledger_visit_checks [OF Cons.prems(1)] by blast
  obtain c where turn: "visits_turn server reader s = ((count_visit v s)\<lparr>sn_inbox := c\<rparr>, Inr (Some (v, iq)))"
      "clean c" "arrived c = bytes' @ rest"
    by (rule turn_visit [OF raw L(3) Cons.prems(5) _ ok, of "bytes' @ rest"]) (use Cons.prems(6) bytes in simp_all)
  let ?s = "(count_visit v s)\<lparr>sn_inbox := c\<rparr>"
  have led: "ledger setup ?s (done_visits @ [(v, iq)])"
    using ledger_count [OF Cons.prems(1) L(2) _ L(3)] L(1) by (simp add: visit_of_def)
  from Cons.prems(7) obtain j where k: "k = Suc j" "length vs < j" by (cases k) simp_all
  have "\<exists>s'. visits_loop server reader j ?s = (s', vs, Finished) \<and> sn_terminal s' = Some t
      \<and> arrived (sn_inbox s') = rest \<and> sn_closed s' = sn_closed ?s \<and> sn_connected s' = sn_connected ?s"
    by (rule Cons.IH [OF led _ _ tl _ _ k(2)]) (use Cons.prems(2,3) item turn(2,3) in simp_all)
  with turn(1) k(1) item show ?case by auto
qed

section \<open>One turn, whatever arrives\<close>

lemma scan_exact_length: "length acc \<le> n \<Longrightarrow> scan_exact n acc c = (c', Inr bs) \<Longrightarrow> length bs = n"
proof (induction n acc c rule: scan_exact.induct)
  case (1 n acc c)
  show ?case
  proof (cases "n \<le> length acc")
    case True
    with 1 show ?thesis by (subst (asm) (2) scan_exact.simps) simp
  next
    case False
    with 1(3) obtain c1 b bs1 where R: "recv (n - length acc) c = (c1, Inr (b # bs1))"
      and rest: "scan_exact n (acc @ b # bs1) c1 = (c', Inr bs)"
      by (subst (asm) scan_exact.simps) (auto split: prod.splits sum.splits list.splits)
    have short: "length chunk \<le> m" if "recv m cc = (cc', Inr chunk)" for m cc cc' chunk
      using that by (induction m cc rule: recv.induct) auto
    from short [OF R] False have "length (acc @ b # bs1) \<le> n" by simp
    with 1(1) [OF False R [symmetric] refl refl] rest show ?thesis by blast
  qed
qed

lemma on_inbox_keeps:
  "on_inbox f s = (s', r) \<Longrightarrow> \<exists>c. s' = s\<lparr>sn_inbox := c\<rparr> \<and> f (sn_inbox s) = (c, r)"
  by (auto simp: on_inbox_def split: prod.splits)

lemma success_nonneg: "success_integer c = (c', Inr n) \<Longrightarrow> 0 \<le> n"
  by (auto simp: success_integer_def require_success_def bindS_Inr split: if_splits)

lemma validate_visit_Inr:
  "validate_visit s v = (s', Inr u) \<longleftrightarrow> checks (visit_checks s v) = Inr () \<and> s' = count_visit v s"
  by (auto simp: validate_visit_def split: sum.splits)

lemma visit_turn_ledger:
  assumes turn: "read_visit s = (s', Inr (Some (v, iq)))" and led: "ledger setup s vs" and law: "lawful_visits setup vs"
  shows "ledger setup s' (vs @ [(v, iq)]) \<and> lawful_visits setup (vs @ [(v, iq)]) \<and> sn_terminal s' = sn_terminal s"
proof -
  from turn obtain c2 c3 c4 n where ok: "checks (visit_checks (s\<lparr>sn_inbox := c2\<rparr>) v) = Inr ()"
    and n: "n = sv_iq_bytes v" and iq: "scan_exact (nat n) [] c3 = (c4, Inr iq)" and pos: "0 \<le> n"
    and s': "s' = (count_visit v (s\<lparr>sn_inbox := c2\<rparr>))\<lparr>sn_inbox := c4\<rparr>"
    unfolding read_visit_def bindS_Inr
    by (auto simp: validate_visit_Inr bindS_Inr split: if_splits dest!: on_inbox_keeps dest: success_nonneg)
  have len: "int (length iq) = sv_iq_bytes v" using scan_exact_length [OF _ iq] n pos by simp
  have led2: "ledger setup (s\<lparr>sn_inbox := c2\<rparr>) vs" using led by simp
  from ok have V: "visit_of setup v" "sv_visit v = int (length vs)"
      "vs \<noteq> [] \<longrightarrow> sv_valid_end (fst (last vs)) \<le> sv_transition_before v"
    using ledger_visit_checks [OF led2] by blast+
  from V(1) have "sv_result v \<noteq> ADMITTED" by (simp add: visit_of_def)
  with ledger_count [OF led2 V(2) _ len] V len law s' show ?thesis by (simp add: lawful_append)
qed

lemma read_visit_yields: "read_visit s = (s', Inr r) \<Longrightarrow> r \<noteq> None"
  unfolding read_visit_def bindS_Inr by (auto split: if_splits simp: bindS_Inr)

lemma read_visit_terminal: "sn_terminal (fst (read_visit s)) = sn_terminal s"
proof -
  have keep: "sn_terminal (fst (on_inbox f s)) = sn_terminal s" for f :: "arrival list \<Rightarrow> (arrival list, 'b) effect" and s
    by (simp add: on_inbox_def split: prod.splits)
  let ?P = "\<lambda>s1. sn_terminal s1 = sn_terminal s"
  show ?thesis
    unfolding read_visit_def
    by (intro bindS_keeps [where P = ?P]) (auto simp: keep validate_visit_def split: sum.splits intro!: bindS_keeps [where P = ?P])
qed

lemma terminal_turn:
  assumes "read_terminal server reader s = (s', Inr r)" and led: "ledger setup s vs"
  shows "r = None \<and> (\<exists>t. sn_terminal s' = Some t \<and> closing_terminal setup vs t) \<and> ledger setup s' vs"
proof -
  from assms(1) obtain c t where ok: "checks (terminal_checks (s\<lparr>sn_inbox := c\<rparr>) t) = Inr ()" and r: "r = None"
    and s': "s' = (if sx_error t \<noteq> 0 then capture_diagnostics server reader (s\<lparr>sn_inbox := c, sn_terminal := Some t\<rparr>)
        else s\<lparr>sn_inbox := c, sn_terminal := Some t\<rparr>)"
    unfolding read_terminal_def bindS_Inr Let_def
    by (auto simp: bindS_Inr split: if_splits dest!: on_inbox_keeps)
  from led have "ledger setup (s\<lparr>sn_inbox := c\<rparr>) vs" by simp
  with ok have "closing_terminal setup vs t" using ledger_terminal_checks by blast
  moreover have "ledger setup (s\<lparr>sn_inbox := c, sn_terminal := Some t\<rparr>) vs"
    using led by (simp add: ledger_def)
  ultimately show ?thesis using r s' by simp
qed

lemma read_terminal_error: "read_terminal server reader s = (s', Inl e) \<Longrightarrow> sn_terminal s' = sn_terminal s"
proof -
  have keep: "on_inbox f s = (s1, q) \<Longrightarrow> sn_terminal s1 = sn_terminal s"
    for f :: "arrival list \<Rightarrow> (arrival list, 'b) effect" and s s1 q
    by (auto dest: on_inbox_keeps)
  assume "read_terminal server reader s = (s', Inl e)"
  then show ?thesis
    unfolding read_terminal_def bindS_def Let_def
    by (auto split: prod.splits sum.splits if_splits dest!: keep)
qed

text \<open>All that a turn can do, in terms of the ledger.\<close>

lemma turn_cases:
  assumes turn: "visits_turn server reader s = (s', r)" and led: "ledger setup s vs" and law: "lawful_visits setup vs"
    and none: "sn_terminal s = None"
  shows "case r of
      Inl e \<Rightarrow> sn_terminal s' = None
    | Inr None \<Rightarrow> \<exists>t. sn_terminal s' = Some t \<and> closing_terminal setup vs t
    | Inr (Some item) \<Rightarrow> ledger setup s' (vs @ [item]) \<and> lawful_visits setup (vs @ [item]) \<and> sn_terminal s' = None"
proof -
  obtain c q where on: "on_inbox success_integer s = (s\<lparr>sn_inbox := c\<rparr>, q)"
    using on_inbox_keeps by (metis surj_pair)
  let ?s = "s\<lparr>sn_inbox := c\<rparr>"
  have led2: "ledger setup ?s vs" and none2: "sn_terminal ?s = None" using led none by simp_all
  show ?thesis
  proof (cases q)
    case (Inl e)
    with on turn none2 show ?thesis by (auto simp: visits_turn_def)
  next
    case (Inr n)
    consider "n = 160" | "n = 128" | "n \<noteq> 160" "n \<noteq> 128" by blast
    then show ?thesis
    proof cases
      case 1
      with on turn Inr have R: "read_visit ?s = (s', r)" by (simp add: visits_turn_def)
      show ?thesis
      proof (cases r)
        case (Inl e)
        with R none2 show ?thesis using read_visit_terminal [of ?s] by simp
      next
        case (Inr x)
        with R read_visit_yields obtain v iq where "x = Some (v, iq)" by (metis not_Some_eq surj_pair)
        with R Inr none2 visit_turn_ledger [OF _ led2 law] show ?thesis by auto
      qed
    next
      case 2
      with on turn Inr have R: "read_terminal server reader ?s = (s', r)" by (simp add: visits_turn_def)
      show ?thesis
      proof (cases r)
        case (Inl e)
        with R none2 show ?thesis using read_terminal_error by fastforce
      next
        case (Inr x)
        with terminal_turn [OF _ led2] R show ?thesis by fastforce
      qed
    next
      case 3
      with on turn Inr none2 show ?thesis by (auto simp: visits_turn_def)
    qed
  qed
qed

lemma finally_terminal [simp]: "sn_terminal (visits_finally server reader s) = sn_terminal s"
  by (simp add: visits_finally_def)

lemma loop_accounts:
  assumes "ledger setup s done_visits" and "lawful_visits setup done_visits" and "sn_terminal s = None"
    and "visits_loop server reader k s = (s', vs, x)"
  shows "lawful_visits setup (done_visits @ vs)
    \<and> (if x = Finished then \<exists>t. sn_terminal s' = Some t \<and> closing_terminal setup (done_visits @ vs) t
       else sn_terminal s' = None)"
  using assms
proof (induction k arbitrary: s done_visits vs)
  case (Suc k)
  obtain s1 r where turn: "visits_turn server reader s = (s1, r)" by (cases "visits_turn server reader s")
  note C = turn_cases [OF turn Suc.prems(1,2,3)]
  show ?case
  proof (cases r)
    case (Inl e)
    with turn Suc.prems C show ?thesis by auto
  next
    case (Inr y)
    show ?thesis
    proof (cases y)
      case None
      with Inr turn Suc.prems C show ?thesis by auto
    next
      case (Some item)
      with Inr C have led: "ledger setup s1 (done_visits @ [item])" "lawful_visits setup (done_visits @ [item])"
          "sn_terminal s1 = None" by simp_all
      from Suc.prems(4) turn Inr Some obtain ws where loop: "visits_loop server reader k s1 = (s', ws, x)" and vs: "vs = item # ws"
        by (auto split: prod.splits)
      have eq: "done_visits @ vs = (done_visits @ [item]) @ ws" using vs by simp
      show ?thesis unfolding eq by (rule Suc.IH [OF led loop])
    qed
  qed
qed auto

section \<open>Progress and release\<close>

definition left :: "arrival list \<Rightarrow> nat" where
  "left c = length (arrived c)"

lemma recv_left: "recv n c = (c', r) \<Longrightarrow> left c' \<le> left c"
  by (induction n c rule: recv.induct) (auto simp: left_def)

lemma recv_left_less: "recv n c = (c', Inr (b # bs)) \<Longrightarrow> left c' < left c"
proof (induction n c rule: recv.induct)
  case (4 n x xs rest)
  then show ?case by (cases n) (auto simp: left_def)
qed (auto simp: left_def)

lemma line_left: "scan_line acc c = (c', r) \<Longrightarrow> left c' \<le> left c \<and> (\<forall>x. r = Inr x \<longrightarrow> left c' < left c)"
proof (induction acc c rule: scan_line.induct)
  case (1 acc c)
  obtain c1 q where R: "recv 1 c = (c1, q)" by (cases "recv 1 c")
  show ?case
  proof (cases q)
    case (Inl e)
    with R 1(2) recv_left [OF R] show ?thesis by (subst (asm) scan_line.simps) auto
  next
    case (Inr chunk)
    show ?thesis
    proof (cases chunk)
      case Nil
      with R Inr 1(2) recv_left [OF R] show ?thesis by (subst (asm) scan_line.simps) auto
    next
      case (Cons b bs)
      have less: "left c1 < left c" by (rule recv_left_less) (use R Inr Cons in simp)
      show ?thesis
      proof (cases "b = 10 \<or> 31 \<le> length acc \<or> \<not> line_byte b")
        case True
        with R Inr Cons 1(2) less show ?thesis by (subst (asm) scan_line.simps) (auto split: if_splits)
      next
        case False
        with R Inr Cons 1(2) have "scan_line (acc @ [b]) c1 = (c', r)" by (subst (asm) scan_line.simps) simp
        with 1(1) [OF R [symmetric] Inr Cons] False less show ?thesis by fastforce
      qed
    qed
  qed
qed

lemma exact_left: "scan_exact n acc c = (c', r) \<Longrightarrow> left c' \<le> left c"
proof (induction n acc c rule: scan_exact.induct)
  case (1 n acc c)
  show ?case
  proof (cases "n \<le> length acc")
    case True
    with 1(2) show ?thesis by (subst (asm) scan_exact.simps) simp
  next
    case False
    obtain c1 q where R: "recv (n - length acc) c = (c1, q)" by (cases "recv (n - length acc) c")
    note le = recv_left [OF R]
    show ?thesis
    proof (cases q)
      case (Inl e)
      with R False 1(2) le show ?thesis by (subst (asm) scan_exact.simps) auto
    next
      case (Inr chunk)
      show ?thesis
      proof (cases chunk)
        case Nil
        with R Inr False 1(2) le show ?thesis by (subst (asm) scan_exact.simps) auto
      next
        case (Cons b bs)
        with R Inr False 1(2) have "scan_exact n (acc @ b # bs) c1 = (c', r)" by (subst (asm) scan_exact.simps) simp
        with 1(1) [OF False R [symmetric] Inr Cons] le show ?thesis by fastforce
      qed
    qed
  qed
qed

lemma integer_left: "success_integer c = (c', Inr n) \<Longrightarrow> left c' < left c"
  unfolding success_integer_def scan_integer_def bindS_Inr
  by (auto simp: bindS_Inr split: option.splits dest: line_left)

lemma read_visit_left: "read_visit s = (s', Inr x) \<Longrightarrow> left (sn_inbox s') \<le> left (sn_inbox s)"
  unfolding read_visit_def bindS_Inr
  by (auto simp: bindS_Inr validate_visit_Inr split: if_splits dest!: on_inbox_keeps exact_left integer_left)

lemma read_terminal_ends: "read_terminal server reader s = (s', Inr x) \<Longrightarrow> x = None"
  unfolding read_terminal_def bindS_Inr Let_def by (auto simp: bindS_Inr split: if_splits)

lemma turn_left: "visits_turn server reader s = (s', Inr (Some item)) \<Longrightarrow> left (sn_inbox s') < left (sn_inbox s)"
  unfolding visits_turn_def bindS_Inr
  by (auto split: if_splits dest!: on_inbox_keeps integer_left read_visit_left dest: read_terminal_ends)

lemma loop_ends: "left (sn_inbox s) < k \<Longrightarrow> visits_loop server reader k s = (s', vs, x) \<Longrightarrow> x \<noteq> Dropped"
proof (induction k arbitrary: s vs)
  case (Suc k)
  obtain s1 r where turn: "visits_turn server reader s = (s1, r)" by (cases "visits_turn server reader s")
  show ?case
  proof (cases r)
    case (Inr y)
    show ?thesis
    proof (cases y)
      case (Some item)
      with turn Inr have "left (sn_inbox s1) < k" using turn_left Suc.prems(1) by fastforce
      from Suc.IH [OF this] Suc.prems(2) turn Inr Some show ?thesis by (auto split: prod.splits)
    qed (use turn Inr Suc.prems(2) in auto)
  qed (use turn Suc.prems(2) in auto)
qed simp

text \<open>Whatever ended the loop, \<open>finally\<close> has run: a stream without a terminal is disconnected and diagnosed.\<close>

lemma finally_releases:
  "sn_terminal s = None \<Longrightarrow>
     sn_closed (visits_finally server reader s) \<and> \<not> sn_connected (visits_finally server reader s)
     \<and> sn_failure (visits_finally server reader s) \<noteq> None"
  by (auto simp: visits_finally_def capture_diagnostics_def)

lemma loop_releases:
  "visits_loop server reader k s = (s', vs, x) \<Longrightarrow> sn_terminal s' = None \<Longrightarrow>
     sn_closed s' \<and> \<not> sn_connected s' \<and> sn_failure s' \<noteq> None"
proof (induction k arbitrary: s vs)
  case 0
  then show ?case using finally_releases [where s = s and server = server and reader = reader] by auto
next
  case (Suc k)
  obtain s1 r where turn: "visits_turn server reader s = (s1, r)" by (cases "visits_turn server reader s")
  note released = finally_releases [where s = s1 and server = server and reader = reader]
  show ?case
  proof (cases r)
    case (Inl e)
    with turn Suc.prems released show ?thesis by auto
  next
    case (Inr y)
    with turn Suc.prems Suc.IH [of s1] released show ?thesis by (cases y) (auto split: prod.splits)
  qed
qed

lemma close_releases: "sn_closed (fst (session_close s)) \<and> (sn_connected s \<longrightarrow> \<not> sn_closed s \<longrightarrow> \<not> sn_connected (fst (session_close s)))
    \<and> (\<not> sn_connected s \<longrightarrow> \<not> sn_connected (fst (session_close s)))"
  by (auto simp: session_close_def on_inbox_def split: prod.splits)

text \<open>A session with a terminal is not closed by its iteration: the connection is kept for \<open>CLOSE\<close>.\<close>

lemma inbox_open: "on_inbox f s = (s', q) \<Longrightarrow> sn_closed s' = sn_closed s"
  by (auto dest: on_inbox_keeps)

lemma read_visit_open: "read_visit s = (s', r) \<Longrightarrow> sn_closed s' = sn_closed s"
  unfolding read_visit_def bindS_def validate_visit_def
  by (auto split: prod.splits sum.splits if_splits dest!: inbox_open)

lemma read_terminal_open: "read_terminal server reader s = (s', r) \<Longrightarrow> sn_closed s' = sn_closed s"
  unfolding read_terminal_def bindS_def Let_def
  by (auto split: prod.splits sum.splits if_splits dest!: inbox_open)

lemma turn_open: "visits_turn server reader s = (s', r) \<Longrightarrow> sn_closed s' = sn_closed s"
  unfolding visits_turn_def bindS_def
  by (auto split: prod.splits sum.splits if_splits dest!: inbox_open read_visit_open read_terminal_open)

lemma loop_closed:
  "visits_loop server reader k s = (s', vs, x) \<Longrightarrow> \<not> sn_closed s \<Longrightarrow> sn_terminal s' \<noteq> None \<Longrightarrow>
     sn_closed s' \<longrightarrow> \<not> sn_connected s'"
proof (induction k arbitrary: s vs)
  case 0
  then show ?case by (auto simp: visits_finally_def split: if_splits)
next
  case (Suc k)
  obtain s1 r where turn: "visits_turn server reader s = (s1, r)" by (cases "visits_turn server reader s")
  then have "\<not> sn_closed s1" using turn_open Suc.prems(2) by metis
  with turn Suc.prems Suc.IH [of s1] show ?case
    by (cases r) (auto simp: visits_finally_def split: prod.splits option.splits if_splits)
qed

end
