(* ===== verification/Scan_Properties.thy ===== *)
theory Scan_Properties
  imports Scan_Ledger
begin

text \<open>
  The properties of an adaptive scan: its records are bijective encodings that reject every corrupted byte, its stream
  is delivered exactly however it is cut, and a session accounts for what it delivered and is always released.
\<close>

section \<open>A small scan\<close>

definition sample_target :: scan_target where
  "sample_target = \<lparr>st_channel = 0, st_profile = 0, st_frequency_hz = 100000000, st_baseline_weight = 1,
     st_profile_crc32 = 1\<rparr>"

definition sample_setup :: scan_setup where
  "sample_setup = \<lparr>ss_session = 1, ss_generation = 1, ss_seed = 1, ss_source_rate_hz = 2500000,
     ss_analog_bandwidth_hz = 200000, ss_duration_ms = 1000, ss_dwell_ms = 20, ss_transition_budget_ms = 1,
     ss_maximum_revisit_ms = 1000, ss_feedback_age_ms = 1, ss_application_delay_ms = 100, ss_decay_ms = 1,
     ss_maximum_boost = 1, ss_maximum_queue_bytes = 1, ss_maximum_queue_age_ms = 1, ss_maximum_queue_visits = 1,
     ss_analysis_digest = replicate 32 1, ss_targets = [sample_target], ss_rx_mask = 1, ss_format = 1, ss_flags = 1,
     ss_protocol_version = 1\<rparr>"

definition sample_visit :: scan_visit where
  "sample_visit = \<lparr>sv_session = 1, sv_generation = 1, sv_visit = 0, sv_selection_counter = 0,
     sv_transition_before = 0, sv_transition_after = 0, sv_valid_start = 0, sv_valid_end = 1,
     sv_frequency_hz = 100000000, sv_iq_bytes = 4, sv_missing_samples_before = 0, sv_analog_bandwidth_hz = 200000,
     sv_source_rate_hz = 2500000, sv_target = 0, sv_profile = 0, sv_result = VISIT_COMPLETE, sv_eligible_mask = 1,
     sv_effective_weight = 1, sv_profile_crc32 = 1, sv_flags = 1, sv_protocol_version = 1, sv_gain_counter = 0,
     sv_gain_read_duration_ns = 0, sv_rx1_gain_index = 0, sv_rx2_gain_index = 0, sv_gain_valid = False\<rparr>"

definition sample_terminal :: scan_terminal where
  "sample_terminal = \<lparr>sx_session = 1, sx_generation = 1, sx_final_counter = 1, sx_restore_before = 1,
     sx_restore_after = 1, sx_planned = 1, sx_delivered = 1, sx_skipped = 0, sx_invalid = 0, sx_cancelled = 0,
     sx_iq_bytes = 4, sx_state = TS_COMPLETED, sx_reason = 0, sx_error = 0, sx_flags = 1\<rparr>"

definition sample_items :: "scan_item list" where
  "sample_items = [(sample_visit, [1, 2, 3, 4])]"

definition packed :: "'a result \<Rightarrow> bool" where
  "packed r \<longleftrightarrow> (\<exists>x. r = Inr x)"

lemma packed_pack:
  assumes "validate x = Inr ()" and "list_all2 packable fmt (values x)" and "length magic = 4"
    and "in_uint 16 (version x)" and "in_uint 16 (int (struct_size fmt) + 20)" and "in_uint 32 (flags x)"
  shows "packed (scan_pack magic fmt values validate version flags x)"
proof -
  have "length (struct_bytes fmt (values x)) = struct_size fmt"
    using assms(2) by (simp add: length_struct_bytes list_all2_lengthD)
  with assms show ?thesis
    by (simp add: packed_def scan_pack_def struct_pack_def scan_seal_Inr Let_def)
qed

lemma sample_setup_packs: "packed (setup_pack sample_setup)"
  unfolding setup_pack_def
  by (rule packed_pack)
    (simp_all add: setup_validate_def setup_limits_def sample_setup_def sample_target_def rate_valid_def
      SUPPORTED_RATES_def within_range_def digest_guard_def target_checks_def Let_def setup_fmt_def setup_fields_def
      in_uint_def struct_size_def list_ex_iff)

lemma sample_visit_packs: "packed (visit_pack sample_visit)"
  unfolding visit_pack_def
  by (rule packed_pack)
    (simp_all add: visit_guard_def visit_gain_bad_def sample_visit_def rate_valid_def SUPPORTED_RATES_def
      within_range_def extra_def has_def Let_def visit_fmt_def visit_fields_def in_uint_def struct_size_def)

lemma sample_terminal_packs: "packed (terminal_pack sample_terminal)"
  unfolding terminal_pack_def
  by (rule packed_pack)
    (simp_all add: terminal_guard_def sample_terminal_def terminal_fmt_def terminal_fields_def in_uint_def in_sint_def
      struct_size_def)

lemma sample_stream: "packed (stream_wire sample_items sample_terminal)"
  using sample_visit_packs sample_terminal_packs
  by (auto simp: packed_def stream_wire_def sample_items_def visit_wire_def)

lemma sample_bits: "bit_count 1 = 1"
  by code_simp

lemma sample_lawful: "lawful_visits sample_setup sample_items"
  by (simp add: lawful_visits_def sample_items_def visit_of_def sample_setup_def sample_visit_def sample_target_def
      visit_target_def sample_bits)

lemma sample_closing: "closing_terminal sample_setup sample_items sample_terminal"
  by (simp add: closing_terminal_def sample_setup_def sample_items_def sample_terminal_def sample_visit_def tally_def)

section \<open>Records\<close>

text \<open>
  C20: The six records of an adaptive scan are bijective encodings: a record packs into exactly the packets that unpack
  to it, so decoding an encoded record gives it back and an accepted packet is the canonical one of what it says.
\<close>

theorem scan_records_bijective:
  "(caps_pack c = Inr raw \<longleftrightarrow> caps_unpack raw = Inr c) \<and> (setup_pack s = Inr raw \<longleftrightarrow> setup_unpack raw = Inr s)
   \<and> (feedback_pack f = Inr raw \<longleftrightarrow> feedback_unpack raw = Inr f)
   \<and> (visit_pack v = Inr raw \<longleftrightarrow> visit_unpack raw = Inr v) \<and> (ack_pack a = Inr raw \<longleftrightarrow> ack_unpack raw = Inr a)
   \<and> (terminal_pack t = Inr raw \<longleftrightarrow> terminal_unpack raw = Inr t)"
  by (intro conjI caps_codec setup_codec feedback_codec visit_codec ack_codec terminal_codec)

definition refused :: "'a result \<Rightarrow> bool" where
  "refused r \<longleftrightarrow> (\<exists>m. r = Inl (ScanProtocolError m))"

lemma corruption_length: "c \<in> set (corruptions raw) \<Longrightarrow> length c = length raw"
  by (auto simp: corruptions_def)

lemma visit_corruption:
  assumes "visit_pack v = Inr raw" and "c \<in> set (corruptions raw)"
  shows "refused (visit_unpack c)"
  using scan_visit.corruption_rejected [OF assms] visit_size [OF assms(1)] corruption_length [OF assms(2)]
  by (simp add: refused_def visit_unpack_def checks_eval)

lemma terminal_corruption:
  assumes "terminal_pack t = Inr raw" and "c \<in> set (corruptions raw)"
  shows "refused (terminal_unpack c)"
  using scan_terminal.corruption_rejected [OF assms] terminal_size [OF assms(1)] corruption_length [OF assms(2)]
  by (simp add: refused_def terminal_unpack_def checks_eval)

lemmas layout_corruption =
  scan_caps.corruption_rejected [folded caps_unpack_def refused_def]
  scan_setup.corruption_rejected [folded setup_unpack_def refused_def]
  scan_feedback.corruption_rejected [folded feedback_unpack_def refused_def]
  scan_ack.corruption_rejected [folded ack_unpack_def refused_def]

text \<open>
  C19: No record survives the corruption of a byte: each packet that \<open>corruptions\<close> derives from a packed record, of any
  of the six types, is refused with the protocol error.
\<close>

theorem corrupted_scan_record_is_refused:
  assumes "c \<in> set (corruptions raw)"
  shows "(caps_pack caps = Inr raw \<longrightarrow> refused (caps_unpack c)) \<and> (setup_pack setup = Inr raw \<longrightarrow> refused (setup_unpack c))
    \<and> (feedback_pack feedback = Inr raw \<longrightarrow> refused (feedback_unpack c))
    \<and> (visit_pack visit = Inr raw \<longrightarrow> refused (visit_unpack c)) \<and> (ack_pack ack = Inr raw \<longrightarrow> refused (ack_unpack c))
    \<and> (terminal_pack terminal = Inr raw \<longrightarrow> refused (terminal_unpack c))"
  using assms(1) by (blast intro: layout_corruption visit_corruption terminal_corruption)

theorem corrupted_scan_record_is_refused_witness:
  "\<exists>raw. visit_pack sample_visit = Inr raw \<and> refused (visit_unpack (raw[7 := raw ! 7 XOR 0x80]))"
proof -
  obtain raw where raw: "visit_pack sample_visit = Inr raw" using sample_visit_packs by (auto simp: packed_def)
  then have "raw[7 := raw ! 7 XOR 0x80] \<in> set (corruptions raw)"
    using visit_size [OF raw] by (auto simp: corruptions_def)
  from corrupted_scan_record_is_refused [OF this, of _ _ _ sample_visit] raw show ?thesis by blast
qed

section \<open>The stream\<close>

text \<open>
  C17: An admitted set-up whose server answers OPENM and then sends a lawful stream, cut into segments in any way, starts
  a session whose iteration yields exactly the visits of the stream with their IQ bytes, ends with its terminal, leaves
  the rest of the socket unread and the connection open for CLOSE.
\<close>

theorem scan_stream_is_delivered:
  fixes reader :: "'doc json_reader"
  assumes "start_mask setup samples chosen = Inr m" and "setup_pack setup = Inr request"
    and "lawful_visits setup vs" and "closing_terminal setup vs t" and "stream_wire vs t = Inr bytes"
    and "clean inbox" and "arrived inbox = dec_line n @ bytes @ rest" and "n < 10 ^ 31" and "length vs < k"
  shows "\<exists>s s'. scan_start inbox setup device samples chosen = Inr s \<and> visits server reader k s = (s', vs, Finished)
    \<and> sn_terminal s' = Some t \<and> arrived (sn_inbox s') = rest \<and> sn_connected s'"
proof -
  obtain c where c: "success_integer inbox = (c, Inr (int n))" "clean c" "arrived c = bytes @ rest"
    by (rule takesE [OF takes_integer [OF assms(8)] assms(6,7)])
  let ?s = "session_new c (open_request device samples m request @ command [''READSCAN'', device]) device setup :: 'doc scan_session"
  have start: "scan_start inbox setup device samples chosen = Inr ?s"
    using assms(1,2) c(1) by (simp add: scan_start_def)
  have "\<exists>s'. visits_loop server reader k (?s\<lparr>sn_iterated := True\<rparr>) = (s', vs, Finished) \<and> sn_terminal s' = Some t
     \<and> arrived (sn_inbox s') = rest \<and> sn_closed s' = sn_closed (?s\<lparr>sn_iterated := True\<rparr>)
     \<and> sn_connected s' = sn_connected (?s\<lparr>sn_iterated := True\<rparr>)"
    by (rule loop_delivers [where done_visits = "[]" and bytes = bytes])
      (use assms(3,4,5,9) c in \<open>simp_all add: ledger_new\<close>)
  moreover have "0 < k" using assms(9) by simp
  ultimately show ?thesis using start by (auto simp: visits_def)
qed

definition sample_wire :: bytes where
  "sample_wire = (case stream_wire sample_items sample_terminal of Inl _ \<Rightarrow> [] | Inr bs \<Rightarrow> bs)"

text \<open>The stream, three bytes in the first segment.\<close>

definition sample_inbox :: "arrival list" where
  "sample_inbox = [Data (take 3 (dec_line 0 @ sample_wire)), Data [], Data (drop 3 (dec_line 0 @ sample_wire))]"

lemma sample_wire_bytes: "stream_wire sample_items sample_terminal = Inr sample_wire"
  using sample_stream by (auto simp: packed_def sample_wire_def)

lemma sample_arrived: "clean sample_inbox" "arrived sample_inbox = dec_line 0 @ sample_wire @ []"
  unfolding sample_inbox_def by (simp, simp only: arrived.simps arrival.case append_Nil append_Nil2 append_take_drop_id)

theorem scan_stream_is_delivered_witness:
  "\<exists>s s'. scan_start sample_inbox sample_setup ''adc'' 2 None = Inr s
    \<and> visits (\<lambda>_. []) \<lparr>jr_loads = \<lambda>_. Inl (ValueError ''''), jr_identity = \<lambda>_ :: unit. None\<rparr> 5 s = (s', sample_items, Finished)
    \<and> sn_terminal s' = Some sample_terminal \<and> arrived (sn_inbox s') = [] \<and> sn_connected s'"
proof -
  obtain request where request: "setup_pack sample_setup = Inr request" using sample_setup_packs by (auto simp: packed_def)
  have mask: "start_mask sample_setup 2 None = Inr ''00000003''"
    by (simp add: start_mask_def rx_scan_mask_def sample_setup_def)
  have "length sample_items < 5" by (simp add: sample_items_def)
  from scan_stream_is_delivered [OF mask request sample_lawful sample_closing sample_wire_bytes sample_arrived _ this]
  show ?thesis by simp
qed

text \<open>
  C18: Whatever arrives on the socket of a session and however often its consumer asks, the visits it passes on are
  lawful for the set-up: numbered from zero, of its targets, in the order of the source counter, each with as many IQ
  bytes as it announces. The iteration ends normally exactly with a terminal that accounts for them.
\<close>

theorem scan_visits_account:
  assumes "visits server reader k (session_new inbox sent device setup) = (s', vs, x)"
  shows "lawful_visits setup vs
    \<and> (if x = Finished then \<exists>t. sn_terminal s' = Some t \<and> closing_terminal setup vs t else sn_terminal s' = None)"
proof (cases "k = 0")
  case True
  with assms show ?thesis by (auto simp: visits_def session_new_def lawful_visits_def)
next
  case False
  let ?s = "(session_new inbox sent device setup)\<lparr>sn_iterated := True\<rparr>"
  have "visits_loop server reader k ?s = (s', vs, x)"
    using assms False by (simp add: visits_def)
  then have "lawful_visits setup ([] @ vs) \<and> (if x = Finished
      then \<exists>t. sn_terminal s' = Some t \<and> closing_terminal setup ([] @ vs) t else sn_terminal s' = None)"
    by (intro loop_accounts [where s = ?s]) (simp_all add: ledger_new lawful_visits_def)
  then show ?thesis unfolding append_Nil .
qed

theorem scan_visits_account_witness:
  "\<exists>s'. visits (\<lambda>_. []) \<lparr>jr_loads = \<lambda>_. Inl (ValueError ''''), jr_identity = \<lambda>_ :: unit. None\<rparr> 3
      (session_new [Data sample_wire] [] ''adc'' sample_setup) = (s', sample_items, Finished)
    \<and> lawful_visits sample_setup sample_items
    \<and> (\<exists>t. sn_terminal s' = Some t \<and> closing_terminal sample_setup sample_items t)"
proof -
  let ?r = "\<lparr>jr_loads = \<lambda>_. Inl (ValueError ''''), jr_identity = \<lambda>_ :: unit. None\<rparr>"
  let ?s = "session_new [Data sample_wire] [] ''adc'' sample_setup"
  have led: "ledger sample_setup (?s\<lparr>sn_iterated := True\<rparr>) []" by (simp add: ledger_new)
  have "\<exists>s'. visits_loop (\<lambda>_. []) ?r 3 (?s\<lparr>sn_iterated := True\<rparr>) = (s', sample_items, Finished)"
    using loop_delivers [OF led, where vs = sample_items and t = sample_terminal and bytes = sample_wire and rest = "[]"
        and k = 3 and server = "\<lambda>_. []" and reader = ?r]
      sample_lawful sample_closing sample_wire_bytes
    by (auto simp: sample_items_def)
  then obtain s' where run: "visits (\<lambda>_. []) ?r 3 ?s = (s', sample_items, Finished)"
    by (auto simp: visits_def)
  from scan_visits_account [OF run] run show ?thesis by auto
qed

text \<open>
  C21: A scan session cannot hang or leak: asked more often than bytes arrive, its iteration ends, with a terminal or with
  an exception. However it ends, even dropped by the consumer, a session without a terminal is closed and disconnected
  with its diagnostics recorded, and after \<open>close\<close> every session is closed and disconnected, error or not.
\<close>

theorem scan_session_is_released:
  assumes "visits server reader (Suc k) (session_new inbox sent device setup) = (s', vs, x)"
  shows "(length (arrived inbox) \<le> k \<longrightarrow> x \<noteq> Dropped)
    \<and> (sn_terminal s' = None \<longrightarrow> sn_closed s' \<and> \<not> sn_connected s' \<and> sn_failure s' \<noteq> None)
    \<and> sn_closed (fst (session_close s')) \<and> \<not> sn_connected (fst (session_close s'))"
proof -
  let ?s = "(session_new inbox sent device setup)\<lparr>sn_iterated := True\<rparr>"
  have loop: "visits_loop server reader (Suc k) ?s = (s', vs, x)"
    using assms by (simp add: visits_def)
  have "left (sn_inbox ?s) = length (arrived inbox)" by (simp add: left_def)
  then have "length (arrived inbox) \<le> k \<longrightarrow> x \<noteq> Dropped" using loop_ends [OF _ loop] by (metis less_Suc_eq_le)
  moreover note loop_releases [OF loop] close_releases [of s']
  moreover have "sn_terminal s' \<noteq> None \<Longrightarrow> sn_closed s' \<longrightarrow> \<not> sn_connected s'"
    by (rule loop_closed [OF loop]) simp_all
  ultimately show ?thesis by blast
qed

theorem scan_session_is_released_witness:
  "case visits (\<lambda>_. []) \<lparr>jr_loads = \<lambda>_. Inl (ValueError ''''), jr_identity = \<lambda>_ :: unit. None\<rparr> (Suc (Suc (Suc 0)))
      (session_new [Data [0x31, 0x36], Fault OSError] [] ''adc'' sample_setup) of
    (s', vs, x) \<Rightarrow> vs = [] \<and> x = Raised OSError \<and> sn_closed s' \<and> \<not> sn_connected s'
      \<and> \<not> sn_connected (fst (session_close s'))"
proof -
  let ?r = "\<lparr>jr_loads = \<lambda>_. Inl (ValueError ''''), jr_identity = \<lambda>_ :: unit. None\<rparr>"
  let ?s = "session_new [Data [0x31, 0x36], Fault OSError] [] ''adc'' sample_setup"
  obtain s' vs x where run: "visits (\<lambda>_. []) ?r (Suc (Suc (Suc 0))) ?s = (s', vs, x)" by (metis surj_pair)
  have "vs = [] \<and> x = Raised OSError \<and> sn_terminal s' = None"
    using run
    by (auto simp: visits_def session_new_def visits_turn_def on_inbox_def success_integer_def scan_integer_def
        scan_line.simps line_byte_def ascii_bytes_def)
  with scan_session_is_released [OF run] run show ?thesis by simp
qed

end
