(* ===== verification/Spec2Isabelle.thy ===== *)
theory Spec2Isabelle
  imports Direct_Radio Adaptive_Properties Flash_Environment Recovery_Properties Counter_Utc Pss_Properties Scan_Properties
begin

text \<open>
  A verification library for the Pluto+ radio utilities (\<open>src/src/pluto_plus/\<close>): the host side of a
  software radio. The library models the parts that decide something: what bytes are accepted from
  a radio, which samples are returned to a caller, which flash bytes may change, which timing and
  fault evidence is believed. Each theory follows one source file or one class of it and keeps its
  names; the theories are composed the way the files import each other.
\<close>

section \<open>The program and its model\<close>

text \<open>
  \<^bold>\<open>Shared vocabulary.\<close> \<open>Prelude\<close> has the exceptions as one datatype, results as sums
  (\<open>Inl\<close> raised, \<open>Inr\<close> returned), sequencing \<open>bindE\<close>, guard lists \<open>checks\<close> for the
  \<open>if ...: raise\<close> runs of the source, dictionaries as association lists in insertion order, and the
  locale \<open>state_machine\<close> (a step and an invariant it keeps). \<open>Wire\<close> is Python's \<open>struct\<close>
  and \<open>zlib.crc32\<close>; \<open>Text\<close> the string operations; \<open>Codec\<close> the contracts between record
  codecs (locales \<open>wire_codec\<close>, \<open>fixed_codec\<close>, \<open>record_layout\<close>), which every record of
  the development interprets and every embedding codec relies on. \<open>Restamp\<close> has the two ways in which
  a later protocol version reuses an earlier codec. \<open>Effects\<close> is for methods that mutate an object
  and may raise half-way, \<open>Actions\<close> for procedures whose calls share one world, with triples that
  bound the state on both exits.

  \<^bold>\<open>Direct radio\<close> (\<open>direct_radio/usb.py\<close>, \<open>direct_radio/ip.py\<close>). \<open>Usb_Records\<close>
  (control-plane records), \<open>Usb_Metadata\<close> (\<open>RadioMetadataV3\<close> and its tables), \<open>Usb_Parser\<close>
  (\<open>RxFrameParser\<close>, an incremental parser whose \<open>while\<close> loop is the \<open>function\<close> \<open>rx_loop\<close>
  with a measure on the buffered bytes), \<open>Ip_Control\<close>, \<open>Ip_Fragments\<close>, \<open>Ip_Reassembly\<close>
  (\<open>IpFrameReassembler\<close>; clock readings are arguments), \<open>Ip_Delivery\<close> (its lemmas) and
  \<open>Direct_Radio\<close> (the properties: chunking independence, order independence, bounds, error channel,
  integrity, canonical encodings).

  \<^bold>\<open>Hopping\<close>. \<open>persistent_hop.py\<close> is \<open>Hop_Request\<close>, \<open>Hop_Plan\<close>,
  \<open>Hop_Evidence\<close>, \<open>Hop_Status\<close> (records), \<open>Hop_Session\<close> (the evidence continuity machine),
  \<open>Hop_Receipt\<close> (the end of a session), \<open>Hop_Assembly\<close> (the visit iterator over blocks cut
  anywhere) and \<open>Hop_Properties\<close>. \<open>adaptive_hop.py\<close> and \<open>host_adaptive_hop.py\<close> are
  \<open>Adaptive_Hop\<close> and \<open>Host_Adaptive\<close>; the stream consumers of \<open>adaptive_hop_stream.py\<close> and
  \<open>host_adaptive_hop_stream.py\<close> are \<open>Adaptive_Stream\<close>, their lemmas \<open>Adaptive_Stream_Facts\<close>
  (once for any decoder of checked evidence, locale \<open>evidence_source\<close>, interpreted for both versions) and
  \<open>Adaptive_Properties\<close>. The radio is a parameter: a backend that answers anything and may raise. The
  block source of a hop session yields some blocks and then either is exhausted or raises any exception
  (\<open>stream_end\<close>), and the consumer either takes every result or drops the generator after some number of
  them (\<open>patience\<close>), which raises \<open>GeneratorExit\<close> where the generator is suspended.

  \<^bold>\<open>Adaptive scan\<close> (\<open>adaptive_scan.py\<close>, \<open>adaptive_scan_client.py\<close>).
  \<open>Scan_Records\<close> (the six records and their common header and CRC), \<open>Scan_Reports\<close> (feedback and
  detector reports), \<open>Scan_Client\<close> (the exact readers and the commands; a socket is the list of arrivals
  still to come, the server a function), \<open>Scan_Session\<close> (\<open>AdaptiveScanSession\<close>: the
  generator \<open>visits\<close> is resumed once per request of its consumer). Lemmas: \<open>Scan_Facts\<close> (the codec
  contract, a locale interpreted for each record), \<open>Scan_Stream_Facts\<close> (what is read does not depend on
  the segmentation), \<open>Scan_Ledger\<close> (the specification of a lawful stream and the session's counters);
  properties: \<open>Scan_Properties\<close>.

  \<^bold>\<open>Firmware and flash\<close>. \<open>Firmware_Image\<close> (\<open>firmware.py\<close>: containers and single-use
  confirmation tokens), \<open>Flash_Safety\<close> (\<open>flash_ranges.py\<close>, \<open>flash_safety.py\<close>: the write
  policy), \<open>Flash_Environment\<close> (the U-Boot environment and the post-write check).

  \<^bold>\<open>Flash recovery\<close> (\<open>recovery/\<close>). \<open>Recovery_Contracts\<close> (\<open>contracts.py\<close>,
  \<open>profiles.py\<close>), \<open>Recovery_Fit\<close> (\<open>fit.py\<close>), \<open>Recovery_Planner\<close> (\<open>planner.py\<close>),
  \<open>Recovery_Store\<close> (\<open>store.py\<close> and the \<open>Backend\<close> protocol), \<open>Recovery_Workflow\<close>
  (\<open>workflow.py\<close>, each procedure an action over blobs, journal and device). Lemmas:
  \<open>Recovery_Plan_Facts\<close>, \<open>Recovery_Workflow_Facts\<close>, \<open>Recovery_Journal\<close> (what is
  written to the journal and the flash however a procedure ends), \<open>Recovery_Order\<close> (which journals are
  reachable), \<open>Recovery_Admission\<close> (which memory the components of an admitted FIT load into, stated
  over the parsed tree); \<open>Recovery_Bench\<close> is one complete session on which the properties of
  \<open>Recovery_Properties\<close> are evaluated.

  \<^bold>\<open>Timing evidence\<close>. \<open>Counter_Utc\<close> (\<open>counter_utc.py\<close>): counter and host clock
  observations, the UTC interval of a sample and the qualification of a capture, with the physical meaning
  of the evidence as definitions over real-valued clocks.

  \<^bold>\<open>PSS evidence\<close> (\<open>hardware/\<close>). \<open>Pss_Records\<close> (\<open>pss_iio.py\<close>: fine packets,
  map chunks, the map reassembler, the decoding of native batches, the coarse search), \<open>Pilot_Snapshot\<close>
  (\<open>pilot_iio.py\<close>, the PIL1 record), \<open>Source_Support\<close> (\<open>source_support.py\<close>: intervals,
  lattices, supports and the join of evidence) and \<open>Fine_Schedule\<close> (\<open>fine_schedule.py\<close>: the finite
  schedule, its ledger and the validation of a batch, which calls the decoder of \<open>Pss_Records\<close> and
  constructs the records of \<open>Source_Support\<close>). Lemmas: \<open>Pss_Maps\<close>, \<open>Source_Facts\<close>,
  \<open>Fine_Facts\<close>, \<open>Fine_Ledger\<close>; properties: \<open>Pss_Properties\<close>.
\<close>

section \<open>What the theorems show\<close>

text \<open>
  Round trips: every wire record of the modelled protocols has exactly one encoding, and a byte string
  decodes exactly when it is that encoding. Functional results: parsers and reassemblers return exactly the
  transmitted frames or visits for every way in which the transport may cut, reorder or repeat them.
  Invariants: bounds, counters and partitions kept over every history of inputs, the adversarial
  ones included. Safety of writes: policy, plan, journal and flash agree however an execution is interrupted,
  and a reported success means the planned image is in the flash. Error behaviour: which exceptions can
  escape, that a failed object refuses further work, and that a session is released on every exit, the
  consumer dropping it included. Termination: the open loops of the source end on every input.
\<close>

section \<open>Parameters, bounds and fuel\<close>

text \<open>
  Hash functions (SHA-256, MD5), the gzip decompressor, the JSON form of a recovery record, radio back-ends,
  flash transports and the clock are parameters or arguments; hypotheses about them are named definitions
  (for example that a transport which reports success has done what it was told), and the witnesses
  instantiate them with concrete functions. CRC-32 is computed, not assumed.

  Loops are structural recursions. The exceptions are \<open>rx_loop\<close> of \<open>Usb_Parser\<close>,
  \<open>scan_line\<close> and \<open>scan_exact\<close> of \<open>Scan_Client\<close> and \<open>split_fields\<close> of
  \<open>Pilot_Snapshot\<close>, total by a measure, and \<open>fdt_loop\<close> of \<open>Recovery_Fit\<close>, a
  \<open>partial_function (option)\<close> whose return on every byte string is \<open>fit_parser_terminates\<close>. No
  definition takes fuel: the number of requests of a scan session and the patience of a hop session's consumer
  are what the caller does, and the theorems hold for all of them.

  Python integers are \<open>int\<close> (or \<open>nat\<close> where the source guards the sign); the width checks of the
  source are guards of the model, bytes are \<open>8 word\<close>. Guards of the source that test a value's Python
  type hold by the type of the model and have no counterpart. Interpolated values are left out of
  exception messages. Enumerations decoded from wire integers keep the failing branch.
\<close>

section \<open>Not modelled\<close>

text \<open>
  The continuous variant of the scan records (\<open>continuous_scan.py\<close>), the tandem gain records
  (\<open>tandem.py\<close>) and the DDR ring status (\<open>ddr_ring.py\<close>). The command line, the REST service, inventory and doctor, deployment and host set-up, the IIO, libusb and
  socket back-ends, campaign and qualification drivers: they order calls of subprocesses, SSH, ctypes and
  files whose behaviour is outside the repository, and their values come from live devices. Signal analysis
  is numpy arithmetic over floating point. Within the modelled files: file permissions and locks, the hash
  chain of the journal, sanitized reports and operator dialogue of recovery; the advisory metadata extension
  of a hop session; progress text; \<open>FirmwareManager\<close>; \<open>append_to_tandem_request\<close>.
\<close>

end
